(* ===== verification/Dlp_Prelude.thy ===== *)
theory Dlp_Prelude
  imports Main "HOL-Library.Word" "HOL-Library.Signed_Division" "HOL-Library.While_Combinator"
begin

text \<open>
  Shared material of the development: the integer types of the library
  (\<^verbatim>\<open>classic/dlp_base_types.h\<close>), the collections the component proofs draw on, and the
  arithmetic of C division that every component uses.

  \<^item> \<open>md_t\<close>/\<open>iter_t\<close> are \<^verbatim>\<open>int64_t\<close> in C. Dimensions reach the modelled code only after
    the argument checks bound them by \<open>INT32_MAX\<close>, so they are \<^typ>\<open>int\<close> here; the places
    where wrap-around matters (buffer sizes, packed ways) use words.
  \<^item> C division truncates: \<open>sdiv\<close> and \<open>smod\<close> of \<open>Signed_Division\<close>.
\<close>

type_synonym md_t = int
type_synonym msz_t = "64 word"
type_synonym int32_t = "32 word"
type_synonym int64_t = "64 word"

named_theorems cdiv_simps \<open>C division on the non-negative values the code divides\<close>
named_theorems blk_simps \<open>block counts and rounding to a multiple\<close>

abbreviation ceil_blks :: "md_t \<Rightarrow> md_t \<Rightarrow> md_t" where
  "ceil_blks a b \<equiv> (a + b - 1) sdiv b"

section \<open>Truncating division on non-negative integers\<close>

lemma sdiv_nonneg [cdiv_simps]: "0 \<le> a \<Longrightarrow> 0 \<le> b \<Longrightarrow> a sdiv b = a div b" for a b :: int
  by (cases "a = 0"; cases "b = 0") (simp_all add: signed_divide_int_def)

lemma smod_nonneg [cdiv_simps]: "0 \<le> a \<Longrightarrow> 0 \<le> b \<Longrightarrow> a smod b = a mod b" for a b :: int
  by (cases "a = 0"; cases "b = 0") (simp_all add: signed_modulo_int_def)

lemma sdiv_ge_0 [intro]: "0 \<le> a \<Longrightarrow> 0 \<le> b \<Longrightarrow> 0 \<le> a sdiv b" for a b :: int
  by (simp add: cdiv_simps div_int_pos_iff)

lemma sdiv_le_dividend: "0 \<le> a \<Longrightarrow> 0 < b \<Longrightarrow> a sdiv b \<le> a" for a b :: int
  using zdiv_mono2 [of a 1 b] by (simp add: cdiv_simps)

lemma smod_bounds: "0 \<le> a \<Longrightarrow> 0 < b \<Longrightarrow> 0 \<le> a smod b \<and> a smod b < b" for a b :: int
  by (simp add: cdiv_simps)

lemma ceil_blks_ge_1: "0 < a \<Longrightarrow> 0 < b \<Longrightarrow> 1 \<le> ceil_blks a b"
proof -
  assume "0 < a" and b: "0 < b"
  then have "b div b \<le> (a + b - 1) div b" by (intro zdiv_mono1) simp_all
  with b \<open>0 < a\<close> show ?thesis by (simp add: cdiv_simps)
qed

lemma ceil_blks_covers: "0 \<le> a \<Longrightarrow> 0 < b \<Longrightarrow> a \<le> ceil_blks a b * b"
proof -
  assume a: "0 \<le> a" and b: "0 < b"
  have "a + b - 1 = (a + b - 1) div b * b + (a + b - 1) mod b"
    by (rule div_mult_mod_eq [symmetric])
  moreover have "(a + b - 1) mod b < b" using b by simp
  ultimately have "a \<le> (a + b - 1) div b * b" by linarith
  then show ?thesis using a b by (simp add: cdiv_simps)
qed

lemma ceil_blks_tight: "0 \<le> a \<Longrightarrow> 0 < b \<Longrightarrow> ceil_blks a b * b < a + b"
proof -
  assume a: "0 \<le> a" and b: "0 < b"
  have "(a + b - 1) div b * b \<le> a + b - 1"
    using div_mult_mod_eq [of "a + b - 1" b] pos_mod_sign [OF b, of "a + b - 1"] by linarith
  with a b show ?thesis by (simp add: cdiv_simps)
qed

text \<open>The two shapes the round-up of a value takes: on a multiple it changes nothing, and it is
  monotone.\<close>

lemma ceil_blks_multiple [blk_simps]: "0 \<le> q \<Longrightarrow> 0 < b \<Longrightarrow> ceil_blks (q * b) b = q"
proof -
  assume q: "0 \<le> q" and b: "0 < b"
  have "0 \<le> q * b + b - 1" using q b by (simp add: add_nonneg_pos)
  moreover have "(q * b + b - 1) div b = q"
  proof -
    have "(q * b + b - 1) div b = ((b - 1) + q * b) div b" by (simp add: algebra_simps)
    also have "\<dots> = q + (b - 1) div b" using b by (simp add: div_mult_self1)
    finally show ?thesis using b by simp
  qed
  ultimately show ?thesis using b by (simp add: cdiv_simps)
qed

lemma ceil_blks_mono: "0 \<le> a \<Longrightarrow> a \<le> a' \<Longrightarrow> 0 < b \<Longrightarrow> ceil_blks a b \<le> ceil_blks a' b"
  by (simp add: cdiv_simps zdiv_mono1)

section \<open>Integer intervals\<close>

lemma div_times_le: "0 < b \<Longrightarrow> a div b * b \<le> a" "0 < b \<Longrightarrow> b * (a div b) \<le> a" for a b :: int
proof -
  assume "0 < b"
  then show "a div b * b \<le> a" using div_mult_mod_eq [of a b] pos_mod_sign [of b a] by linarith
  then show "b * (a div b) \<le> a" by (simp add: mult.commute)
qed

lemma div_eq_in_block: "0 < b \<Longrightarrow> q * b \<le> i \<Longrightarrow> i < (q + 1) * b \<Longrightarrow> i div b = q" for b q i :: int
  by (simp add: int_div_pos_eq [of i b q "i - q * b"] algebra_simps)

lemma div_less_blocks: "0 < b \<Longrightarrow> i < q * b \<Longrightarrow> i div b < q" for b q i :: int
  using mult_right_mono [of q "i div b" b] div_times_le(1) [of b i] by linarith

lemma mult_less_block: "0 < b \<Longrightarrow> q * b < p * b \<longleftrightarrow> q < p" for b q p :: int
  by simp

end
