(* ===== verification/Dlp_Types.thy ===== *)
theory Dlp_Types
  imports Dlp_Prelude
begin

text \<open>
  Data types shared by the components, with the constructors and field order of the source:
  error codes (\<^verbatim>\<open>include/classic/dlp_errors.h\<close>), storage types and operation kinds
  (\<^verbatim>\<open>include/classic/aocl_gemm_metadata.h\<close>, \<^verbatim>\<open>classic/include/dlp_gemm_types.h\<close>), memory
  tags and the GEMM context (\<^verbatim>\<open>capi_kernel_frame_wrappers.h\<close>) and the run time record
  (\<^verbatim>\<open>classic/include/runtime/dlp_runtime.h\<close>).

  A pointer the modelled code only tests or hands on is a \<open>ptr\<close>, a number with \<open>0\<close> for
  \<open>NULL\<close>; a pointer to a struct the code reads is an \<open>option\<close>. Enumerations that the code
  also uses as numbers have their \<open>..._code\<close> function; the code tests some of them against
  values outside the enumeration, and there the model works on the number itself.
\<close>

type_synonym ptr = nat

definition dlp_min :: "md_t \<Rightarrow> md_t \<Rightarrow> md_t" where
  "dlp_min a b = (if a < b then a else b)"

definition dlp_max :: "md_t \<Rightarrow> md_t \<Rightarrow> md_t" where
  "dlp_max a b = (if a > b then a else b)"

definition dlp_abs :: "md_t \<Rightarrow> md_t" where
  "dlp_abs a = (if a \<le> 0 then - a else a)"

section \<open>Error codes\<close>

datatype dlp_clsc_err_t =
    DLP_CLSC_SUCCESS | DLP_CLSC_FAILURE | DLP_CLSC_NULL_POINTER | DLP_CLSC_UNEXPECTED_VECTOR_DIM
  | DLP_CLSC_INVALID_DATA_TYPE | DLP_CLSC_NOT_SUPPORTED | DLP_CLSC_INVALID_ORDER
  | DLP_CLSC_INVALID_TRANSPOSE | DLP_CLSC_INVALID_MEMORY_TAG | DLP_CLSC_INVALID_MATRIX_DIMENSION
  | DLP_CLSC_INVALID_LEADING_DIMENSION | DLP_CLSC_INVALID_MATRIX_TYPE
  | DLP_CLSC_INVALID_GROUP_DIMENSION | DLP_CLSC_INVALID_SF_LEN | DLP_CLSC_INVALID_ZP_LEN
  | DLP_CLSC_TYPE_MISMATCH | DLP_CLSC_INVALID_JIT_KERNEL | DLP_CLSC_INVALID_KERNEL
  | DLP_CLSC_INVALID_BLOCK_PARAMS | DLP_CLSC_INVALID_SUP_THRESHOLDS | DLP_CLSC_INVALID_GEMM_HINTS
  | DLP_CLSC_HINT_MISMATCH | DLP_CLSC_ERROR_MAX

section \<open>Operation kinds, layout tags and element types\<close>

datatype AOCL_DLP_OPERATION_TYPE =
    U8S8S16OS16 | U8S8S32OS32 | F32F32F32OF32 | BF16BF16F32OF32 | S8S8S32OS32 | S8S8S16OS16
  | U8S4S32OS32 | BF16S4F32OF32 | F32OBF16 | F16F16F16OF16 | BF16U4F32OF32 | F32F16F32OF32

primrec op_type_code :: "AOCL_DLP_OPERATION_TYPE \<Rightarrow> int" where
  "op_type_code U8S8S16OS16 = 0"
| "op_type_code U8S8S32OS32 = 1"
| "op_type_code F32F32F32OF32 = 2"
| "op_type_code BF16BF16F32OF32 = 3"
| "op_type_code S8S8S32OS32 = 4"
| "op_type_code S8S8S16OS16 = 5"
| "op_type_code U8S4S32OS32 = 6"
| "op_type_code BF16S4F32OF32 = 7"
| "op_type_code F32OBF16 = 8"
| "op_type_code F16F16F16OF16 = 9"
| "op_type_code BF16U4F32OF32 = 10"
| "op_type_code F32F16F32OF32 = 11"

definition AOCL_DLP_OPERATION_TYPE_LEN :: int where "AOCL_DLP_OPERATION_TYPE_LEN = 12"

datatype AOCL_DLP_ELTWISE_OPS_OPERATION_TYPE = BF16OF32 | F32OF32

datatype AOCL_DLP_TID_DISTR_TYPE = DEFAULT | STRIDE2

datatype AOCL_DLP_MEMORY_TAG = UNPACKED | PACK | PACK_KC | PACK_NR | REORDERED

datatype AOCL_DLP_MATRIX_TYPE = A_MATRIX | B_MATRIX | AWQ_B_MATRIX

datatype dlp_trans_t =
  DLP_NO_TRANSPOSE | DLP_TRANSPOSE | DLP_CONJ_NO_TRANSPOSE | DLP_CONJ_TRANSPOSE | DLP_PACKED

datatype DLP_TYPE =
    DLP_INVALID | DLP_S4 | DLP_U4 | DLP_F4 | DLP_S8 | DLP_U8 | DLP_S16 | DLP_U16 | DLP_F16
  | DLP_BF16 | DLP_S32 | DLP_U32 | DLP_F32 | DLP_MAX

datatype DLP_PARAM_DIM_TYPE =
    DLP_PARAM_DIM_INVALID | DLP_PARAM_DIM_PER_TENSOR | DLP_PARAM_DIM_PER_CHANNEL
  | DLP_PARAM_DIM_PER_TOKEN | DLP_PARAM_DIM_PER_GROUP

datatype DLP_QUANT_OP_KIND =
  DLP_QUANT_OP_NONE | DLP_QUANT_OP_QUANTIZE | DLP_QUANT_OP_DEQUANTIZE | DLP_QUANT_OP_EXPAND

section \<open>Block sizes, thresholds and the GEMM context\<close>

record dlp_gemm_block_size_t =
  bs_MC :: md_t
  bs_NC :: md_t
  bs_KC :: md_t
  bs_NR :: md_t
  bs_MR :: md_t

record dlp_gemm_pack_strides_t =
  packa_rs :: md_t
  packa_cs :: md_t
  packb_rs :: md_t
  packb_cs :: md_t

record dlp_gemm_sup_thres_t =
  st_MT :: md_t
  st_NT :: md_t
  st_KT :: md_t

record dlp_gemm_thread_info_t =
  ti_num_threads :: md_t
  ti_ic_ways :: md_t
  ti_jc_ways :: md_t

record dlp_kernel_hndl_t =
  kh_kernel_base :: ptr
  kh_mr :: md_t
  kh_nr :: md_t

record dlp_gemm_kernel_hints_t =
  kh_m_hint :: md_t
  kh_nt_hint :: md_t

record dlp_gemm_cntx_t =
  cx_blksz :: dlp_gemm_block_size_t
  cx_blksz_set_mask :: md_t
  cx_kern_fun_ptr :: ptr
  cx_packa_fun_ptr :: ptr
  cx_packb_mxp_fun_ptr :: ptr
  cx_packb_fun_ptr :: ptr
  cx_unpackb_fun_ptr :: ptr
  cx_packsclb_fun_ptr :: ptr
  cx_pack_s :: dlp_gemm_pack_strides_t
  cx_sup_thres :: dlp_gemm_sup_thres_t
  cx_thread_info :: dlp_gemm_thread_info_t
  cx_dlp_kernel_hndl :: dlp_kernel_hndl_t
  cx_gemm_kernel_hints :: dlp_gemm_kernel_hints_t

record dlp_gemm_eltwise_ops_cntx_t =
  ex_blksz :: dlp_gemm_block_size_t
  ex_eltwise_ops_kern_fun_ptr :: ptr

section \<open>Caller metadata\<close>

record dlp_gemm_blocking_t =
  bp_MR :: md_t
  bp_NR :: md_t
  bp_MC :: md_t
  bp_NC :: md_t
  bp_KC :: md_t

record dlp_gemm_sup_threshold_t =
  sp_MT :: md_t
  sp_NT :: md_t
  sp_KT :: md_t

record dlp_gemm_hints_t =
  gh_m_hint :: md_t
  gh_nt_hint :: md_t

section \<open>Run time configuration\<close>

record dlp_rntm_t =
  rn_num_threads :: md_t
  rn_ic_ways :: md_t
  rn_jc_ways :: md_t
  rn_pack_a :: bool
  rn_pack_b :: bool
  rn_ext_mt_ctr_var :: bool

text \<open>Block sizes a driver can divide by. The library's tables and the metadata merge establish
  it; every loop of the framework relies on it.\<close>

definition blksz_ok :: "dlp_gemm_block_size_t \<Rightarrow> bool" where
  "blksz_ok b \<longleftrightarrow> 0 < bs_MC b \<and> 0 < bs_NC b \<and> 0 < bs_KC b \<and> 0 < bs_NR b \<and> 0 < bs_MR b"

lemma blksz_okD [dest]:
  "blksz_ok b \<Longrightarrow> 0 < bs_MC b \<and> 0 < bs_NC b \<and> 0 < bs_KC b \<and> 0 < bs_NR b \<and> 0 < bs_MR b"
  by (simp add: blksz_ok_def)

lemma dlp_min_bounds: "dlp_min a b \<le> a" "dlp_min a b \<le> b"
  by (simp_all add: dlp_min_def)

lemma dlp_min_pos: "0 < a \<Longrightarrow> 0 < b \<Longrightarrow> 0 < dlp_min a b"
  by (simp add: dlp_min_def)

end
