(* ===== verification/Post_Ops.thy ===== *)
theory Post_Ops
  imports Dlp_Types
begin

text \<open>
  Translation of caller metadata into the operation lists the kernels run,
  \<^verbatim>\<open>classic/frame/dlp_gemm_post_ops.c\<close>: post-ops, group post-ops, pre-ops, the quantisation node
  and the terminal gated unit.

  A buffer the code only tests and hands on is a \<open>ptr\<close>. A caller array is a list, \<open>None\<close> for NULL;
  the node array is a list and \<open>next\<close> an index into it. A function that reads or writes such an
  array returns an \<open>option\<close>, with \<open>None\<close> for an access outside it, so that freedom from such accesses
  is something to prove. Error returns are values; on an error the node array is returned as far
  as it was written. Enumerations the code has a default branch for carry a constructor for all
  other values.
\<close>

section \<open>Metadata\<close>

datatype DLP_ELT_ALGO_TYPE =
  RELU | PRELU | GELU_TANH | GELU_ERF | CLIP | SWISH | TANH | SIGMOID | MISH | ELT_ALGO_OTHER

datatype DLP_GLU_ALGO_TYPE = GATED_SWIGLU | GATED_SWIGLU_AND_MUL | DLP_GLU_ALGO_MAX

datatype DLP_POST_OP_TYPE = ELTWISE | BIAS | SCALE | MATRIX_ADD | MATRIX_MUL | POST_OP_OTHER

record dlp_zp_t =
  zero_point :: ptr
  zero_point_len :: md_t
  zero_point_type :: DLP_TYPE
  zero_point_dim :: DLP_PARAM_DIM_TYPE

record dlp_sf_t =
  scale_factor :: ptr
  scale_factor_len :: md_t
  scale_factor_type :: DLP_TYPE
  scale_factor_dim :: DLP_PARAM_DIM_TYPE

record dlp_qparam_t =
  qp_data :: ptr
  qp_len :: md_t
  qp_stor_type :: DLP_TYPE
  qp_outer_dim :: DLP_PARAM_DIM_TYPE

record dlp_quant_op_t =
  quant_op_kind :: DLP_QUANT_OP_KIND
  qo_src_type :: DLP_TYPE
  qo_dst_type :: DLP_TYPE
  qo_group_size :: md_t
  quant_scale_factors :: "dlp_qparam_t option"
  dequant_scale_factors :: "dlp_qparam_t option"
  qo_zero_point :: "dlp_qparam_t option"

record dlp_eltwise_algo_t =
  alg_alpha :: ptr
  alg_beta :: ptr
  algo_type :: DLP_ELT_ALGO_TYPE
  alg_stor_type :: DLP_TYPE

record dlp_scale_t =
  sc_sf :: "dlp_sf_t option"
  sc_zp :: "dlp_zp_t option"

record dlp_post_op_eltwise =
  el_sf :: "dlp_sf_t option"
  el_algo :: dlp_eltwise_algo_t

record dlp_post_op_bias =
  bi_bias :: ptr
  bi_stor_type :: DLP_TYPE
  bi_sf :: "dlp_sf_t option"
  bi_zp :: "dlp_zp_t option"
  bias_len :: md_t

text \<open>\<open>dlp_post_op_matrix_add\<close> and \<open>dlp_post_op_matrix_mul\<close> have the same fields.\<close>

record dlp_post_op_matrix =
  mx_matrix :: ptr
  mx_ldm :: md_t
  mx_stor_type :: DLP_TYPE
  mx_sf :: "dlp_sf_t option"

record dlp_term_op_glu =
  glu_algo_type :: DLP_GLU_ALGO_TYPE
  gl_d :: ptr
  gl_ld_d :: md_t
  gl_alpha :: ptr
  gl_beta :: ptr
  gl_stor_type :: DLP_TYPE

record dlp_metadata_t =
  md_scale :: "dlp_scale_t list option"
  md_eltwise :: "dlp_post_op_eltwise list option"
  md_bias :: "dlp_post_op_bias list option"
  md_matrix_add :: "dlp_post_op_matrix list option"
  md_matrix_mul :: "dlp_post_op_matrix list option"
  md_seq_length :: md_t
  md_seq_vector :: "DLP_POST_OP_TYPE list option"
  md_a_quant_op :: "dlp_quant_op_t option"
  md_b_quant_op :: "dlp_quant_op_t option"
  md_glu :: "dlp_term_op_glu option"

definition AOCL_DLP_MAX_POST_OPS :: md_t where "AOCL_DLP_MAX_POST_OPS = 8"

section \<open>Nodes\<close>

datatype DLP_GEMM_POST_OP_CODE =
    POST_OPS_DISABLE | POST_OPS_BIAS | POST_OPS_RELU | POST_OPS_RELU_SCALE | POST_OPS_GELU_TANH
  | POST_OPS_GELU_ERF | POST_OPS_CLIP | POST_OPS_DOWNSCALE | POST_OPS_MATRIX_ADD | POST_OPS_SWISH
  | POST_OPS_MATRIX_MUL | POST_OPS_TANH | POST_OPS_SIGMOID | POST_OPS_SUM | POST_OPS_ADQUANTIZE
  | POST_OPS_MISH | POST_OPS_GATED_SWIGLU | POST_OPS_GATED_SWIGLU_AND_MUL

primrec post_op_num :: "DLP_GEMM_POST_OP_CODE \<Rightarrow> nat" where
  "post_op_num POST_OPS_DISABLE = 0"
| "post_op_num POST_OPS_BIAS = 1"
| "post_op_num POST_OPS_RELU = 2"
| "post_op_num POST_OPS_RELU_SCALE = 3"
| "post_op_num POST_OPS_GELU_TANH = 4"
| "post_op_num POST_OPS_GELU_ERF = 5"
| "post_op_num POST_OPS_CLIP = 6"
| "post_op_num POST_OPS_DOWNSCALE = 7"
| "post_op_num POST_OPS_MATRIX_ADD = 8"
| "post_op_num POST_OPS_SWISH = 9"
| "post_op_num POST_OPS_MATRIX_MUL = 10"
| "post_op_num POST_OPS_TANH = 11"
| "post_op_num POST_OPS_SIGMOID = 12"
| "post_op_num POST_OPS_SUM = 13"
| "post_op_num POST_OPS_ADQUANTIZE = 14"
| "post_op_num POST_OPS_MISH = 15"
| "post_op_num POST_OPS_GATED_SWIGLU = 16"
| "post_op_num POST_OPS_GATED_SWIGLU_AND_MUL = 17"

definition DLP_CLASSIC_MAX_POST_OP_CODE :: DLP_GEMM_POST_OP_CODE where
  "DLP_CLASSIC_MAX_POST_OP_CODE = POST_OPS_SIGMOID"

text \<open>\<open>op_args3\<close> is a caller pointer or the address of a length; the scale factor of a node is a
  caller buffer or the static identity scale.\<close>

datatype arg3 = Arg_ptr ptr | Arg_len md_t
datatype sf_ref = Buf ptr | Identity_scale

record dlp_gemm_post_op =
  op_code :: DLP_GEMM_POST_OP_CODE
  op_args1 :: ptr
  op_args2 :: ptr
  op_args3 :: arg3
  po_scale_factor :: sf_ref
  po_scale_factor_len :: md_t
  bias_zp :: ptr
  bias_zp_len :: md_t
  po_stor_type :: DLP_TYPE
  po_zp_stor_type :: DLP_TYPE
  po_sf_stor_type :: DLP_TYPE
  po_scale_factor_dim :: DLP_PARAM_DIM_TYPE
  glu_d :: ptr
  glu_ld_d :: md_t
  po_next :: "nat option"

definition dlp_gemm_set_node_params ::
  "DLP_GEMM_POST_OP_CODE \<Rightarrow> ptr \<Rightarrow> ptr \<Rightarrow> arg3 \<Rightarrow> sf_ref \<Rightarrow> md_t \<Rightarrow> ptr \<Rightarrow> md_t \<Rightarrow> DLP_TYPE \<Rightarrow> DLP_TYPE \<Rightarrow> DLP_TYPE \<Rightarrow>
   DLP_PARAM_DIM_TYPE \<Rightarrow> dlp_gemm_post_op" where
  "dlp_gemm_set_node_params code op1 op2 op3 sf sf_len bzp bzp_len stor zp_stor sf_stor sf_dim =
     \<lparr>op_code = code, op_args1 = op1, op_args2 = op2, op_args3 = op3, po_scale_factor = sf,
      po_scale_factor_len = sf_len, bias_zp = bzp, bias_zp_len = bzp_len, po_stor_type = stor,
      po_zp_stor_type = zp_stor, po_sf_stor_type = sf_stor, po_scale_factor_dim = sf_dim, glu_d = 0,
      glu_ld_d = 0, po_next = None\<rparr>"

definition disabled_node :: dlp_gemm_post_op where
  "disabled_node = dlp_gemm_set_node_params POST_OPS_DISABLE 0 0 (Arg_ptr 0) (Buf 0) 0 0 0
     DLP_INVALID DLP_INVALID DLP_INVALID DLP_PARAM_DIM_INVALID"

definition dlp_gemm_get_stor_type :: "DLP_TYPE \<Rightarrow> DLP_TYPE" where
  "dlp_gemm_get_stor_type pstor_type =
     (case pstor_type of DLP_F32 \<Rightarrow> DLP_F32 | DLP_BF16 \<Rightarrow> DLP_BF16 | DLP_F16 \<Rightarrow> DLP_F16
      | DLP_S8 \<Rightarrow> DLP_S8 | DLP_U8 \<Rightarrow> DLP_U8 | DLP_S32 \<Rightarrow> DLP_S32 | _ \<Rightarrow> DLP_INVALID)"

section \<open>One post-op\<close>

text \<open>The length rules the cases share.\<close>

definition sf_null :: "dlp_sf_t option \<Rightarrow> bool" where
  "sf_null sf = (case sf of None \<Rightarrow> False | Some s \<Rightarrow> scale_factor_len s > 0 \<and> scale_factor s = 0)"

definition sf_bad_len :: "dlp_sf_t option \<Rightarrow> md_t \<Rightarrow> bool" where
  "sf_bad_len sf n = (case sf of None \<Rightarrow> False | Some s \<Rightarrow> scale_factor_len s \<noteq> 1 \<and> scale_factor_len s \<noteq> n)"

definition zp_null :: "dlp_zp_t option \<Rightarrow> bool" where
  "zp_null zp = (case zp of None \<Rightarrow> False | Some z \<Rightarrow> zero_point_len z > 0 \<and> zero_point z = 0)"

definition sf_buf :: "dlp_sf_t option \<Rightarrow> sf_ref" where
  "sf_buf sf = (case sf of None \<Rightarrow> Buf 0 | Some s \<Rightarrow> Buf (scale_factor s))"

definition sf_length :: "dlp_sf_t option \<Rightarrow> md_t" where
  "sf_length sf = (case sf of None \<Rightarrow> 0 | Some s \<Rightarrow> scale_factor_len s)"

definition sf_stor :: "dlp_sf_t option \<Rightarrow> DLP_TYPE" where
  "sf_stor sf = (case sf of None \<Rightarrow> DLP_INVALID | Some s \<Rightarrow> dlp_gemm_get_stor_type (scale_factor_type s))"

definition zp_stor :: "dlp_zp_t option \<Rightarrow> DLP_TYPE" where
  "zp_stor zp = (case zp of None \<Rightarrow> DLP_INVALID | Some z \<Rightarrow> dlp_gemm_get_stor_type (zero_point_type z))"

definition dim_of_len :: "dlp_sf_t option \<Rightarrow> DLP_PARAM_DIM_TYPE" where
  "dim_of_len sf = (case sf of None \<Rightarrow> DLP_PARAM_DIM_INVALID
     | Some s \<Rightarrow> if scale_factor_len s = 1 then DLP_PARAM_DIM_PER_TENSOR else DLP_PARAM_DIM_PER_CHANNEL)"

text \<open>The algorithm dispatcher of \<open>ELTWISE\<close>: the code and storage type, or an error.\<close>

definition eltwise_code :: "dlp_eltwise_algo_t \<Rightarrow> dlp_clsc_err_t + (DLP_GEMM_POST_OP_CODE \<times> DLP_TYPE)" where
  "eltwise_code a =
     (case algo_type a of
        RELU \<Rightarrow> Inr (POST_OPS_RELU, DLP_INVALID)
      | PRELU \<Rightarrow> if alg_alpha a = 0 then Inl DLP_CLSC_NULL_POINTER
                 else Inr (POST_OPS_RELU_SCALE, dlp_gemm_get_stor_type (alg_stor_type a))
      | GELU_TANH \<Rightarrow> Inr (POST_OPS_GELU_TANH, DLP_INVALID)
      | GELU_ERF \<Rightarrow> Inr (POST_OPS_GELU_ERF, DLP_INVALID)
      | CLIP \<Rightarrow> if alg_alpha a = 0 \<or> alg_beta a = 0 then Inl DLP_CLSC_NULL_POINTER
                else Inr (POST_OPS_CLIP, dlp_gemm_get_stor_type (alg_stor_type a))
      | SWISH \<Rightarrow> if alg_alpha a = 0 then Inl DLP_CLSC_NULL_POINTER
                 else Inr (POST_OPS_SWISH, dlp_gemm_get_stor_type (alg_stor_type a))
      | TANH \<Rightarrow> Inr (POST_OPS_TANH, DLP_INVALID)
      | SIGMOID \<Rightarrow> Inr (POST_OPS_SIGMOID, DLP_INVALID)
      | MISH \<Rightarrow> Inr (POST_OPS_MISH, DLP_INVALID)
      | ELT_ALGO_OTHER \<Rightarrow> Inr (POST_OPS_DISABLE, DLP_INVALID))"

definition eltwise_node :: "md_t \<Rightarrow> dlp_post_op_eltwise \<Rightarrow> dlp_clsc_err_t + dlp_gemm_post_op" where
  "eltwise_node n e =
     (case eltwise_code (el_algo e) of
        Inl err \<Rightarrow> Inl err
      | Inr (tmp_code, tmp_stor_type) \<Rightarrow>
          if sf_bad_len (el_sf e) n then Inl DLP_CLSC_UNEXPECTED_VECTOR_DIM
          else Inr (dlp_gemm_set_node_params tmp_code 0 (alg_alpha (el_algo e)) (Arg_ptr (alg_beta (el_algo e)))
                 (sf_buf (el_sf e)) (sf_length (el_sf e)) 0 0 tmp_stor_type DLP_INVALID DLP_INVALID
                 (dim_of_len (el_sf e))))"

definition bias_node :: "ptr \<Rightarrow> md_t \<Rightarrow> dlp_post_op_bias \<Rightarrow> dlp_clsc_err_t + dlp_gemm_post_op" where
  "bias_node meta_arg n b =
     (if bi_bias b = 0 then Inl DLP_CLSC_NULL_POINTER
      else if bias_len b \<noteq> 1 \<and> bias_len b \<noteq> n then Inl DLP_CLSC_UNEXPECTED_VECTOR_DIM
      else if sf_null (bi_sf b) then Inl DLP_CLSC_NULL_POINTER
      else if sf_bad_len (bi_sf b) n then Inl DLP_CLSC_UNEXPECTED_VECTOR_DIM
      else if zp_null (bi_zp b) then Inl DLP_CLSC_NULL_POINTER
      else if (case bi_zp b of None \<Rightarrow> False | Some z \<Rightarrow> zero_point_len z \<noteq> 1 \<and> zero_point_len z \<noteq> n)
      then Inl DLP_CLSC_UNEXPECTED_VECTOR_DIM
      else Inr (dlp_gemm_set_node_params POST_OPS_BIAS (bi_bias b) meta_arg
             (if bias_len b > 0 then Arg_len (bias_len b) else Arg_ptr 0)
             (sf_buf (bi_sf b)) (sf_length (bi_sf b))
             (case bi_zp b of None \<Rightarrow> 0 | Some z \<Rightarrow> zero_point z)
             (case bi_zp b of None \<Rightarrow> 0 | Some z \<Rightarrow> zero_point_len z)
             (dlp_gemm_get_stor_type (bi_stor_type b)) (zp_stor (bi_zp b)) (sf_stor (bi_sf b))
             (dim_of_len (bi_sf b))))"

definition scale_dim_ok :: "md_t \<Rightarrow> md_t \<Rightarrow> dlp_sf_t \<Rightarrow> bool" where
  "scale_dim_ok m n sf =
     (case scale_factor_dim sf of
        DLP_PARAM_DIM_PER_TENSOR \<Rightarrow> scale_factor_len sf = 1
      | DLP_PARAM_DIM_PER_TOKEN \<Rightarrow> scale_factor_len sf = m
      | DLP_PARAM_DIM_PER_CHANNEL \<Rightarrow> scale_factor_len sf = n
      | _ \<Rightarrow> False)"

definition scale_node :: "ptr \<Rightarrow> md_t \<Rightarrow> md_t \<Rightarrow> dlp_scale_t \<Rightarrow> dlp_clsc_err_t + dlp_gemm_post_op" where
  "scale_node meta_arg m n s =
     (if sf_null (sc_sf s) then Inl DLP_CLSC_NULL_POINTER
      else if zp_null (sc_zp s) then Inl DLP_CLSC_NULL_POINTER
      else if (case sc_sf s of None \<Rightarrow> False | Some sf \<Rightarrow> \<not> scale_dim_ok m n sf)
      then Inl DLP_CLSC_UNEXPECTED_VECTOR_DIM
      else if (case sc_zp s of None \<Rightarrow> False | Some z \<Rightarrow> zero_point_len z \<noteq> 1 \<and> zero_point_len z < n)
      then Inl DLP_CLSC_UNEXPECTED_VECTOR_DIM
      else Inr (dlp_gemm_set_node_params POST_OPS_DOWNSCALE
             (case sc_zp s of None \<Rightarrow> 0 | Some z \<Rightarrow> zero_point z) meta_arg
             (Arg_len (case sc_zp s of None \<Rightarrow> 0 | Some z \<Rightarrow> zero_point_len z))
             (sf_buf (sc_sf s)) (sf_length (sc_sf s)) 0 0 DLP_INVALID (zp_stor (sc_zp s)) (sf_stor (sc_sf s))
             (case sc_sf s of None \<Rightarrow> DLP_PARAM_DIM_INVALID | Some sf \<Rightarrow> scale_factor_dim sf)))"

definition matrix_node ::
  "DLP_GEMM_POST_OP_CODE \<Rightarrow> ptr \<Rightarrow> md_t \<Rightarrow> dlp_post_op_matrix \<Rightarrow> dlp_clsc_err_t + dlp_gemm_post_op" where
  "matrix_node code meta_arg n x =
     (if mx_matrix x = 0 \<or> mx_ldm x \<le> 0 then Inl DLP_CLSC_NULL_POINTER
      else if sf_null (mx_sf x) then Inl DLP_CLSC_NULL_POINTER
      else if sf_bad_len (mx_sf x) n then Inl DLP_CLSC_UNEXPECTED_VECTOR_DIM
      else Inr (dlp_gemm_set_node_params code (mx_matrix x) meta_arg (Arg_len (mx_ldm x))
             (case mx_sf x of None \<Rightarrow> Identity_scale | Some s \<Rightarrow> Buf (scale_factor s))
             (case mx_sf x of None \<Rightarrow> 1 | Some s \<Rightarrow> scale_factor_len s) 0 0
             (dlp_gemm_get_stor_type (mx_stor_type x)) DLP_INVALID
             (case mx_sf x of None \<Rightarrow> DLP_F32 | Some s \<Rightarrow> dlp_gemm_get_stor_type (scale_factor_type s))
             (case mx_sf x of None \<Rightarrow> DLP_PARAM_DIM_PER_TENSOR
              | Some s \<Rightarrow> if scale_factor_len s = 1 then DLP_PARAM_DIM_PER_TENSOR else DLP_PARAM_DIM_PER_CHANNEL)))"

definition matrix_add_node :: "ptr \<Rightarrow> md_t \<Rightarrow> dlp_post_op_matrix \<Rightarrow> dlp_clsc_err_t + dlp_gemm_post_op" where
  "matrix_add_node = matrix_node POST_OPS_MATRIX_ADD"

definition matrix_mul_node :: "ptr \<Rightarrow> md_t \<Rightarrow> dlp_post_op_matrix \<Rightarrow> dlp_clsc_err_t + dlp_gemm_post_op" where
  "matrix_mul_node = matrix_node POST_OPS_MATRIX_MUL"

section \<open>The sequence\<close>

record op_cursor =
  e_i :: nat
  s_i :: nat
  b_i :: nat
  m_i :: nat
  mul_i :: nat

text \<open>Entry \<open>j\<close> of a caller array: NULL is an error, past the end an invalid access.\<close>

definition entry :: "'a list option \<Rightarrow> nat \<Rightarrow> ('a \<Rightarrow> dlp_clsc_err_t + 'b) \<Rightarrow> (dlp_clsc_err_t + 'b) option" where
  "entry arr j f =
     (case arr of None \<Rightarrow> Some (Inl DLP_CLSC_NULL_POINTER)
      | Some xs \<Rightarrow> if j < length xs then Some (f (xs ! j)) else None)"

definition dispatch ::
  "dlp_metadata_t \<Rightarrow> ptr \<Rightarrow> md_t \<Rightarrow> md_t \<Rightarrow> DLP_POST_OP_TYPE \<Rightarrow> op_cursor \<Rightarrow>
   ((dlp_clsc_err_t + dlp_gemm_post_op) option \<times> op_cursor)" where
  "dispatch md meta_arg m n op c =
     (case op of
        ELTWISE \<Rightarrow> (entry (md_eltwise md) (e_i c) (eltwise_node n), c\<lparr>e_i := Suc (e_i c)\<rparr>)
      | BIAS \<Rightarrow> (entry (md_bias md) (b_i c) (bias_node meta_arg n), c\<lparr>b_i := Suc (b_i c)\<rparr>)
      | SCALE \<Rightarrow> (entry (md_scale md) (s_i c) (scale_node meta_arg m n), c\<lparr>s_i := Suc (s_i c)\<rparr>)
      | MATRIX_ADD \<Rightarrow> (entry (md_matrix_add md) (m_i c) (matrix_add_node meta_arg n), c\<lparr>m_i := Suc (m_i c)\<rparr>)
      | MATRIX_MUL \<Rightarrow> (entry (md_matrix_mul md) (mul_i c) (matrix_mul_node meta_arg n), c\<lparr>mul_i := Suc (mul_i c)\<rparr>)
      | POST_OP_OTHER \<Rightarrow> (Some (Inl DLP_CLSC_NOT_SUPPORTED), c))"

fun post_ops_loop ::
  "dlp_metadata_t \<Rightarrow> ptr \<Rightarrow> md_t \<Rightarrow> md_t \<Rightarrow> DLP_POST_OP_TYPE list \<Rightarrow> nat \<Rightarrow> op_cursor \<Rightarrow> dlp_gemm_post_op list \<Rightarrow>
   (dlp_clsc_err_t \<times> dlp_gemm_post_op list) option" where
  "post_ops_loop md meta_arg m n [] i c nodes = Some (DLP_CLSC_SUCCESS, nodes)"
| "post_ops_loop md meta_arg m n (op # ops) i c nodes =
     (case dispatch md meta_arg m n op c of
        (None, _) \<Rightarrow> None
      | (Some (Inl err), _) \<Rightarrow> Some (err, nodes)
      | (Some (Inr node), c') \<Rightarrow>
          if i < length nodes
          then post_ops_loop md meta_arg m n ops (Suc i) c'
                 (nodes[i := node\<lparr>po_next := (if ops = [] then None else Some (Suc i))\<rparr>])
          else None)"

definition dlp_gemm_translate_to_post_ops_list ::
  "dlp_metadata_t option \<Rightarrow> dlp_gemm_post_op list option \<Rightarrow> ptr \<Rightarrow> md_t \<Rightarrow> md_t \<Rightarrow>
   (dlp_clsc_err_t \<times> dlp_gemm_post_op list) option" where
  "dlp_gemm_translate_to_post_ops_list metadata post_op_list meta_arg m n =
     (case post_op_list of
        None \<Rightarrow> Some (DLP_CLSC_NULL_POINTER, [])
      | Some nodes \<Rightarrow>
          let disable = (\<lambda>err. if nodes = [] then None else Some (err, nodes[0 := disabled_node]))
          in (case metadata of
                None \<Rightarrow> disable DLP_CLSC_SUCCESS
              | Some md \<Rightarrow>
                  if md_seq_length md \<le> 0 then disable DLP_CLSC_SUCCESS
                  else if md_seq_length md > AOCL_DLP_MAX_POST_OPS then disable DLP_CLSC_UNEXPECTED_VECTOR_DIM
                  else (case md_seq_vector md of
                          None \<Rightarrow> Some (DLP_CLSC_NULL_POINTER, nodes)
                        | Some seq \<Rightarrow>
                            if md_seq_length md > int (length seq) then None
                            else post_ops_loop md meta_arg m n (take (nat (md_seq_length md)) seq) 0
                                   \<lparr>e_i = 0, s_i = 0, b_i = 0, m_i = 0, mul_i = 0\<rparr> nodes)))"

section \<open>Reading the list\<close>

text \<open>The nodes from index \<open>i\<close> on, following \<open>next\<close>; the fuel bounds the number of nodes.\<close>

fun chain_from :: "nat \<Rightarrow> dlp_gemm_post_op list \<Rightarrow> nat option \<Rightarrow> dlp_gemm_post_op list option" where
  "chain_from _ nodes None = Some []"
| "chain_from 0 nodes (Some i) = None"
| "chain_from (Suc fuel) nodes (Some i) =
     (if i < length nodes
      then map_option (\<lambda>rest. nodes ! i # rest) (chain_from fuel nodes (po_next (nodes ! i)))
      else None)"

definition jit_only_node :: "dlp_gemm_post_op \<Rightarrow> bool" where
  "jit_only_node node \<longleftrightarrow>
     post_op_num (op_code node) > post_op_num DLP_CLASSIC_MAX_POST_OP_CODE \<or>
     (op_code node = POST_OPS_DOWNSCALE \<and> po_scale_factor_dim node = DLP_PARAM_DIM_PER_TOKEN)"

definition dlp_gemm_post_op_list_has_jit_only_op :: "dlp_gemm_post_op list \<Rightarrow> nat option \<Rightarrow> bool option" where
  "dlp_gemm_post_op_list_has_jit_only_op nodes start =
     map_option (list_ex jit_only_node) (chain_from (length nodes) nodes start)"

definition dlp_gemm_post_op_list_has_shape_changing_glu :: "dlp_gemm_post_op list option \<Rightarrow> bool" where
  "dlp_gemm_post_op_list_has_shape_changing_glu nodes =
     (case nodes of Some (node # _) \<Rightarrow> glu_d node \<noteq> 0 \<and> glu_ld_d node > 0 | _ \<Rightarrow> False)"

section \<open>What a translated list guarantees the kernels\<close>

text \<open>The operation a node carries out is the one the caller named.\<close>

definition op_matches :: "DLP_POST_OP_TYPE \<Rightarrow> DLP_GEMM_POST_OP_CODE \<Rightarrow> bool" where
  "op_matches op code =
     (case op of
        ELTWISE \<Rightarrow> code \<in> {POST_OPS_DISABLE, POST_OPS_RELU, POST_OPS_RELU_SCALE, POST_OPS_GELU_TANH, POST_OPS_GELU_ERF,
                          POST_OPS_CLIP, POST_OPS_SWISH, POST_OPS_TANH, POST_OPS_SIGMOID, POST_OPS_MISH}
      | BIAS \<Rightarrow> code = POST_OPS_BIAS
      | SCALE \<Rightarrow> code = POST_OPS_DOWNSCALE
      | MATRIX_ADD \<Rightarrow> code = POST_OPS_MATRIX_ADD
      | MATRIX_MUL \<Rightarrow> code = POST_OPS_MATRIX_MUL
      | POST_OP_OTHER \<Rightarrow> False)"

text \<open>The length of a scale factor is the one its granularity implies for an \<open>m\<close> by \<open>n\<close> output, and
  per-row factors only occur where they are supported.\<close>

definition sf_coherent :: "md_t \<Rightarrow> md_t \<Rightarrow> dlp_gemm_post_op \<Rightarrow> bool" where
  "sf_coherent m n nd =
     (case po_scale_factor_dim nd of
        DLP_PARAM_DIM_INVALID \<Rightarrow> po_scale_factor_len nd = 0
      | DLP_PARAM_DIM_PER_TENSOR \<Rightarrow> po_scale_factor_len nd = 1
      | DLP_PARAM_DIM_PER_CHANNEL \<Rightarrow> po_scale_factor_len nd = n
      | DLP_PARAM_DIM_PER_TOKEN \<Rightarrow> po_scale_factor_len nd = m \<and> op_code nd = POST_OPS_DOWNSCALE
      | DLP_PARAM_DIM_PER_GROUP \<Rightarrow> False)"

definition buffers_present :: "md_t \<Rightarrow> dlp_gemm_post_op \<Rightarrow> bool" where
  "buffers_present n nd \<longleftrightarrow>
     (op_code nd \<in> {POST_OPS_BIAS, POST_OPS_DOWNSCALE, POST_OPS_MATRIX_ADD, POST_OPS_MATRIX_MUL} \<longrightarrow>
        po_scale_factor_len nd > 0 \<longrightarrow> po_scale_factor nd \<noteq> Buf 0) \<and>
     (op_code nd = POST_OPS_BIAS \<longrightarrow>
        op_args1 nd \<noteq> 0 \<and> op_args3 nd \<in> {Arg_len 1, Arg_len n} \<and> bias_zp_len nd \<in> {0, 1, n} \<and>
        (bias_zp_len nd > 0 \<longrightarrow> bias_zp nd \<noteq> 0)) \<and>
     (op_code nd \<in> {POST_OPS_MATRIX_ADD, POST_OPS_MATRIX_MUL} \<longrightarrow>
        op_args1 nd \<noteq> 0 \<and> (\<exists>ld > 0. op_args3 nd = Arg_len ld))"

definition node_ok :: "md_t \<Rightarrow> md_t \<Rightarrow> DLP_POST_OP_TYPE \<Rightarrow> dlp_gemm_post_op \<Rightarrow> bool" where
  "node_ok m n op nd \<longleftrightarrow> op_matches op (op_code nd) \<and> sf_coherent m n nd \<and> buffers_present n nd"

lemmas node_ok_defs = node_ok_def op_matches_def sf_coherent_def buffers_present_def dlp_gemm_set_node_params_def

lemmas sf_helper_defs = sf_null_def sf_bad_len_def zp_null_def sf_buf_def sf_length_def dim_of_len_def

lemma eltwise_code_cases:
  "eltwise_code a = Inr (code, ty) \<Longrightarrow> op_matches ELTWISE code"
  "eltwise_code a \<noteq> Inl DLP_CLSC_SUCCESS"
  by (auto simp: eltwise_code_def op_matches_def split: DLP_ELT_ALGO_TYPE.splits if_splits)

lemma eltwise_node_ok: "eltwise_node n e = Inr nd \<Longrightarrow> node_ok m n ELTWISE nd"
proof -
  assume nd: "eltwise_node n e = Inr nd"
  then obtain code ty where c: "eltwise_code (el_algo e) = Inr (code, ty)"
    by (auto simp: eltwise_node_def split: sum.splits)
  then show ?thesis
    using nd eltwise_code_cases(1) [OF c]
    by (auto simp: eltwise_node_def node_ok_defs sf_helper_defs split: option.splits if_splits)
qed

lemma bias_node_ok: "0 < n \<Longrightarrow> bias_node meta_arg n b = Inr nd \<Longrightarrow> node_ok m n BIAS nd"
  by (auto simp: bias_node_def node_ok_defs sf_helper_defs split: option.splits if_splits)

lemma scale_node_ok:
  assumes "scale_node meta_arg m n s = Inr nd"
  shows "node_ok m n SCALE nd"
proof (cases "sc_sf s")
  case None
  then show ?thesis using assms
    by (simp add: scale_node_def node_ok_defs sf_helper_defs split: if_splits) auto
next
  case (Some sf)
  then have "\<not> sf_null (Some sf)" "scale_dim_ok m n sf"
    and nd: "op_code nd = POST_OPS_DOWNSCALE" "po_scale_factor nd = Buf (scale_factor sf)"
      "po_scale_factor_len nd = scale_factor_len sf" "po_scale_factor_dim nd = scale_factor_dim sf"
    using assms by (auto simp: scale_node_def dlp_gemm_set_node_params_def sf_buf_def sf_length_def split: if_splits)
  then show ?thesis
    by (cases "scale_factor_dim sf")
      (simp_all add: node_ok_def op_matches_def sf_coherent_def buffers_present_def sf_null_def scale_dim_ok_def)
qed

lemma matrix_node_ok:
  "matrix_add_node meta_arg n x = Inr nd \<Longrightarrow> node_ok m n MATRIX_ADD nd"
  "matrix_mul_node meta_arg n x = Inr nd \<Longrightarrow> node_ok m n MATRIX_MUL nd"
  by (auto simp: matrix_add_node_def matrix_mul_node_def matrix_node_def node_ok_defs sf_helper_defs
      split: option.splits if_splits)

lemma nodes_never_report_success:
  "eltwise_node n e \<noteq> Inl DLP_CLSC_SUCCESS" "bias_node meta_arg n b \<noteq> Inl DLP_CLSC_SUCCESS"
  "scale_node meta_arg m n s \<noteq> Inl DLP_CLSC_SUCCESS" "matrix_add_node meta_arg n x \<noteq> Inl DLP_CLSC_SUCCESS"
  "matrix_mul_node meta_arg n x \<noteq> Inl DLP_CLSC_SUCCESS"
  using eltwise_code_cases(2) [of "el_algo e"]
  by (auto simp: eltwise_node_def bias_node_def scale_node_def matrix_add_node_def matrix_mul_node_def
      matrix_node_def split: sum.splits)

lemma entry_cases:
  "entry arr j f = Some (Inr x) \<Longrightarrow> \<exists>a. f a = Inr x"
  "entry arr j f = Some (Inl e) \<Longrightarrow> e = DLP_CLSC_NULL_POINTER \<or> (\<exists>a. f a = Inl e)"
  by (auto simp: entry_def split: option.splits if_splits)

lemma dispatch_ok:
  assumes "0 < n" "dispatch md meta_arg m n op c = (Some (Inr nd), c')"
  shows "node_ok m n op nd"
  using assms eltwise_node_ok bias_node_ok scale_node_ok matrix_node_ok
  by (cases op) (auto simp: dispatch_def dest!: entry_cases(1))

lemma dispatch_error:
  "dispatch md meta_arg m n op c = (Some (Inl err), c') \<Longrightarrow> err \<noteq> DLP_CLSC_SUCCESS"
  using nodes_never_report_success
  by (cases op) (auto simp: dispatch_def dest!: entry_cases(2))

lemma node_ok_next [simp]: "node_ok m n op (nd\<lparr>po_next := x\<rparr>) = node_ok m n op nd"
  by (cases "po_scale_factor_dim nd") (simp_all add: node_ok_def sf_coherent_def buffers_present_def)

lemma loop_success:
  assumes "post_ops_loop md meta_arg m n ops i c nodes = Some (DLP_CLSC_SUCCESS, nodes')" "0 < n"
    "i \<le> length nodes"
  shows "length nodes' = length nodes \<and> i + length ops \<le> length nodes \<and> take i nodes' = take i nodes \<and>
     (\<forall>j < length ops. node_ok m n (ops ! j) (nodes' ! (i + j)) \<and>
        po_next (nodes' ! (i + j)) = (if Suc j < length ops then Some (Suc (i + j)) else None))"
  using assms
proof (induction ops arbitrary: i c nodes)
  case Nil
  then show ?case by simp
next
  case (Cons op ops)
  obtain r c' where d: "dispatch md meta_arg m n op c = (r, c')" by force
  from Cons.prems(1) d dispatch_error obtain nd where nd: "r = Some (Inr nd)" and i: "i < length nodes"
    by (fastforce split: option.splits sum.splits if_splits)
  let ?nd = "nd\<lparr>po_next := (if ops = [] then None else Some (Suc i))\<rparr>"
  have rec: "post_ops_loop md meta_arg m n ops (Suc i) c' (nodes[i := ?nd]) = Some (DLP_CLSC_SUCCESS, nodes')"
    using Cons.prems(1) d nd i by simp
  note IH = Cons.IH [OF rec Cons.prems(2)]
  have len: "length nodes' = length nodes" "Suc i + length ops \<le> length nodes"
    and tk: "take (Suc i) nodes' = take (Suc i) (nodes[i := ?nd])"
    and rest: "\<And>j. j < length ops \<Longrightarrow> node_ok m n (ops ! j) (nodes' ! (Suc i + j)) \<and>
        po_next (nodes' ! (Suc i + j)) = (if Suc j < length ops then Some (Suc (Suc i + j)) else None)"
    using IH i by auto
  have "take i nodes' = take i (nodes[i := ?nd])"
    using arg_cong [OF tk, of "take i"] by (simp add: min_def)
  then have pre: "take i nodes' = take i nodes" by simp
  have "nodes' ! i = nodes[i := ?nd] ! i"
    using arg_cong [OF tk, of "\<lambda>l. l ! i"] by simp
  then have here: "nodes' ! i = ?nd" using i by simp
  have "node_ok m n op nd" using dispatch_ok [OF Cons.prems(2)] d nd by simp
  then show ?case
    using len pre here rest
    by (auto simp: nth_Cons split: nat.split)
qed

lemma chain_take:
  assumes "\<And>j. j < L \<Longrightarrow> po_next (nodes ! (i + j)) = (if Suc j < L then Some (Suc (i + j)) else None)"
    "i + L \<le> length nodes" "0 < L" "L \<le> fuel"
  shows "chain_from fuel nodes (Some i) = Some (take L (drop i nodes))"
  using assms
proof (induction L arbitrary: i fuel)
  case 0
  then show ?case by simp
next
  case (Suc L)
  then obtain f where f: "fuel = Suc f" by (cases fuel) auto
  have d: "drop i nodes = nodes ! i # drop (Suc i) nodes" using Suc.prems(2) by (simp add: Cons_nth_drop_Suc)
  show ?case
  proof (cases "L = 0")
    case True
    then show ?thesis using Suc.prems(1) [of 0] Suc.prems(2) f d by simp
  next
    case False
    have "chain_from f nodes (Some (Suc i)) = Some (take L (drop (Suc i) nodes))"
      using Suc.IH [of "Suc i" f] Suc.prems(1) [of "Suc _"] Suc.prems(2,4) f False by simp
    then show ?thesis using Suc.prems(1) [of 0] Suc.prems(2) f d False by simp
  qed
qed

lemma translate_success_loop:
  assumes "dlp_gemm_translate_to_post_ops_list (Some md) (Some nodes) meta_arg m n = Some (DLP_CLSC_SUCCESS, nodes')"
    "0 < md_seq_length md"
  obtains seq where "md_seq_vector md = Some seq" "nat (md_seq_length md) \<le> length seq" "md_seq_length md \<le> 8"
    "post_ops_loop md meta_arg m n (take (nat (md_seq_length md)) seq) 0
       \<lparr>e_i = 0, s_i = 0, b_i = 0, m_i = 0, mul_i = 0\<rparr> nodes = Some (DLP_CLSC_SUCCESS, nodes')"
  using assms
  by (auto simp: dlp_gemm_translate_to_post_ops_list_def AOCL_DLP_MAX_POST_OPS_def Let_def split: option.splits if_splits)


definition example_scale_md :: dlp_metadata_t where
  "example_scale_md =
     \<lparr>md_scale = Some [\<lparr>sc_sf = Some \<lparr>scale_factor = 7, scale_factor_len = 3, scale_factor_type = DLP_F32,
                         scale_factor_dim = DLP_PARAM_DIM_PER_TOKEN\<rparr>, sc_zp = None\<rparr>],
      md_eltwise = Some [\<lparr>el_sf = None, el_algo = \<lparr>alg_alpha = 0, alg_beta = 0, algo_type = RELU, alg_stor_type = DLP_F32\<rparr>\<rparr>],
      md_bias = None, md_matrix_add = None, md_matrix_mul = None, md_seq_length = 2,
      md_seq_vector = Some [ELTWISE, SCALE], md_a_quant_op = None, md_b_quant_op = None, md_glu = None\<rparr>"

lemma example_scale_translates:
  "\<exists>nodes'. dlp_gemm_translate_to_post_ops_list (Some example_scale_md) (Some (replicate 8 disabled_node)) 5 3 4
     = Some (DLP_CLSC_SUCCESS, nodes')"
  by (simp add: dlp_gemm_translate_to_post_ops_list_def example_scale_md_def AOCL_DLP_MAX_POST_OPS_def Let_def
      dispatch_def entry_def eltwise_node_def eltwise_code_def scale_node_def sf_null_def zp_null_def sf_bad_len_def
      scale_dim_ok_def numeral_2_eq_2)


text \<open>No access leaves an array, provided the caller's arrays have an entry for each use in the
  sequence and the node array has room for it.\<close>

definition uses_left :: "DLP_POST_OP_TYPE list \<Rightarrow> DLP_POST_OP_TYPE \<Rightarrow> 'a list option \<Rightarrow> nat \<Rightarrow> bool" where
  "uses_left ops op arr used = (case arr of None \<Rightarrow> True | Some xs \<Rightarrow> used + count_list ops op \<le> length xs)"

definition arrays_suffice :: "dlp_metadata_t \<Rightarrow> DLP_POST_OP_TYPE list \<Rightarrow> op_cursor \<Rightarrow> bool" where
  "arrays_suffice md ops c \<longleftrightarrow>
     uses_left ops ELTWISE (md_eltwise md) (e_i c) \<and> uses_left ops BIAS (md_bias md) (b_i c) \<and>
     uses_left ops SCALE (md_scale md) (s_i c) \<and> uses_left ops MATRIX_ADD (md_matrix_add md) (m_i c) \<and>
     uses_left ops MATRIX_MUL (md_matrix_mul md) (mul_i c)"

lemma dispatch_in_bounds:
  assumes "arrays_suffice md (op # ops) c" "dispatch md meta_arg m n op c = (r, c')"
  shows "r \<noteq> None \<and> (op \<noteq> POST_OP_OTHER \<longrightarrow> arrays_suffice md ops c')"
  using assms
  by (cases op) (auto simp: arrays_suffice_def uses_left_def dispatch_def entry_def split: option.splits)

lemma loop_in_bounds:
  assumes "arrays_suffice md ops c" "i + length ops \<le> length nodes"
  shows "post_ops_loop md meta_arg m n ops i c nodes \<noteq> None"
  using assms
proof (induction ops arbitrary: i c nodes)
  case Nil
  then show ?case by simp
next
  case (Cons op ops)
  obtain r c' where d: "dispatch md meta_arg m n op c = (r, c')" by force
  note db = dispatch_in_bounds [OF Cons.prems(1) d]
  show ?case
  proof (cases r)
    case None
    then show ?thesis using db by simp
  next
    case (Some x)
    show ?thesis
    proof (cases x)
      case (Inl err)
      then show ?thesis using Some d by simp
    next
      case (Inr nd)
      then have "op \<noteq> POST_OP_OTHER" using Some d by (auto simp: dispatch_def)
      then show ?thesis using db Inr Some d Cons.prems(2) by (simp add: Cons.IH)
    qed
  qed
qed

text \<open>C26: Translating a sequence never reads or writes outside an array: if the sequence vector and
  the caller's operand arrays are as long as the sequence uses them and the node array has the 8 places
  the library allocates, every call returns, with a list or an error code. The limit of 8 is what makes
  the node array large enough.\<close>

theorem post_op_translation_in_bounds:
  assumes "8 \<le> length nodes"
    and "\<forall>seq. md_seq_vector md = Some seq \<longrightarrow> md_seq_length md \<le> int (length seq) \<and>
       arrays_suffice md (take (nat (md_seq_length md)) seq) \<lparr>e_i = 0, s_i = 0, b_i = 0, m_i = 0, mul_i = 0\<rparr>"
  shows "dlp_gemm_translate_to_post_ops_list (Some md) (Some nodes) meta_arg m n \<noteq> None"
proof -
  have ne: "nodes \<noteq> []" using assms(1) by auto
  show ?thesis
  proof (cases "md_seq_vector md")
    case None
    then show ?thesis using ne by (simp add: dlp_gemm_translate_to_post_ops_list_def Let_def)
  next
    case (Some seq)
    have "post_ops_loop md meta_arg m n (take (nat (md_seq_length md)) seq) 0
       \<lparr>e_i = 0, s_i = 0, b_i = 0, m_i = 0, mul_i = 0\<rparr> nodes \<noteq> None" if "md_seq_length md \<le> 8"
      by (rule loop_in_bounds) (use assms Some that in auto)
    then show ?thesis
      using ne assms(2) Some
      by (simp add: dlp_gemm_translate_to_post_ops_list_def AOCL_DLP_MAX_POST_OPS_def Let_def)
  qed
qed

theorem post_op_translation_in_bounds_witness:
  "dlp_gemm_translate_to_post_ops_list (Some example_scale_md) (Some (replicate 8 disabled_node)) 5 3 4 \<noteq> None"
  by (rule post_op_translation_in_bounds)
    (simp_all add: example_scale_md_def arrays_suffice_def uses_left_def numeral_2_eq_2)

end
