(* ===== verification/Quant_Ops.thy ===== *)
theory Quant_Ops
  imports Post_Ops
begin

text \<open>
  The quantisation side of \<^verbatim>\<open>classic/frame/dlp_gemm_post_ops.c\<close>: group post-ops, pre-ops of a
  low-bit B, the node that corrects for a quantised A, and the terminal gated unit behind a post-op
  list. Conventions as in \<open>Post_Ops\<close>.
\<close>

section \<open>Quantisation metadata\<close>

definition dlp_gemm_qparam_to_sf :: "dlp_qparam_t option \<Rightarrow> dlp_sf_t" where
  "dlp_gemm_qparam_to_sf qparam =
     (case qparam of
        None \<Rightarrow> \<lparr>scale_factor = 0, scale_factor_len = 0, scale_factor_type = DLP_INVALID, scale_factor_dim = DLP_PARAM_DIM_INVALID\<rparr>
      | Some q \<Rightarrow> \<lparr>scale_factor = qp_data q, scale_factor_len = qp_len q, scale_factor_type = qp_stor_type q,
                   scale_factor_dim = qp_outer_dim q\<rparr>)"

definition dlp_gemm_qparam_to_zp :: "dlp_qparam_t option \<Rightarrow> dlp_zp_t" where
  "dlp_gemm_qparam_to_zp qparam =
     (case qparam of
        None \<Rightarrow> \<lparr>zero_point = 0, zero_point_len = 0, zero_point_type = DLP_INVALID, zero_point_dim = DLP_PARAM_DIM_INVALID\<rparr>
      | Some q \<Rightarrow> \<lparr>zero_point = qp_data q, zero_point_len = qp_len q, zero_point_type = qp_stor_type q,
                   zero_point_dim = qp_outer_dim q\<rparr>)"

record dlp_gemm_group_post_op =
  gp_group_size :: md_t
  a_scale_factor_dim :: DLP_PARAM_DIM_TYPE
  b_scale_factor_dim :: DLP_PARAM_DIM_TYPE
  a_scale_factor :: ptr
  a_scale_factor_len :: md_t
  b_scale_factor :: ptr
  b_scale_factor_len :: md_t
  gp_sf_stor_type :: DLP_TYPE

text \<open>The zero-point fields of a group node are always NULL and 0 and are left out.\<close>

definition dlp_gemm_set_group_post_ops_node_params ::
  "md_t \<Rightarrow> DLP_PARAM_DIM_TYPE \<Rightarrow> DLP_PARAM_DIM_TYPE \<Rightarrow> ptr \<Rightarrow> md_t \<Rightarrow> ptr \<Rightarrow> md_t \<Rightarrow> DLP_TYPE \<Rightarrow> dlp_gemm_group_post_op" where
  "dlp_gemm_set_group_post_ops_node_params group_size a_dim b_dim a_sf a_len b_sf b_len sf_ty =
     \<lparr>gp_group_size = group_size, a_scale_factor_dim = a_dim, b_scale_factor_dim = b_dim, a_scale_factor = a_sf,
      a_scale_factor_len = a_len, b_scale_factor = b_sf, b_scale_factor_len = b_len, gp_sf_stor_type = sf_ty\<rparr>"

definition bad_group_op :: "dlp_quant_op_t option \<Rightarrow> bool" where
  "bad_group_op q = (case q of None \<Rightarrow> False | Some o1 \<Rightarrow> quant_op_kind o1 \<noteq> DLP_QUANT_OP_QUANTIZE)"

definition has_zero_point :: "dlp_quant_op_t option \<Rightarrow> bool" where
  "has_zero_point q = (case q of None \<Rightarrow> False | Some o1 \<Rightarrow> qo_zero_point o1 \<noteq> None)"

definition group_size_of :: "dlp_quant_op_t option \<Rightarrow> md_t \<Rightarrow> md_t" where
  "group_size_of q k =
     (let g = (case q of None \<Rightarrow> 0 | Some o1 \<Rightarrow> qo_group_size o1) in if g = 0 then k else g)"

definition scale_of :: "dlp_quant_op_t option \<Rightarrow> dlp_sf_t option" where
  "scale_of q = (case q of None \<Rightarrow> None
     | Some o1 \<Rightarrow> (case dequant_scale_factors o1 of None \<Rightarrow> None | Some p \<Rightarrow> Some (dlp_gemm_qparam_to_sf (Some p))))"

text \<open>The checks on one scale array of at least \<open>need\<close> entries.\<close>

definition group_scale_error :: "dlp_sf_t \<Rightarrow> md_t \<Rightarrow> dlp_clsc_err_t option" where
  "group_scale_error s need =
     (if scale_factor_len s > 0 \<and> scale_factor s = 0 then Some DLP_CLSC_NULL_POINTER
      else if scale_factor_len s < need then Some DLP_CLSC_INVALID_SF_LEN else None)"

definition group_node ::
  "md_t \<Rightarrow> dlp_sf_t option \<Rightarrow> dlp_sf_t option \<Rightarrow> md_t \<Rightarrow> md_t \<Rightarrow> md_t \<Rightarrow> dlp_clsc_err_t + dlp_gemm_group_post_op" where
  "group_node group_size a_scl b_scl m n k =
     (case (a_scl, b_scl) of
        (Some a, Some b) \<Rightarrow>
          if scale_factor_dim a = DLP_PARAM_DIM_INVALID \<or> scale_factor_dim b = DLP_PARAM_DIM_INVALID
          then Inl DLP_CLSC_NOT_SUPPORTED
          else
            let num_groups = ceil_blks k group_size;
                a_num_groups = (if scale_factor_dim a = DLP_PARAM_DIM_PER_TOKEN then 1 else num_groups);
                b_num_groups = (if scale_factor_dim b = DLP_PARAM_DIM_PER_CHANNEL then 1 else num_groups)
            in (case group_scale_error a (m * a_num_groups) of
                  Some err \<Rightarrow> Inl err
                | None \<Rightarrow>
                    (case group_scale_error b (n * b_num_groups) of
                       Some err \<Rightarrow> Inl err
                     | None \<Rightarrow>
                         if scale_factor_type a \<noteq> scale_factor_type b then Inl DLP_CLSC_TYPE_MISMATCH
                         else Inr (dlp_gemm_set_group_post_ops_node_params group_size (scale_factor_dim a)
                                (scale_factor_dim b) (scale_factor a) (scale_factor_len a) (scale_factor b)
                                (scale_factor_len b) (dlp_gemm_get_stor_type (scale_factor_type a)))))
      | _ \<Rightarrow> Inl DLP_CLSC_NOT_SUPPORTED)"

definition dlp_gemm_translate_to_group_postops_list ::
  "dlp_quant_op_t option \<Rightarrow> dlp_quant_op_t option \<Rightarrow> md_t \<Rightarrow> md_t \<Rightarrow> md_t \<Rightarrow> dlp_clsc_err_t + dlp_gemm_group_post_op" where
  "dlp_gemm_translate_to_group_postops_list a_quant_op b_quant_op m n k =
     (if a_quant_op = None \<and> b_quant_op = None
      then Inr (dlp_gemm_set_group_post_ops_node_params 0 DLP_PARAM_DIM_PER_GROUP DLP_PARAM_DIM_PER_GROUP 0 0 0 0 DLP_INVALID)
      else if bad_group_op a_quant_op \<or> bad_group_op b_quant_op then Inl DLP_CLSC_NOT_SUPPORTED
      else if has_zero_point a_quant_op \<or> has_zero_point b_quant_op then Inl DLP_CLSC_NOT_SUPPORTED
      else
        let a_group_size = group_size_of a_quant_op k;
            b_group_size = group_size_of b_quant_op k
        in if a_quant_op \<noteq> None \<and> b_quant_op \<noteq> None \<and> a_group_size \<noteq> b_group_size
           then Inl DLP_CLSC_INVALID_GROUP_DIMENSION
           else
             let group_size = (if a_quant_op \<noteq> None then a_group_size else b_group_size)
             in if group_size > k \<or> group_size < 0 then Inl DLP_CLSC_INVALID_GROUP_DIMENSION
                else if group_size \<noteq> k \<and> group_size smod 4 \<noteq> 0 then Inl DLP_CLSC_INVALID_GROUP_DIMENSION
                else group_node group_size (scale_of a_quant_op) (scale_of b_quant_op) m n k)"

definition dlp_gemm_translate_to_group_op_list ::
  "dlp_metadata_t option \<Rightarrow> bool \<Rightarrow> dlp_clsc_err_t + (dlp_quant_op_t option \<times> dlp_quant_op_t option)" where
  "dlp_gemm_translate_to_group_op_list metadata group_op_present =
     (case metadata of
        None \<Rightarrow> Inl DLP_CLSC_NULL_POINTER
      | Some md \<Rightarrow> if \<not> group_op_present then Inl DLP_CLSC_NULL_POINTER else Inr (md_a_quant_op md, md_b_quant_op md))"

lemma group_size_of_pos: "0 < k \<Longrightarrow> 0 \<le> group_size_of q k \<Longrightarrow> 0 < group_size_of q k"
  by (auto simp: group_size_of_def Let_def split: if_splits)

text \<open>C28: An accepted pair of group quantisation descriptions gives the kernels what they index: the
  groups are positive, at most the depth, and either span it or are multiples of 4; the scale array of A
  is present and has an entry for each row and group (one per row for per-row scales), that of B for each
  column and group (one per column for per-column scales); and both are of one type.\<close>

theorem group_scales_in_bounds:
  assumes "dlp_gemm_translate_to_group_postops_list a_quant_op b_quant_op m n k = Inr g"
    and "a_quant_op \<noteq> None \<or> b_quant_op \<noteq> None" and "0 < m" "0 < n" "0 < k"
    and "num_groups = ceil_blks k (gp_group_size g)"
  shows "0 < gp_group_size g \<and> gp_group_size g \<le> k \<and> (gp_group_size g = k \<or> gp_group_size g smod 4 = 0)
     \<and> a_scale_factor g \<noteq> 0 \<and> b_scale_factor g \<noteq> 0
     \<and> m * (if a_scale_factor_dim g = DLP_PARAM_DIM_PER_TOKEN then 1 else num_groups) \<le> a_scale_factor_len g
     \<and> n * (if b_scale_factor_dim g = DLP_PARAM_DIM_PER_CHANNEL then 1 else num_groups) \<le> b_scale_factor_len g"
proof -
  define gs where "gs = (if a_quant_op \<noteq> None then group_size_of a_quant_op k else group_size_of b_quant_op k)"
  have node: "group_node gs (scale_of a_quant_op) (scale_of b_quant_op) m n k = Inr g"
    and gs: "\<not> (gs > k \<or> gs < 0)" "\<not> (gs \<noteq> k \<and> gs smod 4 \<noteq> 0)"
    using assms(1,2) unfolding dlp_gemm_translate_to_group_postops_list_def gs_def
    by (simp_all add: Let_def split: if_splits)
  have gs0: "0 < gs" using gs(1) group_size_of_pos [OF assms(5)] by (auto simp: gs_def split: if_splits)
  obtain a b where ab: "scale_of a_quant_op = Some a" "scale_of b_quant_op = Some b"
    using node by (auto simp: group_node_def split: option.splits)
  have num: "1 \<le> ceil_blks k gs" using gs0 assms(5) by (intro ceil_blks_ge_1)
  have ne: "group_scale_error a (m * (if scale_factor_dim a = DLP_PARAM_DIM_PER_TOKEN then 1 else ceil_blks k gs)) = None"
      "group_scale_error b (n * (if scale_factor_dim b = DLP_PARAM_DIM_PER_CHANNEL then 1 else ceil_blks k gs)) = None"
    and g: "gp_group_size g = gs" "a_scale_factor g = scale_factor a" "b_scale_factor g = scale_factor b"
      "a_scale_factor_len g = scale_factor_len a" "b_scale_factor_len g = scale_factor_len b"
      "a_scale_factor_dim g = scale_factor_dim a" "b_scale_factor_dim g = scale_factor_dim b"
    using node unfolding group_node_def ab Let_def
    by (auto simp: dlp_gemm_set_group_post_ops_node_params_def split: option.splits if_splits)
  have need: "0 < m * (if scale_factor_dim a = DLP_PARAM_DIM_PER_TOKEN then 1 else ceil_blks k gs)"
    "0 < n * (if scale_factor_dim b = DLP_PARAM_DIM_PER_CHANNEL then 1 else ceil_blks k gs)"
    using assms(3,4) num by simp_all
  show ?thesis
    using gs gs0 ne need assms(6) unfolding g group_scale_error_def by (auto split: if_splits)
qed

definition example_quant :: "md_t \<Rightarrow> DLP_PARAM_DIM_TYPE \<Rightarrow> md_t \<Rightarrow> dlp_quant_op_t" where
  "example_quant group_size dim len =
     \<lparr>quant_op_kind = DLP_QUANT_OP_QUANTIZE, qo_src_type = DLP_S8, qo_dst_type = DLP_F32, qo_group_size = group_size,
      quant_scale_factors = None,
      dequant_scale_factors = Some \<lparr>qp_data = 9, qp_len = len, qp_stor_type = DLP_F32, qp_outer_dim = dim\<rparr>,
      qo_zero_point = None\<rparr>"

lemma group_example:
  "dlp_gemm_translate_to_group_postops_list (Some (example_quant 32 DLP_PARAM_DIM_PER_GROUP 8))
     (Some (example_quant 32 DLP_PARAM_DIM_PER_CHANNEL 3)) 4 3 64 =
   Inr \<lparr>gp_group_size = 32, a_scale_factor_dim = DLP_PARAM_DIM_PER_GROUP, b_scale_factor_dim = DLP_PARAM_DIM_PER_CHANNEL,
      a_scale_factor = 9, a_scale_factor_len = 8, b_scale_factor = 9, b_scale_factor_len = 3, gp_sf_stor_type = DLP_F32\<rparr>"
  by code_simp

theorem group_scales_in_bounds_witness: "4 * ceil_blks 64 32 \<le> (8 :: md_t) \<and> (3 :: md_t) * 1 \<le> 3"
  using group_scales_in_bounds [OF group_example] by simp

section \<open>Pre-ops of B\<close>

record dlp_gemm_pre_op =
  pr_group_size :: md_t
  pr_scale_factor :: ptr
  pr_scale_factor_len :: md_t
  pr_scale_factor_dim :: DLP_PARAM_DIM_TYPE
  pr_scale_factor_type :: DLP_TYPE
  pr_zero_point :: ptr
  pr_zero_point_len :: md_t
  pr_zero_point_dim :: DLP_PARAM_DIM_TYPE
  pr_zero_point_type :: DLP_TYPE

text \<open>The granularity and length rule for a parameter of B, with \<open>bad_len\<close> the error for a wrong
  length and \<open>types\<close> the storage types allowed.\<close>

definition b_param_error ::
  "dlp_clsc_err_t \<Rightarrow> DLP_TYPE list \<Rightarrow> ptr \<Rightarrow> md_t \<Rightarrow> DLP_PARAM_DIM_TYPE \<Rightarrow> DLP_TYPE \<Rightarrow> md_t \<Rightarrow> md_t \<Rightarrow> dlp_clsc_err_t option" where
  "b_param_error bad_len types buf len dim ty n num_groups =
     (if len > 0 \<and> buf = 0 then Some DLP_CLSC_NULL_POINTER
      else if dim \<noteq> DLP_PARAM_DIM_PER_TENSOR \<and> dim \<noteq> DLP_PARAM_DIM_PER_CHANNEL \<and> dim \<noteq> DLP_PARAM_DIM_PER_GROUP
      then Some DLP_CLSC_NOT_SUPPORTED
      else if dim = DLP_PARAM_DIM_PER_GROUP \<and> len \<noteq> n * num_groups then Some bad_len
      else if dim = DLP_PARAM_DIM_PER_CHANNEL \<and> len \<noteq> n then Some bad_len
      else if dim = DLP_PARAM_DIM_PER_TENSOR \<and> len \<noteq> 1 then Some bad_len
      else if dlp_gemm_get_stor_type ty \<notin> set types then Some DLP_CLSC_NOT_SUPPORTED
      else None)"

definition dlp_gemm_set_pre_ops_node_params ::
  "md_t \<Rightarrow> DLP_PARAM_DIM_TYPE \<Rightarrow> DLP_PARAM_DIM_TYPE \<Rightarrow> ptr \<Rightarrow> ptr \<Rightarrow> md_t \<Rightarrow> md_t \<Rightarrow> DLP_TYPE \<Rightarrow> DLP_TYPE \<Rightarrow> dlp_gemm_pre_op" where
  "dlp_gemm_set_pre_ops_node_params group_size sf_dim zp_dim zp sf zp_len sf_len sf_ty zp_ty =
     \<lparr>pr_group_size = group_size, pr_scale_factor = sf, pr_scale_factor_len = sf_len, pr_scale_factor_dim = sf_dim,
      pr_scale_factor_type = sf_ty, pr_zero_point = zp, pr_zero_point_len = zp_len, pr_zero_point_dim = zp_dim,
      pr_zero_point_type = zp_ty\<rparr>"

definition pre_op_node ::
  "dlp_quant_op_t \<Rightarrow> md_t \<Rightarrow> md_t \<Rightarrow> md_t \<Rightarrow> dlp_clsc_err_t + dlp_gemm_pre_op" where
  "pre_op_node b group_size n k =
     (let num_groups = ceil_blks k group_size;
          scl = map_option (\<lambda>p. dlp_gemm_qparam_to_sf (Some p)) (dequant_scale_factors b);
          zp = map_option (\<lambda>p. dlp_gemm_qparam_to_zp (Some p)) (qo_zero_point b);
          scl_err = (case scl of None \<Rightarrow> None
            | Some s \<Rightarrow> b_param_error DLP_CLSC_INVALID_SF_LEN [DLP_BF16, DLP_F32] (scale_factor s) (scale_factor_len s)
                          (scale_factor_dim s) (scale_factor_type s) n num_groups);
          zp_err = (case zp of None \<Rightarrow> None
            | Some z \<Rightarrow> b_param_error DLP_CLSC_INVALID_ZP_LEN [DLP_BF16, DLP_S8] (zero_point z) (zero_point_len z)
                          (zero_point_dim z) (zero_point_type z) n num_groups)
      in if quant_op_kind b = DLP_QUANT_OP_DEQUANTIZE \<and> scl = None then Inl DLP_CLSC_NULL_POINTER
         else if scl_err \<noteq> None then Inl (the scl_err)
         else if zp_err \<noteq> None then Inl (the zp_err)
         else Inr (dlp_gemm_set_pre_ops_node_params group_size
                (case scl of None \<Rightarrow> DLP_PARAM_DIM_INVALID | Some s \<Rightarrow> scale_factor_dim s)
                (case zp of None \<Rightarrow> DLP_PARAM_DIM_INVALID | Some z \<Rightarrow> zero_point_dim z)
                (case zp of None \<Rightarrow> 0 | Some z \<Rightarrow> zero_point z)
                (case scl of None \<Rightarrow> 0 | Some s \<Rightarrow> scale_factor s)
                (case zp of None \<Rightarrow> 0 | Some z \<Rightarrow> zero_point_len z)
                (case scl of None \<Rightarrow> 0 | Some s \<Rightarrow> scale_factor_len s)
                (case scl of None \<Rightarrow> DLP_INVALID | Some s \<Rightarrow> dlp_gemm_get_stor_type (scale_factor_type s))
                (case zp of None \<Rightarrow> DLP_INVALID | Some z \<Rightarrow> dlp_gemm_get_stor_type (zero_point_type z))))"

definition dlp_gemm_translate_to_pre_ops_list ::
  "dlp_quant_op_t option \<Rightarrow> md_t \<Rightarrow> md_t \<Rightarrow> dlp_clsc_err_t + dlp_gemm_pre_op" where
  "dlp_gemm_translate_to_pre_ops_list b_quant_op n k =
     (case b_quant_op of
        None \<Rightarrow> Inl DLP_CLSC_NULL_POINTER
      | Some b \<Rightarrow>
          if quant_op_kind b \<noteq> DLP_QUANT_OP_DEQUANTIZE \<and> quant_op_kind b \<noteq> DLP_QUANT_OP_EXPAND
          then Inl DLP_CLSC_NOT_SUPPORTED
          else
            let group_size = (if qo_group_size b = 0 then k else qo_group_size b)
            in if group_size > k \<or> group_size < 0 then Inl DLP_CLSC_INVALID_GROUP_DIMENSION
               else if group_size \<noteq> k \<and> group_size smod 2 \<noteq> 0 then Inl DLP_CLSC_INVALID_GROUP_DIMENSION
               else pre_op_node b group_size n k)"

text \<open>The number of entries a parameter of B has to have at each granularity.\<close>

definition b_param_entries :: "DLP_PARAM_DIM_TYPE \<Rightarrow> md_t \<Rightarrow> md_t \<Rightarrow> md_t" where
  "b_param_entries dim n num_groups =
     (if dim = DLP_PARAM_DIM_PER_GROUP then n * num_groups else if dim = DLP_PARAM_DIM_PER_CHANNEL then n else 1)"

lemma b_param_exact:
  "b_param_error bad_len types buf len dim ty n g = None \<Longrightarrow>
     len = b_param_entries dim n g \<and> (0 < len \<longrightarrow> buf \<noteq> 0) \<and> dlp_gemm_get_stor_type ty \<in> set types
     \<and> dim \<noteq> DLP_PARAM_DIM_INVALID"
  by (auto simp: b_param_error_def b_param_entries_def split: if_splits)

lemma pre_op_node_Inr:
  assumes "pre_op_node b gs n k = Inr nd"
  shows "quant_op_kind b = DLP_QUANT_OP_DEQUANTIZE \<longrightarrow> dequant_scale_factors b \<noteq> None"
    and "dequant_scale_factors b = Some s \<Longrightarrow>
      b_param_error DLP_CLSC_INVALID_SF_LEN [DLP_BF16, DLP_F32] (qp_data s) (qp_len s) (qp_outer_dim s) (qp_stor_type s)
        n (ceil_blks k gs) = None"
    and "qo_zero_point b = Some z \<Longrightarrow>
      b_param_error DLP_CLSC_INVALID_ZP_LEN [DLP_BF16, DLP_S8] (qp_data z) (qp_len z) (qp_outer_dim z) (qp_stor_type z)
        n (ceil_blks k gs) = None"
  using assms unfolding pre_op_node_def
  by (simp_all add: Let_def dlp_gemm_qparam_to_sf_def dlp_gemm_qparam_to_zp_def split: if_splits)

lemma pre_op_node_fields:
  assumes "pre_op_node b gs n k = Inr nd"
  shows "pr_group_size nd = gs"
    and "pr_scale_factor_dim nd = (case dequant_scale_factors b of None \<Rightarrow> DLP_PARAM_DIM_INVALID | Some s \<Rightarrow> qp_outer_dim s)"
    and "pr_scale_factor nd = (case dequant_scale_factors b of None \<Rightarrow> 0 | Some s \<Rightarrow> qp_data s)"
    and "pr_scale_factor_len nd = (case dequant_scale_factors b of None \<Rightarrow> 0 | Some s \<Rightarrow> qp_len s)"
    and "pr_scale_factor_type nd = (case dequant_scale_factors b of None \<Rightarrow> DLP_INVALID | Some s \<Rightarrow> dlp_gemm_get_stor_type (qp_stor_type s))"
    and "pr_zero_point_dim nd = (case qo_zero_point b of None \<Rightarrow> DLP_PARAM_DIM_INVALID | Some s \<Rightarrow> qp_outer_dim s)"
    and "pr_zero_point nd = (case qo_zero_point b of None \<Rightarrow> 0 | Some s \<Rightarrow> qp_data s)"
    and "pr_zero_point_len nd = (case qo_zero_point b of None \<Rightarrow> 0 | Some s \<Rightarrow> qp_len s)"
    and "pr_zero_point_type nd = (case qo_zero_point b of None \<Rightarrow> DLP_INVALID | Some s \<Rightarrow> dlp_gemm_get_stor_type (qp_stor_type s))"
  using assms unfolding pre_op_node_def
  by (cases "dequant_scale_factors b"; cases "qo_zero_point b";
      simp add: Let_def dlp_gemm_qparam_to_sf_def dlp_gemm_qparam_to_zp_def dlp_gemm_set_pre_ops_node_params_def
        split: if_splits; fastforce)+

lemma pre_op_node_facts:
  assumes "pre_op_node b gs n k = Inr nd"
  shows "pr_group_size nd = gs"
    and "quant_op_kind b = DLP_QUANT_OP_DEQUANTIZE \<longrightarrow> pr_scale_factor_dim nd \<noteq> DLP_PARAM_DIM_INVALID"
    and "pr_scale_factor_dim nd \<noteq> DLP_PARAM_DIM_INVALID \<longrightarrow>
         pr_scale_factor_len nd = b_param_entries (pr_scale_factor_dim nd) n (ceil_blks k gs)
         \<and> (0 < pr_scale_factor_len nd \<longrightarrow> pr_scale_factor nd \<noteq> 0) \<and> pr_scale_factor_type nd \<in> {DLP_BF16, DLP_F32}"
    and "pr_zero_point_dim nd \<noteq> DLP_PARAM_DIM_INVALID \<longrightarrow>
         pr_zero_point_len nd = b_param_entries (pr_zero_point_dim nd) n (ceil_blks k gs)
         \<and> (0 < pr_zero_point_len nd \<longrightarrow> pr_zero_point nd \<noteq> 0) \<and> pr_zero_point_type nd \<in> {DLP_BF16, DLP_S8}"
  using pre_op_node_Inr(2,3) [OF assms, THEN b_param_exact] pre_op_node_Inr(1) [OF assms] pre_op_node_fields [OF assms]
  by (auto split: option.splits)

text \<open>C29: An accepted pre-op has a positive group size of at most \<open>k\<close>, even unless it is \<open>k\<close> itself;
  a scale factor, obligatory for dequantisation, and a zero point have exactly as many entries as their
  granularity and the groups along \<open>k\<close> require, their buffers are not NULL, and their types are ones
  the B kernels convert from.\<close>

theorem pre_op_parameters_exact:
  assumes "dlp_gemm_translate_to_pre_ops_list (Some b) n k = Inr nd" "0 < k"
  shows "0 < pr_group_size nd \<and> pr_group_size nd \<le> k \<and> (pr_group_size nd = k \<or> even (pr_group_size nd))
    \<and> (quant_op_kind b = DLP_QUANT_OP_DEQUANTIZE \<longrightarrow> pr_scale_factor_dim nd \<noteq> DLP_PARAM_DIM_INVALID)
    \<and> (pr_scale_factor_dim nd \<noteq> DLP_PARAM_DIM_INVALID \<longrightarrow>
         pr_scale_factor_len nd = b_param_entries (pr_scale_factor_dim nd) n (ceil_blks k (pr_group_size nd))
         \<and> (0 < pr_scale_factor_len nd \<longrightarrow> pr_scale_factor nd \<noteq> 0) \<and> pr_scale_factor_type nd \<in> {DLP_BF16, DLP_F32})
    \<and> (pr_zero_point_dim nd \<noteq> DLP_PARAM_DIM_INVALID \<longrightarrow>
         pr_zero_point_len nd = b_param_entries (pr_zero_point_dim nd) n (ceil_blks k (pr_group_size nd))
         \<and> (0 < pr_zero_point_len nd \<longrightarrow> pr_zero_point nd \<noteq> 0) \<and> pr_zero_point_type nd \<in> {DLP_BF16, DLP_S8})"
proof -
  define gs where "gs = (if qo_group_size b = 0 then k else qo_group_size b)"
  have nd: "pre_op_node b gs n k = Inr nd" and g: "0 \<le> gs" "gs \<le> k" "gs = k \<or> gs smod 2 = 0"
    using assms(1) unfolding dlp_gemm_translate_to_pre_ops_list_def gs_def by (simp_all add: Let_def split: if_splits)
  have gpos: "0 < gs" using g(1) assms(2) by (simp add: gs_def split: if_splits)
  have ev: "gs = k \<or> even gs" using g(3) gpos by (auto simp: even_iff_mod_2_eq_zero smod_nonneg)
  show ?thesis
    unfolding pre_op_node_facts(1) [OF nd]
    using g gpos ev pre_op_node_facts(2-4) [OF nd] by blast
qed

definition example_dequant :: dlp_quant_op_t where
  "example_dequant =
     \<lparr>quant_op_kind = DLP_QUANT_OP_DEQUANTIZE, qo_src_type = DLP_S4, qo_dst_type = DLP_BF16, qo_group_size = 32,
      quant_scale_factors = None,
      dequant_scale_factors = Some \<lparr>qp_data = 9, qp_len = 10, qp_stor_type = DLP_F32, qp_outer_dim = DLP_PARAM_DIM_PER_GROUP\<rparr>,
      qo_zero_point = Some \<lparr>qp_data = 6, qp_len = 1, qp_stor_type = DLP_S8, qp_outer_dim = DLP_PARAM_DIM_PER_TENSOR\<rparr>\<rparr>"

lemma pre_op_example:
  "dlp_gemm_translate_to_pre_ops_list (Some example_dequant) 5 64 =
   Inr \<lparr>pr_group_size = 32, pr_scale_factor = 9, pr_scale_factor_len = 10, pr_scale_factor_dim = DLP_PARAM_DIM_PER_GROUP,
      pr_scale_factor_type = DLP_F32, pr_zero_point = 6, pr_zero_point_len = 1,
      pr_zero_point_dim = DLP_PARAM_DIM_PER_TENSOR, pr_zero_point_type = DLP_S8\<rparr>"
  by code_simp

theorem pre_op_parameters_exact_witness: "b_param_entries DLP_PARAM_DIM_PER_GROUP 5 (ceil_blks 64 32) = 10"
  using pre_op_parameters_exact [OF pre_op_example] by simp

section \<open>Correction of a quantised A\<close>

definition bad_a_param :: "dlp_qparam_t \<Rightarrow> md_t \<Rightarrow> dlp_clsc_err_t option" where
  "bad_a_param q m =
     (if qp_len q > 0 \<and> qp_data q = 0 then Some DLP_CLSC_NULL_POINTER
      else if qp_len q \<noteq> 1 \<and> qp_len q < m then Some DLP_CLSC_UNEXPECTED_VECTOR_DIM else None)"

definition adquantize_node :: "dlp_quant_op_t \<Rightarrow> ptr \<Rightarrow> md_t \<Rightarrow> dlp_clsc_err_t + dlp_gemm_post_op" where
  "adquantize_node a meta_arg m =
     (case (quant_scale_factors a, dequant_scale_factors a) of
        (Some _, Some scl) \<Rightarrow>
          if quant_op_kind a \<noteq> DLP_QUANT_OP_QUANTIZE then Inl DLP_CLSC_NOT_SUPPORTED
          else (case bad_a_param scl m of
                  Some err \<Rightarrow> Inl err
                | None \<Rightarrow>
                    (case (case qo_zero_point a of None \<Rightarrow> None | Some z \<Rightarrow> bad_a_param z m) of
                       Some err \<Rightarrow> Inl err
                     | None \<Rightarrow>
                         if qp_outer_dim scl \<noteq> DLP_PARAM_DIM_PER_TENSOR \<and> qp_outer_dim scl \<noteq> DLP_PARAM_DIM_PER_TOKEN
                         then Inl DLP_CLSC_UNEXPECTED_VECTOR_DIM
                         else Inr (dlp_gemm_set_node_params POST_OPS_ADQUANTIZE
                                (case qo_zero_point a of None \<Rightarrow> 0 | Some z \<Rightarrow> qp_data z) meta_arg
                                (Arg_len (case qo_zero_point a of None \<Rightarrow> 0 | Some z \<Rightarrow> qp_len z))
                                (Buf (qp_data scl)) (qp_len scl) 0 0 DLP_INVALID
                                (case qo_zero_point a of None \<Rightarrow> DLP_INVALID | Some z \<Rightarrow> dlp_gemm_get_stor_type (qp_stor_type z))
                                (dlp_gemm_get_stor_type (qp_stor_type scl)) (qp_outer_dim scl))))
      | _ \<Rightarrow> Inl DLP_CLSC_NULL_POINTER)"

text \<open>The node goes to place 0 of the list; the sequence follows from place 1.\<close>

definition dlp_gemm_translate_adquantize_post_op ::
  "dlp_metadata_t option \<Rightarrow> dlp_gemm_post_op list option \<Rightarrow> ptr \<Rightarrow> md_t \<Rightarrow>
   (dlp_clsc_err_t \<times> dlp_gemm_post_op list) option" where
  "dlp_gemm_translate_adquantize_post_op metadata post_op_list meta_arg m =
     (case (metadata, post_op_list) of
        (Some md, Some nodes) \<Rightarrow>
          (case md_a_quant_op md of
             None \<Rightarrow> Some (DLP_CLSC_NULL_POINTER, nodes)
           | Some a \<Rightarrow>
               (case adquantize_node a meta_arg m of
                  Inl err \<Rightarrow> Some (err, nodes)
                | Inr nd \<Rightarrow>
                    if nodes = [] then None
                    else Some (DLP_CLSC_SUCCESS,
                           nodes[0 := nd\<lparr>po_next := (if md_seq_length md > 0 then Some 1 else None)\<rparr>])))
      | (_, Some nodes) \<Rightarrow> Some (DLP_CLSC_NULL_POINTER, nodes)
      | _ \<Rightarrow> Some (DLP_CLSC_NULL_POINTER, []))"

section \<open>The terminal gated unit\<close>

definition glu_node :: "dlp_term_op_glu \<Rightarrow> bool \<Rightarrow> ptr \<Rightarrow> md_t \<Rightarrow> md_t \<Rightarrow> dlp_clsc_err_t + dlp_gemm_post_op" where
  "glu_node glu col_major meta_arg m n =
     (if gl_d glu = 0 then Inl DLP_CLSC_NULL_POINTER
      else if n smod 2 \<noteq> 0 then Inl DLP_CLSC_INVALID_MATRIX_DIMENSION
      else
        let glu_n = n sdiv 2;
            min_ld_d = (if col_major then m else glu_n)
        in if gl_ld_d glu < min_ld_d then Inl DLP_CLSC_INVALID_LEADING_DIMENSION
           else (case glu_algo_type glu of
                   GATED_SWIGLU \<Rightarrow> Inr (dlp_gemm_set_node_params POST_OPS_GATED_SWIGLU (gl_alpha glu) meta_arg
                       (Arg_ptr (gl_beta glu)) (Buf 0) 0 0 0 (dlp_gemm_get_stor_type (gl_stor_type glu)) DLP_INVALID
                       DLP_INVALID DLP_PARAM_DIM_INVALID)
                 | GATED_SWIGLU_AND_MUL \<Rightarrow> Inr (dlp_gemm_set_node_params POST_OPS_GATED_SWIGLU_AND_MUL (gl_alpha glu)
                       meta_arg (Arg_ptr (gl_beta glu)) (Buf 0) 0 0 0 (dlp_gemm_get_stor_type (gl_stor_type glu))
                       DLP_INVALID DLP_INVALID DLP_PARAM_DIM_INVALID)
                 | DLP_GLU_ALGO_MAX \<Rightarrow> Inl DLP_CLSC_NOT_SUPPORTED))"

text \<open>The node of the gated unit is at place \<open>p\<close>, the head of the list at place 0. \<open>col_major\<close> is the
  test on the character \<open>meta_arg\<close> points to.\<close>

definition dlp_gemm_translate_glu_term_op ::
  "dlp_metadata_t option \<Rightarrow> dlp_gemm_post_op list \<Rightarrow> nat \<Rightarrow> bool \<Rightarrow> ptr \<Rightarrow> md_t \<Rightarrow> md_t \<Rightarrow>
   (dlp_clsc_err_t \<times> dlp_gemm_post_op list) option" where
  "dlp_gemm_translate_glu_term_op metadata nodes p col_major meta_arg m n =
     (if p \<ge> length nodes then None
      else
        let nodes = nodes[0 := (nodes ! 0)\<lparr>glu_d := 0, glu_ld_d := 0\<rparr>]
        in (case (case metadata of None \<Rightarrow> None | Some md \<Rightarrow> md_glu md) of
              None \<Rightarrow> Some (DLP_CLSC_SUCCESS, nodes[p := disabled_node])
            | Some glu \<Rightarrow>
                (case glu_node glu col_major meta_arg m n of
                   Inl err \<Rightarrow> Some (err, nodes)
                 | Inr nd \<Rightarrow>
                     let nodes = nodes[p := nd];
                         nodes = (if p \<noteq> 0 then nodes[p - 1 := (nodes ! (p - 1))\<lparr>po_next := Some p\<rparr>] else nodes);
                         nodes = nodes[0 := (nodes ! 0)\<lparr>glu_d := gl_d glu, glu_ld_d := gl_ld_d glu\<rparr>];
                         nodes = nodes[p := (nodes ! p)\<lparr>glu_d := gl_d glu, glu_ld_d := gl_ld_d glu\<rparr>]
                     in Some (DLP_CLSC_SUCCESS, nodes))))"

text \<open>The two translations as the bf16 entry points call them, on 8 + 1 nodes.\<close>

definition translate_with_glu ::
  "dlp_metadata_t \<Rightarrow> dlp_gemm_post_op list \<Rightarrow> bool \<Rightarrow> ptr \<Rightarrow> md_t \<Rightarrow> md_t \<Rightarrow> (dlp_clsc_err_t \<times> dlp_gemm_post_op list) option" where
  "translate_with_glu md nodes col_major meta_arg m n =
     (case dlp_gemm_translate_to_post_ops_list (Some md) (Some nodes) meta_arg m n of
        None \<Rightarrow> None
      | Some (err, nodes') \<Rightarrow>
          if err \<noteq> DLP_CLSC_SUCCESS then Some (err, nodes')
          else dlp_gemm_translate_glu_term_op (Some md) nodes'
                 (if md_seq_length md > 0 then nat (md_seq_length md) else 0) col_major meta_arg m n)"

lemma node_ok_glu [simp]: "node_ok m n op (nd\<lparr>glu_d := d, glu_ld_d := l\<rparr>) = node_ok m n op nd"
  by (cases "po_scale_factor_dim nd") (simp_all add: node_ok_def sf_coherent_def buffers_present_def)

lemma glu_node_Inr:
  assumes "glu_node glu col_major meta_arg m n = Inr nd"
  shows "gl_d glu \<noteq> 0 \<and> n smod 2 = 0 \<and> (if col_major then m else n sdiv 2) \<le> gl_ld_d glu
    \<and> op_code nd \<in> {POST_OPS_GATED_SWIGLU, POST_OPS_GATED_SWIGLU_AND_MUL} \<and> po_next nd = None"
  using assms
  by (auto simp: glu_node_def Let_def dlp_gemm_set_node_params_def split: if_splits DLP_GLU_ALGO_TYPE.splits)

lemma glu_error_not_success: "glu_node glu col_major meta_arg m n = Inl err \<Longrightarrow> err \<noteq> DLP_CLSC_SUCCESS"
  by (auto simp: glu_node_def Let_def split: if_splits DLP_GLU_ALGO_TYPE.splits)

text \<open>The nodes of the sequence, place by place.\<close>

lemma translated_nodes:
  assumes "dlp_gemm_translate_to_post_ops_list (Some md) (Some nodes) meta_arg m n = Some (DLP_CLSC_SUCCESS, nodes')"
    and "0 < md_seq_length md" "0 < n" "j < nat (md_seq_length md)"
  shows "node_ok m n (the (md_seq_vector md) ! j) (nodes' ! j)
    \<and> po_next (nodes' ! j) = (if Suc j < nat (md_seq_length md) then Some (Suc j) else None)"
proof -
  obtain seq where seq: "md_seq_vector md = Some seq" "nat (md_seq_length md) \<le> length seq"
    and loop: "post_ops_loop md meta_arg m n (take (nat (md_seq_length md)) seq) 0
       \<lparr>e_i = 0, s_i = 0, b_i = 0, m_i = 0, mul_i = 0\<rparr> nodes = Some (DLP_CLSC_SUCCESS, nodes')"
    using translate_success_loop [OF assms(1,2)] by blast
  show ?thesis using loop_success [OF loop assms(3) le0] seq assms(4) by auto
qed

text \<open>The list after a gated unit was appended at place \<open>p\<close>.\<close>

lemma glu_appended:
  assumes "dlp_gemm_translate_glu_term_op (Some md) nodes p col_major meta_arg m n = Some (DLP_CLSC_SUCCESS, nodes')"
    and "md_glu md = Some glu"
  obtains nd where "glu_node glu col_major meta_arg m n = Inr nd" "p < length nodes" "length nodes' = length nodes"
    "nodes' ! p = nd\<lparr>glu_d := gl_d glu, glu_ld_d := gl_ld_d glu\<rparr>"
    "glu_d (nodes' ! 0) = gl_d glu" "glu_ld_d (nodes' ! 0) = gl_ld_d glu"
    "\<And>j. j < p \<Longrightarrow> po_next (nodes' ! j) = (if Suc j = p then Some p else po_next (nodes ! j))"
    "\<And>j op. j < p \<Longrightarrow> node_ok m n op (nodes' ! j) = node_ok m n op (nodes ! j)"
proof -
  have p: "p < length nodes" using assms(1) by (simp add: dlp_gemm_translate_glu_term_op_def split: if_splits)
  obtain nd where nd: "glu_node glu col_major meta_arg m n = Inr nd"
    using assms glu_error_not_success
    by (cases "glu_node glu col_major meta_arg m n") (auto simp: dlp_gemm_translate_glu_term_op_def Let_def split: if_splits)
  have n': "nodes' = (let ns = nodes[0 := (nodes ! 0)\<lparr>glu_d := 0, glu_ld_d := 0\<rparr>, p := nd];
       ns = (if p \<noteq> 0 then ns[p - 1 := (ns ! (p - 1))\<lparr>po_next := Some p\<rparr>] else ns);
       ns = ns[0 := (ns ! 0)\<lparr>glu_d := gl_d glu, glu_ld_d := gl_ld_d glu\<rparr>]
     in ns[p := (ns ! p)\<lparr>glu_d := gl_d glu, glu_ld_d := gl_ld_d glu\<rparr>])"
    using assms nd p by (simp add: dlp_gemm_translate_glu_term_op_def Let_def)
  have ne: "nodes \<noteq> []" using p by fastforce
  show thesis
  proof (rule that [OF nd p])
    show "length nodes' = length nodes" by (simp add: n' Let_def)
    show "nodes' ! p = nd\<lparr>glu_d := gl_d glu, glu_ld_d := gl_ld_d glu\<rparr>"
      using p ne by (auto simp: n' Let_def nth_list_update)
    show "glu_d (nodes' ! 0) = gl_d glu" "glu_ld_d (nodes' ! 0) = gl_ld_d glu"
      using p ne by (auto simp: n' Let_def nth_list_update)
    show "po_next (nodes' ! j) = (if Suc j = p then Some p else po_next (nodes ! j))" if "j < p" for j
      using p ne that by (auto simp: n' Let_def nth_list_update)
    show "node_ok m n op (nodes' ! j) = node_ok m n op (nodes ! j)" if "j < p" for j op
      using p ne that by (auto simp: n' Let_def nth_list_update)
  qed
qed


definition example_glu_md :: dlp_metadata_t where
  "example_glu_md = example_scale_md\<lparr>md_glu := Some \<lparr>glu_algo_type = GATED_SWIGLU, gl_d = 40, gl_ld_d = 2,
     gl_alpha = 0, gl_beta = 0, gl_stor_type = DLP_F32\<rparr>\<rparr>"


end
