(* ===== verification/Task_Range.thy ===== *)
theory Task_Range
  imports Dlp_Prelude
begin

text \<open>
  Work partitioning of \<^verbatim>\<open>classic/include/threading/dlp_gemm_thread_utils.h\<close>: the identity of a
  thread in the jc and ic loops (\<open>dlp_gemm_gen_dlp_task_ids\<close>) and the slice of an index range a
  work id owns (\<open>dlp_thread_task_range\<close>).

  The interface the loop drivers rely on is the locale \<open>range_partition\<close>: slices are adjacent,
  start at 0, end at \<open>n\<close>, begin on a block boundary, and ids outside \<open>[0, n_way)\<close> get an empty
  slice. What the clients need (every index has exactly one owner) is proved once in the locale.
\<close>

section \<open>Thread identities\<close>

record dlp_task_comm_t =
  sent_object :: "nat option"
  comm_n_threads :: md_t
  barrier_sense :: md_t
  barrier_threads_arrived :: md_t

record dlp_task_id_t =
  ocomm_id :: md_t
  n_way :: md_t
  work_id :: md_t

record dlp_gemm_thrinfo_t =
  thr_n_threads :: md_t
  thr_tid :: md_t
  thr_ic_ways :: md_t
  thr_jc_ways :: md_t

text \<open>\<open>dlp_task_comm_init\<close> on a communicator; a NULL pointer (\<open>None\<close>) is left alone.\<close>

definition dlp_task_comm_init :: "md_t \<Rightarrow> dlp_task_comm_t option \<Rightarrow> dlp_task_comm_t option" where
  "dlp_task_comm_init n_threads comm =
     (case comm of None \<Rightarrow> None
      | Some c \<Rightarrow> Some (c\<lparr>sent_object := None, comm_n_threads := n_threads,
                         barrier_sense := 0, barrier_threads_arrived := 0\<rparr>))"

text \<open>The pair is (\<open>thread_jc\<close>, \<open>thread_ic\<close>); a NULL \<open>thread\<close> is \<open>None\<close>.\<close>

definition dlp_gemm_gen_dlp_task_ids ::
    "dlp_gemm_thrinfo_t option \<Rightarrow> dlp_task_id_t \<times> dlp_task_id_t" where
  "dlp_gemm_gen_dlp_task_ids thread =
     (case thread of
        None \<Rightarrow> (\<lparr>ocomm_id = 0, n_way = 1, work_id = 0\<rparr>,
                 \<lparr>ocomm_id = 0, n_way = 1, work_id = 0\<rparr>)
      | Some t \<Rightarrow>
          (let jc_work_id = thr_tid t sdiv thr_ic_ways t;
               ic_comm_id = thr_tid t smod thr_ic_ways t
           in (\<lparr>ocomm_id = thr_tid t, n_way = thr_jc_ways t, work_id = jc_work_id\<rparr>,
               \<lparr>ocomm_id = ic_comm_id, n_way = thr_ic_ways t, work_id = ic_comm_id\<rparr>)))"

definition dlp_thread_am_ochief :: "dlp_task_id_t \<Rightarrow> bool" where
  "dlp_thread_am_ochief t \<longleftrightarrow> ocomm_id t = 0"

section \<open>The slice of a work id\<close>

definition dlp_thread_task_range ::
    "dlp_task_id_t \<Rightarrow> md_t \<Rightarrow> md_t \<Rightarrow> bool \<Rightarrow> md_t \<times> md_t" where
  "dlp_thread_task_range thread n bf handle_edge_low =
     (let n_way = n_way thread;
          work_id = work_id thread
      in if work_id < 0 \<or> work_id \<ge> n_way then (n, n)
         else if n_way = 1 then (0, n)
         else
          (let all_start = 0;
               all_end = n;
               size = all_end - all_start;
               n_bf_whole = size sdiv bf;
               n_bf_left = size smod bf;
               n_bf_lo = n_bf_whole sdiv n_way;
               n_bf_hi = n_bf_whole sdiv n_way
           in if \<not> handle_edge_low then
               (let n_th_lo = n_bf_whole smod n_way;
                    n_bf_lo = (if n_th_lo \<noteq> 0 then n_bf_lo + 1 else n_bf_lo);
                    size_lo = n_bf_lo * bf;
                    size_hi = n_bf_hi * bf;
                    lo_start = all_start;
                    hi_start = all_start + n_th_lo * size_lo
                in if work_id < n_th_lo
                   then (lo_start + work_id * size_lo, lo_start + (work_id + 1) * size_lo)
                   else (hi_start + (work_id - n_th_lo) * size_hi,
                         hi_start + (work_id - n_th_lo + 1) * size_hi
                           + (if work_id = n_way - 1 then n_bf_left else 0)))
              else
               (let n_th_hi = n_bf_whole smod n_way;
                    n_th_lo = n_way - n_th_hi;
                    n_bf_hi = (if n_th_hi \<noteq> 0 then n_bf_hi + 1 else n_bf_hi);
                    size_lo = n_bf_lo * bf;
                    size_hi = n_bf_hi * bf;
                    lo_start = all_start;
                    hi_start = all_start + n_th_lo * size_lo + n_bf_left
                in if work_id < n_th_lo
                   then (if work_id = 0
                         then (lo_start + work_id * size_lo,
                               lo_start + (work_id + 1) * size_lo + n_bf_left)
                         else (lo_start + work_id * size_lo + n_bf_left,
                               lo_start + (work_id + 1) * size_lo + n_bf_left))
                   else (hi_start + (work_id - n_th_lo) * size_hi,
                         hi_start + (work_id - n_th_lo + 1) * size_hi))))"

text \<open>The slice as a function of the arguments the drivers vary.\<close>

definition task_slice :: "bool \<Rightarrow> md_t \<Rightarrow> md_t \<Rightarrow> md_t \<Rightarrow> md_t \<Rightarrow> md_t \<times> md_t" where
  "task_slice low n bf ways w =
     dlp_thread_task_range \<lparr>ocomm_id = w, n_way = ways, work_id = w\<rparr> n bf low"

lemma task_range_eq_slice:
  "dlp_thread_task_range t n bf low = task_slice low n bf (n_way t) (work_id t)"
  by (simp add: task_slice_def dlp_thread_task_range_def)

section \<open>The contract of a partition\<close>

locale range_partition =
  fixes range :: "md_t \<Rightarrow> md_t \<Rightarrow> md_t \<Rightarrow> md_t \<Rightarrow> md_t \<times> md_t"
  assumes range_first: "0 \<le> n \<Longrightarrow> 0 < bf \<Longrightarrow> 0 < ways \<Longrightarrow> fst (range n bf ways 0) = 0"
    and range_last: "0 \<le> n \<Longrightarrow> 0 < bf \<Longrightarrow> 0 < ways \<Longrightarrow> snd (range n bf ways (ways - 1)) = n"
    and range_adjacent:
      "0 \<le> n \<Longrightarrow> 0 < bf \<Longrightarrow> 0 \<le> w \<Longrightarrow> w + 1 < ways \<Longrightarrow>
       snd (range n bf ways w) = fst (range n bf ways (w + 1))"
    and range_ordered:
      "0 \<le> n \<Longrightarrow> 0 < bf \<Longrightarrow> 0 \<le> w \<Longrightarrow> w < ways \<Longrightarrow>
       fst (range n bf ways w) \<le> snd (range n bf ways w)"
    and range_retired:
      "w < 0 \<or> ways \<le> w \<Longrightarrow> range n bf ways w = (n, n)"
begin

lemma start_mono:
  assumes "0 \<le> n" "0 < bf" "0 \<le> w" "w \<le> v" "v < ways"
  shows "fst (range n bf ways w) \<le> fst (range n bf ways v)"
  using assms(4,5)
proof (induction v rule: int_ge_induct)
  case base
  then show ?case by simp
next
  case (step v)
  then have "fst (range n bf ways w) \<le> fst (range n bf ways v)" by simp
  also have "\<dots> \<le> snd (range n bf ways v)" using assms step by (intro range_ordered) auto
  also have "\<dots> = fst (range n bf ways (v + 1))" using assms step by (intro range_adjacent) auto
  finally show ?case .
qed

lemma end_le_start:
  assumes "0 \<le> n" "0 < bf" "0 \<le> w" "w < v" "v < ways"
  shows "snd (range n bf ways w) \<le> fst (range n bf ways v)"
  using assms start_mono [of n bf "w + 1" v ways] range_adjacent [of n bf w ways] by auto

lemma slice_bounds:
  assumes "0 \<le> n" "0 < bf" "0 \<le> w" "w < ways"
  shows "0 \<le> fst (range n bf ways w)" and "snd (range n bf ways w) \<le> n"
proof -
  show "0 \<le> fst (range n bf ways w)"
    using assms start_mono [of n bf 0 w ways] range_first [of n bf ways] by auto
  show "snd (range n bf ways w) \<le> n"
  proof (cases "w = ways - 1")
    case True
    then show ?thesis using assms range_last by simp
  next
    case False
    then have "snd (range n bf ways w) \<le> fst (range n bf ways (ways - 1))"
      using assms by (intro end_le_start) auto
    also have "\<dots> \<le> snd (range n bf ways (ways - 1))" using assms by (intro range_ordered) auto
    finally show ?thesis using assms range_last by simp
  qed
qed

lemma covered_upto:
  assumes "0 \<le> n" "0 < bf" "0 \<le> w" "w < ways" "0 \<le> i" "i < snd (range n bf ways w)"
  shows "\<exists>v. 0 \<le> v \<and> v \<le> w \<and> fst (range n bf ways v) \<le> i \<and> i < snd (range n bf ways v)"
  using assms(3,4,6)
proof (induction w rule: int_ge_induct)
  case base
  then show ?case using assms(1,2,5) range_first [of n bf ways] by (intro exI [of _ 0]) auto
next
  case (step w)
  show ?case
  proof (cases "i < snd (range n bf ways w)")
    case True
    then obtain v where "0 \<le> v" "v \<le> w" "fst (range n bf ways v) \<le> i" "i < snd (range n bf ways v)"
      using step by auto
    then show ?thesis by (intro exI [of _ v]) auto
  next
    case False
    then show ?thesis
      using step assms range_adjacent [of n bf w ways] by (intro exI [of _ "w + 1"]) auto
  qed
qed

lemma owner_unique:
  assumes "0 \<le> n" "0 < bf"
    and "fst (range n bf ways w) \<le> i" "i < snd (range n bf ways w)"
    and "fst (range n bf ways v) \<le> i" "i < snd (range n bf ways v)"
  shows "w = v"
proof -
  have in_w: "0 \<le> w \<and> w < ways" using assms range_retired [of w ways n bf] by (cases "0 \<le> w \<and> w < ways") auto
  have in_v: "0 \<le> v \<and> v < ways" using assms range_retired [of v ways n bf] by (cases "0 \<le> v \<and> v < ways") auto
  consider "w < v" | "w = v" | "v < w" by linarith
  then show ?thesis
  proof cases
    case 1
    then show ?thesis using end_le_start [of n bf w v ways] assms in_w in_v by linarith
  next
    case 2
    then show ?thesis .
  next
    case 3
    then show ?thesis using end_le_start [of n bf v w ways] assms in_w in_v by linarith
  qed
qed

theorem one_owner:
  assumes "0 \<le> n" "0 < bf" "0 < ways" "0 \<le> i" "i < n"
  shows "\<exists>!w. fst (range n bf ways w) \<le> i \<and> i < snd (range n bf ways w)"
proof -
  have "i < snd (range n bf ways (ways - 1))" using assms range_last by simp
  then obtain v where "fst (range n bf ways v) \<le> i \<and> i < snd (range n bf ways v)"
    using covered_upto [of n bf "ways - 1" ways i] assms by auto
  then show ?thesis using owner_unique [OF assms(1,2)] by blast
qed

lemma owner_in_range:
  assumes "fst (range n bf ways w) \<le> i" "i < snd (range n bf ways w)"
  shows "0 \<le> w \<and> w < ways"
  using assms range_retired [of w ways n bf] by (cases "0 \<le> w \<and> w < ways") auto

end

section \<open>Closed forms of the two edge policies\<close>

text \<open>The boundary before work id \<open>w\<close>, in whole blocks: the lower ids get the surplus blocks when
  the edge is high, the upper ids when it is low.\<close>

definition high_mark :: "md_t \<Rightarrow> md_t \<Rightarrow> md_t \<Rightarrow> md_t \<Rightarrow> md_t" where
  "high_mark n bf ways w = (w * (n div bf div ways) + min w (n div bf mod ways)) * bf"

definition low_mark :: "md_t \<Rightarrow> md_t \<Rightarrow> md_t \<Rightarrow> md_t \<Rightarrow> md_t" where
  "low_mark n bf ways w = (w * (n div bf div ways) + max 0 (w - (ways - n div bf mod ways))) * bf"

lemma high_mark_0: "0 < ways \<Longrightarrow> high_mark n bf ways 0 = 0"
  by (simp add: high_mark_def)

lemma low_mark_0: "0 < ways \<Longrightarrow> low_mark n bf ways 0 = 0"
  using pos_mod_bound [of ways "n div bf"] by (simp add: low_mark_def less_imp_le)

lemma high_mark_ways: "0 < ways \<Longrightarrow> high_mark n bf ways ways = n div bf * bf"
  by (simp add: high_mark_def min_absorb2 less_imp_le mult.commute [of ways])

lemma low_mark_ways: "0 < ways \<Longrightarrow> low_mark n bf ways ways = n div bf * bf"
  by (simp add: low_mark_def mult.commute [of ways])

lemma high_mark_step:
  assumes "0 < bf"
  shows "high_mark n bf ways w + n div bf div ways * bf \<le> high_mark n bf ways (w + 1)"
    and "high_mark n bf ways (w + 1) \<le> high_mark n bf ways w + n div bf div ways * bf + bf"
proof -
  have "w * q + min w r + q \<le> (w + 1) * q + min (w + 1) r"
    and "(w + 1) * q + min (w + 1) r \<le> w * q + min w r + q + 1" for q r :: int
    by (auto simp: algebra_simps)
  note le = this [of "n div bf div ways" "n div bf mod ways", THEN mult_right_mono, of bf]
  show "high_mark n bf ways w + n div bf div ways * bf \<le> high_mark n bf ways (w + 1)"
    using le(1) assms by (simp only: high_mark_def distrib_right)
  show "high_mark n bf ways (w + 1) \<le> high_mark n bf ways w + n div bf div ways * bf + bf"
    using le(2) assms by (simp add: high_mark_def distrib_right)
qed

lemma low_mark_step:
  assumes "0 < bf"
  shows "low_mark n bf ways w + n div bf div ways * bf \<le> low_mark n bf ways (w + 1)"
proof -
  have "w * q + max 0 (w - l) + q \<le> (w + 1) * q + max 0 (w + 1 - l)" for q l :: int
    by (auto simp: algebra_simps)
  note le = this [of "n div bf div ways" "ways - n div bf mod ways", THEN mult_right_mono, of bf]
  show ?thesis using le assms by (simp only: low_mark_def distrib_right)
qed

lemma task_slice_single: "task_slice low n bf 1 0 = (0, n)"
  by (simp add: task_slice_def dlp_thread_task_range_def)

lemma task_slice_high:
  assumes "0 \<le> n" "0 < bf" "0 \<le> w" "w < ways"
  shows "task_slice False n bf ways w =
    (high_mark n bf ways w, high_mark n bf ways (w + 1) + (if w = ways - 1 then n mod bf else 0))"
proof -
  define nb q r where "nb = n div bf" and "q = nb div ways" and "r = nb mod ways"
  have pos: "0 < ways" "0 \<le> nb" "0 \<le> q" "0 \<le> r" "r < ways"
    using assms by (auto simp: nb_def q_def r_def div_int_pos_iff)
  show ?thesis
  proof (cases "ways = 1")
    case True
    then have "w = 0" using assms by simp
    with True show ?thesis by (simp add: task_slice_single high_mark_def)
  next
    case False
    show ?thesis
    proof (cases "w < r")
      case True
      then have "w \<noteq> ways - 1" using pos by linarith
      with True False assms pos show ?thesis
        by (simp add: task_slice_def dlp_thread_task_range_def high_mark_def cdiv_simps Let_def
              algebra_simps flip: nb_def q_def r_def)
    next
      case w: False
      with False assms pos show ?thesis
        by (simp add: task_slice_def dlp_thread_task_range_def high_mark_def cdiv_simps Let_def
              flip: nb_def q_def r_def) (auto simp: algebra_simps)
    qed
  qed
qed

lemma task_slice_low:
  assumes "0 \<le> n" "0 < bf" "0 \<le> w" "w < ways"
  shows "task_slice True n bf ways w =
    (low_mark n bf ways w + (if w = 0 then 0 else n mod bf), low_mark n bf ways (w + 1) + n mod bf)"
proof -
  define nb q r where "nb = n div bf" and "q = nb div ways" and "r = nb mod ways"
  have pos: "0 < ways" "0 \<le> nb" "0 \<le> q" "0 \<le> r" "r < ways"
    using assms by (auto simp: nb_def q_def r_def div_int_pos_iff)
  show ?thesis
  proof (cases "ways = 1")
    case True
    then have "w = 0" using assms by simp
    with True show ?thesis by (simp add: task_slice_single low_mark_def)
  next
    case False
    show ?thesis
    proof (cases "w < ways - r")
      case True
      with False assms pos show ?thesis
        by (simp add: task_slice_def dlp_thread_task_range_def low_mark_def cdiv_simps Let_def
              flip: nb_def q_def r_def)
    next
      case w: False
      then have "w \<noteq> 0" using pos by linarith
      with w False assms pos show ?thesis
        by (simp add: task_slice_def dlp_thread_task_range_def low_mark_def cdiv_simps Let_def
              flip: nb_def q_def r_def) (simp add: algebra_simps)
    qed
  qed
qed

lemma task_slice_retired: "w < 0 \<or> ways \<le> w \<Longrightarrow> task_slice low n bf ways w = (n, n)"
  by (auto simp: task_slice_def dlp_thread_task_range_def Let_def)

lemma blocks_per_way_ge_0: "0 \<le> n \<Longrightarrow> 0 < bf \<Longrightarrow> 0 < ways \<Longrightarrow> 0 \<le> n div bf div ways * bf"
  for n bf ways :: int
  by (simp add: div_int_pos_iff)

lemma le_add_mod: "0 < bf \<Longrightarrow> a \<le> b \<Longrightarrow> a \<le> b + n mod bf" for n bf a b :: int
  by (simp add: add_increasing2)

interpretation high_edge: range_partition "task_slice False"
proof
  fix n bf ways w :: md_t
  assume n: "0 \<le> n" and bf: "0 < bf"
  show "0 < ways \<Longrightarrow> fst (task_slice False n bf ways 0) = 0"
    using n bf by (simp add: task_slice_high high_mark_0)
  show "0 < ways \<Longrightarrow> snd (task_slice False n bf ways (ways - 1)) = n"
    using n bf by (simp add: task_slice_high high_mark_ways)
  show "0 \<le> w \<Longrightarrow> w + 1 < ways \<Longrightarrow> snd (task_slice False n bf ways w) = fst (task_slice False n bf ways (w + 1))"
    using n bf by (simp add: task_slice_high)
  show "fst (task_slice False n bf ways w) \<le> snd (task_slice False n bf ways w)"
    if "0 \<le> w" "w < ways"
    using that n bf high_mark_step(1) [OF bf, of n ways w] blocks_per_way_ge_0 [of n bf ways]
    by (auto simp: task_slice_high intro!: le_add_mod)
next
  show "\<And>w ways n bf. w < 0 \<or> ways \<le> w \<Longrightarrow> task_slice False n bf ways w = (n, n)"
    by (rule task_slice_retired)
qed

interpretation low_edge: range_partition "task_slice True"
proof
  fix n bf ways w :: md_t
  assume n: "0 \<le> n" and bf: "0 < bf"
  show "0 < ways \<Longrightarrow> fst (task_slice True n bf ways 0) = 0"
    using n bf by (simp add: task_slice_low low_mark_0)
  show "0 < ways \<Longrightarrow> snd (task_slice True n bf ways (ways - 1)) = n"
    using n bf by (simp add: task_slice_low low_mark_ways)
  show "0 \<le> w \<Longrightarrow> w + 1 < ways \<Longrightarrow> snd (task_slice True n bf ways w) = fst (task_slice True n bf ways (w + 1))"
    using n bf by (simp add: task_slice_low)
  show "fst (task_slice True n bf ways w) \<le> snd (task_slice True n bf ways w)"
    if "0 \<le> w" "w < ways"
    using that n bf low_mark_step [OF bf, of n ways w] blocks_per_way_ge_0 [of n bf ways]
    by (auto simp: task_slice_low intro!: le_add_mod)
next
  show "\<And>w ways n bf. w < 0 \<or> ways \<le> w \<Longrightarrow> task_slice True n bf ways w = (n, n)"
    by (rule task_slice_retired)
qed

section \<open>Properties of the partition\<close>

lemma task_slice_start_aligned:
  assumes "0 \<le> n" "0 < bf" "0 \<le> w" "w < ways"
  shows "bf dvd fst (task_slice False n bf ways w)"
  using assms by (simp add: task_slice_high high_mark_def)

lemma task_slice_end_aligned:
  assumes "0 \<le> n" "0 < bf" "0 \<le> w" "w < ways"
  shows "bf dvd snd (task_slice False n bf ways w) \<or> snd (task_slice False n bf ways w) = n"
proof (cases "w + 1 < ways")
  case True
  then show ?thesis using high_edge.range_adjacent [OF assms(1-3) True] task_slice_start_aligned [of n bf "w + 1" ways] assms by simp
next
  case False
  then have "w = ways - 1" using assms(4) by simp
  then show ?thesis using high_edge.range_last [OF assms(1,2), of ways] assms(3,4) by simp
qed



text \<open>The load is balanced: of two threads one gets at most one block of \<open>bf\<close> indices more than
  the other, not counting the \<open>n mod bf\<close> left-over indices, which go to the last thread; and every
  slice starts on a multiple of \<open>bf\<close>.\<close>

lemma task_range_balanced:
  assumes "0 \<le> n" and "0 < bf" and "0 \<le> v" and "v < ways" and "0 \<le> w" and "w < ways"
    and "dlp_thread_task_range \<lparr>ocomm_id = c, n_way = ways, work_id = v\<rparr> n bf False = (s1, e1)"
    and "dlp_thread_task_range \<lparr>ocomm_id = d, n_way = ways, work_id = w\<rparr> n bf False = (s2, e2)"
  shows "bf dvd s1 \<and> (e1 - s1) - (e2 - s2) \<le> bf + (if v = ways - 1 then n mod bf else 0)"
proof -
  have "(s1, e1) = task_slice False n bf ways v" and "(s2, e2) = task_slice False n bf ways w"
    using assms(7,8) by (simp_all add: task_range_eq_slice)
  moreover have "bf dvd high_mark n bf ways v" by (simp add: high_mark_def)
  ultimately show ?thesis
    using assms(1-6) high_mark_step(2) [OF assms(2), of n ways v]
      high_mark_step(1) [OF assms(2), of n ways w]
      pos_mod_sign [OF assms(2), of n]
    by (auto simp: task_slice_high simp del: pos_mod_sign split: if_splits)
qed

lemma task_range_balanced_witness:
  "(16::int) dvd 32 \<and> (64 - 32 :: int) - (100 - 80) \<le> 16 + (if 1 = (4::int) - 1 then 100 mod 16 else 0)"
  using task_range_balanced [of 100 16 1 4 3 0 32 64 0 80 100] by (simp add: dlp_thread_task_range_def)

end
