(* ===== verification/Barrier.thy ===== *)
theory Barrier
  imports Task_Range
begin

unbundle bit_operations_syntax

text \<open>
  The sense-reversing barrier of a group of threads, \<open>dlp_atomic_barrier\<close> in
  \<^verbatim>\<open>classic/frame/threading/dlp_gemm_thread_utils.c\<close>.

  The body is split into its atomic accesses to the shared communicator: the load of the sense,
  the increment of the arrival counter, the reset of the counter, the flip of the sense, and each
  reading of the sense in the spin loop. \<open>barrier_action i\<close> is the next such access of thread
  \<open>i\<close>; \<open>bar_reach n K\<close> are the states any interleaving of \<open>n\<close> threads, each calling the barrier
  \<open>K\<close> times, can reach. The accesses are sequentially consistent here. The counts \<open>br_done\<close> of
  completed calls are not in the code; they only serve the statements.
\<close>

datatype bar_pc = Outside | Loaded | Spinning | LastArrived | Resetted

record bar_state =
  br_comm :: dlp_task_comm_t
  br_pc :: "nat \<Rightarrow> bar_pc"
  br_orig_sense :: "nat \<Rightarrow> md_t"
  br_done :: "nat \<Rightarrow> nat"

definition leave :: "nat \<Rightarrow> bar_state \<Rightarrow> bar_state" where
  "leave i s = s\<lparr>br_pc := (br_pc s)(i := Outside), br_done := (br_done s)(i := Suc (br_done s i))\<rparr>"

definition barrier_action :: "nat \<Rightarrow> bar_state \<Rightarrow> bar_state" where
  "barrier_action i s =
     (let comm = br_comm s in
      case br_pc s i of
        Outside \<Rightarrow>
          if comm_n_threads comm = 1 then leave i s
          else s\<lparr>br_orig_sense := (br_orig_sense s)(i := barrier_sense comm), br_pc := (br_pc s)(i := Loaded)\<rparr>
      | Loaded \<Rightarrow>
          let my_threads_arrived = barrier_threads_arrived comm + 1
          in s\<lparr>br_comm := comm\<lparr>barrier_threads_arrived := my_threads_arrived\<rparr>,
               br_pc := (br_pc s)(i := if my_threads_arrived = comm_n_threads comm then LastArrived else Spinning)\<rparr>
      | LastArrived \<Rightarrow>
          s\<lparr>br_comm := comm\<lparr>barrier_threads_arrived := 0\<rparr>, br_pc := (br_pc s)(i := Resetted)\<rparr>
      | Resetted \<Rightarrow>
          leave i (s\<lparr>br_comm := comm\<lparr>barrier_sense := barrier_sense comm XOR 1\<rparr>\<rparr>)
      | Spinning \<Rightarrow>
          if barrier_sense comm = br_orig_sense s i then s else leave i s)"

text \<open>A thread may act while it is inside the barrier, or when it has calls left to make.\<close>

definition may_act :: "nat \<Rightarrow> nat \<Rightarrow> bar_state \<Rightarrow> nat \<Rightarrow> bool" where
  "may_act n K s i \<longleftrightarrow> i < n \<and> (br_pc s i = Outside \<longrightarrow> br_done s i < K)"

definition bar_init :: "nat \<Rightarrow> bar_state" where
  "bar_init n = \<lparr>br_comm = \<lparr>sent_object = None, comm_n_threads = int n, barrier_sense = 0, barrier_threads_arrived = 0\<rparr>,
     br_pc = (\<lambda>_. Outside), br_orig_sense = (\<lambda>_. 0), br_done = (\<lambda>_. 0)\<rparr>"

inductive bar_reach :: "nat \<Rightarrow> nat \<Rightarrow> bar_state \<Rightarrow> bool" for n K where
  start: "bar_reach n K (bar_init n)"
| act: "bar_reach n K s \<Longrightarrow> may_act n K s i \<Longrightarrow> bar_reach n K (barrier_action i s)"

inductive_cases bar_reachE: "bar_reach n K s"

section \<open>Invariant\<close>

text \<open>Threads that have arrived in the current episode \<open>e\<close>, and the thread that completes it.\<close>

definition arrived_in :: "nat \<Rightarrow> nat \<Rightarrow> bar_state \<Rightarrow> nat set" where
  "arrived_in n e s = {i. i < n \<and> br_done s i = e \<and> br_pc s i \<notin> {Outside, Loaded}}"

definition closing :: "nat \<Rightarrow> bar_state \<Rightarrow> nat set" where
  "closing n s = {i. i < n \<and> br_pc s i \<in> {LastArrived, Resetted}}"

definition thread_inv :: "nat \<Rightarrow> nat \<Rightarrow> bar_state \<Rightarrow> nat \<Rightarrow> bool" where
  "thread_inv K e s i \<longleftrightarrow>
     ((br_done s i = e \<and> (br_pc s i \<noteq> Outside \<longrightarrow> br_orig_sense s i = barrier_sense (br_comm s))) \<or>
      (Suc (br_done s i) = e \<and> br_pc s i = Spinning \<and> br_orig_sense s i \<noteq> barrier_sense (br_comm s)))
     \<and> (br_pc s i \<noteq> Outside \<longrightarrow> br_done s i < K)"

definition bar_inv :: "nat \<Rightarrow> nat \<Rightarrow> nat \<Rightarrow> bar_state \<Rightarrow> bool" where
  "bar_inv n K e s \<longleftrightarrow>
     comm_n_threads (br_comm s) = int n \<and> barrier_sense (br_comm s) = int (e mod 2) \<and>
     (\<forall>i<n. thread_inv K e s i) \<and>
     (closing n s = {} \<longrightarrow> card (arrived_in n e s) < n
        \<and> barrier_threads_arrived (br_comm s) = int (card (arrived_in n e s))) \<and>
     (\<forall>i\<in>closing n s. closing n s = {i} \<and> arrived_in n e s = {..<n}
        \<and> (br_pc s i = Resetted \<longrightarrow> barrier_threads_arrived (br_comm s) = 0))"

lemma finite_arrived [simp]: "finite (arrived_in n e s)"
  by (simp add: arrived_in_def)

lemma arrived_le: "card (arrived_in n e s) \<le> n"
  using card_mono [of "{..<n}" "arrived_in n e s"] by (auto simp: arrived_in_def)

lemma arrived_full: "card (arrived_in n e s) = n \<Longrightarrow> arrived_in n e s = {..<n}"
  by (rule card_subset_eq) (auto simp: arrived_in_def)

lemma bar_inv_init: "2 \<le> n \<Longrightarrow> bar_inv n K 0 (bar_init n)"
  by (auto simp: bar_inv_def bar_init_def thread_inv_def arrived_in_def closing_def)

text \<open>A state that differs from another only in a thread that is outside or about to arrive keeps
  the count of arrivals.\<close>

lemma flip_sense: "barrier_sense c = int (e mod 2) \<Longrightarrow>
   barrier_sense c XOR 1 = int (Suc e mod 2) \<and> barrier_sense c XOR 1 \<noteq> barrier_sense c"
  by (cases "even e") (auto simp: even_iff_mod_2_eq_zero odd_iff_mod_2_eq_one mod_Suc)

lemma inv_outside:
  assumes "bar_inv n K e s" "2 \<le> n" "i < n" "br_pc s i = Outside" "br_done s i < K"
  shows "bar_inv n K e (barrier_action i s)"
proof -
  let ?s = "barrier_action i s"
  have s': "?s = s\<lparr>br_orig_sense := (br_orig_sense s)(i := barrier_sense (br_comm s)), br_pc := (br_pc s)(i := Loaded)\<rparr>"
    using assms by (simp add: barrier_action_def bar_inv_def)
  have "arrived_in n e ?s = arrived_in n e s" "closing n ?s = closing n s"
    using assms(4) by (auto simp: s' arrived_in_def closing_def)
  moreover have "thread_inv K e ?s j" if "j < n" for j
    using assms that by (auto simp: bar_inv_def thread_inv_def s')
  moreover have "\<forall>j\<in>closing n s. j \<noteq> i" using assms(4) by (auto simp: closing_def)
  ultimately show ?thesis using assms(1) by (auto simp: bar_inv_def s')
qed

lemma inv_loaded:
  assumes "bar_inv n K e s" "i < n" "br_pc s i = Loaded"
  shows "bar_inv n K e (barrier_action i s)"
proof -
  let ?s = "barrier_action i s" and ?a = "barrier_threads_arrived (br_comm s) + 1"
  have ti: "br_done s i = e" "br_orig_sense s i = barrier_sense (br_comm s)" "br_done s i < K"
    using assms by (auto simp: bar_inv_def thread_inv_def)
  have notin: "i \<notin> arrived_in n e s" using assms(3) by (simp add: arrived_in_def)
  have cl: "closing n s = {}" using assms notin by (fastforce simp: bar_inv_def)
  then have cnt: "barrier_threads_arrived (br_comm s) = int (card (arrived_in n e s))"
    and nt: "comm_n_threads (br_comm s) = int n" using assms(1) by (auto simp: bar_inv_def)
  have s': "?s = s\<lparr>br_comm := (br_comm s)\<lparr>barrier_threads_arrived := ?a\<rparr>,
               br_pc := (br_pc s)(i := if ?a = int n then LastArrived else Spinning)\<rparr>"
    using assms(3) nt by (simp add: barrier_action_def Let_def)
  have arr: "arrived_in n e ?s = insert i (arrived_in n e s)"
    using ti assms(2) by (auto simp: s' arrived_in_def)
  then have card: "int (card (arrived_in n e ?s)) = ?a" using notin cnt by simp
  have thr: "thread_inv K e ?s j" if "j < n" for j
    using assms that ti by (auto simp: bar_inv_def thread_inv_def s')
  have clo: "closing n ?s = (if ?a = int n then {i} else {})"
    using cl assms(2) by (auto simp: s' closing_def split: if_splits)
  show ?thesis
    using thr clo card arrived_full [of n e ?s] arrived_le [of n e ?s] assms(1)
    by (auto simp: bar_inv_def s' nt)
qed

lemma inv_last:
  assumes "bar_inv n K e s" "i < n" "br_pc s i = LastArrived"
  shows "bar_inv n K e (barrier_action i s)"
proof -
  let ?s = "barrier_action i s"
  have s': "?s = s\<lparr>br_comm := (br_comm s)\<lparr>barrier_threads_arrived := 0\<rparr>, br_pc := (br_pc s)(i := Resetted)\<rparr>"
    using assms(3) by (simp add: barrier_action_def)
  have i: "i \<in> closing n s" using assms(2,3) by (simp add: closing_def)
  have cl: "closing n ?s = closing n s" using assms(2,3) by (auto simp: s' closing_def)
  have ar: "arrived_in n e ?s = arrived_in n e s" using assms(3) by (auto simp: s' arrived_in_def)
  have thr: "thread_inv K e ?s j" if "j < n" for j
    using assms that by (auto simp: bar_inv_def thread_inv_def s')
  show ?thesis using assms(1) i cl ar thr by (auto simp: bar_inv_def s')
qed

lemma inv_resetted:
  assumes "bar_inv n K e s" "i < n" "br_pc s i = Resetted"
  shows "bar_inv n K (Suc e) (barrier_action i s)"
proof -
  let ?s = "barrier_action i s" and ?c = "br_comm s"
  have s': "?s = s\<lparr>br_comm := ?c\<lparr>barrier_sense := barrier_sense ?c XOR 1\<rparr>,
       br_pc := (br_pc s)(i := Outside), br_done := (br_done s)(i := Suc (br_done s i))\<rparr>"
    using assms(3) by (simp add: barrier_action_def leave_def Let_def)
  have i: "i \<in> closing n s" using assms(2,3) by (simp add: closing_def)
  then have cl: "closing n s = {i}" and full: "arrived_in n e s = {..<n}"
    and zero: "barrier_threads_arrived ?c = 0" using assms by (auto simp: bar_inv_def)
  have fl: "barrier_sense ?c XOR 1 = int (Suc e mod 2)" "barrier_sense ?c XOR 1 \<noteq> barrier_sense ?c"
    using flip_sense [of ?c e] assms(1) by (auto simp: bar_inv_def)
  have others: "br_done s j = e \<and> br_pc s j = Spinning" if "j < n" "j \<noteq> i" for j
  proof -
    have "j \<in> arrived_in n e s" "j \<notin> closing n s" using full cl that by auto
    then show ?thesis using that by (cases "br_pc s j") (auto simp: arrived_in_def closing_def)
  qed
  have me: "br_done s i = e" using full assms(2) by (auto simp: arrived_in_def)
  have thr: "thread_inv K (Suc e) ?s j" if "j < n" for j
  proof (cases "j = i")
    case True
    then show ?thesis using me by (simp add: thread_inv_def s')
  next
    case False
    have "br_orig_sense s j = barrier_sense ?c" "br_done s j < K"
      using assms(1) others [OF that False] that by (auto simp: bar_inv_def thread_inv_def)
    then show ?thesis using others [OF that False] fl(2) False by (auto simp: thread_inv_def s')
  qed
  have "arrived_in n (Suc e) ?s = {}" using others by (auto simp: arrived_in_def s')
  moreover have "closing n ?s = {}" using others by (auto simp: closing_def s')
  ultimately show ?thesis using thr zero fl(1) assms(1,2) by (auto simp: bar_inv_def s')
qed

lemma inv_spinning:
  assumes "bar_inv n K e s" "i < n" "br_pc s i = Spinning"
  shows "bar_inv n K e (barrier_action i s)"
proof (cases "barrier_sense (br_comm s) = br_orig_sense s i")
  case True
  then show ?thesis using assms by (simp add: barrier_action_def)
next
  case False
  let ?s = "barrier_action i s"
  have s': "?s = leave i s" using False assms(3) by (simp add: barrier_action_def)
  have d: "Suc (br_done s i) = e" using assms False by (auto simp: bar_inv_def thread_inv_def)
  have "arrived_in n e ?s = arrived_in n e s" using d by (auto simp: s' leave_def arrived_in_def)
  moreover have "closing n ?s = closing n s" using assms(3) by (auto simp: s' leave_def closing_def)
  moreover have "i \<notin> closing n s" using assms(3) by (simp add: closing_def)
  moreover have "thread_inv K e ?s j" if "j < n" for j
    using assms that d by (auto simp: bar_inv_def thread_inv_def s' leave_def)
  ultimately show ?thesis using assms(1) by (auto simp: bar_inv_def s' leave_def)
qed

lemma bar_reach_inv: "bar_reach n K s \<Longrightarrow> 2 \<le> n \<Longrightarrow> \<exists>e. bar_inv n K e s"
proof (induction rule: bar_reach.induct)
  case start
  then show ?case using bar_inv_init by blast
next
  case (act s i)
  then obtain e where inv: "bar_inv n K e s" by blast
  have i: "i < n" and K: "br_pc s i = Outside \<Longrightarrow> br_done s i < K"
    using act.hyps(2) by (auto simp: may_act_def)
  show ?case
  proof (cases "br_pc s i")
    case Outside
    then show ?thesis using inv_outside [OF inv act.prems i] K by blast
  next
    case Loaded
    then show ?thesis using inv_loaded [OF inv i] by blast
  next
    case Spinning
    then show ?thesis using inv_spinning [OF inv i] by blast
  next
    case LastArrived
    then show ?thesis using inv_last [OF inv i] by blast
  next
    case Resetted
    then show ?thesis using inv_resetted [OF inv i] by blast
  qed
qed

section \<open>A group of one\<close>

lemma solo_inv: "bar_reach 1 K s \<Longrightarrow> comm_n_threads (br_comm s) = 1 \<and> br_pc s 0 = Outside \<and> br_done s 0 \<le> K"
  by (induction rule: bar_reach.induct)
    (auto simp: bar_init_def barrier_action_def may_act_def leave_def)

section \<open>Safety\<close>

text \<open>C21: No thread leaves a barrier call before every thread of the group has arrived in it: in
  every reachable state, if thread \<open>i\<close> has completed more calls than thread \<open>j\<close>, it is exactly one
  more, and \<open>j\<close> has already arrived in that call and is only yet to notice the flipped sense. So
  writes made before the barrier are complete before any thread goes on, and the two-valued sense
  never confuses an old episode with a new one.\<close>

theorem barrier_separates_episodes:
  assumes "bar_reach n K s" "i < n" "j < n" "br_done s j < br_done s i"
  shows "br_done s i = Suc (br_done s j) \<and> br_pc s j = Spinning
     \<and> br_orig_sense s j \<noteq> barrier_sense (br_comm s)"
proof -
  have "2 \<le> n" using assms(2-4) by (cases "i = j") auto
  then obtain e where "bar_inv n K e s" using bar_reach_inv [OF assms(1)] by blast
  then have "thread_inv K e s i" "thread_inv K e s j" using assms(2,3) by (auto simp: bar_inv_def)
  then show ?thesis using assms(4) by (auto simp: thread_inv_def)
qed

definition run_schedule :: "nat list \<Rightarrow> bar_state \<Rightarrow> bar_state" where
  "run_schedule is s = fold barrier_action is s"

text \<open>A run of two threads in which thread 0 is through its first call and thread 1 still spins.\<close>

lemma two_thread_run: "bar_reach 2 1 (run_schedule [1, 0, 1, 0, 0, 0] (bar_init 2))"
  unfolding run_schedule_def fold_simps comp_def id_def
  by (intro bar_reach.act bar_reach.start)
    (simp_all add: may_act_def bar_init_def barrier_action_def leave_def Let_def)

theorem barrier_separates_episodes_witness:
  "br_done (run_schedule [1, 0, 1, 0, 0, 0] (bar_init 2)) 0 = 1
   \<and> br_done (run_schedule [1, 0, 1, 0, 0, 0] (bar_init 2)) 1 = 0
   \<and> br_pc (run_schedule [1, 0, 1, 0, 0, 0] (bar_init 2)) 1 = Spinning"
proof -
  have "br_done (run_schedule [1, 0, 1, 0, 0, 0] (bar_init 2)) 0 = 1"
    "br_done (run_schedule [1, 0, 1, 0, 0, 0] (bar_init 2)) 1 = 0"
    by (simp_all add: run_schedule_def bar_init_def barrier_action_def leave_def Let_def)
  then show ?thesis
    using barrier_separates_episodes [OF two_thread_run, of 0 1] by simp
qed

section \<open>Progress\<close>

text \<open>What is left to do: five actions a call, less what the current call has behind it.\<close>

definition pc_rank :: "bar_pc \<Rightarrow> nat" where
  "pc_rank pc = (case pc of Outside \<Rightarrow> 0 | Loaded \<Rightarrow> 1 | Spinning \<Rightarrow> 2 | LastArrived \<Rightarrow> 2 | Resetted \<Rightarrow> 3)"

definition thread_work :: "nat \<Rightarrow> bar_state \<Rightarrow> nat \<Rightarrow> nat" where
  "thread_work K s i = 5 * (K - br_done s i) - pc_rank (br_pc s i)"

definition work_left :: "nat \<Rightarrow> nat \<Rightarrow> bar_state \<Rightarrow> nat" where
  "work_left n K s = (\<Sum>i<n. thread_work K s i)"

lemma inside_has_calls:
  assumes "bar_reach n K s" "i < n" "br_pc s i \<noteq> Outside"
  shows "br_done s i < K"
proof (cases "2 \<le> n")
  case True
  then show ?thesis
    using bar_reach_inv [OF assms(1)] assms(2,3) by (auto simp: bar_inv_def thread_inv_def)
next
  case False
  then have "n = 1" "i = 0" using assms(2) by auto
  then show ?thesis using solo_inv [of K s] assms by simp
qed

lemma action_other: "j \<noteq> i \<Longrightarrow> br_pc (barrier_action i s) j = br_pc s j \<and> br_done (barrier_action i s) j = br_done s j"
  by (simp add: barrier_action_def leave_def Let_def split: bar_pc.split)

lemma action_work:
  assumes "bar_reach n K s" "may_act n K s i" "barrier_action i s \<noteq> s"
  shows "thread_work K (barrier_action i s) i < thread_work K s i"
proof -
  have "br_done s i < K"
    using assms(2) inside_has_calls [OF assms(1), of i] by (cases "br_pc s i = Outside") (auto simp: may_act_def)
  then obtain d where d: "K - br_done s i = Suc d" "K - Suc (br_done s i) = d" by (metis Suc_diff_Suc diff_Suc_Suc)
  show ?thesis
    using assms(3) d
    by (cases "br_pc s i")
      (auto simp: thread_work_def pc_rank_def barrier_action_def leave_def Let_def split: if_splits)
qed

lemma work_decreases:
  assumes "bar_reach n K s" "may_act n K s i" "barrier_action i s \<noteq> s"
  shows "work_left n K (barrier_action i s) < work_left n K s"
proof -
  have i: "i < n" using assms(2) by (simp add: may_act_def)
  have "(\<Sum>j<n. thread_work K (barrier_action i s) j) < (\<Sum>j<n. thread_work K s j)"
  proof (rule sum_strict_mono_ex1)
    show "\<forall>j\<in>{..<n}. thread_work K (barrier_action i s) j \<le> thread_work K s j"
    proof
      fix j
      show "thread_work K (barrier_action i s) j \<le> thread_work K s j"
        using action_other [of j i s] action_work [OF assms]
        by (cases "j = i") (auto simp: thread_work_def)
    qed
    show "\<exists>j\<in>{..<n}. thread_work K (barrier_action i s) j < thread_work K s j"
      using action_work [OF assms] i by blast
  qed simp
  then show ?thesis by (simp add: work_left_def)
qed

text \<open>Only a thread that waits for the others has no effect when it acts.\<close>

lemma stuck_cases:
  assumes "barrier_action i s = s"
  shows "br_pc s i = Spinning \<and> barrier_sense (br_comm s) = br_orig_sense s i"
proof -
  have "br_pc (barrier_action i s) i = br_pc s i" "br_done (barrier_action i s) i = br_done s i"
    using assms by simp_all
  then show ?thesis
    by (cases "br_pc s i") (auto simp: barrier_action_def leave_def Let_def split: if_splits)
qed

lemma not_all_waiting:
  assumes inv: "bar_inv n K e s" and "0 < n"
    and all: "\<And>i. i < n \<Longrightarrow> br_pc s i = Spinning \<and> barrier_sense (br_comm s) = br_orig_sense s i"
  shows False
proof -
  have "br_done s i = e" if "i < n" for i
    using inv all [OF that] that by (auto simp: bar_inv_def thread_inv_def)
  then have "arrived_in n e s = {..<n}" using all by (auto simp: arrived_in_def)
  moreover have "closing n s = {}" using all by (force simp: closing_def)
  ultimately show False using inv by (simp add: bar_inv_def)
qed

text \<open>C22: The barrier does not deadlock and calls do complete. Every action other than re-reading an
  unchanged sense strictly uses up the remaining work of the group, and as long as some thread
  has not completed its \<open>K\<close> calls, some thread has such an action. So every schedule that keeps
  letting threads act gets all of them through all their calls.\<close>

theorem barrier_progress:
  assumes "bar_reach n K s"
  shows "(\<forall>i. may_act n K s i \<and> barrier_action i s \<noteq> s \<longrightarrow> work_left n K (barrier_action i s) < work_left n K s)
     \<and> ((\<exists>i<n. br_done s i < K) \<longrightarrow> (\<exists>i. may_act n K s i \<and> barrier_action i s \<noteq> s))"
proof (intro conjI impI allI)
  fix i assume "may_act n K s i \<and> barrier_action i s \<noteq> s"
  then show "work_left n K (barrier_action i s) < work_left n K s" using work_decreases [OF assms] by simp
next
  assume "\<exists>i<n. br_done s i < K"
  then obtain i0 where i0: "i0 < n" "br_done s i0 < K" by blast
  show "\<exists>i. may_act n K s i \<and> barrier_action i s \<noteq> s"
  proof (rule ccontr)
    assume no: "\<not> ?thesis"
    have act0: "may_act n K s i0" using i0 by (simp add: may_act_def)
    have w: "br_pc s i = Spinning \<and> barrier_sense (br_comm s) = br_orig_sense s i" if "may_act n K s i" for i
      using no that stuck_cases by blast
    have "n \<noteq> 1" using w [OF act0] solo_inv [of K s] assms i0 by auto
    then have "2 \<le> n" using i0 by simp
    then obtain e where inv: "bar_inv n K e s" using bar_reach_inv [OF assms] by blast
    have "br_done s i0 = e" using inv w [OF act0] i0 by (auto simp: bar_inv_def thread_inv_def)
    then have lt: "e < K" using i0 by simp
    have "may_act n K s i" if "i < n" for i
      using inv that lt by (auto simp: bar_inv_def thread_inv_def may_act_def)
    then show False using not_all_waiting [OF inv] w i0 by blast
  qed
qed

theorem barrier_progress_witness:
  "\<exists>i. may_act 2 1 (run_schedule [1, 0, 1, 0, 0, 0] (bar_init 2)) i
     \<and> barrier_action i (run_schedule [1, 0, 1, 0, 0, 0] (bar_init 2)) \<noteq> run_schedule [1, 0, 1, 0, 0, 0] (bar_init 2)"
proof -
  have "br_done (run_schedule [1, 0, 1, 0, 0, 0] (bar_init 2)) 1 < 1"
    by (simp add: run_schedule_def bar_init_def barrier_action_def leave_def Let_def)
  then show ?thesis
    using conjunct2 [OF barrier_progress [OF two_thread_run]] by (metis one_less_numeral_iff semiring_norm(76))
qed

end
