(* ===== verification/Prime_Partition.thy ===== *)
theory Prime_Partition
  imports Dlp_Types
begin

text \<open>
  Factorisation of a thread count, \<^verbatim>\<open>classic/frame/threading/dlp_gemm_thread_utils.c\<close>:
  \<open>dlp_next_prime_factor\<close>, \<open>dlp_is_prime\<close> and \<open>dlp_thread_partition_2x2\<close>.

  \<open>(md_t)sqrt((double)n)\<close> is the integer square root \<open>isqrt\<close>: the double result is exact for the
  counts involved (below \<open>2^52\<close>). The while loop of the partition is the combinator \<open>while\<close>,
  whose value is only specified where the loop ends, so the theorems about its result
  include termination.
\<close>

section \<open>Integer square root\<close>

function isqrt_from :: "md_t \<Rightarrow> md_t \<Rightarrow> md_t" where
  "isqrt_from r n = (if 0 \<le> r \<and> (r + 1) * (r + 1) \<le> n then isqrt_from (r + 1) n else r)"
  by pat_completeness auto
termination
proof (relation "measure (\<lambda>(r, n). nat (n - r))", goal_cases)
  case (2 r n)
  then have "1 * (r + 1) \<le> (r + 1) * (r + 1)" by (intro mult_right_mono) auto
  also from 2 have "\<dots> \<le> n" by (rule conjunct2)
  finally have "r < n" by simp
  with 2 show ?case by simp
qed simp

declare isqrt_from.simps [simp del]

definition isqrt :: "md_t \<Rightarrow> md_t" where
  "isqrt n = isqrt_from 0 n"

lemma isqrt_from_bounds:
  "0 \<le> r \<Longrightarrow> r * r \<le> n \<Longrightarrow>
     r \<le> isqrt_from r n \<and> isqrt_from r n * isqrt_from r n \<le> n
     \<and> n < (isqrt_from r n + 1) * (isqrt_from r n + 1)"
proof (induction r n rule: isqrt_from.induct)
  case (1 r n)
  then show ?case
    by (cases "(r + 1) * (r + 1) \<le> n") (auto simp: isqrt_from.simps [of r n])
qed

lemma isqrt_bounds:
  "0 \<le> n \<Longrightarrow> 0 \<le> isqrt n \<and> isqrt n * isqrt n \<le> n \<and> n < (isqrt n + 1) * (isqrt n + 1)"
  using isqrt_from_bounds [of 0 n] by (simp add: isqrt_def)

lemma isqrt_less: "2 \<le> n \<Longrightarrow> isqrt n < n"
proof (rule ccontr)
  assume n: "2 \<le> n" and "\<not> isqrt n < n"
  then have "n * n \<le> isqrt n * isqrt n" by (intro mult_mono) auto
  also have "\<dots> \<le> n" using isqrt_bounds [of n] n by simp
  finally show False using n mult_right_mono [of 2 n n] by simp
qed

section \<open>The stream of prime factors\<close>

record dlp_prime_factors_t =
  pf_n :: md_t
  pf_sqrt_n :: md_t
  pf_f :: md_t

definition dlp_prime_factorization :: "md_t \<Rightarrow> dlp_prime_factors_t" where
  "dlp_prime_factorization n = \<lparr>pf_n = n, pf_sqrt_n = isqrt n, pf_f = 2\<rparr>"

function dlp_next_prime_factor :: "dlp_prime_factors_t \<Rightarrow> md_t \<times> dlp_prime_factors_t" where
  "dlp_next_prime_factor factors =
     (if pf_f factors \<le> pf_sqrt_n factors then
        if pf_f factors = 2 then
          if pf_n factors smod 2 = 0 then (2, factors\<lparr>pf_n := pf_n factors sdiv 2\<rparr>)
          else dlp_next_prime_factor (factors\<lparr>pf_f := 3\<rparr>)
        else if pf_f factors = 3 then
          if pf_n factors smod 3 = 0 then (3, factors\<lparr>pf_n := pf_n factors sdiv 3\<rparr>)
          else dlp_next_prime_factor (factors\<lparr>pf_f := 5\<rparr>)
        else if pf_f factors = 5 then
          if pf_n factors smod 5 = 0 then (5, factors\<lparr>pf_n := pf_n factors sdiv 5\<rparr>)
          else dlp_next_prime_factor (factors\<lparr>pf_f := 7\<rparr>)
        else if pf_f factors = 7 then
          if pf_n factors smod 7 = 0 then (7, factors\<lparr>pf_n := pf_n factors sdiv 7\<rparr>)
          else dlp_next_prime_factor (factors\<lparr>pf_f := 11\<rparr>)
        else
          if pf_n factors smod pf_f factors = 0
          then (pf_f factors, factors\<lparr>pf_n := pf_n factors sdiv pf_f factors\<rparr>)
          else dlp_next_prime_factor (factors\<lparr>pf_f := pf_f factors + 1\<rparr>)
      else (pf_n factors, factors\<lparr>pf_n := 1\<rparr>))"
  by pat_completeness auto
termination
  by (relation "measure (\<lambda>x. nat (pf_sqrt_n x + 1 - pf_f x))") auto

declare dlp_next_prime_factor.simps [simp del]

definition dlp_is_prime :: "md_t \<Rightarrow> bool" where
  "dlp_is_prime n =
     (if n < 2 then False
      else let factors = dlp_prime_factorization n;
               (f, _) = dlp_next_prime_factor factors
           in f = n)"

text \<open>The loop visits a cursor \<open>f\<close>, moving it up by one or past known composites.\<close>

definition cursor_next :: "md_t \<Rightarrow> md_t" where
  "cursor_next f = (if f = 2 then 3 else if f = 3 then 5 else if f = 5 then 7
                    else if f = 7 then 11 else f + 1)"

lemma next_prime_factor_unfold:
  "dlp_next_prime_factor x =
     (if pf_f x \<le> pf_sqrt_n x then
        if pf_n x smod pf_f x = 0 then (pf_f x, x\<lparr>pf_n := pf_n x sdiv pf_f x\<rparr>)
        else dlp_next_prime_factor (x\<lparr>pf_f := cursor_next (pf_f x)\<rparr>)
      else (pf_n x, x\<lparr>pf_n := 1\<rparr>))"
  by (subst dlp_next_prime_factor.simps) (simp add: cursor_next_def)

lemma cursor_next_gt: "f < cursor_next f"
  by (simp add: cursor_next_def)

text \<open>The numbers the cursor skips (4, 6, 8, 9, 10) have a smaller divisor.\<close>

definition no_small_factor :: "md_t \<Rightarrow> md_t \<Rightarrow> bool" where
  "no_small_factor n f \<longleftrightarrow> (\<forall>d. 2 \<le> d \<longrightarrow> d < f \<longrightarrow> \<not> d dvd n)"

lemma no_small_factorD: "no_small_factor n f \<Longrightarrow> 2 \<le> d \<Longrightarrow> d < f \<Longrightarrow> \<not> d dvd n"
  by (simp add: no_small_factor_def)

lemma cursor_gap:
  "f < d \<Longrightarrow> d < cursor_next f \<Longrightarrow> (2 dvd d \<and> 2 < f) \<or> (3 dvd d \<and> 3 < f)"
proof -
  assume "f < d" and "d < cursor_next f"
  then have "(f, d) \<in> {(3, 4), (5, 6), (7, 8), (7, 9), (7, 10)}"
    unfolding cursor_next_def by (simp split: if_splits) arith+
  then show ?thesis by auto
qed

lemma no_small_factor_step:
  assumes "no_small_factor n f" and "\<not> f dvd n"
  shows "no_small_factor n (cursor_next f)"
  unfolding no_small_factor_def
proof (intro allI impI notI)
  fix d assume "2 \<le> d" and lt: "d < cursor_next f" and dvd: "d dvd n"
  then have "f < d" using no_small_factorD [OF assms(1)] assms(2) by (metis linorder_cases)
  from cursor_gap [OF this lt] show False
    using no_small_factorD [OF assms(1), of 2] no_small_factorD [OF assms(1), of 3]
      dvd_trans [OF _ dvd] by auto
qed

lemma smod_0_iff_dvd: "0 < n \<Longrightarrow> 0 < f \<Longrightarrow> n smod f = 0 \<longleftrightarrow> f dvd n" for n f :: int
  by (simp add: cdiv_simps dvd_eq_mod_eq_0)

text \<open>Induction along the cursor, in place of the five-way rule of the definition.\<close>

lemma cursor_induct [case_names cursor]:
  assumes "\<And>x. (pf_f x \<le> pf_sqrt_n x \<Longrightarrow> P (x\<lparr>pf_f := cursor_next (pf_f x)\<rparr>)) \<Longrightarrow> P x"
  shows "P (x :: dlp_prime_factors_t)"
proof (induction x rule: measure_induct_rule [where f = "\<lambda>x. nat (pf_sqrt_n x + 1 - pf_f x)"])
  case (less x)
  show ?case
    by (rule assms, rule less) (use cursor_next_gt [of "pf_f x"] in auto)
qed

text \<open>One call: a factor is split off the remaining number, exactly; and it is the number
  itself, without a divisor in the searched range, or a proper divisor in that range.\<close>

lemma next_prime_factor_splits:
  assumes "0 < pf_n x" "2 \<le> pf_f x" "dlp_next_prime_factor x = (p, y)"
  shows "p * pf_n y = pf_n x \<and> 0 < p \<and> 0 < pf_n y \<and> (p \<le> 1 \<longrightarrow> pf_n x = 1) \<and> 2 \<le> pf_f y"
  using assms
proof (induction x rule: cursor_induct)
  case (cursor x)
  consider (skip) "pf_f x \<le> pf_sqrt_n x" "\<not> pf_f x dvd pf_n x"
    | (hit) "pf_f x \<le> pf_sqrt_n x" "pf_f x dvd pf_n x" | (out) "\<not> pf_f x \<le> pf_sqrt_n x"
    by blast
  then show ?case
  proof cases
    case skip
    then show ?thesis
      using cursor cursor_next_gt [of "pf_f x"]
      by (simp add: next_prime_factor_unfold [of x] smod_0_iff_dvd)
  next
    case hit
    then show ?thesis
      using cursor.prems zdvd_imp_le [of "pf_f x" "pf_n x"]
      by (auto simp: next_prime_factor_unfold [of x] smod_0_iff_dvd cdiv_simps pos_imp_zdiv_pos_iff)
  next
    case out
    then show ?thesis using cursor.prems by (auto simp: next_prime_factor_unfold [of x])
  qed
qed

lemma next_prime_factor_least:
  assumes "0 < pf_n x" "2 \<le> pf_f x" "no_small_factor (pf_n x) (pf_f x)"
    "dlp_next_prime_factor x = (p, y)"
  shows "(p = pf_n x \<and> no_small_factor (pf_n x) (pf_sqrt_n x + 1)) \<or>
         (2 \<le> p \<and> p \<le> pf_sqrt_n x \<and> p dvd pf_n x)"
  using assms
proof (induction x rule: cursor_induct)
  case (cursor x)
  consider (skip) "pf_f x \<le> pf_sqrt_n x" "\<not> pf_f x dvd pf_n x"
    | (hit) "pf_f x \<le> pf_sqrt_n x" "pf_f x dvd pf_n x" | (out) "\<not> pf_f x \<le> pf_sqrt_n x"
    by blast
  then show ?case
  proof cases
    case skip
    then show ?thesis
      using cursor cursor_next_gt [of "pf_f x"] no_small_factor_step [of "pf_n x" "pf_f x"]
      by (simp add: next_prime_factor_unfold [of x] smod_0_iff_dvd)
  next
    case hit
    then show ?thesis
      using cursor.prems by (auto simp: next_prime_factor_unfold [of x] smod_0_iff_dvd)
  next
    case out
    then show ?thesis
      using cursor.prems by (auto simp: next_prime_factor_unfold [of x] no_small_factor_def)
  qed
qed

text \<open>\<open>dlp_is_prime\<close> decides primality: it answers yes exactly for the integers above 1 whose
  only positive divisors are 1 and the number itself.\<close>

lemma is_prime_correct:
  "dlp_is_prime n \<longleftrightarrow> 1 < n \<and> {d. 0 < d \<and> d dvd n} = {1, n}"
proof (cases "n < 2")
  case True
  then show ?thesis by (simp add: dlp_is_prime_def)
next
  case False
  let ?x = "dlp_prime_factorization n"
  obtain p y where py: "dlp_next_prime_factor ?x = (p, y)" by force
  have n: "2 \<le> n" using False by simp
  have split: "(p = n \<and> no_small_factor n (isqrt n + 1)) \<or> (2 \<le> p \<and> p \<le> isqrt n \<and> p dvd n)"
    using next_prime_factor_least [OF _ _ _ py] n
    by (simp add: dlp_prime_factorization_def no_small_factor_def)
  have prime: "d = 1 \<or> d = n" if ns: "no_small_factor n (isqrt n + 1)" and d: "0 < d" "d dvd n" for d
  proof (rule ccontr)
    assume ne: "\<not> (d = 1 \<or> d = n)"
    obtain e where e: "n = d * e" using d(2) by auto
    then have e0: "0 < e" using n d(1) zero_less_mult_iff [of d e] by simp
    with ne e have "2 \<le> d" "2 \<le> e" using d(1) by (auto simp: order_le_less)
    moreover have "e dvd n" using e by simp
    ultimately have "isqrt n + 1 \<le> d" "isqrt n + 1 \<le> e"
      using ns d by (auto simp: no_small_factor_def not_less dest: leI)
    then have "(isqrt n + 1) * (isqrt n + 1) \<le> d * e"
      using isqrt_bounds [of n] n by (intro mult_mono) auto
    then show False using isqrt_bounds [of n] n e by simp
  qed
  have "dlp_is_prime n \<longleftrightarrow> p = n" using False py by (simp add: dlp_is_prime_def)
  also have "\<dots> \<longleftrightarrow> {d. 0 < d \<and> d dvd n} = {1, n}"
  proof
    assume "p = n"
    then have "no_small_factor n (isqrt n + 1)" using split isqrt_less [OF n] by auto
    then show "{d. 0 < d \<and> d dvd n} = {1, n}" using prime n by auto
  next
    assume eq: "{d. 0 < d \<and> d dvd n} = {1, n}"
    show "p = n"
    proof (rule ccontr)
      assume "p \<noteq> n"
      then have "2 \<le> p" "p dvd n" using split by auto
      then have "p \<in> {1, n}" unfolding eq [symmetric] by simp
      then show False using \<open>2 \<le> p\<close> \<open>p \<noteq> n\<close> by simp
    qed
  qed
  finally show ?thesis using n by simp
qed

section \<open>Splitting the threads over two dimensions\<close>

text \<open>State of the factor loop: the two works, the two thread counts, the factor just drawn and
  the factor stream.\<close>

record part_state =
  ps_work1 :: md_t
  ps_work2 :: md_t
  ps_tn1 :: md_t
  ps_tn2 :: md_t
  ps_f :: md_t
  ps_factors :: dlp_prime_factors_t

definition part_draw :: "part_state \<Rightarrow> part_state" where
  "part_draw s = (let (f, fs) = dlp_next_prime_factor (ps_factors s) in s\<lparr>ps_f := f, ps_factors := fs\<rparr>)"

definition part_body :: "part_state \<Rightarrow> part_state" where
  "part_body s = part_draw
     (if ps_work1 s > ps_work2 s
      then s\<lparr>ps_work1 := ps_work1 s sdiv ps_f s, ps_tn1 := ps_tn1 s * ps_f s\<rparr>
      else s\<lparr>ps_work2 := ps_work2 s sdiv ps_f s, ps_tn2 := ps_tn2 s * ps_f s\<rparr>)"

definition part_rebalance :: "part_state \<Rightarrow> md_t \<times> md_t" where
  "part_rebalance s =
     (let work1 = ps_work1 s; work2 = ps_work2 s; tn1 = ps_tn1 s; tn2 = ps_tn2 s in
      if work1 > work2 then
        if tn2 smod 2 = 0 \<and> dlp_abs (work1 sdiv 2 - work2 * 2) < work1 - work2
        then (tn1 * 2, tn2 sdiv 2) else (tn1, tn2)
      else if work1 < work2 then
        if tn1 smod 2 = 0 \<and> dlp_abs (work2 sdiv 2 - work1 * 2) < work2 - work1
        then (tn1 sdiv 2, tn2 * 2) else (tn1, tn2)
      else (tn1, tn2))"

definition dlp_thread_partition_2x2 :: "md_t \<Rightarrow> md_t \<Rightarrow> md_t \<Rightarrow> md_t \<times> md_t" where
  "dlp_thread_partition_2x2 n_thread work1 work2 =
     (if n_thread < 4
      then (if work1 \<ge> work2 then n_thread else 1, if work1 < work2 then n_thread else 1)
      else
        let s0 = part_draw \<lparr>ps_work1 = work1, ps_work2 = work2, ps_tn1 = 1, ps_tn2 = 1, ps_f = 0,
                            ps_factors = dlp_prime_factorization n_thread\<rparr>
        in part_rebalance (while (\<lambda>s. ps_f s > 1) part_body s0))"

text \<open>Invariant of the loop: what has been handed out, times what is left, is the thread count.\<close>

definition part_inv :: "md_t \<Rightarrow> part_state \<Rightarrow> bool" where
  "part_inv n s \<longleftrightarrow> ps_tn1 s * ps_tn2 s * ps_f s * pf_n (ps_factors s) = n \<and> 0 < ps_tn1 s \<and> 0 < ps_tn2 s
     \<and> 0 < ps_f s \<and> 0 < pf_n (ps_factors s) \<and> 2 \<le> pf_f (ps_factors s)
     \<and> (ps_f s \<le> 1 \<longrightarrow> ps_f s = 1 \<and> pf_n (ps_factors s) = 1)"

lemma part_inv_draw:
  assumes "ps_tn1 s * ps_tn2 s * pf_n (ps_factors s) = n" "0 < ps_tn1 s" "0 < ps_tn2 s"
    "0 < pf_n (ps_factors s)" "2 \<le> pf_f (ps_factors s)"
  shows "part_inv n (part_draw s)"
proof -
  obtain p y where py: "dlp_next_prime_factor (ps_factors s) = (p, y)" by force
  note sp = next_prime_factor_splits [OF assms(4,5) py]
  have "p = 1 \<and> pf_n y = 1" if "p \<le> 1"
  proof -
    have "p = 1" using that sp by linarith
    with sp that show ?thesis by auto
  qed
  moreover have "ps_tn1 s * ps_tn2 s * p * pf_n y = n"
    using sp assms(1) by (simp add: mult.assoc)
  ultimately show ?thesis using sp assms by (simp add: part_inv_def part_draw_def py)
qed

lemma part_inv_body:
  assumes "part_inv n s" "1 < ps_f s"
  shows "part_inv n (part_body s) \<and> pf_n (ps_factors (part_body s)) < pf_n (ps_factors s) \<or>
         part_inv n (part_body s) \<and> ps_f (part_body s) \<le> 1"
proof -
  let ?s = "if ps_work1 s > ps_work2 s
      then s\<lparr>ps_work1 := ps_work1 s sdiv ps_f s, ps_tn1 := ps_tn1 s * ps_f s\<rparr>
      else s\<lparr>ps_work2 := ps_work2 s sdiv ps_f s, ps_tn2 := ps_tn2 s * ps_f s\<rparr>"
  have inv: "part_inv n (part_body s)"
    unfolding part_body_def
    by (rule part_inv_draw) (use assms in \<open>auto simp: part_inv_def mult_ac\<close>)
  obtain p y where py: "dlp_next_prime_factor (ps_factors s) = (p, y)" by force
  have sp: "p * pf_n y = pf_n (ps_factors s)" "0 < p" "0 < pf_n y"
    using next_prime_factor_splits [OF _ _ py] assms by (auto simp: part_inv_def)
  have eqs: "ps_f (part_body s) = p" "ps_factors (part_body s) = y"
    using py by (auto simp: part_body_def part_draw_def)
  show ?thesis
  proof (cases "p \<le> 1")
    case True
    then show ?thesis using inv eqs by simp
  next
    case False
    then have "1 * pf_n y < p * pf_n y" using sp by (intro mult_strict_right_mono) auto
    then show ?thesis using inv eqs sp(1) by simp
  qed
qed

lemma part_rebalance_product:
  assumes "0 < ps_tn1 s" "0 < ps_tn2 s"
  shows "fst (part_rebalance s) * snd (part_rebalance s) = ps_tn1 s * ps_tn2 s
         \<and> 0 < fst (part_rebalance s) \<and> 0 < snd (part_rebalance s)"
  using assms zdvd_imp_le [of 2 "ps_tn1 s"] zdvd_imp_le [of 2 "ps_tn2 s"]
  by (auto simp: part_rebalance_def Let_def cdiv_simps pos_imp_zdiv_pos_iff)

lemma partition_2x2_split:
  assumes "0 < n_thread" and "dlp_thread_partition_2x2 n_thread work1 work2 = (nt1, nt2)"
  shows "nt1 * nt2 = n_thread \<and> 0 < nt1 \<and> 0 < nt2"
proof (cases "n_thread < 4")
  case True
  then show ?thesis using assms by (auto simp: dlp_thread_partition_2x2_def split: if_splits)
next
  case False
  define s0 where "s0 = part_draw \<lparr>ps_work1 = work1, ps_work2 = work2, ps_tn1 = 1, ps_tn2 = 1,
    ps_f = 0, ps_factors = dlp_prime_factorization n_thread\<rparr>"
  have inv0: "part_inv n_thread s0"
    unfolding s0_def by (rule part_inv_draw) (use False in \<open>auto simp: dlp_prime_factorization_def\<close>)
  let ?m = "\<lambda>s. (if ps_f s \<le> 1 then 0 else 1 + nat (pf_n (ps_factors s)))"
  have res: "part_inv n_thread (while (\<lambda>s. ps_f s > 1) part_body s0)
      \<and> \<not> ps_f (while (\<lambda>s. ps_f s > 1) part_body s0) > 1"
  proof (rule while_rule [where P = "part_inv n_thread" and r = "measure ?m"])
    fix s assume s: "part_inv n_thread s" "1 < ps_f s"
    then show "part_inv n_thread (part_body s)" using part_inv_body by blast
    show "(part_body s, s) \<in> measure ?m"
      using part_inv_body [OF s] s by (auto simp: part_inv_def)
  qed (use inv0 in auto)
  let ?w = "while (\<lambda>s. ps_f s > 1) part_body s0"
  have w: "ps_tn1 ?w * ps_tn2 ?w = n_thread" "0 < ps_tn1 ?w" "0 < ps_tn2 ?w"
    using res by (auto simp: part_inv_def)
  have "(nt1, nt2) = part_rebalance ?w"
    using False assms(2) by (simp add: dlp_thread_partition_2x2_def s0_def)
  then show ?thesis using part_rebalance_product [OF w(2,3)] w(1) by (metis fst_conv snd_conv)
qed

text \<open>C17: \<open>dlp_thread_partition_2x2\<close> returns for every positive thread count and both works, and the
  two thread counts it returns are positive with product exactly the thread count, so no thread
  is lost and none is invented by the factor loop and the rebalancing.\<close>

theorem partition_2x2_product:
  assumes "0 < n_thread" and "dlp_thread_partition_2x2 n_thread work1 work2 = (nt1, nt2)"
  shows "nt1 * nt2 = n_thread \<and> 0 < nt1 \<and> 0 < nt2"
  using assms by (rule partition_2x2_split)

lemma partition_12: "dlp_thread_partition_2x2 12 3600 3600 = (4, 3)"
  by code_simp

theorem partition_2x2_product_witness:
  "dlp_thread_partition_2x2 12 3600 3600 = (4, 3) \<and> (4 :: md_t) * 3 = 12 \<and> 0 < (4 :: md_t) \<and> 0 < (3 :: md_t)"
  using partition_12 partition_2x2_product [OF _ partition_12] by simp

end
