(* ===== verification/Thread_Ways.thy ===== *)
theory Thread_Ways
  imports Prime_Partition
begin

text \<open>
  How many threads a GEMM runs on and how they are split over rows (\<open>ic\<close>) and columns
  (\<open>jc\<close>) of the output, \<^verbatim>\<open>classic/frame/threading/dlp_gemm_thread_decor_openmp.c\<close>: the divisor
  walks \<open>dlp_next_factor\<close>/\<open>dlp_prev_factor\<close>, the three adjustment heuristics, and the
  \<open>get_threading\<close> family with its batched variants.

  The out-parameters \<open>n_threads\<close>, \<open>ic_ways\<close>, \<open>jc_ways\<close> are a triple. The single-GEMM variants are
  one body in C, copied with a different refinement of the initial split; that body is
  \<open>get_threading_body\<close> with the refinement as argument, and each variant is its instance. The
  locale \<open>ways_refinement\<close> states what the body relies on.
\<close>

type_synonym ways = "md_t \<times> md_t \<times> md_t"

definition ways_ok :: "ways \<Rightarrow> bool" where
  "ways_ok w = (case w of (nt, ic, jc) \<Rightarrow> 0 < ic \<and> 0 < jc \<and> ic * jc = nt)"

section \<open>Walking the divisors of the thread count\<close>

function next_factor_loop :: "md_t \<Rightarrow> md_t \<Rightarrow> md_t" where
  "next_factor_loop nt t = (if t \<le> nt \<and> nt smod t \<noteq> 0 then next_factor_loop nt (t + 1) else t)"
  by pat_completeness auto
termination by (relation "measure (\<lambda>(nt, t). nat (nt + 1 - t))") auto

definition dlp_next_factor :: "md_t \<Rightarrow> md_t \<Rightarrow> md_t" where
  "dlp_next_factor nt part_nt = (if part_nt = nt then part_nt else next_factor_loop nt (part_nt + 1))"

function prev_factor_loop :: "md_t \<Rightarrow> md_t \<Rightarrow> md_t" where
  "prev_factor_loop nt t = (if t \<ge> 1 \<and> nt smod t \<noteq> 0 then prev_factor_loop nt (t - 1) else t)"
  by pat_completeness auto
termination by (relation "measure (\<lambda>(nt, t). nat t)") auto

definition dlp_prev_factor :: "md_t \<Rightarrow> md_t \<Rightarrow> md_t" where
  "dlp_prev_factor nt part_nt = (if part_nt = 1 then part_nt else prev_factor_loop nt (part_nt - 1))"

declare next_factor_loop.simps [simp del] prev_factor_loop.simps [simp del]

lemma next_factor_loop_spec:
  "0 < t \<Longrightarrow> t \<le> nt \<Longrightarrow> next_factor_loop nt t dvd nt \<and> t \<le> next_factor_loop nt t
     \<and> (\<forall>d. d dvd nt \<longrightarrow> t \<le> d \<longrightarrow> next_factor_loop nt t \<le> d)"
proof (induction nt t rule: next_factor_loop.induct)
  case (1 nt t)
  show ?case
  proof (cases "t dvd nt")
    case True
    then show ?thesis using 1 by (simp add: next_factor_loop.simps [of nt t] smod_0_iff_dvd)
  next
    case False
    then have "t \<noteq> nt" by auto
    then have "t < nt" using 1 by simp
    then have IH: "next_factor_loop nt (t + 1) dvd nt \<and> t + 1 \<le> next_factor_loop nt (t + 1)
     \<and> (\<forall>d. d dvd nt \<longrightarrow> t + 1 \<le> d \<longrightarrow> next_factor_loop nt (t + 1) \<le> d)"
      using 1 False by (simp add: smod_0_iff_dvd)
    have "t + 1 \<le> d" if "d dvd nt" "t \<le> d" for d using that False by (cases "t = d") auto
    then show ?thesis
      using IH False 1 by (auto simp: next_factor_loop.simps [of nt t] smod_0_iff_dvd)
  qed
qed

lemma prev_factor_loop_spec:
  "0 < t \<Longrightarrow> 0 < nt \<Longrightarrow> prev_factor_loop nt t dvd nt \<and> 1 \<le> prev_factor_loop nt t \<and> prev_factor_loop nt t \<le> t
     \<and> (\<forall>d. d dvd nt \<longrightarrow> d \<le> t \<longrightarrow> d \<le> prev_factor_loop nt t)"
proof (induction nt t rule: prev_factor_loop.induct)
  case (1 nt t)
  show ?case
  proof (cases "t dvd nt")
    case True
    then show ?thesis using 1 by (simp add: prev_factor_loop.simps [of nt t] smod_0_iff_dvd)
  next
    case False
    then have "t \<noteq> 1" by auto
    then have IH: "prev_factor_loop nt (t - 1) dvd nt \<and> 1 \<le> prev_factor_loop nt (t - 1)
     \<and> prev_factor_loop nt (t - 1) \<le> t - 1
     \<and> (\<forall>d. d dvd nt \<longrightarrow> d \<le> t - 1 \<longrightarrow> d \<le> prev_factor_loop nt (t - 1))"
      using 1 False by (simp add: smod_0_iff_dvd)
    have "d \<le> t - 1" if "d dvd nt" "d \<le> t" for d using that False by (cases "t = d") auto
    then show ?thesis
      using IH False 1 by (auto simp: prev_factor_loop.simps [of nt t] smod_0_iff_dvd)
  qed
qed

text \<open>Divisor pairs run in opposite directions.\<close>

lemma divisor_pair_antimono:
  fixes a b c d :: int
  assumes "a * b = c * d" "0 < a" "0 < b" "0 < c" "0 < d"
  shows "a < c \<longleftrightarrow> d < b"
proof
  assume "a < c"
  show "d < b"
  proof (rule ccontr)
    assume "\<not> d < b"
    then have "a * b \<le> a * d" using assms(2) by (intro mult_left_mono) simp_all
    also have "\<dots> < c * d" using \<open>a < c\<close> assms(5) by (intro mult_strict_right_mono)
    finally show False using assms by simp
  qed
next
  assume "d < b"
  show "a < c"
  proof (rule ccontr)
    assume "\<not> a < c"
    then have "c * d \<le> a * d" using assms(5) by (intro mult_right_mono) simp_all
    also have "\<dots> < a * b" using \<open>d < b\<close> assms(2) by (intro mult_strict_left_mono)
    finally show False using assms by simp
  qed
qed

lemma factor_step:
  assumes "ways_ok (nt, ic, jc)" "ic < nt"
  shows "ways_ok (nt, dlp_next_factor nt ic, dlp_prev_factor nt jc)" "ic < dlp_next_factor nt ic"
    "dlp_prev_factor nt jc < jc"
proof -
  have ok: "0 < ic" "0 < jc" "ic * jc = nt" using assms(1) by (auto simp: ways_ok_def)
  have "jc \<noteq> 1" using ok assms(2) by auto
  then have jc: "1 < jc" using ok by simp
  let ?q = "dlp_next_factor nt ic" and ?p = "dlp_prev_factor nt jc"
  have q: "?q dvd nt" "ic < ?q" "\<And>d. d dvd nt \<Longrightarrow> ic < d \<Longrightarrow> ?q \<le> d"
    using next_factor_loop_spec [of "ic + 1" nt] ok assms(2) by (auto simp: dlp_next_factor_def)
  have p: "?p dvd nt" "1 \<le> ?p" "?p < jc" "\<And>d. d dvd nt \<Longrightarrow> d < jc \<Longrightarrow> d \<le> ?p"
    using prev_factor_loop_spec [of "jc - 1" nt] jc ok assms(2) by (auto simp: dlp_prev_factor_def)
  obtain q' where q': "nt = ?q * q'" using q(1) by auto
  then have q'0: "0 < q'" using q(2) ok assms(2) zero_less_mult_iff [of ?q q'] by simp
  obtain p' where p': "nt = ?p * p'" using p(1) by auto
  then have p'0: "0 < p'" using p(2) ok assms(2) zero_less_mult_iff [of ?p p'] by simp
  have "q' < jc" using divisor_pair_antimono [of ic jc ?q q'] ok q' q q'0 by simp
  then have 1: "q' \<le> ?p" using p(4) [of q'] q' by (metis dvd_triv_right)
  have "ic < p'" using divisor_pair_antimono [of ic jc p' ?p] ok p' p p'0 by (simp add: mult.commute)
  then have "?q \<le> p'" using q(3) [of p'] p' by (metis dvd_triv_right)
  then have "\<not> q' < ?p"
    using divisor_pair_antimono [of p' ?p ?q q'] p' q' p p'0 q q'0 ok by (simp add: mult.commute)
  with 1 have "?p = q'" by simp
  then show "ways_ok (nt, ?q, ?p)" using q' p q ok by (simp add: ways_ok_def)
  show "ic < ?q" "?p < jc" by (fact q(2), fact p(3))
qed

lemma factor_step_swapped:
  assumes "ways_ok (nt, ic, jc)" "jc < nt"
  shows "ways_ok (nt, dlp_prev_factor nt ic, dlp_next_factor nt jc)"
  using factor_step(1) [of nt jc ic] assms by (auto simp: ways_ok_def mult.commute)

lemma next_factor_end [simp]: "dlp_next_factor nt nt = nt" "dlp_prev_factor nt 1 = 1"
  by (simp_all add: dlp_next_factor_def dlp_prev_factor_def)

section \<open>Adjusting the split\<close>

text \<open>Panels of work per thread under a split.\<close>

definition panel_work :: "md_t \<Rightarrow> md_t \<Rightarrow> md_t \<Rightarrow> md_t \<Rightarrow> md_t" where
  "panel_work mu nu ic jc = ceil_blks mu ic + ceil_blks nu jc"

text \<open>The three nested tries of \<open>dlp_gemm_pnl_wrk_heur_adjust_ic_jc_ways\<close>: each moves the pair
  (\<open>cic\<close>, \<open>cjc\<close>) one divisor on and takes it if it has less panel work than the best so far.\<close>

primrec pnl_wrk_tries ::
  "nat \<Rightarrow> md_t \<Rightarrow> md_t \<Rightarrow> md_t \<Rightarrow> md_t \<Rightarrow> md_t \<Rightarrow> md_t \<Rightarrow> md_t \<Rightarrow> md_t \<Rightarrow> md_t \<times> md_t" where
  "pnl_wrk_tries 0 mu nu nt cic cjc panel_work_cur ic jc = (ic, jc)"
| "pnl_wrk_tries (Suc tries) mu nu nt cic cjc panel_work_cur ic jc =
     (if nu smod jc \<noteq> 0 \<and> cic < nt then
        let next_ic = dlp_next_factor nt cic;
            prev_jc = dlp_prev_factor nt cjc;
            panel_work_next = panel_work mu nu next_ic prev_jc
        in if panel_work_next < panel_work_cur
           then pnl_wrk_tries tries mu nu nt next_ic prev_jc panel_work_next next_ic prev_jc
           else pnl_wrk_tries tries mu nu nt next_ic prev_jc panel_work_cur ic jc
      else (ic, jc))"

definition dlp_gemm_pnl_wrk_heur_adjust_ic_jc_ways :: "md_t \<Rightarrow> md_t \<Rightarrow> md_t \<Rightarrow> md_t \<Rightarrow> ways \<Rightarrow> ways" where
  "dlp_gemm_pnl_wrk_heur_adjust_ic_jc_ways MR NR m n w =
     (case w of (n_threads, ic_ways, jc_ways) \<Rightarrow>
        let mu = ceil_blks m MR;
            nu = ceil_blks n NR
        in (n_threads, pnl_wrk_tries 3 mu nu n_threads ic_ways jc_ways
              (panel_work mu nu ic_ways jc_ways) ic_ways jc_ways))"

definition dlp_gemm_pnl_wrk_heur_adjust_threading_for_prime_nt ::
  "md_t \<Rightarrow> md_t \<Rightarrow> md_t \<Rightarrow> md_t \<Rightarrow> ways \<Rightarrow> ways" where
  "dlp_gemm_pnl_wrk_heur_adjust_threading_for_prime_nt MR NR m n w =
     (case w of (n_threads, ic_ways, jc_ways) \<Rightarrow>
        let mr_blks = ceil_blks m MR;
            nr_blks = ceil_blks n NR;
            reduced_n_threads = n_threads - 1;
            (reduced_ic, reduced_jc) = dlp_thread_partition_2x2 reduced_n_threads m n;
            (reduced_n_threads, reduced_ic, reduced_jc) =
              (if mr_blks \<ge> reduced_ic
               then dlp_gemm_pnl_wrk_heur_adjust_ic_jc_ways MR NR m n (reduced_n_threads, reduced_ic, reduced_jc)
               else (reduced_n_threads, reduced_ic, reduced_jc));
            panel_work_org = panel_work mr_blks nr_blks ic_ways jc_ways;
            panel_work_red = panel_work mr_blks nr_blks reduced_ic reduced_jc
        in if panel_work_red < panel_work_org then (reduced_n_threads, reduced_ic, reduced_jc)
           else (n_threads, ic_ways, jc_ways))"

definition can_increase_jc ::
  "md_t \<Rightarrow> md_t \<Rightarrow> md_t \<Rightarrow> md_t \<Rightarrow> ways \<Rightarrow> bool" where
  "can_increase_jc m n MC NR w =
     (case w of (n_threads, ic_ways, jc_ways) \<Rightarrow>
        let m_ic = m sdiv ic_ways;
            n_jc = n sdiv jc_ways;
            m_prev_ic = m sdiv dlp_prev_factor n_threads ic_ways;
            n_next_jc = n sdiv dlp_next_factor n_threads jc_ways;
            cur_work_per_thread = m_ic + n_jc;
            next_jc_work_per_thread = n_next_jc + m_prev_ic
        in ic_ways > 1 \<and> jc_ways < n_threads \<and>
           (next_jc_work_per_thread < cur_work_per_thread \<or>
            (((m_ic \<le> MC \<and> m_prev_ic \<le> MC) \<or> m_ic > MC) \<and> n_jc > NR \<and> n_next_jc = NR)))"

text \<open>The four conditions that each allow one step of \<open>ic\<close> alone, and the fifth, on panel work,
  that may allow two.\<close>

definition can_increase_ic_work ::
  "md_t \<Rightarrow> md_t \<Rightarrow> md_t \<Rightarrow> md_t \<Rightarrow> md_t \<Rightarrow> md_t \<Rightarrow> md_t \<Rightarrow> md_t \<Rightarrow> ways \<Rightarrow> bool" where
  "can_increase_ic_work m n k MC KC MR NR m_boost w =
     (case w of (n_threads, ic_ways, jc_ways) \<Rightarrow>
        let m_ic = m sdiv ic_ways;
            n_jc = n sdiv jc_ways;
            m_next_ic = m sdiv dlp_next_factor n_threads ic_ways;
            n_prev_jc = n sdiv dlp_prev_factor n_threads jc_ways;
            n_next_jc = n sdiv dlp_next_factor n_threads jc_ways;
            k_factor = k sdiv KC
        in m_next_ic + n_prev_jc \<le> m_ic + n_jc \<or>
           (m_ic > MC \<and> m_next_ic \<le> MC \<and> m_next_ic \<ge> MR \<and> k_factor > 4) \<or>
           (m > m_boost * n \<and> m_ic \<ge> MC * 2 \<and> k_factor > 4) \<or>
           (n_jc smod NR \<noteq> 0 \<and> n_prev_jc smod NR = 0 \<and>
            \<not> (can_increase_jc m n MC NR w \<and> n_next_jc smod NR = 0)))"

definition can_increase_ic_panel :: "md_t \<Rightarrow> md_t \<Rightarrow> md_t \<Rightarrow> md_t \<Rightarrow> md_t \<Rightarrow> ways \<Rightarrow> bool" where
  "can_increase_ic_panel m n MR NR m_boost w =
     (case w of (n_threads, ic_ways, jc_ways) \<Rightarrow>
        let mu = ceil_blks m MR;
            nu = ceil_blks n NR;
            next_ic = dlp_next_factor n_threads ic_ways;
            prev_jc = dlp_prev_factor n_threads jc_ways
        in (nu smod jc_ways \<noteq> 0 \<or> (m > m_boost * n \<and> nu smod prev_jc = 0)) \<and> next_ic \<le> n_threads \<and>
           panel_work mu nu next_ic prev_jc < panel_work mu nu ic_ways jc_ways)"

definition can_increase_ic_twice :: "md_t \<Rightarrow> md_t \<Rightarrow> md_t \<Rightarrow> md_t \<Rightarrow> ways \<Rightarrow> bool" where
  "can_increase_ic_twice m n MR NR w =
     (case w of (n_threads, ic_ways, jc_ways) \<Rightarrow>
        let mu = ceil_blks m MR;
            nu = ceil_blks n NR;
            next_ic = dlp_next_factor n_threads ic_ways;
            next_next_ic = dlp_next_factor n_threads next_ic;
            prev_jc = dlp_prev_factor n_threads jc_ways;
            prev_prev_jc = dlp_prev_factor n_threads prev_jc
        in nu smod prev_jc \<noteq> 0 \<and> next_next_ic \<le> n_threads \<and>
           panel_work mu nu next_next_ic prev_prev_jc < panel_work mu nu next_ic prev_jc)"

definition dlp_gemm_adjust_ic_jc_ways ::
  "md_t \<Rightarrow> md_t \<Rightarrow> md_t \<Rightarrow> md_t \<Rightarrow> md_t \<Rightarrow> md_t \<Rightarrow> md_t \<Rightarrow> ways \<Rightarrow> md_t \<Rightarrow> ways" where
  "dlp_gemm_adjust_ic_jc_ways m n k MC KC MR NR w m_boost =
     (case w of (n_threads, ic_ways, jc_ways) \<Rightarrow>
        let next_ic = dlp_next_factor n_threads ic_ways;
            next_next_ic = dlp_next_factor n_threads next_ic;
            prev_ic = dlp_prev_factor n_threads ic_ways;
            next_jc = dlp_next_factor n_threads jc_ways;
            prev_jc = dlp_prev_factor n_threads jc_ways;
            prev_prev_jc = dlp_prev_factor n_threads prev_jc;
            may_increase_ic = ic_ways < n_threads \<and> jc_ways > 1
        in if may_increase_ic \<and> can_increase_ic_work m n k MC KC MR NR m_boost w
           then (n_threads, next_ic, prev_jc)
           else if may_increase_ic \<and> can_increase_ic_panel m n MR NR m_boost w
           then (if can_increase_ic_twice m n MR NR w then (n_threads, next_next_ic, prev_prev_jc)
                 else (n_threads, next_ic, prev_jc))
           else if can_increase_jc m n MC NR w
                   \<and> ((m \<ge> n \<and> prev_ic \<ge> next_jc) \<or> (m < n \<and> prev_ic \<le> next_jc))
           then (n_threads, prev_ic, next_jc)
           else (n_threads, ic_ways, jc_ways))"

section \<open>The get\_threading family\<close>

text \<open>The body the single-GEMM variants share. \<open>refine\<close> is applied to the initial split.\<close>

definition split_by_blocks :: "(ways \<Rightarrow> ways) \<Rightarrow> md_t \<Rightarrow> md_t \<Rightarrow> md_t \<Rightarrow> dlp_gemm_cntx_t \<Rightarrow> ways" where
  "split_by_blocks refine m n nt lcntx =
     (let NR = bs_NR (cx_blksz lcntx);
          MR = bs_MR (cx_blksz lcntx);
          mr_blks = ceil_blks m MR;
          nr_blks = ceil_blks n NR;
          mrxnr_blks = mr_blks * nr_blks;
          mr_blks_adj_n_threads = (nt sdiv mr_blks) * mr_blks;
          delta_mr_blks_adj = nt - mr_blks_adj_n_threads;
          low_freq_thres = 6
      in if n \<le> NR then (nt * 1, nt, 1)
         else if m \<le> MR then (1 * nt, 1, nt)
         else if n smod NR = 0 \<and> mrxnr_blks \<le> nt \<and> delta_mr_blks_adj < low_freq_thres
         then (mr_blks * (nt sdiv mr_blks), mr_blks, nt sdiv mr_blks)
         else refine (nt, dlp_thread_partition_2x2 nt m n))"

definition get_threading_body ::
  "(ways \<Rightarrow> ways) \<Rightarrow> md_t \<Rightarrow> md_t \<Rightarrow> dlp_rntm_t \<Rightarrow> dlp_gemm_cntx_t \<Rightarrow> ways" where
  "get_threading_body refine m n rntm_g lcntx =
     (let nt = rn_num_threads rntm_g;
          jc = rn_jc_ways rntm_g;
          ic = rn_ic_ways rntm_g
      in if ic > 0 \<or> jc > 0 then
           let ic' = (if ic > 0 then ic else 1);
               jc' = (if jc > 0 then jc else 1)
           in (jc' * ic', ic', jc')
         else if nt > 1 then split_by_blocks refine m n nt lcntx
         else (1, 1, 1))"

text \<open>The refinements.\<close>

definition pnl_wrk_refine :: "md_t \<Rightarrow> md_t \<Rightarrow> dlp_gemm_cntx_t \<Rightarrow> ways \<Rightarrow> ways" where
  "pnl_wrk_refine m n lcntx w =
     (let MR = bs_MR (cx_blksz lcntx); NR = bs_NR (cx_blksz lcntx) in
      if ceil_blks m MR \<ge> fst (snd w) then dlp_gemm_pnl_wrk_heur_adjust_ic_jc_ways MR NR m n w else w)"

definition pnl_wrk_prime_refine :: "md_t \<Rightarrow> md_t \<Rightarrow> dlp_gemm_cntx_t \<Rightarrow> ways \<Rightarrow> ways" where
  "pnl_wrk_prime_refine m n lcntx w =
     (let w' = pnl_wrk_refine m n lcntx w in
      if dlp_is_prime (fst w')
      then dlp_gemm_pnl_wrk_heur_adjust_threading_for_prime_nt
             (bs_MR (cx_blksz lcntx)) (bs_NR (cx_blksz lcntx)) m n w'
      else w')"

definition adjust_refine :: "md_t \<Rightarrow> md_t \<Rightarrow> md_t \<Rightarrow> dlp_gemm_cntx_t \<Rightarrow> ways \<Rightarrow> ways" where
  "adjust_refine m n k lcntx w =
     (let b = cx_blksz lcntx in
      if ceil_blks m (bs_MR b) \<ge> fst (snd w)
      then dlp_gemm_adjust_ic_jc_ways m n k (bs_MC b) (bs_KC b) (bs_MR b) (bs_NR b) w 5 else w)"

definition adjust_both_refine :: "md_t \<Rightarrow> md_t \<Rightarrow> md_t \<Rightarrow> dlp_gemm_cntx_t \<Rightarrow> ways \<Rightarrow> ways" where
  "adjust_both_refine m n k lcntx w =
     (let b = cx_blksz lcntx in
      if ceil_blks m (bs_MR b) \<ge> fst (snd w) \<and> ceil_blks n (bs_NR b) \<ge> snd (snd w)
      then dlp_gemm_adjust_ic_jc_ways m n k (bs_MC b) (bs_KC b) (bs_MR b) (bs_NR b) w 5 else w)"

definition dlp_gemm_s32o32_get_threading ::
  "md_t \<Rightarrow> md_t \<Rightarrow> md_t \<Rightarrow> dlp_rntm_t \<Rightarrow> dlp_gemm_cntx_t \<Rightarrow> ways" where
  "dlp_gemm_s32o32_get_threading m n k rntm_g lcntx =
     get_threading_body (pnl_wrk_refine m n lcntx) m n rntm_g lcntx"

definition dlp_gemm_u8s8s32o32_get_threading ::
  "md_t \<Rightarrow> md_t \<Rightarrow> md_t \<Rightarrow> dlp_rntm_t \<Rightarrow> dlp_gemm_cntx_t \<Rightarrow> ways" where
  "dlp_gemm_u8s8s32o32_get_threading m n k rntm_g lcntx = dlp_gemm_s32o32_get_threading m n k rntm_g lcntx"

definition dlp_gemm_s8s8s32o32_get_threading ::
  "md_t \<Rightarrow> md_t \<Rightarrow> md_t \<Rightarrow> dlp_rntm_t \<Rightarrow> dlp_gemm_cntx_t \<Rightarrow> ways" where
  "dlp_gemm_s8s8s32o32_get_threading m n k rntm_g lcntx = dlp_gemm_s32o32_get_threading m n k rntm_g lcntx"

definition dlp_gemm_bf16bf16f32of32_get_threading ::
  "md_t \<Rightarrow> md_t \<Rightarrow> md_t \<Rightarrow> dlp_rntm_t \<Rightarrow> dlp_gemm_cntx_t \<Rightarrow> ways" where
  "dlp_gemm_bf16bf16f32of32_get_threading m n k rntm_g lcntx =
     get_threading_body (pnl_wrk_prime_refine m n lcntx) m n rntm_g lcntx"

definition dlp_gemm_f16f16f16of16_get_threading ::
  "md_t \<Rightarrow> md_t \<Rightarrow> md_t \<Rightarrow> dlp_rntm_t \<Rightarrow> dlp_gemm_cntx_t \<Rightarrow> ways" where
  "dlp_gemm_f16f16f16of16_get_threading m n k rntm_g lcntx =
     get_threading_body (pnl_wrk_prime_refine m n lcntx) m n rntm_g lcntx"

definition dlp_gemm_f32f16f32of32_get_threading ::
  "md_t \<Rightarrow> md_t \<Rightarrow> md_t \<Rightarrow> dlp_rntm_t \<Rightarrow> dlp_gemm_cntx_t \<Rightarrow> ways" where
  "dlp_gemm_f32f16f32of32_get_threading m n k rntm_g lcntx =
     get_threading_body (pnl_wrk_prime_refine m n lcntx) m n rntm_g lcntx"

definition dlp_gemm_f32f32f32of32_get_threading ::
  "md_t \<Rightarrow> md_t \<Rightarrow> md_t \<Rightarrow> dlp_rntm_t \<Rightarrow> dlp_gemm_cntx_t \<Rightarrow> ways" where
  "dlp_gemm_f32f32f32of32_get_threading m n k rntm_g lcntx =
     get_threading_body (adjust_refine m n k lcntx) m n rntm_g lcntx"

text \<open>Batched calls first divide the threads over the GEMMs that run side by side. The result is
  (threads, GEMMs in parallel, threads per GEMM).\<close>

definition dlp_calculate_n_threads_per_gemm :: "md_t \<Rightarrow> dlp_rntm_t \<Rightarrow> md_t \<times> md_t \<times> md_t" where
  "dlp_calculate_n_threads_per_gemm group_size rntm_g =
     (if group_size \<le> 0 then (1, 1, 1)
      else let n_threads = rn_num_threads rntm_g;
               n_gemms_in_parallel = (if n_threads = 1 then 1 else dlp_min n_threads group_size)
           in (n_threads, n_gemms_in_parallel, n_threads sdiv n_gemms_in_parallel))"

record batch_ways =
  bw_n_threads :: md_t
  bw_n_gemms_in_parallel :: md_t
  bw_n_threads_per_gemm :: md_t
  bw_ic_ways :: md_t
  bw_jc_ways :: md_t

definition batch_get_threading_body ::
  "(ways \<Rightarrow> ways) \<Rightarrow> md_t \<Rightarrow> md_t \<Rightarrow> md_t \<Rightarrow> dlp_rntm_t \<Rightarrow> dlp_gemm_cntx_t \<Rightarrow> batch_ways" where
  "batch_get_threading_body refine group_size m n rntm_g lcntx =
     (let (nt, ngp, ntpg) = dlp_calculate_n_threads_per_gemm group_size rntm_g in
      if ntpg > 1 then
        let NR = bs_NR (cx_blksz lcntx);
            MR = bs_MR (cx_blksz lcntx);
            (ntpg', ic, jc) =
              (if n \<le> NR then (ntpg * 1, ntpg, 1)
               else if m \<le> MR then (1 * ntpg, 1, ntpg)
               else refine (ntpg, dlp_thread_partition_2x2 ntpg m n))
        in \<lparr>bw_n_threads = ngp * ic * jc, bw_n_gemms_in_parallel = ngp, bw_n_threads_per_gemm = ntpg',
            bw_ic_ways = ic, bw_jc_ways = jc\<rparr>
      else if ngp > 1 then
        \<lparr>bw_n_threads = ngp, bw_n_gemms_in_parallel = ngp, bw_n_threads_per_gemm = 1,
         bw_ic_ways = 1, bw_jc_ways = 1\<rparr>
      else
        \<lparr>bw_n_threads = 1, bw_n_gemms_in_parallel = 1, bw_n_threads_per_gemm = 1,
         bw_ic_ways = 1, bw_jc_ways = 1\<rparr>)"

definition batch_dlp_gemm_s32o32_get_threading ::
  "md_t \<Rightarrow> md_t \<Rightarrow> md_t \<Rightarrow> md_t \<Rightarrow> dlp_rntm_t \<Rightarrow> dlp_gemm_cntx_t \<Rightarrow> batch_ways" where
  "batch_dlp_gemm_s32o32_get_threading group_size m n k rntm_g lcntx =
     batch_get_threading_body (pnl_wrk_refine m n lcntx) group_size m n rntm_g lcntx"

definition batch_dlp_gemm_u8s8s32o32_get_threading ::
  "md_t \<Rightarrow> md_t \<Rightarrow> md_t \<Rightarrow> md_t \<Rightarrow> dlp_rntm_t \<Rightarrow> dlp_gemm_cntx_t \<Rightarrow> batch_ways" where
  "batch_dlp_gemm_u8s8s32o32_get_threading group_size m n k rntm_g lcntx =
     batch_dlp_gemm_s32o32_get_threading group_size m n k rntm_g lcntx"

definition batch_dlp_gemm_s8s8s32o32_get_threading ::
  "md_t \<Rightarrow> md_t \<Rightarrow> md_t \<Rightarrow> md_t \<Rightarrow> dlp_rntm_t \<Rightarrow> dlp_gemm_cntx_t \<Rightarrow> batch_ways" where
  "batch_dlp_gemm_s8s8s32o32_get_threading group_size m n k rntm_g lcntx =
     batch_dlp_gemm_s32o32_get_threading group_size m n k rntm_g lcntx"

definition batch_dlp_gemm_bf16bf16f32of32_get_threading ::
  "md_t \<Rightarrow> md_t \<Rightarrow> md_t \<Rightarrow> md_t \<Rightarrow> dlp_rntm_t \<Rightarrow> dlp_gemm_cntx_t \<Rightarrow> batch_ways" where
  "batch_dlp_gemm_bf16bf16f32of32_get_threading group_size m n k rntm_g lcntx =
     batch_get_threading_body (pnl_wrk_refine m n lcntx) group_size m n rntm_g lcntx"

text \<open>The switch of the f32 path to packing both operands, from the split it will run under. The
  page size and the AVX-512 query are arguments.\<close>

definition f32_enable_packing ::
  "md_t \<Rightarrow> bool \<Rightarrow> md_t \<Rightarrow> md_t \<Rightarrow> md_t \<Rightarrow> md_t \<Rightarrow> md_t \<Rightarrow> dlp_rntm_t \<Rightarrow> dlp_gemm_cntx_t \<Rightarrow> dlp_rntm_t" where
  "f32_enable_packing page_size avx512 m n k ic jc rntm_g lcntx =
     (let MT = st_MT (cx_sup_thres lcntx);
          NT = st_NT (cx_sup_thres lcntx);
          KT = st_KT (cx_sup_thres lcntx);
          MT_2 = MT sdiv 2;
          m_ic = m sdiv ic;
          n_jc = n sdiv jc;
          page_size_b_floatx2 = 2 * (page_size sdiv 4)
      in if m \<ge> MT \<and> n \<ge> NT \<and> k \<ge> KT \<and>
            ((k \<ge> page_size_b_floatx2 \<and> m_ic > MT_2 \<and> n_jc \<ge> NT) \<or>
             (avx512 = False \<and> k > page_size_b_floatx2))
         then rntm_g\<lparr>rn_pack_b := True, rn_pack_a := True\<rparr> else rntm_g)"

definition batch_dlp_gemm_f32f32f32of32_get_threading ::
  "md_t \<Rightarrow> bool \<Rightarrow> md_t \<Rightarrow> md_t \<Rightarrow> md_t \<Rightarrow> md_t \<Rightarrow> dlp_rntm_t \<Rightarrow> dlp_gemm_cntx_t \<Rightarrow> batch_ways \<times> dlp_rntm_t" where
  "batch_dlp_gemm_f32f32f32of32_get_threading page_size avx512 group_size m n k rntm_g lcntx =
     (let bw = batch_get_threading_body (adjust_both_refine m n k lcntx) group_size m n rntm_g lcntx
      in (bw, f32_enable_packing page_size avx512 m n k (bw_ic_ways bw) (bw_jc_ways bw) rntm_g lcntx))"

text \<open>Element-wise operations without a GEMM never use more ways than there are panels.
  \<open>(md_t)((3.0 / 4.0) * nt)\<close> is \<open>3 * nt\<close> divided by 4, rounded towards zero.\<close>

definition dlp_gemm_eltwise_ops_bf16of32_get_threading ::
  "md_t \<Rightarrow> md_t \<Rightarrow> dlp_rntm_t \<Rightarrow> dlp_gemm_eltwise_ops_cntx_t \<Rightarrow> ways" where
  "dlp_gemm_eltwise_ops_bf16of32_get_threading m n rntm_g lcntx =
     (let nt = rn_num_threads rntm_g;
          jc = rn_jc_ways rntm_g;
          ic = rn_ic_ways rntm_g
      in if ic > 0 \<or> jc > 0 then
           let ic' = (if ic > 0 then ic else 1);
               jc' = (if jc > 0 then jc else 1)
           in (jc' * ic', ic', jc')
         else if nt > 1 then
           let NR = bs_NR (ex_blksz lcntx);
               MR = bs_MR (ex_blksz lcntx);
               mr_blks = ceil_blks m MR;
               nr_blks = ceil_blks n NR
           in if n \<le> NR then (let ic' = (if mr_blks < nt then mr_blks else nt) in (ic' * 1, ic', 1))
              else if m \<le> MR then (let jc' = (if nr_blks < nt then nr_blks else nt) in (1 * jc', 1, jc'))
              else if mr_blks \<ge> nt then (nt, nt, 1)
              else if mr_blks \<ge> (3 * nt) sdiv 4 then
                let rem_jc_ways = nt sdiv mr_blks;
                    jc' = (if rem_jc_ways < nr_blks then rem_jc_ways else nr_blks)
                in (mr_blks * jc', mr_blks, jc')
              else
                let (ic', jc') = dlp_thread_partition_2x2 nt m n in
                if mr_blks < ic' \<and> nr_blks < jc' then (mr_blks * nr_blks, mr_blks, nr_blks)
                else if mr_blks < ic' then
                  let rem_jc_ways = nt sdiv mr_blks;
                      jc'' = (if rem_jc_ways < nr_blks then rem_jc_ways else nr_blks)
                  in (mr_blks * jc'', mr_blks, jc'')
                else if nr_blks < jc' then
                  let rem_ic_ways = nt sdiv nr_blks;
                      ic'' = (if rem_ic_ways < mr_blks then rem_ic_ways else mr_blks)
                  in (ic'' * nr_blks, ic'', nr_blks)
                else (nt, ic', jc')
         else (1, 1, 1))"

definition dlp_gemm_eltwise_ops_f32of32_get_threading ::
  "md_t \<Rightarrow> md_t \<Rightarrow> dlp_rntm_t \<Rightarrow> dlp_gemm_eltwise_ops_cntx_t \<Rightarrow> ways" where
  "dlp_gemm_eltwise_ops_f32of32_get_threading m n rntm_g lcntx =
     dlp_gemm_eltwise_ops_bf16of32_get_threading m n rntm_g lcntx"

section \<open>The adjustments keep the split exact\<close>

lemma panel_work_start_le: "pnl_wrk_tries d mu nu nt cic cjc (panel_work mu nu ic jc) ic jc = (ic', jc') \<Longrightarrow>
   ways_ok (nt, cic, cjc) \<Longrightarrow> ways_ok (nt, ic, jc) \<Longrightarrow>
   ways_ok (nt, ic', jc') \<and> panel_work mu nu ic' jc' \<le> panel_work mu nu ic jc"
proof (induction d arbitrary: cic cjc ic jc)
  case 0
  then show ?case by simp
next
  case (Suc d)
  let ?q = "dlp_next_factor nt cic" and ?p = "dlp_prev_factor nt cjc"
  show ?case
  proof (cases "nu smod jc \<noteq> 0 \<and> cic < nt")
    case True
    then have step: "ways_ok (nt, ?q, ?p)" using factor_step(1) [OF Suc.prems(2)] by simp
    show ?thesis
    proof (cases "panel_work mu nu ?q ?p < panel_work mu nu ic jc")
      case less: True
      then have "pnl_wrk_tries d mu nu nt ?q ?p (panel_work mu nu ?q ?p) ?q ?p = (ic', jc')"
        using Suc.prems(1) True by (simp add: Let_def)
      from Suc.IH [OF this step step] less show ?thesis by simp
    next
      case nless: False
      then have "pnl_wrk_tries d mu nu nt ?q ?p (panel_work mu nu ic jc) ic jc = (ic', jc')"
        using Suc.prems(1) True by (simp add: Let_def)
      from Suc.IH [OF this step Suc.prems(3)] show ?thesis .
    qed
  next
    case False
    then show ?thesis using Suc.prems by (auto simp: Let_def)
  qed
qed

lemma pnl_wrk_adjust_ok:
  assumes "ways_ok (nt, ic, jc)"
  shows "\<exists>ic' jc'. dlp_gemm_pnl_wrk_heur_adjust_ic_jc_ways MR NR m n (nt, ic, jc) = (nt, ic', jc')
     \<and> ways_ok (nt, ic', jc')
     \<and> panel_work (ceil_blks m MR) (ceil_blks n NR) ic' jc' \<le> panel_work (ceil_blks m MR) (ceil_blks n NR) ic jc"
proof -
  obtain ic' jc' where eq: "pnl_wrk_tries 3 (ceil_blks m MR) (ceil_blks n NR) nt ic jc
      (panel_work (ceil_blks m MR) (ceil_blks n NR) ic jc) ic jc = (ic', jc')" by force
  show ?thesis
    using panel_work_start_le [OF eq assms assms] eq
    by (simp add: dlp_gemm_pnl_wrk_heur_adjust_ic_jc_ways_def Let_def)
qed

lemma partition_ways_ok:
  "0 < nt \<Longrightarrow> dlp_thread_partition_2x2 nt m n = (ic, jc) \<Longrightarrow> ways_ok (nt, ic, jc)"
  using partition_2x2_split [of nt m n ic jc] by (simp add: ways_ok_def)

lemma prime_adjust_ok:
  assumes "ways_ok (nt, ic, jc)" "1 < nt"
    "dlp_gemm_pnl_wrk_heur_adjust_threading_for_prime_nt MR NR m n (nt, ic, jc) = (nt', ic', jc')"
  shows "ways_ok (nt', ic', jc') \<and> nt' \<le> nt \<and>
     panel_work (ceil_blks m MR) (ceil_blks n NR) ic' jc' \<le> panel_work (ceil_blks m MR) (ceil_blks n NR) ic jc"
proof -
  obtain ri rj where part: "dlp_thread_partition_2x2 (nt - 1) m n = (ri, rj)" by force
  then have ok: "ways_ok (nt - 1, ri, rj)" using partition_ways_ok [of "nt - 1"] assms(2) by simp
  obtain si sj where adj: "dlp_gemm_pnl_wrk_heur_adjust_ic_jc_ways MR NR m n (nt - 1, ri, rj) = (nt - 1, si, sj)"
    "ways_ok (nt - 1, si, sj)" using pnl_wrk_adjust_ok [OF ok] by blast
  show ?thesis
    using assms ok adj part
    by (cases "ceil_blks m MR \<ge> ri")
      (auto simp: dlp_gemm_pnl_wrk_heur_adjust_threading_for_prime_nt_def Let_def split: if_splits)
qed

lemma adjust_ok:
  assumes "ways_ok (nt, ic, jc)"
  shows "ways_ok (dlp_gemm_adjust_ic_jc_ways m n k MC KC MR NR (nt, ic, jc) m_boost)
     \<and> fst (dlp_gemm_adjust_ic_jc_ways m n k MC KC MR NR (nt, ic, jc) m_boost) = nt"
proof -
  let ?q = "dlp_next_factor nt ic" and ?p = "dlp_prev_factor nt jc"
  have one: "ways_ok (nt, ?q, ?p)" if "ic < nt" using factor_step(1) [OF assms that] .
  have two: "ways_ok (nt, dlp_next_factor nt ?q, dlp_prev_factor nt ?p)" if "ic < nt"
  proof (cases "?q < nt")
    case True
    then show ?thesis using factor_step(1) [OF one [OF that]] by simp
  next
    case False
    have ok: "0 < ?q" "0 < ?p" "?q * ?p = nt" using one [OF that] by (auto simp: ways_ok_def)
    then have "?q * 1 \<le> ?q * ?p" by (intro mult_left_mono) auto
    then have q: "?q = nt" using False ok by linarith
    have "0 < nt" using ok(1) q by simp
    then have "?p = 1" using ok(3) q by simp
    then show ?thesis using one [OF that] q by simp
  qed
  have swap: "ways_ok (nt, dlp_prev_factor nt ic, dlp_next_factor nt jc)" if "jc < nt"
    using factor_step_swapped [OF assms that] .
  have jc: "jc < nt" if "can_increase_jc m n MC NR (nt, ic, jc)"
    using that by (simp add: can_increase_jc_def Let_def)
  show ?thesis
    using assms one two swap jc
    by (simp add: dlp_gemm_adjust_ic_jc_ways_def Let_def split del: if_split) (simp split: if_split)
qed

section \<open>What the bodies rely on, and what they deliver\<close>

lemma exact_blocks_ok:
  assumes "0 < m" "0 < n" "0 < MR" "0 < NR" "ceil_blks m MR * ceil_blks n NR \<le> nt"
  shows "ways_ok (ceil_blks m MR * (nt sdiv ceil_blks m MR), ceil_blks m MR, nt sdiv ceil_blks m MR)"
    "ceil_blks m MR * (nt sdiv ceil_blks m MR) \<le> nt"
proof -
  define a where "a = ceil_blks m MR"
  have a: "1 \<le> a" and b: "1 \<le> ceil_blks n NR" using assms ceil_blks_ge_1 by (auto simp: a_def)
  then have "a * 1 \<le> a * ceil_blks n NR" by (intro mult_left_mono) auto
  also have "\<dots> \<le> nt" using assms(5) by (simp add: a_def)
  finally have le: "a \<le> nt" by simp
  then have "1 \<le> nt sdiv a" using a by (simp add: cdiv_simps pos_imp_zdiv_pos_iff int_one_le_iff_zero_less)
  then show "ways_ok (ceil_blks m MR * (nt sdiv ceil_blks m MR), ceil_blks m MR, nt sdiv ceil_blks m MR)"
    using a by (simp add: ways_ok_def a_def)
  have "nt div a * a \<le> nt" using a by (intro div_times_le) simp
  then show "ceil_blks m MR * (nt sdiv ceil_blks m MR) \<le> nt"
    unfolding a_def [symmetric] using a le by (simp add: cdiv_simps mult.commute)
qed

lemma dlp_calculate_n_threads_spec:
  assumes "rn_num_threads rntm_g \<noteq> 0"
    "dlp_calculate_n_threads_per_gemm group_size rntm_g = (nt, ngp, ntpg)"
  shows "1 < ntpg \<Longrightarrow> 0 < ngp" "1 < ntpg \<Longrightarrow> ngp * ntpg \<le> rn_num_threads rntm_g"
    "1 < ngp \<Longrightarrow> ngp \<le> rn_num_threads rntm_g" "ngp \<le> max 1 group_size"
proof -
  let ?n = "rn_num_threads rntm_g" and ?g = "dlp_min (rn_num_threads rntm_g) group_size"
  have neg: "?g = ?n" "?n sdiv ?g = 1" if "?n < 0" "0 < group_size"
    using that by (simp_all add: dlp_min_def signed_divide_int_def)
  show pos: "1 < ntpg \<Longrightarrow> 0 < ngp"
    using assms neg dlp_min_pos [of ?n group_size]
    by (cases "?n < 0") (auto simp: dlp_calculate_n_threads_per_gemm_def Let_def split: if_splits)
  show "1 < ntpg \<Longrightarrow> ngp * ntpg \<le> ?n"
  proof -
    assume "1 < ntpg"
    then have eq: "ntpg = ?n sdiv ngp" and g: "0 < ngp" and "0 < group_size"
      using assms pos by (auto simp: dlp_calculate_n_threads_per_gemm_def Let_def split: if_splits)
    then have n0: "0 < ?n"
      using assms neg(1) by (cases "?n < 0") (auto simp: dlp_calculate_n_threads_per_gemm_def Let_def split: if_splits)
    have "?n div ngp * ngp \<le> ?n" using g by (rule div_times_le)
    then show "ngp * ntpg \<le> ?n" using eq n0 g by (simp add: cdiv_simps mult.commute)
  qed
  show "1 < ngp \<Longrightarrow> ngp \<le> ?n" "ngp \<le> max 1 group_size"
    using assms by (auto simp: dlp_calculate_n_threads_per_gemm_def dlp_min_def Let_def split: if_splits)
qed

locale ways_refinement =
  fixes refine :: "ways \<Rightarrow> ways"
  assumes keeps_ok: "ways_ok w \<Longrightarrow> ways_ok (refine w)"
    and adds_no_thread: "ways_ok w \<Longrightarrow> fst (refine w) \<le> fst w"
begin

lemma refined_partition:
  assumes "0 < nt"
  shows "ways_ok (refine (nt, dlp_thread_partition_2x2 nt m n))"
    "fst (refine (nt, dlp_thread_partition_2x2 nt m n)) \<le> nt"
proof -
  have ok: "ways_ok (nt, dlp_thread_partition_2x2 nt m n)"
    using partition_ways_ok [OF assms] by (cases "dlp_thread_partition_2x2 nt m n") simp
  show "ways_ok (refine (nt, dlp_thread_partition_2x2 nt m n))"
    "fst (refine (nt, dlp_thread_partition_2x2 nt m n)) \<le> nt"
    using keeps_ok [OF ok] adds_no_thread [OF ok] by simp_all
qed

lemma split_ok:
  assumes "0 < m" "0 < n" "blksz_ok (cx_blksz lcntx)" "1 < nt"
  shows "ways_ok (split_by_blocks refine m n nt lcntx) \<and> fst (split_by_blocks refine m n nt lcntx) \<le> nt"
proof -
  let ?MR = "bs_MR (cx_blksz lcntx)" and ?NR = "bs_NR (cx_blksz lcntx)"
  consider "n \<le> ?NR" | "\<not> n \<le> ?NR" "m \<le> ?MR"
    | (exact) "\<not> n \<le> ?NR" "\<not> m \<le> ?MR" "ceil_blks m ?MR * ceil_blks n ?NR \<le> nt"
        "split_by_blocks refine m n nt lcntx =
          (ceil_blks m ?MR * (nt sdiv ceil_blks m ?MR), ceil_blks m ?MR, nt sdiv ceil_blks m ?MR)"
    | (refined) "split_by_blocks refine m n nt lcntx = refine (nt, dlp_thread_partition_2x2 nt m n)"
    by (cases "n \<le> ?NR"; cases "m \<le> ?MR"; cases "n smod ?NR = 0 \<and> ceil_blks m ?MR * ceil_blks n ?NR \<le> nt
        \<and> nt - nt sdiv ceil_blks m ?MR * ceil_blks m ?MR < 6")
      (auto simp: split_by_blocks_def Let_def)
  then show ?thesis
  proof cases
    case exact
    then show ?thesis using exact_blocks_ok [OF assms(1,2) _ _ exact(3)] assms(3) by auto
  next
    case refined
    then show ?thesis using refined_partition [of nt m n] assms(4) by simp
  qed (use assms in \<open>simp_all add: split_by_blocks_def ways_ok_def\<close>)
qed

lemma body_ok:
  assumes "0 < m" "0 < n" "blksz_ok (cx_blksz lcntx)"
  shows "ways_ok (get_threading_body refine m n rntm_g lcntx)"
  using split_ok [OF assms, of "rn_num_threads rntm_g"]
  by (auto simp: get_threading_body_def Let_def ways_ok_def mult.commute)

lemma body_le:
  assumes "0 < m" "0 < n" "blksz_ok (cx_blksz lcntx)" "rn_ic_ways rntm_g \<le> 0" "rn_jc_ways rntm_g \<le> 0"
  shows "fst (get_threading_body refine m n rntm_g lcntx) \<le> max 1 (rn_num_threads rntm_g)"
  using split_ok [OF assms(1-3), of "rn_num_threads rntm_g"] assms(4,5)
  by (auto simp: get_threading_body_def Let_def)

lemma batch_body_ok:
  assumes "0 < m" "0 < n" "rn_num_threads rntm_g \<noteq> 0"
    and bw_def: "bw = batch_get_threading_body refine group_size m n rntm_g lcntx"
  shows "ways_ok (bw_n_threads_per_gemm bw, bw_ic_ways bw, bw_jc_ways bw)"
    and "0 < bw_n_gemms_in_parallel bw"
    and "bw_n_threads bw = bw_n_gemms_in_parallel bw * bw_n_threads_per_gemm bw"
    and "bw_n_threads bw \<le> max 1 (rn_num_threads rntm_g)"
    and "bw_n_gemms_in_parallel bw \<le> max 1 group_size"
proof -
  obtain nt ngp ntpg where calc: "dlp_calculate_n_threads_per_gemm group_size rntm_g = (nt, ngp, ntpg)"
    by (metis prod_cases3)
  note c = dlp_calculate_n_threads_spec [OF assms(3) calc]
  define w where "w = (if n \<le> bs_NR (cx_blksz lcntx) then (ntpg * 1, ntpg, 1)
               else if m \<le> bs_MR (cx_blksz lcntx) then (1 * ntpg, 1, ntpg)
               else refine (ntpg, dlp_thread_partition_2x2 ntpg m n))"
  have w: "ways_ok w \<and> fst w \<le> ntpg" if "1 < ntpg"
    using that refined_partition [of ntpg m n] by (simp add: w_def ways_ok_def)
  obtain t ic jc where w3: "w = (t, ic, jc)" by (metis prod_cases3)
  have bw: "bw = (if ntpg > 1 then \<lparr>bw_n_threads = ngp * ic * jc, bw_n_gemms_in_parallel = ngp,
       bw_n_threads_per_gemm = t, bw_ic_ways = ic, bw_jc_ways = jc\<rparr>
     else if ngp > 1 then \<lparr>bw_n_threads = ngp, bw_n_gemms_in_parallel = ngp, bw_n_threads_per_gemm = 1,
       bw_ic_ways = 1, bw_jc_ways = 1\<rparr>
     else \<lparr>bw_n_threads = 1, bw_n_gemms_in_parallel = 1, bw_n_threads_per_gemm = 1,
       bw_ic_ways = 1, bw_jc_ways = 1\<rparr>)"
    using calc w3 by (simp add: bw_def batch_get_threading_body_def w_def [symmetric] Let_def)
  have prod: "t = ic * jc" "0 < ic" "0 < jc" "t \<le> ntpg" if "1 < ntpg"
    using w [OF that] w3 by (simp_all add: ways_ok_def)
  have le: "ngp * ic * jc \<le> rn_num_threads rntm_g" if "1 < ntpg"
  proof -
    have "ngp * t \<le> ngp * ntpg" using c(1) [OF that] prod(4) [OF that] by (intro mult_left_mono) auto
    then show ?thesis using c(2) [OF that] prod(1) [OF that] by (simp add: mult.assoc)
  qed
  show "ways_ok (bw_n_threads_per_gemm bw, bw_ic_ways bw, bw_jc_ways bw)"
    using prod by (simp add: bw ways_ok_def)
  show "0 < bw_n_gemms_in_parallel bw" using c(1) by (simp add: bw)
  show "bw_n_threads bw = bw_n_gemms_in_parallel bw * bw_n_threads_per_gemm bw"
    using prod by (simp add: bw mult.assoc)
  show "bw_n_threads bw \<le> max 1 (rn_num_threads rntm_g)" using le c(3) by (auto simp: bw)
  show "bw_n_gemms_in_parallel bw \<le> max 1 group_size" using c(1,4) by (auto simp: bw)
qed

end

lemma pnl_wrk_refine_work:
  assumes "ways_ok w" "pnl_wrk_refine m n lcntx w = (nt', ic', jc')"
  shows "ways_ok (nt', ic', jc') \<and> nt' = fst w \<and>
     panel_work (ceil_blks m (bs_MR (cx_blksz lcntx))) (ceil_blks n (bs_NR (cx_blksz lcntx))) ic' jc'
     \<le> panel_work (ceil_blks m (bs_MR (cx_blksz lcntx))) (ceil_blks n (bs_NR (cx_blksz lcntx)))
         (fst (snd w)) (snd (snd w))"
proof -
  obtain nt ic jc where w: "w = (nt, ic, jc)" by (metis prod_cases3)
  show ?thesis
    using assms pnl_wrk_adjust_ok [of nt ic jc "bs_MR (cx_blksz lcntx)" "bs_NR (cx_blksz lcntx)" m n] w
    by (auto simp: pnl_wrk_refine_def Let_def split: if_splits)
qed

lemma pnl_wrk_prime_refine_work:
  assumes "ways_ok w" "pnl_wrk_prime_refine m n lcntx w = (nt', ic', jc')"
  shows "ways_ok (nt', ic', jc') \<and> nt' \<le> fst w \<and>
     panel_work (ceil_blks m (bs_MR (cx_blksz lcntx))) (ceil_blks n (bs_NR (cx_blksz lcntx))) ic' jc'
     \<le> panel_work (ceil_blks m (bs_MR (cx_blksz lcntx))) (ceil_blks n (bs_NR (cx_blksz lcntx)))
         (fst (snd w)) (snd (snd w))"
proof -
  obtain nt ic jc where v: "pnl_wrk_refine m n lcntx w = (nt, ic, jc)" by (metis prod_cases3)
  note one = pnl_wrk_refine_work [OF assms(1) v]
  show ?thesis
  proof (cases "dlp_is_prime nt")
    case True
    then have "1 < nt" by (simp add: dlp_is_prime_def split: if_splits)
    from prime_adjust_ok [OF conjunct1 [OF one] this] show ?thesis
      using one assms(2) v True by (fastforce simp: pnl_wrk_prime_refine_def)
  next
    case False
    then show ?thesis using one assms(2) v by (auto simp: pnl_wrk_prime_refine_def)
  qed
qed

lemma adjust_refine_ok:
  "ways_ok w \<Longrightarrow> ways_ok (adjust_refine m n k lcntx w) \<and> fst (adjust_refine m n k lcntx w) = fst w"
  using adjust_ok by (cases w) (auto simp: adjust_refine_def Let_def)

lemma adjust_both_refine_ok:
  "ways_ok w \<Longrightarrow> ways_ok (adjust_both_refine m n k lcntx w) \<and> fst (adjust_both_refine m n k lcntx w) = fst w"
  using adjust_ok by (cases w) (auto simp: adjust_both_refine_def Let_def)

interpretation pnl: ways_refinement "pnl_wrk_refine m n lcntx" for m n lcntx
proof
  fix w assume w: "ways_ok w"
  obtain nt ic jc where v: "pnl_wrk_refine m n lcntx w = (nt, ic, jc)" by (metis prod_cases3)
  show "ways_ok (pnl_wrk_refine m n lcntx w)" "fst (pnl_wrk_refine m n lcntx w) \<le> fst w"
    using pnl_wrk_refine_work [OF w v] v by auto
qed

interpretation pnl_prime: ways_refinement "pnl_wrk_prime_refine m n lcntx" for m n lcntx
proof
  fix w assume w: "ways_ok w"
  obtain nt ic jc where v: "pnl_wrk_prime_refine m n lcntx w = (nt, ic, jc)" by (metis prod_cases3)
  show "ways_ok (pnl_wrk_prime_refine m n lcntx w)" "fst (pnl_wrk_prime_refine m n lcntx w) \<le> fst w"
    using pnl_wrk_prime_refine_work [OF w v] v by auto
qed

interpretation adj: ways_refinement "adjust_refine m n k lcntx" for m n k lcntx
  by unfold_locales (use adjust_refine_ok in simp_all)

interpretation adj_both: ways_refinement "adjust_both_refine m n k lcntx" for m n k lcntx
  by unfold_locales (use adjust_both_refine_ok in simp_all)

text \<open>The variants by data type, as one function on the name of the kernel family, so that the
  callers' dispatch by suffix has a counterpart.\<close>

datatype threading_sfx = S32O32 | BF16 | F16 | F32F16 | F32

primrec get_threading_of ::
  "threading_sfx \<Rightarrow> md_t \<Rightarrow> md_t \<Rightarrow> md_t \<Rightarrow> dlp_rntm_t \<Rightarrow> dlp_gemm_cntx_t \<Rightarrow> ways" where
  "get_threading_of S32O32 = dlp_gemm_s32o32_get_threading"
| "get_threading_of BF16 = dlp_gemm_bf16bf16f32of32_get_threading"
| "get_threading_of F16 = dlp_gemm_f16f16f16of16_get_threading"
| "get_threading_of F32F16 = dlp_gemm_f32f16f32of32_get_threading"
| "get_threading_of F32 = dlp_gemm_f32f32f32of32_get_threading"

lemmas get_threading_defs =
  dlp_gemm_s32o32_get_threading_def dlp_gemm_bf16bf16f32of32_get_threading_def
  dlp_gemm_f16f16f16of16_get_threading_def dlp_gemm_f32f16f32of32_get_threading_def
  dlp_gemm_f32f32f32of32_get_threading_def

lemma get_threading_ok:
  assumes "0 < m" "0 < n" "blksz_ok (cx_blksz lcntx)"
  shows "ways_ok (get_threading_of sfx m n k rntm_g lcntx)"
  using assms
  by (cases sfx) (simp_all add: get_threading_defs pnl.body_ok pnl_prime.body_ok adj.body_ok)

text \<open>C18: For every data type family, a problem with positive dimensions and usable block sizes gets
  positive row and column ways whose product is exactly the number of threads started; without
  caller-given ways that number never exceeds the configured one.\<close>

theorem get_threading_exact:
  assumes "0 < m" "0 < n" "blksz_ok (cx_blksz lcntx)"
    and "get_threading_of sfx m n k rntm_g lcntx = (nt, ic, jc)"
  shows "0 < ic \<and> 0 < jc \<and> ic * jc = nt \<and>
     (rn_ic_ways rntm_g \<le> 0 \<and> rn_jc_ways rntm_g \<le> 0 \<longrightarrow> nt \<le> max 1 (rn_num_threads rntm_g))"
proof -
  have "fst (get_threading_of sfx m n k rntm_g lcntx) \<le> max 1 (rn_num_threads rntm_g)"
    if "rn_ic_ways rntm_g \<le> 0" "rn_jc_ways rntm_g \<le> 0"
    using that assms(1-3)
    by (cases sfx) (simp_all only: get_threading_of.simps get_threading_defs pnl.body_le pnl_prime.body_le adj.body_le)
  then show ?thesis
    using get_threading_ok [OF assms(1-3), of sfx k rntm_g] assms(4) by (auto simp: ways_ok_def)
qed

definition example_cntx :: "md_t \<Rightarrow> md_t \<Rightarrow> md_t \<Rightarrow> md_t \<Rightarrow> md_t \<Rightarrow> dlp_gemm_cntx_t" where
  "example_cntx MC NC KC MR NR =
     \<lparr>cx_blksz = \<lparr>bs_MC = MC, bs_NC = NC, bs_KC = KC, bs_NR = NR, bs_MR = MR\<rparr>, cx_blksz_set_mask = 0,
      cx_kern_fun_ptr = 1, cx_packa_fun_ptr = 1, cx_packb_mxp_fun_ptr = 1, cx_packb_fun_ptr = 1,
      cx_unpackb_fun_ptr = 1, cx_packsclb_fun_ptr = 1,
      cx_pack_s = \<lparr>packa_rs = 4, packa_cs = 24, packb_rs = 256, packb_cs = 1\<rparr>,
      cx_sup_thres = \<lparr>st_MT = 512, st_NT = 200, st_KT = 240\<rparr>,
      cx_thread_info = \<lparr>ti_num_threads = -1, ti_ic_ways = -1, ti_jc_ways = -1\<rparr>,
      cx_dlp_kernel_hndl = \<lparr>kh_kernel_base = 0, kh_mr = 0, kh_nr = 0\<rparr>,
      cx_gemm_kernel_hints = \<lparr>kh_m_hint = 0, kh_nt_hint = 0\<rparr>\<rparr>"

definition example_rntm :: "md_t \<Rightarrow> dlp_rntm_t" where
  "example_rntm nt = \<lparr>rn_num_threads = nt, rn_ic_ways = -1, rn_jc_ways = -1, rn_pack_a = False,
     rn_pack_b = False, rn_ext_mt_ctr_var = False\<rparr>"

lemma get_threading_example:
  "get_threading_of BF16 144 1024 32 (example_rntm 7) (example_cntx 144 1024 4096 6 64) = (6, 3, 2)"
  by code_simp

lemma example_blksz_ok: "blksz_ok (cx_blksz (example_cntx 144 1024 4096 6 64))"
  by (simp add: blksz_ok_def example_cntx_def)

theorem get_threading_exact_witness:
  "get_threading_of BF16 144 1024 32 (example_rntm 7) (example_cntx 144 1024 4096 6 64) = (6, 3, 2)
   \<and> (3 :: md_t) * 2 = 6 \<and> (6 :: md_t) \<le> max 1 7"
  using get_threading_example get_threading_exact [OF _ _ example_blksz_ok get_threading_example]
  by (simp add: example_rntm_def)

text \<open>C19: The panel-work heuristics of the integer, bf16 and f16 families never make the split worse:
  applied to any exact split, with the reduction of a prime thread count included, they return
  an exact split of no more threads whose panels of work per thread (rows of panels plus columns
  of panels) are no more than before.\<close>

theorem refinement_never_adds_work:
  assumes "ways_ok (nt, ic, jc)" and "pnl_wrk_prime_refine m n lcntx (nt, ic, jc) = (nt', ic', jc')"
  shows "ways_ok (nt', ic', jc') \<and> nt' \<le> nt \<and>
     panel_work (ceil_blks m (bs_MR (cx_blksz lcntx))) (ceil_blks n (bs_NR (cx_blksz lcntx))) ic' jc'
     \<le> panel_work (ceil_blks m (bs_MR (cx_blksz lcntx))) (ceil_blks n (bs_NR (cx_blksz lcntx))) ic jc"
  using pnl_wrk_prime_refine_work [OF assms] by simp

lemma refine_example:
  "pnl_wrk_prime_refine 144 1024 (example_cntx 144 1024 4096 6 64) (7, 1, 7) = (6, 3, 2)"
  by code_simp

theorem refinement_never_adds_work_witness:
  "ways_ok (7, 1, 7) \<and> ways_ok (6, 3, 2) \<and> panel_work 24 16 3 2 \<le> panel_work 24 16 1 7"
proof -
  have ok: "ways_ok (7, 1, 7)" by (simp add: ways_ok_def)
  have "ceil_blks 144 6 = 24" "ceil_blks 1024 64 = 16" by (simp_all add: cdiv_simps)
  then show ?thesis
    using ok refinement_never_adds_work [OF ok refine_example] by (simp add: example_cntx_def)
qed

lemma batch_split:
  assumes "0 < m" "0 < n" "rn_num_threads rntm_g \<noteq> 0"
    and "bw = batch_dlp_gemm_s32o32_get_threading group_size m n k rntm_g lcntx \<or>
         bw = batch_dlp_gemm_bf16bf16f32of32_get_threading group_size m n k rntm_g lcntx \<or>
         bw = fst (batch_dlp_gemm_f32f32f32of32_get_threading page_size avx512 group_size m n k rntm_g lcntx)"
  shows "bw_n_threads bw = bw_n_gemms_in_parallel bw * bw_n_threads_per_gemm bw
     \<and> bw_n_threads_per_gemm bw = bw_ic_ways bw * bw_jc_ways bw
     \<and> 0 < bw_n_gemms_in_parallel bw \<and> 0 < bw_ic_ways bw \<and> 0 < bw_jc_ways bw
     \<and> bw_n_threads bw \<le> max 1 (rn_num_threads rntm_g) \<and> bw_n_gemms_in_parallel bw \<le> max 1 group_size"
proof -
  consider "bw = batch_get_threading_body (pnl_wrk_refine m n lcntx) group_size m n rntm_g lcntx"
    | "bw = batch_get_threading_body (adjust_both_refine m n k lcntx) group_size m n rntm_g lcntx"
    using assms(4)
    by (auto simp: batch_dlp_gemm_s32o32_get_threading_def batch_dlp_gemm_bf16bf16f32of32_get_threading_def
        batch_dlp_gemm_f32f32f32of32_get_threading_def Let_def)
  then show ?thesis
  proof cases
    case 1
    from pnl.batch_body_ok [OF assms(1-3) 1] show ?thesis by (simp add: ways_ok_def)
  next
    case 2
    from adj_both.batch_body_ok [OF assms(1-3) 2] show ?thesis by (simp add: ways_ok_def)
  qed
qed

text \<open>A batched call divides its threads exactly: with a configured thread count other than zero,
  the threads started are the GEMMs run side by side times the threads of each, each GEMM's
  threads are its row ways times its column ways, all of them positive, no more threads are
  started than configured and no more GEMMs run side by side than there are.\<close>

lemma batch_threading_exact:
  assumes "0 < m" "0 < n" "rn_num_threads rntm_g \<noteq> 0"
    and "bw = batch_dlp_gemm_s32o32_get_threading group_size m n k rntm_g lcntx \<or>
         bw = batch_dlp_gemm_bf16bf16f32of32_get_threading group_size m n k rntm_g lcntx \<or>
         bw = fst (batch_dlp_gemm_f32f32f32of32_get_threading page_size avx512 group_size m n k rntm_g lcntx)"
  shows "bw_n_threads bw = bw_n_gemms_in_parallel bw * bw_n_threads_per_gemm bw
     \<and> bw_n_threads_per_gemm bw = bw_ic_ways bw * bw_jc_ways bw
     \<and> 0 < bw_n_gemms_in_parallel bw \<and> 0 < bw_ic_ways bw \<and> 0 < bw_jc_ways bw
     \<and> bw_n_threads bw \<le> max 1 (rn_num_threads rntm_g) \<and> bw_n_gemms_in_parallel bw \<le> max 1 group_size"
  using batch_split [OF assms] .

lemma batch_example:
  "batch_dlp_gemm_bf16bf16f32of32_get_threading 3 720 1024 32 (example_rntm 32) (example_cntx 144 1024 4096 6 64)
   = \<lparr>bw_n_threads = 30, bw_n_gemms_in_parallel = 3, bw_n_threads_per_gemm = 10, bw_ic_ways = 5, bw_jc_ways = 2\<rparr>"
  by code_simp

lemma batch_threading_exact_witness:
  "bw_n_threads (batch_dlp_gemm_bf16bf16f32of32_get_threading 3 720 1024 32 (example_rntm 32)
     (example_cntx 144 1024 4096 6 64)) = 3 * 10 \<and> (10 :: md_t) = 5 * 2"
proof -
  have "rn_num_threads (example_rntm 32) \<noteq> 0" by (simp add: example_rntm_def)
  from batch_threading_exact [OF _ _ this disjI2 [OF disjI1 [OF refl]], of 720 1024 3 32
      "example_cntx 144 1024 4096 6 64"]
  show ?thesis by (simp add: batch_example)
qed

section \<open>Element-wise operations\<close>

lemma capped_ways:
  fixes a b nt :: md_t
  assumes "0 < a" "0 < b" "a \<le> nt"
  shows "a * (if nt sdiv a < b then nt sdiv a else b) \<le> nt" "0 < (if nt sdiv a < b then nt sdiv a else b)"
    "(if nt sdiv a < b then nt sdiv a else b) \<le> b"
proof -
  have q: "nt sdiv a = nt div a" using assms by (simp add: cdiv_simps)
  have le: "a * (nt div a) \<le> nt" using assms(1) by (rule div_times_le)
  have "a * b \<le> a * (nt div a)" if "\<not> nt div a < b" using that assms(1) by (intro mult_left_mono) auto
  then show "a * (if nt sdiv a < b then nt sdiv a else b) \<le> nt" using le q by (auto intro: order_trans)
  show "0 < (if nt sdiv a < b then nt sdiv a else b)" using assms by (simp add: q pos_imp_zdiv_pos_iff)
  show "(if nt sdiv a < b then nt sdiv a else b) \<le> b" by simp
qed

text \<open>Element-wise operations get an exact split as well, of no more threads than configured, and
  with no more row ways than row panels and no more column ways than column panels: no thread is
  started without work.\<close>

lemma eltwise_threading_no_idle:
  assumes "0 < m" "0 < n" "blksz_ok (ex_blksz lcntx)" "rn_ic_ways rntm_g \<le> 0" "rn_jc_ways rntm_g \<le> 0"
    and "dlp_gemm_eltwise_ops_bf16of32_get_threading m n rntm_g lcntx = (nt, ic, jc)"
  shows "0 < ic \<and> 0 < jc \<and> ic * jc = nt \<and> nt \<le> max 1 (rn_num_threads rntm_g)
     \<and> ic \<le> ceil_blks m (bs_MR (ex_blksz lcntx)) \<and> jc \<le> ceil_blks n (bs_NR (ex_blksz lcntx))"
proof -
  define a where "a = ceil_blks m (bs_MR (ex_blksz lcntx))"
  define b where "b = ceil_blks n (bs_NR (ex_blksz lcntx))"
  have pos: "0 < a" "0 < b" using assms(1-3) ceil_blks_ge_1 [of m "bs_MR (ex_blksz lcntx)"]
      ceil_blks_ge_1 [of n "bs_NR (ex_blksz lcntx)"] by (auto simp: a_def b_def)
  let ?N = "rn_num_threads rntm_g"
  obtain p q where part: "dlp_thread_partition_2x2 ?N m n = (p, q)" by force
  have pq: "p * q = ?N" "0 < p" "0 < q" if "1 < ?N"
    using partition_2x2_split [OF _ part] that by auto
  have "p * 1 \<le> p * q" "1 * q \<le> p * q" if "1 < ?N"
    using pq [OF that] by (intro mult_left_mono mult_right_mono; simp)+
  then have leN: "p \<le> ?N" "q \<le> ?N" if "1 < ?N" using pq [OF that] that by auto
  have both: "a * b \<le> ?N" if "a < p" "b < q" "1 < ?N"
    using mult_mono [of a p b q] that pq [OF that(3)] pos by simp
  show ?thesis
    using assms(4-6) pos leN pq both capped_ways [of a b ?N] capped_ways [of b a ?N]
    unfolding dlp_gemm_eltwise_ops_bf16of32_get_threading_def Let_def a_def [symmetric] b_def [symmetric]
    by (auto simp: part mult.commute split: if_splits)
qed

definition example_eltwise_cntx :: dlp_gemm_eltwise_ops_cntx_t where
  "example_eltwise_cntx = \<lparr>ex_blksz = \<lparr>bs_MC = 144, bs_NC = 1024, bs_KC = 2048, bs_NR = 64, bs_MR = 6\<rparr>,
     ex_eltwise_ops_kern_fun_ptr = 1\<rparr>"

lemma eltwise_example:
  "dlp_gemm_eltwise_ops_bf16of32_get_threading 20 1000 (example_rntm 24) example_eltwise_cntx = (16, 1, 16)"
  by code_simp

lemma eltwise_threading_no_idle_witness:
  "dlp_gemm_eltwise_ops_bf16of32_get_threading 20 1000 (example_rntm 24) example_eltwise_cntx = (16, 1, 16)
   \<and> (1 :: md_t) * 16 = 16 \<and> 1 \<le> ceil_blks 20 6 \<and> 16 \<le> ceil_blks 1000 64"
  using eltwise_example eltwise_threading_no_idle [OF _ _ _ _ _ eltwise_example]
  by (simp add: blksz_ok_def example_eltwise_cntx_def example_rntm_def)

end
