(* ===== verification/Config.thy ===== *)
theory Config
  imports Thread_Ways
begin

unbundle bit_operations_syntax

text \<open>
  The operation contexts, \<^verbatim>\<open>classic/config/dlp_gemm_config.c\<close> with its tables
  \<^verbatim>\<open>classic/config/dlp_gemm_blksz_map.h\<close> and the validators of
  \<^verbatim>\<open>classic/include/config/dlp_gemm_config.h\<close>: block sizes, pack strides and thresholds per CPU,
  the clamped table accesses, the merge of caller metadata into a local context, and the checks
  after it.

  A table is the list of its contexts, in the order of \<open>AOCL_DLP_OPERATION_TYPE\<close>; an \<open>XMACRO\<close>
  table is a list of entries and its expansion is a fold of the setters. The CPU queries are the
  record \<open>cpu\<close>; \<open>arch_is_zen3\<close> is the comparison of the enabled architecture with
  \<open>DLP_ARCH_ZEN3\<close>. The kernel pointer maps are not modelled.
\<close>

record cpu =
  similar_zen6_arch :: bool
  similar_zen5_arch :: bool
  avx512_supported :: bool
  avx512vnni_supported :: bool
  avx512bf16_supported :: bool
  avx2fma3_supported :: bool
  arch_is_zen3 :: bool

section \<open>Clamped access\<close>

definition dlp_gemm_clamp_op_index :: "int \<Rightarrow> int \<Rightarrow> int" where
  "dlp_gemm_clamp_op_index op len = (if op < 0 \<or> op \<ge> len then 0 else op)"

type_synonym cntx_table = "dlp_gemm_cntx_t list"

definition zero_cntx :: dlp_gemm_cntx_t where
  "zero_cntx =
     \<lparr>cx_blksz = \<lparr>bs_MC = 0, bs_NC = 0, bs_KC = 0, bs_NR = 0, bs_MR = 0\<rparr>, cx_blksz_set_mask = 0,
      cx_kern_fun_ptr = 0, cx_packa_fun_ptr = 0, cx_packb_mxp_fun_ptr = 0, cx_packb_fun_ptr = 0,
      cx_unpackb_fun_ptr = 0, cx_packsclb_fun_ptr = 0,
      cx_pack_s = \<lparr>packa_rs = 0, packa_cs = 0, packb_rs = 0, packb_cs = 0\<rparr>,
      cx_sup_thres = \<lparr>st_MT = 0, st_NT = 0, st_KT = 0\<rparr>,
      cx_thread_info = \<lparr>ti_num_threads = 0, ti_ic_ways = 0, ti_jc_ways = 0\<rparr>,
      cx_dlp_kernel_hndl = \<lparr>kh_kernel_base = 0, kh_mr = 0, kh_nr = 0\<rparr>,
      cx_gemm_kernel_hints = \<lparr>kh_m_hint = 0, kh_nt_hint = 0\<rparr>\<rparr>"

text \<open>Static storage starts zeroed.\<close>

definition global_cntx_t_list :: cntx_table where
  "global_cntx_t_list = replicate 12 zero_cntx"

definition table_index :: "int \<Rightarrow> nat" where
  "table_index op = nat (dlp_gemm_clamp_op_index op AOCL_DLP_OPERATION_TYPE_LEN)"

definition dlp_gemm_get_global_cntx_obj :: "cntx_table \<Rightarrow> int \<Rightarrow> dlp_gemm_cntx_t" where
  "dlp_gemm_get_global_cntx_obj tbl op = tbl ! table_index op"

definition dlp_gemm_get_block_size_MC_global_cntx :: "cntx_table \<Rightarrow> int \<Rightarrow> md_t" where
  "dlp_gemm_get_block_size_MC_global_cntx tbl op = bs_MC (cx_blksz (tbl ! table_index op))"

definition dlp_gemm_get_block_size_NC_global_cntx :: "cntx_table \<Rightarrow> int \<Rightarrow> md_t" where
  "dlp_gemm_get_block_size_NC_global_cntx tbl op = bs_NC (cx_blksz (tbl ! table_index op))"

definition dlp_gemm_get_block_size_KC_global_cntx :: "cntx_table \<Rightarrow> int \<Rightarrow> md_t" where
  "dlp_gemm_get_block_size_KC_global_cntx tbl op = bs_KC (cx_blksz (tbl ! table_index op))"

definition dlp_gemm_get_block_size_NR_global_cntx :: "cntx_table \<Rightarrow> int \<Rightarrow> md_t" where
  "dlp_gemm_get_block_size_NR_global_cntx tbl op = bs_NR (cx_blksz (tbl ! table_index op))"

definition dlp_gemm_get_block_size_MR_global_cntx :: "cntx_table \<Rightarrow> int \<Rightarrow> md_t" where
  "dlp_gemm_get_block_size_MR_global_cntx tbl op = bs_MR (cx_blksz (tbl ! table_index op))"

definition dlp_gemm_get_sup_thres_MT_global_cntx :: "cntx_table \<Rightarrow> int \<Rightarrow> md_t" where
  "dlp_gemm_get_sup_thres_MT_global_cntx tbl op = st_MT (cx_sup_thres (tbl ! table_index op))"

definition dlp_gemm_get_sup_thres_NT_global_cntx :: "cntx_table \<Rightarrow> int \<Rightarrow> md_t" where
  "dlp_gemm_get_sup_thres_NT_global_cntx tbl op = st_NT (cx_sup_thres (tbl ! table_index op))"

definition dlp_gemm_get_sup_thres_KT_global_cntx :: "cntx_table \<Rightarrow> int \<Rightarrow> md_t" where
  "dlp_gemm_get_sup_thres_KT_global_cntx tbl op = st_KT (cx_sup_thres (tbl ! table_index op))"

definition dlp_gemm_get_packa_strides :: "dlp_gemm_cntx_t \<Rightarrow> md_t \<times> md_t" where
  "dlp_gemm_get_packa_strides lcntx = (packa_rs (cx_pack_s lcntx), packa_cs (cx_pack_s lcntx))"

definition dlp_gemm_get_packb_strides :: "dlp_gemm_cntx_t \<Rightarrow> md_t \<times> md_t" where
  "dlp_gemm_get_packb_strides lcntx = (packb_rs (cx_pack_s lcntx), packb_cs (cx_pack_s lcntx))"

definition dlp_gemm_set_block_sizes_global_cntx ::
  "AOCL_DLP_OPERATION_TYPE \<Rightarrow> md_t \<Rightarrow> md_t \<Rightarrow> md_t \<Rightarrow> md_t \<Rightarrow> md_t \<Rightarrow> cntx_table \<Rightarrow> cntx_table" where
  "dlp_gemm_set_block_sizes_global_cntx op_type MC NC KC MR NR tbl =
     (let idx = table_index (op_type_code op_type)
      in tbl[idx := (tbl ! idx)\<lparr>cx_blksz := \<lparr>bs_MC = MC, bs_NC = NC, bs_KC = KC, bs_NR = NR, bs_MR = MR\<rparr>,
                                cx_blksz_set_mask := 0\<rparr>])"

definition dlp_gemm_set_pack_strides_global_cntx ::
  "AOCL_DLP_OPERATION_TYPE \<Rightarrow> md_t \<Rightarrow> md_t \<Rightarrow> md_t \<Rightarrow> md_t \<Rightarrow> cntx_table \<Rightarrow> cntx_table" where
  "dlp_gemm_set_pack_strides_global_cntx op_type pa_rs pa_cs pb_rs pb_cs tbl =
     (let idx = table_index (op_type_code op_type)
      in tbl[idx := (tbl ! idx)\<lparr>cx_pack_s := \<lparr>packa_rs = pa_rs, packa_cs = pa_cs, packb_rs = pb_rs, packb_cs = pb_cs\<rparr>\<rparr>])"

definition dlp_gemm_set_sup_thres_global_cntx ::
  "AOCL_DLP_OPERATION_TYPE \<Rightarrow> md_t \<Rightarrow> md_t \<Rightarrow> md_t \<Rightarrow> cntx_table \<Rightarrow> cntx_table" where
  "dlp_gemm_set_sup_thres_global_cntx op_type MT NT KT tbl =
     (let idx = table_index (op_type_code op_type)
      in tbl[idx := (tbl ! idx)\<lparr>cx_sup_thres := \<lparr>st_MT = MT, st_NT = NT, st_KT = KT\<rparr>\<rparr>])"

section \<open>The tables\<close>

text \<open>An entry: MC, NC, KC, MR, NR, then the pack strides of A and of B.\<close>

type_synonym xmacro = "AOCL_DLP_OPERATION_TYPE \<times> (md_t \<times> md_t \<times> md_t \<times> md_t \<times> md_t) \<times> md_t \<times> md_t \<times> md_t \<times> md_t"

definition DLP_GEMM_BLKSZ_MAP_ZEN5 :: "xmacro list" where
  "DLP_GEMM_BLKSZ_MAP_ZEN5 =
    [(U8S8S32OS32, (144, 1024, 2048, 6, 64), 4, 24, 4 * 64, 64),
     (F32F32F32OF32, (192, 8064, 1024, 6, 64), 1, 6, 64, 1),
     (BF16BF16F32OF32, (144, 1024, 4096, 6, 64), 0, 0, 2 * 64, 64 div 2),
     (BF16S4F32OF32, (144, 1024, 4096, 6, 64), 0, 0, 2 * 64, 64 div 2),
     (F16F16F16OF16, (288, 1024, 2048, 6, 128), 1, 6, 128, 1),
     (F32F16F32OF32, (192, 4096, 2048, 6, 64), 1, 6, 64, 1),
     (S8S8S32OS32, (144, 1024, 2048, 6, 64), 4, 24, 4 * 64, 64),
     (U8S4S32OS32, (144, 1024, 2048, 6, 64), 4, 24, 4 * 64, 64),
     (F32OBF16, (144, 1024, 4096, 6, 64), 0, 0, 2 * 64, 64 div 2),
     (BF16U4F32OF32, (144, 1024, 4096, 6, 64), 0, 0, 2 * 64, 64 div 2)]"

definition DLP_GEMM_BLKSZ_MAP_ZEN6 :: "xmacro list" where
  "DLP_GEMM_BLKSZ_MAP_ZEN6 =
    [(U8S8S32OS32, (144, 1024, 4096, 6, 64), 4, 24, 4 * 64, 64),
     (F32F32F32OF32, (192, 8064, 1024, 6, 64), 1, 6, 64, 1),
     (BF16BF16F32OF32, (144, 1024, 4096, 6, 64), 0, 0, 2 * 64, 64 div 2),
     (BF16S4F32OF32, (144, 1024, 4096, 6, 64), 0, 0, 2 * 64, 64 div 2),
     (F16F16F16OF16, (288, 1024, 2048, 6, 128), 1, 12, 128, 1),
     (F32F16F32OF32, (192, 4096, 2048, 6, 64), 1, 6, 64, 1),
     (S8S8S32OS32, (144, 1024, 4096, 6, 64), 4, 24, 4 * 64, 64),
     (U8S4S32OS32, (144, 1024, 4096, 6, 64), 4, 24, 4 * 64, 64),
     (F32OBF16, (144, 1024, 4096, 6, 64), 0, 0, 2 * 64, 64 div 2),
     (BF16U4F32OF32, (144, 1024, 4096, 6, 64), 0, 0, 2 * 64, 64 div 2)]"

definition DLP_GEMM_BLKSZ_MAP_ZEN4 :: "xmacro list" where
  "DLP_GEMM_BLKSZ_MAP_ZEN4 =
    [(U8S8S32OS32, (144, 1024, 2048, 6, 64), 4, 24, 4 * 64, 64),
     (F32F32F32OF32, (192, 8064, 512, 6, 64), 1, 6, 64, 1),
     (BF16BF16F32OF32, (144, 1024, 4096, 6, 64), 0, 0, 2 * 64, 64 div 2),
     (BF16S4F32OF32, (144, 1024, 4096, 6, 64), 0, 0, 2 * 64, 64 div 2),
     (F16F16F16OF16, (288, 1024, 2048, 6, 128), 1, 6, 128, 1),
     (F32F16F32OF32, (192, 4096, 2048, 6, 64), 1, 6, 64, 1),
     (S8S8S32OS32, (144, 1024, 2048, 6, 64), 4, 24, 4 * 64, 64),
     (U8S4S32OS32, (144, 1024, 2048, 6, 64), 4, 24, 4 * 64, 64),
     (F32OBF16, (144, 1024, 4096, 6, 64), 0, 0, 2 * 64, 64 div 2),
     (BF16U4F32OF32, (144, 1024, 4096, 6, 64), 0, 0, 2 * 64, 64 div 2)]"

definition DLP_GEMM_BLKSZ_MAP_ZEN :: "xmacro list" where
  "DLP_GEMM_BLKSZ_MAP_ZEN =
    [(U8S8S32OS32, (144, 1024, 2048, 6, 64), 4, 24, 4 * 64, 64),
     (F32F32F32OF32, (144, 8160, 512, 6, 16), 1, 6, 16, 1),
     (BF16BF16F32OF32, (144, 1024, 4096, 6, 64), 0, 0, 2 * 64, 64 div 2),
     (F16F16F16OF16, (288, 1024, 512, 12, 32), 1, 12, 32, 1),
     (S8S8S32OS32, (144, 1024, 2048, 6, 64), 4, 24, 4 * 64, 64),
     (U8S4S32OS32, (144, 1024, 2048, 6, 64), 4, 24, 4 * 64, 64),
     (BF16S4F32OF32, (144, 1024, 2048, 6, 64), 0, 0, 2 * 64, 64 div 2),
     (F32OBF16, (144, 1024, 2048, 6, 64), 0, 0, 2 * 64, 64 div 2),
     (BF16U4F32OF32, (144, 1024, 2048, 6, 64), 0, 0, 2 * 64, 64 div 2)]"

definition DLP_GEMM_BLKSZ_UPD_MAP_ZEN4_TO_ZEN :: "xmacro list" where
  "DLP_GEMM_BLKSZ_UPD_MAP_ZEN4_TO_ZEN = [(F32F32F32OF32, (144, 8160, 512, 6, 16), 1, 6, 16, 1)]"

fun XMACRO :: "xmacro \<Rightarrow> cntx_table \<Rightarrow> cntx_table" where
  "XMACRO (op, (MC, NC, KC, MR, NR), pa_rs, pa_cs, pb_rs, pb_cs) tbl =
     dlp_gemm_set_pack_strides_global_cntx op pa_rs pa_cs pb_rs pb_cs
       (dlp_gemm_set_block_sizes_global_cntx op MC NC KC MR NR tbl)"

definition dlp_gemm_cntx_init_blksz_map :: "cpu \<Rightarrow> cntx_table \<Rightarrow> cntx_table" where
  "dlp_gemm_cntx_init_blksz_map c tbl =
     (let upd = (\<lambda>t. if arch_is_zen3 c then fold XMACRO DLP_GEMM_BLKSZ_UPD_MAP_ZEN4_TO_ZEN t else t) in
      if similar_zen6_arch c then upd (fold XMACRO DLP_GEMM_BLKSZ_MAP_ZEN6 tbl)
      else if similar_zen5_arch c then upd (fold XMACRO DLP_GEMM_BLKSZ_MAP_ZEN5 tbl)
      else if avx512_supported c then upd (fold XMACRO DLP_GEMM_BLKSZ_MAP_ZEN4 tbl)
      else if avx2fma3_supported c then fold XMACRO DLP_GEMM_BLKSZ_MAP_ZEN tbl
      else fold XMACRO DLP_GEMM_BLKSZ_MAP_ZEN tbl)"

definition dlp_gemm_cntx_init_sup_thres_map :: "cpu \<Rightarrow> cntx_table \<Rightarrow> cntx_table" where
  "dlp_gemm_cntx_init_sup_thres_map c tbl =
     (if avx512vnni_supported c then
        let tbl = dlp_gemm_set_sup_thres_global_cntx F32F32F32OF32 682 512 240 tbl
        in if arch_is_zen3 c then dlp_gemm_set_sup_thres_global_cntx F32F32F32OF32 512 200 240 tbl else tbl
      else if avx2fma3_supported c then dlp_gemm_set_sup_thres_global_cntx F32F32F32OF32 512 200 240 tbl
      else dlp_gemm_set_sup_thres_global_cntx F32F32F32OF32 512 200 240 tbl)"

text \<open>Element-wise contexts: a block-size table for AVX-512 BF16, an empty one otherwise.\<close>

definition dlp_gemm_set_block_sizes_global_eltwise_ops_cntx ::
  "nat \<Rightarrow> md_t \<Rightarrow> md_t \<Rightarrow> md_t \<Rightarrow> md_t \<Rightarrow> md_t \<Rightarrow> dlp_gemm_eltwise_ops_cntx_t list \<Rightarrow> dlp_gemm_eltwise_ops_cntx_t list" where
  "dlp_gemm_set_block_sizes_global_eltwise_ops_cntx op MC NC KC MR NR tbl =
     (let idx = nat (dlp_gemm_clamp_op_index (int op) 2)
      in tbl[idx := (tbl ! idx)\<lparr>ex_blksz := \<lparr>bs_MC = MC, bs_NC = NC, bs_KC = KC, bs_NR = NR, bs_MR = MR\<rparr>\<rparr>])"

definition dlp_gemm_eltwise_ops_cntx_init_blksz_map ::
  "cpu \<Rightarrow> dlp_gemm_eltwise_ops_cntx_t list \<Rightarrow> dlp_gemm_eltwise_ops_cntx_t list" where
  "dlp_gemm_eltwise_ops_cntx_init_blksz_map c tbl =
     (if avx512bf16_supported c
      then dlp_gemm_set_block_sizes_global_eltwise_ops_cntx 1 144 1024 2048 6 64
             (dlp_gemm_set_block_sizes_global_eltwise_ops_cntx 0 144 1024 2048 6 64 tbl)
      else tbl)"

definition dlp_gemm_cntx_init_map :: "cpu \<Rightarrow> cntx_table \<Rightarrow> cntx_table" where
  "dlp_gemm_cntx_init_map c tbl =
     dlp_gemm_cntx_init_sup_thres_map c (dlp_gemm_cntx_init_blksz_map c tbl)"

definition init_table :: "cpu \<Rightarrow> cntx_table" where
  "init_table c = dlp_gemm_cntx_init_map c global_cntx_t_list"

section \<open>What the tables hold\<close>

lemma table_index_less: "table_index op < 12"
  by (simp add: table_index_def dlp_gemm_clamp_op_index_def AOCL_DLP_OPERATION_TYPE_LEN_def nat_less_iff)

lemma table_index_op: "table_index (op_type_code op) = nat (op_type_code op)"
  by (cases op) (simp_all add: table_index_def dlp_gemm_clamp_op_index_def AOCL_DLP_OPERATION_TYPE_LEN_def)

lemmas table_map_defs =
  DLP_GEMM_BLKSZ_MAP_ZEN5_def DLP_GEMM_BLKSZ_MAP_ZEN6_def DLP_GEMM_BLKSZ_MAP_ZEN4_def
  DLP_GEMM_BLKSZ_MAP_ZEN_def DLP_GEMM_BLKSZ_UPD_MAP_ZEN4_TO_ZEN_def

lemmas table_setter_defs =
  dlp_gemm_set_block_sizes_global_cntx_def dlp_gemm_set_pack_strides_global_cntx_def
  dlp_gemm_set_sup_thres_global_cntx_def

lemma XMACRO_length [simp]: "length (XMACRO x tbl) = length tbl"
  by (cases "(x, tbl)" rule: XMACRO.cases) (simp add: table_setter_defs Let_def)

lemma fold_XMACRO_length [simp]: "length (fold XMACRO xs tbl) = length tbl"
  by (induction xs arbitrary: tbl) simp_all

lemma sup_thres_length [simp]: "length (dlp_gemm_set_sup_thres_global_cntx op MT NT KT tbl) = length tbl"
  by (simp add: table_setter_defs Let_def)

lemma init_table_length: "length (init_table c) = 12"
  by (simp add: init_table_def dlp_gemm_cntx_init_map_def dlp_gemm_cntx_init_sup_thres_map_def
      dlp_gemm_cntx_init_blksz_map_def global_cntx_t_list_def Let_def)

text \<open>The threshold tables do not touch block sizes; what a block-size table leaves at an operation is
  its last entry for it.\<close>

lemma sup_thres_blksz [simp]:
  "length tbl = 12 \<Longrightarrow> i < 12 \<Longrightarrow> cx_blksz (dlp_gemm_set_sup_thres_global_cntx op MT NT KT tbl ! i) = cx_blksz (tbl ! i)
     \<and> cx_pack_s (dlp_gemm_set_sup_thres_global_cntx op MT NT KT tbl ! i) = cx_pack_s (tbl ! i)"
  by (cases "table_index (op_type_code op) = i") (simp_all add: table_setter_defs Let_def)

lemma XMACRO_nth:
  "length tbl = 12 \<Longrightarrow> i < 12 \<Longrightarrow>
   cx_blksz (XMACRO (op, (MC, NC, KC, MR, NR), pa_rs, pa_cs, pb_rs, pb_cs) tbl ! i) =
     (if nat (op_type_code op) = i then \<lparr>bs_MC = MC, bs_NC = NC, bs_KC = KC, bs_NR = NR, bs_MR = MR\<rparr>
      else cx_blksz (tbl ! i)) \<and>
   cx_pack_s (XMACRO (op, (MC, NC, KC, MR, NR), pa_rs, pa_cs, pb_rs, pb_cs) tbl ! i) =
     (if nat (op_type_code op) = i then \<lparr>packa_rs = pa_rs, packa_cs = pa_cs, packb_rs = pb_rs, packb_cs = pb_cs\<rparr>
      else cx_pack_s (tbl ! i))"
  by (auto simp: table_setter_defs Let_def nth_list_update table_index_op)

fun last_entry :: "xmacro list \<Rightarrow> nat \<Rightarrow> dlp_gemm_block_size_t \<times> dlp_gemm_pack_strides_t \<Rightarrow>
    dlp_gemm_block_size_t \<times> dlp_gemm_pack_strides_t" where
  "last_entry [] i d = d"
| "last_entry ((op, (MC, NC, KC, MR, NR), pa_rs, pa_cs, pb_rs, pb_cs) # xs) i d =
     last_entry xs i (if nat (op_type_code op) = i
       then (\<lparr>bs_MC = MC, bs_NC = NC, bs_KC = KC, bs_NR = NR, bs_MR = MR\<rparr>,
             \<lparr>packa_rs = pa_rs, packa_cs = pa_cs, packb_rs = pb_rs, packb_cs = pb_cs\<rparr>) else d)"

definition entry_at :: "cntx_table \<Rightarrow> nat \<Rightarrow> dlp_gemm_block_size_t \<times> dlp_gemm_pack_strides_t" where
  "entry_at tbl i = (cx_blksz (tbl ! i), cx_pack_s (tbl ! i))"

lemma fold_XMACRO_nth:
  "length tbl = 12 \<Longrightarrow> i < 12 \<Longrightarrow> entry_at (fold XMACRO xs tbl) i = last_entry xs i (entry_at tbl i)"
proof (induction xs arbitrary: tbl)
  case Nil
  then show ?case by simp
next
  case (Cons x xs)
  obtain op MC NC KC MR NR pa_rs pa_cs pb_rs pb_cs where x: "x = (op, (MC, NC, KC, MR, NR), pa_rs, pa_cs, pb_rs, pb_cs)"
    by (metis prod.collapse)
  have "entry_at (XMACRO x tbl) i = (if nat (op_type_code op) = i
       then (\<lparr>bs_MC = MC, bs_NC = NC, bs_KC = KC, bs_NR = NR, bs_MR = MR\<rparr>,
             \<lparr>packa_rs = pa_rs, packa_cs = pa_cs, packb_rs = pb_rs, packb_cs = pb_cs\<rparr>) else entry_at tbl i)"
    using XMACRO_nth [OF Cons.prems, of op MC NC KC MR NR pa_rs pa_cs pb_rs pb_cs]
    by (simp add: x entry_at_def del: XMACRO.simps)
  then show ?case using Cons.IH [of "XMACRO x tbl"] Cons.prems by (simp add: x del: XMACRO.simps)
qed

definition map_of_cpu :: "cpu \<Rightarrow> xmacro list" where
  "map_of_cpu c =
     (let upd = (if arch_is_zen3 c then DLP_GEMM_BLKSZ_UPD_MAP_ZEN4_TO_ZEN else []) in
      if similar_zen6_arch c then DLP_GEMM_BLKSZ_MAP_ZEN6 @ upd
      else if similar_zen5_arch c then DLP_GEMM_BLKSZ_MAP_ZEN5 @ upd
      else if avx512_supported c then DLP_GEMM_BLKSZ_MAP_ZEN4 @ upd
      else DLP_GEMM_BLKSZ_MAP_ZEN)"

definition zero_entry :: "dlp_gemm_block_size_t \<times> dlp_gemm_pack_strides_t" where
  "zero_entry = (\<lparr>bs_MC = 0, bs_NC = 0, bs_KC = 0, bs_NR = 0, bs_MR = 0\<rparr>,
                 \<lparr>packa_rs = 0, packa_cs = 0, packb_rs = 0, packb_cs = 0\<rparr>)"

lemma init_table_entry:
  assumes "i < 12"
  shows "entry_at (init_table c) i = last_entry (map_of_cpu c) i zero_entry"
proof -
  have z: "entry_at global_cntx_t_list i = zero_entry"
    using assms by (simp add: entry_at_def global_cntx_t_list_def zero_cntx_def zero_entry_def)
  have "dlp_gemm_cntx_init_blksz_map c global_cntx_t_list = fold XMACRO (map_of_cpu c) global_cntx_t_list"
    by (simp add: dlp_gemm_cntx_init_blksz_map_def map_of_cpu_def Let_def)
  moreover have "length global_cntx_t_list = 12" by (simp add: global_cntx_t_list_def)
  ultimately have b: "entry_at (dlp_gemm_cntx_init_blksz_map c global_cntx_t_list) i = last_entry (map_of_cpu c) i zero_entry"
    "length (dlp_gemm_cntx_init_blksz_map c global_cntx_t_list) = 12"
    using fold_XMACRO_nth [of global_cntx_t_list i "map_of_cpu c"] assms z by simp_all
  show ?thesis
    unfolding b(1) [symmetric] init_table_def dlp_gemm_cntx_init_map_def dlp_gemm_cntx_init_sup_thres_map_def
    using b(2) assms by (simp add: entry_at_def Let_def)
qed

text \<open>Operations every CPU has a table entry for.\<close>

definition tabled_everywhere :: "AOCL_DLP_OPERATION_TYPE list" where
  "tabled_everywhere = [U8S8S32OS32, F32F32F32OF32, BF16BF16F32OF32, S8S8S32OS32, U8S4S32OS32,
     BF16S4F32OF32, F32OBF16, F16F16F16OF16, BF16U4F32OF32]"

definition good_blksz :: "dlp_gemm_block_size_t \<Rightarrow> bool" where
  "good_blksz b \<longleftrightarrow> blksz_ok b \<and> bs_MR b dvd bs_MC b \<and> bs_NR b dvd bs_NC b \<and> 4 dvd bs_KC b"

lemma get_cntx_entry:
  "cx_blksz (dlp_gemm_get_global_cntx_obj (init_table c) op) = fst (last_entry (map_of_cpu c) (table_index op) zero_entry)"
  "cx_pack_s (dlp_gemm_get_global_cntx_obj (init_table c) op) = snd (last_entry (map_of_cpu c) (table_index op) zero_entry)"
  using init_table_entry [OF table_index_less, of c op]
  by (simp_all add: dlp_gemm_get_global_cntx_obj_def entry_at_def prod_eq_iff)


text \<open>An out-of-range operation index is clamped into the table, so neither a read nor a write
  leaves it, but the slot it is clamped to is not the fully populated context the source promises:
  slot 0 belongs to an operation no table has an entry for, so all block sizes read there are 0 on
  every CPU.\<close>

lemma clamped_slot_is_empty:
  assumes "op < 0 \<or> op \<ge> AOCL_DLP_OPERATION_TYPE_LEN"
  shows "table_index op < length (init_table c)
     \<and> cx_blksz (dlp_gemm_get_global_cntx_obj (init_table c) op)
        = \<lparr>bs_MC = 0, bs_NC = 0, bs_KC = 0, bs_NR = 0, bs_MR = 0\<rparr>"
proof -
  have "table_index op = 0" using assms by (auto simp: table_index_def dlp_gemm_clamp_op_index_def)
  then show ?thesis
    unfolding get_cntx_entry
    by (simp add: init_table_length map_of_cpu_def table_map_defs zero_entry_def Let_def)
qed

lemma clamped_slot_is_empty_witness:
  "bs_MR (cx_blksz (dlp_gemm_get_global_cntx_obj
     (init_table \<lparr>similar_zen6_arch = False, similar_zen5_arch = True, avx512_supported = True,
        avx512vnni_supported = True, avx512bf16_supported = True, avx2fma3_supported = True, arch_is_zen3 = False\<rparr>) 12)) = 0"
  using clamped_slot_is_empty [of 12] by (simp add: AOCL_DLP_OPERATION_TYPE_LEN_def)

lemma zen3_f32_NC:
  assumes "similar_zen6_arch c \<or> similar_zen5_arch c \<or> avx512_supported c" "arch_is_zen3 c"
  shows "dlp_gemm_get_block_size_NC_global_cntx (init_table c) (op_type_code F32F32F32OF32) = 8160"
proof -
  have "last_entry (map_of_cpu c) (table_index (op_type_code F32F32F32OF32)) zero_entry =
    (\<lparr>bs_MC = 144, bs_NC = 8160, bs_KC = 512, bs_NR = 16, bs_MR = 6\<rparr>,
     \<lparr>packa_rs = 1, packa_cs = 6, packb_rs = 16, packb_cs = 1\<rparr>)"
    unfolding table_index_op using assms by (auto simp: map_of_cpu_def table_map_defs Let_def)
  then show ?thesis
    using get_cntx_entry(1) [of c "op_type_code F32F32F32OF32"]
    by (simp add: dlp_gemm_get_global_cntx_obj_def dlp_gemm_get_block_size_NC_global_cntx_def del: op_type_code.simps)
qed

lemma f16_entry:
  "similar_zen6_arch c \<Longrightarrow> last_entry (map_of_cpu c) (table_index (op_type_code F16F16F16OF16)) zero_entry =
     (\<lparr>bs_MC = 288, bs_NC = 1024, bs_KC = 2048, bs_NR = 128, bs_MR = 6\<rparr>,
      \<lparr>packa_rs = 1, packa_cs = 12, packb_rs = 128, packb_cs = 1\<rparr>)"
  "\<not> similar_zen6_arch c \<Longrightarrow> similar_zen5_arch c \<Longrightarrow>
     last_entry (map_of_cpu c) (table_index (op_type_code F16F16F16OF16)) zero_entry =
     (\<lparr>bs_MC = 288, bs_NC = 1024, bs_KC = 2048, bs_NR = 128, bs_MR = 6\<rparr>,
      \<lparr>packa_rs = 1, packa_cs = 6, packb_rs = 128, packb_cs = 1\<rparr>)"
  unfolding table_index_op by (simp_all add: map_of_cpu_def table_map_defs Let_def)

text \<open>Two notes beside the tables do not describe them. With AVX-512 hardware configured down to
  the Zen3 kernels, the f32 column block is 8160, a multiple of 16 but not of 64, where the note
  requires a multiple of both; and the Zen6 table differs from the Zen5 one outside the 8-bit
  operations, in the stride of packed f16 A blocks.\<close>

lemma table_notes_diverge:
  "(\<forall>c. (similar_zen6_arch c \<or> similar_zen5_arch c \<or> avx512_supported c) \<and> arch_is_zen3 c \<longrightarrow>
      16 dvd dlp_gemm_get_block_size_NC_global_cntx (init_table c) (op_type_code F32F32F32OF32) \<and>
      \<not> 64 dvd dlp_gemm_get_block_size_NC_global_cntx (init_table c) (op_type_code F32F32F32OF32)) \<and>
   (\<forall>c6 c5. similar_zen6_arch c6 \<and> \<not> similar_zen6_arch c5 \<and> similar_zen5_arch c5 \<longrightarrow>
      cx_blksz (dlp_gemm_get_global_cntx_obj (init_table c6) (op_type_code F16F16F16OF16)) =
      cx_blksz (dlp_gemm_get_global_cntx_obj (init_table c5) (op_type_code F16F16F16OF16)) \<and>
      snd (dlp_gemm_get_packa_strides (dlp_gemm_get_global_cntx_obj (init_table c6) (op_type_code F16F16F16OF16))) = 12 \<and>
      snd (dlp_gemm_get_packa_strides (dlp_gemm_get_global_cntx_obj (init_table c5) (op_type_code F16F16F16OF16))) = 6)"
  unfolding dlp_gemm_get_packa_strides_def get_cntx_entry
  by (simp add: zen3_f32_NC f16_entry del: op_type_code.simps)

definition example_cpu :: "bool \<Rightarrow> bool \<Rightarrow> bool \<Rightarrow> cpu" where
  "example_cpu zen6 zen5 zen3 =
     \<lparr>similar_zen6_arch = zen6, similar_zen5_arch = zen5, avx512_supported = True, avx512vnni_supported = True,
      avx512bf16_supported = True, avx2fma3_supported = True, arch_is_zen3 = zen3\<rparr>"

lemma table_notes_diverge_witness:
  "\<not> 64 dvd dlp_gemm_get_block_size_NC_global_cntx (init_table (example_cpu False True True)) (op_type_code F32F32F32OF32)
   \<and> snd (dlp_gemm_get_packa_strides (dlp_gemm_get_global_cntx_obj (init_table (example_cpu True True False))
        (op_type_code F16F16F16OF16))) = 12"
  using conjunct1 [OF table_notes_diverge, rule_format, of "example_cpu False True True"]
    conjunct2 [OF table_notes_diverge, rule_format, of "example_cpu True True False" "example_cpu False True False"]
  by (simp add: example_cpu_def)

section \<open>Merging caller metadata\<close>

definition DLP_BLKSZ_SET_MR :: nat where "DLP_BLKSZ_SET_MR = 0"
definition DLP_BLKSZ_SET_NR :: nat where "DLP_BLKSZ_SET_NR = 1"
definition DLP_BLKSZ_SET_MC :: nat where "DLP_BLKSZ_SET_MC = 2"
definition DLP_BLKSZ_SET_NC :: nat where "DLP_BLKSZ_SET_NC = 3"
definition DLP_BLKSZ_SET_KC :: nat where "DLP_BLKSZ_SET_KC = 4"

definition dlp_gemm_blksz_provenance :: "dlp_gemm_blocking_t \<Rightarrow> md_t" where
  "dlp_gemm_blksz_provenance bp =
     (let mask = 0;
          mask = (if bp_MC bp > 0 then mask OR push_bit DLP_BLKSZ_SET_MC 1 else mask);
          mask = (if bp_NC bp > 0 then mask OR push_bit DLP_BLKSZ_SET_NC 1 else mask);
          mask = (if bp_KC bp > 0 then mask OR push_bit DLP_BLKSZ_SET_KC 1 else mask);
          mask = (if bp_MR bp > 0 then mask OR push_bit DLP_BLKSZ_SET_MR 1 else mask);
          mask = (if bp_NR bp > 0 then mask OR push_bit DLP_BLKSZ_SET_NR 1 else mask)
      in mask)"

text \<open>The parts of \<open>dlp_metadata_t\<close> the merge reads; a NULL pointer is \<open>None\<close>.\<close>

record tuning_metadata =
  md_block_params :: "dlp_gemm_blocking_t option"
  md_sup_thresholds :: "dlp_gemm_sup_threshold_t option"
  md_gemm_hints :: "dlp_gemm_hints_t option"

definition pick_pos :: "md_t \<Rightarrow> md_t \<Rightarrow> md_t" where
  "pick_pos stated cur = (if stated > 0 then stated else cur)"

definition merge_blksz :: "dlp_gemm_blocking_t \<Rightarrow> dlp_gemm_block_size_t \<Rightarrow> dlp_gemm_block_size_t" where
  "merge_blksz bp b =
     \<lparr>bs_MC = pick_pos (bp_MC bp) (bs_MC b), bs_NC = pick_pos (bp_NC bp) (bs_NC b),
      bs_KC = pick_pos (bp_KC bp) (bs_KC b), bs_NR = pick_pos (bp_NR bp) (bs_NR b),
      bs_MR = pick_pos (bp_MR bp) (bs_MR b)\<rparr>"

definition round_blksz :: "dlp_gemm_blocking_t \<Rightarrow> dlp_gemm_block_size_t \<Rightarrow> dlp_gemm_block_size_t" where
  "round_blksz bp b =
     (let b = (if bp_MC bp \<le> 0 then b\<lparr>bs_MC := ceil_blks (bs_MC b) (bs_MR b) * bs_MR b\<rparr> else b)
      in if bp_NC bp \<le> 0 then b\<lparr>bs_NC := ceil_blks (bs_NC b) (bs_NR b) * bs_NR b\<rparr> else b)"

definition merge_sup_thres :: "dlp_gemm_sup_threshold_t \<Rightarrow> dlp_gemm_sup_thres_t \<Rightarrow> dlp_gemm_sup_thres_t" where
  "merge_sup_thres sp st =
     \<lparr>st_MT = (if sp_MT sp \<ge> 0 then sp_MT sp else st_MT st),
      st_NT = (if sp_NT sp \<ge> 0 then sp_NT sp else st_NT st),
      st_KT = (if sp_KT sp \<ge> 0 then sp_KT sp else st_KT st)\<rparr>"

text \<open>The context comes back in every case, as far as it was written when the error was met.\<close>

definition dlp_gemm_upd_cntx_with_metadata ::
  "dlp_gemm_cntx_t option \<Rightarrow> tuning_metadata option \<Rightarrow> dlp_clsc_err_t \<times> dlp_gemm_cntx_t option" where
  "dlp_gemm_upd_cntx_with_metadata lcntx metadata =
     (case lcntx of
        None \<Rightarrow> (DLP_CLSC_NULL_POINTER, None)
      | Some c \<Rightarrow>
          (case metadata of
             None \<Rightarrow> (DLP_CLSC_SUCCESS, Some c)
           | Some md \<Rightarrow>
               let rest = (\<lambda>c.
                     let c = (case md_sup_thresholds md of None \<Rightarrow> c
                              | Some sp \<Rightarrow> c\<lparr>cx_sup_thres := merge_sup_thres sp (cx_sup_thres c)\<rparr>);
                         c = (case md_gemm_hints md of None \<Rightarrow> c
                              | Some h \<Rightarrow> c\<lparr>cx_gemm_kernel_hints := \<lparr>kh_m_hint = gh_m_hint h, kh_nt_hint = gh_nt_hint h\<rparr>\<rparr>)
                     in (DLP_CLSC_SUCCESS, Some c))
               in (case md_block_params md of
                     None \<Rightarrow> rest c
                   | Some bp \<Rightarrow>
                       let b = merge_blksz bp (cx_blksz c)
                       in if bs_MC b \<le> 0 \<or> bs_NC b \<le> 0 \<or> bs_KC b \<le> 0 \<or> bs_MR b \<le> 0 \<or> bs_NR b \<le> 0
                          then (DLP_CLSC_INVALID_BLOCK_PARAMS, Some (c\<lparr>cx_blksz := b\<rparr>))
                          else rest (c\<lparr>cx_blksz := round_blksz bp b, cx_blksz_set_mask := dlp_gemm_blksz_provenance bp\<rparr>))))"

section \<open>Checks after the merge\<close>

definition dlp_gemm_effective_thread_count :: "md_t \<Rightarrow> md_t \<Rightarrow> md_t \<Rightarrow> md_t" where
  "dlp_gemm_effective_thread_count num_threads ic_ways jc_ways =
     (if ic_ways > 0 \<or> jc_ways > 0
      then (if ic_ways > 0 then ic_ways else 1) * (if jc_ways > 0 then jc_ways else 1)
      else num_threads)"

definition dlp_gemm_validate_hints :: "dlp_gemm_cntx_t option \<Rightarrow> dlp_clsc_err_t" where
  "dlp_gemm_validate_hints lcntx =
     (case lcntx of None \<Rightarrow> DLP_CLSC_NULL_POINTER
      | Some c \<Rightarrow>
          if kh_m_hint (cx_gemm_kernel_hints c) < 0 \<or> kh_nt_hint (cx_gemm_kernel_hints c) < 0
          then DLP_CLSC_INVALID_GEMM_HINTS else DLP_CLSC_SUCCESS)"

definition dlp_gemm_validate_hints_with_call ::
  "dlp_gemm_cntx_t option \<Rightarrow> AOCL_DLP_MEMORY_TAG \<Rightarrow> md_t \<Rightarrow> md_t \<Rightarrow> md_t \<Rightarrow> dlp_clsc_err_t" where
  "dlp_gemm_validate_hints_with_call lcntx mtag_b num_threads ic_ways jc_ways =
     (let err = dlp_gemm_validate_hints lcntx in
      if err \<noteq> DLP_CLSC_SUCCESS then err
      else if mtag_b \<noteq> REORDERED then DLP_CLSC_SUCCESS
      else (case lcntx of None \<Rightarrow> DLP_CLSC_SUCCESS
            | Some c \<Rightarrow>
                let m_hint = kh_m_hint (cx_gemm_kernel_hints c);
                    nt_hint = kh_nt_hint (cx_gemm_kernel_hints c)
                in if m_hint = 0 \<or> nt_hint = 0 then DLP_CLSC_SUCCESS
                   else if nt_hint \<noteq> dlp_gemm_effective_thread_count num_threads ic_ways jc_ways
                   then DLP_CLSC_HINT_MISMATCH else DLP_CLSC_SUCCESS))"

definition validate_block_params :: "dlp_gemm_blocking_t \<Rightarrow> dlp_gemm_block_size_t \<Rightarrow> bool" where
  "validate_block_params bp b \<longleftrightarrow>
     (bp_MR bp > 0 \<longrightarrow> bs_MR b = bp_MR bp) \<and> (bp_NR bp > 0 \<longrightarrow> bs_NR b = bp_NR bp) \<and>
     (bp_MC bp > 0 \<longrightarrow> bs_MC b = bp_MC bp) \<and> (bp_KC bp > 0 \<longrightarrow> bs_KC b = bp_KC bp) \<and>
     (bp_NC bp > 0 \<longrightarrow> bs_NC b = bp_NC bp) \<and>
     bs_MC b smod bs_MR b = 0 \<and> bs_NC b smod bs_NR b = 0"

definition validate_sup_thresholds :: "dlp_gemm_sup_threshold_t \<Rightarrow> dlp_gemm_sup_thres_t \<Rightarrow> bool" where
  "validate_sup_thresholds sp st \<longleftrightarrow>
     (sp_MT sp \<ge> 0 \<longrightarrow> st_MT st = sp_MT sp) \<and> (sp_NT sp \<ge> 0 \<longrightarrow> st_NT st = sp_NT sp) \<and>
     (sp_KT sp \<ge> 0 \<longrightarrow> st_KT st = sp_KT sp)"

definition dlp_gemm_validate_metadata_with_lcntx ::
  "tuning_metadata option \<Rightarrow> dlp_gemm_cntx_t option \<Rightarrow> dlp_clsc_err_t" where
  "dlp_gemm_validate_metadata_with_lcntx metadata lcntx =
     (case metadata of None \<Rightarrow> DLP_CLSC_SUCCESS
      | Some md \<Rightarrow>
          (case lcntx of None \<Rightarrow> DLP_CLSC_NULL_POINTER
           | Some c \<Rightarrow>
               if (case md_block_params md of None \<Rightarrow> True | Some bp \<Rightarrow> validate_block_params bp (cx_blksz c)) \<and>
                  (case md_sup_thresholds md of None \<Rightarrow> True | Some sp \<Rightarrow> validate_sup_thresholds sp (cx_sup_thres c))
               then DLP_CLSC_SUCCESS else DLP_CLSC_INVALID_BLOCK_PARAMS))"

section \<open>What the merge guarantees\<close>

lemma merge_blksz_ok: "blksz_ok b \<Longrightarrow> blksz_ok (merge_blksz bp b)"
  by (auto simp: blksz_ok_def merge_blksz_def pick_pos_def)

lemma ceil_mult_pos: "0 < a \<Longrightarrow> 0 < b \<Longrightarrow> 0 < ceil_blks a b * b"
  using ceil_blks_covers [of a b] by simp

lemma round_blksz_ok: "blksz_ok b \<Longrightarrow> blksz_ok (round_blksz bp b)"
  by (auto simp: blksz_ok_def round_blksz_def Let_def ceil_mult_pos)

lemma smod_ceil: "0 < a \<Longrightarrow> 0 < b \<Longrightarrow> (ceil_blks a b * b) smod b = 0"
  using ceil_blks_ge_1 [of a b] by (simp add: smod_0_iff_dvd ceil_mult_pos)

lemma merged_block_params:
  assumes "blksz_ok b"
  shows "validate_block_params bp (round_blksz bp (merge_blksz bp b)) \<longleftrightarrow>
     (bp_MC bp > 0 \<longrightarrow> bp_MC bp smod pick_pos (bp_MR bp) (bs_MR b) = 0) \<and>
     (bp_NC bp > 0 \<longrightarrow> bp_NC bp smod pick_pos (bp_NR bp) (bs_NR b) = 0)"
proof -
  let ?b = "merge_blksz bp b"
  have ok: "0 < bs_MC ?b" "0 < bs_NC ?b" "0 < bs_MR ?b" "0 < bs_NR ?b"
    using merge_blksz_ok [OF assms, of bp] by (auto simp: blksz_ok_def)
  have MC: "bs_MC (round_blksz bp ?b) = (if bp_MC bp \<le> 0 then ceil_blks (bs_MC ?b) (bs_MR ?b) * bs_MR ?b else bp_MC bp)"
    and NC: "bs_NC (round_blksz bp ?b) = (if bp_NC bp \<le> 0 then ceil_blks (bs_NC ?b) (bs_NR ?b) * bs_NR ?b else bp_NC bp)"
    and rest: "bs_MR (round_blksz bp ?b) = pick_pos (bp_MR bp) (bs_MR b)" "bs_NR (round_blksz bp ?b) = pick_pos (bp_NR bp) (bs_NR b)"
      "bs_KC (round_blksz bp ?b) = pick_pos (bp_KC bp) (bs_KC b)"
    by (simp_all add: round_blksz_def merge_blksz_def Let_def pick_pos_def)
  have MR: "bs_MR ?b = pick_pos (bp_MR bp) (bs_MR b)" and NR: "bs_NR ?b = pick_pos (bp_NR bp) (bs_NR b)"
    by (simp_all add: merge_blksz_def)
  show ?thesis
    using smod_ceil [OF ok(1,3)] smod_ceil [OF ok(2,4)] unfolding MR NR
    by (auto simp: validate_block_params_def MC NC rest MR NR) (auto simp: pick_pos_def)
qed


definition example_metadata :: tuning_metadata where
  "example_metadata = \<lparr>md_block_params = Some \<lparr>bp_MR = 0, bp_NR = 48, bp_MC = 150, bp_NC = 0, bp_KC = 0\<rparr>,
     md_sup_thresholds = None, md_gemm_hints = None\<rparr>"

lemma example_merge:
  "\<exists>c'. dlp_gemm_upd_cntx_with_metadata (Some (example_cntx 144 1024 4096 6 64)) (Some example_metadata)
     = (DLP_CLSC_SUCCESS, Some c')"
  by (simp add: dlp_gemm_upd_cntx_with_metadata_def example_metadata_def example_cntx_def merge_blksz_def pick_pos_def Let_def)


text \<open>The provenance mask records exactly which block sizes the caller stated: each of the five
  bits is set if and only if the metadata has a positive value for that dimension, and no other bit
  is ever set.\<close>

lemma provenance_exact:
  "bit (dlp_gemm_blksz_provenance bp) j \<longleftrightarrow>
     (j = DLP_BLKSZ_SET_MR \<and> bp_MR bp > 0) \<or> (j = DLP_BLKSZ_SET_NR \<and> bp_NR bp > 0) \<or>
     (j = DLP_BLKSZ_SET_MC \<and> bp_MC bp > 0) \<or> (j = DLP_BLKSZ_SET_NC \<and> bp_NC bp > 0) \<or>
     (j = DLP_BLKSZ_SET_KC \<and> bp_KC bp > 0)"
proof -
  have one: "bit (2 ^ k :: int) j \<longleftrightarrow> j = k" for k by (auto simp: bit_exp_iff)
  show ?thesis
    by (simp add: dlp_gemm_blksz_provenance_def Let_def bit_or_iff one) blast
qed

end
