(* ===== verification/Gemm_Utils.thy ===== *)
theory Gemm_Utils
  imports Dlp_Types
begin

unbundle bit_operations_syntax

text \<open>
  Helpers of \<^verbatim>\<open>classic/include/gemm_utils/dlp_gemm_utils.h\<close> (character arguments, rounding, the
  geometry of a reordered B, column sums) and the page-aligned allocator of
  \<^verbatim>\<open>classic/frame/sys_utils/dlp_gemm_sys.c\<close>.

  Addresses and sizes of the allocator are 64-bit words, so that \<open>size += align_size + ptr_size\<close>
  wraps as it does in C. Its store maps the address of a pointer cell to the word in it.
\<close>

section \<open>Character arguments\<close>

definition dlp_param_map_char_to_lpmtag :: "char \<Rightarrow> AOCL_DLP_MEMORY_TAG" where
  "dlp_param_map_char_to_lpmtag mtag =
     (if mtag = CHR ''n'' \<or> mtag = CHR ''N'' then UNPACKED
      else if mtag = CHR ''p'' \<or> mtag = CHR ''P'' then PACK
      else if mtag = CHR ''r'' \<or> mtag = CHR ''R'' then REORDERED
      else UNPACKED)"

definition dlp_param_map_char_to_lpmat_type :: "char \<Rightarrow> AOCL_DLP_MATRIX_TYPE" where
  "dlp_param_map_char_to_lpmat_type mtag =
     (if mtag = CHR ''a'' \<or> mtag = CHR ''A'' then A_MATRIX
      else if mtag = CHR ''b'' \<or> mtag = CHR ''B'' then B_MATRIX
      else if mtag = CHR ''w'' \<or> mtag = CHR ''W'' then AWQ_B_MATRIX
      else B_MATRIX)"

definition dlp_param_map_netlib_to_dlp_trans :: "char \<Rightarrow> dlp_trans_t" where
  "dlp_param_map_netlib_to_dlp_trans tr =
     (if tr = CHR ''n'' \<or> tr = CHR ''N'' then DLP_NO_TRANSPOSE
      else if tr = CHR ''t'' \<or> tr = CHR ''T'' then DLP_TRANSPOSE
      else if tr = CHR ''c'' \<or> tr = CHR ''C'' then DLP_CONJ_TRANSPOSE
      else if tr = CHR ''p'' \<or> tr = CHR ''P'' then DLP_PACKED
      else DLP_NO_TRANSPOSE)"

definition dlp_is_notrans :: "dlp_trans_t \<Rightarrow> bool" where
  "dlp_is_notrans tr \<longleftrightarrow> tr = DLP_NO_TRANSPOSE"

definition dlp_is_trans :: "dlp_trans_t \<Rightarrow> bool" where
  "dlp_is_trans tr \<longleftrightarrow> tr = DLP_TRANSPOSE"

definition dlp_reorder_plain_strides :: "char \<Rightarrow> dlp_trans_t \<Rightarrow> md_t \<Rightarrow> md_t \<times> md_t" where
  "dlp_reorder_plain_strides order tr ldb =
     (if order = CHR ''r'' \<or> order = CHR ''R''
      then (if dlp_is_notrans tr then ldb else 1, if dlp_is_notrans tr then 1 else ldb)
      else (if dlp_is_notrans tr then 1 else ldb, if dlp_is_notrans tr then ldb else 1))"

definition dlp_is_single_thread :: "dlp_rntm_t \<Rightarrow> bool" where
  "dlp_is_single_thread rntm_g \<longleftrightarrow>
     rn_num_threads rntm_g = 1 \<or>
     (rn_ic_ways rntm_g > 0 \<and> rn_jc_ways rntm_g > 0 \<and> rn_ic_ways rntm_g * rn_jc_ways rntm_g = 1)"

section \<open>Rounding\<close>

definition dlp_make_multiple_of_n :: "md_t \<Rightarrow> md_t \<Rightarrow> md_t" where
  "dlp_make_multiple_of_n k n = (if n \<le> 0 then 0 else ((k + n - 1) sdiv n) * n)"

definition dlp_gemm_col_sum_byte_offset :: "md_t \<Rightarrow> md_t" where
  "dlp_gemm_col_sum_byte_offset k = dlp_make_multiple_of_n (k * 1) 4"

definition dlp_gemm_align_kc_to_group :: "md_t \<Rightarrow> md_t \<Rightarrow> md_t" where
  "dlp_gemm_align_kc_to_group kc group_size =
     (if group_size > kc then group_size
      else if kc smod group_size \<noteq> 0 then (kc sdiv group_size) * group_size
      else kc)"

definition dlp_gemm_sym_quant_sum_vectors :: "md_t \<Rightarrow> md_t \<Rightarrow> md_t \<Rightarrow> md_t" where
  "dlp_gemm_sym_quant_sum_vectors kc group_size k =
     (let gs = (if group_size = 0 \<or> group_size > k then k else group_size)
      in if k > 0 \<and> gs = k then (k + kc - 1) sdiv kc else (k + gs - 1) sdiv gs)"

section \<open>The geometry of a reordered B\<close>

definition dlp_gemm_get_Bpanel_width_for_kmd_traversal :: "md_t \<Rightarrow> md_t \<Rightarrow> md_t \<Rightarrow> md_t \<Rightarrow> md_t" where
  "dlp_gemm_get_Bpanel_width_for_kmd_traversal jc n NC NR =
     (let n_mod_NR = n smod NR;
          n_last_loop = (n sdiv NC) * NC
      in if n smod NC \<noteq> 0 \<and> jc \<ge> n_last_loop
         then (n - n_last_loop) + (if n_mod_NR \<noteq> 0 then NR - n_mod_NR else 0)
         else NC)"

text \<open>The results are \<open>panel_start\<close>, \<open>panel_offset\<close>, the new \<open>panel_width\<close> and
  \<open>panel_width_kmd_trav\<close>.\<close>

definition dlp_gemm_get_B_panel_reordered_start_offset_width ::
  "md_t \<Rightarrow> md_t \<Rightarrow> md_t \<Rightarrow> md_t \<Rightarrow> md_t \<Rightarrow> md_t \<times> md_t \<times> md_t \<times> md_t" where
  "dlp_gemm_get_B_panel_reordered_start_offset_width jc n NC NR panel_width =
     (let panel_start = (jc sdiv NC) * NC;
          panel_offset = jc - panel_start;
          panel_width' = (if jc + panel_width > panel_start + NC then NC - panel_offset else panel_width)
      in (panel_start, panel_offset, panel_width', dlp_gemm_get_Bpanel_width_for_kmd_traversal jc n NC NR))"

definition dlp_gemm_adjust_B_panel_reordered_jc :: "md_t \<Rightarrow> md_t \<Rightarrow> md_t" where
  "dlp_gemm_adjust_B_panel_reordered_jc jc panel_start = panel_start"

definition dlp_offset_or_null :: "md_t option \<Rightarrow> md_t \<Rightarrow> md_t option" where
  "dlp_offset_or_null base offset = (case base of None \<Rightarrow> None | Some b \<Rightarrow> Some (b + offset))"

lemma make_multiple_bounds:
  "0 \<le> k \<Longrightarrow> 0 < n \<Longrightarrow> k \<le> dlp_make_multiple_of_n k n \<and> dlp_make_multiple_of_n k n < k + n \<and> n dvd dlp_make_multiple_of_n k n"
  using ceil_blks_covers [of k n] ceil_blks_tight [of k n] by (simp add: dlp_make_multiple_of_n_def)

lemma make_multiple_id: "0 \<le> k \<Longrightarrow> 0 < n \<Longrightarrow> n dvd k \<Longrightarrow> dlp_make_multiple_of_n k n = k"
  using ceil_blks_multiple [of "k div n" n] by (auto simp: dlp_make_multiple_of_n_def pos_imp_zdiv_nonneg_iff)

lemma make_multiple_mono:
  "0 \<le> k \<Longrightarrow> k \<le> k' \<Longrightarrow> 0 < n \<Longrightarrow> dlp_make_multiple_of_n k n \<le> dlp_make_multiple_of_n k' n"
  using ceil_blks_mono [of k k' n] by (simp add: dlp_make_multiple_of_n_def mult_right_mono)

lemma make_multiple_eq:
  assumes "0 \<le> k" "0 < n"
  shows "dlp_make_multiple_of_n k n = k + (if k mod n \<noteq> 0 then n - k mod n else 0)"
proof -
  define q where "q = k div n"
  define r where "r = k mod n"
  have k: "k = q * n + r" "0 \<le> r" "r < n" using assms by (simp_all add: q_def r_def)
  have "ceil_blks k n = (k + n - 1) div n" using assms by (simp add: cdiv_simps)
  also have "\<dots> = q + (if r \<noteq> 0 then 1 else 0)"
    using k assms(2) by (intro div_eq_in_block) (auto simp: algebra_simps)
  finally show ?thesis using k assms(2) by (simp add: dlp_make_multiple_of_n_def r_def [symmetric] algebra_simps)
qed

text \<open>With \<open>NR\<close> dividing \<open>NC\<close>, the traversal width is the rest of the matrix from the panel's start, at
  most \<open>NC\<close>, rounded up to \<open>NR\<close>.\<close>

lemma Bpanel_width_eq:
  assumes "0 \<le> jc" "jc < n" "0 < NC" "0 < NR" "NR dvd NC"
  shows "dlp_gemm_get_Bpanel_width_for_kmd_traversal jc n NC NR =
     dlp_make_multiple_of_n (dlp_min NC (n - jc div NC * NC)) NR"
proof -
  define q where "q = n div NC"
  define r where "r = n mod NC"
  have n: "n = q * NC + r" "0 \<le> r" "r < NC" using assms by (simp_all add: q_def r_def)
  have q0: "0 \<le> q" using assms by (simp add: q_def pos_imp_zdiv_nonneg_iff)
  have C: "n sdiv NC = q" "n smod NC = r" "n smod NR = n mod NR" using assms by (simp_all add: cdiv_simps q_def r_def)
  have rmod: "n mod NR = r mod NR" using assms(5) n(1) by (simp add: mod_add_left_eq dvd_imp_mod_0 mult.commute flip: mod_add_eq)
  have diff: "n - q * NC = r" using n by simp
  have up: "dlp_make_multiple_of_n r NR = r + (if r mod NR \<noteq> 0 then NR - r mod NR else 0)"
    by (rule make_multiple_eq) (use n assms in simp_all)
  have NCm: "dlp_make_multiple_of_n NC NR = NC" using assms by (intro make_multiple_id) simp_all
  show ?thesis
  proof (cases "r \<noteq> 0 \<and> q * NC \<le> jc")
    case True
    have "jc div NC = q" using True n assms by (intro div_eq_in_block) (simp_all add: algebra_simps)
    then have "dlp_min NC (n - jc div NC * NC) = r" using n by (simp add: dlp_min_def)
    then show ?thesis
      unfolding dlp_gemm_get_Bpanel_width_for_kmd_traversal_def C Let_def using True up rmod diff by simp
  next
    case False
    have "jc div NC * NC + NC \<le> n"
    proof (cases "r = 0")
      case True
      then have "jc < q * NC" using n assms by simp
      then have "jc div NC < q" using assms(3) by (intro div_less_blocks)
      then have "(jc div NC + 1) * NC \<le> q * NC" using assms by (intro mult_right_mono) simp_all
      then show ?thesis using n True by (simp add: algebra_simps)
    next
      case r: False
      then have "jc < q * NC" using False by simp
      then have "jc div NC < q" using assms(3) by (intro div_less_blocks)
      then have "(jc div NC + 1) * NC \<le> q * NC" using assms by (intro mult_right_mono) simp_all
      then show ?thesis using n by (simp add: algebra_simps)
    qed
    then have "dlp_min NC (n - jc div NC * NC) = NC" by (simp add: dlp_min_def)
    then show ?thesis
      using False NCm by (auto simp: dlp_gemm_get_Bpanel_width_for_kmd_traversal_def C Let_def)
  qed
qed

section \<open>Page-aligned memory\<close>

definition dlp_get_page_size :: msz_t where "dlp_get_page_size = 4096"

definition ptr_size :: msz_t where "ptr_size = 8"

text \<open>\<open>malloc\<close> is the allocator of the C library, 0 its NULL; the code aborts when it fails, which is
  \<open>None\<close>. The result is the pointer returned and the store after the write of the header cell.\<close>

definition dlp_malloc_page_aligned ::
  "(msz_t \<Rightarrow> msz_t) \<Rightarrow> msz_t \<Rightarrow> (msz_t \<Rightarrow> msz_t) \<Rightarrow> (msz_t \<times> (msz_t \<Rightarrow> msz_t)) option" where
  "dlp_malloc_page_aligned malloc sz store =
     (if sz = 0 then Some (0, store)
      else
        let p_orig = malloc (sz + (dlp_get_page_size + ptr_size))
        in if p_orig = 0 then None
           else
             let p_byte = p_orig + ptr_size;
                 mod_align_size = p_byte mod dlp_get_page_size;
                 align_offset = (if mod_align_size \<noteq> 0 then dlp_get_page_size - mod_align_size else 0);
                 p_byte = p_byte + align_offset
             in Some (p_byte, store(p_byte - ptr_size := p_orig)))"

text \<open>The pointer handed to \<open>free\<close>, if any.\<close>

definition dlp_free_page_aligned :: "msz_t \<Rightarrow> (msz_t \<Rightarrow> msz_t) \<Rightarrow> msz_t option" where
  "dlp_free_page_aligned p store = (if p = 0 then None else Some (store (p - ptr_size)))"

lemma page_align_nat:
  fixes b P :: nat
  assumes "0 < P" "off = (if b mod P \<noteq> 0 then P - b mod P else 0)"
  shows "(b + off) mod P = 0" "off < P"
proof -
  have r: "b mod P < P" using assms(1) by simp
  have "b mod P + (P - b mod P) = P" using r by simp
  then have "(b + (P - b mod P)) mod P = 0" by (metis mod_add_left_eq mod_self)
  then show "(b + off) mod P = 0" by (simp add: assms(2))
  show "off < P" using r by (auto simp: assms(2))
qed

text \<open>C30: Memory handed out by the page-aligned allocator is on a page boundary, and both the bytes asked
  for and the header cell in front of them lie inside the block the C library returned; releasing it
  passes that very block back. The request must leave room for a page and a pointer in 64 bits, and the
  C library's block must not wrap around the address space.\<close>

theorem page_aligned_block_sound:
  assumes "sz \<noteq> 0" "unat sz + 4104 < 2 ^ 64" and "malloc (sz + 4104) = block" "block \<noteq> 0"
    and "unat block + unat sz + 4104 < 2 ^ 64"
  shows "\<exists>p store'. dlp_malloc_page_aligned malloc sz store = Some (p, store')
    \<and> unat p mod 4096 = 0 \<and> unat block \<le> unat p - 8 \<and> 8 \<le> unat p
    \<and> unat p + unat sz \<le> unat block + unat (sz + 4104)
    \<and> dlp_free_page_aligned p store' = Some block"
proof -
  define b where "b = block + 8"
  define off where "off = (if b mod 4096 \<noteq> 0 then 4096 - b mod 4096 else 0)"
  have ub: "unat b = unat block + 8"
    using assms(5) unat_add_lem [of block 8] by (simp add: b_def)
  have um: "unat (b mod 4096) = unat b mod 4096" by (simp add: unat_mod)
  have uoff: "unat off = (if unat b mod 4096 \<noteq> 0 then 4096 - unat b mod 4096 else 0)"
  proof (cases "b mod 4096 = 0")
    case True
    then show ?thesis using um by (simp add: off_def)
  next
    case False
    then have "unat b mod 4096 \<noteq> 0" using um by (simp add: unat_eq_0 flip: um)
    moreover have "b mod 4096 \<le> 4096" using um by (simp add: word_le_nat_alt)
    ultimately show ?thesis using False um by (simp add: off_def unat_sub)
  qed
  note al = page_align_nat [OF _ uoff, simplified]
  have up: "unat (b + off) = unat b + unat off"
    using unat_add_lem [of b off] ub uoff al(2) assms(5) by simp
  have us: "unat (sz + 4104) = unat sz + 4104" using unat_add_lem [of sz 4104] assms(2) by simp
  have nz: "b + off \<noteq> 0" using up ub by (metis add_is_0 unat_0 zero_neq_numeral)
  have "dlp_malloc_page_aligned malloc sz store = Some (b + off, store(b + off - 8 := block))"
    using assms(1,3,4) by (simp add: dlp_malloc_page_aligned_def dlp_get_page_size_def ptr_size_def b_def off_def Let_def)
  moreover have "dlp_free_page_aligned (b + off) (store(b + off - 8 := block)) = Some block"
    using nz by (simp add: dlp_free_page_aligned_def ptr_size_def)
  moreover have "unat (b + off) mod 4096 = 0" using al(1) by (simp add: up)
  ultimately show ?thesis using up ub us uoff al(2) by auto
qed

theorem page_aligned_block_sound_witness:
  "\<exists>p store'. dlp_malloc_page_aligned (\<lambda>_. 100000) 5000 (\<lambda>_. 0) = Some (p, store')
    \<and> unat p mod 4096 = 0 \<and> dlp_free_page_aligned p store' = Some 100000"
  using page_aligned_block_sound [of 5000 "\<lambda>_. 100000" 100000 "\<lambda>_. 0"] by auto

section \<open>Loading and summing 8-bit operands\<close>

definition dlp_load_unaligned_int32 :: "8 word list \<Rightarrow> nat \<Rightarrow> int32_t option" where
  "dlp_load_unaligned_int32 src i =
     (if i + 3 < length src
      then Some (ucast (src ! i) OR push_bit 8 (ucast (src ! (i + 1))) OR push_bit 16 (ucast (src ! (i + 2)))
             OR push_bit 24 (ucast (src ! (i + 3))))
      else None)"

text \<open>The column sums behind a packed int8 panel, as the list of \<open>n_updated\<close> 32-bit sums written; \<open>b\<close>
  reads the source matrix at an element offset.\<close>

definition col_sum_acc :: "(md_t \<Rightarrow> 8 word) \<Rightarrow> md_t \<Rightarrow> md_t \<Rightarrow> md_t \<Rightarrow> md_t \<Rightarrow> int32_t" where
  "col_sum_acc b k rs_b cs_b j = fold (\<lambda>i acc. acc + scast (b (int i * rs_b + j * cs_b))) [0..<nat k] 0"

definition dlp_reorder_s8_write_col_sums :: "(md_t \<Rightarrow> 8 word) \<Rightarrow> md_t \<Rightarrow> md_t \<Rightarrow> md_t \<Rightarrow> md_t \<Rightarrow> int32_t list" where
  "dlp_reorder_s8_write_col_sums b k n rs_b cs_b =
     (let n_updated = dlp_make_multiple_of_n n 16;
          sums = replicate (nat n_updated) 0
      in fold (\<lambda>j sums. sums[j := col_sum_acc b k rs_b cs_b (int j) * 128]) [0..<nat n] sums)"

lemma fold_sum_word: "fold (\<lambda>i acc. acc + f i) xs a = a + sum_list (map f xs)" for f :: "nat \<Rightarrow> int32_t"
  by (induction xs arbitrary: a) (simp_all add: add.assoc)

lemma fold_update_prefix:
  "k \<le> length xs \<Longrightarrow> fold (\<lambda>j xs. xs[j := f j]) [0..<k] xs = map f [0..<k] @ drop k xs"
proof (induction k)
  case (Suc k)
  then have "(map f [0..<k] @ drop k xs)[k := f k] = map f [0..<k] @ (drop k xs)[0 := f k]"
    by (simp add: list_update_append)
  moreover have "drop k xs = xs ! k # drop (Suc k) xs" using Suc.prems by (simp add: Cons_nth_drop_Suc)
  ultimately show ?case using Suc by simp
qed simp

text \<open>C31: The column sums written behind a reordered int8 matrix are, for each of its \<open>n\<close> columns, 128
  times the sum of the column's signed entries, and 0 in the padding up to a multiple of 16, in 32-bit
  arithmetic.\<close>

theorem s8_col_sums_exact:
  assumes "0 \<le> n" "j < nat (dlp_make_multiple_of_n n 16)"
  shows "length (dlp_reorder_s8_write_col_sums b k n rs_b cs_b) = nat (dlp_make_multiple_of_n n 16) \<and>
    dlp_reorder_s8_write_col_sums b k n rs_b cs_b ! j =
      (if int j < n then 128 * (\<Sum>i \<leftarrow> [0..<nat k]. scast (b (int i * rs_b + int j * cs_b))) else 0)"
proof -
  let ?m = "nat (dlp_make_multiple_of_n n 16)"
  have le: "nat n \<le> ?m" using make_multiple_bounds [of n 16] assms(1) by auto
  have eq: "dlp_reorder_s8_write_col_sums b k n rs_b cs_b =
      map (\<lambda>j. col_sum_acc b k rs_b cs_b (int j) * 128) [0..<nat n] @ drop (nat n) (replicate ?m 0)"
    unfolding dlp_reorder_s8_write_col_sums_def Let_def using le by (intro fold_update_prefix) simp
  show ?thesis
    using le assms by (auto simp: eq nth_append col_sum_acc_def fold_sum_word mult.commute)
qed

theorem s8_col_sums_exact_witness:
  "dlp_reorder_s8_write_col_sums (\<lambda>_. 255) 3 2 2 1 ! 1 = 128 * (\<Sum>i \<leftarrow> [0..<3]. scast (255 :: 8 word))"
  using s8_col_sums_exact [of 2 1 "\<lambda>_. 255" 3 2 1] by (simp add: dlp_make_multiple_of_n_def)

end
