(* ===== verification/Thread_Decor.thy ===== *)
theory Thread_Decor
  imports Barrier Config Post_Ops Gemm_Utils
begin

text \<open>
  The thread decorators of \<^verbatim>\<open>classic/frame/threading/dlp_gemm_thread_decor_openmp.c\<close>: from a
  problem and its context to the calls each thread makes of the GEMM driver.

  The macros that generate one decorator per data type are one definition each here, with the
  suffix of the threading function and the MC-logic operation as arguments. A parallel region is
  the list of the calls its threads make, at the place of the OpenMP thread number; OpenMP is taken
  to start the number of threads asked for. Page size, CPU, affinity and the success of \<open>malloc\<close>
  are the record \<open>decor_env\<close>. \<open>None\<close> is an access outside an array.
\<close>

section \<open>Inputs and outputs\<close>

record dlp_gemm_thread_attrs_t =
  openmp_enabled :: bool
  tid_distr_nearly_seq :: bool
  tid_core_grp_load_high :: bool

record decor_env =
  de_page_size :: md_t
  de_avx512 :: bool
  de_attrs :: dlp_gemm_thread_attrs_t
  de_table :: cntx_table
  de_malloc_ok :: bool

record rowvar_call =
  rc_gemm :: md_t
  rc_thread :: dlp_gemm_thrinfo_t
  rc_comm :: md_t
  rc_mtag_a :: AOCL_DLP_MEMORY_TAG
  rc_mtag_b :: AOCL_DLP_MEMORY_TAG
  rc_rntm :: dlp_rntm_t

definition DLP_NUM_STATIC_COMMS :: md_t where "DLP_NUM_STATIC_COMMS = 96"

section \<open>Packing decisions\<close>

definition dlp_mtag_b_pick ::
  "decor_env \<Rightarrow> md_t \<Rightarrow> md_t \<Rightarrow> md_t \<Rightarrow> md_t \<Rightarrow> md_t \<Rightarrow> AOCL_DLP_OPERATION_TYPE \<Rightarrow> dlp_gemm_post_op list option \<Rightarrow>
   AOCL_DLP_MEMORY_TAG option" where
  "dlp_mtag_b_pick env m n k ic_ways jc_ways mc_op_type post_op_list =
     (let MC = dlp_gemm_get_block_size_MC_global_cntx (de_table env) (op_type_code mc_op_type);
          m_ic = m sdiv ic_ways;
          n_jc = n sdiv jc_ways;
          m_ic_panels = 4; n_jc_min = 1024; n_jc_max_mul = 10; k_shallow = 8;
          mtag = (if m_ic < MC then UNPACKED
                  else if m_ic \<le> m_ic_panels * MC \<and> n_jc \<ge> n_jc_min \<and> n_jc \<le> n_jc_max_mul * n_jc_min \<and> k \<le> k_shallow
                  then UNPACKED else PACK_KC)
      in if mtag = UNPACKED
         then map_option (\<lambda>jit_only. if jit_only then PACK_KC else mtag)
                (case post_op_list of None \<Rightarrow> Some False
                 | Some nodes \<Rightarrow> dlp_gemm_post_op_list_has_jit_only_op nodes (Some 0))
         else Some mtag)"

definition dlp_gemm_f32f32f32of32_reconcile_packab ::
  "decor_env \<Rightarrow> md_t \<Rightarrow> md_t \<Rightarrow> md_t \<Rightarrow> md_t \<Rightarrow> md_t \<Rightarrow> AOCL_DLP_MEMORY_TAG \<Rightarrow> AOCL_DLP_MEMORY_TAG \<Rightarrow> dlp_rntm_t \<Rightarrow>
   dlp_gemm_cntx_t \<Rightarrow> AOCL_DLP_MEMORY_TAG \<times> AOCL_DLP_MEMORY_TAG \<times> dlp_rntm_t" where
  "dlp_gemm_f32f32f32of32_reconcile_packab env m n k ic_ways jc_ways mtag_a mtag_b rntm_g lcntx =
     (let rntm_g = f32_enable_packing (de_page_size env) (de_avx512 env) m n k ic_ways jc_ways rntm_g lcntx;
          MR = bs_MR (cx_blksz lcntx);
          MR_og_f32 = dlp_gemm_get_block_size_MR_global_cntx (de_table env) (op_type_code F32F32F32OF32);
          rntm_g = (if MR \<noteq> MR_og_f32 then rntm_g\<lparr>rn_pack_a := False\<rparr> else rntm_g);
          mtag_a = (if rn_pack_a rntm_g \<and> mtag_a = UNPACKED then PACK
                    else if \<not> rn_pack_a rntm_g \<and> mtag_a \<noteq> UNPACKED \<and> mtag_a \<noteq> REORDERED then UNPACKED
                    else mtag_a);
          mtag_b = (if rn_pack_b rntm_g \<and> mtag_b = UNPACKED then PACK else mtag_b)
      in (mtag_a, mtag_b, rntm_g))"

text \<open>\<open>DLP_GEN_RECONCILE_PACKAB\<close> makes the function a no-op for every other type.\<close>

definition reconcile_packab ::
  "threading_sfx \<Rightarrow> decor_env \<Rightarrow> md_t \<Rightarrow> md_t \<Rightarrow> md_t \<Rightarrow> md_t \<Rightarrow> md_t \<Rightarrow> AOCL_DLP_MEMORY_TAG \<Rightarrow> AOCL_DLP_MEMORY_TAG \<Rightarrow>
   dlp_rntm_t \<Rightarrow> dlp_gemm_cntx_t \<Rightarrow> AOCL_DLP_MEMORY_TAG \<times> AOCL_DLP_MEMORY_TAG \<times> dlp_rntm_t" where
  "reconcile_packab sfx env m n k ic_ways jc_ways mtag_a mtag_b rntm_g lcntx =
     (if sfx = F32 then dlp_gemm_f32f32f32of32_reconcile_packab env m n k ic_ways jc_ways mtag_a mtag_b rntm_g lcntx
      else (mtag_a, mtag_b, rntm_g))"

section \<open>Spreading threads over cores\<close>

definition dlp_gemm_get_tid_distr_type ::
  "dlp_gemm_thread_attrs_t \<Rightarrow> md_t \<Rightarrow> md_t \<Rightarrow> md_t \<Rightarrow> dlp_gemm_cntx_t \<Rightarrow> AOCL_DLP_TID_DISTR_TYPE" where
  "dlp_gemm_get_tid_distr_type thr_attrs m n n_threads lcntx =
     (let NR = bs_NR (cx_blksz lcntx);
          MR = bs_MR (cx_blksz lcntx);
          mr_blks = (m + MR - 1) sdiv MR;
          nr_blks = (n + NR - 1) sdiv NR;
          mr_x_nr_blks = mr_blks * nr_blks;
          low_util_n_thread_thres = n_threads sdiv 2;
          mr_x_nr_blks_fringe = mr_x_nr_blks smod n_threads;
          can_spread_tids = (openmp_enabled thr_attrs \<and> tid_distr_nearly_seq thr_attrs \<and> tid_core_grp_load_high thr_attrs)
      in if mr_x_nr_blks \<le> low_util_n_thread_thres \<and> can_spread_tids then STRIDE2
         else if mr_x_nr_blks > n_threads \<and> mr_x_nr_blks sdiv n_threads \<le> 2 \<and> mr_x_nr_blks_fringe > 4
              \<and> mr_x_nr_blks_fringe < low_util_n_thread_thres \<and> can_spread_tids then STRIDE2
         else DEFAULT)"

definition dlp_gemm_modify_tid_on_distr_type :: "md_t \<Rightarrow> md_t \<Rightarrow> AOCL_DLP_TID_DISTR_TYPE \<Rightarrow> md_t" where
  "dlp_gemm_modify_tid_on_distr_type tid n_threads tid_distr =
     (if tid_distr = STRIDE2 then
        let modif_factor = 2;
            tid_modif_limit = (n_threads sdiv modif_factor) * modif_factor
        in if tid < tid_modif_limit
           then tid sdiv modif_factor + (tid smod modif_factor) * (n_threads sdiv modif_factor)
           else tid
      else tid)"

section \<open>The decorator of one GEMM\<close>

text \<open>The communicators a call sets up, from whatever the memory held: static ones up to a limit,
  else from \<open>malloc\<close>, whose result the code uses unchecked.\<close>

definition init_comms :: "decor_env \<Rightarrow> md_t \<Rightarrow> md_t \<Rightarrow> (nat \<Rightarrow> dlp_task_comm_t) \<Rightarrow> dlp_task_comm_t list option" where
  "init_comms env count ic_ways memory =
     (if count > DLP_NUM_STATIC_COMMS \<and> \<not> de_malloc_ok env then None
      else Some (map (\<lambda>i. the (dlp_task_comm_init ic_ways (Some (memory i)))) [0..<nat count]))"

definition thread_setup :: "md_t \<Rightarrow> md_t \<Rightarrow> md_t \<Rightarrow> md_t \<Rightarrow> AOCL_DLP_MEMORY_TAG \<Rightarrow> AOCL_DLP_TID_DISTR_TYPE \<Rightarrow> dlp_gemm_thrinfo_t" where
  "thread_setup n_threads ic_ways jc_ways omp_tid mtag_b tid_distr =
     \<lparr>thr_n_threads = n_threads,
      thr_tid = (if mtag_b = REORDERED then dlp_gemm_modify_tid_on_distr_type omp_tid n_threads tid_distr else omp_tid),
      thr_ic_ways = ic_ways, thr_jc_ways = jc_ways\<rparr>"

definition openmp_thread_decorator ::
  "threading_sfx \<Rightarrow> AOCL_DLP_OPERATION_TYPE option \<Rightarrow> decor_env \<Rightarrow> (nat \<Rightarrow> dlp_task_comm_t) \<Rightarrow> md_t \<Rightarrow> md_t \<Rightarrow> md_t \<Rightarrow>
   AOCL_DLP_MEMORY_TAG \<Rightarrow> AOCL_DLP_MEMORY_TAG \<Rightarrow> dlp_rntm_t \<Rightarrow> dlp_gemm_cntx_t \<Rightarrow> dlp_gemm_post_op list option \<Rightarrow>
   (dlp_task_comm_t list \<times> rowvar_call list) option" where
  "openmp_thread_decorator sfx mc_op env memory m n k mtag_a mtag_b rntm_g lcntx post_op_list =
     (let (n_threads, ic_ways, jc_ways) = get_threading_of sfx m n k rntm_g lcntx;
          tid_distr = dlp_gemm_get_tid_distr_type (de_attrs env) m n n_threads lcntx;
          (mtag_a, mtag_b, rntm_g) = reconcile_packab sfx env m n k ic_ways jc_ways mtag_a mtag_b rntm_g lcntx
      in (case (case mc_op of None \<Rightarrow> Some mtag_b
                | Some op \<Rightarrow> dlp_mtag_b_pick env m n k ic_ways jc_ways op post_op_list) of
            None \<Rightarrow> None
          | Some mtag_b \<Rightarrow>
              map_option (\<lambda>comms. (comms,
                  map (\<lambda>omp_tid. \<lparr>rc_gemm = 0,
                        rc_thread = thread_setup n_threads ic_ways jc_ways (int omp_tid) mtag_b tid_distr,
                        rc_comm = 0, rc_mtag_a = mtag_a, rc_mtag_b = mtag_b, rc_rntm = rntm_g\<rparr>)
                    [0..<nat n_threads]))
                (init_comms env jc_ways ic_ways memory)))"

text \<open>Without OpenMP: one thread, one communicator.\<close>

definition thread_decorator ::
  "threading_sfx \<Rightarrow> AOCL_DLP_OPERATION_TYPE option \<Rightarrow> decor_env \<Rightarrow> dlp_task_comm_t \<Rightarrow> md_t \<Rightarrow> md_t \<Rightarrow> md_t \<Rightarrow>
   AOCL_DLP_MEMORY_TAG \<Rightarrow> AOCL_DLP_MEMORY_TAG \<Rightarrow> dlp_rntm_t \<Rightarrow> dlp_gemm_cntx_t \<Rightarrow> dlp_gemm_post_op list option \<Rightarrow>
   (dlp_task_comm_t list \<times> rowvar_call list) option" where
  "thread_decorator sfx mc_op env comm m n k mtag_a mtag_b rntm_g lcntx post_op_list =
     (let n_threads = 1; ic_ways = 1; jc_ways = 1;
          (mtag_a, mtag_b, rntm_g) = reconcile_packab sfx env m n k ic_ways jc_ways mtag_a mtag_b rntm_g lcntx
      in map_option (\<lambda>mtag_b. ([the (dlp_task_comm_init ic_ways (Some comm))],
             [\<lparr>rc_gemm = 0, rc_thread = \<lparr>thr_n_threads = n_threads, thr_tid = 0, thr_ic_ways = ic_ways, thr_jc_ways = jc_ways\<rparr>,
               rc_comm = 0, rc_mtag_a = mtag_a, rc_mtag_b = mtag_b, rc_rntm = rntm_g\<rparr>]))
           (case mc_op of None \<Rightarrow> Some mtag_b
            | Some op \<Rightarrow> dlp_mtag_b_pick env m n k ic_ways jc_ways op post_op_list))"

section \<open>The decorator of a group of GEMMs\<close>

text \<open>\<open>batch_dlp_gemm_..._get_threading\<close> by suffix; only f32 changes the run time record.\<close>

primrec batch_get_threading_of ::
  "threading_sfx \<Rightarrow> decor_env \<Rightarrow> md_t \<Rightarrow> md_t \<Rightarrow> md_t \<Rightarrow> md_t \<Rightarrow> dlp_rntm_t \<Rightarrow> dlp_gemm_cntx_t \<Rightarrow> batch_ways \<times> dlp_rntm_t" where
  "batch_get_threading_of S32O32 env g m n k r l = (batch_dlp_gemm_s32o32_get_threading g m n k r l, r)"
| "batch_get_threading_of BF16 env g m n k r l = (batch_dlp_gemm_bf16bf16f32of32_get_threading g m n k r l, r)"
| "batch_get_threading_of F16 env g m n k r l = (batch_dlp_gemm_bf16bf16f32of32_get_threading g m n k r l, r)"
| "batch_get_threading_of F32F16 env g m n k r l =
     batch_dlp_gemm_f32f32f32of32_get_threading (de_page_size env) (de_avx512 env) g m n k r l"
| "batch_get_threading_of F32 env g m n k r l =
     batch_dlp_gemm_f32f32f32of32_get_threading (de_page_size env) (de_avx512 env) g m n k r l"

text \<open>The loop of one thread over its GEMMs. \<open>mtag_b\<close> is the array the caller passed: with the MC logic
  the picked tag is stored at the index of the GEMM; every call reads the first entry.\<close>

fun batch_loop ::
  "AOCL_DLP_MEMORY_TAG option \<Rightarrow> (AOCL_DLP_MEMORY_TAG \<Rightarrow> md_t \<Rightarrow> rowvar_call) \<Rightarrow> md_t list \<Rightarrow> AOCL_DLP_MEMORY_TAG list \<Rightarrow>
   rowvar_call list option" where
  "batch_loop mp call [] mtag_b = Some []"
| "batch_loop mp call (i # is) mtag_b =
     (case (case mp of None \<Rightarrow> Some mtag_b
            | Some tag \<Rightarrow> if nat i < length mtag_b then Some (mtag_b[nat i := tag]) else None) of
        None \<Rightarrow> None
      | Some mtag_b \<Rightarrow>
          if mtag_b = [] then None
          else map_option ((#) (call (mtag_b ! 0) i)) (batch_loop mp call is mtag_b))"

definition batch_thread ::
  "batch_ways \<Rightarrow> AOCL_DLP_MEMORY_TAG option \<Rightarrow> md_t \<Rightarrow> AOCL_DLP_MEMORY_TAG \<Rightarrow> AOCL_DLP_MEMORY_TAG list \<Rightarrow> dlp_rntm_t \<Rightarrow> md_t \<Rightarrow>
   rowvar_call list option" where
  "batch_thread bw mp group_size mtag_a mtag_b rntm_g omp_tid =
     (let thread = \<lparr>thr_n_threads = bw_n_threads_per_gemm bw, thr_tid = omp_tid smod bw_n_threads_per_gemm bw,
                    thr_ic_ways = bw_ic_ways bw, thr_jc_ways = bw_jc_ways bw\<rparr>;
          comm = (omp_tid sdiv bw_n_threads_per_gemm bw) * bw_jc_ways bw;
          thrinfo = \<lparr>ocomm_id = 0, n_way = bw_n_gemms_in_parallel bw, work_id = omp_tid sdiv bw_n_threads_per_gemm bw\<rparr>;
          (gemm_start, gemm_end) = dlp_thread_task_range thrinfo group_size 1 False
      in batch_loop mp (\<lambda>tag i. \<lparr>rc_gemm = i, rc_thread = thread, rc_comm = comm, rc_mtag_a = mtag_a, rc_mtag_b = tag,
                                 rc_rntm = rntm_g\<rparr>) [gemm_start..gemm_end - 1] mtag_b)"

definition batch_openmp_thread_decorator ::
  "threading_sfx \<Rightarrow> AOCL_DLP_OPERATION_TYPE option \<Rightarrow> decor_env \<Rightarrow> (nat \<Rightarrow> dlp_task_comm_t) \<Rightarrow> md_t \<Rightarrow> md_t \<Rightarrow> md_t \<Rightarrow> md_t \<Rightarrow>
   AOCL_DLP_MEMORY_TAG \<Rightarrow> AOCL_DLP_MEMORY_TAG list \<Rightarrow> dlp_rntm_t \<Rightarrow> dlp_gemm_cntx_t \<Rightarrow> dlp_gemm_post_op list option \<Rightarrow>
   (dlp_task_comm_t list \<times> rowvar_call list option list) option" where
  "batch_openmp_thread_decorator sfx mc_op env memory group_size m n k mtag_a mtag_b rntm_g lcntx post_op_list =
     (let (bw, rntm_g) = batch_get_threading_of sfx env group_size m n k rntm_g lcntx;
          (mtag_a, tag_b0, rntm_g) = reconcile_packab sfx env m n k (bw_ic_ways bw) (bw_jc_ways bw) mtag_a (hd mtag_b) rntm_g lcntx;
          mtag_b = mtag_b[0 := tag_b0]
      in (case (case mc_op of None \<Rightarrow> Some None
                | Some op \<Rightarrow> map_option Some (dlp_mtag_b_pick env m n k (bw_ic_ways bw) (bw_jc_ways bw) op post_op_list)) of
            None \<Rightarrow> None
          | Some mp \<Rightarrow>
              map_option (\<lambda>comms. (comms,
                  map (\<lambda>omp_tid. batch_thread bw mp group_size mtag_a mtag_b rntm_g (int omp_tid)) [0..<nat (bw_n_threads bw)]))
                (init_comms env (bw_n_gemms_in_parallel bw * bw_jc_ways bw) (bw_ic_ways bw) memory)))"

section \<open>The tile of C a driver call works on\<close>

text \<open>The first lines of every driver: the column and the row range of the calling thread.\<close>

definition driver_tile :: "dlp_gemm_thrinfo_t \<Rightarrow> md_t \<Rightarrow> md_t \<Rightarrow> dlp_gemm_cntx_t \<Rightarrow> (md_t \<times> md_t) \<times> (md_t \<times> md_t)" where
  "driver_tile thread m n lcntx =
     (let (thread_jc, thread_ic) = dlp_gemm_gen_dlp_task_ids (Some thread)
      in (dlp_thread_task_range thread_jc n (bs_NR (cx_blksz lcntx)) False,
          dlp_thread_task_range thread_ic m (bs_MR (cx_blksz lcntx)) False))"

definition in_tile :: "(md_t \<times> md_t) \<times> (md_t \<times> md_t) \<Rightarrow> md_t \<Rightarrow> md_t \<Rightarrow> bool" where
  "in_tile tile i j = (case tile of ((jc_start, jc_end), (ic_start, ic_end)) \<Rightarrow>
     jc_start \<le> j \<and> j < jc_end \<and> ic_start \<le> i \<and> i < ic_end)"

section \<open>Every element of C has one owner\<close>

text \<open>The thread numbers of a split are the pairs of a column and a row id.\<close>

lemma tid_pair:
  fixes ic jc w v :: md_t
  assumes "0 < ic" "0 \<le> w" "w < ic" "0 \<le> v" "v < jc"
  shows "0 \<le> v * ic + w" "v * ic + w < ic * jc" "(v * ic + w) div ic = v" "(v * ic + w) mod ic = w"
proof -
  show "0 \<le> v * ic + w" using assms by simp
  have "v * ic + w < (v + 1) * ic" using assms by (simp add: algebra_simps)
  also have "\<dots> \<le> jc * ic" using assms by (intro mult_right_mono) simp_all
  finally show "v * ic + w < ic * jc" by (simp add: mult.commute)
  show "(v * ic + w) div ic = v" "(v * ic + w) mod ic = w" using assms by simp_all
qed

lemma tid_split:
  fixes ic jc t :: md_t
  assumes "0 < ic" "0 \<le> t" "t < ic * jc"
  shows "0 \<le> t div ic" "t div ic < jc" "0 \<le> t mod ic" "t mod ic < ic"
  using assms by (simp_all add: pos_imp_zdiv_nonneg_iff div_less_blocks mult.commute)

lemma driver_tile_slices:
  assumes "0 \<le> thr_tid t" "0 < thr_ic_ways t"
  shows "driver_tile t m n lcntx =
    (task_slice False n (bs_NR (cx_blksz lcntx)) (thr_jc_ways t) (thr_tid t div thr_ic_ways t),
     task_slice False m (bs_MR (cx_blksz lcntx)) (thr_ic_ways t) (thr_tid t mod thr_ic_ways t))"
  using assms by (simp add: driver_tile_def dlp_gemm_gen_dlp_task_ids_def Let_def task_range_eq_slice cdiv_simps)

lemma one_tile_owner:
  assumes "0 < ic" "0 < jc" "0 < m" "0 < n" "blksz_ok (cx_blksz lcntx)" "0 \<le> i" "i < m" "0 \<le> j" "j < n"
    and "\<And>t. 0 \<le> t \<Longrightarrow> t < ic * jc \<Longrightarrow> thr_tid (thr t) = t \<and> thr_ic_ways (thr t) = ic \<and> thr_jc_ways (thr t) = jc"
  shows "\<exists>!t. 0 \<le> t \<and> t < ic * jc \<and> in_tile (driver_tile (thr t) m n lcntx) i j"
proof -
  let ?row = "\<lambda>w. case task_slice False m (bs_MR (cx_blksz lcntx)) ic w of (s, e) \<Rightarrow> s \<le> i \<and> i < e"
  let ?col = "\<lambda>v. case task_slice False n (bs_NR (cx_blksz lcntx)) jc v of (s, e) \<Rightarrow> s \<le> j \<and> j < e"
  have pos: "0 < bs_MR (cx_blksz lcntx)" "0 < bs_NR (cx_blksz lcntx)" using assms(5) by auto
  obtain w where w: "?row w" "\<And>w'. ?row w' \<Longrightarrow> w' = w"
    using high_edge.one_owner [of m "bs_MR (cx_blksz lcntx)" ic i] assms pos by (auto simp: split_beta)
  obtain v where v: "?col v" "\<And>v'. ?col v' \<Longrightarrow> v' = v"
    using high_edge.one_owner [of n "bs_NR (cx_blksz lcntx)" jc j] assms pos by (auto simp: split_beta)
  have wr: "0 \<le> w" "w < ic" using w(1) high_edge.owner_in_range [of m "bs_MR (cx_blksz lcntx)" ic w i] by (auto simp: split_beta)
  have vr: "0 \<le> v" "v < jc" using v(1) high_edge.owner_in_range [of n "bs_NR (cx_blksz lcntx)" jc v j] by (auto simp: split_beta)
  have tile: "in_tile (driver_tile (thr t) m n lcntx) i j \<longleftrightarrow> ?row (t mod ic) \<and> ?col (t div ic)"
    if "0 \<le> t" "t < ic * jc" for t
    using that assms(1,10) by (auto simp: driver_tile_slices in_tile_def split_beta)
  show ?thesis
  proof (rule ex1I [of _ "v * ic + w"])
    show "0 \<le> v * ic + w \<and> v * ic + w < ic * jc \<and> in_tile (driver_tile (thr (v * ic + w)) m n lcntx) i j"
      using tid_pair [OF assms(1) wr vr] w(1) v(1) by (simp add: tile)
    fix t assume t: "0 \<le> t \<and> t < ic * jc \<and> in_tile (driver_tile (thr t) m n lcntx) i j"
    then have "t mod ic = w" "t div ic = v" using tile [of t] w(2) v(2) by auto
    then show "t = v * ic + w" using div_mult_mod_eq [of t ic] by simp
  qed
qed

lemma spread_bij:
  "bij_betw (\<lambda>tid. dlp_gemm_modify_tid_on_distr_type tid n tid_distr) {0..<n} {0..<n}"
proof (cases "tid_distr = STRIDE2")
  case False
  then show ?thesis by (simp add: dlp_gemm_modify_tid_on_distr_type_def bij_betw_def)
next
  case True
  define h where "h = n div 2"
  let ?f = "\<lambda>t. dlp_gemm_modify_tid_on_distr_type t n tid_distr"
  have f: "?f t = (if t < 2 * h then t div 2 + t mod 2 * h else t)" if "0 \<le> t" "t < n" for t
    using that True by (simp add: dlp_gemm_modify_tid_on_distr_type_def Let_def cdiv_simps h_def mult.commute)
  have range: "0 \<le> ?f t \<and> ?f t < n" if "0 \<le> t" "t < n" for t
  proof (cases "t < 2 * h")
    case True
    then have "0 \<le> t div 2" "t div 2 < h" "t mod 2 = 0 \<or> t mod 2 = 1" "2 * h \<le> n" using that h_def by auto
    then show ?thesis using True that by (auto simp: f)
  qed (use that in \<open>simp add: f\<close>)
  have inj: "inj_on ?f {0..<n}"
  proof (rule inj_onI)
    fix s t assume st: "s \<in> {0..<n}" "t \<in> {0..<n}" "?f s = ?f t"
    have half: "0 \<le> x div 2" "x div 2 < h" "x mod 2 = 0 \<or> x mod 2 = 1" if "0 \<le> x" "x < 2 * h" for x :: int
      using that by auto
    have "s div 2 = t div 2 \<and> s mod 2 = t mod 2 \<or> s = t"
      using st half [of s] half [of t] by (auto simp: f split: if_splits)
    then show "s = t" by (metis div_mult_mod_eq)
  qed
  have "?f ` {0..<n} = {0..<n}" by (rule endo_inj_surj [OF _ _ inj]) (use range in \<open>simp_all add: image_subset_iff\<close>)
  then show ?thesis using inj by (simp add: bij_betw_def)
qed

lemma reindex_owner:
  fixes f :: "md_t \<Rightarrow> md_t"
  assumes "bij_betw f {0..<nt} {0..<nt}" "\<exists>!u. 0 \<le> u \<and> u < nt \<and> P u"
    and "N = nat nt" "\<And>t. t < N \<Longrightarrow> Q t \<longleftrightarrow> P (f (int t))"
  shows "\<exists>!t. t < N \<and> Q t"
proof -
  obtain u where u: "0 \<le> u" "u < nt" "P u" "\<And>u'. 0 \<le> u' \<Longrightarrow> u' < nt \<Longrightarrow> P u' \<Longrightarrow> u' = u" using assms(2) by blast
  have "u \<in> f ` {0..<nt}" using assms(1) u(1,2) by (simp add: bij_betw_def)
  then obtain s where s: "0 \<le> s" "s < nt" "f s = u" by (elim imageE) (metis atLeastLessThan_iff)
  show ?thesis
  proof (rule ex1I [of _ "nat s"])
    have "nat s < N" "int (nat s) = s" using s assms(3) by simp_all
    then show "nat s < N \<and> Q (nat s)" using assms(4) [of "nat s"] s(3) u(3) by metis
    fix t assume t: "t < N \<and> Q t"
    then have "int t \<in> {0..<nt}" using assms(3) by auto
    moreover from this have "f (int t) \<in> {0..<nt}" using assms(1) by (auto simp: bij_betw_def)
    moreover have "P (f (int t))" using t assms(4) by blast
    ultimately have "f (int t) = f s" using u(4) s(3) by auto
    then have "int t = s" using assms(1) \<open>int t \<in> {0..<nt}\<close> s by (auto simp: bij_betw_def dest: inj_onD)
    then show "t = nat s" by simp
  qed
qed

lemma column_group_bij:
  fixes f :: "md_t \<Rightarrow> md_t"
  assumes "bij_betw f {0..<nt} {0..<nt}" "0 < ic" "ic * jc = nt" "int c < jc"
  shows "bij_betw (\<lambda>t. f (int t) mod ic) {t. t < nat nt \<and> f (int t) div ic = int c} {0..<ic}"
proof (rule bij_betw_imageI)
  have inj: "inj_on f {0..<nt}" and img: "f ` {0..<nt} = {0..<nt}" using assms(1) by (simp_all add: bij_betw_def)
  show "inj_on (\<lambda>t. f (int t) mod ic) {t. t < nat nt \<and> f (int t) div ic = int c}"
  proof (rule inj_onI)
    fix s t assume st: "s \<in> {t. t < nat nt \<and> f (int t) div ic = int c}" "t \<in> {t. t < nat nt \<and> f (int t) div ic = int c}"
      "f (int s) mod ic = f (int t) mod ic"
    then have "f (int s) = f (int t)" using div_mult_mod_eq [of "f (int s)" ic] div_mult_mod_eq [of "f (int t)" ic] by simp
    then show "s = t" using inj st by (auto dest!: inj_onD)
  qed
  have onto: "w \<in> (\<lambda>t. f (int t) mod ic) ` {t. t < nat nt \<and> f (int t) div ic = int c}" if "0 \<le> w" "w < ic" for w
  proof -
    note p = tid_pair [OF assms(2) that, of "int c" jc]
    have "int c * ic + w \<in> f ` {0..<nt}" using p assms(3,4) img by simp
    then obtain s where s: "0 \<le> s" "s < nt" "f s = int c * ic + w" by (elim imageE) (metis atLeastLessThan_iff)
    have "int (nat s) = s" "nat s < nat nt" using s by simp_all
    then have "nat s \<in> {t. t < nat nt \<and> f (int t) div ic = int c}" "w = f (int (nat s)) mod ic"
      using s(3) p(3) [OF of_nat_0_le_iff assms(4)] p(4) [OF of_nat_0_le_iff assms(4)] by simp_all
    then show ?thesis by blast
  qed
  show "(\<lambda>t. f (int t) mod ic) ` {t. t < nat nt \<and> f (int t) div ic = int c} = {0..<ic}"
    using assms(2) by (intro equalityI subsetI onto) (auto simp only: atLeastLessThan_iff pos_mod_sign pos_mod_bound)
qed

text \<open>What the decorator hands to the driver.\<close>

lemma decorator_calls:
  assumes "openmp_thread_decorator sfx mc_op env memory m n k mtag_a mtag_b rntm_g lcntx post_op_list = Some (comms, calls)"
    and "get_threading_of sfx m n k rntm_g lcntx = (nt, ic, jc)"
  obtains mtag distr where "length calls = nat nt" "length comms = nat jc"
    "\<And>t. t < nat nt \<Longrightarrow> rc_thread (calls ! t) = thread_setup nt ic jc (int t) mtag distr \<and> rc_mtag_b (calls ! t) = mtag"
    "\<And>c. c < nat jc \<Longrightarrow> comm_n_threads (comms ! c) = ic \<and> barrier_sense (comms ! c) = 0 \<and> barrier_threads_arrived (comms ! c) = 0"
  using assms
  by (auto simp: openmp_thread_decorator_def init_comms_def dlp_task_comm_init_def Let_def
      split: prod.splits option.splits if_splits)

lemma setup_tid_bij:
  "bij_betw (\<lambda>t. thr_tid (thread_setup nt ic jc t mtag distr)) {0..<nt} {0..<nt}"
  using spread_bij [of nt distr] by (cases "mtag = REORDERED") (simp_all add: thread_setup_def bij_betw_def)

lemma decorator_one_owner:
  assumes "openmp_thread_decorator sfx mc_op env memory m n k mtag_a mtag_b rntm_g lcntx post_op_list = Some (comms, calls)"
    and "0 < m" "0 < n" "blksz_ok (cx_blksz lcntx)" "0 \<le> i" "i < m" "0 \<le> j" "j < n"
  shows "\<exists>!t. t < length calls \<and> in_tile (driver_tile (rc_thread (calls ! t)) m n lcntx) i j"
proof -
  obtain nt ic jc where g: "get_threading_of sfx m n k rntm_g lcntx = (nt, ic, jc)" by (metis prod_cases3)
  then have ok: "0 < ic" "0 < jc" "ic * jc = nt"
    using get_threading_ok [OF assms(2-4), of sfx k rntm_g] by (simp_all add: ways_ok_def)
  from assms(1) g obtain mtag distr where c: "length calls = nat nt"
    "\<And>t. t < nat nt \<Longrightarrow> rc_thread (calls ! t) = thread_setup nt ic jc (int t) mtag distr"
    by (rule decorator_calls) blast
  let ?f = "\<lambda>t. thr_tid (thread_setup nt ic jc t mtag distr)"
  let ?thr = "\<lambda>u. \<lparr>thr_n_threads = nt, thr_tid = u, thr_ic_ways = ic, thr_jc_ways = jc\<rparr>"
  have seteq: "thread_setup nt ic jc t mtag distr = ?thr (?f t)" for t by (simp add: thread_setup_def)
  have ex1: "\<exists>!u. 0 \<le> u \<and> u < ic * jc \<and> in_tile (driver_tile (?thr u) m n lcntx) i j"
    by (rule one_tile_owner) (use ok assms in simp_all)
  have bij: "bij_betw ?f {0..<nt} {0..<nt}" by (rule setup_tid_bij)
  show ?thesis
    by (rule reindex_owner [OF bij, where P = "\<lambda>u. in_tile (driver_tile (?thr u) m n lcntx) i j"])
      (use ex1 ok c seteq in auto)
qed

text \<open>C32: A multi-threaded call divides the work without overlap or gap: of the calls of the driver its
  threads make, exactly one has the element \<open>(i, j)\<close> of C in its tile, for every element, data type
  family, packing choice and distribution of the threads over cores.\<close>

theorem decorator_tiles_partition:
  assumes "openmp_thread_decorator sfx mc_op env memory m n k mtag_a mtag_b rntm_g lcntx post_op_list = Some (comms, calls)"
    and "0 < m" "0 < n" "blksz_ok (cx_blksz lcntx)" "0 \<le> i" "i < m" "0 \<le> j" "j < n"
  shows "\<exists>!t. t < length calls \<and> in_tile (driver_tile (rc_thread (calls ! t)) m n lcntx) i j"
  by (rule decorator_one_owner [OF assms])

definition example_env :: decor_env where
  "example_env = \<lparr>de_page_size = 4096, de_avx512 = True,
     de_attrs = \<lparr>openmp_enabled = True, tid_distr_nearly_seq = True, tid_core_grp_load_high = True\<rparr>,
     de_table = init_table (example_cpu False True True), de_malloc_ok = True\<rparr>"

definition zero_comm :: dlp_task_comm_t where
  "zero_comm = \<lparr>sent_object = None, comm_n_threads = 0, barrier_sense = 0, barrier_threads_arrived = 0\<rparr>"

lemma decorator_example:
  "\<exists>comms calls. openmp_thread_decorator BF16 None example_env (\<lambda>_. zero_comm) 144 1024 32 UNPACKED REORDERED (example_rntm 7)
     (example_cntx 144 1024 4096 6 64) None = Some (comms, calls)"
  by (simp add: openmp_thread_decorator_def reconcile_packab_def init_comms_def example_env_def Let_def split_beta)

theorem decorator_tiles_partition_witness:
  "\<exists>comms calls. openmp_thread_decorator BF16 None example_env (\<lambda>_. zero_comm) 144 1024 32 UNPACKED REORDERED (example_rntm 7)
     (example_cntx 144 1024 4096 6 64) None = Some (comms, calls) \<and>
     (\<exists>!t. t < length calls \<and> in_tile (driver_tile (rc_thread (calls ! t)) 144 1024 (example_cntx 144 1024 4096 6 64)) 100 900)"
proof -
  obtain comms calls where d: "openmp_thread_decorator BF16 None example_env (\<lambda>_. zero_comm) 144 1024 32 UNPACKED REORDERED
      (example_rntm 7) (example_cntx 144 1024 4096 6 64) None = Some (comms, calls)" using decorator_example by blast
  show ?thesis using d decorator_tiles_partition [OF d _ _ example_blksz_ok, of 100 900] by auto
qed

lemma comm_group_ids:
  assumes "openmp_thread_decorator sfx mc_op env memory m n k mtag_a mtag_b rntm_g lcntx post_op_list = Some (comms, calls)"
    and "0 < m" "0 < n" "blksz_ok (cx_blksz lcntx)" "c < length comms"
  shows "bij_betw (\<lambda>t. ocomm_id (snd (dlp_gemm_gen_dlp_task_ids (Some (rc_thread (calls ! t))))))
     {t. t < length calls \<and> work_id (fst (dlp_gemm_gen_dlp_task_ids (Some (rc_thread (calls ! t))))) = int c}
     {0..<comm_n_threads (comms ! c)}"
proof -
  obtain nt ic jc where g: "get_threading_of sfx m n k rntm_g lcntx = (nt, ic, jc)" by (metis prod_cases3)
  then have ok: "0 < ic" "0 < jc" "ic * jc = nt"
    using get_threading_ok [OF assms(2-4), of sfx k rntm_g] by (simp_all add: ways_ok_def)
  from assms(1) g obtain mtag distr where len: "length calls = nat nt" "length comms = nat jc"
    and c: "\<And>t. t < nat nt \<Longrightarrow> rc_thread (calls ! t) = thread_setup nt ic jc (int t) mtag distr"
    and n: "\<And>c. c < nat jc \<Longrightarrow> comm_n_threads (comms ! c) = ic"
    by (rule decorator_calls) blast
  define f where "f t = thr_tid (thread_setup nt ic jc t mtag distr)" for t
  have bij: "bij_betw f {0..<nt} {0..<nt}" unfolding f_def by (rule setup_tid_bij)
  have fr: "0 \<le> f (int t) \<and> f (int t) < nt" if "t < nat nt" for t
    using bij that bij_betwE [OF bij] by auto
  have ids: "ocomm_id (snd (dlp_gemm_gen_dlp_task_ids (Some (rc_thread (calls ! t))))) = f (int t) mod ic"
    "work_id (fst (dlp_gemm_gen_dlp_task_ids (Some (rc_thread (calls ! t))))) = f (int t) div ic" if "t < nat nt" for t
    using c [OF that] fr [OF that] ok(1)
    by (simp_all add: dlp_gemm_gen_dlp_task_ids_def Let_def thread_setup_def f_def cdiv_simps)
  have gset: "{t. t < length calls \<and> work_id (fst (dlp_gemm_gen_dlp_task_ids (Some (rc_thread (calls ! t))))) = int c} =
      {t. t < nat nt \<and> f (int t) div ic = int c}" using ids len by auto
  have cn: "comm_n_threads (comms ! c) = ic" "int c < jc" using n assms(5) len by auto
  have "bij_betw (\<lambda>t. f (int t) mod ic) {t. t < nat nt \<and> f (int t) div ic = int c} {0..<ic}"
    using column_group_bij [OF bij ok(1,3) cn(2)] by simp
  then have "bij_betw (\<lambda>t. ocomm_id (snd (dlp_gemm_gen_dlp_task_ids (Some (rc_thread (calls ! t))))))
      {t. t < nat nt \<and> f (int t) div ic = int c} {0..<ic}"
    by (rule bij_betw_cong [THEN iffD1, rotated]) (use ids in auto)
  then show ?thesis unfolding gset cn(1) .
qed

text \<open>C34: The threads that meet at a communicator are exactly as many as it was initialised for: under the
  driver's numbering the threads of column group \<open>c\<close> have the distinct ids \<open>0..<n\<close>, with \<open>n\<close> the thread
  count in the \<open>c\<close>-th communicator, so one of them is the chief and the barrier's arrival count can be
  reached but not passed.\<close>

theorem comm_groups_complete:
  assumes "openmp_thread_decorator sfx mc_op env memory m n k mtag_a mtag_b rntm_g lcntx post_op_list = Some (comms, calls)"
    and "0 < m" "0 < n" "blksz_ok (cx_blksz lcntx)" "c < length comms"
  shows "bij_betw (\<lambda>t. ocomm_id (snd (dlp_gemm_gen_dlp_task_ids (Some (rc_thread (calls ! t))))))
     {t. t < length calls \<and> work_id (fst (dlp_gemm_gen_dlp_task_ids (Some (rc_thread (calls ! t))))) = int c}
     {0..<comm_n_threads (comms ! c)}"
  by (rule comm_group_ids [OF assms])

theorem comm_groups_complete_witness:
  "\<exists>comms calls. openmp_thread_decorator BF16 None example_env (\<lambda>_. zero_comm) 144 1024 32 UNPACKED REORDERED (example_rntm 7)
     (example_cntx 144 1024 4096 6 64) None = Some (comms, calls) \<and>
     bij_betw (\<lambda>t. ocomm_id (snd (dlp_gemm_gen_dlp_task_ids (Some (rc_thread (calls ! t))))))
       {t. t < length calls \<and> work_id (fst (dlp_gemm_gen_dlp_task_ids (Some (rc_thread (calls ! t))))) = int 1}
       {0..<comm_n_threads (comms ! 1)}"
proof -
  obtain comms calls where d: "openmp_thread_decorator BF16 None example_env (\<lambda>_. zero_comm) 144 1024 32 UNPACKED REORDERED
      (example_rntm 7) (example_cntx 144 1024 4096 6 64) None = Some (comms, calls)" using decorator_example by blast
  have "length comms = 2" using d get_threading_example by (rule decorator_calls) simp
  then show ?thesis using d comm_groups_complete [OF d _ _ example_blksz_ok, of 1] by auto
qed

section \<open>Groups of GEMMs\<close>

lemma batch_loop_plain: "mtag_b \<noteq> [] \<Longrightarrow> batch_loop None call is mtag_b = Some (map (call (mtag_b ! 0)) is)"
  by (induction "is") simp_all

lemma batch_loop_stores: "batch_loop (Some tag) call is mtag_b = Some xs \<Longrightarrow> i \<in> set is \<Longrightarrow> nat i < length mtag_b"
  by (induction "is" arbitrary: mtag_b xs) (fastforce split: if_splits)+

lemma batch_loop_out: "i \<in> set is \<Longrightarrow> length mtag_b \<le> nat i \<Longrightarrow> batch_loop (Some tag) call is mtag_b = None"
  using batch_loop_stores [of tag call "is" mtag_b] by (metis not_Some_eq not_le)

lemma batch_ways_exact:
  assumes "0 < m" "0 < n" "rn_num_threads rntm_g \<noteq> 0" "batch_get_threading_of sfx env group_size m n k rntm_g lcntx = (bw, rntm')"
  shows "bw_n_threads bw = bw_n_gemms_in_parallel bw * bw_n_threads_per_gemm bw"
    "bw_n_threads_per_gemm bw = bw_ic_ways bw * bw_jc_ways bw"
    "0 < bw_n_gemms_in_parallel bw" "0 < bw_ic_ways bw" "0 < bw_jc_ways bw"
proof -
  have "bw = batch_dlp_gemm_s32o32_get_threading group_size m n k rntm_g lcntx \<or>
      bw = batch_dlp_gemm_bf16bf16f32of32_get_threading group_size m n k rntm_g lcntx \<or>
      bw = fst (batch_dlp_gemm_f32f32f32of32_get_threading (de_page_size env) (de_avx512 env) group_size m n k rntm_g lcntx)"
    using assms(4) by (cases sfx) auto
  from batch_split [OF assms(1-3) this]
  show "bw_n_threads bw = bw_n_gemms_in_parallel bw * bw_n_threads_per_gemm bw"
    "bw_n_threads_per_gemm bw = bw_ic_ways bw * bw_jc_ways bw"
    "0 < bw_n_gemms_in_parallel bw" "0 < bw_ic_ways bw" "0 < bw_jc_ways bw" by simp_all
qed

text \<open>What the decorator does, with the array of tags at the start of the parallel region.\<close>

lemma batch_decorator_threads:
  assumes "batch_openmp_thread_decorator sfx mc_op env memory group_size m n k mtag_a mtag_b rntm_g lcntx post_op_list
      = Some (comms, calls)"
  obtains bw rntm' mtag_a' mtag_b' rntm2 mp where "batch_get_threading_of sfx env group_size m n k rntm_g lcntx = (bw, rntm')"
    "length mtag_b' = length mtag_b" "mp = None \<longleftrightarrow> mc_op = None"
    "calls = map (\<lambda>t. batch_thread bw mp group_size mtag_a' mtag_b' rntm2 (int t)) [0..<nat (bw_n_threads bw)]"
    "length comms = nat (bw_n_gemms_in_parallel bw * bw_jc_ways bw)"
proof -
  obtain bw rntm' where g: "batch_get_threading_of sfx env group_size m n k rntm_g lcntx = (bw, rntm')" by force
  obtain a' b' r' where r: "reconcile_packab sfx env m n k (bw_ic_ways bw) (bw_jc_ways bw) mtag_a (hd mtag_b) rntm' lcntx = (a', b', r')"
    by (metis prod_cases3)
  let ?mp = "case mc_op of None \<Rightarrow> Some None
      | Some op \<Rightarrow> map_option Some (dlp_mtag_b_pick env m n k (bw_ic_ways bw) (bw_jc_ways bw) op post_op_list)"
  let ?calls = "\<lambda>mp. map (\<lambda>t. batch_thread bw mp group_size a' (mtag_b[0 := b']) r' (int t)) [0..<nat (bw_n_threads bw)]"
  have eq: "Some (comms, calls) = (case ?mp of None \<Rightarrow> None | Some mp \<Rightarrow>
      map_option (\<lambda>comms. (comms, ?calls mp)) (init_comms env (bw_n_gemms_in_parallel bw * bw_jc_ways bw) (bw_ic_ways bw) memory))"
    using assms by (simp add: batch_openmp_thread_decorator_def g r Let_def)
  then obtain mp where mp: "?mp = Some mp" by (cases ?mp) auto
  show thesis
  proof (rule that [OF g])
    show "length (mtag_b[0 := b']) = length mtag_b" by simp
    show "mp = None \<longleftrightarrow> mc_op = None" using mp by (cases mc_op) auto
    show "calls = ?calls mp" "length comms = nat (bw_n_gemms_in_parallel bw * bw_jc_ways bw)"
      using eq by (auto simp: mp init_comms_def split: if_splits)
  qed
qed

text \<open>The GEMMs of an OpenMP thread are those of its slot.\<close>

definition slot_gemms :: "batch_ways \<Rightarrow> md_t \<Rightarrow> md_t \<Rightarrow> md_t list" where
  "slot_gemms bw group_size slot =
     (case task_slice False group_size 1 (bw_n_gemms_in_parallel bw) slot of (s, e) \<Rightarrow> [s..e - 1])"

lemma batch_thread_loop:
  assumes "0 < bw_n_threads_per_gemm bw" "0 \<le> t"
  shows "batch_thread bw mp group_size mtag_a mtag_b rntm_g t =
    batch_loop mp (\<lambda>tag i. \<lparr>rc_gemm = i,
        rc_thread = \<lparr>thr_n_threads = bw_n_threads_per_gemm bw, thr_tid = t mod bw_n_threads_per_gemm bw,
          thr_ic_ways = bw_ic_ways bw, thr_jc_ways = bw_jc_ways bw\<rparr>,
        rc_comm = t div bw_n_threads_per_gemm bw * bw_jc_ways bw, rc_mtag_a = mtag_a, rc_mtag_b = tag, rc_rntm = rntm_g\<rparr>)
      (slot_gemms bw group_size (t div bw_n_threads_per_gemm bw)) mtag_b"
  using assms
  by (simp add: batch_thread_def slot_gemms_def Let_def task_range_eq_slice cdiv_simps split_beta)

lemma one_slot:
  assumes "0 < bw_n_gemms_in_parallel bw" "0 \<le> g" "g < group_size"
  shows "\<exists>!slot. 0 \<le> slot \<and> slot < bw_n_gemms_in_parallel bw \<and> g \<in> set (slot_gemms bw group_size slot)"
proof -
  have mem: "g \<in> set (slot_gemms bw group_size slot) \<longleftrightarrow>
      fst (task_slice False group_size 1 (bw_n_gemms_in_parallel bw) slot) \<le> g \<and>
      g < snd (task_slice False group_size 1 (bw_n_gemms_in_parallel bw) slot)" for slot
    by (auto simp: slot_gemms_def split_beta)
  have ex1: "\<exists>!slot. fst (task_slice False group_size 1 (bw_n_gemms_in_parallel bw) slot) \<le> g \<and>
      g < snd (task_slice False group_size 1 (bw_n_gemms_in_parallel bw) slot)"
    by (rule high_edge.one_owner) (use assms in simp_all)
  show ?thesis
    using ex1 high_edge.owner_in_range [of group_size 1 "bw_n_gemms_in_parallel bw" _ g] unfolding mem by blast
qed

text \<open>C35: The decorators of the two mixed-precision batches store the picked tag at the index of each GEMM,
  in an array of which their only callers pass a single element: for every group of two or more GEMMs
  some thread stores outside it.\<close>

theorem batch_mp_store_out_of_bounds:
  assumes "batch_openmp_thread_decorator sfx (Some op) env memory group_size m n k mtag_a [tag] rntm_g lcntx post_op_list
      = Some (comms, calls)"
    and "0 < m" "0 < n" "rn_num_threads rntm_g \<noteq> 0" "2 \<le> group_size"
  shows "\<exists>t < length calls. calls ! t = None"
proof -
  from assms(1) obtain bw rntm' mtag_a' mtag_b' rntm2 mp where g: "batch_get_threading_of sfx env group_size m n k rntm_g lcntx = (bw, rntm')"
    and d: "length mtag_b' = length [tag]" "mp = None \<longleftrightarrow> Some op = None"
    "calls = map (\<lambda>t. batch_thread bw mp group_size mtag_a' mtag_b' rntm2 (int t)) [0..<nat (bw_n_threads bw)]"
    by (rule batch_decorator_threads)
  note bw = batch_ways_exact [OF assms(2-4) g]
  obtain slot where s: "0 \<le> slot" "slot < bw_n_gemms_in_parallel bw" "1 \<in> set (slot_gemms bw group_size slot)"
    using one_slot [OF bw(3), of 1 group_size] assms(5) by auto
  have tpg: "0 < bw_n_threads_per_gemm bw" using bw by simp
  let ?t = "slot * bw_n_threads_per_gemm bw"
  have t: "0 \<le> ?t" "?t < bw_n_threads bw" using s tpg bw(1) by simp_all
  have "?t div bw_n_threads_per_gemm bw = slot" using tpg by simp
  moreover obtain tg where "mp = Some tg" using d(2) by auto
  ultimately have "batch_thread bw mp group_size mtag_a' mtag_b' rntm2 ?t = None"
    unfolding batch_thread_loop [OF tpg t(1)] by (simp only:) (rule batch_loop_out [OF s(3)], use d(1) in simp)
  then have "calls ! nat ?t = None" "nat ?t < length calls" using t d(3) by simp_all
  then show ?thesis by blast
qed

lemma batch_mp_example:
  "\<exists>comms calls. batch_openmp_thread_decorator BF16 (Some BF16BF16F32OF32) example_env (\<lambda>_. zero_comm) 3 720 1024 32 UNPACKED
     [PACK] (example_rntm 32) (example_cntx 144 1024 4096 6 64) None = Some (comms, calls)"
  by (simp add: batch_openmp_thread_decorator_def reconcile_packab_def init_comms_def dlp_mtag_b_pick_def example_env_def
      Let_def split_beta)

theorem batch_mp_store_out_of_bounds_witness:
  "\<exists>comms calls. batch_openmp_thread_decorator BF16 (Some BF16BF16F32OF32) example_env (\<lambda>_. zero_comm) 3 720 1024 32 UNPACKED
     [PACK] (example_rntm 32) (example_cntx 144 1024 4096 6 64) None = Some (comms, calls) \<and> None \<in> set calls"
proof -
  obtain comms calls where d: "batch_openmp_thread_decorator BF16 (Some BF16BF16F32OF32) example_env (\<lambda>_. zero_comm) 3 720 1024 32
      UNPACKED [PACK] (example_rntm 32) (example_cntx 144 1024 4096 6 64) None = Some (comms, calls)"
    using batch_mp_example by blast
  show ?thesis using d batch_mp_store_out_of_bounds [OF d] by (auto simp: example_rntm_def in_set_conv_nth)
qed

text \<open>C33: For every other type a group is divided without overlap or gap: no thread leaves the tag array,
  the communicators of every call lie inside the array set up for them, and for each GEMM of the group
  and each element of its C exactly one thread makes a call for that GEMM whose tile holds the element.\<close>

theorem batch_tiles_partition:
  assumes "batch_openmp_thread_decorator sfx None env memory group_size m n k mtag_a mtag_b rntm_g lcntx post_op_list
      = Some (comms, calls)"
    and "0 < m" "0 < n" "rn_num_threads rntm_g \<noteq> 0" "blksz_ok (cx_blksz lcntx)" "mtag_b \<noteq> []"
    and "0 \<le> g" "g < group_size" "0 \<le> i" "i < m" "0 \<le> j" "j < n"
  shows "(\<forall>t < length calls. \<exists>cs. calls ! t = Some cs \<and>
           (\<forall>c \<in> set cs. 0 \<le> rc_comm c \<and> rc_comm c + thr_jc_ways (rc_thread c) \<le> int (length comms)))
    \<and> (\<exists>!t. t < length calls \<and>
          (\<exists>c \<in> set (the (calls ! t)). rc_gemm c = g \<and> in_tile (driver_tile (rc_thread c) m n lcntx) i j))"
proof -
  from assms(1) obtain bw rntm' mtag_a' mtag_b' rntm2 mp where gt: "batch_get_threading_of sfx env group_size m n k rntm_g lcntx = (bw, rntm')"
    and d: "length mtag_b' = length mtag_b" "mp = None \<longleftrightarrow> (None :: AOCL_DLP_OPERATION_TYPE option) = None"
    "calls = map (\<lambda>t. batch_thread bw mp group_size mtag_a' mtag_b' rntm2 (int t)) [0..<nat (bw_n_threads bw)]"
    "length comms = nat (bw_n_gemms_in_parallel bw * bw_jc_ways bw)"
    by (rule batch_decorator_threads)
  note bw = batch_ways_exact [OF assms(2-4) gt]
  define T where "T = bw_n_threads_per_gemm bw"
  define thr where "thr u = \<lparr>thr_n_threads = T, thr_tid = u, thr_ic_ways = bw_ic_ways bw, thr_jc_ways = bw_jc_ways bw\<rparr>" for u
  have T: "0 < T" "T = bw_ic_ways bw * bw_jc_ways bw" "bw_n_threads bw = T * bw_n_gemms_in_parallel bw"
    using bw by (simp_all add: T_def mult.commute)
  have len: "length calls = nat (bw_n_threads bw)" using d(3) by simp
  have ne: "mtag_b' \<noteq> []" using assms(6) d(1) by auto
  define call where "call t gm = \<lparr>rc_gemm = gm, rc_thread = thr (t mod T), rc_comm = t div T * bw_jc_ways bw, rc_mtag_a = mtag_a',
      rc_mtag_b = mtag_b' ! 0, rc_rntm = rntm2\<rparr>" for t gm
  have calls: "calls ! t = Some (map (call (int t)) (slot_gemms bw group_size (int t div T)))" if "t < length calls" for t
    using that d(2,3) ne T(1) len
    by (simp add: batch_thread_loop batch_loop_plain call_def thr_def T_def)
  have slots: "0 \<le> int t div T \<and> int t div T < bw_n_gemms_in_parallel bw" if "t < length calls" for t
    using that tid_split(1,2) [OF T(1), of "int t" "bw_n_gemms_in_parallel bw"] T(3) len by auto
  obtain slot where s: "0 \<le> slot" "slot < bw_n_gemms_in_parallel bw" "g \<in> set (slot_gemms bw group_size slot)"
    and s_uniq: "\<And>s'. 0 \<le> s' \<Longrightarrow> s' < bw_n_gemms_in_parallel bw \<Longrightarrow> g \<in> set (slot_gemms bw group_size s') \<Longrightarrow> s' = slot"
    using one_slot [OF bw(3) assms(7,8)] by (elim ex1E) blast
  have "\<exists>!u. 0 \<le> u \<and> u < bw_ic_ways bw * bw_jc_ways bw \<and> in_tile (driver_tile (thr u) m n lcntx) i j"
    by (rule one_tile_owner) (use bw assms in \<open>simp_all add: thr_def\<close>)
  then obtain u where u: "0 \<le> u" "u < T" "in_tile (driver_tile (thr u) m n lcntx) i j"
    and u_uniq: "\<And>u'. 0 \<le> u' \<Longrightarrow> u' < T \<Longrightarrow> in_tile (driver_tile (thr u') m n lcntx) i j \<Longrightarrow> u' = u"
    unfolding T(2) [symmetric] by (elim ex1E) blast
  have owner: "(\<exists>c \<in> set (the (calls ! t)). rc_gemm c = g \<and> in_tile (driver_tile (rc_thread c) m n lcntx) i j) \<longleftrightarrow>
      int t = slot * T + u" if "t < length calls" for t
  proof -
    have "(\<exists>c \<in> set (the (calls ! t)). rc_gemm c = g \<and> in_tile (driver_tile (rc_thread c) m n lcntx) i j) \<longleftrightarrow>
        g \<in> set (slot_gemms bw group_size (int t div T)) \<and> in_tile (driver_tile (thr (int t mod T)) m n lcntx) i j"
      by (auto simp: calls [OF that] call_def)
    also have "\<dots> \<longleftrightarrow> int t div T = slot \<and> int t mod T = u"
      using s(3) u(3) s_uniq slots [OF that] u_uniq T(1) by (metis pos_mod_bound pos_mod_sign)
    also have "\<dots> \<longleftrightarrow> int t = slot * T + u"
      using tid_pair(3,4) [OF T(1) u(1,2) s(1,2)] by (metis div_mult_mod_eq)
    finally show ?thesis .
  qed
  have "\<exists>!t. t < length calls \<and> int t = slot * T + u"
    using tid_pair(1,2) [OF T(1) u(1,2) s(1,2)] T(3) len by (intro ex1I [of _ "nat (slot * T + u)"]) auto
  then have ex: "\<exists>!t. t < length calls \<and>
      (\<exists>c \<in> set (the (calls ! t)). rc_gemm c = g \<and> in_tile (driver_tile (rc_thread c) m n lcntx) i j)"
    using owner by (metis (no_types, lifting))
  have comm: "0 \<le> rc_comm (call (int t) gm) \<and> rc_comm (call (int t) gm) + thr_jc_ways (rc_thread (call (int t) gm)) \<le> int (length comms)"
    if "t < length calls" for t gm
    using slots [OF that] bw(3,5) d(4) mult_right_mono [of "int t div T + 1" "bw_n_gemms_in_parallel bw" "bw_jc_ways bw"]
    by (simp add: call_def thr_def algebra_simps)
  show ?thesis using ex calls comm by auto
qed

lemma batch_plain_example:
  "\<exists>comms calls. batch_openmp_thread_decorator BF16 None example_env (\<lambda>_. zero_comm) 3 720 1024 32 UNPACKED
     [PACK] (example_rntm 32) (example_cntx 144 1024 4096 6 64) None = Some (comms, calls)"
  by (simp add: batch_openmp_thread_decorator_def reconcile_packab_def init_comms_def example_env_def Let_def split_beta)

theorem batch_tiles_partition_witness:
  "\<exists>comms calls. batch_openmp_thread_decorator BF16 None example_env (\<lambda>_. zero_comm) 3 720 1024 32 UNPACKED
     [PACK] (example_rntm 32) (example_cntx 144 1024 4096 6 64) None = Some (comms, calls) \<and>
     (\<exists>!t. t < length calls \<and> (\<exists>c \<in> set (the (calls ! t)). rc_gemm c = 2 \<and>
        in_tile (driver_tile (rc_thread c) 720 1024 (example_cntx 144 1024 4096 6 64)) 700 65))"
proof -
  obtain comms calls where d: "batch_openmp_thread_decorator BF16 None example_env (\<lambda>_. zero_comm) 3 720 1024 32
      UNPACKED [PACK] (example_rntm 32) (example_cntx 144 1024 4096 6 64) None = Some (comms, calls)"
    using batch_plain_example by blast
  have "rn_num_threads (example_rntm 32) \<noteq> 0" by (simp add: example_rntm_def)
  note p = batch_tiles_partition [OF d _ _ this example_blksz_ok, of 2 700 65]
  show ?thesis using d p by auto
qed

end
