(* ===== verification/Loops.thy ===== *)
theory Loops
  imports Dlp_Prelude
begin

text \<open>
  The loops and the schedules the drivers share. A C \<open>for\<close> loop over a dimension is \<open>for_loop\<close>: the body
  threads a state and lists what it does; a loop whose variable does not grow would not end and is
  \<open>None\<close>. \<open>loop_points\<close> are the values its variable takes. A schedule of several threads is any interleaving of
  their lists that keeps the order of each.
\<close>

section \<open>Loops\<close>

function for_loop :: "md_t \<Rightarrow> md_t \<Rightarrow> (md_t \<Rightarrow> md_t) \<Rightarrow> (md_t \<Rightarrow> 's \<Rightarrow> ('s \<times> 'a list) option) \<Rightarrow> 's \<Rightarrow> ('s \<times> 'a list) option" where
  "for_loop i e nxt body s =
     (if i < e then
        if nxt i \<le> i then None
        else (case body i s of
                None \<Rightarrow> None
              | Some (s', xs) \<Rightarrow> map_option (\<lambda>(s'', ys). (s'', xs @ ys)) (for_loop (nxt i) e nxt body s'))
      else Some (s, []))"
  by pat_completeness auto
termination by (relation "measure (\<lambda>(i, e, _). nat (e - i))") auto

declare for_loop.simps [simp del]

function loop_points :: "md_t \<Rightarrow> md_t \<Rightarrow> (md_t \<Rightarrow> md_t) \<Rightarrow> md_t list" where
  "loop_points i e nxt = (if i < e \<and> i < nxt i then i # loop_points (nxt i) e nxt else [])"
  by pat_completeness auto
termination by (relation "measure (\<lambda>(i, e, _). nat (e - i))") auto

declare loop_points.simps [simp del]

section \<open>What loops produce\<close>

lemma for_loop_proj:
  assumes step: "\<And>i s. i0 \<le> i \<Longrightarrow> i < e \<Longrightarrow> I s \<Longrightarrow> \<exists>s' xs. body i s = Some (s', xs) \<and> I s' \<and> proj xs = out i"
    and up: "\<And>i. i0 \<le> i \<Longrightarrow> i < e \<Longrightarrow> i < nxt i"
    and proj: "proj [] = []" "\<And>xs ys. proj (xs @ ys) = proj xs @ proj ys"
    and "i0 \<le> i" "I s"
  shows "\<exists>s' xs. for_loop i e nxt body s = Some (s', xs) \<and> I s' \<and> proj xs = concat (map out (loop_points i e nxt))"
  using assms(5,6)
proof (induction "nat (e - i)" arbitrary: i s rule: less_induct)
  case less
  show ?case
  proof (cases "i < e")
    case False
    then show ?thesis using less.prems proj(1) by (simp add: for_loop.simps loop_points.simps)
  next
    case True
    obtain s' xs where b: "body i s = Some (s', xs)" "I s'" "proj xs = out i" using step less.prems True by blast
    have up': "i < nxt i" using up less.prems True by blast
    have "nat (e - nxt i) < nat (e - i)" using up' True by simp
    then obtain s'' ys where r: "for_loop (nxt i) e nxt body s' = Some (s'', ys)" "I s''"
        "proj ys = concat (map out (loop_points (nxt i) e nxt))"
      using less.hyps [of "nxt i" s'] b(2) up' less.prems by auto
    have "for_loop i e nxt body s = Some (s'', xs @ ys)"
      using True up' b(1) r(1) by (subst for_loop.simps) simp
    moreover have "loop_points i e nxt = i # loop_points (nxt i) e nxt"
      using True up' by (subst loop_points.simps) simp
    ultimately show ?thesis using b r proj(2) by simp
  qed
qed

text \<open>Blocks that tile a range: a point is in exactly one of them.\<close>

lemma loop_points_cover:
  assumes "\<And>p. s \<le> p \<Longrightarrow> p < e \<Longrightarrow> p < nxt p \<and> hi p = min (nxt p) e" "s \<le> i"
  shows "concat (map (\<lambda>p. if p \<le> x \<and> x < hi p then ys else []) (loop_points i e nxt)) = (if i \<le> x \<and> x < e then ys else [])"
  using assms(2)
proof (induction "nat (e - i)" arbitrary: i rule: less_induct)
  case less
  show ?case
  proof (cases "i < e")
    case False
    then show ?thesis by (auto simp: loop_points.simps)
  next
    case True
    have n: "i < nxt i" "hi i = min (nxt i) e" using assms(1) less.prems True by auto
    then have "loop_points i e nxt = i # loop_points (nxt i) e nxt" using True by (subst loop_points.simps) simp
    moreover have "concat (map (\<lambda>p. if p \<le> x \<and> x < hi p then ys else []) (loop_points (nxt i) e nxt)) =
        (if nxt i \<le> x \<and> x < e then ys else [])"
      using less.hyps [of "nxt i"] n True less.prems by simp
    ultimately show ?thesis using n True by auto
  qed
qed

lemma loop_points_bounds: "p \<in> set (loop_points i e nxt) \<Longrightarrow> i \<le> p \<and> p < e"
proof (induction i e nxt rule: loop_points.induct)
  case (1 i e nxt)
  then show ?case by (subst (asm) (2) loop_points.simps) (auto split: if_splits)
qed

lemma loop_points_inv:
  assumes "I s" "\<And>p. s \<le> p \<Longrightarrow> p < e \<Longrightarrow> I p \<Longrightarrow> I (nxt p)"
  shows "p \<in> set (loop_points s e nxt) \<Longrightarrow> I p"
  using assms
proof (induction s e nxt rule: loop_points.induct)
  case (1 i e nxt)
  show ?case
  proof (cases "i < e \<and> i < nxt i")
    case True
    then have "loop_points i e nxt = i # loop_points (nxt i) e nxt" by (subst loop_points.simps) simp
    then have "p = i \<or> p \<in> set (loop_points (nxt i) e nxt)" using 1(2) by simp
    then show ?thesis using 1(1) [OF True] 1(3,4) True by fastforce
  next
    case False
    then have "loop_points i e nxt = []" by (subst loop_points.simps) simp
    then show ?thesis using 1(2) by simp
  qed
qed

lemma loop_points_hit:
  assumes "\<And>p. s \<le> p \<Longrightarrow> p < e \<Longrightarrow> p < nxt p \<and> hi p = min (nxt p) e" "s \<le> x" "x < e"
  shows "\<exists>p \<in> set (loop_points s e nxt). p \<le> x \<and> x < hi p"
proof (rule ccontr)
  assume "\<not> ?thesis"
  then have "concat (map (\<lambda>p. if p \<le> x \<and> x < hi p then [()] else []) (loop_points s e nxt)) = []" by auto
  then show False using loop_points_cover [OF assms(1), where i = s and x = x and ys = "[()]"] assms(2,3) by simp
qed

text \<open>A loop with a fixed step from 0 visits the multiples of the step.\<close>

lemma step_points: "0 < b \<Longrightarrow> p \<in> set (loop_points 0 e (\<lambda>p. p + b)) \<longleftrightarrow> b dvd p \<and> 0 \<le> p \<and> p < e"
proof
  assume b: "0 < b"
  show "b dvd p \<and> 0 \<le> p \<and> p < e" if "p \<in> set (loop_points 0 e (\<lambda>p. p + b))"
    using loop_points_inv [where I = "\<lambda>p. b dvd p", OF _ _ that] loop_points_bounds [OF that] by auto
  assume p: "b dvd p \<and> 0 \<le> p \<and> p < e"
  then obtain q where q: "q \<in> set (loop_points 0 e (\<lambda>p. p + b))" "q \<le> p" "p < min (q + b) e"
    using loop_points_hit [where s = 0 and hi = "\<lambda>p. min (p + b) e" and nxt = "\<lambda>p. p + b" and e = e and x = p] b by auto
  have "b dvd q" using loop_points_inv [where I = "\<lambda>p. b dvd p", OF _ _ q(1)] by auto
  then have "b dvd p - q" using p by (intro dvd_diff) simp_all
  then have "p = q" using q(2,3) b zdvd_imp_le [of b "p - q"] by fastforce
  then show "p \<in> set (loop_points 0 e (\<lambda>p. p + b))" using q(1) by simp
qed

text \<open>A loop without state is the concatenation of its iterations.\<close>

lemma for_loop_concat:
  assumes "\<And>i. i0 \<le> i \<Longrightarrow> i < e \<Longrightarrow> body i () = Some ((), out i)" "\<And>i. i0 \<le> i \<Longrightarrow> i < e \<Longrightarrow> i < nxt i" "i0 \<le> i"
  shows "for_loop i e nxt body () = Some ((), concat (map out (loop_points i e nxt)))"
  using for_loop_proj [where proj = "\<lambda>xs. xs" and I = "\<lambda>_. True" and s = "()" and out = out, OF _ assms(2) _ _ assms(3)] assms(1)
  by fastforce

text \<open>What holds of everything an iteration does holds of everything the loop does.\<close>

lemma for_loop_all:
  assumes "\<And>i s s' xs. i < e \<Longrightarrow> I i \<Longrightarrow> body i s = Some (s', xs) \<Longrightarrow> I (nxt i) \<and> list_all P xs"
    and "for_loop i e nxt body s = Some (s', xs)" "I i"
  shows "list_all P xs"
  using assms(2,3)
proof (induction "nat (e - i)" arbitrary: i s xs rule: less_induct)
  case less
  show ?case
  proof (cases "i < e \<and> i < nxt i")
    case True
    then obtain s1 xs1 xs2 where b: "body i s = Some (s1, xs1)" "for_loop (nxt i) e nxt body s1 = Some (s', xs2)" "xs = xs1 @ xs2"
      using less.prems(1) by (subst (asm) for_loop.simps) (auto split: option.splits)
    have "nat (e - nxt i) < nat (e - i)" using True by simp
    then show ?thesis using less.hyps [OF _ b(2)] assms(1) [OF _ less.prems(2) b(1)] True b(3) by simp
  next
    case False
    then show ?thesis using less.prems(1) by (subst (asm) for_loop.simps) (auto split: if_splits)
  qed
qed

section \<open>Schedules\<close>

definition interleaves :: "(nat \<times> 'a) list \<Rightarrow> nat \<Rightarrow> (nat \<Rightarrow> 'a list) \<Rightarrow> bool" where
  "interleaves sched N trace \<longleftrightarrow>
     (\<forall>e \<in> set sched. fst e < N) \<and> (\<forall>t < N. map snd (filter (\<lambda>e. fst e = t) sched) = trace t)"

lemma schedule_member:
  assumes "interleaves sched N trace" "e \<in> set sched"
  shows "fst e < N \<and> snd e \<in> set (trace (fst e))"
proof -
  have "snd e \<in> set (map snd (filter (\<lambda>e'. fst e' = fst e) sched))" using assms(2) by auto
  then show ?thesis using assms unfolding interleaves_def by metis
qed

text \<open>The steps of interest in a schedule, when only one thread has any, are those of that thread, in its order.\<close>

lemma schedule_at:
  assumes "interleaves sched N trace" "t0 < N" "\<And>t. t < N \<Longrightarrow> t \<noteq> t0 \<Longrightarrow> filter P (trace t) = []"
  shows "filter P (map snd sched) = filter P (trace t0)"
proof -
  have mine: "fst e = t0" if "e \<in> set sched" "P (snd e)" for e
    using schedule_member [OF assms(1) that(1)] that(2) assms(3) by (fastforce simp: filter_empty_conv)
  have "filter P (map snd sched) = map snd (filter (\<lambda>e. P (snd e)) sched)" by (simp add: filter_map o_def)
  also have "filter (\<lambda>e. P (snd e)) sched = filter (\<lambda>e. P (snd e)) (filter (\<lambda>e. fst e = t0) sched)"
    using mine by (auto intro: filter_cong)
  also have "map snd \<dots> = filter P (map snd (filter (\<lambda>e. fst e = t0) sched))" by (simp add: filter_map o_def)
  also have "\<dots> = filter P (trace t0)" using assms(1,2) by (simp add: interleaves_def)
  finally show ?thesis .
qed

lemma schedule_none:
  assumes "interleaves sched N trace" "\<And>t. t < N \<Longrightarrow> filter P (trace t) = []"
  shows "filter P (map snd sched) = []"
  using schedule_member [OF assms(1)] assms(2) by (fastforce simp: filter_empty_conv)

lemma schedule_set:
  assumes "interleaves sched N trace"
  shows "set (map snd sched) = (\<Union>t < N. set (trace t))"
proof -
  have "x \<in> set (map snd sched)" if "t < N" "x \<in> set (trace t)" for x t
    using that assms unfolding interleaves_def by (metis (no_types, lifting) filter_is_subset image_mono list.set_map subsetD)
  then show ?thesis using schedule_member [OF assms] by fastforce
qed

text \<open>One schedule runs the threads one after the other.\<close>

definition one_by_one :: "nat \<Rightarrow> (nat \<Rightarrow> 'a list) \<Rightarrow> (nat \<times> 'a) list" where
  "one_by_one N trace = concat (map (\<lambda>t. map (Pair t) (trace t)) [0..<N])"

lemma one_by_one_interleaves: "interleaves (one_by_one N trace) N trace"
proof -
  have other: "filter (\<lambda>e. fst e = t) (map (Pair u) xs) = (if u = t then map (Pair u) xs else [])" for t u and xs :: "'a list"
    by (induction xs) auto
  have "map snd (filter (\<lambda>e. fst e = t) (one_by_one N trace)) = (if t < N then trace t else [])" for t
    by (induction N) (auto simp: one_by_one_def other o_def less_Suc_eq)
  moreover have "fst e < N" if "e \<in> set (one_by_one N trace)" for e
    using that by (auto simp: one_by_one_def)
  ultimately show ?thesis by (simp add: interleaves_def)
qed

end
