(* ===== verification/Gemm_Driver.thy ===== *)
theory Gemm_Driver
  imports Thread_Decor Loops
begin

text \<open>
  The five-loop driver of the integer GEMM, \<open>dlp_gemm_rowvar_u8s8s32o32\<close> with its matrix-vector
  branch \<open>dlp_gemv_rowvar_u8s8s32os32\<close>, \<^verbatim>\<open>classic/frame/u8s8s32/dlp_gemm_u8s8s32.c\<close>.

  A run of the driver by one thread is the list of what it does outside itself, in order: the
  buffers it allocates and frees, the packing calls, the barriers and the kernel calls with their
  operand addresses. The pack kernels are arguments that give the strides they return. A loop that
  would not end, for a block size that is not positive, is \<open>None\<close>. \<open>post_op_c_i\<close>, \<open>post_op_c_j\<close> and
  \<open>kc_pc\<close> give the rows, columns and depth the call works on; the kernel gets the last one through the
  operand addresses only.
\<close>

section \<open>What a thread does\<close>

datatype operand = In_matrix md_t | In_buffer md_t

datatype c_operand = C_null | C_matrix md_t | C_temp md_t

record post_op_attr =
  post_op_c_i :: md_t
  post_op_c_j :: md_t
  is_first_k :: bool
  is_last_k :: bool

record kernel_call =
  kc_mc0 :: md_t
  kc_nr0 :: md_t
  kc_kc0 :: md_t
  kc_pc :: md_t
  kc_a :: operand
  kc_a_strides :: "md_t \<times> md_t \<times> md_t"
  kc_b :: operand
  kc_b_panel :: "md_t \<times> md_t"
  kc_c :: c_operand
  kc_rs_c :: md_t
  kc_beta0 :: int32_t
  kc_attr :: post_op_attr

datatype action =
    Alloc_b md_t | Send_b md_t | Wait md_t md_t | Pack_b md_t md_t md_t md_t | Alloc_a md_t | Pack_a md_t md_t md_t
  | Alloc_c md_t | Kernel kernel_call | Free_b | Free_a | Free_c

text \<open>The caller's matrices, and which of the thread's buffers exist (their pointers are not NULL).\<close>

record gemm_args =
  ga_m :: md_t
  ga_n :: md_t
  ga_k :: md_t
  ga_rs_a :: md_t
  ga_cs_a :: md_t
  ga_mtag_a :: AOCL_DLP_MEMORY_TAG
  ga_rs_b :: md_t
  ga_cs_b :: md_t
  ga_mtag_b :: AOCL_DLP_MEMORY_TAG
  ga_rs_c :: md_t
  ga_beta :: int32_t
  ga_c_downscale :: DLP_TYPE

record drv_buffers =
  have_b :: bool
  have_a :: bool
  have_c :: bool

definition downscaled :: "DLP_TYPE \<Rightarrow> bool" where
  "downscaled c_downscale \<longleftrightarrow>
     c_downscale \<in> {DLP_INVALID, DLP_S4, DLP_U4, DLP_F4, DLP_S8, DLP_U8, DLP_S16, DLP_U16, DLP_F16, DLP_BF16} \<or> c_downscale = DLP_F32"

definition c_offset :: "c_operand \<Rightarrow> md_t \<Rightarrow> c_operand" where
  "c_offset c off = (case c of C_null \<Rightarrow> C_null | C_matrix o1 \<Rightarrow> C_matrix (o1 + off) | C_temp o1 \<Rightarrow> C_temp (o1 + off))"

definition o_offset :: "operand \<Rightarrow> md_t \<Rightarrow> operand" where
  "o_offset p off = (case p of In_matrix o1 \<Rightarrow> In_matrix (o1 + off) | In_buffer o1 \<Rightarrow> In_buffer (o1 + off))"

definition packb_min_NR :: md_t where "packb_min_NR = 16"

section \<open>The loops of the driver\<close>

text \<open>The kernel calls of one block of rows, along the columns of a panel. \<open>a_use\<close> is the operand A with
  its strides.\<close>

definition jr_loop ::
  "gemm_args \<Rightarrow> dlp_gemm_cntx_t \<Rightarrow> md_t \<Rightarrow> md_t \<Rightarrow> md_t \<Rightarrow> md_t \<Rightarrow> md_t \<Rightarrow> md_t \<Rightarrow> operand \<times> md_t \<times> md_t \<times> md_t \<Rightarrow> operand \<Rightarrow>
   c_operand \<Rightarrow> md_t \<Rightarrow> drv_buffers \<Rightarrow> (drv_buffers \<times> action list) option" where
  "jr_loop g lcntx jc nc0 pc kc0 ic mc0 a_use b_use c_use_ic rs_c_use =
     (let NR = bs_NR (cx_blksz lcntx);
          KC = bs_KC (cx_blksz lcntx);
          kc0_updated = dlp_make_multiple_of_n kc0 4;
          beta0 = (if pc = 0 then ga_beta g else 1)
      in for_loop 0 nc0 (\<lambda>jr. jr + NR)
           (\<lambda>jr s. Some (s, [Kernel \<lparr>kc_mc0 = mc0, kc_nr0 = dlp_min (nc0 - jr) NR, kc_kc0 = kc0, kc_pc = pc,
               kc_a = fst a_use, kc_a_strides = snd a_use, kc_b = o_offset b_use (jr * kc0_updated),
               kc_b_panel = (0, 0), kc_c = c_offset c_use_ic jr, kc_rs_c = rs_c_use, kc_beta0 = beta0,
               kc_attr = \<lparr>post_op_c_i = ic, post_op_c_j = jc + jr, is_first_k = (pc = 0),
                          is_last_k = (pc + KC \<ge> ga_k g)\<rparr>\<rparr>])))"

text \<open>The operand A of a block, with what is done to provide it. \<open>packa\<close> stands for the pack kernel: the
  strides it sets for the given source strides and block.\<close>

definition a_operand ::
  "(md_t \<Rightarrow> md_t \<Rightarrow> md_t \<Rightarrow> md_t \<Rightarrow> md_t \<times> md_t) \<Rightarrow> gemm_args \<Rightarrow> dlp_gemm_cntx_t \<Rightarrow> md_t \<Rightarrow> md_t \<Rightarrow> md_t \<Rightarrow> md_t \<Rightarrow> drv_buffers \<Rightarrow>
   drv_buffers \<times> action list \<times> (operand \<times> md_t \<times> md_t \<times> md_t)" where
  "a_operand packa g lcntx pc kc0 ic mc0 s =
     (let kc0_updated = dlp_make_multiple_of_n kc0 4 in
      if ga_mtag_a g = PACK then
        let mem_a_size_req = mc0 * kc0_updated;
            (rs_a_use, cs_a_use) = packa (ga_rs_a g) (ga_cs_a g) mc0 kc0
        in (s\<lparr>have_a := True\<rparr>,
            (if have_a s then [] else [Alloc_a mem_a_size_req]) @ [Pack_a (ga_rs_a g * ic + ga_cs_a g * pc) mc0 kc0],
            (In_buffer 0, rs_a_use, cs_a_use, if ga_cs_a g = 1 then kc0_updated else rs_a_use))
      else if ga_mtag_a g = REORDERED then
        let (rs_a_use, cs_a_use) = dlp_gemm_get_packa_strides lcntx
        in (s, [], (In_matrix (pc * ga_m g + kc0_updated * ic), rs_a_use, cs_a_use, kc0_updated))
      else (s, [], (In_matrix (ga_rs_a g * ic + ga_cs_a g * pc), ga_rs_a g, 4, ga_rs_a g)))"

definition ic_loop ::
  "(md_t \<Rightarrow> md_t \<Rightarrow> md_t \<Rightarrow> md_t \<Rightarrow> md_t \<times> md_t) \<Rightarrow> gemm_args \<Rightarrow> dlp_gemm_cntx_t \<Rightarrow> md_t \<Rightarrow> md_t \<Rightarrow> md_t \<Rightarrow> md_t \<Rightarrow> md_t \<Rightarrow> md_t \<Rightarrow>
   operand \<Rightarrow> c_operand \<Rightarrow> md_t \<Rightarrow> drv_buffers \<Rightarrow> (drv_buffers \<times> action list) option" where
  "ic_loop packa g lcntx ic_start ic_end jc nc0 pc kc0 b_use c_use_jc rs_c_use =
     (let MC = bs_MC (cx_blksz lcntx)
      in for_loop ic_start ic_end (\<lambda>ic. ic + MC)
           (\<lambda>ic s.
              let mc0 = dlp_min (ic_end - ic) MC;
                  c_use_ic = (if downscaled (ga_c_downscale g) then c_offset c_use_jc (rs_c_use * (ic - ic_start))
                              else c_offset c_use_jc (rs_c_use * ic));
                  (s, acts, a_use) = a_operand packa g lcntx pc kc0 ic mc0 s
              in map_option (\<lambda>(s', calls). (s', acts @ calls))
                   (jr_loop g lcntx jc nc0 pc kc0 ic mc0 a_use b_use c_use_ic rs_c_use s)))"

text \<open>The operand B of a chunk: packed by the threads of the column group between two barriers, or found
  inside the reordered matrix. \<open>jc_cur_loop\<close>, \<open>jc_cur_loop_rem\<close> and \<open>n_sub_updated\<close> locate the chunk there.\<close>

definition b_operand ::
  "gemm_args \<Rightarrow> dlp_gemm_cntx_t \<Rightarrow> dlp_task_id_t \<Rightarrow> dlp_task_id_t \<Rightarrow> md_t \<Rightarrow> md_t \<Rightarrow> md_t \<Rightarrow> md_t \<Rightarrow> md_t \<Rightarrow> md_t \<Rightarrow> md_t \<Rightarrow>
   drv_buffers \<Rightarrow> drv_buffers \<times> action list \<times> operand" where
  "b_operand g lcntx thread_jc thread_ic jc nc0 jc_cur_loop jc_cur_loop_rem n_sub_updated pc kc0 s =
     (let kc0_updated = dlp_make_multiple_of_n kc0 4;
          k_updated = dlp_make_multiple_of_n (ga_k g) 4
      in if ga_mtag_b g = PACK then
           let jc_work_id = work_id thread_jc;
               nc0_updated = dlp_make_multiple_of_n nc0 packb_min_NR;
               mem_b_size_req = nc0_updated * kc0_updated;
               chief = (if dlp_thread_am_ochief thread_ic
                        then (if have_b s then [] else [Alloc_b mem_b_size_req]) @ [Send_b jc_work_id] else []);
               (jc_packb_start, jc_packb_end) = dlp_thread_task_range thread_ic nc0 (bs_NR (cx_blksz lcntx)) False;
               pack = (if jc_packb_end > jc_packb_start \<and> jc_packb_start < jc + nc0
                       then [Pack_b (ga_rs_b g * pc + ga_cs_b g * jc + ga_cs_b g * jc_packb_start)
                               (jc_packb_start * kc0_updated) (jc_packb_end - jc_packb_start) kc0]
                       else [])
           in (s\<lparr>have_b := True\<rparr>,
               chief @ [Wait jc_work_id (ocomm_id thread_ic)] @ pack @ [Wait jc_work_id (ocomm_id thread_ic)], In_buffer 0)
         else (s, [], In_matrix (jc_cur_loop * k_updated + n_sub_updated * pc + jc_cur_loop_rem * kc0_updated)))"

definition pc_loop ::
  "(md_t \<Rightarrow> md_t \<Rightarrow> md_t \<Rightarrow> md_t \<Rightarrow> md_t \<times> md_t) \<Rightarrow> gemm_args \<Rightarrow> dlp_gemm_cntx_t \<Rightarrow> dlp_task_id_t \<Rightarrow> dlp_task_id_t \<Rightarrow> md_t \<Rightarrow> md_t \<Rightarrow>
   md_t \<Rightarrow> md_t \<Rightarrow> md_t \<Rightarrow> md_t \<Rightarrow> md_t \<Rightarrow> c_operand \<Rightarrow> md_t \<Rightarrow> drv_buffers \<Rightarrow> (drv_buffers \<times> action list) option" where
  "pc_loop packa g lcntx thread_jc thread_ic ic_start ic_end jc nc0 jc_cur_loop jc_cur_loop_rem n_sub_updated c_use_jc rs_c_use =
     (let KC = bs_KC (cx_blksz lcntx)
      in for_loop 0 (ga_k g) (\<lambda>pc. pc + KC)
           (\<lambda>pc s.
              let kc0 = dlp_min (ga_k g - pc) KC;
                  (s, acts, b_use) = b_operand g lcntx thread_jc thread_ic jc nc0 jc_cur_loop jc_cur_loop_rem n_sub_updated pc kc0 s
              in map_option (\<lambda>(s', calls). (s', acts @ calls))
                   (ic_loop packa g lcntx ic_start ic_end jc nc0 pc kc0 b_use c_use_jc rs_c_use s)))"

text \<open>The C operand of a chunk of columns. A downscaled result is gathered in a temporary buffer when
  the depth needs more than one block.\<close>

definition c_operand_jc ::
  "gemm_args \<Rightarrow> dlp_gemm_cntx_t \<Rightarrow> md_t \<Rightarrow> md_t \<Rightarrow> md_t \<Rightarrow> md_t \<Rightarrow> drv_buffers \<Rightarrow> drv_buffers \<times> action list \<times> c_operand" where
  "c_operand_jc g lcntx ic_start ic_end jc jc_end s =
     (if ga_c_downscale g = DLP_S32 then (s, [], C_matrix jc)
      else if downscaled (ga_c_downscale g) then
        (if ga_k g > bs_KC (cx_blksz lcntx)
         then let nc0_buf = dlp_min (jc_end - jc) (bs_NC (cx_blksz lcntx))
              in (s\<lparr>have_c := True\<rparr>, if have_c s then [] else [Alloc_c (4 * nc0_buf * (ic_end - ic_start))], C_temp 0)
         else (s, [], C_null))
      else (s, [], C_null))"

definition jc_next :: "gemm_args \<Rightarrow> dlp_gemm_cntx_t \<Rightarrow> md_t \<Rightarrow> md_t" where
  "jc_next g lcntx jc =
     (let NC = bs_NC (cx_blksz lcntx);
          panel_start = fst (dlp_gemm_get_B_panel_reordered_start_offset_width jc (ga_n g) NC packb_min_NR NC)
      in (if ga_mtag_b g = REORDERED then dlp_gemm_adjust_B_panel_reordered_jc jc panel_start else jc) + NC)"

definition jc_loop ::
  "(md_t \<Rightarrow> md_t \<Rightarrow> md_t \<Rightarrow> md_t \<Rightarrow> md_t \<times> md_t) \<Rightarrow> gemm_args \<Rightarrow> dlp_gemm_cntx_t \<Rightarrow> dlp_task_id_t \<Rightarrow> dlp_task_id_t \<Rightarrow>
   (md_t \<times> md_t) \<times> (md_t \<times> md_t) \<Rightarrow> drv_buffers \<Rightarrow> (drv_buffers \<times> action list) option" where
  "jc_loop packa g lcntx thread_jc thread_ic tile =
     (let NC = bs_NC (cx_blksz lcntx);
          ((jc_start, jc_end), (ic_start, ic_end)) = tile
      in for_loop jc_start jc_end (jc_next g lcntx)
           (\<lambda>jc s.
              let nc0 = dlp_min (jc_end - jc) NC;
                  (jc_cur_loop, jc_cur_loop_rem, nc0, n_sub_updated) =
                    (if ga_mtag_b g = REORDERED
                     then dlp_gemm_get_B_panel_reordered_start_offset_width jc (ga_n g) NC packb_min_NR nc0
                     else (jc, 0, nc0, 0));
                  (s, acts, c_use_jc) = c_operand_jc g lcntx ic_start ic_end jc jc_end s;
                  rs_c_use = (if downscaled (ga_c_downscale g) then nc0 else ga_rs_c g)
              in map_option (\<lambda>(s', calls). (s', acts @ calls))
                   (pc_loop packa g lcntx thread_jc thread_ic ic_start ic_end jc nc0 jc_cur_loop jc_cur_loop_rem
                      n_sub_updated c_use_jc rs_c_use s)))"

text \<open>The whole function, without the matrix-vector branch.\<close>

definition gemm_5loop ::
  "(md_t \<Rightarrow> md_t \<Rightarrow> md_t \<Rightarrow> md_t \<Rightarrow> md_t \<times> md_t) \<Rightarrow> gemm_args \<Rightarrow> dlp_gemm_cntx_t \<Rightarrow> dlp_gemm_thrinfo_t \<Rightarrow> action list option" where
  "gemm_5loop packa g lcntx thread =
     (let (thread_jc, thread_ic) = dlp_gemm_gen_dlp_task_ids (Some thread);
          tile = driver_tile thread (ga_m g) (ga_n g) lcntx
      in (case jc_loop packa g lcntx thread_jc thread_ic tile \<lparr>have_b = False, have_a = False, have_c = False\<rparr> of
            None \<Rightarrow> None
          | Some (s, acts) \<Rightarrow>
              Some (acts
                @ (if ga_mtag_b g = PACK
                   then [Wait (work_id thread_jc) (ocomm_id thread_jc)]
                        @ (if dlp_thread_am_ochief thread_ic \<and> have_b s then [Free_b] else [])
                   else [])
                @ (if ga_mtag_a g = PACK \<and> have_a s then [Free_a] else [])
                @ (if downscaled (ga_c_downscale g) \<and> have_c s then [Free_c] else []))))"

section \<open>Matrix times vector\<close>

text \<open>One column: the rows are split over all threads.\<close>

definition gemv_n1 ::
  "(md_t \<Rightarrow> md_t \<Rightarrow> md_t \<Rightarrow> md_t \<Rightarrow> md_t \<times> md_t) \<Rightarrow> gemm_args \<Rightarrow> dlp_gemm_cntx_t \<Rightarrow> dlp_gemm_thrinfo_t \<Rightarrow> action list option" where
  "gemv_n1 packa g lcntx thread =
     (let MC = bs_MC (cx_blksz lcntx);
          MR = 16;
          k = ga_k g;
          thread_ic = snd (dlp_gemm_gen_dlp_task_ids (Some thread));
          pack_b = (ga_mtag_b g = PACK \<and> ga_rs_b g \<noteq> 1);
          b_use = (if pack_b then In_buffer 0 else In_matrix 0);
          thread_ic = thread_ic\<lparr>n_way := (if n_way thread_ic = 1 then thr_n_threads thread else n_way thread_ic),
                                work_id := thr_tid thread\<rparr>;
          (ic_start, ic_end) = dlp_thread_task_range thread_ic (ga_m g) MR False
      in map_option (\<lambda>(s, acts).
             (if pack_b then [Alloc_b k, Pack_b 0 0 1 k] else []) @ acts
             @ (if ga_mtag_a g = PACK \<and> have_a s then [Free_a] else [])
             @ (if pack_b then [Free_b] else []))
           (for_loop ic_start ic_end (\<lambda>ic. ic + MC)
             (\<lambda>ic s.
                let mc0 = dlp_min (ic_end - ic) MC;
                    (s, acts, a_use) =
                      (if ga_mtag_a g = PACK
                       then (s\<lparr>have_a := True\<rparr>,
                             (if have_a s then [] else [Alloc_a (mc0 * k)]) @ [Pack_a (ga_rs_a g * ic) mc0 k],
                             (In_buffer 0, fst (packa (ga_rs_a g) (ga_cs_a g) mc0 k), snd (packa (ga_rs_a g) (ga_cs_a g) mc0 k), 1))
                       else (s, [], (In_matrix (ic * ga_rs_a g), ga_rs_a g, ga_cs_a g, 1)))
                in Some (s, acts @ [Kernel \<lparr>kc_mc0 = mc0, kc_nr0 = 1, kc_kc0 = k, kc_pc = 0, kc_a = fst a_use,
                     kc_a_strides = snd a_use, kc_b = b_use, kc_b_panel = (0, 0), kc_c = C_matrix (ic * ga_rs_c g),
                     kc_rs_c = ga_rs_c g, kc_beta0 = ga_beta g,
                     kc_attr = \<lparr>post_op_c_i = ic, post_op_c_j = 0, is_first_k = True, is_last_k = True\<rparr>\<rparr>]))
             \<lparr>have_b = False, have_a = False, have_c = False\<rparr>))"

text \<open>One row: the columns are split over all threads. \<open>packa_mfringe\<close> stands for the strides of a packed
  row.\<close>

definition gemv_m1 ::
  "(md_t \<Rightarrow> md_t \<Rightarrow> md_t \<times> md_t) \<Rightarrow> gemm_args \<Rightarrow> dlp_gemm_cntx_t \<Rightarrow> dlp_gemm_thrinfo_t \<Rightarrow> action list option" where
  "gemv_m1 packa_mfringe g lcntx thread =
     (let NC = bs_NC (cx_blksz lcntx);
          KC = bs_KC (cx_blksz lcntx);
          k = ga_k g;
          thread_jc = fst (dlp_gemm_gen_dlp_task_ids (Some thread));
          thread_jc = thread_jc\<lparr>n_way := (if n_way thread_jc = 1 then thr_n_threads thread else n_way thread_jc),
                                work_id := thr_tid thread\<rparr>;
          (jc_start, jc_end) = dlp_thread_task_range thread_jc (ga_n g) (bs_NR (cx_blksz lcntx)) False;
          k_updated = dlp_make_multiple_of_n k 4;
          a_use = (if ga_mtag_a g = PACK
                   then (In_buffer 0, fst (packa_mfringe (ga_rs_a g) (ga_cs_a g)), snd (packa_mfringe (ga_rs_a g) (ga_cs_a g)), 1)
                   else (In_matrix 0, ga_rs_a g, 4, 1))
      in map_option (\<lambda>(s, acts).
             (if ga_mtag_a g = PACK then [Alloc_a k, Pack_a 0 1 k] else []) @ acts
             @ (if ga_mtag_b g = PACK \<and> have_b s then [Free_b] else [])
             @ (if ga_mtag_a g = PACK then [Free_a] else []))
           (for_loop jc_start jc_end (jc_next g lcntx)
             (\<lambda>jc s.
                let nc0 = dlp_min (jc_end - jc) NC;
                    (jc_cur_loop, jc_cur_loop_rem, nc0, n_sub_updated) =
                      (if ga_mtag_b g = REORDERED
                       then dlp_gemm_get_B_panel_reordered_start_offset_width jc (ga_n g) NC packb_min_NR nc0
                       else (jc, 0, nc0, if ga_mtag_b g = PACK then dlp_make_multiple_of_n nc0 packb_min_NR else 0));
                    b_use = (if ga_mtag_b g = REORDERED then In_matrix (jc_cur_loop * k_updated)
                             else if ga_mtag_b g = PACK then In_buffer 0 else In_matrix 0);
                    alloc = (if ga_mtag_b g = PACK \<and> \<not> have_b s then [Alloc_b (n_sub_updated * k_updated)] else []);
                    s = (if ga_mtag_b g = PACK then s\<lparr>have_b := True\<rparr> else s)
                in map_option (\<lambda>(s, packs).
                     (s, alloc @ packs @ [Kernel \<lparr>kc_mc0 = 1, kc_nr0 = nc0, kc_kc0 = k, kc_pc = 0, kc_a = fst a_use,
                       kc_a_strides = snd a_use, kc_b = b_use, kc_b_panel = (n_sub_updated, jc_cur_loop_rem),
                       kc_c = C_matrix jc, kc_rs_c = ga_rs_c g, kc_beta0 = ga_beta g,
                       kc_attr = \<lparr>post_op_c_i = 0, post_op_c_j = jc, is_first_k = True, is_last_k = True\<rparr>\<rparr>]))
                    (if ga_mtag_b g = PACK
                     then for_loop 0 k (\<lambda>pc. pc + KC)
                            (\<lambda>pc s. Some (s, [Pack_b (ga_rs_b g * pc + jc * ga_cs_b g) (n_sub_updated * pc) nc0
                                                (dlp_min (k - pc) KC)])) s
                     else Some (s, [])))
             \<lparr>have_b = False, have_a = False, have_c = False\<rparr>))"

section \<open>The entry of the driver\<close>

text \<open>A tag of B other than packed or reordered makes the function return inside its first block of
  depth, after the accumulation buffer was allocated.\<close>

definition dlp_gemm_rowvar_u8s8s32o32 ::
  "bool \<Rightarrow> (md_t \<Rightarrow> md_t \<Rightarrow> md_t \<Rightarrow> md_t \<Rightarrow> md_t \<times> md_t) \<Rightarrow> (md_t \<Rightarrow> md_t \<Rightarrow> md_t \<times> md_t) \<Rightarrow> gemm_args \<Rightarrow> dlp_gemm_cntx_t \<Rightarrow>
   dlp_gemm_thrinfo_t \<Rightarrow> action list option" where
  "dlp_gemm_rowvar_u8s8s32o32 kernels_zen4 packa packa_mfringe g lcntx thread =
     (if ga_mtag_b g = UNPACKED then Some []
      else if kernels_zen4 \<and> (ga_m g = 1 \<or> ga_n g = 1)
      then (if ga_n g = 1 then gemv_n1 packa g lcntx thread else gemv_m1 packa_mfringe g lcntx thread)
      else if ga_mtag_b g \<noteq> PACK \<and> ga_mtag_b g \<noteq> REORDERED
      then (let ((jc_start, jc_end), (ic_start, ic_end)) = driver_tile thread (ga_m g) (ga_n g) lcntx
            in Some (if jc_start < jc_end \<and> ga_k g > 0
                     then fst (snd (c_operand_jc g lcntx ic_start ic_end jc_start jc_end
                                 \<lparr>have_b = False, have_a = False, have_c = False\<rparr>))
                     else []))
      else gemm_5loop packa g lcntx thread)"

section \<open>The kernel calls on an element of C\<close>

text \<open>The calls whose block holds the element \<open>(i, j)\<close>, each as its first depth index, depth and \<open>beta\<close>.\<close>

definition touches :: "kernel_call \<Rightarrow> md_t \<Rightarrow> md_t \<Rightarrow> bool" where
  "touches c i j \<longleftrightarrow> post_op_c_i (kc_attr c) \<le> i \<and> i < post_op_c_i (kc_attr c) + kc_mc0 c
     \<and> post_op_c_j (kc_attr c) \<le> j \<and> j < post_op_c_j (kc_attr c) + kc_nr0 c"

fun kernel_calls :: "action list \<Rightarrow> kernel_call list" where
  "kernel_calls [] = []"
| "kernel_calls (Kernel c # as) = c # kernel_calls as"
| "kernel_calls (_ # as) = kernel_calls as"

definition depth_steps :: "md_t \<Rightarrow> md_t \<Rightarrow> action list \<Rightarrow> (md_t \<times> md_t \<times> int32_t) list" where
  "depth_steps i j as = map (\<lambda>c. (kc_pc c, kc_kc0 c, kc_beta0 c)) (filter (\<lambda>c. touches c i j) (kernel_calls as))"

lemma kernel_calls_append [simp]: "kernel_calls (xs @ ys) = kernel_calls xs @ kernel_calls ys"
  by (induction xs rule: kernel_calls.induct) simp_all

lemma kernel_calls_iff: "c \<in> set (kernel_calls as) \<longleftrightarrow> Kernel c \<in> set as"
  by (induction as rule: kernel_calls.induct) auto

lemma depth_steps_append [simp]: "depth_steps i j (xs @ ys) = depth_steps i j xs @ depth_steps i j ys"
  by (simp add: depth_steps_def)

lemma depth_steps_Nil [simp]: "depth_steps i j [] = []"
  by (simp add: depth_steps_def)

lemma min_block: "0 < b \<Longrightarrow> p < e \<Longrightarrow> p + dlp_min (e - p) b = min (p + b) e"
  by (auto simp: dlp_min_def min_def)

lemma jr_steps:
  assumes "0 < bs_NR (cx_blksz lcntx)"
  shows "\<exists>s' xs. jr_loop g lcntx jc nc0 pc kc0 ic mc0 a_use b_use c_use_ic rs_c_use s = Some (s', xs) \<and>
    depth_steps i j xs = (if ic \<le> i \<and> i < ic + mc0 \<and> jc \<le> j \<and> j < jc + nc0
      then [(pc, kc0, if pc = 0 then ga_beta g else 1)] else [])"
proof -
  let ?NR = "bs_NR (cx_blksz lcntx)"
  let ?one = "[(pc, kc0, if pc = 0 then ga_beta g else 1)]"
  let ?ys = "if ic \<le> i \<and> i < ic + mc0 then ?one else []"
  let ?out = "\<lambda>jr. if jr \<le> j - jc \<and> j - jc < min (jr + ?NR) nc0 then ?ys else []"
  have "\<exists>s' xs. jr_loop g lcntx jc nc0 pc kc0 ic mc0 a_use b_use c_use_ic rs_c_use s = Some (s', xs) \<and> True \<and>
      depth_steps i j xs = concat (map ?out (loop_points 0 nc0 (\<lambda>jr. jr + ?NR)))"
    unfolding jr_loop_def Let_def
  proof (rule for_loop_proj [where I = "\<lambda>_. True"])
    fix jr s assume jr: "0 \<le> jr" "jr < nc0"
    have "j < jc + jr + dlp_min (nc0 - jr) ?NR \<longleftrightarrow> j - jc < min (jr + ?NR) nc0"
      using min_block [OF assms jr(2)] by linarith
    then show "\<exists>s' xs. Some (s, [Kernel \<lparr>kc_mc0 = mc0, kc_nr0 = dlp_min (nc0 - jr) ?NR, kc_kc0 = kc0, kc_pc = pc,
               kc_a = fst a_use, kc_a_strides = snd a_use, kc_b = o_offset b_use (jr * dlp_make_multiple_of_n kc0 4),
               kc_b_panel = (0, 0), kc_c = c_offset c_use_ic jr, kc_rs_c = rs_c_use, kc_beta0 = if pc = 0 then ga_beta g else 1,
               kc_attr = \<lparr>post_op_c_i = ic, post_op_c_j = jc + jr, is_first_k = (pc = 0),
                          is_last_k = (ga_k g \<le> pc + bs_KC (cx_blksz lcntx))\<rparr>\<rparr>]) = Some (s', xs) \<and> True \<and> depth_steps i j xs = ?out jr"
      by (auto simp: depth_steps_def touches_def)
  qed (use assms in simp_all)
  moreover have "concat (map ?out (loop_points 0 nc0 (\<lambda>jr. jr + ?NR))) = (if 0 \<le> j - jc \<and> j - jc < nc0 then ?ys else [])"
    by (rule loop_points_cover [where s = 0]) (use assms in simp_all)
  moreover have "\<dots> = (if ic \<le> i \<and> i < ic + mc0 \<and> jc \<le> j \<and> j < jc + nc0 then ?one else [])" by simp
  ultimately show ?thesis by (simp only:) blast
qed

lemma a_operand_steps: "a_operand packa g lcntx pc kc0 ic mc0 s = (s', acts, a_use) \<Longrightarrow> depth_steps i j acts = []"
  by (auto simp: a_operand_def depth_steps_def Let_def split: if_splits prod.splits)

lemma b_operand_steps: "b_operand g lcntx tj ti jc nc0 a b c pc kc0 s = (s', acts, b_use) \<Longrightarrow> depth_steps i j acts = []"
  by (auto simp: b_operand_def depth_steps_def Let_def split: if_splits prod.splits)

lemma c_operand_steps: "c_operand_jc g lcntx ic_start ic_end jc jc_end s = (s', acts, c_use) \<Longrightarrow> depth_steps i j acts = []"
  by (auto simp: c_operand_jc_def depth_steps_def Let_def split: if_splits)

lemma ic_steps:
  assumes "0 < bs_NR (cx_blksz lcntx)" "0 < bs_MC (cx_blksz lcntx)"
  shows "\<exists>s' xs. ic_loop packa g lcntx ic_start ic_end jc nc0 pc kc0 b_use c_use_jc rs_c_use s = Some (s', xs) \<and>
    depth_steps i j xs = (if ic_start \<le> i \<and> i < ic_end \<and> jc \<le> j \<and> j < jc + nc0
      then [(pc, kc0, if pc = 0 then ga_beta g else 1)] else [])"
proof -
  let ?MC = "bs_MC (cx_blksz lcntx)"
  let ?ys = "if jc \<le> j \<and> j < jc + nc0 then [(pc, kc0, if pc = 0 then ga_beta g else 1)] else []"
  let ?out = "\<lambda>ic. if ic \<le> i \<and> i < min (ic + ?MC) ic_end then ?ys else []"
  have "\<exists>s' xs. ic_loop packa g lcntx ic_start ic_end jc nc0 pc kc0 b_use c_use_jc rs_c_use s = Some (s', xs) \<and> True \<and>
      depth_steps i j xs = concat (map ?out (loop_points ic_start ic_end (\<lambda>ic. ic + ?MC)))"
    unfolding ic_loop_def Let_def
  proof (rule for_loop_proj [where I = "\<lambda>_. True"])
    fix ic s assume ic: "ic_start \<le> ic" "ic < ic_end"
    let ?mc0 = "dlp_min (ic_end - ic) ?MC"
    obtain s1 acts a_use where a: "a_operand packa g lcntx pc kc0 ic ?mc0 s = (s1, acts, a_use)" by (metis prod_cases3)
    let ?c = "if downscaled (ga_c_downscale g) then c_offset c_use_jc (rs_c_use * (ic - ic_start)) else c_offset c_use_jc (rs_c_use * ic)"
    obtain s2 xs where x: "jr_loop g lcntx jc nc0 pc kc0 ic ?mc0 a_use b_use ?c rs_c_use s1 = Some (s2, xs)"
      "depth_steps i j xs = (if ic \<le> i \<and> i < ic + ?mc0 \<and> jc \<le> j \<and> j < jc + nc0
        then [(pc, kc0, if pc = 0 then ga_beta g else 1)] else [])"
      using jr_steps [OF assms(1)] by blast
    have "depth_steps i j (acts @ xs) = ?out ic"
      using x(2) a_operand_steps [OF a] min_block [OF assms(2) ic(2)] by auto
    then show "\<exists>s' xs. (case a_operand packa g lcntx pc kc0 ic ?mc0 s of (s, acts, a_use) \<Rightarrow>
         map_option (\<lambda>(s', calls). (s', acts @ calls)) (jr_loop g lcntx jc nc0 pc kc0 ic ?mc0 a_use b_use ?c rs_c_use s))
       = Some (s', xs) \<and> True \<and> depth_steps i j xs = ?out ic"
      using x(1) by (simp add: a)
  qed (use assms in simp_all)
  moreover have "concat (map ?out (loop_points ic_start ic_end (\<lambda>ic. ic + ?MC))) = (if ic_start \<le> i \<and> i < ic_end then ?ys else [])"
    by (rule loop_points_cover [where s = ic_start]) (use assms in simp_all)
  moreover have "\<dots> = (if ic_start \<le> i \<and> i < ic_end \<and> jc \<le> j \<and> j < jc + nc0
      then [(pc, kc0, if pc = 0 then ga_beta g else 1)] else [])" by simp
  ultimately show ?thesis by (simp only:) blast
qed

text \<open>All the steps along the depth.\<close>

definition all_depth_steps :: "gemm_args \<Rightarrow> md_t \<Rightarrow> (md_t \<times> md_t \<times> int32_t) list" where
  "all_depth_steps g KC = map (\<lambda>pc. (pc, dlp_min (ga_k g - pc) KC, if pc = 0 then ga_beta g else 1))
     (loop_points 0 (ga_k g) (\<lambda>pc. pc + KC))"

lemma pc_steps:
  assumes "blksz_ok (cx_blksz lcntx)"
  shows "\<exists>s' xs. pc_loop packa g lcntx tj ti ic_start ic_end jc nc0 a b c c_use_jc rs_c_use s = Some (s', xs) \<and>
    depth_steps i j xs = (if ic_start \<le> i \<and> i < ic_end \<and> jc \<le> j \<and> j < jc + nc0
      then all_depth_steps g (bs_KC (cx_blksz lcntx)) else [])"
proof -
  let ?KC = "bs_KC (cx_blksz lcntx)"
  have pos: "0 < bs_NR (cx_blksz lcntx)" "0 < bs_MC (cx_blksz lcntx)" "0 < ?KC" using assms by auto
  let ?in = "ic_start \<le> i \<and> i < ic_end \<and> jc \<le> j \<and> j < jc + nc0"
  let ?out = "\<lambda>pc. if ?in then [(pc, dlp_min (ga_k g - pc) ?KC, if pc = 0 then ga_beta g else 1)] else []"
  have "\<exists>s' xs. pc_loop packa g lcntx tj ti ic_start ic_end jc nc0 a b c c_use_jc rs_c_use s = Some (s', xs) \<and> True \<and>
      depth_steps i j xs = concat (map ?out (loop_points 0 (ga_k g) (\<lambda>pc. pc + ?KC)))"
    unfolding pc_loop_def Let_def
  proof (rule for_loop_proj [where I = "\<lambda>_. True"])
    fix pc s assume "0 \<le> pc" "pc < ga_k g"
    let ?kc0 = "dlp_min (ga_k g - pc) ?KC"
    obtain s1 acts b_use where bo: "b_operand g lcntx tj ti jc nc0 a b c pc ?kc0 s = (s1, acts, b_use)" by (metis prod_cases3)
    obtain s2 xs where x: "ic_loop packa g lcntx ic_start ic_end jc nc0 pc ?kc0 b_use c_use_jc rs_c_use s1 = Some (s2, xs)"
      "depth_steps i j xs = ?out pc"
      using ic_steps [OF pos(1,2)] by blast
    then show "\<exists>s' xs. (case b_operand g lcntx tj ti jc nc0 a b c pc ?kc0 s of (s, acts, b_use) \<Rightarrow>
         map_option (\<lambda>(s', calls). (s', acts @ calls))
           (ic_loop packa g lcntx ic_start ic_end jc nc0 pc ?kc0 b_use c_use_jc rs_c_use s))
       = Some (s', xs) \<and> True \<and> depth_steps i j xs = ?out pc"
      using b_operand_steps [OF bo, of i j] by (simp add: bo)
  qed (use pos in simp_all)
  moreover have "concat (map ?out xs) = (if ?in then map (\<lambda>pc. (pc, dlp_min (ga_k g - pc) ?KC, if pc = 0 then ga_beta g else 1)) xs else [])"
    for xs by (induction xs) auto
  ultimately show ?thesis unfolding all_depth_steps_def by (simp only:) blast
qed

text \<open>The chunk of columns of an iteration, in either layout of B: it ends where the next one begins.\<close>

definition chunk_width :: "gemm_args \<Rightarrow> dlp_gemm_cntx_t \<Rightarrow> md_t \<Rightarrow> md_t \<Rightarrow> md_t" where
  "chunk_width g lcntx jc jc_end =
     (let nc0 = dlp_min (jc_end - jc) (bs_NC (cx_blksz lcntx))
      in if ga_mtag_b g = REORDERED
         then fst (snd (snd (dlp_gemm_get_B_panel_reordered_start_offset_width jc (ga_n g) (bs_NC (cx_blksz lcntx)) packb_min_NR nc0)))
         else nc0)"

lemma panel_chunk:
  fixes reordered :: bool and jc jc_end n NC NR :: md_t
  assumes "0 < NC" "0 \<le> jc" "jc < jc_end"
  defines "nxt \<equiv> (if reordered then dlp_gemm_adjust_B_panel_reordered_jc jc
      (fst (dlp_gemm_get_B_panel_reordered_start_offset_width jc n NC NR NC)) else jc) + NC"
    and "w \<equiv> (if reordered then fst (snd (snd (dlp_gemm_get_B_panel_reordered_start_offset_width jc n NC NR (dlp_min (jc_end - jc) NC))))
      else dlp_min (jc_end - jc) NC)"
  shows "jc < nxt" "jc + w = min nxt jc_end" "0 < w"
proof -
  define q where "q = jc div NC"
  have r: "q * NC \<le> jc" "jc < q * NC + NC"
    using div_times_le(1) [OF assms(1), of jc] pos_mod_bound [OF assms(1), of jc] div_mult_mod_eq [of jc NC] unfolding q_def by linarith+
  have s: "jc sdiv NC * NC = q * NC" using assms by (simp add: cdiv_simps q_def)
  have nx: "nxt = (if reordered then q * NC else jc) + NC"
    unfolding nxt_def Let_def dlp_gemm_adjust_B_panel_reordered_jc_def dlp_gemm_get_B_panel_reordered_start_offset_width_def fst_conv s ..
  then show up: "jc < nxt" using r assms(1) by simp
  have w: "w = (let nc0 = dlp_min (jc_end - jc) NC in
      if reordered \<and> jc + nc0 > q * NC + NC then NC - (jc - q * NC) else nc0)"
    by (simp add: w_def dlp_gemm_get_B_panel_reordered_start_offset_width_def Let_def s)
  show e: "jc + w = min nxt jc_end"
    using r assms(1-3) by (auto simp: w nx Let_def dlp_min_def min_def)
  show "0 < w" using e up assms(3) by linarith
qed

lemma chunk_end:
  assumes "0 < bs_NC (cx_blksz lcntx)" "0 \<le> jc" "jc < jc_end"
  shows "jc < jc_next g lcntx jc" "jc + chunk_width g lcntx jc jc_end = min (jc_next g lcntx jc) jc_end" "0 < chunk_width g lcntx jc jc_end"
  using panel_chunk [OF assms, of "ga_mtag_b g = REORDERED" "ga_n g" packb_min_NR]
  by (simp_all add: jc_next_def chunk_width_def Let_def)

lemma jc_steps:
  assumes "blksz_ok (cx_blksz lcntx)" "0 \<le> jc_start"
  shows "\<exists>s' xs. jc_loop packa g lcntx tj ti ((jc_start, jc_end), (ic_start, ic_end)) s = Some (s', xs) \<and>
    depth_steps i j xs = (if in_tile ((jc_start, jc_end), (ic_start, ic_end)) i j
      then all_depth_steps g (bs_KC (cx_blksz lcntx)) else [])"
proof -
  let ?NC = "bs_NC (cx_blksz lcntx)"
  let ?ys = "if ic_start \<le> i \<and> i < ic_end then all_depth_steps g (bs_KC (cx_blksz lcntx)) else []"
  let ?hi = "\<lambda>jc. jc + chunk_width g lcntx jc jc_end"
  let ?out = "\<lambda>jc. if jc \<le> j \<and> j < ?hi jc then ?ys else []"
  have NC: "0 < ?NC" using assms(1) by auto
  have "\<exists>s' xs. jc_loop packa g lcntx tj ti ((jc_start, jc_end), (ic_start, ic_end)) s = Some (s', xs) \<and> True \<and>
      depth_steps i j xs = concat (map ?out (loop_points jc_start jc_end (jc_next g lcntx)))"
    unfolding jc_loop_def Let_def prod.case
  proof (rule for_loop_proj [where I = "\<lambda>_. True"])
    fix jc s assume jc: "jc_start \<le> jc" "jc < jc_end"
    let ?pan = "if ga_mtag_b g = REORDERED
      then dlp_gemm_get_B_panel_reordered_start_offset_width jc (ga_n g) ?NC packb_min_NR (dlp_min (jc_end - jc) ?NC)
      else (jc, 0, dlp_min (jc_end - jc) ?NC, 0)"
    obtain p1 p2 nc0 p4 where p: "?pan = (p1, p2, nc0, p4)" by (metis prod_cases4)
    have nc0: "nc0 = chunk_width g lcntx jc jc_end" using p by (auto simp: chunk_width_def Let_def split: if_splits)
    obtain s1 acts c_use where c: "c_operand_jc g lcntx ic_start ic_end jc jc_end s = (s1, acts, c_use)" by (metis prod_cases3)
    let ?rs = "if downscaled (ga_c_downscale g) then nc0 else ga_rs_c g"
    obtain s2 xs where x: "pc_loop packa g lcntx tj ti ic_start ic_end jc nc0 p1 p2 p4 c_use ?rs s1 = Some (s2, xs)"
      "depth_steps i j xs = (if ic_start \<le> i \<and> i < ic_end \<and> jc \<le> j \<and> j < jc + nc0
        then all_depth_steps g (bs_KC (cx_blksz lcntx)) else [])"
      using pc_steps [OF assms(1)] by blast
    have "depth_steps i j (acts @ xs) = ?out jc" using x(2) c_operand_steps [OF c] by (simp add: nc0)
    then show "\<exists>s' xs. (case ?pan of (jc_cur_loop, jc_cur_loop_rem, nc0, n_sub_updated) \<Rightarrow>
        case c_operand_jc g lcntx ic_start ic_end jc jc_end s of (s, acts, c_use_jc) \<Rightarrow>
          map_option (\<lambda>(s', calls). (s', acts @ calls))
            (pc_loop packa g lcntx tj ti ic_start ic_end jc nc0 jc_cur_loop jc_cur_loop_rem n_sub_updated c_use_jc
              (if downscaled (ga_c_downscale g) then nc0 else ga_rs_c g) s)) = Some (s', xs) \<and> True \<and> depth_steps i j xs = ?out jc"
      unfolding p prod.case c using x(1) by simp
  next
    show "jc < jc_next g lcntx jc" if "jc_start \<le> jc" "jc < jc_end" for jc
      using chunk_end(1) [OF NC] that assms(2) by simp
  qed simp_all
  moreover have "concat (map ?out (loop_points jc_start jc_end (jc_next g lcntx))) =
      (if jc_start \<le> j \<and> j < jc_end then ?ys else [])"
    by (rule loop_points_cover [where s = jc_start]) (use chunk_end(1,2) [OF NC] assms(2) in auto)
  moreover have "\<dots> = (if in_tile ((jc_start, jc_end), (ic_start, ic_end)) i j
      then all_depth_steps g (bs_KC (cx_blksz lcntx)) else [])" by (simp add: in_tile_def)
  ultimately show ?thesis by (simp only:) blast
qed

lemma slice_start_ge_0: "0 \<le> n \<Longrightarrow> 0 < bf \<Longrightarrow> 0 \<le> fst (task_slice False n bf ways w)"
  using high_edge.slice_bounds(1) [of n bf w ways] high_edge.range_retired [of w ways n bf]
  by (cases "0 \<le> w \<and> w < ways") auto

lemma gemm_5loop_steps:
  assumes "blksz_ok (cx_blksz lcntx)" "0 \<le> ga_n g"
  shows "\<exists>as. gemm_5loop packa g lcntx thread = Some as \<and>
    depth_steps i j as = (if in_tile (driver_tile thread (ga_m g) (ga_n g) lcntx) i j
      then all_depth_steps g (bs_KC (cx_blksz lcntx)) else [])"
proof -
  obtain tj ti where t: "dlp_gemm_gen_dlp_task_ids (Some thread) = (tj, ti)" by force
  obtain js je "is" ie where tile: "driver_tile thread (ga_m g) (ga_n g) lcntx = ((js, je), (is, ie))" by (metis prod.exhaust)
  have "js = fst (task_slice False (ga_n g) (bs_NR (cx_blksz lcntx)) (n_way tj) (work_id tj))"
    using tile t by (simp add: driver_tile_def task_range_eq_slice)
  then have js: "0 \<le> js" using assms slice_start_ge_0 by auto
  obtain s xs where x: "jc_loop packa g lcntx tj ti ((js, je), (is, ie)) \<lparr>have_b = False, have_a = False, have_c = False\<rparr> = Some (s, xs)"
    "depth_steps i j xs = (if in_tile ((js, je), (is, ie)) i j then all_depth_steps g (bs_KC (cx_blksz lcntx)) else [])"
    using jc_steps [OF assms(1) js] by blast
  have tail: "depth_steps i j (if ga_mtag_b g = PACK then [Wait (work_id tj) (ocomm_id tj)]
      @ (if dlp_thread_am_ochief ti \<and> have_b s then [Free_b] else []) else []) = []"
    "depth_steps i j (if ga_mtag_a g = PACK \<and> have_a s then [Free_a] else []) = []"
    "depth_steps i j (if downscaled (ga_c_downscale g) \<and> have_c s then [Free_c] else []) = []"
    by (simp_all add: depth_steps_def)
  show ?thesis
    unfolding gemm_5loop_def t tile Let_def prod.case x(1) option.case
    by (intro exI conjI, rule refl) (simp only: depth_steps_append x(2) tail append_Nil2)
qed

section \<open>What the kernel calls compute\<close>

lemma sum_blocks: "a \<le> b \<Longrightarrow> b \<le> c \<Longrightarrow> sum f {a..<b} + sum f {b..<c} = sum f {a..<c}" for a b c :: int
  by (subst sum.union_disjoint [symmetric]) (simp_all add: ivl_disj_un)

text \<open>The contract of the kernel on a plain 32-bit result: a call changes exactly the elements of its
  block, to \<open>beta0\<close> times the old value plus \<open>alpha\<close> times the partial product over its depth range.\<close>

locale tile_kernel =
  fixes alpha :: int32_t and A B :: "md_t \<Rightarrow> md_t \<Rightarrow> int32_t"
    and kern :: "kernel_call \<Rightarrow> (md_t \<Rightarrow> md_t \<Rightarrow> int32_t) \<Rightarrow> md_t \<Rightarrow> md_t \<Rightarrow> int32_t"
  assumes kern_inside: "touches c i j \<Longrightarrow>
      kern c C i j = kc_beta0 c * C i j + alpha * (\<Sum>p \<in> {kc_pc c..<kc_pc c + kc_kc0 c}. A i p * B p j)"
    and kern_outside: "\<not> touches c i j \<Longrightarrow> kern c C i j = C i j"
begin

definition depth_step :: "md_t \<Rightarrow> md_t \<Rightarrow> md_t \<times> md_t \<times> int32_t \<Rightarrow> int32_t \<Rightarrow> int32_t" where
  "depth_step i j st v = (case st of (pc, kc0, beta0) \<Rightarrow> beta0 * v + alpha * (\<Sum>p \<in> {pc..<pc + kc0}. A i p * B p j))"

lemma run_at:
  "fold kern cs C i j = fold (depth_step i j) (map (\<lambda>c. (kc_pc c, kc_kc0 c, kc_beta0 c)) (filter (\<lambda>c. touches c i j) cs)) (C i j)"
  by (induction cs arbitrary: C) (simp_all add: depth_step_def kern_inside kern_outside)

lemma run_rest:
  assumes "0 < KC" "0 < pc"
  shows "fold (depth_step i j) (map (\<lambda>pc. (pc, dlp_min (k - pc) KC, if pc = 0 then b else 1)) (loop_points pc k (\<lambda>pc. pc + KC))) v
    = v + alpha * (\<Sum>p \<in> {pc..<k}. A i p * B p j)"
  using assms(2)
proof (induction "nat (k - pc)" arbitrary: pc v rule: less_induct)
  case less
  show ?case
  proof (cases "pc < k")
    case False
    then show ?thesis by (simp add: loop_points.simps)
  next
    case True
    let ?sum = "\<lambda>a e. \<Sum>p \<in> {a..<e}. A i p * B p j"
    have pts: "loop_points pc k (\<lambda>pc. pc + KC) = pc # loop_points (pc + KC) k (\<lambda>pc. pc + KC)"
      using True assms(1) by (subst loop_points.simps) simp
    have "nat (k - (pc + KC)) < nat (k - pc)" "0 < pc + KC" using True assms(1) less.prems by simp_all
    note IH = less.hyps [OF this]
    have "?sum pc (pc + dlp_min (k - pc) KC) + ?sum (pc + KC) k = ?sum pc k"
    proof (cases "pc + KC \<le> k")
      case True
      then have "pc + dlp_min (k - pc) KC = pc + KC" by (simp add: dlp_min_def)
      then show ?thesis using sum_blocks [of pc "pc + KC" k] True assms(1) by simp
    qed (simp add: dlp_min_def)
    then show ?thesis
      unfolding pts list.map fold_simps IH
      using less.prems by (simp add: depth_step_def add.assoc flip: distrib_left)
  qed
qed

lemma run_all_depth:
  assumes "0 < KC" "0 < ga_k g"
  shows "fold (depth_step i j) (all_depth_steps g KC) v = ga_beta g * v + alpha * (\<Sum>p \<in> {0..<ga_k g}. A i p * B p j)"
proof -
  let ?sum = "\<lambda>a e. \<Sum>p \<in> {a..<e}. A i p * B p j"
  have pts: "loop_points 0 (ga_k g) (\<lambda>pc. pc + KC) = 0 # loop_points KC (ga_k g) (\<lambda>pc. pc + KC)"
    using assms by (subst loop_points.simps) simp
  have "?sum 0 (dlp_min (ga_k g) KC) + ?sum KC (ga_k g) = ?sum 0 (ga_k g)"
    using sum_blocks [of 0 KC "ga_k g"] assms by (cases "KC \<le> ga_k g") (simp_all add: dlp_min_def)
  then show ?thesis
    unfolding all_depth_steps_def pts list.map fold_simps run_rest [OF assms(1) assms(1)]
    by (simp add: depth_step_def algebra_simps flip: distrib_left)
qed

end

text \<open>A reference kernel with that contract.\<close>

definition tile_update ::
  "int32_t \<Rightarrow> (md_t \<Rightarrow> md_t \<Rightarrow> int32_t) \<Rightarrow> (md_t \<Rightarrow> md_t \<Rightarrow> int32_t) \<Rightarrow> kernel_call \<Rightarrow> (md_t \<Rightarrow> md_t \<Rightarrow> int32_t) \<Rightarrow> md_t \<Rightarrow> md_t \<Rightarrow> int32_t" where
  "tile_update alpha A B c C = (\<lambda>i j. if touches c i j
     then kc_beta0 c * C i j + alpha * (\<Sum>p \<in> {kc_pc c..<kc_pc c + kc_kc0 c}. A i p * B p j) else C i j)"

interpretation ref_kernel: tile_kernel alpha A B "tile_update alpha A B"
  by unfold_locales (simp_all add: tile_update_def)

section \<open>Threads of a group meet at the same barriers\<close>

fun waits :: "action list \<Rightarrow> md_t list" where
  "waits [] = []"
| "waits (Wait c _ # as) = c # waits as"
| "waits (_ # as) = waits as"

lemma waits_append [simp]: "waits (xs @ ys) = waits xs @ waits ys"
  by (induction xs rule: waits.induct) simp_all

lemma concat_Nils [simp]: "concat (map (\<lambda>_. []) xs) = []"
  by (induction xs) simp_all

lemma jr_waits:
  assumes "0 < bs_NR (cx_blksz lcntx)"
  shows "\<exists>s' xs. jr_loop g lcntx jc nc0 pc kc0 ic mc0 a_use b_use c_use_ic rs_c_use s = Some (s', xs) \<and> waits xs = []"
  using for_loop_proj [where I = "\<lambda>_. True" and proj = waits and out = "\<lambda>_. []" and i = 0 and ?i0.0 = 0 and e = nc0 and s = s
      and nxt = "\<lambda>jr. jr + bs_NR (cx_blksz lcntx)"] assms
  by (simp add: jr_loop_def Let_def)

lemma ic_waits:
  assumes "0 < bs_NR (cx_blksz lcntx)" "0 < bs_MC (cx_blksz lcntx)"
  shows "\<exists>s' xs. ic_loop packa g lcntx ic_start ic_end jc nc0 pc kc0 b_use c_use_jc rs_c_use s = Some (s', xs) \<and> waits xs = []"
proof -
  have "\<exists>s' xs. ic_loop packa g lcntx ic_start ic_end jc nc0 pc kc0 b_use c_use_jc rs_c_use s = Some (s', xs) \<and> True \<and>
      waits xs = concat (map (\<lambda>_. []) (loop_points ic_start ic_end (\<lambda>ic. ic + bs_MC (cx_blksz lcntx))))"
    unfolding ic_loop_def Let_def
  proof (rule for_loop_proj [where I = "\<lambda>_. True" and ?i0.0 = ic_start])
    fix ic s
    let ?mc0 = "dlp_min (ic_end - ic) (bs_MC (cx_blksz lcntx))"
    let ?c = "if downscaled (ga_c_downscale g) then c_offset c_use_jc (rs_c_use * (ic - ic_start)) else c_offset c_use_jc (rs_c_use * ic)"
    obtain s1 acts a_use where a: "a_operand packa g lcntx pc kc0 ic ?mc0 s = (s1, acts, a_use)" by (metis prod_cases3)
    have "waits acts = []" using a by (auto simp: a_operand_def Let_def split: if_splits prod.splits)
    then show "\<exists>s' xs. (case a_operand packa g lcntx pc kc0 ic ?mc0 s of (s, acts, a_use) \<Rightarrow>
         map_option (\<lambda>(s', calls). (s', acts @ calls)) (jr_loop g lcntx jc nc0 pc kc0 ic ?mc0 a_use b_use ?c rs_c_use s))
       = Some (s', xs) \<and> True \<and> waits xs = []"
      using jr_waits [OF assms(1), of g jc nc0 pc kc0 ic ?mc0 a_use b_use ?c rs_c_use s1] by (auto simp: a)
  qed (use assms in simp_all)
  then show ?thesis by simp
qed

lemma pc_waits:
  assumes "blksz_ok (cx_blksz lcntx)" "ga_mtag_b g = PACK"
  shows "\<exists>s' xs. pc_loop packa g lcntx tj ti ic_start ic_end jc nc0 a b c c_use_jc rs_c_use s = Some (s', xs) \<and>
    waits xs = concat (map (\<lambda>_. [work_id tj, work_id tj]) (loop_points 0 (ga_k g) (\<lambda>pc. pc + bs_KC (cx_blksz lcntx))))"
proof -
  have pos: "0 < bs_NR (cx_blksz lcntx)" "0 < bs_MC (cx_blksz lcntx)" "0 < bs_KC (cx_blksz lcntx)" using assms(1) by auto
  have "\<exists>s' xs. pc_loop packa g lcntx tj ti ic_start ic_end jc nc0 a b c c_use_jc rs_c_use s = Some (s', xs) \<and> True \<and>
      waits xs = concat (map (\<lambda>_. [work_id tj, work_id tj]) (loop_points 0 (ga_k g) (\<lambda>pc. pc + bs_KC (cx_blksz lcntx))))"
    unfolding pc_loop_def Let_def
  proof (rule for_loop_proj [where I = "\<lambda>_. True" and ?i0.0 = 0])
    fix pc s
    let ?kc0 = "dlp_min (ga_k g - pc) (bs_KC (cx_blksz lcntx))"
    obtain s1 acts b_use where bo: "b_operand g lcntx tj ti jc nc0 a b c pc ?kc0 s = (s1, acts, b_use)" by (metis prod_cases3)
    have "waits acts = [work_id tj, work_id tj]"
      using bo assms(2) by (auto simp: b_operand_def Let_def split: if_splits prod.splits)
    then show "\<exists>s' xs. (case b_operand g lcntx tj ti jc nc0 a b c pc ?kc0 s of (s, acts, b_use) \<Rightarrow>
         map_option (\<lambda>(s', calls). (s', acts @ calls))
           (ic_loop packa g lcntx ic_start ic_end jc nc0 pc ?kc0 b_use c_use_jc rs_c_use s))
       = Some (s', xs) \<and> True \<and> waits xs = [work_id tj, work_id tj]"
      using ic_waits [OF pos(1,2), of packa g ic_start ic_end jc nc0 pc ?kc0 b_use c_use_jc rs_c_use s1] by (auto simp: bo)
  qed (use pos in simp_all)
  then show ?thesis by simp
qed

text \<open>The barriers of a thread with packed B: two per block of B, one at the end.\<close>

definition group_waits :: "gemm_args \<Rightarrow> dlp_gemm_cntx_t \<Rightarrow> md_t \<times> md_t \<Rightarrow> md_t \<Rightarrow> md_t list" where
  "group_waits g lcntx jc_range c =
     concat (map (\<lambda>_. concat (map (\<lambda>_. [c, c]) (loop_points 0 (ga_k g) (\<lambda>pc. pc + bs_KC (cx_blksz lcntx)))))
       (loop_points (fst jc_range) (snd jc_range) (jc_next g lcntx))) @ [c]"

lemma jc_waits:
  assumes "blksz_ok (cx_blksz lcntx)" "ga_mtag_b g = PACK" "0 \<le> jc_start"
  shows "\<exists>s' xs. jc_loop packa g lcntx tj ti ((jc_start, jc_end), (ic_start, ic_end)) s = Some (s', xs) \<and>
    waits xs @ [work_id tj] = group_waits g lcntx (jc_start, jc_end) (work_id tj)"
proof -
  let ?w = "\<lambda>_. concat (map (\<lambda>_. [work_id tj, work_id tj]) (loop_points 0 (ga_k g) (\<lambda>pc. pc + bs_KC (cx_blksz lcntx))))"
  have NC: "0 < bs_NC (cx_blksz lcntx)" using assms(1) by auto
  have "\<exists>s' xs. jc_loop packa g lcntx tj ti ((jc_start, jc_end), (ic_start, ic_end)) s = Some (s', xs) \<and> True \<and>
      waits xs = concat (map ?w (loop_points jc_start jc_end (jc_next g lcntx)))"
    unfolding jc_loop_def Let_def prod.case
  proof (rule for_loop_proj [where I = "\<lambda>_. True" and ?i0.0 = jc_start])
    fix jc s
    let ?nc0 = "dlp_min (jc_end - jc) (bs_NC (cx_blksz lcntx))"
    obtain s1 acts c_use where c: "c_operand_jc g lcntx ic_start ic_end jc jc_end s = (s1, acts, c_use)" by (metis prod_cases3)
    have "waits acts = []" using c by (auto simp: c_operand_jc_def Let_def split: if_splits)
    then show "\<exists>s' xs. (case if ga_mtag_b g = REORDERED
          then dlp_gemm_get_B_panel_reordered_start_offset_width jc (ga_n g) (bs_NC (cx_blksz lcntx)) packb_min_NR ?nc0
          else (jc, 0, ?nc0, 0) of (jc_cur_loop, jc_cur_loop_rem, nc0, n_sub_updated) \<Rightarrow>
        case c_operand_jc g lcntx ic_start ic_end jc jc_end s of (s, acts, c_use_jc) \<Rightarrow>
          map_option (\<lambda>(s', calls). (s', acts @ calls))
            (pc_loop packa g lcntx tj ti ic_start ic_end jc nc0 jc_cur_loop jc_cur_loop_rem n_sub_updated c_use_jc
              (if downscaled (ga_c_downscale g) then nc0 else ga_rs_c g) s)) = Some (s', xs) \<and> True \<and> waits xs = ?w jc"
      using pc_waits [OF assms(1,2), of packa tj ti ic_start ic_end jc ?nc0 jc 0 0 c_use
          "if downscaled (ga_c_downscale g) then ?nc0 else ga_rs_c g" s1]
      by (auto simp: c assms(2))
  next
    show "jc < jc_next g lcntx jc" if "jc_start \<le> jc" "jc < jc_end" for jc
      using chunk_end(1) [OF NC] that assms(3) by simp
  qed simp_all
  then show ?thesis by (simp add: group_waits_def)
qed

lemma gemm_5loop_waits:
  assumes "blksz_ok (cx_blksz lcntx)" "0 \<le> ga_n g" "ga_mtag_b g = PACK"
    and "gemm_5loop packa g lcntx thread = Some as" "dlp_gemm_gen_dlp_task_ids (Some thread) = (tj, ti)"
  shows "waits as = group_waits g lcntx (dlp_thread_task_range tj (ga_n g) (bs_NR (cx_blksz lcntx)) False) (work_id tj)"
proof -
  obtain js je "is" ie where tile: "driver_tile thread (ga_m g) (ga_n g) lcntx = ((js, je), (is, ie))" by (metis prod.exhaust)
  have j: "dlp_thread_task_range tj (ga_n g) (bs_NR (cx_blksz lcntx)) False = (js, je)"
    using tile assms(5) by (simp add: driver_tile_def)
  then have "0 \<le> js" using slice_start_ge_0 [of "ga_n g" "bs_NR (cx_blksz lcntx)" "n_way tj" "work_id tj"] assms(1,2)
    by (auto simp: task_range_eq_slice)
  from jc_waits [OF assms(1,3) this] obtain s xs
    where x: "jc_loop packa g lcntx tj ti ((js, je), (is, ie)) \<lparr>have_b = False, have_a = False, have_c = False\<rparr> = Some (s, xs)"
      "waits xs @ [work_id tj] = group_waits g lcntx (js, je) (work_id tj)" by blast
  show ?thesis
    using assms(3,4) x by (auto simp: gemm_5loop_def assms(5) tile j)
qed

text \<open>C37: With a packed B the threads of a column group run through the same barriers, all on their own
  communicator and equally often, whatever their rows: with the barrier's arrival count set to the size of
  the group, none of them waits for a partner that never comes.\<close>

theorem group_barriers_match:
  assumes "blksz_ok (cx_blksz lcntx)" "0 \<le> ga_n g" "ga_mtag_b g = PACK"
    and "gemm_5loop packa g lcntx t1 = Some as1" "gemm_5loop packa g lcntx t2 = Some as2"
    and "thr_ic_ways t1 = thr_ic_ways t2" "thr_jc_ways t1 = thr_jc_ways t2"
    and "thr_tid t1 sdiv thr_ic_ways t1 = thr_tid t2 sdiv thr_ic_ways t2"
  shows "waits as1 = waits as2 \<and> waits as1 \<noteq> [] \<and> set (waits as1) = {thr_tid t1 sdiv thr_ic_ways t1}"
proof -
  obtain tj1 ti1 tj2 ti2 where g: "dlp_gemm_gen_dlp_task_ids (Some t1) = (tj1, ti1)"
    "dlp_gemm_gen_dlp_task_ids (Some t2) = (tj2, ti2)" by force
  have w: "work_id tj1 = thr_tid t1 sdiv thr_ic_ways t1" "work_id tj2 = thr_tid t2 sdiv thr_ic_ways t2"
    "n_way tj1 = thr_jc_ways t1" "n_way tj2 = thr_jc_ways t2"
    using g by (auto simp: dlp_gemm_gen_dlp_task_ids_def Let_def)
  have "dlp_thread_task_range tj1 (ga_n g) (bs_NR (cx_blksz lcntx)) False =
      dlp_thread_task_range tj2 (ga_n g) (bs_NR (cx_blksz lcntx)) False"
    using w assms(7,8) by (simp add: task_range_eq_slice)
  then have "waits as1 = waits as2"
    using gemm_5loop_waits [OF assms(1-4) g(1)] gemm_5loop_waits [OF assms(1-3,5) g(2)] w assms(8) by simp
  moreover have "set (group_waits g lcntx r c) = {c}" "group_waits g lcntx r c \<noteq> []" for r c
    by (auto simp: group_waits_def)
  ultimately show ?thesis using gemm_5loop_waits [OF assms(1-4) g(1)] w(1) by metis
qed

definition example_args :: "md_t \<Rightarrow> md_t \<Rightarrow> md_t \<Rightarrow> AOCL_DLP_MEMORY_TAG \<Rightarrow> gemm_args" where
  "example_args m n k mtag_b = \<lparr>ga_m = m, ga_n = n, ga_k = k, ga_rs_a = k, ga_cs_a = 1, ga_mtag_a = UNPACKED, ga_rs_b = n, ga_cs_b = 1,
     ga_mtag_b = mtag_b, ga_rs_c = n, ga_beta = 1, ga_c_downscale = DLP_S32\<rparr>"

definition example_thread :: "md_t \<Rightarrow> dlp_gemm_thrinfo_t" where
  "example_thread tid = \<lparr>thr_n_threads = 4, thr_tid = tid, thr_ic_ways = 2, thr_jc_ways = 2\<rparr>"

theorem group_barriers_match_witness:
  "\<exists>as1 as2. gemm_5loop (\<lambda>_ _ _ _. (4, 24)) (example_args 20 100 9 PACK) (example_cntx 12 64 8 6 32) (example_thread 2) = Some as1 \<and>
     gemm_5loop (\<lambda>_ _ _ _. (4, 24)) (example_args 20 100 9 PACK) (example_cntx 12 64 8 6 32) (example_thread 3) = Some as2 \<and>
     waits as1 = waits as2 \<and> set (waits as1) = {1}"
proof -
  have ok: "blksz_ok (cx_blksz (example_cntx 12 64 8 6 32))" "0 \<le> ga_n (example_args 20 100 9 PACK)"
    by (simp_all add: blksz_ok_def example_cntx_def example_args_def)
  obtain as1 as2 where as: "gemm_5loop (\<lambda>_ _ _ _. (4, 24)) (example_args 20 100 9 PACK) (example_cntx 12 64 8 6 32) (example_thread 2) = Some as1"
    "gemm_5loop (\<lambda>_ _ _ _. (4, 24)) (example_args 20 100 9 PACK) (example_cntx 12 64 8 6 32) (example_thread 3) = Some as2"
    using gemm_5loop_steps [OF ok] by blast
  have "thr_tid (example_thread 2) sdiv thr_ic_ways (example_thread 2) = 1"
    "thr_tid (example_thread 3) sdiv thr_ic_ways (example_thread 3) = 1"
    by (simp_all add: example_thread_def)
  moreover have "ga_mtag_b (example_args 20 100 9 PACK) = PACK" by (simp add: example_args_def)
  moreover have "thr_ic_ways (example_thread 2) = thr_ic_ways (example_thread 3)"
    "thr_jc_ways (example_thread 2) = thr_jc_ways (example_thread 3)" by (simp_all add: example_thread_def)
  ultimately show ?thesis using group_barriers_match [OF ok _ as] as by metis
qed

end
