(* ===== verification/Driver_Buffers.thy ===== *)
theory Driver_Buffers
  imports Gemm_Driver
begin

text \<open>
  Memory safety of the buffers the driver of \<open>Gemm_Driver\<close> allocates: the pack buffer a column group
  shares, the pack buffer of A and the accumulation buffer of a downscaled result.
\<close>

section \<open>Every access to a buffer is inside it\<close>

lemma for_loop_inv:
  assumes step: "\<And>i s. i0 \<le> i \<Longrightarrow> i < e \<Longrightarrow> I i s \<Longrightarrow> \<exists>s' xs. body i s = Some (s', xs) \<and> I (nxt i) s' \<and> list_all P xs"
    and up: "\<And>i. i0 \<le> i \<Longrightarrow> i < e \<Longrightarrow> i < nxt i" and "i0 \<le> i" "I i s"
  shows "\<exists>s' xs j. for_loop i e nxt body s = Some (s', xs) \<and> list_all P xs \<and> I j s' \<and> e \<le> j \<and> (i < e \<longrightarrow> i < j)"
  using assms(3,4)
proof (induction "nat (e - i)" arbitrary: i s rule: less_induct)
  case less
  show ?case
  proof (cases "i < e")
    case False
    then show ?thesis using less.prems by (subst for_loop.simps) auto
  next
    case True
    obtain s' xs where b: "body i s = Some (s', xs)" "I (nxt i) s'" "list_all P xs" using step less.prems True by blast
    have up': "i < nxt i" using up less.prems True by blast
    have "nat (e - nxt i) < nat (e - i)" using up' True by simp
    then obtain s'' ys j where r: "for_loop (nxt i) e nxt body s' = Some (s'', ys)" "list_all P ys" "I j s''" "e \<le> j"
      using less.hyps [of "nxt i" s'] b(2) up' less.prems by auto
    have "for_loop i e nxt body s = Some (s'', xs @ ys)" using True up' b(1) r(1) by (subst for_loop.simps) simp
    then show ?thesis using b(3) r(2,3,4) True by auto
  qed
qed

abbreviation up4 :: "md_t \<Rightarrow> md_t" where "up4 k \<equiv> dlp_make_multiple_of_n k 4"

abbreviation up16 :: "md_t \<Rightarrow> md_t" where "up16 n \<equiv> dlp_make_multiple_of_n n packb_min_NR"

text \<open>The buffers hold \<open>bsz\<close> and \<open>asz\<close> bytes and \<open>csz\<close> 32-bit elements. A packed panel of \<open>w\<close> columns and
  depth \<open>d\<close> takes \<open>w\<close> rounded up to 16 times \<open>d\<close> rounded up to 4 bytes, a packed block of A its rows times
  its depth rounded up to 4; a kernel reads a panel and updates its rows of the accumulation buffer.\<close>

fun panel_in :: "md_t \<Rightarrow> operand \<Rightarrow> md_t \<Rightarrow> md_t \<Rightarrow> bool" where
  "panel_in bsz (In_buffer off) w d \<longleftrightarrow> 0 \<le> off \<and> off + up16 w * up4 d \<le> bsz"
| "panel_in bsz (In_matrix _) w d \<longleftrightarrow> True"

fun rows_in :: "md_t \<Rightarrow> c_operand \<Rightarrow> md_t \<Rightarrow> md_t \<Rightarrow> md_t \<Rightarrow> bool" where
  "rows_in csz (C_temp off) rows rs w \<longleftrightarrow> 0 \<le> off \<and> off + (rows - 1) * rs + w \<le> csz"
| "rows_in csz _ rows rs w \<longleftrightarrow> True"

fun fits :: "md_t \<Rightarrow> md_t \<Rightarrow> md_t \<Rightarrow> action \<Rightarrow> bool" where
  "fits bsz asz csz (Alloc_b sz) \<longleftrightarrow> sz = bsz"
| "fits bsz asz csz (Alloc_a sz) \<longleftrightarrow> sz = asz"
| "fits bsz asz csz (Alloc_c sz) \<longleftrightarrow> sz = 4 * csz"
| "fits bsz asz csz (Pack_b src dst w d) \<longleftrightarrow> 0 \<le> dst \<and> dst + up16 w * up4 d \<le> bsz"
| "fits bsz asz csz (Pack_a src rows d) \<longleftrightarrow> rows * up4 d \<le> asz"
| "fits bsz asz csz (Kernel c) \<longleftrightarrow>
     panel_in bsz (kc_b c) (kc_nr0 c) (kc_kc0 c) \<and> rows_in csz (kc_c c) (kc_mc0 c) (kc_rs_c c) (kc_nr0 c)"
| "fits bsz asz csz _ \<longleftrightarrow> True"

lemma make_multiple_add: "0 \<le> a \<Longrightarrow> 0 \<le> k \<Longrightarrow> 0 < n \<Longrightarrow> n dvd a \<Longrightarrow> dlp_make_multiple_of_n (a + k) n = a + dlp_make_multiple_of_n k n"
proof -
  assume a: "0 \<le> a" "0 \<le> k" "0 < n" "n dvd a"
  then have "(a + k) mod n = k mod n" using mod_add_left_eq [of a n k] by (simp add: dvd_imp_mod_0)
  then show ?thesis using a by (simp add: make_multiple_eq)
qed

text \<open>A run of whole panels that starts on a multiple of 16 ends inside the rounded width.\<close>

lemma panel_fits:
  assumes "0 \<le> a" "0 \<le> w" "a + w \<le> nc0" "packb_min_NR dvd a" "0 \<le> d" "up16 nc0 * up4 d \<le> bsz"
  shows "0 \<le> a * up4 d \<and> a * up4 d + up16 w * up4 d \<le> bsz"
proof -
  have d: "0 \<le> up4 d" using make_multiple_bounds [of d 4] assms(5) by linarith
  have "a + up16 w = up16 (a + w)" using make_multiple_add [of a w packb_min_NR] assms by (simp add: packb_min_NR_def)
  also have "\<dots> \<le> up16 nc0" using assms by (intro make_multiple_mono) (simp_all add: packb_min_NR_def)
  finally have "(a + up16 w) * up4 d \<le> up16 nc0 * up4 d" using d by (rule mult_right_mono)
  then show ?thesis using d assms(1,6) by (simp add: distrib_right)
qed

lemma jr_fits:
  assumes "0 < bs_NR (cx_blksz lcntx)" "packb_min_NR dvd bs_NR (cx_blksz lcntx)" "0 \<le> kc0" "0 < mc0"
    and "\<And>o1. b_use = In_buffer o1 \<Longrightarrow> o1 = 0 \<and> up16 nc0 * up4 kc0 \<le> bsz"
    and "\<And>o1. c_use_ic = C_temp o1 \<Longrightarrow> rs_c_use = nc0 \<and> 0 \<le> o1 \<and> o1 + nc0 * mc0 \<le> csz"
  shows "\<exists>xs. jr_loop g lcntx jc nc0 pc kc0 ic mc0 a_use b_use c_use_ic rs_c_use s = Some (s, xs) \<and> list_all (fits bsz asz csz) xs"
proof -
  let ?NR = "bs_NR (cx_blksz lcntx)"
  have "\<exists>s' xs j. jr_loop g lcntx jc nc0 pc kc0 ic mc0 a_use b_use c_use_ic rs_c_use s = Some (s', xs)
      \<and> list_all (fits bsz asz csz) xs \<and> (s' = s \<and> ?NR dvd j) \<and> nc0 \<le> j \<and> (0 < nc0 \<longrightarrow> 0 < j)"
    unfolding jr_loop_def Let_def
  proof (rule for_loop_inv [where ?i0.0 = 0 and I = "\<lambda>j s'. s' = s \<and> ?NR dvd j"])
    fix jr s' assume jr: "0 \<le> jr" "jr < nc0" "s' = s \<and> ?NR dvd jr"
    let ?nr0 = "dlp_min (nc0 - jr) ?NR"
    have nr: "0 \<le> ?nr0" "jr + ?nr0 \<le> nc0" using jr assms(1) by (simp_all add: dlp_min_def)
    have d: "packb_min_NR dvd jr" using jr(3) assms(2) by (blast intro: dvd_trans)
    have "panel_in bsz (o_offset b_use (jr * up4 kc0)) ?nr0 kc0"
      using panel_fits [OF jr(1) nr d assms(3)] assms(5) by (cases b_use) (auto simp: o_offset_def)
    moreover have "rows_in csz (c_offset c_use_ic jr) mc0 rs_c_use ?nr0"
      using assms(6) jr(1) nr by (cases c_use_ic) (fastforce simp: c_offset_def algebra_simps)+
    ultimately show "\<exists>s'' xs. Some (s', [Kernel \<lparr>kc_mc0 = mc0, kc_nr0 = ?nr0, kc_kc0 = kc0, kc_pc = pc,
               kc_a = fst a_use, kc_a_strides = snd a_use, kc_b = o_offset b_use (jr * up4 kc0),
               kc_b_panel = (0, 0), kc_c = c_offset c_use_ic jr, kc_rs_c = rs_c_use, kc_beta0 = if pc = 0 then ga_beta g else 1,
               kc_attr = \<lparr>post_op_c_i = ic, post_op_c_j = jc + jr, is_first_k = (pc = 0),
                          is_last_k = (ga_k g \<le> pc + bs_KC (cx_blksz lcntx))\<rparr>\<rparr>]) = Some (s'', xs)
       \<and> (s'' = s \<and> ?NR dvd jr + ?NR) \<and> list_all (fits bsz asz csz) xs"
      using jr(3) by simp
  qed (use assms(1) in simp_all)
  then show ?thesis by blast
qed

lemma ic_fits:
  assumes "blksz_ok (cx_blksz lcntx)" "packb_min_NR dvd bs_NR (cx_blksz lcntx)" "0 \<le> kc0" "0 \<le> nc0"
    and B: "\<And>o1. b_use = In_buffer o1 \<Longrightarrow> o1 = 0 \<and> up16 nc0 * up4 kc0 \<le> bsz"
    and C: "\<And>o1. c_use_jc = C_temp o1 \<Longrightarrow> o1 = 0 \<and> downscaled (ga_c_downscale g) \<and> rs_c_use = nc0 \<and> nc0 * (ic_end - ic_start) \<le> csz"
    and A: "dlp_min (ic_end - ic_start) (bs_MC (cx_blksz lcntx)) * up4 kc0 \<le> asz"
    and first: "have_a s \<or> ga_mtag_a g \<noteq> PACK \<or> ic_end \<le> ic_start \<or>
      dlp_min (ic_end - ic_start) (bs_MC (cx_blksz lcntx)) * up4 kc0 = asz"
  shows "\<exists>s' xs. ic_loop packa g lcntx ic_start ic_end jc nc0 pc kc0 b_use c_use_jc rs_c_use s = Some (s', xs)
    \<and> list_all (fits bsz asz csz) xs \<and> have_b s' = have_b s \<and> have_c s' = have_c s
    \<and> (have_a s \<or> ga_mtag_a g = PACK \<and> ic_start < ic_end \<longrightarrow> have_a s')"
proof -
  let ?MC = "bs_MC (cx_blksz lcntx)"
  let ?I = "\<lambda>ic (s' :: drv_buffers). have_b s' = have_b s \<and> have_c s' = have_c s \<and> (have_a s \<longrightarrow> have_a s') \<and>
     (have_a s' \<or> ic = ic_start \<or> ga_mtag_a g \<noteq> PACK)"
  have pos: "0 < bs_NR (cx_blksz lcntx)" "0 < ?MC" using assms(1) by auto
  have k4: "0 \<le> up4 kc0" using make_multiple_bounds [of kc0 4] assms(3) by linarith
  have "\<exists>s' xs j. ic_loop packa g lcntx ic_start ic_end jc nc0 pc kc0 b_use c_use_jc rs_c_use s = Some (s', xs)
      \<and> list_all (fits bsz asz csz) xs \<and> ?I j s' \<and> ic_end \<le> j \<and> (ic_start < ic_end \<longrightarrow> ic_start < j)"
    unfolding ic_loop_def Let_def
  proof (rule for_loop_inv [where ?i0.0 = ic_start and I = ?I])
    fix ic s' assume ic: "ic_start \<le> ic" "ic < ic_end" "?I ic s'"
    let ?mc0 = "dlp_min (ic_end - ic) ?MC"
    have mc: "0 < ?mc0" "ic + ?mc0 \<le> ic_end" "?mc0 \<le> dlp_min (ic_end - ic_start) ?MC"
      using ic pos(2) by (auto simp: dlp_min_def)
    obtain s1 acts a_use where a: "a_operand packa g lcntx pc kc0 ic ?mc0 s' = (s1, acts, a_use)" by (metis prod_cases3)
    let ?c = "if downscaled (ga_c_downscale g) then c_offset c_use_jc (rs_c_use * (ic - ic_start)) else c_offset c_use_jc (rs_c_use * ic)"
    have "?mc0 * up4 kc0 \<le> dlp_min (ic_end - ic_start) ?MC * up4 kc0" using mc(3) k4 by (rule mult_right_mono)
    then have fa: "list_all (fits bsz asz csz) acts" "have_b s1 = have_b s'" "have_c s1 = have_c s'" "have_a s' \<longrightarrow> have_a s1"
      "ga_mtag_a g = PACK \<longrightarrow> have_a s1"
      using a A first ic by (auto simp: a_operand_def Let_def split: if_splits prod.splits)
    have cc: "rs_c_use = nc0 \<and> 0 \<le> o1 \<and> o1 + nc0 * ?mc0 \<le> csz" if o1: "?c = C_temp o1" for o1
    proof -
      have c0: "c_use_jc = C_temp 0" using o1 C by (cases c_use_jc) (auto simp: c_offset_def split: if_splits)
      note f = C [OF c0]
      have "o1 = nc0 * (ic - ic_start)" using o1 f by (simp add: c0 c_offset_def)
      moreover have "nc0 * (ic - ic_start + ?mc0) \<le> nc0 * (ic_end - ic_start)" using mc(2) assms(4) by (intro mult_left_mono) simp_all
      moreover have "0 \<le> nc0 * (ic - ic_start)" using ic(1) assms(4) by simp
      ultimately show ?thesis using f by (simp add: distrib_left)
    qed
    obtain xs where x: "jr_loop g lcntx jc nc0 pc kc0 ic ?mc0 a_use b_use ?c rs_c_use s1 = Some (s1, xs)" "list_all (fits bsz asz csz) xs"
      using jr_fits [OF pos(1) assms(2,3) mc(1) B cc] by blast
    show "\<exists>s2 xs. (case a_operand packa g lcntx pc kc0 ic ?mc0 s' of (s, acts, a_use) \<Rightarrow>
         map_option (\<lambda>(s', calls). (s', acts @ calls)) (jr_loop g lcntx jc nc0 pc kc0 ic ?mc0 a_use b_use ?c rs_c_use s))
       = Some (s2, xs) \<and> ?I (ic + ?MC) s2 \<and> list_all (fits bsz asz csz) xs"
      unfolding a prod.case x(1) using fa ic(3) x(2) by auto
  qed (use pos in simp_all)
  then show ?thesis by (elim exE conjE) auto
qed

text \<open>The sizes the first iterations ask for.\<close>

definition b_bytes :: "gemm_args \<Rightarrow> dlp_gemm_cntx_t \<Rightarrow> md_t \<times> md_t \<Rightarrow> md_t" where
  "b_bytes g lcntx jc_range = up16 (dlp_min (snd jc_range - fst jc_range) (bs_NC (cx_blksz lcntx)))
     * up4 (dlp_min (ga_k g) (bs_KC (cx_blksz lcntx)))"

definition a_bytes :: "gemm_args \<Rightarrow> dlp_gemm_cntx_t \<Rightarrow> md_t \<times> md_t \<Rightarrow> md_t" where
  "a_bytes g lcntx ic_range = dlp_min (snd ic_range - fst ic_range) (bs_MC (cx_blksz lcntx))
     * up4 (dlp_min (ga_k g) (bs_KC (cx_blksz lcntx)))"

definition c_elems :: "dlp_gemm_cntx_t \<Rightarrow> md_t \<times> md_t \<Rightarrow> md_t \<times> md_t \<Rightarrow> md_t" where
  "c_elems lcntx jc_range ic_range = dlp_min (snd jc_range - fst jc_range) (bs_NC (cx_blksz lcntx)) * (snd ic_range - fst ic_range)"

lemma pack_share:
  assumes "0 < bf" "packb_min_NR dvd bf" "0 < nc0" "0 \<le> d" "up16 nc0 * up4 d \<le> bsz"
    and "task_slice False nc0 bf ways w = (s, e)" "s < e"
  shows "0 \<le> s * up4 d \<and> s * up4 d + up16 (e - s) * up4 d \<le> bsz"
proof -
  have w: "0 \<le> w" "w < ways" using assms(6,7) high_edge.range_retired [of w ways nc0 bf] by (cases "0 \<le> w \<and> w < ways"; auto)+
  have "0 \<le> s" "e \<le> nc0" using high_edge.slice_bounds [of nc0 bf w ways] assms w by auto
  moreover have "packb_min_NR dvd s"
    using task_slice_start_aligned [of nc0 bf w ways] assms w by (auto intro: dvd_trans)
  ultimately show ?thesis using assms by (intro panel_fits) auto
qed

lemma pc_fits:
  assumes "blksz_ok (cx_blksz lcntx)" "packb_min_NR dvd bs_NR (cx_blksz lcntx)" "0 < ga_k g" "0 < nc0"
    and nc: "nc0 \<le> dlp_min (snd jr - fst jr) (bs_NC (cx_blksz lcntx))"
    and b: "have_b s \<or> nc0 = dlp_min (snd jr - fst jr) (bs_NC (cx_blksz lcntx)) \<or> ga_mtag_b g \<noteq> PACK"
    and C: "\<And>o1. c_use_jc = C_temp o1 \<Longrightarrow> o1 = 0 \<and> downscaled (ga_c_downscale g) \<and> rs_c_use = nc0 \<and> nc0 * (ic_end - ic_start) \<le> csz"
    and a: "0 \<le> ic_end - ic_start"
  shows "\<exists>s' xs. pc_loop packa g lcntx tj ti ic_start ic_end jc nc0 p1 p2 p3 c_use_jc rs_c_use s = Some (s', xs)
    \<and> list_all (fits (b_bytes g lcntx jr) (a_bytes g lcntx (ic_start, ic_end)) csz) xs
    \<and> have_c s' = have_c s \<and> (ga_mtag_b g = PACK \<longrightarrow> have_b s')"
proof -
  let ?KC = "bs_KC (cx_blksz lcntx)"
  let ?bsz = "b_bytes g lcntx jr"
  let ?asz = "a_bytes g lcntx (ic_start, ic_end)"
  let ?W = "dlp_min (snd jr - fst jr) (bs_NC (cx_blksz lcntx))"
  let ?I = "\<lambda>pc (s' :: drv_buffers). have_c s' = have_c s \<and> (have_b s' \<or> pc = 0 \<and> nc0 = ?W \<or> ga_mtag_b g \<noteq> PACK)
     \<and> (have_a s' \<or> pc = 0 \<or> ga_mtag_a g \<noteq> PACK \<or> ic_end \<le> ic_start)"
  have pos: "0 < bs_NR (cx_blksz lcntx)" "0 < ?KC" "0 < bs_MC (cx_blksz lcntx)" using assms(1) by auto
  have "\<exists>s' xs j. pc_loop packa g lcntx tj ti ic_start ic_end jc nc0 p1 p2 p3 c_use_jc rs_c_use s = Some (s', xs)
      \<and> list_all (fits ?bsz ?asz csz) xs \<and> ?I j s' \<and> ga_k g \<le> j \<and> (0 < ga_k g \<longrightarrow> 0 < j)"
    unfolding pc_loop_def Let_def
  proof (rule for_loop_inv [where ?i0.0 = 0 and I = ?I])
    fix pc s' assume pc: "0 \<le> pc" "pc < ga_k g" "?I pc s'"
    let ?kc0 = "dlp_min (ga_k g - pc) ?KC"
    have kc: "0 \<le> ?kc0" "?kc0 \<le> dlp_min (ga_k g) ?KC" "pc = 0 \<Longrightarrow> ?kc0 = dlp_min (ga_k g) ?KC" using pc pos(2) by (auto simp: dlp_min_def)
    have k4: "0 \<le> up4 ?kc0" "up4 ?kc0 \<le> up4 (dlp_min (ga_k g) ?KC)"
      using kc(1,2) make_multiple_bounds [of ?kc0 4] make_multiple_mono [of ?kc0 "dlp_min (ga_k g) ?KC" 4] by simp_all
    have n16: "0 \<le> up16 nc0" "up16 nc0 \<le> up16 ?W"
      using nc assms(4) make_multiple_bounds [of nc0 packb_min_NR] make_multiple_mono [of nc0 ?W packb_min_NR]
      by (simp_all add: packb_min_NR_def)
    have bsz: "up16 nc0 * up4 ?kc0 \<le> ?bsz" unfolding b_bytes_def using k4 n16 by (intro mult_mono) simp_all
    have asz: "dlp_min (ic_end - ic_start) (bs_MC (cx_blksz lcntx)) * up4 ?kc0 \<le> ?asz"
      unfolding a_bytes_def fst_conv snd_conv using a pos(3) k4 by (intro mult_left_mono) (simp_all add: dlp_min_def)
    obtain s1 acts b_use where bo: "b_operand g lcntx tj ti jc nc0 p1 p2 p3 pc ?kc0 s' = (s1, acts, b_use)" by (metis prod_cases3)
    obtain ps pe where sl: "task_slice False nc0 (bs_NR (cx_blksz lcntx)) (n_way ti) (work_id ti) = (ps, pe)" by force
    note share = pack_share [OF pos(1) assms(2,4) kc(1) bsz sl]
    have fb: "list_all (fits ?bsz ?asz csz) acts" "have_c s1 = have_c s'" "have_a s1 = have_a s'" "ga_mtag_b g = PACK \<longrightarrow> have_b s1"
      "\<And>o1. b_use = In_buffer o1 \<Longrightarrow> o1 = 0 \<and> up16 nc0 * up4 ?kc0 \<le> ?bsz"
      using bo share pc(3) kc(3) bsz
      by (auto simp: b_operand_def Let_def task_range_eq_slice sl b_bytes_def split: if_splits)
    have first: "have_a s1 \<or> ga_mtag_a g \<noteq> PACK \<or> ic_end \<le> ic_start \<or>
        dlp_min (ic_end - ic_start) (bs_MC (cx_blksz lcntx)) * up4 ?kc0 = ?asz"
      using pc(3) kc(3) fb(3) by (auto simp: a_bytes_def)
    obtain s2 xs where x: "ic_loop packa g lcntx ic_start ic_end jc nc0 pc ?kc0 b_use c_use_jc rs_c_use s1 = Some (s2, xs)"
      "list_all (fits ?bsz ?asz csz) xs" "have_b s2 = have_b s1" "have_c s2 = have_c s1"
      "have_a s1 \<or> ga_mtag_a g = PACK \<and> ic_start < ic_end \<longrightarrow> have_a s2"
      using ic_fits [OF assms(1,2) kc(1) less_imp_le [OF assms(4)] fb(5) C asz first] by blast
    show "\<exists>s2 xs. (case b_operand g lcntx tj ti jc nc0 p1 p2 p3 pc ?kc0 s' of (s, acts, b_use) \<Rightarrow>
         map_option (\<lambda>(s', calls). (s', acts @ calls))
           (ic_loop packa g lcntx ic_start ic_end jc nc0 pc ?kc0 b_use c_use_jc rs_c_use s))
       = Some (s2, xs) \<and> ?I (pc + ?KC) s2 \<and> list_all (fits ?bsz ?asz csz) xs"
      unfolding bo prod.case x(1) using fb x(2-5) pc(3) by auto
  qed (use pos b in auto)
  then show ?thesis using assms(3) by (elim exE conjE) auto
qed

lemma chunk_width_le:
  assumes "0 < bs_NC (cx_blksz lcntx)" "0 \<le> jc" "jc < jc_end"
  shows "chunk_width g lcntx jc jc_end \<le> dlp_min (jc_end - jc) (bs_NC (cx_blksz lcntx))"
  by (auto simp: chunk_width_def dlp_gemm_get_B_panel_reordered_start_offset_width_def Let_def)

lemma slice_ordered: "0 \<le> n \<Longrightarrow> 0 < bf \<Longrightarrow> fst (task_slice False n bf ways w) \<le> snd (task_slice False n bf ways w)"
  using high_edge.range_ordered [of n bf w ways] high_edge.range_retired [of w ways n bf]
  by (cases "0 \<le> w \<and> w < ways") auto

lemma jc_fits:
  assumes "blksz_ok (cx_blksz lcntx)" "packb_min_NR dvd bs_NR (cx_blksz lcntx)" "0 < ga_k g" "0 \<le> jc_start" "ic_start \<le> ic_end"
  shows "\<exists>s' xs. jc_loop packa g lcntx tj ti ((jc_start, jc_end), (ic_start, ic_end)) \<lparr>have_b = False, have_a = False, have_c = False\<rparr>
      = Some (s', xs) \<and> list_all (fits (b_bytes g lcntx (jc_start, jc_end)) (a_bytes g lcntx (ic_start, ic_end))
        (c_elems lcntx (jc_start, jc_end) (ic_start, ic_end))) xs"
proof -
  let ?NC = "bs_NC (cx_blksz lcntx)"
  let ?ok = "fits (b_bytes g lcntx (jc_start, jc_end)) (a_bytes g lcntx (ic_start, ic_end)) (c_elems lcntx (jc_start, jc_end) (ic_start, ic_end))"
  let ?W = "dlp_min (jc_end - jc_start) ?NC"
  let ?I = "\<lambda>jc (s :: drv_buffers). (have_b s \<or> jc = jc_start \<or> ga_mtag_b g \<noteq> PACK)
     \<and> (have_c s \<or> jc = jc_start \<or> \<not> downscaled (ga_c_downscale g) \<or> ga_c_downscale g = DLP_S32 \<or> ga_k g \<le> bs_KC (cx_blksz lcntx))"
  have NC: "0 < ?NC" using assms(1) by auto
  have "\<exists>s' xs j. jc_loop packa g lcntx tj ti ((jc_start, jc_end), (ic_start, ic_end)) \<lparr>have_b = False, have_a = False, have_c = False\<rparr>
      = Some (s', xs) \<and> list_all ?ok xs \<and> ?I j s' \<and> jc_end \<le> j \<and> (jc_start < jc_end \<longrightarrow> jc_start < j)"
    unfolding jc_loop_def Let_def prod.case
  proof (rule for_loop_inv [where ?i0.0 = jc_start and I = ?I])
    fix jc s assume jc: "jc_start \<le> jc" "jc < jc_end" "?I jc s"
    let ?pan = "if ga_mtag_b g = REORDERED
      then dlp_gemm_get_B_panel_reordered_start_offset_width jc (ga_n g) ?NC packb_min_NR (dlp_min (jc_end - jc) ?NC)
      else (jc, 0, dlp_min (jc_end - jc) ?NC, 0)"
    obtain p1 p2 nc0 p4 where p: "?pan = (p1, p2, nc0, p4)" by (metis prod_cases4)
    have nc0: "nc0 = chunk_width g lcntx jc jc_end" using p by (auto simp: chunk_width_def Let_def split: if_splits)
    have w: "0 < nc0" "nc0 \<le> dlp_min (jc_end - jc) ?NC" "jc < jc_next g lcntx jc"
      using chunk_end [OF NC _ jc(2), of g] chunk_width_le [OF NC, of jc jc_end g] assms(4) jc(1,2) by (simp_all add: nc0)
    have wW: "nc0 \<le> ?W" using w(2) jc(1) by (simp add: dlp_min_def split: if_splits)
    obtain s1 acts c_use where c: "c_operand_jc g lcntx ic_start ic_end jc jc_end s = (s1, acts, c_use)" by (metis prod_cases3)
    let ?rs = "if downscaled (ga_c_downscale g) then nc0 else ga_rs_c g"
    have "nc0 * (ic_end - ic_start) \<le> ?W * (ic_end - ic_start)" using wW assms(5) by (intro mult_right_mono) simp_all
    then have fc: "list_all ?ok acts" "have_b s1 = have_b s"
      "have_c s1 \<or> \<not> downscaled (ga_c_downscale g) \<or> ga_c_downscale g = DLP_S32 \<or> ga_k g \<le> bs_KC (cx_blksz lcntx)"
      "\<And>o1. c_use = C_temp o1 \<Longrightarrow> o1 = 0 \<and> downscaled (ga_c_downscale g) \<and> ?rs = nc0
        \<and> nc0 * (ic_end - ic_start) \<le> c_elems lcntx (jc_start, jc_end) (ic_start, ic_end)"
      using c jc(3) by (auto simp: c_operand_jc_def c_elems_def Let_def split: if_splits)
    have b: "have_b s1 \<or> nc0 = dlp_min (snd (jc_start, jc_end) - fst (jc_start, jc_end)) ?NC \<or> ga_mtag_b g \<noteq> PACK"
      using fc(2) jc(3) nc0 by (auto simp: chunk_width_def Let_def)
    have wW': "nc0 \<le> dlp_min (snd (jc_start, jc_end) - fst (jc_start, jc_end)) ?NC" using wW by simp
    have ie: "0 \<le> ic_end - ic_start" using assms(5) by simp
    obtain s2 xs where x: "pc_loop packa g lcntx tj ti ic_start ic_end jc nc0 p1 p2 p4 c_use ?rs s1 = Some (s2, xs)"
      "list_all ?ok xs" "have_c s2 = have_c s1" "ga_mtag_b g = PACK \<longrightarrow> have_b s2"
      using pc_fits [OF assms(1-3) w(1) wW' b fc(4) ie] by blast
    show "\<exists>s' xs. (case ?pan of (jc_cur_loop, jc_cur_loop_rem, nc0, n_sub_updated) \<Rightarrow>
        case c_operand_jc g lcntx ic_start ic_end jc jc_end s of (s, acts, c_use_jc) \<Rightarrow>
          map_option (\<lambda>(s', calls). (s', acts @ calls))
            (pc_loop packa g lcntx tj ti ic_start ic_end jc nc0 jc_cur_loop jc_cur_loop_rem n_sub_updated c_use_jc
              (if downscaled (ga_c_downscale g) then nc0 else ga_rs_c g) s)) = Some (s', xs) \<and> ?I (jc_next g lcntx jc) s' \<and> list_all ?ok xs"
      unfolding p prod.case c x(1) using fc x(2-4) by auto
  next
    show "jc < jc_next g lcntx jc" if "jc_start \<le> jc" "jc < jc_end" for jc
      using chunk_end(1) [OF NC] that assms(4) by simp
  qed simp_all
  then show ?thesis by blast
qed

text \<open>C36: No access of a run of the driver leaves a buffer: the pack buffers of B and A and the accumulation
  buffer are allocated in the first iteration that needs them and never again, with sizes for which every
  panel a thread of the group packs, every panel a kernel reads, every packed block of A and every row of
  the tile a kernel accumulates in later iterations fit, for any shape and any of the memory tags; the
  register-block width must be a multiple of 16.\<close>

theorem driver_buffers_suffice:
  assumes "gemm_5loop packa g lcntx thread = Some as" "blksz_ok (cx_blksz lcntx)" "packb_min_NR dvd bs_NR (cx_blksz lcntx)"
    and "0 \<le> ga_m g" "0 \<le> ga_n g" "0 < ga_k g"
    and "driver_tile thread (ga_m g) (ga_n g) lcntx = (jc_range, ic_range)"
  shows "list_all (fits (b_bytes g lcntx jc_range) (a_bytes g lcntx ic_range) (c_elems lcntx jc_range ic_range)) as"
proof -
  obtain tj ti where t: "dlp_gemm_gen_dlp_task_ids (Some thread) = (tj, ti)" by force
  obtain js je "is" ie where r: "jc_range = (js, je)" "ic_range = (is, ie)" by force
  have sl: "(js, je) = task_slice False (ga_n g) (bs_NR (cx_blksz lcntx)) (n_way tj) (work_id tj)"
    "(is, ie) = task_slice False (ga_m g) (bs_MR (cx_blksz lcntx)) (n_way ti) (work_id ti)"
    using assms(7) t by (simp_all add: driver_tile_def task_range_eq_slice r)
  have pos: "0 < bs_NR (cx_blksz lcntx)" "0 < bs_MR (cx_blksz lcntx)" using assms(2) by auto
  have "0 \<le> js" "is \<le> ie"
    using slice_start_ge_0 [OF assms(5) pos(1), of "n_way tj" "work_id tj"]
      slice_ordered [OF assms(4) pos(2), of "n_way ti" "work_id ti"]
    unfolding sl [symmetric] by simp_all
  from jc_fits [OF assms(2,3,6) this] obtain s xs where
    x: "jc_loop packa g lcntx tj ti ((js, je), (is, ie)) \<lparr>have_b = False, have_a = False, have_c = False\<rparr> = Some (s, xs)"
      "list_all (fits (b_bytes g lcntx jc_range) (a_bytes g lcntx ic_range) (c_elems lcntx jc_range ic_range)) xs"
    unfolding r by blast
  show ?thesis using assms(1) x by (auto simp: gemm_5loop_def t assms(7) r)
qed

theorem driver_buffers_suffice_witness:
  "\<exists>as. gemm_5loop (\<lambda>_ _ _ _. (4, 24)) (example_args 20 100 9 PACK) (example_cntx 12 64 8 6 32) (example_thread 2) = Some as \<and>
     list_all (fits 384 96 (36 * 12)) as"
proof -
  let ?g = "example_args 20 100 9 PACK" and ?l = "example_cntx 12 64 8 6 32"
  have ok: "blksz_ok (cx_blksz ?l)" "packb_min_NR dvd bs_NR (cx_blksz ?l)" "0 \<le> ga_m ?g" "0 \<le> ga_n ?g" "0 < ga_k ?g"
    by (simp_all add: blksz_ok_def example_cntx_def example_args_def packb_min_NR_def)
  obtain as where as: "gemm_5loop (\<lambda>_ _ _ _. (4, 24)) ?g ?l (example_thread 2) = Some as"
    using gemm_5loop_steps [OF ok(1,4)] by blast
  have tile: "driver_tile (example_thread 2) (ga_m ?g) (ga_n ?g) ?l = ((64, 100), (0, 12))" by code_simp
  have "b_bytes ?g ?l (64, 100) = 384" "a_bytes ?g ?l (0, 12) = 96" "c_elems ?l (64, 100) (0, 12) = 36 * 12" by code_simp+
  with driver_buffers_suffice [OF as ok tile] as show ?thesis by auto
qed

end
