(* ===== verification/Reorder_Layout.thy ===== *)
theory Reorder_Layout
  imports Gemm_Utils
begin

text \<open>
  The layout of a reordered B, \<^verbatim>\<open>classic/include/gemm_utils/dlp_gemm_reorder_layout.h\<close>: the walk over the
  chunks of a panel, the place of an element in a chunk, the test of the block sizes and the size of the
  buffer with its overflow guards.

  \<open>panel_offset\<close> is the abstract layout of one panel, a function of the column alone; \<open>B_offset\<close> is the
  layout of the whole matrix. The lemmas show that the walk of the code visits exactly the chunks
  of \<open>panel_offset\<close>, that no two elements share a place and that every place is inside the buffer.
\<close>

section \<open>The layout rule\<close>

record dlp_reorder_chunk_t =
  rc_col_start :: md_t
  rc_cols :: md_t
  rc_slot :: md_t
  rc_offset :: md_t

definition dlp_reorder_round_up :: "md_t \<Rightarrow> md_t \<Rightarrow> md_t" where
  "dlp_reorder_round_up value to = (if to \<le> 0 then 0 else ((value + to - 1) sdiv to) * to)"

definition dlp_reorder_elem_offset :: "md_t \<Rightarrow> md_t \<Rightarrow> md_t \<Rightarrow> md_t \<Rightarrow> md_t" where
  "dlp_reorder_elem_offset kr i slot k_factor = ((kr sdiv k_factor) * (k_factor * slot)) + (i * k_factor) + (kr smod k_factor)"

definition dlp_reorder_panel_elems :: "md_t \<Rightarrow> md_t \<Rightarrow> md_t \<Rightarrow> md_t \<Rightarrow> md_t" where
  "dlp_reorder_panel_elems nc0 kc0 min_NR k_factor = dlp_reorder_round_up nc0 min_NR * dlp_reorder_round_up kc0 k_factor"

definition dlp_reorder_chunk_first :: dlp_reorder_chunk_t where
  "dlp_reorder_chunk_first = \<lparr>rc_col_start = 0, rc_cols = 0, rc_slot = 0, rc_offset = 0\<rparr>"

text \<open>The result is the value returned and the chunk after the call.\<close>

definition dlp_reorder_chunk_next ::
  "dlp_reorder_chunk_t \<Rightarrow> md_t \<Rightarrow> md_t \<Rightarrow> md_t \<Rightarrow> md_t \<Rightarrow> bool \<times> dlp_reorder_chunk_t" where
  "dlp_reorder_chunk_next chunk nc0 NR min_NR kc0_padded =
     (let next_col = rc_col_start chunk + rc_cols chunk;
          chunk = chunk\<lparr>rc_offset := rc_offset chunk + rc_slot chunk * kc0_padded, rc_col_start := next_col\<rparr>;
          remaining = nc0 - next_col
      in if remaining \<le> 0 then (False, chunk)
         else if NR \<le> 0 \<or> min_NR \<le> 0 then (False, chunk)
         else if remaining \<ge> NR then (True, chunk\<lparr>rc_cols := NR, rc_slot := NR\<rparr>)
         else let whole = (remaining sdiv min_NR) * min_NR
              in if whole > 0 then (True, chunk\<lparr>rc_cols := whole, rc_slot := whole\<rparr>)
                 else (True, chunk\<lparr>rc_cols := remaining, rc_slot := min_NR\<rparr>))"

definition dlp_reorder_ref_blocks_legal :: "md_t \<Rightarrow> md_t \<Rightarrow> md_t \<Rightarrow> md_t \<Rightarrow> bool" where
  "dlp_reorder_ref_blocks_legal NR min_NR KC k_factor \<longleftrightarrow>
     NR > 0 \<and> KC > 0 \<and> min_NR > 0 \<and> k_factor > 0 \<and> NR smod min_NR = 0 \<and> KC smod k_factor = 0"

text \<open>The chunks a \<open>while (dlp_reorder_chunk_next(...))\<close> loop works on, in order. It ends for every
  argument: each chunk has at least one column.\<close>

function chunk_walk :: "dlp_reorder_chunk_t \<Rightarrow> md_t \<Rightarrow> md_t \<Rightarrow> md_t \<Rightarrow> md_t \<Rightarrow> dlp_reorder_chunk_t list" where
  "chunk_walk chunk nc0 NR min_NR kc0_padded =
     (if fst (dlp_reorder_chunk_next chunk nc0 NR min_NR kc0_padded)
      then snd (dlp_reorder_chunk_next chunk nc0 NR min_NR kc0_padded)
             # chunk_walk (snd (dlp_reorder_chunk_next chunk nc0 NR min_NR kc0_padded)) nc0 NR min_NR kc0_padded
      else [])"
  by pat_completeness auto
termination
  by (relation "measure (\<lambda>(chunk, nc0, _). nat (nc0 - (rc_col_start chunk + rc_cols chunk)))")
    (auto simp: dlp_reorder_chunk_next_def Let_def split: if_splits)

declare chunk_walk.simps [simp del]

section \<open>Sizes that do not wrap\<close>

definition DLP_MSZ_MAX :: msz_t where "DLP_MSZ_MAX = - 1"

text \<open>\<open>None\<close> is the return of FALSE, where the output is not written.\<close>

definition dlp_reorder_checked_mul_msz :: "msz_t \<Rightarrow> msz_t \<Rightarrow> msz_t option" where
  "dlp_reorder_checked_mul_msz a b = (if a \<noteq> 0 \<and> b > DLP_MSZ_MAX div a then None else Some (a * b))"

definition dlp_reorder_size_bytes :: "md_t \<Rightarrow> md_t \<Rightarrow> md_t \<Rightarrow> msz_t \<Rightarrow> msz_t option" where
  "dlp_reorder_size_bytes rows cols elem_sz extra =
     (if rows < 0 \<or> cols < 0 \<or> elem_sz \<le> 0 then None
      else (case dlp_reorder_checked_mul_msz (of_int rows) (of_int cols) of
              None \<Rightarrow> None
            | Some prd \<Rightarrow>
                (case dlp_reorder_checked_mul_msz prd (of_int elem_sz) of
                   None \<Rightarrow> None
                 | Some prd \<Rightarrow> if extra > DLP_MSZ_MAX - prd then None else Some (prd + extra))))"

lemma div_less_iff: "0 < b \<Longrightarrow> a div b < q \<longleftrightarrow> a < q * b" for a b q :: int
  using div_less_blocks [of b a q] zdiv_mono1 [of "q * b" a b] by fastforce

lemma checked_mul_iff:
  "dlp_reorder_checked_mul_msz a b = (if uint a * uint b < 2 ^ 64 then Some (a * b) else None)"
proof (cases "a = 0")
  case False
  have a: "0 < uint a" using False by (simp add: word_neq_0_conv word_less_def)
  have max: "uint (DLP_MSZ_MAX div a) = (2 ^ 64 - 1) div uint a"
    by (simp add: DLP_MSZ_MAX_def uint_div unsigned_minus_1_eq_mask mask_eq_exp_minus_1)
  have "b > DLP_MSZ_MAX div a \<longleftrightarrow> (2 ^ 64 - 1) div uint a < uint b" by (simp add: word_less_def max)
  also have "\<dots> \<longleftrightarrow> 2 ^ 64 - 1 < uint b * uint a" using a by (simp only: div_less_iff)
  also have "\<dots> \<longleftrightarrow> \<not> uint a * uint b < 2 ^ 64" by (auto simp: mult.commute)
  finally show ?thesis using False by (simp add: dlp_reorder_checked_mul_msz_def)
qed (simp add: dlp_reorder_checked_mul_msz_def)

lemma uint_mult_no_wrap: "uint a * uint b < 2 ^ 64 \<Longrightarrow> uint (a * b) = uint a * uint b" for a b :: msz_t
  by (simp add: uint_word_ariths)

lemma uint_add_no_wrap: "uint a + uint b < 2 ^ 64 \<Longrightarrow> uint (a + b) = uint a + uint b" for a b :: msz_t
  by (simp add: uint_word_ariths)

lemma uint_of_dim: "0 \<le> x \<Longrightarrow> x < 2 ^ 63 \<Longrightarrow> uint (of_int x :: msz_t) = x" for x :: int
  by (simp add: unsigned_of_int take_bit_int_eq_self)

text \<open>The size is returned exactly when the mathematical size fits, and then it is that size.\<close>

lemma size_bytes_exact:
  assumes "rows < 2 ^ 63" "cols < 2 ^ 63" "elem_sz < 2 ^ 63"
  shows "dlp_reorder_size_bytes rows cols elem_sz extra = Some sz \<longleftrightarrow>
    0 \<le> rows \<and> 0 \<le> cols \<and> 0 < elem_sz \<and> rows * cols * elem_sz + uint extra < 2 ^ 64 \<and>
    uint sz = rows * cols * elem_sz + uint extra"
proof (cases "0 \<le> rows \<and> 0 \<le> cols \<and> 0 < elem_sz")
  case True
  have u: "uint (of_int rows :: msz_t) = rows" "uint (of_int cols :: msz_t) = cols" "uint (of_int elem_sz :: msz_t) = elem_sz"
    using assms True by (simp_all add: uint_of_dim)
  define p1 :: msz_t where "p1 = of_int rows * of_int cols"
  define p2 :: msz_t where "p2 = p1 * of_int elem_sz"
  have grow: "rows * cols \<le> rows * cols * elem_sz" using True mult_left_mono [of 1 elem_sz "rows * cols"] by simp
  have ex: "0 \<le> uint extra" by simp
  have p1: "uint p1 = rows * cols" if "rows * cols < 2 ^ 64" using that uint_mult_no_wrap [of "of_int rows" "of_int cols"] u by (simp add: p1_def)
  have p2: "uint p2 = rows * cols * elem_sz" if "rows * cols * elem_sz < 2 ^ 64"
    using that grow p1 uint_mult_no_wrap [of p1 "of_int elem_sz"] u by (simp add: p2_def)
  have top: "extra > DLP_MSZ_MAX - p2 \<longleftrightarrow> \<not> uint p2 + uint extra < 2 ^ 64"
  proof -
    have "uint (DLP_MSZ_MAX - p2) = 2 ^ 64 - 1 - uint p2"
      using uint_bounded [of p2] by (simp add: DLP_MSZ_MAX_def unsigned_minus_1_eq_mask mask_eq_exp_minus_1 uint_sub_if')
    then show ?thesis by (auto simp: word_less_def)
  qed
  show ?thesis
  proof (cases "rows * cols * elem_sz < 2 ^ 64")
    case fits: True
    then have "rows * cols < 2 ^ 64" using grow by linarith
    moreover from this have "uint p1 * elem_sz < 2 ^ 64" using fits p1 by simp
    ultimately have "dlp_reorder_size_bytes rows cols elem_sz extra =
        (if rows * cols * elem_sz + uint extra < 2 ^ 64 then Some (p2 + extra) else None)"
      using True fits p2 top by (simp add: dlp_reorder_size_bytes_def checked_mul_iff u p1_def [symmetric] p2_def [symmetric])
    then show ?thesis using True fits p2 uint_add_no_wrap [of p2 extra] by (auto simp: word_uint_eq_iff)
  next
    case big: False
    have "dlp_reorder_size_bytes rows cols elem_sz extra = None"
    proof (cases "rows * cols < 2 ^ 64")
      case True
      then have "\<not> uint p1 * elem_sz < 2 ^ 64" using big p1 by simp
      then show ?thesis using True \<open>0 \<le> rows \<and> 0 \<le> cols \<and> 0 < elem_sz\<close>
        by (simp add: dlp_reorder_size_bytes_def checked_mul_iff u p1_def [symmetric])
    qed (use \<open>0 \<le> rows \<and> 0 \<le> cols \<and> 0 < elem_sz\<close> in \<open>simp add: dlp_reorder_size_bytes_def checked_mul_iff u\<close>)
    then show ?thesis using big ex by (simp, linarith)
  qed
qed (auto simp: dlp_reorder_size_bytes_def)

section \<open>The abstract layout of a panel\<close>

text \<open>The chunk of column \<open>i\<close> of an \<open>nc0\<close> wide panel: its first column and the width of its slot.\<close>

definition chunk_of :: "md_t \<Rightarrow> md_t \<Rightarrow> md_t \<Rightarrow> md_t \<Rightarrow> md_t \<times> md_t" where
  "chunk_of NR min_NR nc0 i =
     (let c = i div NR * NR;
          w = (nc0 - c) div min_NR * min_NR
      in if c + NR \<le> nc0 then (c, NR) else if i - c < w then (c, w) else (c + w, min_NR))"

definition panel_offset :: "md_t \<Rightarrow> md_t \<Rightarrow> md_t \<Rightarrow> md_t \<Rightarrow> md_t \<Rightarrow> md_t \<Rightarrow> md_t \<Rightarrow> md_t" where
  "panel_offset NR min_NR k_factor nc0 kc0_padded kr i =
     (let (start, slot) = chunk_of NR min_NR nc0 i
      in start * kc0_padded + dlp_reorder_elem_offset kr (i - start) slot k_factor)"

definition holds_col :: "dlp_reorder_chunk_t \<Rightarrow> md_t \<Rightarrow> bool" where
  "holds_col c i \<longleftrightarrow> rc_col_start c \<le> i \<and> i < rc_col_start c + rc_cols c"

lemma block_of: "0 < b \<Longrightarrow> b dvd c \<Longrightarrow> c \<le> i \<Longrightarrow> i < c + b \<Longrightarrow> i div b * b = c" for b c i :: int
  using div_eq_in_block [of b "c div b" i] by (simp add: algebra_simps)

lemma floor_block: "0 < b \<Longrightarrow> x div b * b \<le> x \<and> x < x div b * b + b" for b x :: int
  using div_times_le(1) [of b x] pos_mod_bound [of b x] div_mult_mod_eq [of x b] by linarith

lemma blocks_legalD:
  assumes "dlp_reorder_ref_blocks_legal NR min_NR KC kf"
  shows "0 < NR" "0 < KC" "0 < min_NR" "0 < kf" "min_NR dvd NR" "kf dvd KC" "min_NR \<le> NR"
  using assms zdvd_imp_le [of min_NR NR] by (auto simp: dlp_reorder_ref_blocks_legal_def cdiv_simps mod_0_imp_dvd)

text \<open>Where a walk can stand: at the start of a micro panel, behind the fringe, or at the end.\<close>

definition walk_state :: "md_t \<Rightarrow> md_t \<Rightarrow> md_t \<Rightarrow> md_t \<Rightarrow> dlp_reorder_chunk_t \<Rightarrow> bool" where
  "walk_state NR min_NR nc0 kc0p c \<longleftrightarrow>
     (let col = rc_col_start c + rc_cols c
      in 0 \<le> col \<and> (nc0 \<le> col \<or>
           rc_offset c + rc_slot c * kc0p = col * kc0p \<and>
           (NR dvd col \<or> (\<exists>base. NR dvd base \<and> base < col \<and> nc0 < base + NR \<and> col = base + (nc0 - base) div min_NR * min_NR))))"

lemma chunk_step:
  assumes pos: "0 < NR" "0 < min_NR" "min_NR \<le> NR" and st: "walk_state NR min_NR nc0 kc0p c"
    and nx: "dlp_reorder_chunk_next c nc0 NR min_NR kc0p = (True, c')"
  shows "walk_state NR min_NR nc0 kc0p c' \<and> rc_col_start c' = rc_col_start c + rc_cols c \<and> 0 < rc_cols c' \<and>
     rc_col_start c' + rc_cols c' \<le> nc0 \<and> rc_offset c' = rc_col_start c' * kc0p \<and>
     (\<forall>i. holds_col c' i \<longrightarrow> chunk_of NR min_NR nc0 i = (rc_col_start c', rc_slot c'))"
proof -
  define col where "col = rc_col_start c + rc_cols c"
  have more: "col < nc0" using nx by (auto simp: dlp_reorder_chunk_next_def Let_def col_def split: if_splits)
  have col0: "0 \<le> col" and off: "rc_offset c + rc_slot c * kc0p = col * kc0p"
    and at: "NR dvd col \<or> (\<exists>base. NR dvd base \<and> base < col \<and> nc0 < base + NR \<and> col = base + (nc0 - base) div min_NR * min_NR)"
    using st more by (auto simp: walk_state_def Let_def col_def [symmetric])
  define w where "w = (nc0 - col) div min_NR * min_NR"
  have w: "w \<le> nc0 - col" "nc0 - col < w + min_NR" "0 \<le> w" using floor_block [OF pos(2), of "nc0 - col"] more pos(2)
    by (auto simp: w_def pos_imp_zdiv_nonneg_iff)
  have sd: "(nc0 - col) sdiv min_NR * min_NR = w" using more pos(2) by (simp add: cdiv_simps w_def)
  have c': "c' = (if NR \<le> nc0 - col then c\<lparr>rc_offset := col * kc0p, rc_col_start := col, rc_cols := NR, rc_slot := NR\<rparr>
      else if 0 < w then c\<lparr>rc_offset := col * kc0p, rc_col_start := col, rc_cols := w, rc_slot := w\<rparr>
      else c\<lparr>rc_offset := col * kc0p, rc_col_start := col, rc_cols := nc0 - col, rc_slot := min_NR\<rparr>)"
    using nx more pos by (auto simp: dlp_reorder_chunk_next_def Let_def col_def [symmetric] sd off split: if_splits)
  from at show ?thesis
  proof (elim disjE exE conjE)
    assume dvd: "NR dvd col"
    have blk: "i div NR * NR = col" if "col \<le> i" "i < col + NR" for i by (rule block_of) (use that dvd pos in auto)
    consider "NR \<le> nc0 - col" | "nc0 - col < NR" "0 < w" | "nc0 - col < NR" "w = 0" using w(3) by linarith
    then show ?thesis
    proof cases
      case 1
      then show ?thesis using c' blk dvd col0 pos
        by (auto simp: walk_state_def holds_col_def chunk_of_def Let_def algebra_simps simp flip: col_def)
    next
      case 2
      then have "NR dvd col \<and> col < col + w \<and> nc0 < col + NR \<and> col + w = col + (nc0 - col) div min_NR * min_NR"
        using dvd by (simp add: w_def)
      then show ?thesis using c' blk 2 col0 w(1) by (auto simp: walk_state_def holds_col_def chunk_of_def Let_def algebra_simps simp flip: w_def col_def)
    next
      case 3
      then show ?thesis using c' blk col0 more by (auto simp: walk_state_def holds_col_def chunk_of_def Let_def simp flip: w_def col_def)
    qed
  next
    fix base assume b: "NR dvd base" "base < col" "nc0 < base + NR" "col = base + (nc0 - base) div min_NR * min_NR"
    have "nc0 - col < min_NR" using floor_block [OF pos(2), of "nc0 - base"] b(4) by linarith
    then have w0: "w = 0" using more by (simp add: w_def div_pos_pos_trivial)
    have "i div NR * NR = base" if "col \<le> i" "i < nc0" for i by (rule block_of) (use that b pos in auto)
    then show ?thesis using c' w0 b more col0 \<open>nc0 - col < min_NR\<close> pos
      by (auto simp: walk_state_def holds_col_def chunk_of_def Let_def simp flip: col_def)
  qed
qed

lemma chunk_walk_exact:
  assumes pos: "0 < NR" "0 < min_NR" "min_NR \<le> NR" and "walk_state NR min_NR nc0 kc0p c"
  shows "(\<exists>c' \<in> set (chunk_walk c nc0 NR min_NR kc0p). holds_col c' i) \<longleftrightarrow> rc_col_start c + rc_cols c \<le> i \<and> i < nc0"
    and "c' \<in> set (chunk_walk c nc0 NR min_NR kc0p) \<Longrightarrow> holds_col c' i \<Longrightarrow>
      rc_offset c' = rc_col_start c' * kc0p \<and> chunk_of NR min_NR nc0 i = (rc_col_start c', rc_slot c')"
proof -
  have "((\<exists>c' \<in> set (chunk_walk c nc0 NR min_NR kc0p). holds_col c' i) \<longleftrightarrow> rc_col_start c + rc_cols c \<le> i \<and> i < nc0) \<and>
    (\<forall>c' \<in> set (chunk_walk c nc0 NR min_NR kc0p). holds_col c' i \<longrightarrow>
      rc_offset c' = rc_col_start c' * kc0p \<and> chunk_of NR min_NR nc0 i = (rc_col_start c', rc_slot c'))"
    using assms
  proof (induction c nc0 NR min_NR kc0p rule: chunk_walk.induct)
    case (1 c nc0 NR min_NR kc0p)
    obtain b c' where nx: "dlp_reorder_chunk_next c nc0 NR min_NR kc0p = (b, c')" by force
    show ?case
    proof (cases b)
      case True
      have st: "walk_state NR min_NR nc0 kc0p c'" "rc_col_start c' = rc_col_start c + rc_cols c" "0 < rc_cols c'"
          "rc_col_start c' + rc_cols c' \<le> nc0" "rc_offset c' = rc_col_start c' * kc0p"
          "\<And>i. holds_col c' i \<Longrightarrow> chunk_of NR min_NR nc0 i = (rc_col_start c', rc_slot c')"
        using chunk_step [OF 1(2-5), of c'] nx True by auto
      have w: "chunk_walk c nc0 NR min_NR kc0p = c' # chunk_walk c' nc0 NR min_NR kc0p"
        using True by (subst chunk_walk.simps) (simp add: nx)
      show ?thesis using 1(1) [unfolded nx fst_conv snd_conv, OF True 1(2-4) st(1)] st(2-6) unfolding w
        by (auto simp: holds_col_def)
    next
      case False
      then have "nc0 \<le> rc_col_start c + rc_cols c" using nx 1(2,3)
        by (auto simp: dlp_reorder_chunk_next_def Let_def split: if_splits)
      then show ?thesis using False by (subst (1 2) chunk_walk.simps) (auto simp: nx)
    qed
  qed
  then show "(\<exists>c' \<in> set (chunk_walk c nc0 NR min_NR kc0p). holds_col c' i) \<longleftrightarrow> rc_col_start c + rc_cols c \<le> i \<and> i < nc0"
    and "c' \<in> set (chunk_walk c nc0 NR min_NR kc0p) \<Longrightarrow> holds_col c' i \<Longrightarrow>
      rc_offset c' = rc_col_start c' * kc0p \<and> chunk_of NR min_NR nc0 i = (rc_col_start c', rc_slot c')" by blast+
qed

lemma walk_first: "walk_state NR min_NR nc0 kc0p dlp_reorder_chunk_first"
  by (simp add: walk_state_def dlp_reorder_chunk_first_def)

section \<open>No two elements share a place\<close>

lemma round_up_multiple: "dlp_reorder_round_up = dlp_make_multiple_of_n"
  by (intro ext) (simp add: dlp_reorder_round_up_def dlp_make_multiple_of_n_def)

lemma elem_offset_eq: "0 \<le> kr \<Longrightarrow> 0 < kf \<Longrightarrow> dlp_reorder_elem_offset kr i slot kf = ((kr div kf) * slot + i) * kf + kr mod kf"
  by (simp add: dlp_reorder_elem_offset_def cdiv_simps algebra_simps)

lemma elem_offset_inj:
  assumes "0 \<le> kr" "0 \<le> kr'" "0 < kf" "0 \<le> i" "i < slot" "0 \<le> i'" "i' < slot"
    and eq: "dlp_reorder_elem_offset kr i slot kf = dlp_reorder_elem_offset kr' i' slot kf"
  shows "kr = kr' \<and> i = i'"
proof -
  have e: "((kr div kf) * slot + i) * kf + kr mod kf = ((kr' div kf) * slot + i') * kf + kr' mod kf"
    using eq assms(1-3) by (simp add: elem_offset_eq)
  have m: "kr mod kf = kr' mod kf" using arg_cong [OF e, of "\<lambda>x. x mod kf"] by simp
  then have d: "(kr div kf) * slot + i = (kr' div kf) * slot + i'" using e assms(3) by simp
  have i: "i = i'" using arg_cong [OF d, of "\<lambda>x. x mod slot"] assms(4-7) by (simp add: mod_pos_pos_trivial)
  then have "kr div kf = kr' div kf" using d assms(4,5) by simp
  then show ?thesis using m i by (metis div_mult_mod_eq)
qed

lemma elem_offset_bounds:
  assumes "0 \<le> kr" "kr < kc0p" "kf dvd kc0p" "0 < kf" "0 \<le> i" "i < slot"
  shows "0 \<le> dlp_reorder_elem_offset kr i slot kf \<and> dlp_reorder_elem_offset kr i slot kf < slot * kc0p"
proof -
  obtain q where q: "kc0p = q * kf" using assms(3) by (metis dvd_div_mult_self)
  have kq: "kr div kf + 1 \<le> q" using div_less_blocks [of kf kr q] assms(2,4) q by simp
  have k0: "0 \<le> kr div kf" using assms(1,4) by (simp add: pos_imp_zdiv_nonneg_iff)
  have "(kr div kf) * slot + i < (kr div kf + 1) * slot" using assms(6) by (simp add: algebra_simps)
  also have "\<dots> \<le> q * slot" using kq assms(5,6) by (intro mult_right_mono) simp_all
  finally have "((kr div kf) * slot + i + 1) * kf \<le> (q * slot) * kf" using assms(4) by (intro mult_right_mono) simp_all
  moreover have "kr mod kf < kf" "0 \<le> kr mod kf" using assms(4) by simp_all
  moreover have "0 \<le> ((kr div kf) * slot + i) * kf" using k0 assms(4-6) by simp
  moreover have "(q * slot) * kf = slot * kc0p" using q by simp
  moreover have "((kr div kf) * slot + i + 1) * kf = ((kr div kf) * slot + i) * kf + kf" by (simp add: algebra_simps)
  ultimately show ?thesis unfolding elem_offset_eq [OF assms(1,4)] by linarith
qed

text \<open>A panel layout: the block sizes of a legal reorder.\<close>

lemma chunk_of_props:
  assumes "0 < min_NR" "min_NR dvd NR" "0 < NR" "0 \<le> i" "i < nc0" and ch: "chunk_of NR min_NR nc0 i = (s, slot)"
  shows "0 \<le> s" "s \<le> i" "i < s + slot" "s + slot \<le> dlp_make_multiple_of_n nc0 min_NR" "0 < slot"
proof -
  define c where "c = i div NR * NR"
  define w where "w = (nc0 - c) div min_NR * min_NR"
  have c: "0 \<le> c" "c \<le> i" "i < c + NR" "min_NR dvd c"
    using floor_block [OF assms(3), of i] assms by (auto simp: c_def pos_imp_zdiv_nonneg_iff)
  have w: "0 \<le> w" "w \<le> nc0 - c" "nc0 - c < w + min_NR" "min_NR dvd w"
    using floor_block [OF assms(1), of "nc0 - c"] c assms by (auto simp: w_def pos_imp_zdiv_nonneg_iff)
  have up: "x \<le> dlp_make_multiple_of_n nc0 min_NR" if "min_NR dvd x" "x < nc0 + min_NR" for x
  proof -
    have mm: "nc0 \<le> dlp_make_multiple_of_n nc0 min_NR" "min_NR dvd dlp_make_multiple_of_n nc0 min_NR"
      using make_multiple_bounds [of nc0 min_NR] assms by auto
    show ?thesis
    proof (rule ccontr)
      assume "\<not> ?thesis"
      then have "0 < x - dlp_make_multiple_of_n nc0 min_NR" "min_NR dvd x - dlp_make_multiple_of_n nc0 min_NR"
        using that(1) mm(2) by (auto intro: dvd_diff)
      then have "min_NR \<le> x - dlp_make_multiple_of_n nc0 min_NR" using zdvd_imp_le by blast
      then show False using that(2) mm(1) by linarith
    qed
  qed
  have cs: "(s, slot) = (if c + NR \<le> nc0 then (c, NR) else if i - c < w then (c, w) else (c + w, min_NR))"
    unfolding ch [symmetric] chunk_of_def Let_def c_def w_def ..
  consider "c + NR \<le> nc0" "s = c" "slot = NR" | "\<not> c + NR \<le> nc0" "i - c < w" "s = c" "slot = w"
    | "\<not> c + NR \<le> nc0" "w \<le> i - c" "s = c + w" "slot = min_NR" using cs by (auto split: if_splits)
  then have "0 \<le> s \<and> s \<le> i \<and> i < s + slot \<and> s + slot \<le> dlp_make_multiple_of_n nc0 min_NR \<and> 0 < slot"
  proof cases
    case 1
    then show ?thesis using c assms by (auto intro!: up)
  next
    case 2
    then show ?thesis using c w assms by (auto intro!: up)
  next
    case 3
    then show ?thesis using c w assms by (auto intro!: up)
  qed
  then show "0 \<le> s" "s \<le> i" "i < s + slot" "s + slot \<le> dlp_make_multiple_of_n nc0 min_NR" "0 < slot" by auto
qed

lemma chunk_of_order:
  assumes "0 < min_NR" "min_NR dvd NR" "0 < NR" "0 \<le> i" "i \<le> i'" "i' < nc0"
    and "chunk_of NR min_NR nc0 i = (s, slot)" "chunk_of NR min_NR nc0 i' = (s', slot')"
  shows "(s', slot') = (s, slot) \<or> s + slot \<le> s'"
proof -
  define c where "c = i div NR * NR"
  define c' where "c' = i' div NR * NR"
  have c: "c \<le> i" "i < c + NR" "c' \<le> i'" "i' < c' + NR"
    using floor_block [OF assms(3), of i] floor_block [OF assms(3), of i'] by (auto simp: c_def c'_def)
  have cs: "(s, slot) = (if c + NR \<le> nc0 then (c, NR) else if i - c < (nc0 - c) div min_NR * min_NR
      then (c, (nc0 - c) div min_NR * min_NR) else (c + (nc0 - c) div min_NR * min_NR, min_NR))"
    "(s', slot') = (if c' + NR \<le> nc0 then (c', NR) else if i' - c' < (nc0 - c') div min_NR * min_NR
      then (c', (nc0 - c') div min_NR * min_NR) else (c' + (nc0 - c') div min_NR * min_NR, min_NR))"
    unfolding assms(7,8) [symmetric] chunk_of_def Let_def c_def c'_def by (rule refl)+
  show ?thesis
  proof (cases "c' = c")
    case True
    then show ?thesis using cs assms(5) by (auto split: if_splits)
  next
    case False
    have "i div NR \<le> i' div NR" using assms(3,5) by (simp add: zdiv_mono1)
    then have "i div NR + 1 \<le> i' div NR" using False by (auto simp: c_def c'_def)
    then have "(i div NR + 1) * NR \<le> i' div NR * NR" using assms(3) by (intro mult_right_mono) simp_all
    then have le: "c + NR \<le> c'" by (simp add: c_def c'_def algebra_simps)
    then have "c + NR \<le> nc0" using c assms(6) by linarith
    moreover have "0 \<le> (nc0 - c') div min_NR * min_NR" using c assms(1,6) by (simp add: pos_imp_zdiv_nonneg_iff)
    ultimately show ?thesis using cs le by (auto split: if_splits)
  qed
qed

lemma panel_offset_bounds:
  assumes "0 < min_NR" "min_NR dvd NR" "0 < NR" "0 < kf" "kf dvd kc0p" "0 \<le> kr" "kr < kc0p" "0 \<le> i" "i < nc0"
  shows "0 \<le> panel_offset NR min_NR kf nc0 kc0p kr i" 
    "panel_offset NR min_NR kf nc0 kc0p kr i < dlp_make_multiple_of_n nc0 min_NR * kc0p"
proof -
  obtain s slot where ch: "chunk_of NR min_NR nc0 i = (s, slot)" by force
  note pr = chunk_of_props [OF assms(1-3,8,9) ch]
  have e: "0 \<le> dlp_reorder_elem_offset kr (i - s) slot kf" "dlp_reorder_elem_offset kr (i - s) slot kf < slot * kc0p"
    using elem_offset_bounds [OF assms(6,7,5,4), of "i - s" slot] pr by auto
  have "(s + slot) * kc0p \<le> dlp_make_multiple_of_n nc0 min_NR * kc0p" using pr(4) assms(6,7) by (intro mult_right_mono) simp_all
  moreover have "0 \<le> s * kc0p" using pr(1) assms(6,7) by simp
  moreover have "panel_offset NR min_NR kf nc0 kc0p kr i = s * kc0p + dlp_reorder_elem_offset kr (i - s) slot kf"
    by (simp add: panel_offset_def ch)
  ultimately show "0 \<le> panel_offset NR min_NR kf nc0 kc0p kr i" 
    "panel_offset NR min_NR kf nc0 kc0p kr i < dlp_make_multiple_of_n nc0 min_NR * kc0p"
    using e by (simp_all add: algebra_simps)
qed

lemma panel_offset_inj:
  assumes "0 < min_NR" "min_NR dvd NR" "0 < NR" "0 < kf" "kf dvd kc0p"
    and "0 \<le> kr" "kr < kc0p" "0 \<le> kr'" "kr' < kc0p" "0 \<le> i" "i < nc0" "0 \<le> i'" "i' < nc0"
    and eq: "panel_offset NR min_NR kf nc0 kc0p kr i = panel_offset NR min_NR kf nc0 kc0p kr' i'"
  shows "kr = kr' \<and> i = i'"
proof -
  obtain s slot s' slot' where ch: "chunk_of NR min_NR nc0 i = (s, slot)" "chunk_of NR min_NR nc0 i' = (s', slot')" by force
  note pr = chunk_of_props [OF assms(1-3,10,11) ch(1)] and pr' = chunk_of_props [OF assms(1-3,12,13) ch(2)]
  have e: "0 \<le> dlp_reorder_elem_offset kr (i - s) slot kf" "dlp_reorder_elem_offset kr (i - s) slot kf < slot * kc0p"
    "0 \<le> dlp_reorder_elem_offset kr' (i' - s') slot' kf" "dlp_reorder_elem_offset kr' (i' - s') slot' kf < slot' * kc0p"
    using elem_offset_bounds [OF assms(6,7,5,4), of "i - s" slot] elem_offset_bounds [OF assms(8,9,5,4), of "i' - s'" slot'] pr pr' by auto
  have sum: "s * kc0p + dlp_reorder_elem_offset kr (i - s) slot kf = s' * kc0p + dlp_reorder_elem_offset kr' (i' - s') slot' kf"
    using eq by (simp add: panel_offset_def ch)
  have apart: "\<not> a + b \<le> c" if "a * kc0p + x = c * kc0p + y" "x < b * kc0p" "0 \<le> y" for a b c x y
  proof
    assume "a + b \<le> c"
    then have "(a + b) * kc0p \<le> c * kc0p" using assms(6,7) by (intro mult_right_mono) simp_all
    then show False using that by (simp add: algebra_simps)
  qed
  have "(s, slot) = (s', slot')"
    using chunk_of_order [OF assms(1-3,10) _ assms(13) ch] chunk_of_order [OF assms(1-3,12) _ assms(11) ch(2,1)]
      apart [OF sum e(2,3)] apart [OF sum [symmetric] e(4,1)] by (cases "i \<le> i'") auto
  then show ?thesis using elem_offset_inj [OF assms(6,8,4), of "i - s" slot "i' - s"] sum pr pr' by auto
qed

text \<open>A panel can be laid out in pieces: a piece that starts at a micro panel, and ends at one or at the end
  of the panel, has the layout of a panel of its own.\<close>

lemma chunk_of_shift:
  assumes "0 < min_NR" "min_NR dvd NR" "0 < NR" "NR dvd r" "0 \<le> i" "i < w1" "r + w1 \<le> w" "NR dvd w1 \<or> r + w1 = w"
  shows "chunk_of NR min_NR w (r + i) = (r + fst (chunk_of NR min_NR w1 i), snd (chunk_of NR min_NR w1 i))"
proof -
  obtain q where q: "r = q * NR" using assms(4) by (metis dvd_div_mult_self)
  define c where "c = i div NR * NR"
  have c: "c \<le> i" "i < c + NR" using floor_block [OF assms(3), of i] by (auto simp: c_def)
  have blk: "(r + i) div NR * NR = r + c" using assms(3) q by (simp add: c_def algebra_simps)
  from assms(8) show ?thesis
  proof
    assume "NR dvd w1"
    then obtain p where p: "w1 = p * NR" by (metis dvd_div_mult_self)
    have "i div NR < p" using assms(3,6) p by (intro div_less_blocks) simp_all
    then have "(i div NR + 1) * NR \<le> p * NR" using assms(3) by (intro mult_right_mono) simp_all
    then have "c + NR \<le> w1" by (simp add: c_def p algebra_simps)
    then show ?thesis using assms(7) blk by (simp add: chunk_of_def Let_def c_def [symmetric])
  next
    assume "r + w1 = w"
    then show ?thesis using blk by (auto simp: chunk_of_def Let_def c_def [symmetric])
  qed
qed

lemma panel_offset_shift:
  assumes "0 < min_NR" "min_NR dvd NR" "0 < NR" "NR dvd r" "0 \<le> i" "i < w1" "r + w1 \<le> w" "NR dvd w1 \<or> r + w1 = w"
  shows "panel_offset NR min_NR kf w kc0p kr (r + i) = r * kc0p + panel_offset NR min_NR kf w1 kc0p kr i"
  using chunk_of_shift [OF assms] by (simp add: panel_offset_def split_beta Let_def algebra_simps)

section \<open>The layout of the whole matrix\<close>

text \<open>Element \<open>(kr, j)\<close> of a \<open>k\<close> by \<open>n\<close> matrix. Panels are stored down the depth first, then across the columns.\<close>

definition B_offset :: "md_t \<Rightarrow> md_t \<Rightarrow> md_t \<Rightarrow> md_t \<Rightarrow> md_t \<Rightarrow> md_t \<Rightarrow> md_t \<Rightarrow> md_t \<Rightarrow> md_t \<Rightarrow> md_t" where
  "B_offset NR min_NR NC KC k_factor n k kr j =
     (let pc = kr div KC * KC;
          kc0_padded = dlp_make_multiple_of_n (dlp_min (k - pc) KC) k_factor;
          jc = j div NC * NC;
          width = dlp_min NC (n - jc)
      in jc * dlp_make_multiple_of_n k k_factor + dlp_make_multiple_of_n width min_NR * pc
         + panel_offset NR min_NR k_factor width kc0_padded (kr - pc) (j - jc))"

text \<open>Block sizes with a well-defined layout. That \<open>NR\<close> divides \<open>NC\<close> is not part of the code's legality test.\<close>

locale reorder_blocks =
  fixes NR min_NR NC KC kf n k :: md_t
  assumes legal: "dlp_reorder_ref_blocks_legal NR min_NR KC kf"
    and panel: "0 < NC" "NR dvd NC"
    and dims: "0 \<le> n" "0 \<le> k"
begin

lemmas pos = blocks_legalD [OF legal]

lemma min_dvd_NC: "min_NR dvd NC" using pos(5) panel(2) by (rule dvd_trans)

lemma depth_block:
  assumes "0 \<le> kr" "kr < k"
  defines "pc \<equiv> kr div KC * KC"
  defines "kc0p \<equiv> dlp_make_multiple_of_n (dlp_min (k - pc) KC) kf"
  shows "0 \<le> pc" "pc \<le> kr" "kr - pc < dlp_min (k - pc) KC" "dlp_min (k - pc) KC \<le> kc0p" "kf dvd kc0p"
    "pc + kc0p \<le> dlp_make_multiple_of_n k kf" "pc + KC < k \<Longrightarrow> kc0p = KC"
proof -
  have b: "pc \<le> kr" "kr < pc + KC" using floor_block [OF pos(2), of kr] by (auto simp: pc_def)
  show pc0: "0 \<le> pc" using assms(1) pos(2) by (simp add: pc_def pos_imp_zdiv_nonneg_iff)
  show "pc \<le> kr" by fact
  show lt: "kr - pc < dlp_min (k - pc) KC" using b assms(2) by (simp add: dlp_min_def)
  have kc: "0 \<le> dlp_min (k - pc) KC" using lt b by linarith
  show "dlp_min (k - pc) KC \<le> kc0p" "kf dvd kc0p" using make_multiple_bounds [OF kc pos(4)] by (auto simp: kc0p_def)
  have kpc: "kf dvd pc" using pos(6) by (simp add: pc_def)
  have up: "k \<le> dlp_make_multiple_of_n k kf" using make_multiple_bounds [OF dims(2) pos(4)] by simp
  show full: "kc0p = KC" if "pc + KC < k" using that pos make_multiple_id [of KC kf] by (simp add: kc0p_def dlp_min_def)
  show "pc + kc0p \<le> dlp_make_multiple_of_n k kf"
  proof (cases "pc + KC < k")
    case True
    then show ?thesis using full up by simp
  next
    case False
    then have min: "dlp_min (k - pc) KC = k - pc" by (simp add: dlp_min_def)
    have "(k - pc) mod kf = k mod kf" using kpc by (simp add: mod_diff_right_eq dvd_imp_mod_0 flip: mod_diff_eq)
    then show ?thesis using make_multiple_eq [OF kc pos(4)] make_multiple_eq [OF dims(2) pos(4)] by (simp add: kc0p_def min)
  qed
qed

lemma column_panel:
  assumes "0 \<le> j" "j < n"
  defines "jc \<equiv> j div NC * NC"
  defines "width \<equiv> dlp_min NC (n - jc)"
  shows "0 \<le> jc" "jc \<le> j" "j - jc < width" "width \<le> dlp_make_multiple_of_n width min_NR"
    "jc + dlp_make_multiple_of_n width min_NR \<le> dlp_make_multiple_of_n n min_NR"
    "jc + NC < n \<Longrightarrow> dlp_make_multiple_of_n width min_NR = NC"
proof -
  have b: "jc \<le> j" "j < jc + NC" using floor_block [OF panel(1), of j] by (auto simp: jc_def)
  show "0 \<le> jc" using assms(1) panel(1) by (simp add: jc_def pos_imp_zdiv_nonneg_iff)
  show "jc \<le> j" by fact
  show lt: "j - jc < width" using b assms(2) by (simp add: width_def dlp_min_def)
  have w: "0 \<le> width" using lt b by linarith
  show "width \<le> dlp_make_multiple_of_n width min_NR" using make_multiple_bounds [OF w pos(3)] by simp
  have up: "n \<le> dlp_make_multiple_of_n n min_NR" using make_multiple_bounds [OF dims(1) pos(3)] by simp
  have mjc: "min_NR dvd jc" using min_dvd_NC by (simp add: jc_def)
  show full: "dlp_make_multiple_of_n width min_NR = NC" if "jc + NC < n"
    using that panel(1) pos(3) min_dvd_NC make_multiple_id [of NC min_NR] by (simp add: width_def dlp_min_def)
  show "jc + dlp_make_multiple_of_n width min_NR \<le> dlp_make_multiple_of_n n min_NR"
  proof (cases "jc + NC < n")
    case True
    then show ?thesis using full up by simp
  next
    case False
    then have width: "width = n - jc" by (simp add: width_def dlp_min_def)
    have "(n - jc) mod min_NR = n mod min_NR" using mjc by (simp add: mod_diff_right_eq dvd_imp_mod_0 flip: mod_diff_eq)
    then show ?thesis using make_multiple_eq [OF w pos(3)] make_multiple_eq [OF dims(1) pos(3)] by (simp add: width)
  qed
qed

text \<open>An element's place is in the part of the buffer of its panel.\<close>

lemma offset_in_panel:
  assumes "0 \<le> kr" "kr < k" "0 \<le> j" "j < n"
  defines "pc \<equiv> kr div KC * KC" and "jc \<equiv> j div NC * NC"
  defines "kc0p \<equiv> dlp_make_multiple_of_n (dlp_min (k - pc) KC) kf"
    and "W \<equiv> dlp_make_multiple_of_n (dlp_min NC (n - jc)) min_NR"
    and "kp \<equiv> dlp_make_multiple_of_n k kf"
  shows "jc * kp + W * pc \<le> B_offset NR min_NR NC KC kf n k kr j"
    "B_offset NR min_NR NC KC kf n k kr j < jc * kp + W * (pc + kc0p)"
    "W * (pc + kc0p) \<le> W * kp" "0 \<le> W * pc" "0 < W" "0 < kp"
proof -
  note d = depth_block [OF assms(1,2), folded pc_def, folded kc0p_def, folded kp_def]
  note c = column_panel [OF assms(3,4), folded jc_def, folded W_def]
  have pan: "0 \<le> panel_offset NR min_NR kf (dlp_min NC (n - jc)) kc0p (kr - pc) (j - jc)"
    "panel_offset NR min_NR kf (dlp_min NC (n - jc)) kc0p (kr - pc) (j - jc) < W * kc0p"
    using panel_offset_bounds [OF pos(3,5,1,4) d(5), of "kr - pc" "j - jc" "dlp_min NC (n - jc)"] d c by (auto simp: W_def)
  have B: "B_offset NR min_NR NC KC kf n k kr j = jc * kp + W * pc + panel_offset NR min_NR kf (dlp_min NC (n - jc)) kc0p (kr - pc) (j - jc)"
    by (simp add: B_offset_def Let_def pc_def jc_def kc0p_def W_def kp_def)
  show W: "0 < W" using c by linarith
  show "0 < kp" using d by linarith
  show "0 \<le> W * pc" using W d(1) by simp
  show "W * (pc + kc0p) \<le> W * kp" using W d(6) by (intro mult_left_mono) simp_all
  show "jc * kp + W * pc \<le> B_offset NR min_NR NC KC kf n k kr j"
    "B_offset NR min_NR NC KC kf n k kr j < jc * kp + W * (pc + kc0p)"
    using pan unfolding B by (simp_all add: algebra_simps)
qed

lemma B_offset_bounds:
  assumes "0 \<le> kr" "kr < k" "0 \<le> j" "j < n"
  shows "0 \<le> B_offset NR min_NR NC KC kf n k kr j"
    "B_offset NR min_NR NC KC kf n k kr j < dlp_make_multiple_of_n n min_NR * dlp_make_multiple_of_n k kf"
proof -
  note o = offset_in_panel [OF assms]
  note c = column_panel [OF assms(3,4)]
  have "0 \<le> j div NC * NC * dlp_make_multiple_of_n k kf" using c(1) o(6) by simp
  then show "0 \<le> B_offset NR min_NR NC KC kf n k kr j" using o(1,4) by linarith
  have "(j div NC * NC + dlp_make_multiple_of_n (dlp_min NC (n - j div NC * NC)) min_NR) * dlp_make_multiple_of_n k kf
      \<le> dlp_make_multiple_of_n n min_NR * dlp_make_multiple_of_n k kf"
    using c(5) o(6) by (intro mult_right_mono) simp_all
  then show "B_offset NR min_NR NC KC kf n k kr j < dlp_make_multiple_of_n n min_NR * dlp_make_multiple_of_n k kf"
    using o(2,3) by (simp only: distrib_right)
qed

lemma B_offset_panel_eq:
  assumes "0 \<le> kr" "kr < k" "0 \<le> j" "j < n" "0 \<le> kr'" "kr' < k" "0 \<le> j'" "j' < n"
    and eq: "B_offset NR min_NR NC KC kf n k kr j = B_offset NR min_NR NC KC kf n k kr' j'"
  shows "\<not> j div NC < j' div NC" "j div NC = j' div NC \<Longrightarrow> \<not> kr div KC < kr' div KC"
proof -
  note o = offset_in_panel [OF assms(1-4)] and o' = offset_in_panel [OF assms(5-8)]
  show "\<not> j div NC < j' div NC"
  proof
    assume "j div NC < j' div NC"
    then have "(j div NC + 1) * NC \<le> j' div NC * NC" using panel(1) by (intro mult_right_mono) simp_all
    then have ge: "j div NC * NC + NC \<le> j' div NC * NC" by (simp add: algebra_simps)
    moreover have "j' div NC * NC < n" using column_panel(2) [OF assms(7,8)] assms(8) by linarith
    ultimately have "dlp_make_multiple_of_n (dlp_min NC (n - j div NC * NC)) min_NR = NC"
      using column_panel(6) [OF assms(3,4)] by simp
    moreover have "(j div NC * NC + NC) * dlp_make_multiple_of_n k kf \<le> j' div NC * NC * dlp_make_multiple_of_n k kf"
      using ge o(6) by (intro mult_right_mono) simp_all
    ultimately show False using o(2,3) o'(1,4) eq by (simp add: distrib_right)
  qed
  show "\<not> kr div KC < kr' div KC" if same: "j div NC = j' div NC"
  proof
    assume "kr div KC < kr' div KC"
    then have "(kr div KC + 1) * KC \<le> kr' div KC * KC" using pos(2) by (intro mult_right_mono) simp_all
    then have ge: "kr div KC * KC + KC \<le> kr' div KC * KC" by (simp add: algebra_simps)
    moreover have "kr' div KC * KC < k" using depth_block(2) [OF assms(5,6)] assms(6) by linarith
    ultimately have full: "dlp_make_multiple_of_n (dlp_min (k - kr div KC * KC) KC) kf = KC"
      using depth_block(7) [OF assms(1,2)] by simp
    have "dlp_make_multiple_of_n (dlp_min NC (n - j div NC * NC)) min_NR * (kr div KC * KC + KC) \<le>
        dlp_make_multiple_of_n (dlp_min NC (n - j div NC * NC)) min_NR * (kr' div KC * KC)"
      using ge o(5) by (intro mult_left_mono) simp_all
    then show False using o(2) o'(1) eq by (simp only: full same)
  qed
qed

lemma B_offset_inj:
  assumes "0 \<le> kr" "kr < k" "0 \<le> j" "j < n" "0 \<le> kr'" "kr' < k" "0 \<le> j'" "j' < n"
    and eq: "B_offset NR min_NR NC KC kf n k kr j = B_offset NR min_NR NC KC kf n k kr' j'"
  shows "kr = kr' \<and> j = j'"
proof -
  have jd: "j div NC = j' div NC"
    using B_offset_panel_eq(1) [OF assms] B_offset_panel_eq(1) [OF assms(5-8,1-4) eq [symmetric]] by linarith
  have kd: "kr div KC = kr' div KC"
    using B_offset_panel_eq(2) [OF assms jd] B_offset_panel_eq(2) [OF assms(5-8,1-4) eq [symmetric] jd [symmetric]] by linarith
  note d = depth_block [OF assms(1,2)] and d' = depth_block [OF assms(5,6)]
  note c = column_panel [OF assms(3,4)] and c' = column_panel [OF assms(7,8)]
  have "kr - kr div KC * KC = kr' - kr div KC * KC \<and> j - j div NC * NC = j' - j div NC * NC"
  proof (rule panel_offset_inj [OF pos(3,5,1,4) d(5)])
    show "panel_offset NR min_NR kf (dlp_min NC (n - j div NC * NC)) (dlp_make_multiple_of_n (dlp_min (k - kr div KC * KC) KC) kf)
        (kr - kr div KC * KC) (j - j div NC * NC) =
      panel_offset NR min_NR kf (dlp_min NC (n - j div NC * NC)) (dlp_make_multiple_of_n (dlp_min (k - kr div KC * KC) KC) kf)
        (kr' - kr div KC * KC) (j' - j div NC * NC)"
      using eq by (simp add: B_offset_def Let_def jd kd)
  qed (use d d' c c' in \<open>simp_all add: jd kd\<close>)
  then show ?thesis by simp
qed

end

section \<open>Which panel a place belongs to\<close>

text \<open>The panel's first column and depth index, and the column of the panel's slots, of a place in the buffer.\<close>

definition slot_of :: "md_t \<Rightarrow> md_t \<Rightarrow> md_t \<Rightarrow> md_t \<Rightarrow> md_t \<Rightarrow> md_t \<Rightarrow> md_t \<Rightarrow> md_t \<times> md_t \<times> md_t" where
  "slot_of min_NR NC KC k_factor n k d =
     (let kp = dlp_make_multiple_of_n k k_factor;
          jc = d div kp div NC * NC;
          W = dlp_make_multiple_of_n (dlp_min NC (n - jc)) min_NR;
          pc = (d - jc * kp) div W div KC * KC;
          kc0p = dlp_make_multiple_of_n (dlp_min (k - pc) KC) k_factor
      in (jc, pc, (d - jc * kp - W * pc) div kc0p))"

text \<open>A part of a panel that one call works on: it starts at a micro panel, and ends at one or with the panel.\<close>

definition is_piece :: "md_t \<Rightarrow> md_t \<Rightarrow> md_t \<Rightarrow> md_t \<Rightarrow> md_t \<Rightarrow> bool" where
  "is_piece NR NC n jc nc0 \<longleftrightarrow> 0 \<le> jc \<and> jc < n \<and> NR dvd jc \<and> 0 < nc0 \<and>
     jc - jc div NC * NC + nc0 \<le> dlp_min NC (n - jc div NC * NC) \<and>
     (NR dvd nc0 \<or> jc - jc div NC * NC + nc0 = dlp_min NC (n - jc div NC * NC))"

context reorder_blocks
begin

definition kp :: md_t where "kp = dlp_make_multiple_of_n k kf"
definition np :: md_t where "np = dlp_make_multiple_of_n n min_NR"
definition W :: "md_t \<Rightarrow> md_t" where "W P = dlp_make_multiple_of_n (dlp_min NC (n - P)) min_NR"
definition kc0p :: "md_t \<Rightarrow> md_t" where "kc0p pc = dlp_make_multiple_of_n (dlp_min (k - pc) KC) kf"

lemma panel_at:
  assumes "NC dvd P" "0 \<le> P" "P < n"
  shows "0 < W P" "W P \<le> NC" "P + W P \<le> np" "P + NC < n \<or> P + W P = np" "P + NC < n \<Longrightarrow> W P = NC" "min_NR dvd W P"
proof -
  have P: "P div NC * NC = P" using assms(1) by simp
  note c = column_panel [OF assms(2,3), unfolded P, folded W_def np_def]
  show "0 < W P" "P + W P \<le> np" using c panel by auto
  show "P + NC < n \<Longrightarrow> W P = NC" using c(6) .
  have w: "0 \<le> dlp_min NC (n - P)" using assms panel by (simp add: dlp_min_def)
  show "min_NR dvd W P" using make_multiple_bounds [OF w pos(3)] by (simp add: W_def)
  show "W P \<le> NC" using make_multiple_mono [OF w _ pos(3), of NC] make_multiple_id [of NC min_NR] min_dvd_NC pos(3) panel
    by (simp add: W_def dlp_min_def)
  show "P + NC < n \<or> P + W P = np"
  proof (rule disjCI)
    assume "P + W P \<noteq> np"
    then show "P + NC < n" 
    proof (rule contrapos_np)
      assume "\<not> P + NC < n"
      then have w: "dlp_min NC (n - P) = n - P" by (simp add: dlp_min_def)
      have "min_NR dvd P" using min_dvd_NC assms(1) by (rule dvd_trans)
      then have "(n - P) mod min_NR = n mod min_NR" by (simp add: mod_diff_right_eq dvd_imp_mod_0 flip: mod_diff_eq)
      then show "P + W P = np" using make_multiple_eq [of "n - P" min_NR] make_multiple_eq [OF dims(1) pos(3)] assms pos(3)
        by (simp add: W_def np_def w)
    qed
  qed
qed

lemma depth_at:
  assumes "KC dvd pc" "0 \<le> pc" "pc < k"
  shows "0 < kc0p pc" "kc0p pc \<le> KC" "pc + kc0p pc \<le> kp" "pc + KC < k \<or> pc + kc0p pc = kp"
    "dlp_min (k - pc) KC \<le> kc0p pc" "kf dvd kc0p pc"
proof -
  have P: "pc div KC * KC = pc" using assms(1) by simp
  note c = depth_block [OF assms(2,3), unfolded P, folded kc0p_def kp_def]
  show "0 < kc0p pc" "pc + kc0p pc \<le> kp" "dlp_min (k - pc) KC \<le> kc0p pc" "kf dvd kc0p pc" using c by auto
  have w: "0 \<le> dlp_min (k - pc) KC" using assms pos by (simp add: dlp_min_def)
  show "kc0p pc \<le> KC" using make_multiple_mono [OF w _ pos(4), of KC] make_multiple_id [of KC kf] pos
    by (simp add: kc0p_def dlp_min_def)
  show "pc + KC < k \<or> pc + kc0p pc = kp"
  proof (rule disjCI)
    assume "pc + kc0p pc \<noteq> kp"
    then show "pc + KC < k"
    proof (rule contrapos_np)
      assume "\<not> pc + KC < k"
      then have w: "dlp_min (k - pc) KC = k - pc" by (simp add: dlp_min_def)
      have "kf dvd pc" using pos(6) assms(1) by (rule dvd_trans)
      then have "(k - pc) mod kf = k mod kf" by (simp add: mod_diff_right_eq dvd_imp_mod_0 flip: mod_diff_eq)
      then show "pc + kc0p pc = kp" using make_multiple_eq [of "k - pc" kf] make_multiple_eq [OF dims(2) pos(4)] assms pos(4)
        by (simp add: kc0p_def kp_def w)
    qed
  qed
qed

text \<open>The place of slot column \<open>c\<close> of a panel, and back.\<close>

lemma slot_of_eq:
  assumes "NC dvd P" "0 \<le> P" "P < n" "KC dvd pc" "0 \<le> pc" "pc < k" "0 \<le> c" "c < W P" "0 \<le> x" "x < kc0p pc"
  shows "slot_of min_NR NC KC kf n k (P * kp + W P * pc + c * kc0p pc + x) = (P, pc, c)"
proof -
  note p = panel_at [OF assms(1-3)] and d = depth_at [OF assms(4-6)]
  define y where "y = c * kc0p pc + x"
  have "(c + 1) * kc0p pc \<le> W P * kc0p pc" using assms(8) d(1) by (intro mult_right_mono) simp_all
  then have y: "0 \<le> y" "y < W P * kc0p pc" using assms(7,9,10) d(1) by (auto simp: y_def distrib_right)
  have yd: "y div kc0p pc = c" using assms(9,10) d(1) by (intro div_eq_in_block) (auto simp: y_def distrib_right)
  define z where "z = W P * pc + y"
  have "W P * (pc + kc0p pc) \<le> W P * kp" using p(1) d(3) by (intro mult_left_mono) simp_all
  then have z: "0 \<le> z" "z < W P * kp" using y p(1) assms(5) by (auto simp: z_def distrib_left)
  have "W P * (pc + kc0p pc) \<le> W P * (pc + KC)" using p(1) d(2) by (intro mult_left_mono) simp_all
  then have zW: "z < (pc + KC) * W P" using y by (simp add: z_def distrib_left mult.commute)
  have "pc \<le> z div W P" using zdiv_mono1 [of "W P * pc" z "W P"] y p(1) by (simp add: z_def)
  moreover have "z div W P < pc + KC" using zW p(1) by (intro div_less_blocks)
  ultimately have zd: "z div W P div KC * KC = pc" using assms(4) pos(2) by (intro block_of) simp_all
  have kp0: "0 < kp" using d(1,3) assms(5) by linarith
  have "W P * kp \<le> NC * kp" using p(2) kp0 by (intro mult_right_mono) simp_all
  then have "P * kp + z < (P + NC) * kp" using z by (simp add: distrib_right)
  then have "(P * kp + z) div kp < P + NC" using kp0 by (intro div_less_blocks)
  moreover have "P \<le> (P * kp + z) div kp" using zdiv_mono1 [of "P * kp" "P * kp + z" kp] z kp0 by simp
  ultimately have Pd: "(P * kp + z) div kp div NC * NC = P" using assms(1) panel(1) by (intro block_of) simp_all
  have "slot_of min_NR NC KC kf n k (P * kp + z) = (P, pc, c)"
    unfolding slot_of_def Let_def kp_def [symmetric] Pd W_def [symmetric] add_diff_cancel_left' zd kc0p_def [symmetric]
    by (simp add: z_def yd)
  then show ?thesis by (simp add: z_def y_def add.assoc)
qed

lemma slot_of_exists:
  assumes "0 \<le> d" "d < np * kp"
  obtains P pc c x where "NC dvd P" "0 \<le> P" "P < n" "KC dvd pc" "0 \<le> pc" "pc < k" "0 \<le> c" "c < W P" "0 \<le> x" "x < kc0p pc"
    "d = P * kp + W P * pc + c * kc0p pc + x"
proof -
  have kp0: "0 < kp" using assms make_multiple_bounds [OF dims(2) pos(4)] dims(2) by (cases "kp = 0") (auto simp: kp_def)
  define P where "P = d div kp div NC * NC"
  have dq: "0 \<le> d div kp" using assms(1) kp0 by (simp add: pos_imp_zdiv_nonneg_iff)
  have dn: "d div kp < np" using assms(2) kp0 by (intro div_less_blocks)
  have P: "NC dvd P" "0 \<le> P" "P \<le> d div kp" "d div kp < P + NC"
    using floor_block [OF panel(1), of "d div kp"] dq panel(1) by (auto simp: P_def pos_imp_zdiv_nonneg_iff)
  have Pn: "P < n"
  proof (rule ccontr)
    assume "\<not> P < n"
    moreover have "min_NR dvd P" using min_dvd_NC P(1) by (rule dvd_trans)
    ultimately have "np \<le> P" using make_multiple_mono [OF dims(1) _ pos(3), of P] make_multiple_id [of P min_NR] P(2) pos(3)
      by (simp add: np_def)
    then show False using dn P(3) by linarith
  qed
  note p = panel_at [OF P(1,2) Pn]
  define z where "z = d - P * kp"
  have "P * kp \<le> d div kp * kp" using P(3) kp0 by (intro mult_right_mono) simp_all
  then have z0: "0 \<le> z" using floor_block [OF kp0, of d] unfolding z_def by linarith
  have "d div kp < P + W P" using P(4) dn p(4,5) by auto
  then have "(d div kp + 1) * kp \<le> (P + W P) * kp" using kp0 by (intro mult_right_mono) simp_all
  then have zW: "z < kp * W P" using floor_block [OF kp0, of d] unfolding z_def distrib_right mult.commute [of kp] by linarith
  define pc where "pc = z div W P div KC * KC"
  have zq: "0 \<le> z div W P" "z div W P < kp" using z0 zW p(1) by (simp_all add: pos_imp_zdiv_nonneg_iff div_less_blocks)
  have pc: "KC dvd pc" "0 \<le> pc" "pc \<le> z div W P" "z div W P < pc + KC"
    using floor_block [OF pos(2), of "z div W P"] zq pos(2) by (auto simp: pc_def pos_imp_zdiv_nonneg_iff)
  have pck: "pc < k"
  proof (rule ccontr)
    assume "\<not> pc < k"
    moreover have "kf dvd pc" using pos(6) pc(1) by (rule dvd_trans)
    ultimately have "kp \<le> pc" using make_multiple_mono [OF dims(2) _ pos(4), of pc] make_multiple_id [of pc kf] pc(2) pos(4)
      by (simp add: kp_def)
    then show False using zq pc(3) by linarith
  qed
  note dp = depth_at [OF pc(1,2) pck]
  have "pc + KC < k \<Longrightarrow> kc0p pc = KC" using depth_block(7) [OF pc(2) pck] pc(1) by (simp add: kc0p_def)
  then have zk: "z div W P < pc + kc0p pc" using pc(4) zq(2) dp(4) by auto
  define y where "y = z - W P * pc"
  have "W P * pc \<le> W P * (z div W P)" using pc(3) p(1) by (intro mult_left_mono) simp_all
  then have y0: "0 \<le> y" using floor_block [OF p(1), of z] unfolding y_def mult.commute [of "W P"] by linarith
  have "(z div W P + 1) * W P \<le> (pc + kc0p pc) * W P" using zk p(1) by (intro mult_right_mono) simp_all
  then have yW: "y < W P * kc0p pc" using floor_block [OF p(1), of z] unfolding y_def distrib_right mult.commute [of "W P"] by linarith
  show ?thesis
  proof (rule that [OF P(1,2) Pn pc(1,2) pck])
    show "0 \<le> y div kc0p pc" "y div kc0p pc < W P" using y0 yW dp(1) by (simp_all add: pos_imp_zdiv_nonneg_iff div_less_blocks mult.commute)
    show "0 \<le> y mod kc0p pc" "y mod kc0p pc < kc0p pc" using dp(1) by simp_all
    show "d = P * kp + W P * pc + y div kc0p pc * kc0p pc + y mod kc0p pc" by (simp add: y_def z_def)
  qed
qed

text \<open>Where a piece begins in the buffer, and the column that stands for a place; padding counts to the
  last column.\<close>

definition piece_off :: "md_t \<Rightarrow> md_t \<Rightarrow> md_t" where
  "piece_off jc pc = jc div NC * NC * kp + W (jc div NC * NC) * pc + (jc - jc div NC * NC) * kc0p pc"

definition slot_col :: "md_t \<Rightarrow> md_t" where
  "slot_col d = (case slot_of min_NR NC KC kf n k d of (P, pc, c) \<Rightarrow> min (P + c) (n - 1))"

lemma piece_facts:
  assumes "is_piece NR NC n jc nc0"
  defines "P \<equiv> jc div NC * NC"
  shows "NC dvd P" "0 \<le> P" "P < n" "P \<le> jc" "NR dvd jc - P" "jc - P + nc0 \<le> dlp_min NC (n - P)"
    "NR dvd nc0 \<or> jc + nc0 = n" "jc - P + dlp_make_multiple_of_n nc0 min_NR \<le> W P"
    "jc + nc0 = n \<Longrightarrow> jc - P + dlp_make_multiple_of_n nc0 min_NR = W P"
    "NR dvd nc0 \<Longrightarrow> dlp_make_multiple_of_n nc0 min_NR = nc0" "0 < nc0"
proof -
  have ip: "0 \<le> jc" "jc < n" "NR dvd jc" "0 < nc0" "jc - P + nc0 \<le> dlp_min NC (n - P)"
    "NR dvd nc0 \<or> jc - P + nc0 = dlp_min NC (n - P)" using assms by (auto simp: is_piece_def)
  show P: "NC dvd P" "P \<le> jc" "0 \<le> P" "P < n"
    using floor_block [OF panel(1), of jc] ip(1,2) panel(1) by (auto simp: P_def pos_imp_zdiv_nonneg_iff)
  show "jc - P + nc0 \<le> dlp_min NC (n - P)" "0 < nc0" by fact+
  have NRP: "NR dvd P" using panel(2) P(1) by (rule dvd_trans)
  then show rem: "NR dvd jc - P" using ip(3) by (intro dvd_diff)
  show mult: "dlp_make_multiple_of_n nc0 min_NR = nc0" if "NR dvd nc0"
    using that pos(3) ip(4) by (intro make_multiple_id) (auto intro: dvd_trans [OF pos(5)])
  show alt: "NR dvd nc0 \<or> jc + nc0 = n"
  proof (rule disjCI)
    assume "jc + nc0 \<noteq> n"
    moreover from this have "jc - P + nc0 = dlp_min NC (n - P) \<Longrightarrow> jc - P + nc0 = NC" by (auto simp: dlp_min_def split: if_splits)
    ultimately show "NR dvd nc0" using ip(6) rem panel(2) dvd_add_right_iff [of NR "jc - P" nc0] by auto
  qed
  have w: "dlp_min NC (n - P) \<le> W P" using column_panel(4) [OF P(3,4)] P(1) by (simp add: W_def)
  show last: "jc - P + dlp_make_multiple_of_n nc0 min_NR = W P" if "jc + nc0 = n"
  proof -
    have w: "dlp_min NC (n - P) = jc - P + nc0" using that ip(5) by (simp add: dlp_min_def split: if_splits)
    have "min_NR dvd jc - P" using pos(5) rem by (rule dvd_trans)
    then have "(jc - P + nc0) mod min_NR = nc0 mod min_NR" by (simp add: mod_add_left_eq dvd_imp_mod_0 flip: mod_add_eq)
    then show ?thesis using make_multiple_eq [of "jc - P + nc0" min_NR] make_multiple_eq [of nc0 min_NR] ip(4) P(2) pos(3)
      by (simp add: W_def w)
  qed
  show "jc - P + dlp_make_multiple_of_n nc0 min_NR \<le> W P" using alt mult last ip(5) w by (elim disjE) simp_all
qed

lemma piece_elem:
  assumes "is_piece NR NC n jc nc0" "KC dvd pc" "0 \<le> pc" "pc < k" "0 \<le> kr" "kr < dlp_min (k - pc) KC" "0 \<le> i" "i < nc0"
  shows "piece_off jc pc + panel_offset NR min_NR kf nc0 (kc0p pc) kr i = B_offset NR min_NR NC KC kf n k (pc + kr) (jc + i)"
    "pc + kr < k" "jc + i < n"
proof -
  define P where "P = jc div NC * NC"
  note f = piece_facts [OF assms(1), folded P_def]
  have blk: "(pc + kr) div KC * KC = pc" using assms(2,5,6) pos(2) by (intro block_of) (auto simp: dlp_min_def split: if_splits)
  have col: "(jc + i) div NC * NC = P" using f panel(1) assms(7,8) by (intro block_of) (auto simp: dlp_min_def split: if_splits)
  show "pc + kr < k" using assms(6) by (simp add: dlp_min_def split: if_splits)
  show "jc + i < n" using f(6) assms(8) by (simp add: dlp_min_def split: if_splits)
  have "NR dvd nc0 \<or> jc - P + nc0 = dlp_min NC (n - P)" using assms(1) by (simp add: is_piece_def P_def)
  then have "panel_offset NR min_NR kf (dlp_min NC (n - P)) (kc0p pc) kr (jc - P + i) =
      (jc - P) * kc0p pc + panel_offset NR min_NR kf nc0 (kc0p pc) kr i"
    using f(5,6) assms(7,8) pos by (intro panel_offset_shift) auto
  then show "piece_off jc pc + panel_offset NR min_NR kf nc0 (kc0p pc) kr i = B_offset NR min_NR NC KC kf n k (pc + kr) (jc + i)"
    unfolding B_offset_def Let_def blk col piece_off_def P_def [symmetric] kp_def [symmetric] W_def [symmetric] kc0p_def [symmetric]
    by (simp add: algebra_simps)
qed

text \<open>A block of \<open>NR\<close> columns of a piece, the last one narrower, is a piece.\<close>

lemma sub_piece:
  assumes "is_piece NR NC n jc nc0" "0 \<le> jr" "NR dvd jr" "jr < nc0"
  shows "is_piece NR NC n (jc + jr) (dlp_min (nc0 - jr) NR)" "piece_off jc pc + jr * kc0p pc = piece_off (jc + jr) pc"
proof -
  note f = piece_facts [OF assms(1)]
  let ?P = "jc div NC * NC" and ?nr0 = "dlp_min (nc0 - jr) NR"
  have top: "jc + nc0 \<le> ?P + NC" "jc + nc0 \<le> n" using f(6) by (auto simp: dlp_min_def split: if_splits)
  have P: "(jc + jr) div NC * NC = ?P" using f(1,4) panel(1) assms top by (intro block_of) auto
  have nr: "0 < ?nr0" "jr + ?nr0 \<le> nc0" using assms(4) pos(1) by (auto simp: dlp_min_def)
  have "NR dvd ?nr0 \<or> jc + jr + ?nr0 = jc + nc0" by (auto simp: dlp_min_def)
  moreover have "NR dvd nc0 - jr \<Longrightarrow> jr + ?nr0 = nc0 \<Longrightarrow> NR dvd ?nr0" by (metis add_diff_cancel_left')
  moreover have "NR dvd nc0 \<Longrightarrow> NR dvd nc0 - jr" using assms(3) by (intro dvd_diff) auto
  ultimately have alt: "NR dvd ?nr0 \<or> jc + jr + ?nr0 = jc + nc0 \<and> \<not> NR dvd nc0" by fastforce
  show "is_piece NR NC n (jc + jr) ?nr0"
    unfolding is_piece_def P using assms nr top alt f(4) by (auto simp: is_piece_def dlp_min_def [of NC])
  show "piece_off jc pc + jr * kc0p pc = piece_off (jc + jr) pc" unfolding piece_off_def P by (simp add: algebra_simps)
qed

definition in_piece :: "md_t \<Rightarrow> md_t \<Rightarrow> md_t \<Rightarrow> md_t \<Rightarrow> bool" where
  "in_piece jc nc0 pc d \<longleftrightarrow> piece_off jc pc \<le> d \<and> d < piece_off jc pc + dlp_make_multiple_of_n nc0 min_NR * kc0p pc"

lemma in_piece_slot:
  assumes "is_piece NR NC n jc nc0" "KC dvd pc" "0 \<le> pc" "pc < k" "in_piece jc nc0 pc d"
  obtains c where "slot_of min_NR NC KC kf n k d = (jc div NC * NC, pc, c)" "jc - jc div NC * NC \<le> c"
    "c < jc - jc div NC * NC + dlp_make_multiple_of_n nc0 min_NR" "0 \<le> d" "d < np * kp"
proof -
  define P where "P = jc div NC * NC"
  note f = piece_facts [OF assms(1), folded P_def] and d = depth_at [OF assms(2-4)]
  define y where "y = d - piece_off jc pc"
  have y: "0 \<le> y" "y < dlp_make_multiple_of_n nc0 min_NR * kc0p pc" using assms(5) by (auto simp: in_piece_def y_def)
  have c: "0 \<le> y div kc0p pc" "y div kc0p pc < dlp_make_multiple_of_n nc0 min_NR"
    using y d(1) by (simp_all add: pos_imp_zdiv_nonneg_iff div_less_blocks)
  have dd: "d = P * kp + W P * pc + (jc - P + y div kc0p pc) * kc0p pc + y mod kc0p pc"
    using div_mult_mod_eq [of y "kc0p pc"] by (simp add: y_def piece_off_def P_def [symmetric] distrib_right)
  have cW: "0 \<le> jc - P + y div kc0p pc" "jc - P + y div kc0p pc < W P" using c f(4,8) by linarith+
  have x: "0 \<le> y mod kc0p pc" "y mod kc0p pc < kc0p pc" using d(1) by simp_all
  note p = panel_at [OF f(1-3)]
  have "(jc - P + y div kc0p pc + 1) * kc0p pc \<le> W P * kc0p pc" using cW d(1) by (intro mult_right_mono) simp_all
  moreover have "W P * (pc + kc0p pc) \<le> W P * kp" using p(1) d(3) by (intro mult_left_mono) simp_all
  moreover have kp0: "0 < kp" using d(1,3) assms(3) by linarith
  moreover have "(P + W P) * kp \<le> np * kp" using p(3) kp0 by (intro mult_right_mono) simp_all
  ultimately have "d < np * kp" using x by (simp only: dd distrib_right distrib_left)
  moreover have "0 \<le> d" using f(2) kp0 p(1) assms(3) cW(1) x(1) d(1) by (simp add: dd)
  moreover have "slot_of min_NR NC KC kf n k d = (P, pc, jc - P + y div kc0p pc)"
    unfolding dd by (rule slot_of_eq [OF f(1-3) assms(2-4) cW x])
  ultimately show ?thesis using that [of "jc - P + y div kc0p pc"] c by (simp add: P_def)
qed

lemma in_piece_col:
  assumes "is_piece NR NC n jc nc0" "KC dvd pc" "0 \<le> pc" "pc < k" "in_piece jc nc0 pc d"
  shows "jc \<le> slot_col d \<and> slot_col d < jc + nc0"
proof -
  note f = piece_facts [OF assms(1)]
  obtain c where c: "slot_of min_NR NC KC kf n k d = (jc div NC * NC, pc, c)" "jc - jc div NC * NC \<le> c"
    "c < jc - jc div NC * NC + dlp_make_multiple_of_n nc0 min_NR" using in_piece_slot [OF assms] by metis
  have "jc + nc0 \<le> n" using f(6) by (simp add: dlp_min_def split: if_splits)
  then show ?thesis using c f(7,10,11) by (auto simp: slot_col_def)
qed

lemma in_pieceI:
  assumes "is_piece NR NC n jc nc0" "NC dvd P" "0 \<le> P" "P < n" "KC dvd pc" "0 \<le> pc" "pc < k" "0 \<le> c" "c < W P"
    "0 \<le> x" "x < kc0p pc" and d: "d = P * kp + W P * pc + c * kc0p pc + x"
    and "jc \<le> slot_col d" "slot_col d < jc + nc0"
  shows "in_piece jc nc0 pc d"
proof -
  note f = piece_facts [OF assms(1)] and p = panel_at [OF assms(2-4)]
  have s: "slot_col d = min (P + c) (n - 1)" using slot_of_eq [OF assms(2-11)] by (simp add: slot_col_def d)
  let ?j = "min (P + c) (n - 1)"
  have "?j div NC * NC = P" using assms(2,4,8,9) p(2) panel(1) by (intro block_of) auto
  moreover have "?j div NC * NC = jc div NC * NC"
    using f(1,4,6) panel(1) assms(13,14) s by (intro block_of) (auto simp: dlp_min_def split: if_splits)
  ultimately have P: "jc div NC * NC = P" by simp
  note f = f [unfolded P]
  have lo: "jc - P \<le> c" using assms(13) s by simp
  have hi: "c < jc - P + dlp_make_multiple_of_n nc0 min_NR"
  proof (cases "P + c \<le> n - 1")
    case True
    then have "P + c < jc + nc0" using assms(14) s by simp
    moreover have "nc0 \<le> dlp_make_multiple_of_n nc0 min_NR" using make_multiple_bounds [of nc0 min_NR] f(11) pos(3) by simp
    ultimately show ?thesis by linarith
  next
    case False
    then have "n \<le> jc + nc0" using assms(14) s by simp
    moreover have "jc + nc0 \<le> n" using f(6) by (simp add: dlp_min_def split: if_splits)
    ultimately show ?thesis using f(9) assms(9) by simp
  qed
  have k0: "0 < kc0p pc" using depth_at(1) [OF assms(5-7)] .
  have "(jc - P) * kc0p pc \<le> c * kc0p pc" using lo k0 by (intro mult_right_mono) simp_all
  moreover have "(c + 1) * kc0p pc \<le> (jc - P + dlp_make_multiple_of_n nc0 min_NR) * kc0p pc" using hi k0 by (intro mult_right_mono) simp_all
  ultimately show ?thesis using assms(10,11) unfolding in_piece_def piece_off_def P d distrib_right by (intro conjI) linarith+
qed

text \<open>A piece holds the places of its own elements only.\<close>

lemma elem_in_piece:
  assumes "is_piece NR NC n jc nc0" "KC dvd pc" "0 \<le> pc" "pc < k" "0 \<le> kr" "kr < k" "0 \<le> j" "j < n"
    and inp: "in_piece jc nc0 pc (B_offset NR min_NR NC KC kf n k kr j)"
  shows "kr div KC * KC = pc" "jc \<le> j" "j < jc + nc0"
proof -
  define pj where "pj = kr div KC * KC"
  define P where "P = j div NC * NC"
  note d = depth_block [OF assms(5,6), folded pj_def] and c = column_panel [OF assms(7,8), folded P_def]
  have dvd: "NC dvd P" "P < n" "KC dvd pj" "pj < k" using c(2) assms(8) d(2) assms(6) by (auto simp: P_def pj_def)
  note da = depth_at [OF dvd(3) d(1) dvd(4)]
  define w where "w = dlp_min NC (n - P)"
  obtain s slot where ch: "chunk_of NR min_NR w (j - P) = (s, slot)" by force
  have cp: "0 \<le> s" "s \<le> j - P" "j - P < s + slot" "s + slot \<le> W P"
    using chunk_of_props [OF pos(3,5,1) _ _ ch] c(2,3) by (auto simp: W_def w_def)
  define e where "e = dlp_reorder_elem_offset (kr - pj) (j - P - s) slot kf"
  have e: "0 \<le> e" "e < slot * kc0p pj"
    using elem_offset_bounds [of "kr - pj" "kc0p pj" kf "j - P - s" slot] d(2,3,4,5) da pos(4) cp by (auto simp: e_def kc0p_def)
  have B: "B_offset NR min_NR NC KC kf n k kr j = P * kp + W P * pj + (s + e div kc0p pj) * kc0p pj + e mod kc0p pj"
    unfolding B_offset_def Let_def pj_def [symmetric] P_def [symmetric] kp_def [symmetric] W_def [symmetric] kc0p_def [symmetric]
      w_def [symmetric] panel_offset_def ch prod.case e_def [symmetric] by (simp add: distrib_right)
  have ed: "0 \<le> e div kc0p pj" "e div kc0p pj < slot" using e da(1) by (simp_all add: pos_imp_zdiv_nonneg_iff div_less_blocks)
  have so: "slot_of min_NR NC KC kf n k (B_offset NR min_NR NC KC kf n k kr j) = (P, pj, s + e div kc0p pj)"
    unfolding B by (rule slot_of_eq) (use c(1) d(1) dvd da(1) cp ed in auto)
  obtain c' where c': "slot_of min_NR NC KC kf n k (B_offset NR min_NR NC KC kf n k kr j) = (jc div NC * NC, pc, c')"
    "jc - jc div NC * NC \<le> c'" "c' < jc - jc div NC * NC + dlp_make_multiple_of_n nc0 min_NR"
    using in_piece_slot [OF assms(1-4) inp] by metis
  have same: "jc div NC * NC = P" "pc = pj" "c' = s + e div kc0p pj" using so c'(1) by auto
  note f = piece_facts [OF assms(1), unfolded same(1)]
  show "kr div KC * KC = pc" using same(2) by (simp add: pj_def)
  define c0 where "c0 = (j - P) div NR * NR"
  have c0: "c0 \<le> j - P" "j - P < c0 + NR" "NR dvd c0" using floor_block [OF pos(1), of "j - P"] by (auto simp: c0_def)
  have cs: "(s, slot) = (if c0 + NR \<le> w then (c0, NR) else if j - P - c0 < (w - c0) div min_NR * min_NR
      then (c0, (w - c0) div min_NR * min_NR) else (c0 + (w - c0) div min_NR * min_NR, min_NR))"
    unfolding ch [symmetric] chunk_of_def Let_def c0_def ..
  show "jc \<le> j"
  proof (rule ccontr)
    assume "\<not> jc \<le> j"
    then have "0 < jc - P - c0" "NR dvd jc - P - c0" using c0 f(5) by (auto intro: dvd_diff)
    then have "NR \<le> jc - P - c0" using zdvd_imp_le by blast
    moreover have "jc - P \<le> w" using f(6,11) by (simp add: w_def)
    ultimately show False using cs c'(2) same ed by (auto split: if_splits)
  qed
  show "j < jc + nc0"
  proof (rule ccontr)
    assume far: "\<not> j < jc + nc0"
    then have "jc + nc0 \<noteq> n" using assms(8) by simp
    then have nr: "NR dvd nc0" using f(7) by simp
    have "NR dvd jc - P + nc0 - c0" by (rule dvd_diff [OF dvd_add [OF f(5) nr] c0(3)])
    have "jc - P + nc0 \<le> c0"
    proof (rule ccontr)
      assume "\<not> jc - P + nc0 \<le> c0"
      then have "NR \<le> jc - P + nc0 - c0" using \<open>NR dvd jc - P + nc0 - c0\<close> by (intro zdvd_imp_le) simp_all
      then show False using c0(2) far by linarith
    qed
    moreover have "c0 \<le> s" using cs c0 c(3) pos(3) by (auto simp: w_def pos_imp_zdiv_nonneg_iff split: if_splits)
    ultimately show False using c'(3) f(10) [OF nr] same ed by simp
  qed
qed

end

end
