(* ===== verification/Reorder_Ref.thy ===== *)
theory Reorder_Ref
  imports Reorder_Layout Task_Range Loops
begin

text \<open>
  The reference reorder and un-reorder of B, \<^verbatim>\<open>classic/frame/gemm_utils/dlp_gemm_reorder_ref.c\<close>.

  A thread's run is the list of its element stores, in order: \<open>Zero d\<close> for an element cleared by
  \<open>memset\<close>, \<open>Copy d s\<close> for a call of \<open>dlp_reorder_copy_elem\<close>; \<open>d\<close> and \<open>s\<close> are element
  indices into the two buffers. \<open>exec_op\<close> is its effect on the bytes of the destination. The threads of a team run
  concurrently: the effect of a reorder is that of any interleaving of their lists.

  The main lemmas: the walk writes exactly the layout \<open>B_offset\<close> with zero padding for every team and every
  schedule, so the bytes do not depend on the number of threads, and un-reordering with another team
  gives the matrix back.
\<close>

section \<open>The element stores\<close>

type_synonym bytes = "md_t \<Rightarrow> 8 word"

datatype elem_op = Zero md_t | Copy md_t md_t

text \<open>\<open>memcpy\<close> of one element between two byte arrays.\<close>

definition dlp_reorder_copy_elem :: "bytes \<Rightarrow> md_t \<Rightarrow> bytes \<Rightarrow> md_t \<Rightarrow> md_t \<Rightarrow> bytes" where
  "dlp_reorder_copy_elem dst_mem dst src_mem src elem_sz =
     (\<lambda>a. if dst \<le> a \<and> a < dst + elem_sz then src_mem (src + (a - dst)) else dst_mem a)"

fun exec_op :: "md_t \<Rightarrow> bytes \<Rightarrow> elem_op \<Rightarrow> bytes \<Rightarrow> bytes" where
  "exec_op elem_sz src_mem (Zero d) dst_mem = (\<lambda>a. if d * elem_sz \<le> a \<and> a < d * elem_sz + elem_sz then 0 else dst_mem a)"
| "exec_op elem_sz src_mem (Copy d s) dst_mem = dlp_reorder_copy_elem dst_mem (d * elem_sz) src_mem (s * elem_sz) elem_sz"

section \<open>One panel\<close>

text \<open>\<open>pack_b\<close> and \<open>b\<close> are the element indices of the two pointers.\<close>

definition dlp_reorder_ref_packb ::
  "md_t \<Rightarrow> md_t \<Rightarrow> md_t \<Rightarrow> md_t \<Rightarrow> md_t \<Rightarrow> md_t \<Rightarrow> md_t \<Rightarrow> md_t \<Rightarrow> md_t \<Rightarrow> elem_op list" where
  "dlp_reorder_ref_packb pack_b b k_factor nc0 kc0 NR min_NR rs_b cs_b =
     (let kc0_padded = dlp_reorder_round_up kc0 k_factor
      in map (\<lambda>d. Zero (pack_b + d)) [0..dlp_reorder_panel_elems nc0 kc0 min_NR k_factor - 1] @
         concat (map (\<lambda>chunk. concat (map (\<lambda>kr. map (\<lambda>i.
             let src = kr * rs_b + (rc_col_start chunk + i) * cs_b;
                 dst = rc_offset chunk + dlp_reorder_elem_offset kr i (rc_slot chunk) k_factor
             in Copy (pack_b + dst) (b + src)) [0..rc_cols chunk - 1]) [0..kc0 - 1]))
           (chunk_walk dlp_reorder_chunk_first nc0 NR min_NR kc0_padded)))"

definition dlp_reorder_ref_unpackb ::
  "md_t \<Rightarrow> md_t \<Rightarrow> md_t \<Rightarrow> md_t \<Rightarrow> md_t \<Rightarrow> md_t \<Rightarrow> md_t \<Rightarrow> md_t \<Rightarrow> md_t \<Rightarrow> elem_op list" where
  "dlp_reorder_ref_unpackb pack_b b k_factor nc0 kc0 NR min_NR rs_b cs_b =
     (let kc0_padded = dlp_reorder_round_up kc0 k_factor
      in concat (map (\<lambda>chunk. concat (map (\<lambda>kr. map (\<lambda>i.
             let dst = kr * rs_b + (rc_col_start chunk + i) * cs_b;
                 src = rc_offset chunk + dlp_reorder_elem_offset kr i (rc_slot chunk) k_factor
             in Copy (b + dst) (pack_b + src)) [0..rc_cols chunk - 1]) [0..kc0 - 1]))
           (chunk_walk dlp_reorder_chunk_first nc0 NR min_NR kc0_padded)))"

section \<open>The walk over the panels\<close>

text \<open>What the thread with number \<open>wid\<close> of a team of \<open>ways\<close> does.\<close>

definition ref_walk_thread ::
  "bool \<Rightarrow> md_t \<Rightarrow> md_t \<Rightarrow> md_t \<Rightarrow> md_t \<Rightarrow> md_t \<Rightarrow> md_t \<Rightarrow> md_t \<Rightarrow> md_t \<Rightarrow> md_t \<Rightarrow> md_t \<Rightarrow> md_t \<Rightarrow> elem_op list option" where
  "ref_walk_thread to_packed k_factor n k NR min_NR NC KC rs_b cs_b ways wid =
     (let k_padded = dlp_reorder_round_up k k_factor;
          thread_jc = \<lparr>ocomm_id = 0, n_way = ways, work_id = wid\<rparr>;
          (jc_start, jc_end) = dlp_thread_task_range thread_jc n NR False
      in map_option snd (for_loop jc_start jc_end
           (\<lambda>jc. dlp_gemm_adjust_B_panel_reordered_jc jc
                   (fst (dlp_gemm_get_B_panel_reordered_start_offset_width jc n NC min_NR (dlp_min (jc_end - jc) NC))) + NC)
           (\<lambda>jc s.
              let (jc_cur_loop, jc_cur_loop_rem, nc0, n_sub_updated) =
                    dlp_gemm_get_B_panel_reordered_start_offset_width jc n NC min_NR (dlp_min (jc_end - jc) NC)
              in for_loop 0 k (\<lambda>pc. pc + KC)
                   (\<lambda>pc s.
                      let kc0 = dlp_min (k - pc) KC;
                          kc0_padded = dlp_reorder_round_up kc0 k_factor;
                          off = (jc_cur_loop * k_padded) + (n_sub_updated * pc) + (jc_cur_loop_rem * kc0_padded);
                          mat = (rs_b * pc) + (jc * cs_b)
                      in Some (s, if to_packed then dlp_reorder_ref_packb off mat k_factor nc0 kc0 NR min_NR rs_b cs_b
                                  else dlp_reorder_ref_unpackb off mat k_factor nc0 kc0 NR min_NR rs_b cs_b)) s) ()))"

text \<open>The threads of the team. \<open>omp_team\<close> gives the size of the team OpenMP starts for a request; without
  OpenMP it is 1.\<close>

definition dlp_reorder_ref_walk ::
  "(md_t \<Rightarrow> nat) \<Rightarrow> bool \<Rightarrow> md_t \<Rightarrow> md_t \<Rightarrow> md_t \<Rightarrow> md_t \<Rightarrow> md_t \<Rightarrow> md_t \<Rightarrow> md_t \<Rightarrow> md_t \<Rightarrow> md_t \<Rightarrow> md_t \<Rightarrow> elem_op list option list" where
  "dlp_reorder_ref_walk omp_team to_packed k_factor n k NR min_NR NC KC rs_b cs_b n_threads =
     (let n_threads = (if n_threads > 0 then n_threads else 1);
          team = omp_team n_threads
      in map (\<lambda>t. ref_walk_thread to_packed k_factor n k NR min_NR NC KC rs_b cs_b (int team) (int t)) [0..<team])"

definition dlp_reorder_ref_reorderb ::
  "(md_t \<Rightarrow> nat) \<Rightarrow> md_t \<Rightarrow> md_t \<Rightarrow> md_t \<Rightarrow> md_t \<Rightarrow> md_t \<Rightarrow> md_t \<Rightarrow> md_t \<Rightarrow> md_t \<Rightarrow> md_t \<Rightarrow> md_t \<Rightarrow> elem_op list option list" where
  "dlp_reorder_ref_reorderb omp_team k_factor n k NR min_NR NC KC rs_b cs_b n_threads =
     dlp_reorder_ref_walk omp_team True k_factor n k NR min_NR NC KC rs_b cs_b n_threads"

definition dlp_reorder_ref_unreorderb ::
  "(md_t \<Rightarrow> nat) \<Rightarrow> md_t \<Rightarrow> md_t \<Rightarrow> md_t \<Rightarrow> md_t \<Rightarrow> md_t \<Rightarrow> md_t \<Rightarrow> md_t \<Rightarrow> md_t \<Rightarrow> md_t \<Rightarrow> md_t \<Rightarrow> elem_op list option list" where
  "dlp_reorder_ref_unreorderb omp_team k_factor n k NR min_NR NC KC rs_b cs_b n_threads =
     dlp_reorder_ref_walk omp_team False k_factor n k NR min_NR NC KC rs_b cs_b n_threads"

section \<open>The effect of a list of stores\<close>

fun op_dst :: "elem_op \<Rightarrow> md_t" where
  "op_dst (Zero d) = d" | "op_dst (Copy d s) = d"

fun op_byte :: "md_t \<Rightarrow> bytes \<Rightarrow> elem_op \<Rightarrow> md_t \<Rightarrow> 8 word" where
  "op_byte es src (Zero d) t = 0" | "op_byte es src (Copy d s) t = src (s * es + t)"

text \<open>The last store to an element.\<close>

definition final_op :: "elem_op list \<Rightarrow> md_t \<Rightarrow> elem_op option" where
  "final_op ops d = (case rev (filter (\<lambda>op. op_dst op = d) ops) of [] \<Rightarrow> None | op # _ \<Rightarrow> Some op)"

lemma elem_of_byte: "0 < es \<Longrightarrow> d * es \<le> a \<and> a < d * es + es \<longleftrightarrow> a div es = d" for es d a :: int
  using div_eq_in_block [of es d a] floor_block [of es a] by (auto simp: algebra_simps)

lemma exec_op_at: "0 < es \<Longrightarrow> exec_op es src op dst a = (if a div es = op_dst op then op_byte es src op (a mod es) else dst a)"
  by (cases op) (auto simp: dlp_reorder_copy_elem_def elem_of_byte minus_div_mult_eq_mod [symmetric])

lemma final_op_Nil [simp]: "final_op [] d = None" by (simp add: final_op_def)

lemma final_op_snoc: "final_op (ops @ [op]) d = (if op_dst op = d then Some op else final_op ops d)"
  by (simp add: final_op_def)

lemma final_op_append: "final_op (xs @ ys) d = (case final_op ys d of None \<Rightarrow> final_op xs d | Some op \<Rightarrow> Some op)"
  by (induction ys rule: rev_induct) (simp_all add: final_op_snoc flip: append_assoc)

lemma final_op_cong: "filter (\<lambda>op. op_dst op = d) xs = filter (\<lambda>op. op_dst op = d) ys \<Longrightarrow> final_op xs d = final_op ys d"
  by (simp add: final_op_def)

lemma final_op_in: "final_op ops d = Some op \<Longrightarrow> op \<in> set ops \<and> op_dst op = d"
  by (induction ops rule: rev_induct) (auto simp: final_op_snoc split: if_splits)

lemma final_op_None: "final_op ops d = None \<longleftrightarrow> (\<forall>op \<in> set ops. op_dst op \<noteq> d)"
  by (induction ops rule: rev_induct) (auto simp: final_op_snoc)

lemma run_ops_at:
  "0 < es \<Longrightarrow> fold (exec_op es src) ops dst a =
     (case final_op ops (a div es) of None \<Rightarrow> dst a | Some op \<Rightarrow> op_byte es src op (a mod es))"
  by (induction ops rule: rev_induct) (auto simp: final_op_snoc exec_op_at)

text \<open>Stores that all agree on what an element becomes, in any order of threads.\<close>

lemma final_op_concat:
  assumes "\<And>x. x \<in> set xs \<Longrightarrow> final_op (f x) d = None \<or> final_op (f x) d = Some op"
  shows "final_op (concat (map f xs)) d = (if \<exists>x \<in> set xs. final_op (f x) d \<noteq> None then Some op else None)"
  using assms by (induction xs) (fastforce simp: final_op_append split: option.splits)+

section \<open>What packing a panel writes\<close>

lemma chunk_cells:
  assumes "0 < NR" "0 < min_NR" "min_NR \<le> NR"
  shows "(\<Union>chunk \<in> set (chunk_walk dlp_reorder_chunk_first nc0 NR min_NR kc0p). \<Union>kr \<in> {0..kc0 - 1}.
      (\<lambda>i. F (rc_offset chunk + dlp_reorder_elem_offset kr i (rc_slot chunk) kf) kr (rc_col_start chunk + i)) ` {0..rc_cols chunk - 1}) =
    {F (panel_offset NR min_NR kf nc0 kc0p kr j) kr j | kr j. 0 \<le> kr \<and> kr < kc0 \<and> 0 \<le> j \<and> j < nc0}" (is "?L = ?R")
proof
  note walk = chunk_walk_exact [OF assms walk_first]
  have first: "rc_col_start dlp_reorder_chunk_first + rc_cols dlp_reorder_chunk_first = 0" by (simp add: dlp_reorder_chunk_first_def)
  show "?L \<subseteq> ?R"
  proof
    fix x assume "x \<in> ?L"
    then obtain c kr i where c: "c \<in> set (chunk_walk dlp_reorder_chunk_first nc0 NR min_NR kc0p)" "0 \<le> kr" "kr < kc0" "0 \<le> i" "i < rc_cols c"
      "x = F (rc_offset c + dlp_reorder_elem_offset kr i (rc_slot c) kf) kr (rc_col_start c + i)" by auto
    let ?j = "rc_col_start c + i"
    have h: "holds_col c ?j" using c by (simp add: holds_col_def)
    have "0 \<le> ?j \<and> ?j < nc0" using walk(1) [of nc0 kc0p ?j] c(1) h first by auto
    moreover have "x = F (panel_offset NR min_NR kf nc0 kc0p kr ?j) kr ?j" using walk(2) [OF c(1) h] c(6) by (simp add: panel_offset_def)
    ultimately show "x \<in> ?R" using c(2,3) by blast
  qed
  show "?R \<subseteq> ?L"
  proof
    fix x assume "x \<in> ?R"
    then obtain kr j where x: "x = F (panel_offset NR min_NR kf nc0 kc0p kr j) kr j" "0 \<le> kr" "kr < kc0" "0 \<le> j" "j < nc0" by blast
    obtain c where c: "c \<in> set (chunk_walk dlp_reorder_chunk_first nc0 NR min_NR kc0p)" "holds_col c j"
      using walk(1) [of nc0 kc0p j] x(4,5) first by auto
    have "x = F (rc_offset c + dlp_reorder_elem_offset kr (j - rc_col_start c) (rc_slot c) kf) kr (rc_col_start c + (j - rc_col_start c))"
      using walk(2) [OF c] x(1) by (simp add: panel_offset_def)
    then show "x \<in> ?L" using c x(2,3) by (intro UN_I [OF c(1)] UN_I [of kr] image_eqI [of _ _ "j - rc_col_start c"]) (auto simp: holds_col_def)
  qed
qed

lemma unpackb_set:
  assumes "0 < NR" "0 < min_NR" "min_NR \<le> NR"
  shows "set (dlp_reorder_ref_unpackb pack_b b kf nc0 kc0 NR min_NR rs_b cs_b) =
    {Copy (b + (kr * rs_b + j * cs_b)) (pack_b + panel_offset NR min_NR kf nc0 (dlp_make_multiple_of_n kc0 kf) kr j) | kr j.
       0 \<le> kr \<and> kr < kc0 \<and> 0 \<le> j \<and> j < nc0}"
  using chunk_cells [OF assms, where ?nc0.0 = nc0 and kc0p = "dlp_make_multiple_of_n kc0 kf" and ?kc0.0 = kc0 and kf = kf
      and F = "\<lambda>d kr j. Copy (b + (kr * rs_b + j * cs_b)) (pack_b + d)"]
  by (simp add: dlp_reorder_ref_unpackb_def Let_def round_up_multiple)

lemma packb_final:
  assumes "0 < NR" "0 < min_NR" "min_NR dvd NR" "0 < kf" "0 \<le> kc0" "0 \<le> nc0"
  defines "kc0p \<equiv> dlp_make_multiple_of_n kc0 kf"
  shows "\<lbrakk>0 \<le> kr; kr < kc0; 0 \<le> j; j < nc0\<rbrakk> \<Longrightarrow>
      final_op (dlp_reorder_ref_packb pack_b b kf nc0 kc0 NR min_NR rs_b cs_b) (pack_b + panel_offset NR min_NR kf nc0 kc0p kr j) =
      Some (Copy (pack_b + panel_offset NR min_NR kf nc0 kc0p kr j) (b + (kr * rs_b + j * cs_b)))"
    and "\<lbrakk>\<And>kr j. 0 \<le> kr \<Longrightarrow> kr < kc0 \<Longrightarrow> 0 \<le> j \<Longrightarrow> j < nc0 \<Longrightarrow> d \<noteq> pack_b + panel_offset NR min_NR kf nc0 kc0p kr j\<rbrakk> \<Longrightarrow>
      final_op (dlp_reorder_ref_packb pack_b b kf nc0 kc0 NR min_NR rs_b cs_b) d =
      (if pack_b \<le> d \<and> d < pack_b + dlp_make_multiple_of_n nc0 min_NR * kc0p then Some (Zero d) else None)"
proof -
  have le: "min_NR \<le> NR" using assms(1,3) zdvd_imp_le by blast
  define copies where "copies = concat (map (\<lambda>chunk. concat (map (\<lambda>kr. map (\<lambda>i.
             Copy (pack_b + (rc_offset chunk + dlp_reorder_elem_offset kr i (rc_slot chunk) kf)) (b + (kr * rs_b + (rc_col_start chunk + i) * cs_b)))
               [0..rc_cols chunk - 1]) [0..kc0 - 1]))
           (chunk_walk dlp_reorder_chunk_first nc0 NR min_NR kc0p))"
  define zeros where "zeros = map (\<lambda>d. Zero (pack_b + d)) [0..dlp_make_multiple_of_n nc0 min_NR * kc0p - 1]"
  have split: "dlp_reorder_ref_packb pack_b b kf nc0 kc0 NR min_NR rs_b cs_b = zeros @ copies"
    by (simp add: dlp_reorder_ref_packb_def Let_def zeros_def copies_def round_up_multiple dlp_reorder_panel_elems_def kc0p_def)
  have cset: "set copies = {Copy (pack_b + panel_offset NR min_NR kf nc0 kc0p kr j) (b + (kr * rs_b + j * cs_b)) | kr j.
       0 \<le> kr \<and> kr < kc0 \<and> 0 \<le> j \<and> j < nc0}"
    using chunk_cells [OF assms(1,2) le, where ?nc0.0 = nc0 and kc0p = kc0p and ?kc0.0 = kc0 and kf = kf
      and F = "\<lambda>d kr j. Copy (pack_b + d) (b + (kr * rs_b + j * cs_b))"]
    by (simp add: copies_def)
  have kp: "kc0 \<le> kc0p" "kf dvd kc0p" using make_multiple_bounds [OF assms(5,4)] by (auto simp: kc0p_def)
  show "final_op (dlp_reorder_ref_packb pack_b b kf nc0 kc0 NR min_NR rs_b cs_b) (pack_b + panel_offset NR min_NR kf nc0 kc0p kr j) =
      Some (Copy (pack_b + panel_offset NR min_NR kf nc0 kc0p kr j) (b + (kr * rs_b + j * cs_b)))"
    if e: "0 \<le> kr" "kr < kc0" "0 \<le> j" "j < nc0" for kr j
  proof -
    let ?d = "pack_b + panel_offset NR min_NR kf nc0 kc0p kr j"
    have "Copy ?d (b + (kr * rs_b + j * cs_b)) \<in> set copies" using cset e by blast
    then have "final_op copies ?d \<noteq> None" unfolding final_op_None by force
    then obtain op where op: "final_op copies ?d = Some op" by blast
    then obtain kr' j' where o: "op = Copy (pack_b + panel_offset NR min_NR kf nc0 kc0p kr' j') (b + (kr' * rs_b + j' * cs_b))"
      "0 \<le> kr'" "kr' < kc0" "0 \<le> j'" "j' < nc0" "panel_offset NR min_NR kf nc0 kc0p kr j = panel_offset NR min_NR kf nc0 kc0p kr' j'"
      using final_op_in [OF op] cset by auto
    have "kr = kr' \<and> j = j'" using panel_offset_inj [OF assms(2,3,1,4) kp(2) _ _ _ _ e(3,4) o(4,5,6)] e o kp(1) by simp
    then show ?thesis using op o(1) by (simp add: split final_op_append)
  qed
  show "final_op (dlp_reorder_ref_packb pack_b b kf nc0 kc0 NR min_NR rs_b cs_b) d =
      (if pack_b \<le> d \<and> d < pack_b + dlp_make_multiple_of_n nc0 min_NR * kc0p then Some (Zero d) else None)"
    if none: "\<And>kr j. 0 \<le> kr \<Longrightarrow> kr < kc0 \<Longrightarrow> 0 \<le> j \<Longrightarrow> j < nc0 \<Longrightarrow> d \<noteq> pack_b + panel_offset NR min_NR kf nc0 kc0p kr j" for d
  proof -
    have c: "final_op copies d = None" using none unfolding final_op_None cset by fastforce
    have "final_op zeros d = (if pack_b \<le> d \<and> d < pack_b + dlp_make_multiple_of_n nc0 min_NR * kc0p then Some (Zero d) else None)"
    proof (cases "pack_b \<le> d \<and> d < pack_b + dlp_make_multiple_of_n nc0 min_NR * kc0p")
      case True
      then have "Zero d \<in> set zeros" by (auto simp: zeros_def intro!: image_eqI [where x = "d - pack_b"])
      then have "final_op zeros d \<noteq> None" unfolding final_op_None by force
      then obtain op where op: "final_op zeros d = Some op" by blast
      then show ?thesis using final_op_in [OF op] True by (auto simp: zeros_def)
    next
      case False
      then have "final_op zeros d = None" by (auto simp: final_op_None zeros_def)
      then show ?thesis using False by simp
    qed
    then show ?thesis by (simp add: split final_op_append c)
  qed
qed

section \<open>The abstract image of a reordered matrix\<close>

text \<open>The element stored at a place of the buffer, if any, and the store that leaves it there.\<close>

definition elem_at :: "md_t \<Rightarrow> md_t \<Rightarrow> md_t \<Rightarrow> md_t \<Rightarrow> md_t \<Rightarrow> md_t \<Rightarrow> md_t \<Rightarrow> md_t \<Rightarrow> (md_t \<times> md_t) option" where
  "elem_at NR min_NR NC KC k_factor n k d =
     find (\<lambda>(kr, j). B_offset NR min_NR NC KC k_factor n k kr j = d) (List.product [0..k - 1] [0..n - 1])"

definition layout_op :: "md_t \<Rightarrow> md_t \<Rightarrow> md_t \<Rightarrow> md_t \<Rightarrow> md_t \<Rightarrow> md_t \<Rightarrow> md_t \<Rightarrow> md_t \<Rightarrow> md_t \<Rightarrow> md_t \<Rightarrow> elem_op" where
  "layout_op NR min_NR NC KC k_factor n k rs_b cs_b d =
     (case elem_at NR min_NR NC KC k_factor n k d of Some (kr, j) \<Rightarrow> Copy d (kr * rs_b + j * cs_b) | None \<Rightarrow> Zero d)"

text \<open>The specification: the bytes of the destination after a reorder. No thread count occurs in it.\<close>

definition packed_image ::
  "md_t \<Rightarrow> md_t \<Rightarrow> md_t \<Rightarrow> md_t \<Rightarrow> md_t \<Rightarrow> md_t \<Rightarrow> md_t \<Rightarrow> md_t \<Rightarrow> md_t \<Rightarrow> md_t \<Rightarrow> bytes \<Rightarrow> bytes \<Rightarrow> bytes" where
  "packed_image elem_sz NR min_NR NC KC k_factor n k rs_b cs_b src dst =
     (\<lambda>a. let d = a div elem_sz
          in if 0 \<le> d \<and> d < dlp_make_multiple_of_n n min_NR * dlp_make_multiple_of_n k k_factor
             then op_byte elem_sz src (layout_op NR min_NR NC KC k_factor n k rs_b cs_b d) (a mod elem_sz) else dst a)"

context reorder_blocks
begin

lemma elem_at_None:
  "elem_at NR min_NR NC KC kf n k d = None \<longleftrightarrow> (\<forall>kr j. 0 \<le> kr \<and> kr < k \<and> 0 \<le> j \<and> j < n \<longrightarrow> B_offset NR min_NR NC KC kf n k kr j \<noteq> d)"
  by (force simp: elem_at_def find_None_iff)

lemma elem_at_Some:
  "elem_at NR min_NR NC KC kf n k d = Some (kr, j) \<longleftrightarrow> 0 \<le> kr \<and> kr < k \<and> 0 \<le> j \<and> j < n \<and> B_offset NR min_NR NC KC kf n k kr j = d"
proof
  show at: "0 \<le> kr \<and> kr < k \<and> 0 \<le> j \<and> j < n \<and> B_offset NR min_NR NC KC kf n k kr j = d"
    if some: "elem_at NR min_NR NC KC kf n k d = Some (kr, j)" for kr j
  proof -
    obtain i where i: "i < length (List.product [0..k - 1] [0..n - 1])" "(kr, j) = List.product [0..k - 1] [0..n - 1] ! i"
      and d: "B_offset NR min_NR NC KC kf n k kr j = d" using some by (auto simp: elem_at_def find_Some_iff)
    have "(kr, j) \<in> set (List.product [0..k - 1] [0..n - 1])" unfolding i(2) using i(1) by (rule nth_mem)
    then show ?thesis using d by auto
  qed
  assume e: "0 \<le> kr \<and> kr < k \<and> 0 \<le> j \<and> j < n \<and> B_offset NR min_NR NC KC kf n k kr j = d"
  then obtain kr' j' where s: "elem_at NR min_NR NC KC kf n k d = Some (kr', j')"
    using elem_at_None [of d] by (cases "elem_at NR min_NR NC KC kf n k d") auto
  have "kr = kr' \<and> j = j'" using at [OF s] e by (intro B_offset_inj) auto
  then show "elem_at NR min_NR NC KC kf n k d = Some (kr, j)" using s by simp
qed

lemma layout_op_dst [simp]: "op_dst (layout_op NR min_NR NC KC kf n k rs cs d) = d"
  by (simp add: layout_op_def split: option.splits prod.splits)

section \<open>What a piece writes\<close>

lemma piece_final:
  assumes ip: "is_piece NR NC n jc nc0" and pc: "KC dvd pc" "0 \<le> pc" "pc < k"
  shows "final_op (dlp_reorder_ref_packb (piece_off jc pc) (rs * pc + jc * cs) kf nc0 (dlp_min (k - pc) KC) NR min_NR rs cs) d =
    (if in_piece jc nc0 pc d then Some (layout_op NR min_NR NC KC kf n k rs cs d) else None)"
proof -
  note f = piece_facts [OF ip]
  have kc: "0 \<le> dlp_min (k - pc) KC" using pc pos(2) by (simp add: dlp_min_def)
  note fin = packb_final [OF pos(1,3,5,4) kc, folded kc0p_def]
  show ?thesis
  proof (cases "\<exists>kr i. 0 \<le> kr \<and> kr < dlp_min (k - pc) KC \<and> 0 \<le> i \<and> i < nc0 \<and> d = piece_off jc pc + panel_offset NR min_NR kf nc0 (kc0p pc) kr i")
    case True
    then obtain kr i where e: "0 \<le> kr" "kr < dlp_min (k - pc) KC" "0 \<le> i" "i < nc0"
      and d: "d = piece_off jc pc + panel_offset NR min_NR kf nc0 (kc0p pc) kr i" by blast
    note pe = piece_elem [OF ip pc e]
    have "kr < kc0p pc" "kf dvd kc0p pc" using depth_at(5,6) [OF pc] e(2) by auto
    then have "in_piece jc nc0 pc d"
      using panel_offset_bounds [OF pos(3,5,1,4) _ e(1) _ e(3,4), of "kc0p pc"] d by (simp add: in_piece_def)
    moreover have "elem_at NR min_NR NC KC kf n k d = Some (pc + kr, jc + i)"
      unfolding elem_at_Some using pe d e pc f(2,4) by simp
    ultimately show ?thesis using fin(1) [OF _ e] f(11) d by (simp add: layout_op_def algebra_simps)
  next
    case False
    have none: "elem_at NR min_NR NC KC kf n k d = None" if inp: "in_piece jc nc0 pc d"
    proof (rule ccontr)
      assume "elem_at NR min_NR NC KC kf n k d \<noteq> None"
      then obtain kr j where e: "0 \<le> kr" "kr < k" "0 \<le> j" "j < n" "B_offset NR min_NR NC KC kf n k kr j = d"
        using elem_at_Some by (metis not_None_eq surj_pair)
      have own: "kr div KC * KC = pc" "jc \<le> j" "j < jc + nc0" using elem_in_piece [OF ip pc e(1-4)] inp e(5) by auto
      have k': "0 \<le> kr - pc" "kr - pc < dlp_min (k - pc) KC" using depth_block(2,3) [OF e(1,2)] own(1) by auto
      have i': "0 \<le> j - jc" "j - jc < nc0" using own by simp_all
      have "d = piece_off jc pc + panel_offset NR min_NR kf nc0 (kc0p pc) (kr - pc) (j - jc)"
        using piece_elem(1) [OF ip pc k' i'] e(5) by simp
      then show False using False k' i' by blast
    qed
    have "final_op (dlp_reorder_ref_packb (piece_off jc pc) (rs * pc + jc * cs) kf nc0 (dlp_min (k - pc) KC) NR min_NR rs cs) d =
        (if in_piece jc nc0 pc d then Some (Zero d) else None)"
      unfolding in_piece_def by (rule fin(2)) (use False f(11) in auto)
    then show ?thesis using none by (simp add: layout_op_def)
  qed
qed

section \<open>What a thread writes\<close>

text \<open>The width of the chunk that starts at \<open>jc\<close>, for a thread whose columns end at \<open>je\<close>.\<close>

definition width :: "md_t \<Rightarrow> md_t \<Rightarrow> md_t" where "width je jc = min (jc div NC * NC + NC) je - jc"

lemma geometry:
  assumes "0 \<le> jc" "jc < je" "je \<le> n"
  shows "dlp_gemm_get_B_panel_reordered_start_offset_width jc n NC min_NR (dlp_min (je - jc) NC) =
    (jc div NC * NC, jc - jc div NC * NC, width je jc, W (jc div NC * NC))"
proof -
  have "jc sdiv NC * NC = jc div NC * NC" using assms panel by (simp add: cdiv_simps)
  moreover have "dlp_gemm_get_Bpanel_width_for_kmd_traversal jc n NC min_NR = W (jc div NC * NC)"
    using Bpanel_width_eq [of jc n NC min_NR] assms panel pos(3) min_dvd_NC by (simp add: W_def)
  moreover have "jc div NC * NC \<le> jc" using floor_block [OF panel(1)] by simp
  ultimately show ?thesis
    by (auto simp: dlp_gemm_get_B_panel_reordered_start_offset_width_def Let_def width_def dlp_min_def)
qed

definition chunk_next :: "md_t \<Rightarrow> md_t \<Rightarrow> md_t" where
  "chunk_next je jc = dlp_gemm_adjust_B_panel_reordered_jc jc
     (fst (dlp_gemm_get_B_panel_reordered_start_offset_width jc n NC min_NR (dlp_min (je - jc) NC))) + NC"

lemma chunk_next_eq: "0 \<le> jc \<Longrightarrow> jc < je \<Longrightarrow> je \<le> n \<Longrightarrow> chunk_next je jc = jc div NC * NC + NC"
  by (simp add: chunk_next_def geometry dlp_gemm_adjust_B_panel_reordered_jc_def)

lemma chunk_next_up: "0 \<le> jc \<Longrightarrow> jc < je \<Longrightarrow> je \<le> n \<Longrightarrow> jc < chunk_next je jc"
  using floor_block [OF panel(1), of jc] by (simp add: chunk_next_eq)

definition piece_ops :: "bool \<Rightarrow> md_t \<Rightarrow> md_t \<Rightarrow> md_t \<Rightarrow> md_t \<Rightarrow> md_t \<Rightarrow> elem_op list" where
  "piece_ops to_packed rs cs je jc pc =
     (if to_packed
      then dlp_reorder_ref_packb (piece_off jc pc) (rs * pc + jc * cs) kf (width je jc) (dlp_min (k - pc) KC) NR min_NR rs cs
      else dlp_reorder_ref_unpackb (piece_off jc pc) (rs * pc + jc * cs) kf (width je jc) (dlp_min (k - pc) KC) NR min_NR rs cs)"

definition slice_ops :: "bool \<Rightarrow> md_t \<Rightarrow> md_t \<Rightarrow> md_t \<times> md_t \<Rightarrow> elem_op list" where
  "slice_ops to_packed rs cs r = concat (map (\<lambda>jc. concat (map (piece_ops to_packed rs cs (snd r) jc) (loop_points 0 k (\<lambda>pc. pc + KC))))
     (loop_points (fst r) (snd r) (chunk_next (snd r))))"

lemma slice_facts:
  fixes wid ways :: md_t
  defines "r \<equiv> task_slice False n NR ways wid"
  shows "0 \<le> fst r" "snd r \<le> n" "fst r \<le> n" "fst r < snd r \<Longrightarrow> NR dvd fst r" "fst r < snd r \<Longrightarrow> NR dvd snd r \<or> snd r = n"
proof -
  consider "0 \<le> wid \<and> wid < ways" | "r = (n, n)" using high_edge.range_retired [of wid ways n NR] unfolding r_def by fastforce
  then have "0 \<le> fst r \<and> snd r \<le> n \<and> fst r \<le> n \<and> (fst r < snd r \<longrightarrow> NR dvd fst r) \<and> (fst r < snd r \<longrightarrow> NR dvd snd r \<or> snd r = n)"
  proof cases
    case 1
    then show ?thesis using high_edge.slice_bounds [OF dims(1) pos(1), of wid ways] high_edge.range_ordered [OF dims(1) pos(1), of wid ways]
        task_slice_start_aligned [OF dims(1) pos(1), of wid ways] task_slice_end_aligned [OF dims(1) pos(1), of wid ways]
      unfolding r_def by auto
  qed (use dims in simp)
  then show "0 \<le> fst r" "snd r \<le> n" "fst r \<le> n" "fst r < snd r \<Longrightarrow> NR dvd fst r" "fst r < snd r \<Longrightarrow> NR dvd snd r \<or> snd r = n" by auto
qed

lemma ref_walk_thread_eq:
  "ref_walk_thread b kf n k NR min_NR NC KC rs cs ways wid = Some (slice_ops b rs cs (task_slice False n NR ways wid))"
proof -
  define r where "r = task_slice False n NR ways wid"
  note sf = slice_facts [of ways wid, folded r_def]
  have inner: "for_loop 0 k (\<lambda>pc. pc + KC)
      (\<lambda>pc s. Some (s, if b then dlp_reorder_ref_packb (jc div NC * NC * kp + W (jc div NC * NC) * pc + (jc - jc div NC * NC) * kc0p pc)
           (rs * pc + jc * cs) kf (width (snd r) jc) (dlp_min (k - pc) KC) NR min_NR rs cs
         else dlp_reorder_ref_unpackb (jc div NC * NC * kp + W (jc div NC * NC) * pc + (jc - jc div NC * NC) * kc0p pc)
           (rs * pc + jc * cs) kf (width (snd r) jc) (dlp_min (k - pc) KC) NR min_NR rs cs)) () =
      Some ((), concat (map (piece_ops b rs cs (snd r) jc) (loop_points 0 k (\<lambda>pc. pc + KC))))" for jc
    by (rule for_loop_concat [where ?i0.0 = 0]) (use pos(2) in \<open>simp_all add: piece_ops_def piece_off_def\<close>)
  have main: "for_loop (fst r) (snd r) (chunk_next (snd r))
      (\<lambda>jc s. case dlp_gemm_get_B_panel_reordered_start_offset_width jc n NC min_NR (dlp_min (snd r - jc) NC) of
         (jc_cur_loop, jc_cur_loop_rem, nc0, n_sub_updated) \<Rightarrow>
         for_loop 0 k (\<lambda>pc. pc + KC)
           (\<lambda>pc s. Some (s, if b then dlp_reorder_ref_packb (jc_cur_loop * kp + n_sub_updated * pc + jc_cur_loop_rem * kc0p pc)
                (rs * pc + jc * cs) kf nc0 (dlp_min (k - pc) KC) NR min_NR rs cs
              else dlp_reorder_ref_unpackb (jc_cur_loop * kp + n_sub_updated * pc + jc_cur_loop_rem * kc0p pc)
                (rs * pc + jc * cs) kf nc0 (dlp_min (k - pc) KC) NR min_NR rs cs)) s) () =
      Some ((), slice_ops b rs cs r)"
    unfolding slice_ops_def
  proof (rule for_loop_concat [where ?i0.0 = "fst r"])
    fix jc assume jc: "fst r \<le> jc" "jc < snd r"
    have g: "dlp_gemm_get_B_panel_reordered_start_offset_width jc n NC min_NR (dlp_min (snd r - jc) NC) =
        (jc div NC * NC, jc - jc div NC * NC, width (snd r) jc, W (jc div NC * NC))"
      using geometry jc sf by simp
    show "(case dlp_gemm_get_B_panel_reordered_start_offset_width jc n NC min_NR (dlp_min (snd r - jc) NC) of
         (jc_cur_loop, jc_cur_loop_rem, nc0, n_sub_updated) \<Rightarrow>
         for_loop 0 k (\<lambda>pc. pc + KC)
           (\<lambda>pc s. Some (s, if b then dlp_reorder_ref_packb (jc_cur_loop * kp + n_sub_updated * pc + jc_cur_loop_rem * kc0p pc)
                (rs * pc + jc * cs) kf nc0 (dlp_min (k - pc) KC) NR min_NR rs cs
              else dlp_reorder_ref_unpackb (jc_cur_loop * kp + n_sub_updated * pc + jc_cur_loop_rem * kc0p pc)
                (rs * pc + jc * cs) kf nc0 (dlp_min (k - pc) KC) NR min_NR rs cs)) ()) =
      Some ((), concat (map (piece_ops b rs cs (snd r) jc) (loop_points 0 k (\<lambda>pc. pc + KC))))"
      unfolding g prod.case by (rule inner)
  qed (use chunk_next_up sf in auto)
  have tr: "dlp_thread_task_range \<lparr>ocomm_id = 0, n_way = ways, work_id = wid\<rparr> n NR False = (fst r, snd r)"
    by (simp add: task_range_eq_slice r_def)
  show ?thesis
    unfolding ref_walk_thread_def Let_def round_up_multiple tr prod.case kp_def [symmetric] kc0p_def [symmetric] chunk_next_def [symmetric]
      r_def [symmetric] main option.map snd_conv ..
qed

lemma slice_pieces:
  fixes wid ways :: md_t
  defines "r \<equiv> task_slice False n NR ways wid"
  assumes "jc \<in> set (loop_points (fst r) (snd r) (chunk_next (snd r)))"
  shows "is_piece NR NC n jc (width (snd r) jc)" "fst r \<le> jc" "jc + width (snd r) jc \<le> snd r"
proof -
  note sf = slice_facts [of ways wid, folded r_def]
  have jc: "fst r \<le> jc" "jc < snd r" using loop_points_bounds [OF assms(2)] by auto
  have "NR dvd jc"
  proof (rule loop_points_inv [OF _ _ assms(2)])
    show "NR dvd fst r" using sf(4) jc by simp
    show "NR dvd chunk_next (snd r) p" if "fst r \<le> p" "p < snd r" for p
      using chunk_next_eq [of p "snd r"] that sf panel(2) by simp
  qed
  moreover have P: "jc div NC * NC \<le> jc" "jc < jc div NC * NC + NC" using floor_block [OF panel(1)] by auto
  moreover have "NR dvd jc div NC * NC + NC" using panel(2) by simp
  moreover have "NR dvd snd r \<or> snd r = n" using sf(5) jc by simp
  ultimately show "is_piece NR NC n jc (width (snd r) jc)" using jc sf(1,2)
    by (auto simp: is_piece_def width_def dlp_min_def min_def)
  show "fst r \<le> jc" "jc + width (snd r) jc \<le> snd r" using jc by (auto simp: width_def)
qed

lemma depth_points: "pc \<in> set (loop_points 0 k (\<lambda>pc. pc + KC)) \<longleftrightarrow> KC dvd pc \<and> 0 \<le> pc \<and> pc < k"
  by (rule step_points [OF pos(2)])

lemma slice_final:
  fixes wid ways :: md_t
  defines "r \<equiv> task_slice False n NR ways wid"
  shows "final_op (slice_ops True rs cs r) d =
    (if 0 \<le> d \<and> d < np * kp \<and> fst r \<le> slot_col d \<and> slot_col d < snd r then Some (layout_op NR min_NR NC KC kf n k rs cs d) else None)"
proof -
  let ?op = "layout_op NR min_NR NC KC kf n k rs cs d"
  let ?js = "loop_points (fst r) (snd r) (chunk_next (snd r))" and ?ps = "loop_points 0 k (\<lambda>pc. pc + KC)"
  note sp = slice_pieces [where ways = ways and wid = wid, folded r_def] and sf = slice_facts [of ways wid, folded r_def]
  have one: "final_op (piece_ops True rs cs (snd r) jc pc) d = (if in_piece jc (width (snd r) jc) pc d then Some ?op else None)"
    if "jc \<in> set ?js" "pc \<in> set ?ps" for jc pc
    using piece_final [OF sp(1) [OF that(1)]] that(2) by (simp add: piece_ops_def depth_points)
  have row: "final_op (concat (map (piece_ops True rs cs (snd r) jc) ?ps)) d =
      (if \<exists>pc \<in> set ?ps. in_piece jc (width (snd r) jc) pc d then Some ?op else None)" if "jc \<in> set ?js" for jc
    by (subst final_op_concat [where op = ?op]) (use one [OF that] in auto)
  have all: "final_op (slice_ops True rs cs r) d =
      (if \<exists>jc \<in> set ?js. \<exists>pc \<in> set ?ps. in_piece jc (width (snd r) jc) pc d then Some ?op else None)"
    unfolding slice_ops_def by (subst final_op_concat [where op = ?op]) (use row in auto)
  have "(\<exists>jc \<in> set ?js. \<exists>pc \<in> set ?ps. in_piece jc (width (snd r) jc) pc d) \<longleftrightarrow>
      0 \<le> d \<and> d < np * kp \<and> fst r \<le> slot_col d \<and> slot_col d < snd r" (is "?L \<longleftrightarrow> ?R")
  proof
    assume ?L
    then obtain jc pc where j: "jc \<in> set ?js" "pc \<in> set ?ps" "in_piece jc (width (snd r) jc) pc d" by blast
    have pc: "KC dvd pc" "0 \<le> pc" "pc < k" using j(2) by (auto simp: depth_points)
    have "0 \<le> d" "d < np * kp" using in_piece_slot [OF sp(1) [OF j(1)] pc j(3)] by metis+
    then show ?R using in_piece_col [OF sp(1) [OF j(1)] pc j(3)] sp(2,3) [OF j(1)] by linarith
  next
    assume R: ?R
    then obtain P pc c x where pl: "NC dvd P" "0 \<le> P" "P < n" "KC dvd pc" "0 \<le> pc" "pc < k" "0 \<le> c" "c < W P" "0 \<le> x" "x < kc0p pc"
      "d = P * kp + W P * pc + c * kc0p pc + x" using slot_of_exists by blast
    obtain jc where jc: "jc \<in> set ?js" "jc \<le> slot_col d" "slot_col d < min (chunk_next (snd r) jc) (snd r)"
      using loop_points_hit [where s = "fst r" and e = "snd r" and nxt = "chunk_next (snd r)" and x = "slot_col d"
          and hi = "\<lambda>p. min (chunk_next (snd r) p) (snd r)"] R chunk_next_up sf by auto
    have "chunk_next (snd r) jc = jc div NC * NC + NC"
      using chunk_next_eq [of jc "snd r"] loop_points_bounds [OF jc(1)] sf by simp
    then have "slot_col d < jc + width (snd r) jc" using jc(3) by (simp add: width_def)
    then have "in_piece jc (width (snd r) jc) pc d" using in_pieceI [OF sp(1) [OF jc(1)] pl jc(2)] by simp
    then show ?L using jc(1) pl(4-6) depth_points by blast
  qed
  then show ?thesis using all by simp
qed

section \<open>What a team writes\<close>

lemma slot_col_range: "0 \<le> d \<Longrightarrow> d < np * kp \<Longrightarrow> 0 \<le> slot_col d \<and> slot_col d < n"
proof -
  assume "0 \<le> d" "d < np * kp"
  then obtain P pc c x where pl: "NC dvd P" "0 \<le> P" "P < n" "KC dvd pc" "0 \<le> pc" "pc < k" "0 \<le> c" "c < W P" "0 \<le> x" "x < kc0p pc"
      "d = P * kp + W P * pc + c * kc0p pc + x" using slot_of_exists by blast
  then show ?thesis using slot_of_eq [OF pl(1-10)] by (simp add: slot_col_def)
qed

lemma team_final:
  assumes sched: "interleaves sched team (\<lambda>t. slice_ops True rs cs (task_slice False n NR (int team) (int t)))" and "0 < team"
  shows "final_op (map snd sched) d =
    (if 0 \<le> d \<and> d < np * kp then Some (layout_op NR min_NR NC KC kf n k rs cs d) else None)"
proof -
  let ?r = "\<lambda>t. task_slice False n NR (int team) (int t)" and ?P = "\<lambda>op. op_dst op = d"
  have nil: "filter ?P ops = [] \<longleftrightarrow> final_op ops d = None" for ops by (simp add: final_op_None filter_empty_conv)
  show ?thesis
  proof (cases "0 \<le> d \<and> d < np * kp")
    case False
    then have "filter ?P (map snd sched) = []" by (intro schedule_none [OF sched]) (simp only: nil slice_final, auto)
    then show ?thesis using False by (simp only: nil) simp
  next
    case True
    then have col: "0 \<le> slot_col d" "slot_col d < n" using slot_col_range by auto
    have "\<exists>!w. fst (task_slice False n NR (int team) w) \<le> slot_col d \<and> slot_col d < snd (task_slice False n NR (int team) w)"
      using assms(2) by (intro high_edge.one_owner [OF dims(1) pos(1) _ col]) simp
    then obtain w where w: "fst (task_slice False n NR (int team) w) \<le> slot_col d" "slot_col d < snd (task_slice False n NR (int team) w)"
      and uniq: "\<And>v. fst (task_slice False n NR (int team) v) \<le> slot_col d \<Longrightarrow> slot_col d < snd (task_slice False n NR (int team) v) \<Longrightarrow> v = w"
      by (elim ex1E) blast
    have wr: "0 \<le> w" "w < int team" using high_edge.owner_in_range [OF w] by auto
    define t0 where "t0 = nat w"
    have t0: "t0 < team" "int t0 = w" using wr by (auto simp: t0_def)
    have "filter ?P (map snd sched) = filter ?P (slice_ops True rs cs (?r t0))"
    proof (rule schedule_at [OF sched t0(1)])
      fix t assume "t < team" "t \<noteq> t0"
      then have "\<not> (fst (?r t) \<le> slot_col d \<and> slot_col d < snd (?r t))" using uniq [of "int t"] t0(2) by auto
      then show "filter ?P (slice_ops True rs cs (?r t)) = []" by (simp only: nil slice_final) simp
    qed
    then have "final_op (map snd sched) d = final_op (slice_ops True rs cs (?r t0)) d" by (rule final_op_cong)
    then show ?thesis using True w t0(2) by (simp add: slice_final)
  qed
qed

lemma team_image:
  assumes "interleaves sched team (\<lambda>t. slice_ops True rs cs (task_slice False n NR (int team) (int t)))" "0 < team" "0 < es"
  shows "fold (exec_op es src) (map snd sched) dst = packed_image es NR min_NR NC KC kf n k rs cs src dst"
proof
  fix a
  show "fold (exec_op es src) (map snd sched) dst a = packed_image es NR min_NR NC KC kf n k rs cs src dst a"
    unfolding run_ops_at [OF assms(3)] team_final [OF assms(1,2)] by (simp add: packed_image_def Let_def np_def kp_def)
qed

lemma unpack_slice_set:
  fixes wid ways :: md_t
  defines "r \<equiv> task_slice False n NR ways wid"
  shows "set (slice_ops False rs cs r) = {Copy (kr * rs + j * cs) (B_offset NR min_NR NC KC kf n k kr j) | kr j.
     0 \<le> kr \<and> kr < k \<and> fst r \<le> j \<and> j < snd r}" (is "?L = ?R")
proof
  let ?js = "loop_points (fst r) (snd r) (chunk_next (snd r))" and ?ps = "loop_points 0 k (\<lambda>pc. pc + KC)"
  note sp = slice_pieces [where ways = ways and wid = wid, folded r_def] and sf = slice_facts [of ways wid, folded r_def]
  have us: "set (piece_ops False rs cs (snd r) jc pc) = {Copy (kr * rs + j * cs) (B_offset NR min_NR NC KC kf n k kr j) | kr j.
      pc \<le> kr \<and> kr < pc + dlp_min (k - pc) KC \<and> jc \<le> j \<and> j < jc + width (snd r) jc}" (is "?A = ?B")
    if j: "jc \<in> set ?js" "pc \<in> set ?ps" for jc pc
  proof -
    have pc: "KC dvd pc" "0 \<le> pc" "pc < k" using j(2) by (auto simp: depth_points)
    have A: "?A = {Copy (rs * pc + jc * cs + (kr * rs + i * cs)) (piece_off jc pc + panel_offset NR min_NR kf (width (snd r) jc) (kc0p pc) kr i) | kr i.
        0 \<le> kr \<and> kr < dlp_min (k - pc) KC \<and> 0 \<le> i \<and> i < width (snd r) jc}"
      by (simp add: piece_ops_def unpackb_set [OF pos(1,3,7)] kc0p_def)
    show ?thesis
    proof
      show "?A \<subseteq> ?B"
      proof
        fix x assume "x \<in> ?A"
        then obtain kr i where e: "0 \<le> kr" "kr < dlp_min (k - pc) KC" "0 \<le> i" "i < width (snd r) jc"
          and x: "x = Copy (rs * pc + jc * cs + (kr * rs + i * cs)) (piece_off jc pc + panel_offset NR min_NR kf (width (snd r) jc) (kc0p pc) kr i)"
          unfolding A by blast
        have "x = Copy ((pc + kr) * rs + (jc + i) * cs) (B_offset NR min_NR NC KC kf n k (pc + kr) (jc + i))"
          using piece_elem(1) [OF sp(1) [OF j(1)] pc e] by (simp add: x algebra_simps)
        then show "x \<in> ?B" using e by (intro CollectI exI [of _ "pc + kr"] exI [of _ "jc + i"]) simp
      qed
      show "?B \<subseteq> ?A"
      proof
        fix x assume "x \<in> ?B"
        then obtain kr i where x: "x = Copy (kr * rs + i * cs) (B_offset NR min_NR NC KC kf n k kr i)"
          and e: "pc \<le> kr" "kr < pc + dlp_min (k - pc) KC" "jc \<le> i" "i < jc + width (snd r) jc" by blast
        have e': "0 \<le> kr - pc" "kr - pc < dlp_min (k - pc) KC" "0 \<le> i - jc" "i - jc < width (snd r) jc" using e by auto
        have "x = Copy (rs * pc + jc * cs + ((kr - pc) * rs + (i - jc) * cs))
            (piece_off jc pc + panel_offset NR min_NR kf (width (snd r) jc) (kc0p pc) (kr - pc) (i - jc))"
          unfolding x using piece_elem(1) [OF sp(1) [OF j(1)] pc e'] by (simp add: algebra_simps)
        then show "x \<in> ?A" unfolding A using e' by blast
      qed
    qed
  qed
  have L: "?L = (\<Union>jc \<in> set ?js. \<Union>pc \<in> set ?ps. set (piece_ops False rs cs (snd r) jc pc))" by (simp add: slice_ops_def)
  show "?L \<subseteq> ?R"
  proof
    fix x assume "x \<in> ?L"
    then obtain jc pc where j: "jc \<in> set ?js" "pc \<in> set ?ps" and "x \<in> set (piece_ops False rs cs (snd r) jc pc)" unfolding L by blast
    then obtain kr i where x: "x = Copy (kr * rs + i * cs) (B_offset NR min_NR NC KC kf n k kr i)"
      and e: "pc \<le> kr" "kr < pc + dlp_min (k - pc) KC" "jc \<le> i" "i < jc + width (snd r) jc" unfolding us [OF j] by blast
    have "0 \<le> pc" using j(2) by (simp add: depth_points)
    then have "0 \<le> kr \<and> kr < k \<and> fst r \<le> i \<and> i < snd r" using e sp(2,3) [OF j(1)] by (auto simp: dlp_min_def split: if_splits)
    then show "x \<in> ?R" using x by blast
  qed
  show "?R \<subseteq> ?L"
  proof
    fix x assume "x \<in> ?R"
    then obtain kr i where x: "x = Copy (kr * rs + i * cs) (B_offset NR min_NR NC KC kf n k kr i)"
      and e: "0 \<le> kr" "kr < k" "fst r \<le> i" "i < snd r" by blast
    obtain jc where jc: "jc \<in> set ?js" "jc \<le> i" "i < min (chunk_next (snd r) jc) (snd r)"
      using loop_points_hit [where s = "fst r" and e = "snd r" and nxt = "chunk_next (snd r)" and x = i
          and hi = "\<lambda>p. min (chunk_next (snd r) p) (snd r)"] e chunk_next_up sf by auto
    have "chunk_next (snd r) jc = jc div NC * NC + NC"
      using chunk_next_eq [of jc "snd r"] loop_points_bounds [OF jc(1)] sf by simp
    then have i: "i < jc + width (snd r) jc" using jc(3) by (simp add: width_def)
    let ?pc = "kr div KC * KC"
    note d = depth_block [OF e(1,2)]
    have pc: "?pc \<in> set ?ps" using d(1,2) e(2) by (simp add: depth_points)
    have "x \<in> set (piece_ops False rs cs (snd r) jc ?pc)" unfolding us [OF jc(1) pc] using x d(2,3) jc(2) i
      by (intro CollectI exI [of _ kr] exI [of _ i]) auto
    then show "x \<in> ?L" unfolding L using jc(1) pc by blast
  qed
qed

lemma unpack_team_set:
  assumes "0 < team"
  shows "(\<Union>t < team. set (slice_ops False rs cs (task_slice False n NR (int team) (int t)))) =
    {Copy (kr * rs + j * cs) (B_offset NR min_NR NC KC kf n k kr j) | kr j. 0 \<le> kr \<and> kr < k \<and> 0 \<le> j \<and> j < n}" (is "?L = ?R")
proof
  show "?L \<subseteq> ?R"
  proof
    fix x assume "x \<in> ?L"
    then obtain t kr j where x: "x = Copy (kr * rs + j * cs) (B_offset NR min_NR NC KC kf n k kr j)" "0 \<le> kr" "kr < k"
      "fst (task_slice False n NR (int team) (int t)) \<le> j" "j < snd (task_slice False n NR (int team) (int t))"
      unfolding unpack_slice_set by blast
    then have "0 \<le> j \<and> j < n" using slice_facts(1,2) [of "int team" "int t"] by linarith
    then show "x \<in> ?R" using x by blast
  qed
  show "?R \<subseteq> ?L"
  proof
    fix x assume "x \<in> ?R"
    then obtain kr j where x: "x = Copy (kr * rs + j * cs) (B_offset NR min_NR NC KC kf n k kr j)" "0 \<le> kr" "kr < k" "0 \<le> j" "j < n" by blast
    have "\<exists>!w. fst (task_slice False n NR (int team) w) \<le> j \<and> j < snd (task_slice False n NR (int team) w)"
      using assms by (intro high_edge.one_owner [OF dims(1) pos(1) _ x(4,5)]) simp
    then obtain w where w: "fst (task_slice False n NR (int team) w) \<le> j" "j < snd (task_slice False n NR (int team) w)" by (elim ex1E) blast
    have "nat w < team \<and> int (nat w) = w" using high_edge.owner_in_range [OF w] by auto
    moreover from this have "x \<in> set (slice_ops False rs cs (task_slice False n NR (int team) (int (nat w))))"
      unfolding unpack_slice_set using x w by auto
    ultimately show "x \<in> ?L" by blast
  qed
qed

lemma packed_image_at:
  assumes "0 \<le> kr" "kr < k" "0 \<le> j" "j < n" "0 < es" "0 \<le> t" "t < es"
  shows "packed_image es NR min_NR NC KC kf n k rs cs src dst (B_offset NR min_NR NC KC kf n k kr j * es + t) = src ((kr * rs + j * cs) * es + t)"
proof -
  have "(B_offset NR min_NR NC KC kf n k kr j * es + t) div es = B_offset NR min_NR NC KC kf n k kr j"
    using assms by (intro div_eq_in_block) (auto simp: distrib_right)
  moreover have "(B_offset NR min_NR NC KC kf n k kr j * es + t) mod es = t" using assms by simp
  moreover have "elem_at NR min_NR NC KC kf n k (B_offset NR min_NR NC KC kf n k kr j) = Some (kr, j)" using assms by (simp add: elem_at_Some)
  ultimately show ?thesis using B_offset_bounds [OF assms(1-4)] by (simp add: packed_image_def layout_op_def Let_def)
qed

end

section \<open>The properties of the reference reorder\<close>

text \<open>The blocks of the 8-bit integer reorder with the block sizes of its table entry have a layout.\<close>

interpretation int8_blocks: reorder_blocks 64 16 1024 2048 4 "max 0 n" "max 0 k" for n k
  by unfold_locales (simp_all add: dlp_reorder_ref_blocks_legal_def)

lemma map_Some_inj: "map Some xs = map Some ys \<Longrightarrow> xs = ys"
  by (simp add: inj_map_eq_map)

lemma ref_walk_ops:
  assumes "reorder_blocks NR min_NR NC KC kf n k"
  shows "dlp_reorder_ref_walk omp_team b kf n k NR min_NR NC KC rs cs n_threads =
    map (\<lambda>t. Some (reorder_blocks.slice_ops NR min_NR NC KC kf n k b rs cs
      (task_slice False n NR (int (omp_team (if n_threads > 0 then n_threads else 1))) (int t))))
      [0..<omp_team (if n_threads > 0 then n_threads else 1)]"
  by (simp add: dlp_reorder_ref_walk_def Let_def reorder_blocks.ref_walk_thread_eq [OF assms])

lemma ref_walk_ends: "reorder_blocks NR min_NR NC KC kf n k \<Longrightarrow> \<exists>ops. dlp_reorder_ref_walk omp_team b kf n k NR min_NR NC KC rs cs n_threads = map Some ops"
proof -
  have "\<exists>ys. map (\<lambda>t. Some (f t)) xs = map Some ys" for f :: "nat \<Rightarrow> elem_op list" and xs
    by (rule exI [of _ "map f xs"]) simp
  then show "reorder_blocks NR min_NR NC KC kf n k \<Longrightarrow> ?thesis" by (simp only: ref_walk_ops)
qed

lemma reorder_image:
  assumes "reorder_blocks NR min_NR NC KC kf n k" "0 < es" "0 < omp_team (if n_threads > 0 then n_threads else 1)"
    and "dlp_reorder_ref_walk omp_team True kf n k NR min_NR NC KC rs cs n_threads = map Some ops"
    and "interleaves sched (length ops) (\<lambda>t. ops ! t)"
  shows "fold (exec_op es src) (map snd sched) dst = packed_image es NR min_NR NC KC kf n k rs cs src dst"
proof -
  let ?team = "omp_team (if n_threads > 0 then n_threads else 1)"
  have "ops = map (\<lambda>t. reorder_blocks.slice_ops NR min_NR NC KC kf n k True rs cs (task_slice False n NR (int ?team) (int t))) [0..<?team]"
    using assms(4) by - (rule map_Some_inj, simp add: ref_walk_ops [OF assms(1)] comp_def)
  then show ?thesis
    using assms(5) by (intro reorder_blocks.team_image [OF assms(1) _ assms(3,2)]) (simp add: interleaves_def)
qed

text \<open>C11: The reference reorder implements the layout. For legal blocks whose \<open>NC\<close> is a multiple of \<open>NR\<close>, every
  thread of the team ends, and however their stores interleave, the destination afterwards is the image
  \<open>packed_image\<close>: each element at its place \<open>B_offset\<close>, zero in the rest of the padded buffer, and nothing
  outside it changed. The image mentions no thread count, so the bytes do not depend on the team OpenMP starts.\<close>

theorem reorder_refines_layout:
  assumes "dlp_reorder_ref_blocks_legal NR min_NR KC kf" "0 < NC" "NR dvd NC" "0 \<le> n" "0 \<le> k" "0 < es" "\<And>x. 0 < omp_team x"
  shows "\<exists>ops. dlp_reorder_ref_reorderb omp_team kf n k NR min_NR NC KC rs cs n_threads = map Some ops \<and>
    (\<forall>sched src dst. interleaves sched (length ops) (\<lambda>t. ops ! t) \<longrightarrow>
       fold (exec_op es src) (map snd sched) dst = packed_image es NR min_NR NC KC kf n k rs cs src dst)"
proof -
  have rb: "reorder_blocks NR min_NR NC KC kf n k" by unfold_locales (use assms in auto)
  obtain ops where ops: "dlp_reorder_ref_walk omp_team True kf n k NR min_NR NC KC rs cs n_threads = map Some ops"
    using ref_walk_ends [OF rb] by blast
  show ?thesis
    unfolding dlp_reorder_ref_reorderb_def using ops reorder_image [OF rb assms(6) assms(7) ops] by blast
qed

theorem reorder_refines_layout_witness:
  "\<exists>ops. dlp_reorder_ref_reorderb (\<lambda>_. 3) 4 40 6 16 8 32 4 40 1 3 = map Some ops \<and>
     fold (exec_op 1 (\<lambda>a. of_int (3 * a))) (map snd (one_by_one (length ops) (\<lambda>t. ops ! t))) (\<lambda>_. 255) =
       packed_image 1 16 8 32 4 4 40 6 40 1 (\<lambda>a. of_int (3 * a)) (\<lambda>_. 255)"
proof -
  have "\<exists>ops. dlp_reorder_ref_reorderb (\<lambda>_. 3) 4 40 6 16 8 32 4 40 1 3 = map Some ops \<and>
    (\<forall>sched src dst. interleaves sched (length ops) (\<lambda>t. ops ! t) \<longrightarrow>
       fold (exec_op 1 src) (map snd sched) dst = packed_image 1 16 8 32 4 4 40 6 40 1 src dst)"
    by (rule reorder_refines_layout) (simp_all add: dlp_reorder_ref_blocks_legal_def)
  then show ?thesis using one_by_one_interleaves by blast
qed

text \<open>Un-reordering gives the matrix back, whatever teams and schedules did the two walks.\<close>

lemma roundtrip_bytes:
  assumes "dlp_reorder_ref_blocks_legal NR min_NR KC kf" "0 < NC" "NR dvd NC" "0 \<le> n" "0 \<le> k" "0 < es" "\<And>x. 0 < omp_team x"
    and "dlp_reorder_ref_reorderb omp_team kf n k NR min_NR NC KC rs cs n_threads = map Some ops"
    and "interleaves sched (length ops) (\<lambda>t. ops ! t)"
    and "dlp_reorder_ref_unreorderb omp_team kf n k NR min_NR NC KC rs cs n_threads' = map Some ops'"
    and "interleaves sched' (length ops') (\<lambda>t. ops' ! t)"
  shows "fold (exec_op es (fold (exec_op es src) (map snd sched) dst)) (map snd sched') out a =
    (if \<exists>kr \<in> {0..<k}. \<exists>j \<in> {0..<n}. a div es = kr * rs + j * cs then src a else out a)"
proof -
  have rb: "reorder_blocks NR min_NR NC KC kf n k" by unfold_locales (use assms in auto)
  let ?team = "omp_team (if n_threads' > 0 then n_threads' else 1)"
  have o: "ops' = map (\<lambda>t. reorder_blocks.slice_ops NR min_NR NC KC kf n k False rs cs (task_slice False n NR (int ?team) (int t))) [0..<?team]"
    using assms(10) by - (rule map_Some_inj, simp add: dlp_reorder_ref_unreorderb_def ref_walk_ops [OF rb] comp_def)
  let ?p = "packed_image es NR min_NR NC KC kf n k rs cs src dst"
  have p: "fold (exec_op es src) (map snd sched) dst = ?p"
    by (rule reorder_image [OF rb assms(6) assms(7) assms(8) [unfolded dlp_reorder_ref_reorderb_def] assms(9)])
  have set: "set (map snd sched') = {Copy (kr * rs + j * cs) (B_offset NR min_NR NC KC kf n k kr j) | kr j. 0 \<le> kr \<and> kr < k \<and> 0 \<le> j \<and> j < n}"
    unfolding schedule_set [OF assms(11)] using reorder_blocks.unpack_team_set [OF rb, of ?team rs cs] assms(7) by (simp add: o)
  have val: "op_byte es ?p (Copy (kr * rs + j * cs) (B_offset NR min_NR NC KC kf n k kr j)) (a mod es) = src ((kr * rs + j * cs) * es + a mod es)"
    if "0 \<le> kr" "kr < k" "0 \<le> j" "j < n" for kr j
    using reorder_blocks.packed_image_at [OF rb that assms(6), of "a mod es"] assms(6) by simp
  show ?thesis
  proof (cases "final_op (map snd sched') (a div es)")
    case None
    then have "\<not> (\<exists>kr \<in> {0..<k}. \<exists>j \<in> {0..<n}. a div es = kr * rs + j * cs)" unfolding final_op_None set by fastforce
    then show ?thesis unfolding p run_ops_at [OF assms(6)] None by simp
  next
    case (Some op)
    then obtain kr j where e: "0 \<le> kr" "kr < k" "0 \<le> j" "j < n" "a div es = kr * rs + j * cs"
      and op: "op = Copy (kr * rs + j * cs) (B_offset NR min_NR NC KC kf n k kr j)" using final_op_in [OF Some] unfolding set by auto
    have "(kr * rs + j * cs) * es + a mod es = a" using div_mult_mod_eq [of a es] e(5) by simp
    then have "fold (exec_op es ?p) (map snd sched') out a = src a" unfolding run_ops_at [OF assms(6)] Some option.case op val [OF e(1-4)] by simp
    moreover have "\<exists>kr \<in> {0..<k}. \<exists>j \<in> {0..<n}. a div es = kr * rs + j * cs"
      using e by (intro bexI [of _ kr] bexI [of _ j]) auto
    ultimately show ?thesis unfolding p by simp
  qed
qed

end
