(* ===== verification/Driver_Reorder.thy ===== *)
theory Driver_Reorder
  imports Driver_Buffers Reorder_Ref
begin

text \<open>
  The driver on memory. The lemmas of this theory locate the operands of every kernel call of a run of
  \<open>gemm_5loop\<close> with a plain A and a reordered B: A and C at the addresses of their rows, B at the places where
  the layout \<open>B_offset\<close> puts the elements the call multiplies.

  \<open>memory_kernel\<close> is the contract of a compute kernel in terms of addresses only. A kernel with this contract,
  on a buffer written by the reorder, simulates the block update of the abstract matrix.
\<close>

section \<open>The operands of a kernel call\<close>

text \<open>The block of a call lies in the matrices, and its operands are where the strides and the layout say.\<close>

fun located :: "gemm_args \<Rightarrow> dlp_gemm_block_size_t \<Rightarrow> action \<Rightarrow> bool" where
  "located g b (Kernel c) \<longleftrightarrow>
     0 \<le> post_op_c_i (kc_attr c) \<and> 0 < kc_mc0 c \<and> post_op_c_i (kc_attr c) + kc_mc0 c \<le> ga_m g \<and>
     0 \<le> post_op_c_j (kc_attr c) \<and> 0 < kc_nr0 c \<and> post_op_c_j (kc_attr c) + kc_nr0 c \<le> ga_n g \<and>
     0 \<le> kc_pc c \<and> 0 < kc_kc0 c \<and> kc_pc c + kc_kc0 c \<le> ga_k g \<and>
     kc_a c = In_matrix (ga_rs_a g * post_op_c_i (kc_attr c) + ga_cs_a g * kc_pc c) \<and> fst (kc_a_strides c) = ga_rs_a g \<and>
     kc_c c = C_matrix (post_op_c_j (kc_attr c) + ga_rs_c g * post_op_c_i (kc_attr c)) \<and> kc_rs_c c = ga_rs_c g \<and>
     (\<exists>off. kc_b c = In_matrix off \<and>
       (\<forall>kr i. 0 \<le> kr \<and> kr < kc_kc0 c \<and> 0 \<le> i \<and> i < kc_nr0 c \<longrightarrow>
          off + panel_offset (bs_NR b) packb_min_NR 4 (kc_nr0 c) (dlp_make_multiple_of_n (kc_kc0 c) 4) kr i =
          B_offset (bs_NR b) packb_min_NR (bs_NC b) (bs_KC b) 4 (ga_n g) (ga_k g) (kc_pc c + kr) (post_op_c_j (kc_attr c) + i)))"
| "located g b _ \<longleftrightarrow> True"

locale reordered_run =
  fixes g :: gemm_args and lcntx :: dlp_gemm_cntx_t
  assumes blocks: "reorder_blocks (bs_NR (cx_blksz lcntx)) packb_min_NR (bs_NC (cx_blksz lcntx)) (bs_KC (cx_blksz lcntx)) 4 (ga_n g) (ga_k g)"
    and ok: "blksz_ok (cx_blksz lcntx)"
    and plain: "ga_mtag_a g = UNPACKED" "ga_mtag_b g = REORDERED" "ga_c_downscale g = DLP_S32"
    and rows: "0 \<le> ga_m g"
begin

abbreviation "NR \<equiv> bs_NR (cx_blksz lcntx)"
abbreviation "NC \<equiv> bs_NC (cx_blksz lcntx)"
abbreviation "KC \<equiv> bs_KC (cx_blksz lcntx)"

sublocale reorder_blocks NR packb_min_NR NC KC 4 "ga_n g" "ga_k g"
  by (rule blocks)

lemma jr_located:
  assumes "jr_loop g lcntx jc nc0 pc kc0 ic mc0 (In_matrix (ga_rs_a g * ic + ga_cs_a g * pc), ga_rs_a g, sa)
      (In_matrix (piece_off jc pc)) (C_matrix (jc + ga_rs_c g * ic)) (ga_rs_c g) s = Some (s', xs)"
    and ip: "is_piece NR NC (ga_n g) jc nc0" and pc: "KC dvd pc" "0 \<le> pc" "pc < ga_k g" and kc0: "kc0 = dlp_min (ga_k g - pc) KC"
    and ic: "0 \<le> ic" "0 < mc0" "ic + mc0 \<le> ga_m g"
  shows "list_all (located g (cx_blksz lcntx)) xs"
  using assms(1) unfolding jr_loop_def Let_def
proof (rule for_loop_all [where I = "\<lambda>jr. 0 \<le> jr \<and> NR dvd jr", rotated])
  fix jr s s' xs
  assume jr: "jr < nc0" "0 \<le> jr \<and> NR dvd jr"
  note f = piece_facts [OF ip]
  let ?nr0 = "dlp_min (nc0 - jr) NR"
  have top: "jc + nc0 \<le> ga_n g" using f(6) by (auto simp: dlp_min_def split: if_splits)
  have nr: "0 < ?nr0" "jr + ?nr0 \<le> nc0" using jr pos(1) by (auto simp: dlp_min_def)
  have sub: "is_piece NR NC (ga_n g) (jc + jr) ?nr0" and off: "piece_off jc pc + jr * kc0p pc = piece_off (jc + jr) pc"
    using sub_piece [OF ip] jr by simp_all
  have up: "dlp_make_multiple_of_n kc0 4 = kc0p pc" by (simp add: kc0p_def kc0)
  have loc: "piece_off jc pc + jr * kc0p pc + panel_offset NR packb_min_NR 4 ?nr0 (kc0p pc) kr i =
      B_offset NR packb_min_NR NC KC 4 (ga_n g) (ga_k g) (pc + kr) (jc + jr + i)"
    if "0 \<le> kr" "kr < kc0" "0 \<le> i" "i < ?nr0" for kr i
    using piece_elem(1) [OF sub pc] that by (simp add: off kc0)
  have "0 < kc0" "pc + kc0 \<le> ga_k g" using pc pos(2) by (auto simp: kc0 dlp_min_def)
  moreover assume "Some (s, [Kernel \<lparr>kc_mc0 = mc0, kc_nr0 = ?nr0, kc_kc0 = kc0, kc_pc = pc,
      kc_a = fst (In_matrix (ga_rs_a g * ic + ga_cs_a g * pc), ga_rs_a g, sa),
      kc_a_strides = snd (In_matrix (ga_rs_a g * ic + ga_cs_a g * pc), ga_rs_a g, sa),
      kc_b = o_offset (In_matrix (piece_off jc pc)) (jr * dlp_make_multiple_of_n kc0 4), kc_b_panel = (0, 0),
      kc_c = c_offset (C_matrix (jc + ga_rs_c g * ic)) jr, kc_rs_c = ga_rs_c g, kc_beta0 = if pc = 0 then ga_beta g else 1,
      kc_attr = \<lparr>post_op_c_i = ic, post_op_c_j = jc + jr, is_first_k = (pc = 0), is_last_k = (ga_k g \<le> pc + KC)\<rparr>\<rparr>]) = Some (s', xs)"
  ultimately show "(0 \<le> jr + NR \<and> NR dvd jr + NR) \<and> list_all (located g (cx_blksz lcntx)) xs"
    using jr nr top ic pc(2) pos(1) f(2,4) loc by (auto simp: o_offset_def c_offset_def up)
qed simp

lemma ic_located:
  assumes "ic_loop packa g lcntx ic_start ic_end jc nc0 pc kc0 (In_matrix (piece_off jc pc)) (C_matrix jc) (ga_rs_c g) s = Some (s', xs)"
    and ip: "is_piece NR NC (ga_n g) jc nc0" and pc: "KC dvd pc" "0 \<le> pc" "pc < ga_k g" and kc0: "kc0 = dlp_min (ga_k g - pc) KC"
    and ic: "0 \<le> ic_start" "ic_end \<le> ga_m g"
  shows "list_all (located g (cx_blksz lcntx)) xs"
  using assms(1) unfolding ic_loop_def Let_def
proof (rule for_loop_all [where I = "\<lambda>ic. ic_start \<le> ic", rotated])
  have MC: "0 < bs_MC (cx_blksz lcntx)" using ok by auto
  fix i s s' xs
  assume i: "i < ic_end" "ic_start \<le> i"
  let ?mc0 = "dlp_min (ic_end - i) (bs_MC (cx_blksz lcntx))"
  have a: "a_operand packa g lcntx pc kc0 i ?mc0 s = (s, [], (In_matrix (ga_rs_a g * i + ga_cs_a g * pc), ga_rs_a g, 4, ga_rs_a g))"
    by (simp add: a_operand_def plain Let_def)
  have d: "\<not> downscaled (ga_c_downscale g)" by (simp add: downscaled_def plain)
  assume "(case a_operand packa g lcntx pc kc0 i ?mc0 s of (s, acts, a_use) \<Rightarrow>
      map_option (\<lambda>(s', calls). (s', acts @ calls))
        (jr_loop g lcntx jc nc0 pc kc0 i ?mc0 a_use (In_matrix (piece_off jc pc))
          (if downscaled (ga_c_downscale g) then c_offset (C_matrix jc) (ga_rs_c g * (i - ic_start)) else c_offset (C_matrix jc) (ga_rs_c g * i))
          (ga_rs_c g) s)) = Some (s', xs)"
  then have "jr_loop g lcntx jc nc0 pc kc0 i ?mc0 (In_matrix (ga_rs_a g * i + ga_cs_a g * pc), ga_rs_a g, 4, ga_rs_a g)
      (In_matrix (piece_off jc pc)) (C_matrix (jc + ga_rs_c g * i)) (ga_rs_c g) s = Some (s', xs)"
    by (simp add: a d c_offset_def option.map_ident case_prod_beta')
  then have "list_all (located g (cx_blksz lcntx)) xs"
    by (rule jr_located [OF _ ip pc kc0]) (use i ic MC in \<open>auto simp: dlp_min_def\<close>)
  then show "ic_start \<le> i + bs_MC (cx_blksz lcntx) \<and> list_all (located g (cx_blksz lcntx)) xs" using i MC by simp
qed simp

lemma pc_located:
  assumes "pc_loop packa g lcntx tj ti ic_start ic_end jc nc0 (jc div NC * NC) (jc - jc div NC * NC) (W (jc div NC * NC)) (C_matrix jc) (ga_rs_c g) s
      = Some (s', xs)"
    and ip: "is_piece NR NC (ga_n g) jc nc0" and ic: "0 \<le> ic_start" "ic_end \<le> ga_m g"
  shows "list_all (located g (cx_blksz lcntx)) xs"
  using assms(1) unfolding pc_loop_def Let_def
proof (rule for_loop_all [where I = "\<lambda>pc. 0 \<le> pc \<and> KC dvd pc", rotated])
  fix pc s s' xs
  assume pc: "pc < ga_k g" "0 \<le> pc \<and> KC dvd pc"
  let ?kc0 = "dlp_min (ga_k g - pc) KC"
  have b: "b_operand g lcntx tj ti jc nc0 (jc div NC * NC) (jc - jc div NC * NC) (W (jc div NC * NC)) pc ?kc0 s = (s, [], In_matrix (piece_off jc pc))"
    by (simp add: b_operand_def plain Let_def piece_off_def kp_def kc0p_def)
  assume "(case b_operand g lcntx tj ti jc nc0 (jc div NC * NC) (jc - jc div NC * NC) (W (jc div NC * NC)) pc ?kc0 s of (s, acts, b_use) \<Rightarrow>
      map_option (\<lambda>(s', calls). (s', acts @ calls))
        (ic_loop packa g lcntx ic_start ic_end jc nc0 pc ?kc0 b_use (C_matrix jc) (ga_rs_c g) s)) = Some (s', xs)"
  then have "ic_loop packa g lcntx ic_start ic_end jc nc0 pc ?kc0 (In_matrix (piece_off jc pc)) (C_matrix jc) (ga_rs_c g) s = Some (s', xs)"
    by (simp add: b option.map_ident case_prod_beta')
  then have "list_all (located g (cx_blksz lcntx)) xs" by (rule ic_located [OF _ ip _ _ _ refl ic]) (use pc in auto)
  then show "(0 \<le> pc + KC \<and> KC dvd pc + KC) \<and> list_all (located g (cx_blksz lcntx)) xs" using pc pos(2) by simp
qed simp

lemma jc_located:
  fixes ways wid :: md_t
  defines "r \<equiv> task_slice False (ga_n g) NR ways wid"
  assumes "jc_loop packa g lcntx tj ti (r, (ic_start, ic_end)) s = Some (s', xs)" and ic: "0 \<le> ic_start" "ic_end \<le> ga_m g"
  shows "list_all (located g (cx_blksz lcntx)) xs"
proof -
  obtain js je where r: "r = (js, je)" by force
  note sf = slice_facts [of ways wid, folded r_def, unfolded r fst_conv snd_conv]
  have nx: "jc_next g lcntx jc = jc div NC * NC + NC" if "0 \<le> jc" for jc
    using that panel(1) by (simp add: jc_next_def plain Let_def dlp_gemm_adjust_B_panel_reordered_jc_def
        dlp_gemm_get_B_panel_reordered_start_offset_width_def cdiv_simps)
  show ?thesis
    using assms(2) unfolding r jc_loop_def Let_def prod.case
  proof (rule for_loop_all [where I = "\<lambda>jc. js \<le> jc \<and> (js < je \<longrightarrow> NR dvd jc)", rotated])
    fix jc s s' xs
    assume jc: "jc < je" "js \<le> jc \<and> (js < je \<longrightarrow> NR dvd jc)"
    have j: "0 \<le> jc" "jc < ga_n g" "NR dvd jc" "js < je" using jc sf(1,2) by auto
    have g: "dlp_gemm_get_B_panel_reordered_start_offset_width jc (ga_n g) NC packb_min_NR (dlp_min (je - jc) NC) =
        (jc div NC * NC, jc - jc div NC * NC, width je jc, W (jc div NC * NC))"
      using geometry [OF j(1) jc(1) sf(2)] .
    have P: "jc div NC * NC \<le> jc" "jc < jc div NC * NC + NC" using floor_block [OF panel(1)] by auto
    have "NR dvd jc div NC * NC + NC" using panel(2) by simp
    then have ip: "is_piece NR NC (ga_n g) jc (width je jc)" using j jc(1) P sf(2,5)
      by (auto simp: is_piece_def width_def dlp_min_def min_def)
    have c: "c_operand_jc g lcntx ic_start ic_end jc je s = (s, [], C_matrix jc)" by (simp add: c_operand_jc_def plain)
    have d: "\<not> downscaled DLP_S32" by (simp add: downscaled_def)
    assume "(case if ga_mtag_b g = REORDERED then dlp_gemm_get_B_panel_reordered_start_offset_width jc (ga_n g) NC packb_min_NR (dlp_min (je - jc) NC)
        else (jc, 0, dlp_min (je - jc) NC, 0) of
       (jc_cur_loop, jc_cur_loop_rem, nc0, n_sub_updated) \<Rightarrow>
         case c_operand_jc g lcntx ic_start ic_end jc je s of (s, acts, c_use_jc) \<Rightarrow>
           map_option (\<lambda>(s', calls). (s', acts @ calls))
             (pc_loop packa g lcntx tj ti ic_start ic_end jc nc0 jc_cur_loop jc_cur_loop_rem n_sub_updated c_use_jc
               (if downscaled (ga_c_downscale g) then nc0 else ga_rs_c g) s)) = Some (s', xs)"
    then have "pc_loop packa g lcntx tj ti ic_start ic_end jc (width je jc) (jc div NC * NC) (jc - jc div NC * NC) (W (jc div NC * NC))
        (C_matrix jc) (ga_rs_c g) s = Some (s', xs)"
      by (simp add: plain g c d option.map_ident case_prod_beta')
    then have "list_all (located g (cx_blksz lcntx)) xs" by (rule pc_located [OF _ ip ic])
    moreover have "NR dvd jc_next g lcntx jc" "js \<le> jc_next g lcntx jc" using nx [OF j(1)] P jc panel(2) by auto
    ultimately show "(js \<le> jc_next g lcntx jc \<and> (js < je \<longrightarrow> NR dvd jc_next g lcntx jc)) \<and> list_all (located g (cx_blksz lcntx)) xs" by simp
  qed (use sf(4) in simp)
qed

lemma run_located:
  assumes "gemm_5loop packa g lcntx thread = Some as"
  shows "list_all (located g (cx_blksz lcntx)) as"
proof -
  obtain tj ti where t: "dlp_gemm_gen_dlp_task_ids (Some thread) = (tj, ti)" by force
  have MR: "0 < bs_MR (cx_blksz lcntx)" using ok by auto
  let ?ri = "task_slice False (ga_m g) (bs_MR (cx_blksz lcntx)) (n_way ti) (work_id ti)"
  have tile: "driver_tile thread (ga_m g) (ga_n g) lcntx = (task_slice False (ga_n g) NR (n_way tj) (work_id tj), (fst ?ri, snd ?ri))"
    by (simp add: driver_tile_def t task_range_eq_slice)
  let ?run = "jc_loop packa g lcntx tj ti (task_slice False (ga_n g) NR (n_way tj) (work_id tj), (fst ?ri, snd ?ri))
      \<lparr>have_b = False, have_a = False, have_c = False\<rparr>"
  obtain s xs where x: "?run = Some (s, xs)" using assms unfolding gemm_5loop_def t tile Let_def prod.case by (cases ?run) auto
  have as: "as = xs @ (if downscaled (ga_c_downscale g) \<and> have_c s then [Free_c] else [])"
    using assms unfolding gemm_5loop_def t tile Let_def prod.case x by (simp add: plain)
  have "0 \<le> fst ?ri \<and> snd ?ri \<le> ga_m g"
    using high_edge.slice_bounds [OF rows MR, of "work_id ti" "n_way ti"] high_edge.range_retired [of "work_id ti" "n_way ti"] rows
    by (cases "0 \<le> work_id ti \<and> work_id ti < n_way ti") auto
  then have "list_all (located g (cx_blksz lcntx)) xs" using jc_located [OF x] by simp
  then show ?thesis by (simp add: as)
qed

end

section \<open>Kernels on memory\<close>

fun operand_at :: "operand \<Rightarrow> md_t" where
  "operand_at (In_matrix off) = off" | "operand_at (In_buffer off) = off"

text \<open>The block of a call lies in the matrices, and its operands A and C are at the addresses of their rows.\<close>

definition placed :: "gemm_args \<Rightarrow> kernel_call \<Rightarrow> bool" where
  "placed g c \<longleftrightarrow>
     0 \<le> post_op_c_i (kc_attr c) \<and> 0 < kc_mc0 c \<and> post_op_c_i (kc_attr c) + kc_mc0 c \<le> ga_m g \<and>
     0 \<le> post_op_c_j (kc_attr c) \<and> 0 < kc_nr0 c \<and> post_op_c_j (kc_attr c) + kc_nr0 c \<le> ga_n g \<and>
     0 \<le> kc_pc c \<and> 0 < kc_kc0 c \<and> kc_pc c + kc_kc0 c \<le> ga_k g \<and>
     kc_a c = In_matrix (ga_rs_a g * post_op_c_i (kc_attr c) + ga_cs_a g * kc_pc c) \<and> fst (kc_a_strides c) = ga_rs_a g \<and>
     kc_c c = C_matrix (post_op_c_j (kc_attr c) + ga_rs_c g * post_op_c_i (kc_attr c)) \<and> kc_rs_c c = ga_rs_c g"

text \<open>The bytes the call reads as its operand B are those of the matrix \<open>B\<close>.\<close>

definition reads_B :: "md_t \<Rightarrow> (md_t \<Rightarrow> md_t \<Rightarrow> int32_t) \<Rightarrow> bytes \<Rightarrow> kernel_call \<Rightarrow> bool" where
  "reads_B NR B bmem c \<longleftrightarrow> (\<forall>q jj. 0 \<le> q \<and> q < kc_kc0 c \<and> 0 \<le> jj \<and> jj < kc_nr0 c \<longrightarrow>
     scast (bmem (operand_at (kc_b c) + panel_offset NR packb_min_NR 4 (kc_nr0 c) (dlp_make_multiple_of_n (kc_kc0 c) 4) q jj)) =
     B (kc_pc c + q) (post_op_c_j (kc_attr c) + jj))"

lemma located_placed: "located g b (Kernel c) \<Longrightarrow> placed g c"
  by (auto simp: placed_def)

lemma located_reads:
  assumes "located g b (Kernel c)"
    and "\<And>p j. 0 \<le> p \<Longrightarrow> p < ga_k g \<Longrightarrow> 0 \<le> j \<Longrightarrow> j < ga_n g \<Longrightarrow>
      B p j = scast (bmem (B_offset (bs_NR b) packb_min_NR (bs_NC b) (bs_KC b) 4 (ga_n g) (ga_k g) p j))"
  shows "reads_B (bs_NR b) B bmem c"
  using assms by (auto simp: reads_B_def)

text \<open>What every kernel promises of addresses: the element in row \<open>ii\<close> and column \<open>jj\<close> of the block becomes \<open>beta0\<close>
  times its value plus a term \<open>val\<close> of the call; nothing else changes.\<close>

locale block_kernel =
  fixes val :: "kernel_call \<Rightarrow> md_t \<Rightarrow> md_t \<Rightarrow> int32_t"
    and kern :: "kernel_call \<Rightarrow> (md_t \<Rightarrow> int32_t) \<Rightarrow> md_t \<Rightarrow> int32_t"
  assumes block_inside: "kc_a c = In_matrix ao \<Longrightarrow> kc_c c = C_matrix co \<Longrightarrow>
      0 \<le> ii \<Longrightarrow> ii < kc_mc0 c \<Longrightarrow> 0 \<le> jj \<Longrightarrow> jj < kc_nr0 c \<Longrightarrow> kc_nr0 c \<le> kc_rs_c c \<Longrightarrow>
      kern c cm (co + ii * kc_rs_c c + jj) = kc_beta0 c * cm (co + ii * kc_rs_c c + jj) + val c ii jj"
    and block_outside: "kc_c c = C_matrix co \<Longrightarrow>
      (\<And>ii jj. 0 \<le> ii \<Longrightarrow> ii < kc_mc0 c \<Longrightarrow> 0 \<le> jj \<Longrightarrow> jj < kc_nr0 c \<Longrightarrow> a \<noteq> co + ii * kc_rs_c c + jj) \<Longrightarrow> kern c cm a = cm a"
begin

lemma kern_at:
  assumes "placed g c" and rs: "ga_n g \<le> ga_rs_c g" and ij: "0 \<le> i" "i < ga_m g" "0 \<le> j" "j < ga_n g"
  shows "kern c cm (i * ga_rs_c g + j) =
    (if touches c i j then kc_beta0 c * cm (i * ga_rs_c g + j) + val c (i - post_op_c_i (kc_attr c)) (j - post_op_c_j (kc_attr c))
     else cm (i * ga_rs_c g + j))"
proof -
  let ?ic = "post_op_c_i (kc_attr c)" and ?jc = "post_op_c_j (kc_attr c)"
  have l: "kc_a c = In_matrix (ga_rs_a g * ?ic + ga_cs_a g * kc_pc c)" "kc_c c = C_matrix (?jc + ga_rs_c g * ?ic)" "kc_rs_c c = ga_rs_c g"
    and bd: "0 \<le> ?ic" "?ic + kc_mc0 c \<le> ga_m g" "0 \<le> ?jc" "?jc + kc_nr0 c \<le> ga_n g"
    using assms(1) by (auto simp: placed_def)
  show ?thesis
  proof (cases "touches c i j")
    case True
    let ?ii = "i - ?ic" and ?jj = "j - ?jc"
    have t: "0 \<le> ?ii" "?ii < kc_mc0 c" "0 \<le> ?jj" "?jj < kc_nr0 c" using True by (auto simp: touches_def)
    have addr: "?jc + ga_rs_c g * ?ic + ?ii * ga_rs_c g + ?jj = i * ga_rs_c g + j" by (simp add: algebra_simps)
    show ?thesis using block_inside [OF l(1,2) t, of cm] l(3) addr bd(3,4) rs True by simp
  next
    case False
    have "i * ga_rs_c g + j \<noteq> ?jc + ga_rs_c g * ?ic + ii * kc_rs_c c + jj" if s: "0 \<le> ii" "ii < kc_mc0 c" "0 \<le> jj" "jj < kc_nr0 c" for ii jj
    proof
      assume eq: "i * ga_rs_c g + j = ?jc + ga_rs_c g * ?ic + ii * kc_rs_c c + jj"
      have pos: "0 < ga_rs_c g" using ij rs by linarith
      have e: "i * ga_rs_c g + j = (?ic + ii) * ga_rs_c g + (?jc + jj)" using eq l(3) by (simp add: algebra_simps)
      have "i = ?ic + ii" using div_eq_in_block [OF pos, of i "i * ga_rs_c g + j"] div_eq_in_block [OF pos, of "?ic + ii" "i * ga_rs_c g + j"]
          e ij rs bd s by (simp add: distrib_right)
      then have "j = ?jc + jj" using e by simp
      then show False using False \<open>i = ?ic + ii\<close> s by (simp add: touches_def)
    qed
    then have "kern c cm (i * ga_rs_c g + j) = cm (i * ga_rs_c g + j)" by (intro block_outside [OF l(2)]) auto
    then show ?thesis using False by simp
  qed
qed

lemma kern_frame:
  assumes "placed g c" and out: "\<And>i j. 0 \<le> i \<Longrightarrow> i < ga_m g \<Longrightarrow> 0 \<le> j \<Longrightarrow> j < ga_n g \<Longrightarrow> a \<noteq> i * ga_rs_c g + j"
  shows "kern c cm a = cm a"
proof -
  let ?ic = "post_op_c_i (kc_attr c)" and ?jc = "post_op_c_j (kc_attr c)"
  have l: "kc_c c = C_matrix (?jc + ga_rs_c g * ?ic)" "kc_rs_c c = ga_rs_c g" "0 \<le> ?ic" "?ic + kc_mc0 c \<le> ga_m g" "0 \<le> ?jc" "?jc + kc_nr0 c \<le> ga_n g"
    using assms(1) by (auto simp: placed_def)
  show ?thesis
  proof (rule block_outside [OF l(1)])
    fix ii jj assume "0 \<le> ii" "ii < kc_mc0 c" "0 \<le> jj" "jj < kc_nr0 c"
    then show "a \<noteq> ?jc + ga_rs_c g * ?ic + ii * kc_rs_c c + jj"
      using out [of "?ic + ii" "?jc + jj"] l by (simp add: algebra_simps)
  qed
qed

lemma run_frame:
  assumes "\<And>c. c \<in> set cs \<Longrightarrow> placed g c"
    and "\<And>i j. 0 \<le> i \<Longrightarrow> i < ga_m g \<Longrightarrow> 0 \<le> j \<Longrightarrow> j < ga_n g \<Longrightarrow> a \<noteq> i * ga_rs_c g + j"
  shows "fold kern cs cm a = cm a"
  using assms(1) kern_frame [OF _ assms(2)] by (induction cs arbitrary: cm) simp_all

end

text \<open>The dot product a call adds, on matrices and on bytes. \<open>conv\<close> is how the kernel reads an element of A.\<close>

definition byte_dot :: "md_t \<Rightarrow> (8 word \<Rightarrow> int32_t) \<Rightarrow> bytes \<Rightarrow> bytes \<Rightarrow> kernel_call \<Rightarrow> md_t \<Rightarrow> md_t \<Rightarrow> int32_t" where
  "byte_dot NR conv amem bmem c ii jj = (\<Sum>q \<in> {0..<kc_kc0 c}. conv (amem (operand_at (kc_a c) + ii * fst (kc_a_strides c) + q)) *
     scast (bmem (operand_at (kc_b c) + panel_offset NR packb_min_NR 4 (kc_nr0 c) (dlp_make_multiple_of_n (kc_kc0 c) 4) q jj)))"

lemma byte_dot_reads:
  assumes "placed g c" and rd: "reads_B NR B bmem c" and cs: "ga_cs_a g = 1" and t: "touches c i j"
    and A: "\<And>i p. 0 \<le> i \<Longrightarrow> i < ga_m g \<Longrightarrow> 0 \<le> p \<Longrightarrow> p < ga_k g \<Longrightarrow> A i p = conv (amem (i * ga_rs_a g + p))"
  shows "byte_dot NR conv amem bmem c (i - post_op_c_i (kc_attr c)) (j - post_op_c_j (kc_attr c)) = (\<Sum>p \<in> {kc_pc c..<kc_pc c + kc_kc0 c}. A i p * B p j)"
proof -
  let ?ic = "post_op_c_i (kc_attr c)" and ?jc = "post_op_c_j (kc_attr c)" and ?off = "operand_at (kc_b c)"
  let ?ii = "i - ?ic" and ?jj = "j - ?jc"
  have l: "operand_at (kc_a c) = ga_rs_a g * ?ic + kc_pc c" "fst (kc_a_strides c) = ga_rs_a g"
    and bd: "0 \<le> ?ic" "?ic + kc_mc0 c \<le> ga_m g" "0 \<le> kc_pc c" "kc_pc c + kc_kc0 c \<le> ga_k g"
    using assms(1) cs by (auto simp: placed_def)
  have i: "0 \<le> i" "i < ga_m g" "0 \<le> ?jj" "?jj < kc_nr0 c" using t bd by (auto simp: touches_def)
  have "byte_dot NR conv amem bmem c ?ii ?jj = (\<Sum>q \<in> {0..<kc_kc0 c}. A i (kc_pc c + q) * B (kc_pc c + q) j)"
    unfolding byte_dot_def
  proof (rule sum.cong)
    fix q assume q: "q \<in> {0..<kc_kc0 c}"
    have "A i (kc_pc c + q) = conv (amem (operand_at (kc_a c) + ?ii * fst (kc_a_strides c) + q))"
      using A [of i "kc_pc c + q"] i q bd unfolding l by (simp add: algebra_simps)
    moreover have "scast (bmem (?off + panel_offset NR packb_min_NR 4 (kc_nr0 c) (dlp_make_multiple_of_n (kc_kc0 c) 4) q ?jj)) =
        B (kc_pc c + q) (?jc + ?jj)" by (rule rd [unfolded reads_B_def, rule_format]) (use q i in simp)
    ultimately show "conv (amem (operand_at (kc_a c) + ?ii * fst (kc_a_strides c) + q)) *
        scast (bmem (?off + panel_offset NR packb_min_NR 4 (kc_nr0 c) (dlp_make_multiple_of_n (kc_kc0 c) 4) q ?jj)) =
        A i (kc_pc c + q) * B (kc_pc c + q) j" by simp
  qed simp
  also have "\<dots> = (\<Sum>p \<in> {kc_pc c..<kc_pc c + kc_kc0 c}. A i p * B p j)"
    by (rule sum.reindex_bij_witness [where i = "\<lambda>p. p - kc_pc c" and j = "\<lambda>q. kc_pc c + q"]) auto
  finally show ?thesis .
qed

text \<open>What an unsigned kernel promises of the bytes at its operands: the term is \<open>alpha\<close> times the product of the row of unsigned
  bytes of A with the signed bytes that the panel layout of B gives for the column. \<open>bmem\<close> is the memory the operand B
  lies in, the matrix or a pack buffer.\<close>

locale memory_kernel =
  fixes NR :: md_t and alpha :: int32_t and amem bmem :: bytes
    and kern :: "kernel_call \<Rightarrow> (md_t \<Rightarrow> int32_t) \<Rightarrow> md_t \<Rightarrow> int32_t"
  assumes kern_inside: "kc_a c = In_matrix ao \<Longrightarrow> operand_at (kc_b c) = bo \<Longrightarrow> kc_c c = C_matrix co \<Longrightarrow>
      0 \<le> ii \<Longrightarrow> ii < kc_mc0 c \<Longrightarrow> 0 \<le> jj \<Longrightarrow> jj < kc_nr0 c \<Longrightarrow> kc_nr0 c \<le> kc_rs_c c \<Longrightarrow>
      kern c cm (co + ii * kc_rs_c c + jj) = kc_beta0 c * cm (co + ii * kc_rs_c c + jj) +
        alpha * (\<Sum>q \<in> {0..<kc_kc0 c}. ucast (amem (ao + ii * fst (kc_a_strides c) + q)) *
          scast (bmem (bo + panel_offset NR packb_min_NR 4 (kc_nr0 c) (dlp_make_multiple_of_n (kc_kc0 c) 4) q jj)))"
    and kern_outside: "kc_c c = C_matrix co \<Longrightarrow>
      (\<And>ii jj. 0 \<le> ii \<Longrightarrow> ii < kc_mc0 c \<Longrightarrow> 0 \<le> jj \<Longrightarrow> jj < kc_nr0 c \<Longrightarrow> a \<noteq> co + ii * kc_rs_c c + jj) \<Longrightarrow> kern c cm a = cm a"
begin

sublocale block_kernel "\<lambda>c ii jj. alpha * byte_dot NR ucast amem bmem c ii jj" kern
  by unfold_locales (auto simp: kern_inside kern_outside byte_dot_def)

lemmas kern_keeps = kern_frame and run_keeps = run_frame

text \<open>A call with placed operands simulates the update of the abstract matrix.\<close>

lemma kern_simulates:
  assumes "placed g c" and rd: "reads_B NR B bmem c" and cs: "ga_cs_a g = 1" and rs: "ga_n g \<le> ga_rs_c g"
    and A: "\<And>i p. 0 \<le> i \<Longrightarrow> i < ga_m g \<Longrightarrow> 0 \<le> p \<Longrightarrow> p < ga_k g \<Longrightarrow> A i p = ucast (amem (i * ga_rs_a g + p))"
    and sim: "\<And>i j. 0 \<le> i \<Longrightarrow> i < ga_m g \<Longrightarrow> 0 \<le> j \<Longrightarrow> j < ga_n g \<Longrightarrow> C i j = cm (i * ga_rs_c g + j)"
    and ij: "0 \<le> i" "i < ga_m g" "0 \<le> j" "j < ga_n g"
  shows "tile_update alpha A B c C i j = kern c cm (i * ga_rs_c g + j)"
  using kern_at [OF assms(1) rs ij, of cm] byte_dot_reads [where A = A and conv = ucast and amem = amem, OF assms(1-3) _ A, of i j] sim [OF ij] by (simp add: tile_update_def)

lemma run_simulates:
  assumes "\<And>c. c \<in> set cs \<Longrightarrow> located g b (Kernel c)" and "NR = bs_NR b" "ga_cs_a g = 1" "ga_n g \<le> ga_rs_c g"
    and "\<And>i p. 0 \<le> i \<Longrightarrow> i < ga_m g \<Longrightarrow> 0 \<le> p \<Longrightarrow> p < ga_k g \<Longrightarrow> A i p = ucast (amem (i * ga_rs_a g + p))"
    and "\<And>p j. 0 \<le> p \<Longrightarrow> p < ga_k g \<Longrightarrow> 0 \<le> j \<Longrightarrow> j < ga_n g \<Longrightarrow>
      B p j = scast (bmem (B_offset (bs_NR b) packb_min_NR (bs_NC b) (bs_KC b) 4 (ga_n g) (ga_k g) p j))"
    and "\<And>i j. 0 \<le> i \<Longrightarrow> i < ga_m g \<Longrightarrow> 0 \<le> j \<Longrightarrow> j < ga_n g \<Longrightarrow> C i j = cm (i * ga_rs_c g + j)"
    and "0 \<le> i" "i < ga_m g" "0 \<le> j" "j < ga_n g"
  shows "fold (tile_update alpha A B) cs C i j = fold kern cs cm (i * ga_rs_c g + j)"
  using assms(1,7)
proof (induction cs arbitrary: C cm)
  case Nil
  then show ?case using assms(8-11) by simp
next
  case (Cons c cs)
  have c: "located g b (Kernel c)" using Cons.prems(1) by simp
  have rd: "reads_B NR B bmem c" unfolding assms(2) by (rule located_reads [OF c]) (rule assms(6))
  have "tile_update alpha A B c C i j = kern c cm (i * ga_rs_c g + j)"
    if "0 \<le> i" "i < ga_m g" "0 \<le> j" "j < ga_n g" for i j
    by (rule kern_simulates [where g = g and A = A and B = B and C = C and cm = cm])
      (use located_placed [OF c] rd Cons.prems(2) assms(3-5) that in simp_all)
  then show ?case using Cons.IH [of "tile_update alpha A B c C" "kern c cm"] Cons.prems(1) by simp
qed

end

text \<open>A kernel with this contract, element by element.\<close>

definition mem_update ::
  "md_t \<Rightarrow> int32_t \<Rightarrow> bytes \<Rightarrow> bytes \<Rightarrow> kernel_call \<Rightarrow> (md_t \<Rightarrow> int32_t) \<Rightarrow> md_t \<Rightarrow> int32_t" where
  "mem_update NR alpha amem bmem c cm a =
     (case (kc_a c, kc_c c) of
        (In_matrix ao, C_matrix co) \<Rightarrow>
          let bo = operand_at (kc_b c);
              ii = (a - co) div kc_rs_c c;
              jj = (a - co) mod kc_rs_c c
          in if 0 < kc_rs_c c \<and> 0 \<le> ii \<and> ii < kc_mc0 c \<and> jj < kc_nr0 c
             then kc_beta0 c * cm a + alpha * (\<Sum>q \<in> {0..<kc_kc0 c}. ucast (amem (ao + ii * fst (kc_a_strides c) + q)) *
               scast (bmem (bo + panel_offset NR packb_min_NR 4 (kc_nr0 c) (dlp_make_multiple_of_n (kc_kc0 c) 4) q jj)))
             else cm a
      | _ \<Rightarrow> cm a)"

interpretation ref_memory: memory_kernel NR alpha amem bmem "mem_update NR alpha amem bmem"
proof
  fix c :: kernel_call and ao bo co ii jj and cm :: "md_t \<Rightarrow> int32_t"
  assume op: "kc_a c = In_matrix ao" "operand_at (kc_b c) = bo" "kc_c c = C_matrix co"
    and s: "0 \<le> ii" "ii < kc_mc0 c" "0 \<le> jj" "jj < kc_nr0 c" "kc_nr0 c \<le> kc_rs_c c"
  have "(ii * kc_rs_c c + jj) div kc_rs_c c = ii" "(ii * kc_rs_c c + jj) mod kc_rs_c c = jj" using s by simp_all
  then show "mem_update NR alpha amem bmem c cm (co + ii * kc_rs_c c + jj) = kc_beta0 c * cm (co + ii * kc_rs_c c + jj) +
        alpha * (\<Sum>q \<in> {0..<kc_kc0 c}. ucast (amem (ao + ii * fst (kc_a_strides c) + q)) *
          scast (bmem (bo + panel_offset NR packb_min_NR 4 (kc_nr0 c) (dlp_make_multiple_of_n (kc_kc0 c) 4) q jj)))"
    using s by (simp add: mem_update_def op Let_def add.assoc)
next
  fix c :: kernel_call and co a and cm :: "md_t \<Rightarrow> int32_t"
  assume co: "kc_c c = C_matrix co"
    and out: "\<And>ii jj. 0 \<le> ii \<Longrightarrow> ii < kc_mc0 c \<Longrightarrow> 0 \<le> jj \<Longrightarrow> jj < kc_nr0 c \<Longrightarrow> a \<noteq> co + ii * kc_rs_c c + jj"
  have "co + (a - co) div kc_rs_c c * kc_rs_c c + (a - co) mod kc_rs_c c = a"
    using div_mult_mod_eq [of "a - co" "kc_rs_c c"] by linarith
  then show "mem_update NR alpha amem bmem c cm a = cm a"
    using out [of "(a - co) div kc_rs_c c" "(a - co) mod kc_rs_c c"]
    by (auto simp: mem_update_def co Let_def split: operand.splits)
qed

text \<open>An instance of a run with a reordered B, with the block sizes the library uses for this data type.\<close>

interpretation example_run: reordered_run "example_args 20 100 9 REORDERED" "example_cntx 144 1024 2048 6 64"
  by unfold_locales (simp_all add: example_args_def example_cntx_def blksz_ok_def dlp_reorder_ref_blocks_legal_def packb_min_NR_def)

end
