(* ===== verification/Driver_Gemv.thy ===== *)
theory Driver_Gemv
  imports Gemm_Driver
begin

text \<open>
  The matrix-vector branches of the integer driver, and what a team of threads computes whichever
  branch its runs take.

  A matrix-vector run divides its one dimension over all threads, not over the tile grid: the first
  lines of \<open>gemv_n1\<close> and \<open>gemv_m1\<close> replace the number of ways and the work id of the thread. The
  lemmas show that this division is a partition too, and \<open>driver_steps\<close> joins the three
  branches of the driver: each element of C is touched by the calls of exactly one thread, and those
  calls walk the whole depth once.
\<close>

section \<open>The steps of a matrix-vector run\<close>

definition gemv_range :: "md_t \<Rightarrow> md_t \<Rightarrow> md_t \<Rightarrow> dlp_gemm_thrinfo_t \<Rightarrow> md_t \<times> md_t" where
  "gemv_range len bf ways thread =
     task_slice False len bf (if ways = 1 then thr_n_threads thread else ways) (thr_tid thread)"

definition whole_depth :: "gemm_args \<Rightarrow> (md_t \<times> md_t \<times> int32_t) list" where
  "whole_depth g = [(0, ga_k g, ga_beta g)]"

lemma wrap_steps:
  assumes "\<exists>s' xs. L = Some (s', xs) \<and> True \<and> depth_steps i j xs = Y" "\<And>s xs. depth_steps i j (F (s, xs)) = depth_steps i j xs"
  shows "\<exists>as. map_option F L = Some as \<and> depth_steps i j as = Y"
  using assms by auto

lemma gemv_n1_steps:
  fixes g :: gemm_args and thread :: dlp_gemm_thrinfo_t
  assumes "0 < bs_MC (cx_blksz lcntx)"
  defines "r \<equiv> gemv_range (ga_m g) 16 (thr_ic_ways thread) thread"
  shows "\<exists>as. gemv_n1 packa g lcntx thread = Some as \<and>
    depth_steps i j as = (if fst r \<le> i \<and> i < snd r \<and> j = 0 then whole_depth g else [])"
proof -
  let ?MC = "bs_MC (cx_blksz lcntx)" and ?ti = "snd (dlp_gemm_gen_dlp_task_ids (Some thread))"
  have rng: "dlp_thread_task_range (?ti\<lparr>n_way := (if n_way ?ti = 1 then thr_n_threads thread else n_way ?ti), work_id := thr_tid thread\<rparr>)
      (ga_m g) 16 False = (fst r, snd r)"
    by (simp add: task_range_eq_slice r_def gemv_range_def dlp_gemm_gen_dlp_task_ids_def Let_def)
  let ?hi = "\<lambda>ic. ic + dlp_min (snd r - ic) ?MC"
  let ?out = "\<lambda>ic. if ic \<le> i \<and> i < ?hi ic then (if j = 0 then whole_depth g else []) else []"
  have "\<exists>as. gemv_n1 packa g lcntx thread = Some as \<and>
      depth_steps i j as = concat (map ?out (loop_points (fst r) (snd r) (\<lambda>ic. ic + ?MC)))"
    unfolding gemv_n1_def Let_def rng prod.case
  proof (rule wrap_steps, rule for_loop_proj [where ?i0.0 = "fst r" and I = "\<lambda>_. True"], goal_cases)
    case (1 ic s)
    show ?case by (cases "ga_mtag_a g = PACK") (auto simp: depth_steps_def touches_def whole_depth_def)
  qed (use assms(1) in \<open>simp_all add: depth_steps_def split_beta\<close>)
  moreover have "concat (map ?out (loop_points (fst r) (snd r) (\<lambda>ic. ic + ?MC))) =
      (if fst r \<le> i \<and> i < snd r then (if j = 0 then whole_depth g else []) else [])"
    by (rule loop_points_cover [where s = "fst r"]) (simp_all add: assms(1) min_block)
  moreover have "\<dots> = (if fst r \<le> i \<and> i < snd r \<and> j = 0 then whole_depth g else [])" by simp
  ultimately show ?thesis by (simp only:)
qed

lemma gemv_m1_steps:
  fixes g :: gemm_args and thread :: dlp_gemm_thrinfo_t
  assumes "blksz_ok (cx_blksz lcntx)" "0 \<le> ga_n g"
  defines "r \<equiv> gemv_range (ga_n g) (bs_NR (cx_blksz lcntx)) (thr_jc_ways thread) thread"
  shows "\<exists>as. gemv_m1 packa_mfringe g lcntx thread = Some as \<and>
    depth_steps i j as = (if fst r \<le> j \<and> j < snd r \<and> i = 0 then whole_depth g else [])"
proof -
  let ?NC = "bs_NC (cx_blksz lcntx)" and ?NR = "bs_NR (cx_blksz lcntx)" and ?KC = "bs_KC (cx_blksz lcntx)"
  let ?tj = "fst (dlp_gemm_gen_dlp_task_ids (Some thread))"
  have rng: "dlp_thread_task_range (?tj\<lparr>n_way := (if n_way ?tj = 1 then thr_n_threads thread else n_way ?tj), work_id := thr_tid thread\<rparr>)
      (ga_n g) ?NR False = (fst r, snd r)"
    by (simp add: task_range_eq_slice r_def gemv_range_def dlp_gemm_gen_dlp_task_ids_def Let_def)
  have pos: "0 < ?NC" "0 < ?NR" "0 < ?KC" using assms(1) by auto
  have js: "0 \<le> fst r" using slice_start_ge_0 [OF assms(2) pos(2)] by (simp add: r_def gemv_range_def)
  let ?hi = "\<lambda>jc. jc + chunk_width g lcntx jc (snd r)"
  let ?out = "\<lambda>jc. if jc \<le> j \<and> j < ?hi jc then (if i = 0 then whole_depth g else []) else []"
  have packs: "\<exists>s' xs. for_loop 0 (ga_k g) (\<lambda>pc. pc + ?KC) (\<lambda>pc s. Some (s, [Pack_b (ga_rs_b g * pc + jc * ga_cs_b g) (w * pc) nc0 (dlp_min (ga_k g - pc) ?KC)])) s
      = Some (s', xs) \<and> True \<and> depth_steps i j xs = concat (map (\<lambda>_. []) (loop_points 0 (ga_k g) (\<lambda>pc. pc + ?KC)))" for jc w nc0 and s :: drv_buffers
    by (rule for_loop_proj [where ?i0.0 = 0 and I = "\<lambda>_. True"]) (use pos in \<open>simp_all add: depth_steps_def\<close>)
  have "\<exists>as. gemv_m1 packa_mfringe g lcntx thread = Some as \<and>
      depth_steps i j as = concat (map ?out (loop_points (fst r) (snd r) (jc_next g lcntx)))"
    unfolding gemv_m1_def Let_def rng prod.case
  proof (rule wrap_steps, rule for_loop_proj [where ?i0.0 = "fst r" and I = "\<lambda>_. True"], goal_cases)
    case (1 jc s)
    obtain p1 p2 nc0 p4 where p: "(if ga_mtag_b g = REORDERED
        then dlp_gemm_get_B_panel_reordered_start_offset_width jc (ga_n g) ?NC packb_min_NR (dlp_min (snd r - jc) ?NC)
        else (jc, 0, dlp_min (snd r - jc) ?NC, if ga_mtag_b g = PACK then dlp_make_multiple_of_n (dlp_min (snd r - jc) ?NC) packb_min_NR else 0))
        = (p1, p2, nc0, p4)" by (metis prod_cases4)
    have nc0: "nc0 = chunk_width g lcntx jc (snd r)" using p by (auto simp: chunk_width_def Let_def split: if_splits)
    show ?case unfolding p prod.case nc0 [symmetric] option.map
      using packs [of jc p4 nc0 "s\<lparr>have_b := True\<rparr>"]
      by (cases "ga_mtag_b g = PACK") (auto simp: depth_steps_def touches_def whole_depth_def)
  next
    case (2 jc)
    then show ?case using chunk_end(1) [OF pos(1)] js by simp
  qed (simp_all add: depth_steps_def split_beta)
  moreover have "concat (map ?out (loop_points (fst r) (snd r) (jc_next g lcntx))) =
      (if fst r \<le> j \<and> j < snd r then (if i = 0 then whole_depth g else []) else [])"
    by (rule loop_points_cover [where s = "fst r"]) (use chunk_end(1,2) [OF pos(1)] js in auto)
  moreover have "\<dots> = (if fst r \<le> j \<and> j < snd r \<and> i = 0 then whole_depth g else [])" by simp
  ultimately show ?thesis by (simp only:)
qed

section \<open>One driver, three branches\<close>

definition is_gemv :: "bool \<Rightarrow> gemm_args \<Rightarrow> bool" where
  "is_gemv kernels_zen4 g \<longleftrightarrow> kernels_zen4 \<and> (ga_m g = 1 \<or> ga_n g = 1)"

text \<open>The element of C is in the share of the thread: in its part of the rows or columns of a matrix-vector product,
  \<open>bf\<close> rows to a block, or in its tile of the grid.\<close>

definition share :: "bool \<Rightarrow> md_t \<Rightarrow> dlp_gemm_cntx_t \<Rightarrow> md_t \<Rightarrow> md_t \<Rightarrow> dlp_gemm_thrinfo_t \<Rightarrow> md_t \<Rightarrow> md_t \<Rightarrow> bool" where
  "share gemv bf lcntx m n thread i j \<longleftrightarrow>
     (if gemv
      then (if n = 1
            then let r = gemv_range m bf (thr_ic_ways thread) thread in fst r \<le> i \<and> i < snd r \<and> j = 0
            else let r = gemv_range n (bs_NR (cx_blksz lcntx)) (thr_jc_ways thread) thread in fst r \<le> j \<and> j < snd r \<and> i = 0)
      else in_tile (driver_tile thread m n lcntx) i j)"

definition run_owns :: "bool \<Rightarrow> gemm_args \<Rightarrow> dlp_gemm_cntx_t \<Rightarrow> dlp_gemm_thrinfo_t \<Rightarrow> md_t \<Rightarrow> md_t \<Rightarrow> bool" where
  "run_owns kernels_zen4 g lcntx = share (is_gemv kernels_zen4 g) 16 lcntx (ga_m g) (ga_n g)"

definition run_depth :: "bool \<Rightarrow> gemm_args \<Rightarrow> dlp_gemm_cntx_t \<Rightarrow> (md_t \<times> md_t \<times> int32_t) list" where
  "run_depth kernels_zen4 g lcntx = (if is_gemv kernels_zen4 g then whole_depth g else all_depth_steps g (bs_KC (cx_blksz lcntx)))"

lemma driver_steps:
  assumes "blksz_ok (cx_blksz lcntx)" "0 \<le> ga_n g" "ga_mtag_b g \<in> {PACK, REORDERED}"
  shows "\<exists>as. dlp_gemm_rowvar_u8s8s32o32 kernels_zen4 packa packa_mfringe g lcntx thread = Some as \<and>
    (\<forall>i j. depth_steps i j as = (if run_owns kernels_zen4 g lcntx thread i j then run_depth kernels_zen4 g lcntx else []))"
proof -
  let ?run = "dlp_gemm_rowvar_u8s8s32o32 kernels_zen4 packa packa_mfringe g lcntx thread"
  have MC: "0 < bs_MC (cx_blksz lcntx)" using assms(1) by auto
  have "\<exists>as. ?run = Some as \<and> depth_steps i j as = (if run_owns kernels_zen4 g lcntx thread i j then run_depth kernels_zen4 g lcntx else [])" for i j
    using gemv_n1_steps [OF MC, of packa g thread i j] gemv_m1_steps [OF assms(1,2), of packa_mfringe thread i j]
      gemm_5loop_steps [OF assms(1,2), of packa thread i j] assms(3)
    by (auto simp: dlp_gemm_rowvar_u8s8s32o32_def run_owns_def share_def run_depth_def is_gemv_def Let_def)
  then show ?thesis by (metis option.inject)
qed

section \<open>Teams\<close>

text \<open>What both decorators hand out: one thread per number, on a grid of ways.\<close>

definition is_team :: "dlp_gemm_thrinfo_t list \<Rightarrow> bool" where
  "is_team threads \<longleftrightarrow> (\<exists>nt ic jc mtag distr. 0 < ic \<and> 0 < jc \<and> ic * jc = nt \<and> length threads = nat nt \<and>
     (\<forall>t < nat nt. threads ! t = thread_setup nt ic jc (int t) mtag distr))"

lemma openmp_team:
  assumes "openmp_thread_decorator sfx mc_op env memory m n k mtag_a mtag_b rntm_g lcntx post_op_list = Some (comms, calls)"
    and "0 < m" "0 < n" "blksz_ok (cx_blksz lcntx)"
  shows "is_team (map rc_thread calls)"
proof -
  obtain nt ic jc where g: "get_threading_of sfx m n k rntm_g lcntx = (nt, ic, jc)" by (metis prod_cases3)
  then have ok: "0 < ic" "0 < jc" "ic * jc = nt"
    using get_threading_ok [OF assms(2-4), of sfx k rntm_g] by (simp_all add: ways_ok_def)
  from assms(1) g obtain mtag distr where "length calls = nat nt"
    "\<And>t. t < nat nt \<Longrightarrow> rc_thread (calls ! t) = thread_setup nt ic jc (int t) mtag distr"
    by (rule decorator_calls) blast
  then show ?thesis using ok unfolding is_team_def
    by (intro exI [of _ nt] exI [of _ ic] exI [of _ jc] exI [of _ mtag] exI [of _ distr]) simp
qed

lemma single_team:
  assumes "thread_decorator sfx mc_op env comm m n k mtag_a mtag_b rntm_g lcntx post_op_list = Some (comms, calls)"
  shows "is_team (map rc_thread calls)"
proof -
  have "map rc_thread calls = [\<lparr>thr_n_threads = 1, thr_tid = 0, thr_ic_ways = 1, thr_jc_ways = 1\<rparr>]"
    using assms by (auto simp: thread_decorator_def Let_def split: prod.splits option.splits)
  then show ?thesis unfolding is_team_def
    by (intro exI [of _ 1] exI [of _ UNPACKED] exI [of _ DEFAULT]) (simp add: thread_setup_def)
qed

lemma gemv_owner:
  assumes "0 < len" "0 < bf" "0 < ways" "ways \<le> nt" "0 \<le> x" "x < len"
  shows "\<exists>!u. 0 \<le> u \<and> u < nt \<and> (let r = task_slice False len bf (if ways = 1 then nt else ways) u in fst r \<le> x \<and> x < snd r)"
proof -
  let ?w = "if ways = 1 then nt else ways"
  let ?in = "\<lambda>u. fst (task_slice False len bf ?w u) \<le> x \<and> x < snd (task_slice False len bf ?w u)"
  have "\<exists>!u. ?in u" using assms by (intro high_edge.one_owner) simp_all
  moreover have "0 \<le> u \<and> u < nt" if "?in u" for u using high_edge.owner_in_range [of len bf ?w u x] that assms(4) by (auto split: if_splits)
  ultimately show ?thesis unfolding Let_def by (elim ex1E) blast
qed

lemma team_one_share:
  assumes "is_team threads" "0 < m" "0 < n" "blksz_ok (cx_blksz lcntx)" "0 < bf" "gemv \<Longrightarrow> m = 1 \<or> n = 1"
    and "0 \<le> i" "i < m" "0 \<le> j" "j < n"
  shows "\<exists>!t. t < length threads \<and> share gemv bf lcntx m n (threads ! t) i j"
proof -
  obtain nt ic jc mtag distr where tm: "0 < ic" "0 < jc" "ic * jc = nt" "length threads = nat nt"
    "\<And>t. t < nat nt \<Longrightarrow> threads ! t = thread_setup nt ic jc (int t) mtag distr" using assms(1) unfolding is_team_def by blast
  let ?f = "\<lambda>t. thr_tid (thread_setup nt ic jc t mtag distr)"
  let ?thr = "\<lambda>u. \<lparr>thr_n_threads = nt, thr_tid = u, thr_ic_ways = ic, thr_jc_ways = jc\<rparr>"
  let ?P = "\<lambda>u. share gemv bf lcntx m n (?thr u) i j"
  have seteq: "thread_setup nt ic jc t mtag distr = ?thr (?f t)" for t by (simp add: thread_setup_def)
  have le: "ic \<le> nt" "jc \<le> nt" using tm(1-3) mult_left_mono [of 1 jc ic] mult_right_mono [of 1 ic jc] by auto
  have NR: "0 < bs_NR (cx_blksz lcntx)" using assms(4) by auto
  have tile: "\<exists>!u. 0 \<le> u \<and> u < nt \<and> in_tile (driver_tile (?thr u) m n lcntx) i j"
    using one_tile_owner [of ic jc m n lcntx i j ?thr] tm assms by simp
  have rows: "\<exists>!u. 0 \<le> u \<and> u < nt \<and> ?P u" if "gemv" "n = 1"
  proof -
    have "j = 0" using that(2) assms(9,10) by simp
    then show ?thesis using gemv_owner [OF assms(2,5) tm(1) le(1) assms(7,8)] that
      by (cases "ic = 1") (simp_all add: share_def gemv_range_def Let_def)
  qed
  have cols: "\<exists>!u. 0 \<le> u \<and> u < nt \<and> ?P u" if "gemv" "n \<noteq> 1"
  proof -
    have "i = 0" using that assms(6-8) by simp
    then show ?thesis using gemv_owner [OF assms(3) NR tm(2) le(2) assms(9,10)] that
      by (cases "jc = 1") (simp_all add: share_def gemv_range_def Let_def)
  qed
  have ex1: "\<exists>!u. 0 \<le> u \<and> u < nt \<and> ?P u"
    using tile rows cols by (cases gemv; cases "n = 1") (simp_all add: share_def)
  show ?thesis
    by (rule reindex_owner [OF setup_tid_bij [of nt ic jc mtag distr] ex1]) (use tm seteq in auto)
qed

lemma share_inside:
  assumes "share gemv bf lcntx m n thread i j" "0 \<le> m" "0 \<le> n" "blksz_ok (cx_blksz lcntx)" "0 < bf" "gemv \<Longrightarrow> m = 1 \<or> n = 1"
  shows "0 \<le> i \<and> i < m \<and> 0 \<le> j \<and> j < n"
proof -
  have inside: "0 \<le> x \<and> x < l" if "fst (task_slice False l bf ways w) \<le> x" "x < snd (task_slice False l bf ways w)" "0 \<le> l" "0 < bf"
    for x l bf ways w
    using that high_edge.owner_in_range [OF that(1,2)] high_edge.slice_bounds [of l bf w ways] by auto
  have pos: "0 < bs_NR (cx_blksz lcntx)" "0 < bs_MR (cx_blksz lcntx)" using assms(4) by auto
  obtain tj ti where t: "dlp_gemm_gen_dlp_task_ids (Some thread) = (tj, ti)" by force
  consider "gemv" "n = 1" | "gemv" "n \<noteq> 1" "m = 1" | "\<not> gemv" using assms(6) by blast
  then show ?thesis
  proof cases
    case 1
    then show ?thesis using assms(1) inside [OF _ _ assms(2,5)] by (auto simp: share_def gemv_range_def Let_def)
  next
    case 2
    then show ?thesis using assms(1) inside [OF _ _ assms(3) pos(1)] by (auto simp: share_def gemv_range_def Let_def)
  next
    case 3
    then show ?thesis
      using assms(1) inside [OF _ _ assms(3) pos(1), of "n_way tj" "work_id tj" j] inside [OF _ _ assms(2) pos(2), of "n_way ti" "work_id ti" i]
      by (simp add: share_def in_tile_def driver_tile_def task_range_eq_slice t split_beta)
  qed
qed

lemma team_one_owner:
  assumes "is_team threads" "0 < ga_m g" "0 < ga_n g" "blksz_ok (cx_blksz lcntx)" "0 \<le> i" "i < ga_m g" "0 \<le> j" "j < ga_n g"
  shows "\<exists>!t. t < length threads \<and> run_owns kernels_zen4 g lcntx (threads ! t) i j"
  unfolding run_owns_def by (rule team_one_share) (use assms in \<open>auto simp: is_gemv_def\<close>)

lemma owner_inside:
  assumes "run_owns kernels_zen4 g lcntx thread i j" "0 \<le> ga_m g" "0 \<le> ga_n g" "blksz_ok (cx_blksz lcntx)"
  shows "0 \<le> i \<and> i < ga_m g \<and> 0 \<le> j \<and> j < ga_n g"
  using share_inside [OF assms(1) [unfolded run_owns_def]] assms(2-4) by (auto simp: is_gemv_def)

section \<open>What a team computes\<close>

context tile_kernel
begin

lemma run_depth_sum:
  assumes "0 < bs_KC (cx_blksz lcntx)" "0 < ga_k g"
  shows "fold (depth_step i j) (run_depth kernels_zen4 g lcntx) v = ga_beta g * v + alpha * (\<Sum>p \<in> {0..<ga_k g}. A i p * B p j)"
  using run_all_depth [OF assms, of i j v] by (simp add: run_depth_def whole_depth_def depth_step_def)

lemma team_product:
  assumes team: "is_team threads" and pos: "0 < ga_m g" "0 < ga_n g" "0 < ga_k g" "blksz_ok (cx_blksz lcntx)"
    and steps: "\<And>t i j. t < length threads \<Longrightarrow> depth_steps i j (trace t) =
        (if run_owns kernels_zen4 g lcntx (threads ! t) i j then run_depth kernels_zen4 g lcntx else [])"
    and sched: "interleaves sched (length threads) (kernel_calls \<circ> trace)"
  shows "fold kern (map snd sched) C i j =
    (if 0 \<le> i \<and> i < ga_m g \<and> 0 \<le> j \<and> j < ga_n g
     then ga_beta g * C i j + alpha * (\<Sum>p \<in> {0..<ga_k g}. A i p * B p j) else C i j)"
proof (cases "0 \<le> i \<and> i < ga_m g \<and> 0 \<le> j \<and> j < ga_n g")
  case True
  let ?own = "\<lambda>t. run_owns kernels_zen4 g lcntx (threads ! t) i j"
  have KC: "0 < bs_KC (cx_blksz lcntx)" using pos(4) by auto
  have "\<exists>!t. t < length threads \<and> ?own t" using team_one_owner [OF team pos(1,2,4)] True by simp
  then obtain t0 where t0: "t0 < length threads" "?own t0" and uniq: "\<And>t. t < length threads \<Longrightarrow> ?own t \<Longrightarrow> t = t0"
    by (elim ex1E) blast
  have other: "filter (\<lambda>c. touches c i j) ((kernel_calls \<circ> trace) t) = []" if "t < length threads" "t \<noteq> t0" for t
    using steps [OF that(1), of i j] uniq [OF that(1)] that(2) by (auto simp: depth_steps_def split: if_splits)
  have "map (\<lambda>c. (kc_pc c, kc_kc0 c, kc_beta0 c)) (filter (\<lambda>c. touches c i j) (map snd sched)) = run_depth kernels_zen4 g lcntx"
    using schedule_at [OF sched t0(1) other] steps [OF t0(1), of i j] t0(2) by (simp add: depth_steps_def)
  then show ?thesis using True run_at [of "map snd sched" C i j] run_depth_sum [OF KC pos(3)] by simp
next
  case False
  have "depth_steps i j (trace t) = []" if "t < length threads" for t
    using False owner_inside [of kernels_zen4 g lcntx "threads ! t" i j] steps [OF that] pos by auto
  then have "filter (\<lambda>c. touches c i j) (map snd sched) = []"
    by (intro schedule_none [OF sched]) (simp add: depth_steps_def)
  then have "fold kern (map snd sched) C i j = C i j" using run_at [of "map snd sched" C i j] by simp
  then show ?thesis using False by (simp only: if_False)
qed

end

text \<open>Every run ends, and in whatever order the kernel calls of the team are executed, the result is the product.\<close>

lemma team_computes:
  assumes "is_team threads" "0 < ga_m g" "0 < ga_n g" "0 < ga_k g" "blksz_ok (cx_blksz lcntx)" "ga_mtag_b g \<in> {PACK, REORDERED}"
    and kern: "tile_kernel alpha A B kern"
  shows "\<exists>trace. (\<forall>t < length threads.
        dlp_gemm_rowvar_u8s8s32o32 kernels_zen4 packa packa_mfringe g lcntx (threads ! t) = Some (trace t)) \<and>
      (\<forall>sched C i j. interleaves sched (length threads) (kernel_calls \<circ> trace) \<longrightarrow>
        fold kern (map snd sched) C i j =
          (if 0 \<le> i \<and> i < ga_m g \<and> 0 \<le> j \<and> j < ga_n g
           then ga_beta g * C i j + alpha * (\<Sum>p \<in> {0..<ga_k g}. A i p * B p j) else C i j))"
proof -
  define trace where "trace t = the (dlp_gemm_rowvar_u8s8s32o32 kernels_zen4 packa packa_mfringe g lcntx (threads ! t))" for t
  have run: "dlp_gemm_rowvar_u8s8s32o32 kernels_zen4 packa packa_mfringe g lcntx (threads ! t) = Some (trace t) \<and>
      (\<forall>i j. depth_steps i j (trace t) = (if run_owns kernels_zen4 g lcntx (threads ! t) i j then run_depth kernels_zen4 g lcntx else []))" for t
    using driver_steps [OF assms(5) less_imp_le [OF assms(3)] assms(6), of kernels_zen4 packa packa_mfringe "threads ! t"]
    by (auto simp: trace_def)
  show ?thesis
    using run tile_kernel.team_product [OF kern assms(1-5), of trace kernels_zen4] by (intro exI [of _ trace] conjI) blast+
qed

end
