(* ===== verification/Phases.thy ===== *)
theory Phases
  imports Loops
begin

text \<open>
  Schedules of threads that meet at barriers. The barriers a thread passes divide its run into phases. A schedule
  respects the barriers of a group when no thread acts in a phase before every thread of its group has entered
  the barrier that opens it, which is what \<^verbatim>\<open>Barrier\<close> proves of the code.

  The lemmas show what a client needs: along such a schedule the phases of a group never decrease, so when a
  thread acts in a phase, all of its group have finished the phases before and none has begun a later one.
\<close>

section \<open>Phases of a run\<close>

fun label :: "('a \<Rightarrow> bool) \<Rightarrow> nat \<Rightarrow> 'a list \<Rightarrow> (nat \<times> 'a) list" where
  "label w e [] = []"
| "label w e (a # as) = (e, a) # label w (if w a then Suc e else e) as"

lemma label_append: "label w e (xs @ ys) = label w e xs @ label w (e + length (filter w xs)) ys"
  by (induction xs arbitrary: e) auto

lemma label_in: "(length (filter w xs), a) \<in> set (label w 0 (xs @ a # ys))"
  by (simp add: label_append)

lemma label_at:
  assumes "(e, a) \<in> set (label w e0 as)"
  shows "\<exists>xs ys. as = xs @ a # ys \<and> e = e0 + length (filter w xs)"
  using assms
proof (induction as arbitrary: e0)
  case (Cons b as)
  show ?case
  proof (cases "(e, a) = (e0, b)")
    case True
    then show ?thesis by (intro exI [of _ "[]"] exI [of _ as]) simp
  next
    case False
    then obtain xs ys where x: "as = xs @ a # ys" "e = (if w b then Suc e0 else e0) + length (filter w xs)" using Cons by fastforce
    then show ?thesis by (intro exI [of _ "b # xs"] exI [of _ ys]) simp
  qed
qed simp

lemma label_filter:
  assumes "\<And>a. w a \<Longrightarrow> P a"
  shows "label w e (filter P as) = filter (\<lambda>x. P (snd x)) (label w e as)"
  using assms by (induction as arbitrary: e) auto

lemma label_quiet: "(\<forall>a \<in> set as. \<not> w a) \<Longrightarrow> set (label w e as) = (\<lambda>a. (e, a)) ` set as"
  by (induction as) auto

text \<open>A run made of blocks, each a barrier, an opening part, a barrier and a closing part.\<close>

lemma label_blocks:
  assumes "\<And>b. b \<in> set bs \<Longrightarrow> (\<forall>a \<in> set (pk b). \<not> w a) \<and> (\<forall>a \<in> set (wk b). \<not> w a)" "w bar" "\<not> w a"
  shows "(e, a) \<in> set (label w e0 (concat (map (\<lambda>b. [bar] @ pk b @ [bar] @ wk b) bs))) \<longleftrightarrow>
    (\<exists>q < length bs. e = e0 + 2 * q + 1 \<and> a \<in> set (pk (bs ! q)) \<or> e = e0 + 2 * q + 2 \<and> a \<in> set (wk (bs ! q)))"
  using assms(1)
proof (induction bs arbitrary: e0)
  case (Cons b bs)
  have q: "filter w (pk b) = []" "filter w (wk b) = []" using Cons.prems [of b] by (simp_all add: filter_empty_conv)
  let ?here = "e = e0 + 1 \<and> a \<in> set (pk b) \<or> e = e0 + 2 \<and> a \<in> set (wk b)"
  let ?at = "\<lambda>bs e0 q. e = e0 + 2 * q + 1 \<and> a \<in> set (pk (bs ! q)) \<or> e = e0 + 2 * q + 2 \<and> a \<in> set (wk (bs ! q))"
  have "(e, a) \<in> set (label w e0 ([bar] @ pk b @ [bar] @ wk b)) \<longleftrightarrow> ?here"
    using assms(2,3) Cons.prems [of b] by (auto simp: label_append q label_quiet)
  moreover have "(e, a) \<in> set (label w (e0 + 2) (concat (map (\<lambda>b. [bar] @ pk b @ [bar] @ wk b) bs))) \<longleftrightarrow> (\<exists>q < length bs. ?at bs (e0 + 2) q)"
    by (rule Cons.IH, rule Cons.prems) simp
  moreover have "(\<exists>q < length (b # bs). ?at (b # bs) e0 q) \<longleftrightarrow> ?here \<or> (\<exists>q < length bs. ?at bs (e0 + 2) q)"
    unfolding length_Cons Ex_less_Suc2 by simp
  moreover have "length (filter w ([bar] @ pk b @ [bar] @ wk b)) = 2" using assms(2) by (simp add: q)
  ultimately show ?case unfolding list.map concat.simps label_append set_append Un_iff by simp
qed simp

section \<open>Schedules that respect barriers\<close>

definition waits_of :: "('a \<Rightarrow> bool) \<Rightarrow> nat \<Rightarrow> (nat \<times> 'a) list \<Rightarrow> nat" where
  "waits_of w t sched = length (filter w (map snd (filter (\<lambda>e. fst e = t) sched)))"

definition respects_barriers :: "('a \<Rightarrow> bool) \<Rightarrow> (nat \<Rightarrow> 'g) \<Rightarrow> nat \<Rightarrow> (nat \<times> 'a) list \<Rightarrow> bool" where
  "respects_barriers w grp N sched \<longleftrightarrow>
     (\<forall>p < length sched. \<forall>u < N. grp u = grp (fst (sched ! p)) \<longrightarrow> waits_of w (fst (sched ! p)) (take p sched) \<le> waits_of w u (take p sched))"

lemma waits_of_append: "waits_of w t (xs @ ys) = waits_of w t xs + waits_of w t ys"
  by (simp add: waits_of_def)

lemma respectsD:
  assumes "respects_barriers w grp N (xs @ (t, a) # ys)" "u < N" "grp u = grp t"
  shows "waits_of w t xs \<le> waits_of w u xs"
  using assms unfolding respects_barriers_def by (force dest: spec [of _ "length xs"])

text \<open>Phases never decrease.\<close>

lemma phases_ordered:
  assumes "respects_barriers w grp N (xs @ (t, a) # ys @ (u, b) # zs)" "u < N" "grp u = grp t"
  shows "waits_of w t xs \<le> waits_of w u (xs @ (t, a) # ys)"
proof -
  have "waits_of w t xs \<le> waits_of w u xs" using respectsD [OF assms] .
  also have "\<dots> \<le> waits_of w u (xs @ (t, a) # ys)" by (simp add: waits_of_append)
  finally show ?thesis .
qed

lemma phase_label:
  assumes "interleaves (xs @ (t, a) # ys) N trace"
  shows "t < N" "(waits_of w t xs, a) \<in> set (label w 0 (trace t))"
proof -
  show t: "t < N" using assms by (auto simp: interleaves_def)
  have "map snd (filter (\<lambda>e. fst e = t) (xs @ (t, a) # ys)) = trace t" using assms t unfolding interleaves_def by blast
  then have "trace t = map snd (filter (\<lambda>e. fst e = t) xs) @ a # map snd (filter (\<lambda>e. fst e = t) ys)" by simp
  then show "(waits_of w t xs, a) \<in> set (label w 0 (trace t))"
    using label_in [of w "map snd (filter (\<lambda>e. fst e = t) xs)" a] by (simp only: waits_of_def)
qed

text \<open>An action of a phase that a thread has left is in the schedule so far.\<close>

lemma split_run:
  "map snd (filter (\<lambda>e. fst e = u) xs) = as @ a # bs \<Longrightarrow> \<exists>p r. xs = p @ (u, a) # r \<and> map snd (filter (\<lambda>e. fst e = u) p) = as"
proof (induction xs arbitrary: as)
  case (Cons x xs)
  show ?case
  proof (cases "fst x = u \<and> as = []")
    case True
    then have "x # xs = [] @ (u, a) # xs" using Cons.prems by (cases x) auto
    then show ?thesis using True by (metis filter.simps(1) list.simps(8))
  next
    case False
    then obtain as' where as: "map snd (filter (\<lambda>e. fst e = u) xs) = as' @ a # bs" "as = (if fst x = u then snd x # as' else as')"
      using Cons.prems by (cases as) (auto split: if_splits)
    obtain p r where "xs = p @ (u, a) # r" "map snd (filter (\<lambda>e. fst e = u) p) = as'" using Cons.IH [OF as(1)] by blast
    then show ?thesis using as(2) by (intro exI [of _ "x # p"] exI [of _ r]) simp
  qed
qed simp

lemma past_action:
  assumes "interleaves (xs @ ys) N trace" "u < N" "(e, a) \<in> set (label w 0 (trace u))" "e < waits_of w u xs"
  shows "\<exists>p r. xs = p @ (u, a) # r \<and> waits_of w u p = e"
proof -
  let ?pr = "\<lambda>s. map snd (filter (\<lambda>e. fst e = u) s)"
  have "trace u = ?pr xs @ ?pr ys" using assms(1,2) by (simp add: interleaves_def)
  then have "(e, a) \<in> set (label w 0 (?pr xs)) \<or> (e, a) \<in> set (label w (waits_of w u xs) (?pr ys))"
    using assms(3) by (simp add: label_append waits_of_def)
  moreover have "(e, a) \<notin> set (label w (waits_of w u xs) (?pr ys))" using label_at assms(4) by fastforce
  ultimately obtain as bs where "?pr xs = as @ a # bs" "e = length (filter w as)" using label_at [of e a w 0 "?pr xs"] by auto
  then show ?thesis using split_run [of u xs as a bs] by (auto simp: waits_of_def)
qed

section \<open>A schedule that respects barriers exists\<close>

text \<open>The threads take turns, one phase each. \<open>chunks\<close> cuts a run after every barrier.\<close>

fun chunks :: "('a \<Rightarrow> bool) \<Rightarrow> 'a list \<Rightarrow> 'a list list" where
  "chunks w [] = [[]]"
| "chunks w (a # as) = (if w a then [a] # chunks w as else (case chunks w as of [] \<Rightarrow> [[a]] | c # cs \<Rightarrow> (a # c) # cs))"

definition chunk :: "('a \<Rightarrow> bool) \<Rightarrow> 'a list \<Rightarrow> nat \<Rightarrow> 'a list" where
  "chunk w as e = (if e < length (chunks w as) then chunks w as ! e else [])"

definition phase_by_phase :: "('a \<Rightarrow> bool) \<Rightarrow> nat \<Rightarrow> (nat \<Rightarrow> 'a list) \<Rightarrow> nat \<Rightarrow> (nat \<times> 'a) list" where
  "phase_by_phase w N trace E = concat (map (\<lambda>e. concat (map (\<lambda>t. map (Pair t) (chunk w (trace t) e)) [0..<N])) [0..<E])"

lemma chunks_length: "length (chunks w as) = Suc (length (filter w as))"
  by (induction as) (auto split: list.splits)

lemma chunk_Cons:
  "chunk w (a # as) e = (if w a then (case e of 0 \<Rightarrow> [a] | Suc e \<Rightarrow> chunk w as e) else (if e = 0 then a # chunk w as 0 else chunk w as e))"
  using chunks_length [of w as] by (cases "chunks w as"; cases e) (auto simp: chunk_def)

lemma chunk_Nil [simp]: "chunk w [] e = []"
  by (simp add: chunk_def)

lemma concat_chunks: "length (filter w as) < E \<Longrightarrow> concat (map (chunk w as) [0..<E]) = as"
proof (induction as arbitrary: E)
  case (Cons a as)
  obtain E' where E: "E = Suc E'" using Cons.prems by (cases E) auto
  have up: "[0..<Suc E'] = 0 # map Suc [0..<E']" by (simp add: upt_conv_Cons map_Suc_upt del: upt_Suc)
  show ?case
  proof (cases "w a")
    case True
    then show ?thesis using Cons.IH [of E'] Cons.prems unfolding E up by (simp add: chunk_Cons o_def)
  next
    case False
    then show ?thesis using Cons.IH [of E] Cons.prems unfolding E up by (simp add: chunk_Cons o_def)
  qed
qed (simp add: concat_eq_Nil_conv)

text \<open>A barrier is the last action of its chunk, and the first chunks hold one each, as far as there are any.\<close>

lemma chunk_quiet: "chunk w as e = xs @ a # ys \<Longrightarrow> filter w xs = []"
proof (induction as arbitrary: e xs)
  case (Cons b as)
  show ?case
  proof (cases e)
    case 0
    then show ?thesis using Cons by (cases xs) (auto simp: chunk_Cons split: if_splits)
  next
    case (Suc e')
    then show ?thesis using Cons.prems Cons.IH by (simp add: chunk_Cons split: if_splits)
  qed
qed simp

lemma chunk_waits: "length (filter w (chunk w as e)) = (if e < length (filter w as) then 1 else 0)"
proof (induction as arbitrary: e)
  case (Cons a as)
  then show ?case by (cases e) (simp_all add: chunk_Cons del: length_0_conv)
qed simp

lemma chunks_waits: "length (filter w (concat (map (chunk w as) [0..<e]))) = min e (length (filter w as))"
  by (induction e) (auto simp: chunk_waits)

lemma concat_split:
  "concat (map f [0..<n]) = xs @ y # ys \<Longrightarrow> \<exists>i < n. \<exists>r1 r2. f i = r1 @ y # r2 \<and> xs = concat (map f [0..<i]) @ r1"
proof (induction n arbitrary: ys)
  case (Suc n)
  then have "concat (map f [0..<n]) @ f n = xs @ y # ys" by simp
  then consider us where "concat (map f [0..<n]) = xs @ y # us" | us where "xs = concat (map f [0..<n]) @ us" "f n = us @ y # ys"
    by (auto simp: append_eq_append_conv2 append_eq_Cons_conv)
  then show ?case
  proof cases
    case 1
    then show ?thesis using Suc.IH [OF 1] less_Suc_eq by metis
  qed blast
qed simp

lemma proj_threads:
  "map snd (filter (\<lambda>e. fst e = t) (concat (map (\<lambda>t. map (Pair t) (f t)) [0..<n]))) = (if t < n then f t else [])"
proof (induction n)
  case (Suc n)
  have "filter (\<lambda>e. fst e = t) (map (Pair n) (f n)) = (if t = n then map (Pair n) (f n) else [])" by (induction "f n") (auto simp: filter_map o_def)
  then show ?case using Suc by (auto simp: less_Suc_eq o_def)
qed simp

lemma proj_phases:
  "t < N \<Longrightarrow> map snd (filter (\<lambda>e. fst e = t) (phase_by_phase w N trace E)) = concat (map (chunk w (trace t)) [0..<E])"
  unfolding phase_by_phase_def by (induction E) (simp_all add: proj_threads)

lemma phase_by_phase_interleaves:
  assumes "\<And>t. t < N \<Longrightarrow> length (filter w (trace t)) < E"
  shows "interleaves (phase_by_phase w N trace E) N trace"
proof -
  have "fst e < N" if "e \<in> set (phase_by_phase w N trace E)" for e using that by (auto simp: phase_by_phase_def)
  then show ?thesis using assms by (simp add: interleaves_def proj_phases concat_chunks)
qed

lemma phase_by_phase_respects:
  assumes "\<And>t u. t < N \<Longrightarrow> u < N \<Longrightarrow> grp u = grp t \<Longrightarrow> length (filter w (trace u)) = length (filter w (trace t))"
  shows "respects_barriers w grp N (phase_by_phase w N trace E)"
  unfolding respects_barriers_def
proof (intro allI impI)
  fix p u assume p: "p < length (phase_by_phase w N trace E)" and u: "u < N" "grp u = grp (fst (phase_by_phase w N trace E ! p))"
  define xs where "xs = take p (phase_by_phase w N trace E)"
  obtain t a where ta: "phase_by_phase w N trace E ! p = (t, a)" by force
  have "phase_by_phase w N trace E = xs @ (t, a) # drop (Suc p) (phase_by_phase w N trace E)" using p ta id_take_nth_drop unfolding xs_def by metis
  from concat_split [OF this [unfolded phase_by_phase_def]] obtain e r1 r2 where
    e: "concat (map (\<lambda>t. map (Pair t) (chunk w (trace t) e)) [0..<N]) = r1 @ (t, a) # r2" "xs = phase_by_phase w N trace e @ r1"
    unfolding phase_by_phase_def by blast
  obtain v s1 s2 where v: "v < N" "map (Pair v) (chunk w (trace v) e) = s1 @ (t, a) # s2"
    "r1 = concat (map (\<lambda>t. map (Pair t) (chunk w (trace t) e)) [0..<v]) @ s1" using concat_split [OF e(1)] by blast
  obtain c1 c2 where c: "chunk w (trace v) e = c1 @ a # c2" "s1 = map (Pair v) c1" "v = t" using v(2) by (auto simp: map_eq_append_conv map_eq_Cons_conv)
  have "waits_of w t s1 = 0" using chunk_quiet [OF c(1)] unfolding c(2,3) by (simp add: waits_of_def filter_map o_def)
  then have "waits_of w t r1 = 0" unfolding v(3) waits_of_append by (simp add: waits_of_def proj_threads c(3))
  then have "waits_of w t xs \<le> min e (length (filter w (trace t)))"
    using c(3) v(1) by (simp add: e(2) waits_of_append) (simp add: waits_of_def proj_phases chunks_waits)
  also have "\<dots> \<le> waits_of w u xs"
    using assms [of t u] u v(1) c(3) ta by (simp add: e(2) waits_of_append) (simp add: waits_of_def proj_phases chunks_waits)
  finally show "waits_of w (fst (phase_by_phase w N trace E ! p)) (take p (phase_by_phase w N trace E)) \<le> waits_of w u (take p (phase_by_phase w N trace E))"
    by (simp add: ta xs_def)
qed

end
