(* ===== verification/Driver_Pack.thy ===== *)
theory Driver_Pack
  imports Driver_Reorder Driver_Gemv Phases
begin

text \<open>
  The driver on memory when it packs B itself. The threads of a column group share one pack buffer: for every
  block of B each packs a slice of the columns, between two barriers, and then all multiply with the whole block.
  The next block overwrites the buffer.

  A run is followed by its phases (\<^verbatim>\<open>Phases\<close>): block number \<open>q\<close> is packed in phase \<open>2 * q + 1\<close> and used in
  phase \<open>2 * q + 2\<close>. The lemmas show that in every schedule that respects the barriers of the groups, whenever a kernel
  call starts, the buffer of its group holds exactly the block the call was made for.
\<close>

section \<open>The actions that matter\<close>

fun is_wait :: "action \<Rightarrow> bool" where
  "is_wait (Wait _ _) \<longleftrightarrow> True" | "is_wait _ \<longleftrightarrow> False"

fun essential :: "action \<Rightarrow> bool" where
  "essential (Wait _ _) \<longleftrightarrow> True" | "essential (Pack_b _ _ _ _) \<longleftrightarrow> True" | "essential (Kernel _) \<longleftrightarrow> True" | "essential _ \<longleftrightarrow> False"

lemma kernel_calls_essential: "kernel_calls (filter essential as) = kernel_calls as"
  by (induction as rule: kernel_calls.induct) simp_all

lemma depth_steps_essential: "filter essential as = filter essential bs \<Longrightarrow> depth_steps i j as = depth_steps i j bs"
  unfolding depth_steps_def by (subst (1 2) kernel_calls_essential [symmetric]) simp

lemma wait_essential: "is_wait a \<Longrightarrow> essential a"
  by (cases a) auto

section \<open>A run by its blocks\<close>

locale packed_run =
  fixes g :: gemm_args and lcntx :: dlp_gemm_cntx_t
  assumes ok: "blksz_ok (cx_blksz lcntx)"
    and legal: "dlp_reorder_ref_blocks_legal (bs_NR (cx_blksz lcntx)) packb_min_NR (bs_KC (cx_blksz lcntx)) 4"
    and plain: "ga_mtag_a g = UNPACKED" "ga_mtag_b g = PACK" "ga_c_downscale g = DLP_S32"
    and dims: "0 \<le> ga_m g" "0 \<le> ga_n g"
begin

abbreviation "NR \<equiv> bs_NR (cx_blksz lcntx)"
abbreviation "NC \<equiv> bs_NC (cx_blksz lcntx)"
abbreviation "KC \<equiv> bs_KC (cx_blksz lcntx)"
abbreviation "MC \<equiv> bs_MC (cx_blksz lcntx)"

lemma sizes: "0 < NR" "0 < NC" "0 < KC" "0 < MC" "0 < bs_MR (cx_blksz lcntx)"
  using ok by auto

definition kernel_at :: "md_t \<Rightarrow> md_t \<Rightarrow> md_t \<Rightarrow> md_t \<Rightarrow> md_t \<Rightarrow> md_t \<Rightarrow> md_t \<Rightarrow> kernel_call" where
  "kernel_at jc nc0 pc kc0 ic mc0 jr =
     \<lparr>kc_mc0 = mc0, kc_nr0 = dlp_min (nc0 - jr) NR, kc_kc0 = kc0, kc_pc = pc,
      kc_a = In_matrix (ga_rs_a g * ic + ga_cs_a g * pc), kc_a_strides = (ga_rs_a g, 4, ga_rs_a g),
      kc_b = In_buffer (jr * dlp_make_multiple_of_n kc0 4), kc_b_panel = (0, 0), kc_c = C_matrix (jc + ga_rs_c g * ic + jr),
      kc_rs_c = ga_rs_c g, kc_beta0 = (if pc = 0 then ga_beta g else 1),
      kc_attr = \<lparr>post_op_c_i = ic, post_op_c_j = jc + jr, is_first_k = (pc = 0), is_last_k = (pc + KC \<ge> ga_k g)\<rparr>\<rparr>"

text \<open>The part of a block: its columns and depth, the slice a thread packs, and the kernel calls of a thread.\<close>

definition cols :: "md_t \<Rightarrow> md_t \<Rightarrow> md_t" where "cols je jc = dlp_min (je - jc) NC"

definition depth :: "md_t \<Rightarrow> md_t" where "depth pc = dlp_min (ga_k g - pc) KC"

definition packs :: "dlp_task_id_t \<Rightarrow> md_t \<Rightarrow> md_t \<times> md_t \<Rightarrow> action list" where
  "packs ti je blk = (case blk of (jc, pc) \<Rightarrow>
     let r = task_slice False (cols je jc) NR (n_way ti) (work_id ti)
     in if fst r < snd r
        then [Pack_b (ga_rs_b g * pc + ga_cs_b g * jc + ga_cs_b g * fst r) (fst r * dlp_make_multiple_of_n (depth pc) 4) (snd r - fst r) (depth pc)]
        else [])"

definition works :: "md_t \<Rightarrow> md_t \<Rightarrow> md_t \<Rightarrow> md_t \<times> md_t \<Rightarrow> action list" where
  "works is ie je blk = (case blk of (jc, pc) \<Rightarrow>
     concat (map (\<lambda>ic. concat (map (\<lambda>jr. [Kernel (kernel_at jc (cols je jc) pc (depth pc) ic (dlp_min (ie - ic) MC) jr)])
       (loop_points 0 (cols je jc) (\<lambda>jr. jr + NR)))) (loop_points is ie (\<lambda>ic. ic + MC))))"

definition blocks :: "md_t \<Rightarrow> md_t \<Rightarrow> (md_t \<times> md_t) list" where
  "blocks js je = concat (map (\<lambda>jc. map (Pair jc) (loop_points 0 (ga_k g) (\<lambda>pc. pc + KC))) (loop_points js je (\<lambda>jc. jc + NC)))"

lemma jc_next_eq: "jc_next g lcntx = (\<lambda>jc. jc + NC)"
  by (auto simp: jc_next_def plain Let_def)

lemma jr_run:
  "jr_loop g lcntx jc nc0 pc kc0 ic mc0 (In_matrix (ga_rs_a g * ic + ga_cs_a g * pc), ga_rs_a g, 4, ga_rs_a g) (In_buffer 0)
     (C_matrix (jc + ga_rs_c g * ic)) (ga_rs_c g) s =
   Some (s, concat (map (\<lambda>jr. [Kernel (kernel_at jc nc0 pc kc0 ic mc0 jr)]) (loop_points 0 nc0 (\<lambda>jr. jr + NR))))"
proof -
  have "\<exists>s' xs. jr_loop g lcntx jc nc0 pc kc0 ic mc0 (In_matrix (ga_rs_a g * ic + ga_cs_a g * pc), ga_rs_a g, 4, ga_rs_a g) (In_buffer 0)
      (C_matrix (jc + ga_rs_c g * ic)) (ga_rs_c g) s = Some (s', xs) \<and> s' = s \<and>
      xs = concat (map (\<lambda>jr. [Kernel (kernel_at jc nc0 pc kc0 ic mc0 jr)]) (loop_points 0 nc0 (\<lambda>jr. jr + NR)))"
    unfolding jr_loop_def Let_def
    by (rule for_loop_proj [where I = "\<lambda>s'. s' = s" and ?i0.0 = 0])
      (use sizes in \<open>auto simp: kernel_at_def o_offset_def c_offset_def\<close>)
  then show ?thesis by blast
qed

lemma ic_run:
  "ic_loop packa g lcntx is ie jc (cols je jc) pc (depth pc) (In_buffer 0) (C_matrix jc) (ga_rs_c g) s = Some (s, works is ie je (jc, pc))"
proof -
  let ?out = "\<lambda>ic. concat (map (\<lambda>jr. [Kernel (kernel_at jc (cols je jc) pc (depth pc) ic (dlp_min (ie - ic) MC) jr)])
       (loop_points 0 (cols je jc) (\<lambda>jr. jr + NR)))"
  have "\<exists>s' xs. ic_loop packa g lcntx is ie jc (cols je jc) pc (depth pc) (In_buffer 0) (C_matrix jc) (ga_rs_c g) s = Some (s', xs) \<and> s' = s \<and>
      xs = concat (map ?out (loop_points is ie (\<lambda>ic. ic + MC)))"
    unfolding ic_loop_def Let_def
  proof (rule for_loop_proj [where I = "\<lambda>s'. s' = s" and ?i0.0 = "is"])
    fix ic s' assume "s' = s"
    let ?mc0 = "dlp_min (ie - ic) MC"
    have a: "a_operand packa g lcntx pc (depth pc) ic ?mc0 s = (s, [], (In_matrix (ga_rs_a g * ic + ga_cs_a g * pc), ga_rs_a g, 4, ga_rs_a g))"
      by (simp add: a_operand_def plain Let_def)
    have d: "\<not> downscaled (ga_c_downscale g)" by (simp add: downscaled_def plain)
    show "\<exists>s'' xs. (case a_operand packa g lcntx pc (depth pc) ic ?mc0 s' of (s, acts, a_use) \<Rightarrow>
        map_option (\<lambda>(s', calls). (s', acts @ calls))
          (jr_loop g lcntx jc (cols je jc) pc (depth pc) ic ?mc0 a_use (In_buffer 0)
            (if downscaled (ga_c_downscale g) then c_offset (C_matrix jc) (ga_rs_c g * (ic - is)) else c_offset (C_matrix jc) (ga_rs_c g * ic))
            (ga_rs_c g) s)) = Some (s'', xs) \<and> s'' = s \<and> xs = ?out ic"
      by (simp add: \<open>s' = s\<close> a d c_offset_def jr_run)
  qed (use sizes in simp_all)
  then show ?thesis by (simp add: works_def)
qed

lemma cols_pos: "jc < je \<Longrightarrow> 0 < cols je jc"
  using sizes by (simp add: cols_def dlp_min_def)

lemma depth_pos: "pc < ga_k g \<Longrightarrow> 0 < depth pc"
  using sizes by (simp add: depth_def dlp_min_def)

lemma slice_in:
  assumes "0 \<le> x" "fst (task_slice False x NR ways wid) < snd (task_slice False x NR ways wid)"
  shows "0 \<le> fst (task_slice False x NR ways wid)" "snd (task_slice False x NR ways wid) \<le> x"
  using assms high_edge.slice_bounds [OF assms(1) sizes(1), of wid ways] high_edge.range_retired [of wid ways x NR]
  by (cases "0 \<le> wid \<and> wid < ways"; auto)+

lemma b_run:
  assumes "0 \<le> jc" "jc < je"
  shows "\<exists>s' acts. b_operand g lcntx tj ti jc (cols je jc) a b c pc (depth pc) s = (s', acts, In_buffer 0) \<and>
    filter essential acts = [Wait (work_id tj) (ocomm_id ti)] @ packs ti je (jc, pc) @ [Wait (work_id tj) (ocomm_id ti)]"
proof -
  obtain st en where r: "task_slice False (cols je jc) NR (n_way ti) (work_id ti) = (st, en)" by force
  have "st < jc + cols je jc" if "st < en"
    using slice_in [of "cols je jc" "n_way ti" "work_id ti"] that assms cols_pos [OF assms(2)] by (simp add: r)
  then show ?thesis by (auto simp: b_operand_def plain Let_def packs_def task_range_eq_slice r)
qed

lemma pc_run:
  assumes "0 \<le> jc" "jc < je"
  shows "\<exists>s' xs. pc_loop packa g lcntx tj ti is ie jc (cols je jc) a b c (C_matrix jc) (ga_rs_c g) s = Some (s', xs) \<and>
    filter essential xs = concat (map (\<lambda>pc. [Wait (work_id tj) (ocomm_id ti)] @ packs ti je (jc, pc) @ [Wait (work_id tj) (ocomm_id ti)] @ works is ie je (jc, pc))
      (loop_points 0 (ga_k g) (\<lambda>pc. pc + KC)))"
proof -
  have ess: "filter essential (works is ie je (jc, pc)) = works is ie je (jc, pc)" for pc
    by (auto simp: works_def filter_id_conv)
  have "\<exists>s' xs. pc_loop packa g lcntx tj ti is ie jc (cols je jc) a b c (C_matrix jc) (ga_rs_c g) s = Some (s', xs) \<and> True \<and>
    filter essential xs = concat (map (\<lambda>pc. [Wait (work_id tj) (ocomm_id ti)] @ packs ti je (jc, pc) @ [Wait (work_id tj) (ocomm_id ti)] @ works is ie je (jc, pc))
      (loop_points 0 (ga_k g) (\<lambda>pc. pc + KC)))"
    unfolding pc_loop_def Let_def
  proof (rule for_loop_proj [where I = "\<lambda>_. True" and ?i0.0 = 0])
    fix pc s assume "0 \<le> pc" "pc < ga_k g"
    obtain s1 acts where b: "b_operand g lcntx tj ti jc (cols je jc) a b c pc (depth pc) s = (s1, acts, In_buffer 0)"
      "filter essential acts = [Wait (work_id tj) (ocomm_id ti)] @ packs ti je (jc, pc) @ [Wait (work_id tj) (ocomm_id ti)]"
      using b_run [OF assms] by blast
    show "\<exists>s' xs. (case b_operand g lcntx tj ti jc (cols je jc) a b c pc (dlp_min (ga_k g - pc) KC) s of (s, acts, b_use) \<Rightarrow>
        map_option (\<lambda>(s', calls). (s', acts @ calls))
          (ic_loop packa g lcntx is ie jc (cols je jc) pc (dlp_min (ga_k g - pc) KC) b_use (C_matrix jc) (ga_rs_c g) s)) = Some (s', xs) \<and> True \<and>
        filter essential xs = [Wait (work_id tj) (ocomm_id ti)] @ packs ti je (jc, pc) @ [Wait (work_id tj) (ocomm_id ti)] @ works is ie je (jc, pc)"
      unfolding depth_def [symmetric] b prod.case ic_run by (simp add: b(2) ess)
  qed (use sizes in simp_all)
  then show ?thesis by blast
qed

lemma jc_run:
  assumes "0 \<le> js"
  shows "\<exists>s' xs. jc_loop packa g lcntx tj ti ((js, je), (is, ie)) s = Some (s', xs) \<and>
    filter essential xs = concat (map (\<lambda>blk. [Wait (work_id tj) (ocomm_id ti)] @ packs ti je blk @ [Wait (work_id tj) (ocomm_id ti)] @ works is ie je blk)
      (blocks js je))"
proof -
  let ?blk = "\<lambda>blk. [Wait (work_id tj) (ocomm_id ti)] @ packs ti je blk @ [Wait (work_id tj) (ocomm_id ti)] @ works is ie je blk"
  have "\<exists>s' xs. jc_loop packa g lcntx tj ti ((js, je), (is, ie)) s = Some (s', xs) \<and> True \<and>
    filter essential xs = concat (map (\<lambda>jc. concat (map (\<lambda>pc. ?blk (jc, pc)) (loop_points 0 (ga_k g) (\<lambda>pc. pc + KC)))) (loop_points js je (\<lambda>jc. jc + NC)))"
    unfolding jc_loop_def Let_def prod.case jc_next_eq
  proof (rule for_loop_proj [where I = "\<lambda>_. True" and ?i0.0 = js])
    fix jc s assume jc: "js \<le> jc" "jc < je"
    have d: "\<not> downscaled DLP_S32" by (simp add: downscaled_def)
    have c: "c_operand_jc g lcntx is ie jc je s = (s, [], C_matrix jc)" by (simp add: c_operand_jc_def plain)
    obtain s' xs where x: "pc_loop packa g lcntx tj ti is ie jc (cols je jc) jc 0 0 (C_matrix jc) (ga_rs_c g) s = Some (s', xs)"
      "filter essential xs = concat (map (\<lambda>pc. ?blk (jc, pc)) (loop_points 0 (ga_k g) (\<lambda>pc. pc + KC)))"
      using pc_run [of jc je packa tj ti "is" ie jc 0 0 s] jc assms by auto
    show "\<exists>s' xs. (case if ga_mtag_b g = REORDERED
          then dlp_gemm_get_B_panel_reordered_start_offset_width jc (ga_n g) NC packb_min_NR (dlp_min (je - jc) NC)
          else (jc, 0, dlp_min (je - jc) NC, 0) of (jc_cur_loop, jc_cur_loop_rem, nc0, n_sub_updated) \<Rightarrow>
        case c_operand_jc g lcntx is ie jc je s of (s, acts, c_use_jc) \<Rightarrow>
          map_option (\<lambda>(s', calls). (s', acts @ calls))
            (pc_loop packa g lcntx tj ti is ie jc nc0 jc_cur_loop jc_cur_loop_rem n_sub_updated c_use_jc
              (if downscaled (ga_c_downscale g) then nc0 else ga_rs_c g) s)) = Some (s', xs) \<and> True \<and>
        filter essential xs = concat (map (\<lambda>pc. ?blk (jc, pc)) (loop_points 0 (ga_k g) (\<lambda>pc. pc + KC)))"
      using x by (simp add: plain c d cols_def)
  qed (use sizes in simp_all)
  moreover have "concat (map (\<lambda>jc. concat (map (\<lambda>pc. ?blk (jc, pc)) ps)) js) = concat (map ?blk (concat (map (\<lambda>jc. map (Pair jc) ps) js)))" for ps js
    by (induction js) (simp_all add: o_def)
  ultimately show ?thesis unfolding blocks_def by (simp only: simp_thms)
qed

text \<open>The whole run: the blocks, a last barrier, and the release of the buffer.\<close>

lemma run_blocks:
  assumes "dlp_gemm_gen_dlp_task_ids (Some thread) = (tj, ti)" "driver_tile thread (ga_m g) (ga_n g) lcntx = ((js, je), (is, ie))"
  shows "\<exists>as. gemm_5loop packa g lcntx thread = Some as \<and>
    filter essential as = concat (map (\<lambda>blk. [Wait (work_id tj) (ocomm_id ti)] @ packs ti je blk @ [Wait (work_id tj) (ocomm_id ti)] @ works is ie je blk)
      (blocks js je)) @ [Wait (work_id tj) (ocomm_id tj)]"
proof -
  have "js = fst (task_slice False (ga_n g) NR (n_way tj) (work_id tj))" using assms by (simp add: driver_tile_def task_range_eq_slice)
  then have "0 \<le> js" using slice_start_ge_0 [OF dims(2) sizes(1)] by simp
  then obtain s xs where "jc_loop packa g lcntx tj ti ((js, je), (is, ie)) \<lparr>have_b = False, have_a = False, have_c = False\<rparr> = Some (s, xs)"
    "filter essential xs = concat (map (\<lambda>blk. [Wait (work_id tj) (ocomm_id ti)] @ packs ti je blk @ [Wait (work_id tj) (ocomm_id ti)] @ works is ie je blk)
      (blocks js je))" using jc_run by blast
  then show ?thesis unfolding gemm_5loop_def assms by (simp add: plain)
qed

text \<open>The phases of a run, and of every run with the same barriers, packing and kernel calls.\<close>

lemma run_labels:
  assumes "dlp_gemm_gen_dlp_task_ids (Some thread) = (tj, ti)" "driver_tile thread (ga_m g) (ga_n g) lcntx = ((js, je), (is, ie))"
    and "gemm_5loop packa g lcntx thread = Some bs" "filter essential as = filter essential bs"
  shows "(e, Pack_b s d w dep) \<in> set (label is_wait 0 as) \<longleftrightarrow>
      (\<exists>q < length (blocks js je). e = 2 * q + 1 \<and> Pack_b s d w dep \<in> set (packs ti je (blocks js je ! q)))"
    and "(e, Kernel c) \<in> set (label is_wait 0 as) \<longleftrightarrow>
      (\<exists>q < length (blocks js je). e = 2 * q + 2 \<and> Kernel c \<in> set (works is ie je (blocks js je ! q)))"
proof -
  let ?W = "Wait (work_id tj) (ocomm_id ti)"
  let ?body = "concat (map (\<lambda>blk. [?W] @ packs ti je blk @ [?W] @ works is ie je blk) (blocks js je))"
  have ess: "filter essential as = ?body @ [Wait (work_id tj) (ocomm_id tj)]" using run_blocks [OF assms(1,2), of packa] assms(3,4) by auto
  have quiet: "(\<forall>a \<in> set (packs ti je blk). \<not> is_wait a) \<and> (\<forall>a \<in> set (works is ie je blk). \<not> is_wait a)" for blk
    by (auto simp: packs_def works_def Let_def split: prod.splits)
  have lab: "(e, a) \<in> set (label is_wait 0 as) \<longleftrightarrow> (\<exists>q < length (blocks js je).
      e = 2 * q + 1 \<and> a \<in> set (packs ti je (blocks js je ! q)) \<or> e = 2 * q + 2 \<and> a \<in> set (works is ie je (blocks js je ! q)))"
    if "essential a" "\<not> is_wait a" for a
  proof -
    have "(e, a) \<in> set (label is_wait 0 as) \<longleftrightarrow> (e, a) \<in> set (label is_wait 0 (filter essential as))"
      using that(1) by (simp add: label_filter [OF wait_essential])
    also have "\<dots> \<longleftrightarrow> (e, a) \<in> set (label is_wait 0 ?body)" using that(2) by (auto simp: ess label_append)
    finally show ?thesis using label_blocks [of "blocks js je" "packs ti je" is_wait "works is ie je" ?W a e 0] quiet that(2) by simp
  qed
  have other: "Pack_b s d w dep \<notin> set (works is ie je blk)" "Kernel c \<notin> set (packs ti je blk)" for blk
    by (auto simp: packs_def works_def Let_def split: prod.splits)
  show "(e, Pack_b s d w dep) \<in> set (label is_wait 0 as) \<longleftrightarrow>
      (\<exists>q < length (blocks js je). e = 2 * q + 1 \<and> Pack_b s d w dep \<in> set (packs ti je (blocks js je ! q)))"
    by (subst lab) (simp_all add: other)
  show "(e, Kernel c) \<in> set (label is_wait 0 as) \<longleftrightarrow>
      (\<exists>q < length (blocks js je). e = 2 * q + 2 \<and> Kernel c \<in> set (works is ie je (blocks js je ! q)))"
    by (subst lab) (simp_all add: other)
qed

section \<open>The layout of a block in the buffer\<close>

text \<open>A packed block is a reordered matrix of its own, of one panel and one depth block.\<close>

definition place :: "md_t \<Rightarrow> md_t \<Rightarrow> md_t \<Rightarrow> md_t \<Rightarrow> md_t" where
  "place nc0 kc0 kr x = B_offset NR packb_min_NR (dlp_make_multiple_of_n nc0 NR) (dlp_make_multiple_of_n kc0 4) 4 nc0 kc0 kr x"

lemma block_layout:
  assumes "0 < nc0" "0 < kc0"
  shows "reorder_blocks NR packb_min_NR (dlp_make_multiple_of_n nc0 NR) (dlp_make_multiple_of_n kc0 4) 4 nc0 kc0"
proof -
  have n: "nc0 \<le> dlp_make_multiple_of_n nc0 NR" "NR dvd dlp_make_multiple_of_n nc0 NR" using make_multiple_bounds [of nc0 NR] assms sizes by auto
  have k: "kc0 \<le> dlp_make_multiple_of_n kc0 4" "4 dvd dlp_make_multiple_of_n kc0 4" using make_multiple_bounds [of kc0 4] assms by auto
  have "dlp_make_multiple_of_n kc0 4 smod 4 = 0" using k assms by (simp add: cdiv_simps)
  then show ?thesis
    by unfold_locales (use n k assms legal in \<open>auto simp: dlp_reorder_ref_blocks_legal_def packb_min_NR_def\<close>)
qed

text \<open>A piece of the block, in the block's own coordinates.\<close>

lemma block_piece:
  assumes "0 < kc0" "0 \<le> s" "s < nc0" "NR dvd s" "0 < w" "s + w \<le> nc0" "NR dvd w \<or> s + w = nc0"
  shows "is_piece NR (dlp_make_multiple_of_n nc0 NR) nc0 s w"
    and "reorder_blocks.piece_off packb_min_NR (dlp_make_multiple_of_n nc0 NR) (dlp_make_multiple_of_n kc0 4) 4 nc0 kc0 s 0 = s * dlp_make_multiple_of_n kc0 4"
    and "reorder_blocks.kc0p (dlp_make_multiple_of_n kc0 4) 4 kc0 0 = dlp_make_multiple_of_n kc0 4"
proof -
  let ?NC = "dlp_make_multiple_of_n nc0 NR"
  have n: "nc0 \<le> ?NC" using make_multiple_bounds [of nc0 NR] assms sizes by auto
  have k: "kc0 \<le> dlp_make_multiple_of_n kc0 4" using make_multiple_bounds [of kc0 4] assms by auto
  note rb = block_layout [of nc0 kc0]
  have q: "s div ?NC = 0" using n assms by simp
  show p: "reorder_blocks.kc0p (dlp_make_multiple_of_n kc0 4) 4 kc0 0 = dlp_make_multiple_of_n kc0 4"
    using rb k assms by (simp add: reorder_blocks.kc0p_def dlp_min_def)
  show "is_piece NR ?NC nc0 s w" using assms n by (auto simp: is_piece_def q dlp_min_def)
  show "reorder_blocks.piece_off packb_min_NR ?NC (dlp_make_multiple_of_n kc0 4) 4 nc0 kc0 s 0 = s * dlp_make_multiple_of_n kc0 4"
    using rb assms by (simp add: reorder_blocks.piece_off_def q p)
qed

text \<open>What a kernel call reads, and what a packing call leaves.\<close>

lemma kernel_place:
  assumes "0 < kc0" "0 \<le> jr" "jr < nc0" "NR dvd jr" "0 \<le> kr" "kr < kc0" "0 \<le> i" "i < dlp_min (nc0 - jr) NR"
  shows "jr * dlp_make_multiple_of_n kc0 4 + panel_offset NR packb_min_NR 4 (dlp_min (nc0 - jr) NR) (dlp_make_multiple_of_n kc0 4) kr i =
    place nc0 kc0 kr (jr + i)"
proof -
  let ?w = "dlp_min (nc0 - jr) NR"
  have w: "0 < ?w" "jr + ?w \<le> nc0" "NR dvd ?w \<or> jr + ?w = nc0" using assms sizes by (auto simp: dlp_min_def)
  note pc = block_piece [OF assms(1-4) w]
  have "kr < dlp_min (kc0 - 0) (dlp_make_multiple_of_n kc0 4)" using make_multiple_bounds [of kc0 4] assms by (simp add: dlp_min_def)
  then show ?thesis
    using reorder_blocks.piece_elem(1) [OF block_layout pc(1), of kc0 0 kr i] assms
    by (simp add: place_def pc(2,3))
qed

fun shift :: "md_t \<Rightarrow> elem_op \<Rightarrow> elem_op" where
  "shift b (Zero d) = Zero d" | "shift b (Copy d s) = Copy d (b + s)"

lemma op_dst_shift [simp]: "op_dst (shift b op) = op_dst op"
  by (cases op) simp_all

lemma final_op_shift: "final_op (map (shift b) ops) d = map_option (shift b) (final_op ops d)"
  by (induction ops rule: rev_induct) (simp_all add: final_op_snoc)

lemma packb_shift: "dlp_reorder_ref_packb p (b0 + b) kf nc0 kc0 nr min_nr rs cs = map (shift b0) (dlp_reorder_ref_packb p b kf nc0 kc0 nr min_nr rs cs)"
  by (simp add: dlp_reorder_ref_packb_def Let_def map_concat o_def add.assoc)

lemma pack_leaves:
  fixes b0 rs cs :: md_t
  assumes "0 < nc0" "0 < kc0" and r: "r = task_slice False nc0 NR ways wid" "fst r < snd r" and e: "0 \<le> kr" "kr < kc0" "0 \<le> x" "x < nc0"
  defines "ops \<equiv> dlp_reorder_ref_packb (fst r * dlp_make_multiple_of_n kc0 4) (b0 + fst r * cs) 4 (snd r - fst r) kc0 NR packb_min_NR rs cs"
  shows "final_op ops (place nc0 kc0 kr x) \<in> {None, Some (Copy (place nc0 kc0 kr x) (b0 + (kr * rs + x * cs)))}"
    and "fst r \<le> x \<Longrightarrow> x < snd r \<Longrightarrow> final_op ops (place nc0 kc0 kr x) = Some (Copy (place nc0 kc0 kr x) (b0 + (kr * rs + x * cs)))"
proof -
  let ?NC = "dlp_make_multiple_of_n nc0 NR" and ?KC = "dlp_make_multiple_of_n kc0 4" and ?d = "place nc0 kc0 kr x"
  note rb = block_layout [OF assms(1,2)]
  note sf = reorder_blocks.slice_facts [OF rb, of ways wid, folded r(1)]
  have w: "0 < snd r - fst r" "fst r + (snd r - fst r) \<le> nc0" "fst r < nc0" using r(2) sf(2) by simp_all
  have "NR dvd snd r - fst r \<or> fst r + (snd r - fst r) = nc0" using sf(4,5) r(2) by (auto intro: dvd_diff)
  note bp = block_piece [OF assms(2) sf(1) w(3) sf(4) [OF r(2)] w(1,2) this]
  have k: "dlp_min kc0 ?KC = kc0" using make_multiple_bounds [of kc0 4] assms(2) by (simp add: dlp_min_def)
  have at: "reorder_blocks.in_piece packb_min_NR ?NC ?KC 4 nc0 kc0 (fst r) (snd r - fst r) 0 ?d" if "fst r \<le> x" "x < snd r"
  proof -
    have i: "0 \<le> x - fst r" "x - fst r < snd r - fst r" using that by simp_all
    have pl: "?d = fst r * ?KC + panel_offset NR packb_min_NR 4 (snd r - fst r) ?KC kr (x - fst r)"
      using reorder_blocks.piece_elem(1) [OF rb bp(1) _ _ _ e(1) _ i, of 0] e assms(2) by (simp add: k bp(2,3) place_def)
    have "0 < packb_min_NR" "packb_min_NR dvd NR" "4 dvd ?KC" "kr < ?KC"
      using reorder_blocks.pos(3,5) [OF rb] make_multiple_bounds [of kc0 4] assms(2) e(2) by simp_all
    then show ?thesis unfolding reorder_blocks.in_piece_def [OF rb] bp(2,3) pl
      using panel_offset_bounds [of packb_min_NR NR 4 ?KC kr "x - fst r" "snd r - fst r"] sizes(1) e(1) i by simp
  qed
  have op: "layout_op NR packb_min_NR ?NC ?KC 4 nc0 kc0 rs cs ?d = Copy ?d (kr * rs + x * cs)"
    using reorder_blocks.elem_at_Some [OF rb, of ?d kr x] e by (simp add: layout_op_def place_def)
  have own: "final_op (dlp_reorder_ref_packb (fst r * ?KC) (fst r * cs) 4 (snd r - fst r) kc0 NR packb_min_NR rs cs) ?d =
      (if reorder_blocks.in_piece packb_min_NR ?NC ?KC 4 nc0 kc0 (fst r) (snd r - fst r) 0 ?d then Some (Copy ?d (kr * rs + x * cs)) else None)"
    using reorder_blocks.piece_final [OF rb bp(1), of 0 rs cs ?d] assms(2) by (simp add: bp(2) k op)
  have fin: "final_op ops ?d = (if reorder_blocks.in_piece packb_min_NR ?NC ?KC 4 nc0 kc0 (fst r) (snd r - fst r) 0 ?d
      then Some (Copy ?d (b0 + (kr * rs + x * cs))) else None)"
    unfolding ops_def packb_shift final_op_shift own by simp
  show "final_op ops ?d \<in> {None, Some (Copy ?d (b0 + (kr * rs + x * cs)))}" by (simp add: fin)
  show "final_op ops ?d = Some (Copy ?d (b0 + (kr * rs + x * cs)))" if "fst r \<le> x" "x < snd r" using at [OF that] by (simp add: fin)
qed

end

text \<open>An instance, with the block sizes the library uses for this data type.\<close>

interpretation example_pack: packed_run "example_args 20 100 9 PACK" "example_cntx 144 1024 2048 6 64"
  by unfold_locales (simp_all add: example_args_def example_cntx_def blksz_ok_def dlp_reorder_ref_blocks_legal_def packb_min_NR_def)

end
