(* ===== verification/Driver_Team.thy ===== *)
theory Driver_Team
  imports Driver_Pack
begin

text \<open>
  A team on memory. Every column group has one pack buffer, which its threads fill and read; all threads share
  C. \<open>team_step\<close> is the effect of one action of one thread on these memories.

  The main lemma \<open>call_reads\<close>: in every schedule that respects the barriers of the groups, a kernel call finds
  in the buffer of its group the block of B it was made for, though the threads pack it in slices, in any order, and the
  buffer is reused for every block. So the run on memory simulates the block updates of the abstract matrix.
\<close>

section \<open>Threads on shared memory\<close>

text \<open>\<open>group thread\<close> is the column group of a thread: the communicator it waits on and the buffer it packs into.\<close>

definition group :: "dlp_gemm_thrinfo_t \<Rightarrow> md_t" where
  "group thread = work_id (fst (dlp_gemm_gen_dlp_task_ids (Some thread)))"

definition team_step ::
  "(md_t \<Rightarrow> md_t \<Rightarrow> md_t \<Rightarrow> md_t \<Rightarrow> bytes \<Rightarrow> bytes) \<Rightarrow> (bytes \<Rightarrow> kernel_call \<Rightarrow> (md_t \<Rightarrow> int32_t) \<Rightarrow> md_t \<Rightarrow> int32_t) \<Rightarrow> (nat \<Rightarrow> md_t) \<Rightarrow>
   nat \<times> action \<Rightarrow> (md_t \<Rightarrow> bytes) \<times> (md_t \<Rightarrow> int32_t) \<Rightarrow> (md_t \<Rightarrow> bytes) \<times> (md_t \<Rightarrow> int32_t)" where
  "team_step pack kern grp e mem = (case e of (t, a) \<Rightarrow> case mem of (bufs, cm) \<Rightarrow>
     (case a of
        Pack_b src dst width dep \<Rightarrow> (bufs(grp t := pack src dst width dep (bufs (grp t))), cm)
      | Kernel c \<Rightarrow> (bufs, kern (bufs (grp t)) c cm)
      | _ \<Rightarrow> (bufs, cm)))"

text \<open>What a packing kernel promises: it stores the elements where the reference packing stores them, and
  touches nothing the reference does not write. What it leaves in the padding is its own affair.\<close>

locale pack_kernel =
  fixes NR rs cs :: md_t and bsrc :: bytes and pack :: "md_t \<Rightarrow> md_t \<Rightarrow> md_t \<Rightarrow> md_t \<Rightarrow> bytes \<Rightarrow> bytes"
  assumes pack_copies: "final_op (dlp_reorder_ref_packb dst src 4 width dep NR packb_min_NR rs cs) a = Some (Copy a y) \<Longrightarrow>
      pack src dst width dep mem a = bsrc y"
    and pack_frame: "final_op (dlp_reorder_ref_packb dst src 4 width dep NR packb_min_NR rs cs) a = None \<Longrightarrow> pack src dst width dep mem a = mem a"

definition ref_pack :: "md_t \<Rightarrow> md_t \<Rightarrow> md_t \<Rightarrow> bytes \<Rightarrow> md_t \<Rightarrow> md_t \<Rightarrow> md_t \<Rightarrow> md_t \<Rightarrow> bytes \<Rightarrow> bytes" where
  "ref_pack NR rs cs bsrc src dst width dep = fold (exec_op 1 bsrc) (dlp_reorder_ref_packb dst src 4 width dep NR packb_min_NR rs cs)"

interpretation ref_pack: pack_kernel NR rs cs bsrc "ref_pack NR rs cs bsrc"
  by unfold_locales (simp_all add: ref_pack_def run_ops_at)

lemma buffer_kept:
  assumes "\<And>v s d w dep m. (v, Pack_b s d w dep) \<in> set es \<Longrightarrow> grp v = G \<Longrightarrow> m a = y \<Longrightarrow> pack s d w dep m a = y" "fst mem G a = y"
  shows "fst (fold (team_step pack kern grp) es mem) G a = y"
  using assms
proof (induction es arbitrary: mem)
  case (Cons e es)
  obtain t act bufs cm where e: "e = (t, act)" "mem = (bufs, cm)" by (meson surj_pair)
  have "fst (team_step pack kern grp e mem) G a = y"
  proof (cases act)
    case (Pack_b s d w dep)
    then show ?thesis using Cons.prems(1) [of t s d w dep "bufs G"] Cons.prems(2) by (auto simp: e team_step_def)
  qed (use Cons.prems(2) in \<open>simp_all add: e team_step_def\<close>)
  then have "fst (fold (team_step pack kern grp) es (team_step pack kern grp e mem)) G a = y"
    by (rule Cons.IH [rotated]) (rule Cons.prems(1), auto)
  then show ?case by simp
qed simp

text \<open>The kernel calls of a schedule.\<close>

definition calls_of :: "(nat \<times> action) list \<Rightarrow> (nat \<times> kernel_call) list" where
  "calls_of sched = concat (map (\<lambda>e. map (Pair (fst e)) (kernel_calls [snd e])) sched)"

lemma calls_of_append: "calls_of (xs @ ys) = calls_of xs @ calls_of ys"
  by (simp add: calls_of_def)

lemma calls_of_single: "calls_of [(t, a)] = (case a of Kernel c \<Rightarrow> [(t, c)] | _ \<Rightarrow> [])"
  by (cases a) (simp_all add: calls_of_def)

lemma calls_interleave:
  assumes "interleaves sched N trace"
  shows "interleaves (calls_of sched) N (kernel_calls \<circ> trace)"
proof -
  have at: "map snd (filter (\<lambda>e. fst e = t) (calls_of sched)) = kernel_calls (map snd (filter (\<lambda>e. fst e = t) sched))" for t
  proof (induction sched rule: rev_induct)
    case (snoc e sched)
    then show ?case by (cases e; cases "snd e") (simp_all add: calls_of_append calls_of_single)
  qed (simp add: calls_of_def)
  have "fst e < N" if "e \<in> set (calls_of sched)" for e using that assms by (auto simp: calls_of_def interleaves_def)
  then show ?thesis using assms at by (simp add: interleaves_def)
qed

section \<open>The threads of a group\<close>

text \<open>The threads of a team are the pairs of a column group and a row id.\<close>

lemma team_grid:
  assumes "is_team threads" "t < length threads" and ids: "dlp_gemm_gen_dlp_task_ids (Some (threads ! t)) = (tj, ti)"
    and w: "0 \<le> w" "w < n_way ti"
  shows "\<exists>u < length threads. \<exists>uj ui. dlp_gemm_gen_dlp_task_ids (Some (threads ! u)) = (uj, ui) \<and> work_id uj = work_id tj \<and> work_id ui = w"
proof -
  obtain nt ic jc mtag distr where tm: "0 < ic" "0 < jc" "ic * jc = nt" "length threads = nat nt"
    "\<And>t. t < nat nt \<Longrightarrow> threads ! t = thread_setup nt ic jc (int t) mtag distr" using assms(1) unfolding is_team_def by blast
  define f where "f t = thr_tid (thread_setup nt ic jc t mtag distr)" for t
  have bij: "bij_betw f {0..<nt} {0..<nt}" unfolding f_def by (rule setup_tid_bij)
  have fr: "0 \<le> f (int t)" "f (int t) < nt" if "t < nat nt" for t using that bij_betwE [OF bij] by auto
  have gen: "dlp_gemm_gen_dlp_task_ids (Some (threads ! t)) = (\<lparr>ocomm_id = f (int t), n_way = jc, work_id = f (int t) div ic\<rparr>,
      \<lparr>ocomm_id = f (int t) mod ic, n_way = ic, work_id = f (int t) mod ic\<rparr>)" if "t < nat nt" for t
    using tm(5) [OF that] fr [OF that] tm(1) by (simp add: dlp_gemm_gen_dlp_task_ids_def Let_def thread_setup_def f_def cdiv_simps)
  have t: "t < nat nt" using assms(2) tm(4) by simp
  have tw: "work_id tj = f (int t) div ic" "n_way ti = ic" using ids gen [OF t] by auto
  have "work_id tj * ic < jc * ic" using floor_block [OF tm(1), of "f (int t)"] fr(2) [OF t] tm(3) unfolding tw by (simp add: mult.commute)
  then have "work_id tj < jc" using tm(1) by simp
  moreover have "0 \<le> work_id tj" using fr(1) [OF t] tm(1) unfolding tw by (simp add: pos_imp_zdiv_nonneg_iff)
  ultimately have "bij_betw (\<lambda>t. f (int t) mod ic) {t. t < nat nt \<and> f (int t) div ic = work_id tj} {0..<ic}"
    using column_group_bij [OF bij tm(1,3), of "nat (work_id tj)"] by simp
  then have "w \<in> (\<lambda>t. f (int t) mod ic) ` {t. t < nat nt \<and> f (int t) div ic = work_id tj}" using w tw(2) by (simp add: bij_betw_def)
  then show ?thesis using gen tm(4) by auto
qed

lemma team_ways:
  assumes "is_team threads" "t < length threads" "u < length threads"
    and "dlp_gemm_gen_dlp_task_ids (Some (threads ! t)) = (tj, ti)" "dlp_gemm_gen_dlp_task_ids (Some (threads ! u)) = (uj, ui)"
  shows "n_way uj = n_way tj" "n_way ui = n_way ti" "0 < n_way ti"
  using assms unfolding is_team_def by (auto simp: dlp_gemm_gen_dlp_task_ids_def Let_def thread_setup_def)

section \<open>What a kernel call reads\<close>

locale packed_team = packed_run g lcntx + pack_kernel "bs_NR (cx_blksz lcntx)" "ga_rs_b g" "ga_cs_b g" bsrc pack
  for g :: gemm_args and lcntx :: dlp_gemm_cntx_t and bsrc :: bytes and pack :: "md_t \<Rightarrow> md_t \<Rightarrow> md_t \<Rightarrow> md_t \<Rightarrow> bytes \<Rightarrow> bytes" +
  fixes threads :: "dlp_gemm_thrinfo_t list" and trace :: "nat \<Rightarrow> action list"
    and packa :: "md_t \<Rightarrow> md_t \<Rightarrow> md_t \<Rightarrow> md_t \<Rightarrow> md_t \<times> md_t"
  assumes team: "is_team threads"
    and runs: "t < length threads \<Longrightarrow> \<exists>as. gemm_5loop packa g lcntx (threads ! t) = Some as \<and> filter essential (trace t) = filter essential as"
begin

definition run_of :: "nat \<Rightarrow> action list" where "run_of t = the (gemm_5loop packa g lcntx (threads ! t))"

lemma run_of:
  assumes "t < length threads"
  shows "gemm_5loop packa g lcntx (threads ! t) = Some (run_of t)" "filter essential (trace t) = filter essential (run_of t)"
  using runs [OF assms] by (auto simp: run_of_def)

abbreviation "grp t \<equiv> group (threads ! t)"

definition tj :: "nat \<Rightarrow> dlp_task_id_t" where "tj t = fst (dlp_gemm_gen_dlp_task_ids (Some (threads ! t)))"
definition ti :: "nat \<Rightarrow> dlp_task_id_t" where "ti t = snd (dlp_gemm_gen_dlp_task_ids (Some (threads ! t)))"

text \<open>The columns of a thread's group and the rows of the thread.\<close>

definition cslice :: "nat \<Rightarrow> md_t \<times> md_t" where "cslice t = task_slice False (ga_n g) NR (n_way (tj t)) (work_id (tj t))"
definition rslice :: "nat \<Rightarrow> md_t \<times> md_t" where "rslice t = task_slice False (ga_m g) (bs_MR (cx_blksz lcntx)) (n_way (ti t)) (work_id (ti t))"

abbreviation "blks t \<equiv> blocks (fst (cslice t)) (snd (cslice t))"

lemma ids: "dlp_gemm_gen_dlp_task_ids (Some (threads ! t)) = (tj t, ti t)"
  by (simp add: tj_def ti_def)

lemma tile: "driver_tile (threads ! t) (ga_m g) (ga_n g) lcntx = ((fst (cslice t), snd (cslice t)), (fst (rslice t), snd (rslice t)))"
  by (simp add: driver_tile_def ids task_range_eq_slice cslice_def rslice_def)

lemma same_columns:
  assumes "t < length threads" "u < length threads" "grp u = grp t"
  shows "cslice u = cslice t"
  using team_ways [OF team assms(1,2) ids ids] assms(3) by (simp add: cslice_def group_def ids)

lemma pack_phase:
  "t < length threads \<Longrightarrow> (e, Pack_b s d w dep) \<in> set (label is_wait 0 (trace t)) \<longleftrightarrow>
     (\<exists>q < length (blks t). e = 2 * q + 1 \<and> Pack_b s d w dep \<in> set (packs (ti t) (snd (cslice t)) (blks t ! q)))"
  by (rule run_labels(1) [OF ids tile run_of])

lemma kernel_phase:
  "t < length threads \<Longrightarrow> (e, Kernel c) \<in> set (label is_wait 0 (trace t)) \<longleftrightarrow>
     (\<exists>q < length (blks t). e = 2 * q + 2 \<and> Kernel c \<in> set (works (fst (rslice t)) (snd (rslice t)) (snd (cslice t)) (blks t ! q)))"
  by (rule run_labels(2) [OF ids tile run_of])

text \<open>A call comes when its group has packed the block of its phase and has not begun a later one.\<close>

lemma packed_before:
  assumes s: "interleaves (xs @ (t, Kernel c) # ys) (length threads) trace" "respects_barriers is_wait grp (length threads) (xs @ (t, Kernel c) # ys)"
    and k: "waits_of is_wait t xs = 2 * q + 2" and u: "u < length threads" "grp u = grp t"
    and a: "q < length (blks u)" "Pack_b s d w dep \<in> set (packs (ti u) (snd (cslice u)) (blks u ! q))"
  shows "\<exists>p r. xs = p @ (u, Pack_b s d w dep) # r \<and> waits_of is_wait u p = 2 * q + 1"
proof (rule past_action [OF s(1) u(1)])
  show "(2 * q + 1, Pack_b s d w dep) \<in> set (label is_wait 0 (trace u))" unfolding pack_phase [OF u(1)] using a by auto
  show "2 * q + 1 < waits_of is_wait u xs" using respectsD [OF s(2) u] k by simp
qed

lemma packs_after:
  assumes s: "interleaves (p @ (u, a) # r1 @ (v, Pack_b s d w dep) # r2 @ (t, Kernel c) # ys) (length threads) trace"
    and "respects_barriers is_wait grp (length threads) (p @ (u, a) # r1 @ (v, Pack_b s d w dep) # r2 @ (t, Kernel c) # ys)"
    and "grp v = grp t" "grp u = grp t"
    and "waits_of is_wait u p = 2 * q + 1" "waits_of is_wait t (p @ (u, a) # r1 @ (v, Pack_b s d w dep) # r2) = 2 * q + 2"
  shows "q < length (blks t) \<and> Pack_b s d w dep \<in> set (packs (ti v) (snd (cslice t)) (blks t ! q))"
proof -
  have b: "t < length threads" "v < length threads" using s by (auto simp: interleaves_def)
  have s': "interleaves ((p @ (u, a) # r1) @ (v, Pack_b s d w dep) # (r2 @ (t, Kernel c) # ys)) (length threads) trace" using s by simp
  obtain q' where q': "waits_of is_wait v (p @ (u, a) # r1) = 2 * q' + 1" "q' < length (blks v)"
    "Pack_b s d w dep \<in> set (packs (ti v) (snd (cslice v)) (blks v ! q'))"
    using phase_label(2) [OF s', of is_wait] unfolding pack_phase [OF b(2)] by auto
  have "2 * q + 1 \<le> 2 * q' + 1" using phases_ordered [OF assms(2) b(2)] assms(3-5) q'(1) by simp
  moreover have "2 * q' + 1 \<le> 2 * q + 2"
    using phases_ordered [of is_wait grp "length threads" "p @ (u, a) # r1" v "Pack_b s d w dep" r2 t "Kernel c" ys] assms(2,3,6) b(1) q'(1) by simp
  ultimately have "q' = q" by simp
  then show ?thesis using q'(2,3) same_columns [OF b(1,2) assms(3)] by simp
qed

lemma pack_effect:
  assumes "Pack_b s d w dep \<in> set (packs tv je (jc, pc))" "jc < je" "pc < ga_k g" "0 \<le> kr" "kr < depth pc" "0 \<le> x" "x < cols je jc"
  defines "y \<equiv> bsrc (ga_rs_b g * pc + ga_cs_b g * jc + (kr * ga_rs_b g + x * ga_cs_b g))"
  shows "m (place (cols je jc) (depth pc) kr x) = y \<Longrightarrow> pack s d w dep m (place (cols je jc) (depth pc) kr x) = y"
    and "fst (task_slice False (cols je jc) NR (n_way tv) (work_id tv)) \<le> x \<Longrightarrow> x < snd (task_slice False (cols je jc) NR (n_way tv) (work_id tv)) \<Longrightarrow>
      pack s d w dep m (place (cols je jc) (depth pc) kr x) = y"
proof -
  define r where r: "r = task_slice False (cols je jc) NR (n_way tv) (work_id tv)"
  let ?b = "ga_rs_b g * pc + ga_cs_b g * jc"
  have p: "fst r < snd r" "s = ?b + fst r * ga_cs_b g" "d = fst r * dlp_make_multiple_of_n (depth pc) 4" "w = snd r - fst r" "dep = depth pc"
    using assms(1) by (auto simp: packs_def Let_def r mult.commute split: if_splits)
  note pl = pack_leaves [OF cols_pos [OF assms(2)] depth_pos [OF assms(3)] r p(1) assms(4-7), of ?b "ga_cs_b g" "ga_rs_b g", folded p(2-5)]
  show "pack s d w dep m (place (cols je jc) (depth pc) kr x) = y" if "m (place (cols je jc) (depth pc) kr x) = y"
    using pl(1) that pack_copies [of d s w dep] pack_frame [of d s w dep] unfolding p(5) y_def by auto
  show "pack s d w dep m (place (cols je jc) (depth pc) kr x) = y"
    if "fst (task_slice False (cols je jc) NR (n_way tv) (work_id tv)) \<le> x" "x < snd (task_slice False (cols je jc) NR (n_way tv) (work_id tv))"
    using pl(2) that pack_copies [of d s w dep] unfolding p(5) y_def r by auto
qed

lemma block_in: "q < length (blocks js je) \<Longrightarrow> blocks js je ! q = (jc, pc) \<Longrightarrow> js \<le> jc \<and> jc < je \<and> KC dvd pc \<and> 0 \<le> pc \<and> pc < ga_k g"
  using nth_mem [of q "blocks js je"] sizes(3) by (auto simp: blocks_def step_points dest: loop_points_bounds)

lemma buffer_holds:
  assumes s: "interleaves (xs @ (t, Kernel c) # ys) (length threads) trace" "respects_barriers is_wait grp (length threads) (xs @ (t, Kernel c) # ys)"
    and k: "waits_of is_wait t xs = 2 * q + 2" "q < length (blks t)" "blks t ! q = (jc, pc)"
    and e: "0 \<le> kr" "kr < depth pc" "0 \<le> x" "x < cols (snd (cslice t)) jc"
  shows "fst (fold (team_step pack kern grp) xs mem) (grp t) (place (cols (snd (cslice t)) jc) (depth pc) kr x) =
    bsrc (ga_rs_b g * pc + ga_cs_b g * jc + (kr * ga_rs_b g + x * ga_cs_b g))" (is "fst _ _ ?a = ?y")
proof -
  let ?je = "snd (cslice t)"
  have t: "t < length threads" using s(1) by (simp add: interleaves_def)
  have blk: "jc < ?je" "pc < ga_k g" using block_in [OF k(2,3)] by auto
  let ?in = "\<lambda>w. fst (task_slice False (cols ?je jc) NR (n_way (ti t)) w) \<le> x \<and> x < snd (task_slice False (cols ?je jc) NR (n_way (ti t)) w)"
  have "\<exists>!w. ?in w"
    by (rule high_edge.one_owner) (use cols_pos [OF blk(1)] sizes(1) team_ways(3) [OF team t t ids ids] e in simp_all)
  then obtain w where w: "?in w" by blast
  have wr: "0 \<le> w" "w < n_way (ti t)" using high_edge.owner_in_range [of "cols ?je jc" NR "n_way (ti t)" w x] w by simp_all
  obtain u where u: "u < length threads" "grp u = grp t" "work_id (ti u) = w"
    using team_grid [OF team t ids wr] by (auto simp: group_def ids)
  have nw: "n_way (ti u) = n_way (ti t)" using team_ways(2) [OF team t u(1) ids ids] .
  have cu: "cslice u = cslice t" using same_columns [OF t u(1,2)] .
  obtain s' d' w' dep' where pk: "Pack_b s' d' w' dep' \<in> set (packs (ti u) ?je (jc, pc))"
    using w by (auto simp: packs_def Let_def u(3) nw)
  then obtain p r where xs: "xs = p @ (u, Pack_b s' d' w' dep') # r" "waits_of is_wait u p = 2 * q + 1"
    using packed_before [OF s k(1) u(1,2), of s' d' w' dep'] k(2,3) by (auto simp: cu)
  let ?mem = "fold (team_step pack kern grp) p mem"
  have "fst (team_step pack kern grp (u, Pack_b s' d' w' dep') ?mem) (grp t) ?a = ?y"
    using pack_effect(2) [OF pk blk e] w u nw by (simp add: team_step_def split: prod.splits)
  then have "fst (fold (team_step pack kern grp) r (team_step pack kern grp (u, Pack_b s' d' w' dep') ?mem)) (grp t) ?a = ?y"
  proof (rule buffer_kept [rotated])
    fix v s1 d1 w1 dep1 m assume v: "(v, Pack_b s1 d1 w1 dep1) \<in> set r" "grp v = grp t" "m ?a = ?y"
    obtain r1 r2 where r: "r = r1 @ (v, Pack_b s1 d1 w1 dep1) # r2" using split_list [OF v(1)] by blast
    have "Pack_b s1 d1 w1 dep1 \<in> set (packs (ti v) ?je (jc, pc))"
      using packs_after [of p u _ r1 v s1 d1 w1 dep1 r2 t c ys q] s k v(2) u(2) xs r by simp
    then show "pack s1 d1 w1 dep1 m ?a = ?y" using pack_effect(1) blk e v(3) by blast
  qed
  then show ?thesis by (simp add: xs)
qed

lemma call_shape:
  assumes "Kernel c \<in> set (works is ie je (jc, pc))"
  obtains ic jr where "c = kernel_at jc (cols je jc) pc (depth pc) ic (dlp_min (ie - ic) MC) jr"
    "is \<le> ic" "ic < ie" "NR dvd jr" "0 \<le> jr" "jr < cols je jc"
  using assms sizes(1) by (auto simp: works_def step_points dest: loop_points_bounds)

lemma slices_in:
  "fst (cslice t) < snd (cslice t) \<Longrightarrow> 0 \<le> fst (cslice t) \<and> snd (cslice t) \<le> ga_n g"
  "fst (rslice t) < snd (rslice t) \<Longrightarrow> 0 \<le> fst (rslice t) \<and> snd (rslice t) \<le> ga_m g"
  using high_edge.slice_bounds [OF dims(2) sizes(1), of "work_id (tj t)" "n_way (tj t)"] high_edge.range_retired [of "work_id (tj t)" "n_way (tj t)" "ga_n g" NR]
    high_edge.slice_bounds [OF dims(1) sizes(5), of "work_id (ti t)" "n_way (ti t)"]
    high_edge.range_retired [of "work_id (ti t)" "n_way (ti t)" "ga_m g" "bs_MR (cx_blksz lcntx)"]
  by (cases "0 \<le> work_id (tj t) \<and> work_id (tj t) < n_way (tj t)"; cases "0 \<le> work_id (ti t) \<and> work_id (ti t) < n_way (ti t)";
      auto simp: cslice_def rslice_def)+

text \<open>The operands of a call: A and C at their rows, B in the buffer as the block was packed.\<close>

lemma call_placed:
  assumes "t < length threads" "Kernel c \<in> set (trace t)"
  shows "placed g c"
proof -
  obtain e where "(e, Kernel c) \<in> set (label is_wait 0 (trace t))" using split_list [OF assms(2)] label_in by metis
  then obtain q where q: "q < length (blks t)" "Kernel c \<in> set (works (fst (rslice t)) (snd (rslice t)) (snd (cslice t)) (blks t ! q))"
    unfolding kernel_phase [OF assms(1)] by blast
  obtain jc pc where b: "blks t ! q = (jc, pc)" by force
  obtain ic jr where c: "c = kernel_at jc (cols (snd (cslice t)) jc) pc (depth pc) ic (dlp_min (snd (rslice t) - ic) MC) jr"
    "fst (rslice t) \<le> ic" "ic < snd (rslice t)" "NR dvd jr" "0 \<le> jr" "jr < cols (snd (cslice t)) jc"
    by (rule call_shape [OF q(2) [unfolded b]])
  have bi: "fst (cslice t) \<le> jc" "jc < snd (cslice t)" "0 \<le> pc" "pc < ga_k g" using block_in [OF q(1) b] by auto
  have si: "0 \<le> fst (cslice t)" "snd (cslice t) \<le> ga_n g" "0 \<le> fst (rslice t)" "snd (rslice t) \<le> ga_m g"
    using slices_in [of t] bi c(2,3) by auto
  have nr: "0 < dlp_min (cols (snd (cslice t)) jc - jr) NR" "jc + jr + dlp_min (cols (snd (cslice t)) jc - jr) NR \<le> ga_n g"
    using c(5,6) si(2) sizes(1) by (auto simp: cols_def dlp_min_def split: if_splits)
  have mc: "0 < dlp_min (snd (rslice t) - ic) MC" "ic + dlp_min (snd (rslice t) - ic) MC \<le> ga_m g"
    using c(3) si(4) sizes(4) by (auto simp: dlp_min_def)
  have kc: "0 < depth pc" "pc + depth pc \<le> ga_k g" using depth_pos [OF bi(4)] by (auto simp: depth_def dlp_min_def)
  show ?thesis using bi si c(2,5) nr mc kc unfolding placed_def c(1) kernel_at_def by simp
qed

lemma call_reads:
  assumes s: "interleaves (xs @ (t, Kernel c) # ys) (length threads) trace" "respects_barriers is_wait grp (length threads) (xs @ (t, Kernel c) # ys)"
  shows "reads_B NR (\<lambda>p j. scast (bsrc (p * ga_rs_b g + j * ga_cs_b g))) (fst (fold (team_step pack kern grp) xs mem) (grp t)) c"
proof -
  have t: "t < length threads" using s(1) by (simp add: interleaves_def)
  obtain q where q: "waits_of is_wait t xs = 2 * q + 2" "q < length (blks t)"
    "Kernel c \<in> set (works (fst (rslice t)) (snd (rslice t)) (snd (cslice t)) (blks t ! q))"
    using phase_label(2) [OF s(1), of is_wait] unfolding kernel_phase [OF t] by auto
  obtain jc pc where b: "blks t ! q = (jc, pc)" by force
  obtain ic jr where c: "c = kernel_at jc (cols (snd (cslice t)) jc) pc (depth pc) ic (dlp_min (snd (rslice t) - ic) MC) jr"
    "NR dvd jr" "0 \<le> jr" "jr < cols (snd (cslice t)) jc"
    by (rule call_shape [OF q(3) [unfolded b]])
  have bi: "pc < ga_k g" using block_in [OF q(2) b] by auto
  let ?nc = "cols (snd (cslice t)) jc" and ?buf = "fst (fold (team_step pack kern grp) xs mem) (grp t)"
  have "?buf (jr * dlp_make_multiple_of_n (depth pc) 4 +
      panel_offset NR packb_min_NR 4 (dlp_min (?nc - jr) NR) (dlp_make_multiple_of_n (depth pc) 4) kr jj) =
    bsrc ((pc + kr) * ga_rs_b g + (jc + jr + jj) * ga_cs_b g)"
    if e: "0 \<le> kr" "kr < depth pc" "0 \<le> jj" "jj < dlp_min (?nc - jr) NR" for kr jj
  proof -
    have x: "0 \<le> jr + jj" "jr + jj < ?nc" using c(3) e(3,4) by (auto simp: dlp_min_def split: if_splits)
    have "ga_rs_b g * pc + ga_cs_b g * jc + (kr * ga_rs_b g + (jr + jj) * ga_cs_b g) = (pc + kr) * ga_rs_b g + (jc + jr + jj) * ga_cs_b g"
      by (simp add: algebra_simps)
    then show ?thesis using buffer_holds [OF s q(1,2) b e(1,2) x, of kern mem] kernel_place [OF depth_pos [OF bi] c(3,4,2) e] by simp
  qed
  then show ?thesis by (simp add: reads_B_def c(1) kernel_at_def)
qed

text \<open>The run on memory simulates the updates of the abstract matrix.\<close>

lemma team_simulates:
  assumes "interleaves (xs @ ys) (length threads) trace" "respects_barriers is_wait grp (length threads) (xs @ ys)"
    and kern: "\<And>buf. memory_kernel NR alpha amem buf (kern buf)" and "ga_cs_a g = 1" "ga_n g \<le> ga_rs_c g"
  defines "A \<equiv> \<lambda>i p. ucast (amem (i * ga_rs_a g + p))" and "B \<equiv> \<lambda>p j. scast (bsrc (p * ga_rs_b g + j * ga_cs_b g))"
  shows "(\<forall>i j. 0 \<le> i \<and> i < ga_m g \<and> 0 \<le> j \<and> j < ga_n g \<longrightarrow>
      fold (tile_update alpha A B) (map snd (calls_of xs)) (\<lambda>i j. snd mem (i * ga_rs_c g + j)) i j =
      snd (fold (team_step pack kern grp) xs mem) (i * ga_rs_c g + j)) \<and>
    (\<forall>a. (\<forall>i j. 0 \<le> i \<and> i < ga_m g \<and> 0 \<le> j \<and> j < ga_n g \<longrightarrow> a \<noteq> i * ga_rs_c g + j) \<longrightarrow>
      snd (fold (team_step pack kern grp) xs mem) a = snd mem a)"
  using assms(1,2)
proof (induction xs arbitrary: ys rule: rev_induct)
  case (snoc e xs)
  obtain t act where e: "e = (t, act)" by force
  have pre: "interleaves (xs @ (t, act) # ys) (length threads) trace" "respects_barriers is_wait grp (length threads) (xs @ (t, act) # ys)"
    using snoc.prems by (simp_all add: e)
  note IH = snoc.IH [OF pre]
  let ?mem = "fold (team_step pack kern grp) xs mem"
  show ?case
  proof (cases "\<exists>c. act = Kernel c")
    case False
    then have "calls_of [e] = []" "snd (team_step pack kern grp e ?mem) = snd ?mem"
      by (cases act; simp add: e calls_of_single team_step_def split: prod.splits)+
    then show ?thesis using IH by (simp add: calls_of_append)
  next
    case True
    then obtain c where c: "act = Kernel c" by blast
    have pl: "placed g c" using schedule_member [OF pre(1), of "(t, Kernel c)"] call_placed [of t c] by (simp add: c)
    have rd: "reads_B NR B (fst ?mem (grp t)) c" unfolding B_def by (rule call_reads) (use pre c in simp_all)
    have st: "snd (team_step pack kern grp e ?mem) = kern (fst ?mem (grp t)) c (snd ?mem)" "calls_of [e] = [(t, c)]"
      by (simp_all add: e c team_step_def calls_of_single split: prod.splits)
    note sim = memory_kernel.kern_simulates [OF kern pl rd assms(4,5), where A = A] and frame = memory_kernel.kern_keeps [OF kern pl]
    show ?thesis unfolding calls_of_append st map_append fold_append o_apply list.map fold_simps snd_conv
      using IH by (intro conjI allI impI; (subst sim | subst frame)) (auto simp: A_def)
  qed
qed (simp add: calls_of_def)

section \<open>What the team computes\<close>

lemma wait_count:
  assumes "t < length threads"
  shows "length (filter is_wait (trace t)) = 2 * length (blks t) + 1"
proof -
  let ?W = "Wait (work_id (tj t)) (ocomm_id (ti t))" and ?pk = "packs (ti t) (snd (cslice t))"
    and ?wk = "works (fst (rslice t)) (snd (rslice t)) (snd (cslice t))"
  have ess: "filter essential (trace t) = concat (map (\<lambda>blk. [?W] @ ?pk blk @ [?W] @ ?wk blk) (blks t)) @ [Wait (work_id (tj t)) (ocomm_id (tj t))]"
    using run_blocks [OF ids tile, of packa t] run_of [OF assms] by simp
  have quiet: "filter is_wait (?pk blk) = []" "filter is_wait (?wk blk) = []" for blk
    by (auto simp: packs_def works_def Let_def filter_empty_conv split: prod.splits)
  have "length (filter is_wait (concat (map (\<lambda>blk. [?W] @ ?pk blk @ [?W] @ ?wk blk) bs))) = 2 * length bs" for bs
    by (induction bs) (simp_all add: quiet)
  then have "length (filter is_wait (filter essential (trace t))) = 2 * length (blks t) + 1" unfolding ess by simp
  moreover have "filter is_wait (filter essential (trace t)) = filter is_wait (trace t)"
    unfolding filter_filter by (rule filter_cong) (auto dest: wait_essential)
  ultimately show ?thesis by simp
qed

text \<open>The threads can run: a schedule that respects the barriers exists.\<close>

lemma team_can_run: "\<exists>sched. interleaves sched (length threads) trace \<and> respects_barriers is_wait grp (length threads) sched"
proof -
  let ?E = "Suc (Max ((\<lambda>t. length (filter is_wait (trace t))) ` {..<length threads}))"
  have "length (filter is_wait (trace t)) < ?E" if "t < length threads" for t using that by (simp add: less_Suc_eq_le)
  moreover have "length (filter is_wait (trace u)) = length (filter is_wait (trace t))"
    if "t < length threads" "u < length threads" "grp u = grp t" for t u
    using same_columns [OF that] by (simp add: wait_count that)
  ultimately show ?thesis
    using phase_by_phase_interleaves [of "length threads" is_wait trace ?E] phase_by_phase_respects [of "length threads" grp is_wait trace ?E] by blast
qed

lemma team_product_on_memory:
  fixes mem :: "(md_t \<Rightarrow> bytes) \<times> (md_t \<Rightarrow> int32_t)"
  assumes s: "interleaves sched (length threads) trace" "respects_barriers is_wait grp (length threads) sched"
    and kern: "\<And>buf. memory_kernel NR alpha amem buf (kern buf)" and "ga_cs_a g = 1" "ga_n g \<le> ga_rs_c g"
    and pos: "0 < ga_m g" "0 < ga_n g" "0 < ga_k g"
  defines "out \<equiv> snd (fold (team_step pack kern grp) sched mem)"
  shows "0 \<le> i \<Longrightarrow> i < ga_m g \<Longrightarrow> 0 \<le> j \<Longrightarrow> j < ga_n g \<Longrightarrow> out (i * ga_rs_c g + j) = ga_beta g * snd mem (i * ga_rs_c g + j) +
      alpha * (\<Sum>p \<in> {0..<ga_k g}. ucast (amem (i * ga_rs_a g + p)) * scast (bsrc (p * ga_rs_b g + j * ga_cs_b g)))"
    and "(\<And>i j. 0 \<le> i \<Longrightarrow> i < ga_m g \<Longrightarrow> 0 \<le> j \<Longrightarrow> j < ga_n g \<Longrightarrow> a \<noteq> i * ga_rs_c g + j) \<Longrightarrow> out a = snd mem a"
proof -
  let ?A = "\<lambda>i p. ucast (amem (i * ga_rs_a g + p)) :: int32_t" and ?B = "\<lambda>p j. scast (bsrc (p * ga_rs_b g + j * ga_cs_b g)) :: int32_t"
  note sim = team_simulates [of sched "[]", unfolded append_Nil2, OF s kern assms(4,5), of mem, folded out_def]
  have steps: "depth_steps i j (trace t) = (if run_owns False g lcntx (threads ! t) i j then run_depth False g lcntx else [])"
    if "t < length threads" for t i j
    using driver_steps [OF ok dims(2), of False packa undefined "threads ! t"] run_of(1) [OF that] plain(2)
      depth_steps_essential [OF run_of(2) [OF that]] by (auto simp: dlp_gemm_rowvar_u8s8s32o32_def)
  note prod = tile_kernel.team_product [OF ref_kernel.tile_kernel_axioms team pos ok steps calls_interleave [OF s(1)], of alpha ?A ?B]
  show "out (i * ga_rs_c g + j) = ga_beta g * snd mem (i * ga_rs_c g + j) + alpha * (\<Sum>p \<in> {0..<ga_k g}. ?A i p * ?B p j)"
    if ij: "0 \<le> i" "i < ga_m g" "0 \<le> j" "j < ga_n g"
    using sim [THEN conjunct1, rule_format, of i j] prod [of "\<lambda>i j. snd mem (i * ga_rs_c g + j)" i j] ij by simp
  show "out a = snd mem a" if "\<And>i j. 0 \<le> i \<Longrightarrow> i < ga_m g \<Longrightarrow> 0 \<le> j \<Longrightarrow> j < ga_n g \<Longrightarrow> a \<noteq> i * ga_rs_c g + j"
    using sim [THEN conjunct2] that by blast
qed

end

text \<open>An instance: four threads, two column groups of two.\<close>

interpretation example_team: packed_team "example_args 20 100 9 PACK" "example_cntx 144 1024 2048 6 64" bsrc "ref_pack 64 100 1 bsrc"
  "map (\<lambda>t. thread_setup 4 2 2 (int t) UNPACKED DEFAULT) [0..<4]"
  "\<lambda>t. the (gemm_5loop packa (example_args 20 100 9 PACK) (example_cntx 144 1024 2048 6 64) (map (\<lambda>t. thread_setup 4 2 2 (int t) UNPACKED DEFAULT) [0..<4] ! t))" packa
proof -
  let ?g = "example_args 20 100 9 PACK" and ?c = "example_cntx 144 1024 2048 6 64" and ?thr = "map (\<lambda>t. thread_setup 4 2 2 (int t) UNPACKED DEFAULT) [0..<4]"
  have "bs_NR (cx_blksz ?c) = 64" "ga_rs_b ?g = 100" "ga_cs_b ?g = 1" by (simp_all add: example_args_def example_cntx_def)
  then have pk: "pack_kernel (bs_NR (cx_blksz ?c)) (ga_rs_b ?g) (ga_cs_b ?g) bsrc (ref_pack 64 100 1 bsrc)" using ref_pack.pack_kernel_axioms by simp
  have team: "is_team ?thr" unfolding is_team_def
    by (intro exI [of _ 4] exI [of _ 2] exI [of _ UNPACKED] exI [of _ DEFAULT]) (simp add: nth_map)
  have run: "gemm_5loop packa ?g ?c th = Some (the (gemm_5loop packa ?g ?c th))" for th
    using driver_steps [OF example_pack.ok example_pack.dims(2), of False packa undefined th] example_pack.plain(2)
    by (auto simp: dlp_gemm_rowvar_u8s8s32o32_def)
  show "packed_team ?g ?c bsrc (ref_pack 64 100 1 bsrc) ?thr (\<lambda>t. the (gemm_5loop packa ?g ?c (?thr ! t))) packa"
    using example_pack.packed_run_axioms pk team run unfolding packed_team_def packed_team_axioms_def by blast
qed

end
