(* ===== verification/S8_Driver.thy ===== *)
theory S8_Driver
  imports Driver_Pack
begin

text \<open>
  The driver of the signed GEMM, \<open>dlp_gemm_rowvar_s8s8s32o32\<close> with its matrix-vector branch
  \<open>dlp_gemv_rowvar_s8s8s32o32\<close>, \<^verbatim>\<open>classic/frame/s8s8s32/dlp_gemm_s8s8s32.c\<close>.

  The kernels multiply unsigned with signed bytes: they add 128 to the elements of A and, in the last block of the
  depth, subtract 128 times the sum of the column of B. These sums lie behind a reordered B, or behind the packed
  block in the buffer of the group, cleared with the first block and added to by the packing kernel. A run is the list
  of what a thread does, as in \<open>Gemm_Driver\<close>, with the stores to the sums and the pointer to them.

  The lemmas show that apart from the sums the signed driver does what the unsigned driver does: it
  passes the same barriers and makes the same packing and kernel calls.
\<close>

section \<open>What a thread does\<close>

text \<open>A pointer to column sums: the byte offset of the table in the matrix B or in the pack buffer, and an index
  into it.\<close>

datatype sum_ptr = No_sums | Sums_matrix md_t md_t | Sums_buffer md_t md_t

fun sum_offset :: "sum_ptr \<Rightarrow> md_t \<Rightarrow> sum_ptr" where
  "sum_offset No_sums i = No_sums"
| "sum_offset (Sums_matrix t x) i = Sums_matrix t (x + i)"
| "sum_offset (Sums_buffer t x) i = Sums_buffer t (x + i)"

datatype s8_action =
    Plain action
  | Clear_sums sum_ptr md_t md_t
  | Pack_s8 md_t md_t md_t md_t sum_ptr
  | Kernel_s8 kernel_call sum_ptr

section \<open>The loops of the driver\<close>

text \<open>\<open>b_sum_offset\<close> is carried by the loop beside the buffers. The pointer of a kernel call is
  \<open>b_col_sum_vec + b_sum_offset\<close>.\<close>

definition s8_jr_loop ::
  "gemm_args \<Rightarrow> dlp_gemm_cntx_t \<Rightarrow> md_t \<Rightarrow> md_t \<Rightarrow> md_t \<Rightarrow> md_t \<Rightarrow> md_t \<Rightarrow> md_t \<Rightarrow> operand \<times> md_t \<times> md_t \<times> md_t \<Rightarrow> operand \<Rightarrow>
   sum_ptr \<Rightarrow> c_operand \<Rightarrow> md_t \<Rightarrow> drv_buffers \<times> md_t \<Rightarrow> ((drv_buffers \<times> md_t) \<times> s8_action list) option" where
  "s8_jr_loop g lcntx jc nc0 pc kc0 ic mc0 a_use b_use b_col_sum_vec c_use_ic rs_c_use =
     (let NR = bs_NR (cx_blksz lcntx);
          KC = bs_KC (cx_blksz lcntx);
          kc0_updated = dlp_make_multiple_of_n kc0 4;
          beta0 = (if pc = 0 then ga_beta g else 1)
      in for_loop 0 nc0 (\<lambda>jr. jr + NR)
           (\<lambda>jr (s, b_sum_offset). Some ((s, b_sum_offset + NR),
              [Kernel_s8 \<lparr>kc_mc0 = mc0, kc_nr0 = dlp_min (nc0 - jr) NR, kc_kc0 = kc0, kc_pc = pc,
               kc_a = fst a_use, kc_a_strides = snd a_use, kc_b = o_offset b_use (jr * kc0_updated),
               kc_b_panel = (0, 0), kc_c = c_offset c_use_ic jr, kc_rs_c = rs_c_use, kc_beta0 = beta0,
               kc_attr = \<lparr>post_op_c_i = ic, post_op_c_j = jc + jr, is_first_k = (pc = 0),
                          is_last_k = (pc + KC \<ge> ga_k g)\<rparr>\<rparr> (sum_offset b_col_sum_vec b_sum_offset)])))"

definition s8_a_operand ::
  "(md_t \<Rightarrow> md_t \<Rightarrow> md_t \<Rightarrow> md_t \<Rightarrow> md_t \<times> md_t) \<Rightarrow> gemm_args \<Rightarrow> md_t \<Rightarrow> md_t \<Rightarrow> md_t \<Rightarrow> md_t \<Rightarrow> drv_buffers \<Rightarrow>
   drv_buffers \<times> action list \<times> (operand \<times> md_t \<times> md_t \<times> md_t)" where
  "s8_a_operand packa g pc kc0 ic mc0 s =
     (let kc0_updated = dlp_make_multiple_of_n kc0 4 in
      if ga_mtag_a g = PACK then
        let mem_a_size_req = mc0 * kc0_updated;
            (rs_a_use, cs_a_use) = packa (ga_rs_a g) (ga_cs_a g) mc0 kc0
        in (s\<lparr>have_a := True\<rparr>,
            (if have_a s then [] else [Alloc_a mem_a_size_req]) @ [Pack_a (ga_rs_a g * ic + ga_cs_a g * pc) mc0 kc0],
            (In_buffer 0, rs_a_use, cs_a_use, if ga_cs_a g = 1 then kc0_updated else rs_a_use))
      else (s, [], (In_matrix (ga_rs_a g * ic + ga_cs_a g * pc), ga_rs_a g, 4, ga_rs_a g)))"

definition s8_ic_loop ::
  "(md_t \<Rightarrow> md_t \<Rightarrow> md_t \<Rightarrow> md_t \<Rightarrow> md_t \<times> md_t) \<Rightarrow> gemm_args \<Rightarrow> dlp_gemm_cntx_t \<Rightarrow> md_t \<Rightarrow> md_t \<Rightarrow> md_t \<Rightarrow> md_t \<Rightarrow> md_t \<Rightarrow> md_t \<Rightarrow>
   operand \<Rightarrow> sum_ptr \<Rightarrow> c_operand \<Rightarrow> md_t \<Rightarrow> drv_buffers \<Rightarrow> (drv_buffers \<times> s8_action list) option" where
  "s8_ic_loop packa g lcntx ic_start ic_end jc nc0 pc kc0 b_use b_col_sum_vec c_use_jc rs_c_use =
     (let MC = bs_MC (cx_blksz lcntx)
      in for_loop ic_start ic_end (\<lambda>ic. ic + MC)
           (\<lambda>ic s.
              let mc0 = dlp_min (ic_end - ic) MC;
                  c_use_ic = (if downscaled (ga_c_downscale g) then c_offset c_use_jc (rs_c_use * (ic - ic_start))
                              else c_offset c_use_jc (rs_c_use * ic));
                  (s, acts, a_use) = s8_a_operand packa g pc kc0 ic mc0 s
              in map_option (\<lambda>((s', _), calls). (s', map Plain acts @ calls))
                   (s8_jr_loop g lcntx jc nc0 pc kc0 ic mc0 a_use b_use b_col_sum_vec c_use_ic rs_c_use (s, 0))))"

text \<open>The operand B of a chunk and the pointer to its sums. \<open>pack_b_column_sum\<close> is set with the first block of the
  depth and kept for the others.\<close>

definition s8_b_operand ::
  "gemm_args \<Rightarrow> dlp_gemm_cntx_t \<Rightarrow> dlp_task_id_t \<Rightarrow> dlp_task_id_t \<Rightarrow> md_t \<Rightarrow> md_t \<Rightarrow> md_t \<Rightarrow> md_t \<Rightarrow> md_t \<Rightarrow> md_t \<Rightarrow> md_t \<Rightarrow>
   drv_buffers \<times> sum_ptr \<Rightarrow> (drv_buffers \<times> sum_ptr) \<times> s8_action list \<times> operand \<times> sum_ptr" where
  "s8_b_operand g lcntx thread_jc thread_ic jc nc0 jc_cur_loop jc_cur_loop_rem n_sub_updated pc kc0 st =
     (let (s, pack_b_column_sum) = st;
          kc0_updated = dlp_make_multiple_of_n kc0 4;
          k_updated = dlp_make_multiple_of_n (ga_k g) 4;
          n_updated = dlp_make_multiple_of_n (ga_n g) 16
      in if ga_mtag_b g = PACK then
           let jc_work_id = work_id thread_jc;
               nc0_updated = dlp_make_multiple_of_n nc0 packb_min_NR;
               mem_b_size_req = nc0_updated * kc0_updated + nc0_updated * 4;
               chief = (if dlp_thread_am_ochief thread_ic
                        then (if have_b s then [] else [Alloc_b mem_b_size_req]) @ [Send_b jc_work_id] else []);
               (jc_packb_start, jc_packb_end) = dlp_thread_task_range thread_ic nc0 (bs_NR (cx_blksz lcntx)) False;
               pack_b_column_sum = (if pc = 0 then Sums_buffer (nc0_updated * kc0_updated) 0 else pack_b_column_sum);
               pack = (if jc_packb_end > jc_packb_start \<and> jc_packb_start < jc + nc0
                       then (if pc = 0 then [Clear_sums pack_b_column_sum jc_packb_start jc_packb_end] else [])
                            @ [Pack_s8 (ga_rs_b g * pc + ga_cs_b g * jc + ga_cs_b g * jc_packb_start)
                                 (jc_packb_start * kc0_updated) (jc_packb_end - jc_packb_start) kc0
                                 (sum_offset pack_b_column_sum jc_packb_start)]
                       else [])
           in ((s\<lparr>have_b := True\<rparr>, pack_b_column_sum),
               map Plain chief @ [Plain (Wait jc_work_id (ocomm_id thread_ic))] @ pack @ [Plain (Wait jc_work_id (ocomm_id thread_ic))],
               In_buffer 0, pack_b_column_sum)
         else ((s, pack_b_column_sum), [], In_matrix (jc_cur_loop * k_updated + n_sub_updated * pc + jc_cur_loop_rem * kc0_updated),
               Sums_matrix (k_updated * n_updated) jc))"

definition s8_pc_loop ::
  "(md_t \<Rightarrow> md_t \<Rightarrow> md_t \<Rightarrow> md_t \<Rightarrow> md_t \<times> md_t) \<Rightarrow> gemm_args \<Rightarrow> dlp_gemm_cntx_t \<Rightarrow> dlp_task_id_t \<Rightarrow> dlp_task_id_t \<Rightarrow> md_t \<Rightarrow> md_t \<Rightarrow>
   md_t \<Rightarrow> md_t \<Rightarrow> md_t \<Rightarrow> md_t \<Rightarrow> md_t \<Rightarrow> c_operand \<Rightarrow> md_t \<Rightarrow> drv_buffers \<times> sum_ptr \<Rightarrow> ((drv_buffers \<times> sum_ptr) \<times> s8_action list) option" where
  "s8_pc_loop packa g lcntx thread_jc thread_ic ic_start ic_end jc nc0 jc_cur_loop jc_cur_loop_rem n_sub_updated c_use_jc rs_c_use =
     (let KC = bs_KC (cx_blksz lcntx)
      in for_loop 0 (ga_k g) (\<lambda>pc. pc + KC)
           (\<lambda>pc st.
              let kc0 = dlp_min (ga_k g - pc) KC;
                  ((s, pack_b_column_sum), acts, b_use, b_col_sum_vec) =
                    s8_b_operand g lcntx thread_jc thread_ic jc nc0 jc_cur_loop jc_cur_loop_rem n_sub_updated pc kc0 st
              in map_option (\<lambda>(s', calls). ((s', pack_b_column_sum), acts @ calls))
                   (s8_ic_loop packa g lcntx ic_start ic_end jc nc0 pc kc0 b_use b_col_sum_vec c_use_jc rs_c_use s)))"

definition s8_jc_loop ::
  "(md_t \<Rightarrow> md_t \<Rightarrow> md_t \<Rightarrow> md_t \<Rightarrow> md_t \<times> md_t) \<Rightarrow> gemm_args \<Rightarrow> dlp_gemm_cntx_t \<Rightarrow> dlp_task_id_t \<Rightarrow> dlp_task_id_t \<Rightarrow>
   (md_t \<times> md_t) \<times> (md_t \<times> md_t) \<Rightarrow> drv_buffers \<Rightarrow> (drv_buffers \<times> s8_action list) option" where
  "s8_jc_loop packa g lcntx thread_jc thread_ic tile =
     (let NC = bs_NC (cx_blksz lcntx);
          ((jc_start, jc_end), (ic_start, ic_end)) = tile
      in for_loop jc_start jc_end (jc_next g lcntx)
           (\<lambda>jc s.
              let nc0 = dlp_min (jc_end - jc) NC;
                  (jc_cur_loop, jc_cur_loop_rem, nc0, n_sub_updated) =
                    (if ga_mtag_b g = REORDERED
                     then dlp_gemm_get_B_panel_reordered_start_offset_width jc (ga_n g) NC packb_min_NR nc0
                     else (jc, 0, nc0, 0));
                  (s, acts, c_use_jc) = c_operand_jc g lcntx ic_start ic_end jc jc_end s;
                  rs_c_use = (if downscaled (ga_c_downscale g) then nc0 else ga_rs_c g)
              in map_option (\<lambda>((s', _), calls). (s', map Plain acts @ calls))
                   (s8_pc_loop packa g lcntx thread_jc thread_ic ic_start ic_end jc nc0 jc_cur_loop jc_cur_loop_rem
                      n_sub_updated c_use_jc rs_c_use (s, No_sums))))"

definition s8_gemm_5loop ::
  "(md_t \<Rightarrow> md_t \<Rightarrow> md_t \<Rightarrow> md_t \<Rightarrow> md_t \<times> md_t) \<Rightarrow> gemm_args \<Rightarrow> dlp_gemm_cntx_t \<Rightarrow> dlp_gemm_thrinfo_t \<Rightarrow> s8_action list option" where
  "s8_gemm_5loop packa g lcntx thread =
     (let (thread_jc, thread_ic) = dlp_gemm_gen_dlp_task_ids (Some thread);
          tile = driver_tile thread (ga_m g) (ga_n g) lcntx
      in (case s8_jc_loop packa g lcntx thread_jc thread_ic tile \<lparr>have_b = False, have_a = False, have_c = False\<rparr> of
            None \<Rightarrow> None
          | Some (s, acts) \<Rightarrow>
              Some (acts @ map Plain
                ((if ga_mtag_b g = PACK
                  then [Wait (work_id thread_jc) (ocomm_id thread_jc)]
                       @ (if dlp_thread_am_ochief thread_ic \<and> have_b s then [Free_b] else [])
                  else [])
                 @ (if ga_mtag_a g = PACK \<and> have_a s then [Free_a] else [])
                 @ (if downscaled (ga_c_downscale g) \<and> have_c s then [Free_c] else [])))))"

section \<open>Matrix times vector\<close>

text \<open>One column. B is packed by the thread itself, together with its one sum.\<close>

definition s8_gemv_n1 ::
  "(md_t \<Rightarrow> md_t \<Rightarrow> md_t \<Rightarrow> md_t \<Rightarrow> md_t \<times> md_t) \<Rightarrow> gemm_args \<Rightarrow> dlp_gemm_cntx_t \<Rightarrow> dlp_gemm_thrinfo_t \<Rightarrow> s8_action list option" where
  "s8_gemv_n1 packa g lcntx thread =
     (let MC = bs_MC (cx_blksz lcntx);
          MR = 16;
          k = ga_k g;
          thread_ic = snd (dlp_gemm_gen_dlp_task_ids (Some thread));
          pack_b = (ga_mtag_b g = PACK);
          b_use = (if pack_b then In_buffer 0 else In_matrix 0);
          b_col_sum_vec = (if pack_b then Sums_buffer (dlp_gemm_col_sum_byte_offset k) 0
                           else if ga_mtag_b g = REORDERED then Sums_matrix (dlp_gemm_col_sum_byte_offset k) 0
                           else No_sums);
          thread_ic = thread_ic\<lparr>n_way := (if n_way thread_ic = 1 then thr_n_threads thread else n_way thread_ic),
                                work_id := thr_tid thread\<rparr>;
          (ic_start, ic_end) = dlp_thread_task_range thread_ic (ga_m g) MR False
      in map_option (\<lambda>(s, acts).
             (if pack_b then [Plain (Alloc_b (dlp_gemm_col_sum_byte_offset k + 4)), Clear_sums b_col_sum_vec 0 1, Pack_s8 0 0 1 k b_col_sum_vec]
              else []) @ acts
             @ map Plain (if ga_mtag_a g = PACK \<and> have_a s then [Free_a] else [])
             @ map Plain (if pack_b then [Free_b] else []))
           (for_loop ic_start ic_end (\<lambda>ic. ic + MC)
             (\<lambda>ic s.
                let mc0 = dlp_min (ic_end - ic) MC;
                    (s, acts, a_use) =
                      (if ga_mtag_a g = PACK
                       then (s\<lparr>have_a := True\<rparr>,
                             (if have_a s then [] else [Alloc_a (mc0 * k)]) @ [Pack_a (ga_rs_a g * ic) mc0 k],
                             (In_buffer 0, fst (packa (ga_rs_a g) (ga_cs_a g) mc0 k), snd (packa (ga_rs_a g) (ga_cs_a g) mc0 k), 1))
                       else (s, [], (In_matrix (ic * ga_rs_a g), ga_rs_a g, ga_cs_a g, 1)))
                in Some (s, map Plain acts @ [Kernel_s8 \<lparr>kc_mc0 = mc0, kc_nr0 = 1, kc_kc0 = k, kc_pc = 0, kc_a = fst a_use,
                     kc_a_strides = snd a_use, kc_b = b_use, kc_b_panel = (0, 0), kc_c = C_matrix (ic * ga_rs_c g),
                     kc_rs_c = ga_rs_c g, kc_beta0 = ga_beta g,
                     kc_attr = \<lparr>post_op_c_i = ic, post_op_c_j = 0, is_first_k = True, is_last_k = True\<rparr>\<rparr> b_col_sum_vec]))
             \<lparr>have_b = False, have_a = False, have_c = False\<rparr>))"

text \<open>One row.\<close>

definition s8_gemv_m1 ::
  "(md_t \<Rightarrow> md_t \<Rightarrow> md_t \<times> md_t) \<Rightarrow> gemm_args \<Rightarrow> dlp_gemm_cntx_t \<Rightarrow> dlp_gemm_thrinfo_t \<Rightarrow> s8_action list option" where
  "s8_gemv_m1 packa_mfringe g lcntx thread =
     (let NC = bs_NC (cx_blksz lcntx);
          KC = bs_KC (cx_blksz lcntx);
          k = ga_k g;
          thread_jc = fst (dlp_gemm_gen_dlp_task_ids (Some thread));
          thread_jc = thread_jc\<lparr>n_way := (if n_way thread_jc = 1 then thr_n_threads thread else n_way thread_jc),
                                work_id := thr_tid thread\<rparr>;
          (jc_start, jc_end) = dlp_thread_task_range thread_jc (ga_n g) (bs_NR (cx_blksz lcntx)) False;
          k_updated = dlp_make_multiple_of_n k 4;
          n_updated = dlp_make_multiple_of_n (ga_n g) 16;
          a_use = (if ga_mtag_a g = PACK
                   then (In_buffer 0, fst (packa_mfringe (ga_rs_a g) (ga_cs_a g)), snd (packa_mfringe (ga_rs_a g) (ga_cs_a g)), 1)
                   else (In_matrix 0, ga_rs_a g, 4, 1))
      in map_option (\<lambda>(s, acts).
             map Plain (if ga_mtag_a g = PACK then [Alloc_a k, Pack_a 0 1 k] else []) @ acts
             @ map Plain (if ga_mtag_b g = PACK \<and> have_b s then [Free_b] else [])
             @ map Plain (if ga_mtag_a g = PACK then [Free_a] else []))
           (for_loop jc_start jc_end (jc_next g lcntx)
             (\<lambda>jc s.
                let nc0 = dlp_min (jc_end - jc) NC;
                    (jc_cur_loop, jc_cur_loop_rem, nc0, n_sub_updated) =
                      (if ga_mtag_b g = REORDERED
                       then dlp_gemm_get_B_panel_reordered_start_offset_width jc (ga_n g) NC packb_min_NR nc0
                       else (jc, 0, nc0, if ga_mtag_b g = PACK then dlp_make_multiple_of_n nc0 packb_min_NR else 0));
                    b_use = (if ga_mtag_b g = REORDERED then In_matrix (jc_cur_loop * k_updated)
                             else if ga_mtag_b g = PACK then In_buffer 0 else In_matrix 0);
                    b_col_sum_vec = (if ga_mtag_b g = REORDERED then Sums_matrix (k_updated * n_updated) jc
                                     else if ga_mtag_b g = PACK then Sums_buffer (n_sub_updated * k_updated) 0 else No_sums);
                    alloc = (if ga_mtag_b g = PACK \<and> \<not> have_b s then [Plain (Alloc_b (n_sub_updated * k_updated + n_sub_updated * 4))] else []);
                    clear = (if ga_mtag_b g = PACK then [Clear_sums b_col_sum_vec 0 nc0] else []);
                    s = (if ga_mtag_b g = PACK then s\<lparr>have_b := True\<rparr> else s)
                in map_option (\<lambda>(s, packs).
                     (s, alloc @ clear @ packs @ [Kernel_s8 \<lparr>kc_mc0 = 1, kc_nr0 = nc0, kc_kc0 = k, kc_pc = 0, kc_a = fst a_use,
                       kc_a_strides = snd a_use, kc_b = b_use, kc_b_panel = (n_sub_updated, jc_cur_loop_rem),
                       kc_c = C_matrix jc, kc_rs_c = ga_rs_c g, kc_beta0 = ga_beta g,
                       kc_attr = \<lparr>post_op_c_i = 0, post_op_c_j = jc, is_first_k = True, is_last_k = True\<rparr>\<rparr> b_col_sum_vec]))
                    (if ga_mtag_b g = PACK
                     then for_loop 0 k (\<lambda>pc. pc + KC)
                            (\<lambda>pc s. Some (s, [Pack_s8 (ga_rs_b g * pc + jc * ga_cs_b g) (n_sub_updated * pc) nc0
                                                (dlp_min (k - pc) KC) b_col_sum_vec])) s
                     else Some (s, [])))
             \<lparr>have_b = False, have_a = False, have_c = False\<rparr>))"

section \<open>The entry of the driver\<close>

definition dlp_gemm_rowvar_s8s8s32o32 ::
  "bool \<Rightarrow> (md_t \<Rightarrow> md_t \<Rightarrow> md_t \<Rightarrow> md_t \<Rightarrow> md_t \<times> md_t) \<Rightarrow> (md_t \<Rightarrow> md_t \<Rightarrow> md_t \<times> md_t) \<Rightarrow> gemm_args \<Rightarrow> dlp_gemm_cntx_t \<Rightarrow>
   dlp_gemm_thrinfo_t \<Rightarrow> s8_action list option" where
  "dlp_gemm_rowvar_s8s8s32o32 kernels_zen4 packa packa_mfringe g lcntx thread =
     (if ga_mtag_b g = UNPACKED then Some []
      else if kernels_zen4 \<and> (ga_m g = 1 \<or> ga_n g = 1)
      then (if ga_n g = 1 then s8_gemv_n1 packa g lcntx thread else s8_gemv_m1 packa_mfringe g lcntx thread)
      else if ga_mtag_b g \<noteq> PACK \<and> ga_mtag_b g \<noteq> REORDERED
      then (let ((jc_start, jc_end), (ic_start, ic_end)) = driver_tile thread (ga_m g) (ga_n g) lcntx
            in Some (if jc_start < jc_end \<and> ga_k g > 0
                     then map Plain (fst (snd (c_operand_jc g lcntx ic_start ic_end jc_start jc_end
                                 \<lparr>have_b = False, have_a = False, have_c = False\<rparr>)))
                     else []))
      else s8_gemm_5loop packa g lcntx thread)"

section \<open>The signed driver does what the unsigned driver does\<close>

text \<open>Forgetting the sums.\<close>

fun erase :: "s8_action \<Rightarrow> action list" where
  "erase (Plain a) = [a]"
| "erase (Clear_sums _ _ _) = []"
| "erase (Pack_s8 src dst width dep _) = [Pack_b src dst width dep]"
| "erase (Kernel_s8 c _) = [Kernel c]"

definition erased :: "s8_action list \<Rightarrow> action list" where
  "erased xs = concat (map erase xs)"

lemma erased_simps [simp]: "erased [] = []" "erased (a # as) = erase a @ erased as" "erased (xs @ ys) = erased xs @ erased ys" "erased (map Plain bs) = bs"
proof -
  show "erased (map Plain bs) = bs" by (induction bs) (simp_all add: erased_def)
qed (simp_all add: erased_def)

lemma for_loop_sim:
  assumes step: "\<And>i s t. i < e \<Longrightarrow> R i s t \<Longrightarrow> rel_option (\<lambda>(s', xs) (t', ys). R (nxt i) s' t' \<and> p xs = q ys) (body i s) (body' i t)"
    and hom: "p [] = q []" "\<And>xs ys. p (xs @ ys) = p xs @ p ys" "\<And>xs ys. q (xs @ ys) = q xs @ q ys"
    and "R i s t"
  shows "rel_option (\<lambda>(s', xs) (t', ys). (\<exists>i. R i s' t') \<and> p xs = q ys) (for_loop i e nxt body s) (for_loop i e nxt body' t)"
  using assms(5)
proof (induction "nat (e - i)" arbitrary: i s t rule: less_induct)
  case less
  show ?case
  proof (cases "i < e \<and> i < nxt i")
    case True
    then have m: "nat (e - nxt i) < nat (e - i)" by simp
    have "rel_option (\<lambda>(s', xs) (t', ys). R (nxt i) s' t' \<and> p xs = q ys) (body i s) (body' i t)" using step less.prems True by blast
    then show ?thesis
    proof (cases rule: option.rel_cases)
      case None
      then show ?thesis using True by (simp add: for_loop.simps [of i])
    next
      case (Some x y)
      obtain s' xs t' ys where xy: "x = (s', xs)" "y = (t', ys)" by (meson surj_pair)
      have "R (nxt i) s' t'" "p xs = q ys" using Some(3) by (simp_all add: xy)
      then show ?thesis using less.hyps [OF m, of s' t'] True Some(1,2) xy hom
        by (auto simp: for_loop.simps [of i] option.rel_map elim!: option.rel_mono_strong)
    qed
  next
    case False
    then show ?thesis using less.prems hom(1) by (auto simp: for_loop.simps [of i])
  qed
qed

text \<open>Two results with the same state and the same essential actions.\<close>

definition same_run :: "('s \<times> s8_action list) option \<Rightarrow> (drv_buffers \<times> action list) option \<Rightarrow> ('s \<Rightarrow> drv_buffers) \<Rightarrow> bool" where
  "same_run x y f \<longleftrightarrow> rel_option (\<lambda>(s, xs) (t, ys). f s = t \<and> filter essential (erased xs) = filter essential ys) x y"

lemma same_run_loop:
  assumes "\<And>i s. i < e \<Longrightarrow> same_run (body i s) (body' i (f s)) f"
  shows "same_run (for_loop i e nxt body s) (for_loop i e nxt body' (f s)) f"
proof -
  have "rel_option (\<lambda>(s', xs) (t', ys). (\<exists>i :: md_t. f s' = t') \<and> filter essential (erased xs) = filter essential ys)
      (for_loop i e nxt body s) (for_loop i e nxt body' (f s))"
    by (rule for_loop_sim) (use assms in \<open>auto simp: same_run_def\<close>)
  then show ?thesis by (simp add: same_run_def)
qed

lemma same_run_wrap:
  assumes "same_run x y f" "\<And>s. h (F s) = f s" "filter essential (erased pre) = filter essential pre'"
  shows "same_run (map_option (\<lambda>(s, xs). (F s, pre @ xs)) x) (map_option (\<lambda>(t, ys). (t, pre' @ ys)) y) h"
  using assms unfolding same_run_def by (cases x; cases y) (auto simp: split_beta)

lemma drop_snd: "(\<lambda>(s, xs). (fst s, pre @ xs)) = (\<lambda>((s', _), calls). (s', pre @ calls))"
  by (rule ext) (simp add: split_beta)

lemma jr_same:
  "same_run (s8_jr_loop g lcntx jc nc0 pc kc0 ic mc0 a_use b_use v c_use rs_c (s, off))
     (jr_loop g lcntx jc nc0 pc kc0 ic mc0 a_use b_use c_use rs_c s) fst"
  unfolding s8_jr_loop_def jr_loop_def Let_def
  using same_run_loop [where f = fst and s = "(s, off)"] by (simp add: same_run_def split_beta)

lemma ic_same:
  assumes "ga_mtag_a g \<noteq> REORDERED"
  shows "same_run (s8_ic_loop packa g lcntx is ie jc nc0 pc kc0 b_use v c_use rs_c s)
     (ic_loop packa g lcntx is ie jc nc0 pc kc0 b_use c_use rs_c s) (\<lambda>s. s)"
  unfolding s8_ic_loop_def ic_loop_def Let_def
proof (rule same_run_loop)
  fix ic s
  have a: "s8_a_operand packa g pc kc0 ic mc0 s = a_operand packa g lcntx pc kc0 ic mc0 s" for mc0
    using assms by (simp add: s8_a_operand_def a_operand_def Let_def)
  let ?mc0 = "dlp_min (ie - ic) (bs_MC (cx_blksz lcntx))"
  obtain s1 acts a_use where o: "a_operand packa g lcntx pc kc0 ic ?mc0 s = (s1, acts, a_use)" by (metis prod_cases3)
  let ?c = "if downscaled (ga_c_downscale g) then c_offset c_use (rs_c * (ic - is)) else c_offset c_use (rs_c * ic)"
  have w: "same_run (map_option (\<lambda>(s, xs). (fst s, map Plain acts @ xs)) (s8_jr_loop g lcntx jc nc0 pc kc0 ic ?mc0 a_use b_use v ?c rs_c (s1, 0)))
      (map_option (\<lambda>(t, ys). (t, acts @ ys)) (jr_loop g lcntx jc nc0 pc kc0 ic ?mc0 a_use b_use ?c rs_c s1)) (\<lambda>s. s)"
    by (rule same_run_wrap [OF jr_same]) simp_all
  show "same_run (case s8_a_operand packa g pc kc0 ic ?mc0 s of (s, acts, a_use) \<Rightarrow>
        map_option (\<lambda>((s', _), calls). (s', map Plain acts @ calls)) (s8_jr_loop g lcntx jc nc0 pc kc0 ic ?mc0 a_use b_use v ?c rs_c (s, 0)))
      (case a_operand packa g lcntx pc kc0 ic ?mc0 s of (s, acts, a_use) \<Rightarrow>
        map_option (\<lambda>(s', calls). (s', acts @ calls)) (jr_loop g lcntx jc nc0 pc kc0 ic ?mc0 a_use b_use ?c rs_c s)) (\<lambda>s. s)"
    using w [unfolded drop_snd] unfolding a o prod.case .
qed

lemma b_same:
  assumes "s8_b_operand g lcntx tj ti jc nc0 x y z pc kc0 (s, v) = ((s', v'), acts, b_use, w)"
  shows "\<exists>acts'. b_operand g lcntx tj ti jc nc0 x y z pc kc0 s = (s', acts', b_use) \<and> filter essential (erased acts) = filter essential acts'"
  using assms by (auto simp: s8_b_operand_def b_operand_def Let_def split: prod.splits if_splits)

lemma pc_same:
  assumes "ga_mtag_a g \<noteq> REORDERED"
  shows "same_run (s8_pc_loop packa g lcntx tj ti is ie jc nc0 x y z c_use rs_c (s, v))
     (pc_loop packa g lcntx tj ti is ie jc nc0 x y z c_use rs_c s) fst"
  unfolding s8_pc_loop_def pc_loop_def Let_def
proof (rule same_run_loop [where f = fst and s = "(s, v)", unfolded fst_conv], goal_cases)
  case (1 pc st)
  let ?kc0 = "dlp_min (ga_k g - pc) (bs_KC (cx_blksz lcntx))"
  obtain s v where st: "st = (s, v)" by force
  obtain s1 v1 acts b_use v2 where o: "s8_b_operand g lcntx tj ti jc nc0 x y z pc ?kc0 (s, v) = ((s1, v1), acts, b_use, v2)" by (metis surj_pair)
  obtain acts' where b: "b_operand g lcntx tj ti jc nc0 x y z pc ?kc0 s = (s1, acts', b_use)" "filter essential (erased acts) = filter essential acts'"
    using b_same o by blast
  have "same_run (map_option (\<lambda>(s, xs). ((s, v1), acts @ xs)) (s8_ic_loop packa g lcntx is ie jc nc0 pc ?kc0 b_use v2 c_use rs_c s1))
      (map_option (\<lambda>(t, ys). (t, acts' @ ys)) (ic_loop packa g lcntx is ie jc nc0 pc ?kc0 b_use c_use rs_c s1)) fst"
    by (rule same_run_wrap [OF ic_same [OF assms]]) (use b in simp_all)
  then show ?case
    unfolding st fst_conv o b(1) prod.case .
qed

lemma jc_same:
  assumes "ga_mtag_a g \<noteq> REORDERED"
  shows "same_run (s8_jc_loop packa g lcntx tj ti tile s) (jc_loop packa g lcntx tj ti tile s) (\<lambda>s. s)"
proof -
  obtain js je "is" ie where tile: "tile = ((js, je), (is, ie))" by (metis surj_pair)
  show ?thesis
    unfolding s8_jc_loop_def jc_loop_def Let_def tile prod.case
  proof (rule same_run_loop)
    fix jc s
    obtain x y nc0 z where p: "(if ga_mtag_b g = REORDERED
        then dlp_gemm_get_B_panel_reordered_start_offset_width jc (ga_n g) (bs_NC (cx_blksz lcntx)) packb_min_NR (dlp_min (je - jc) (bs_NC (cx_blksz lcntx)))
        else (jc, 0, dlp_min (je - jc) (bs_NC (cx_blksz lcntx)), 0)) = (x, y, nc0, z)" by (metis prod_cases4)
    obtain s1 acts c_use where c: "c_operand_jc g lcntx is ie jc je s = (s1, acts, c_use)" by (metis prod_cases3)
    let ?rs = "if downscaled (ga_c_downscale g) then nc0 else ga_rs_c g"
    have "same_run (map_option (\<lambda>(s, xs). (fst s, map Plain acts @ xs)) (s8_pc_loop packa g lcntx tj ti is ie jc nc0 x y z c_use ?rs (s1, No_sums)))
        (map_option (\<lambda>(t, ys). (t, acts @ ys)) (pc_loop packa g lcntx tj ti is ie jc nc0 x y z c_use ?rs s1)) (\<lambda>s. s)"
      by (rule same_run_wrap [OF pc_same [OF assms]]) simp_all
    then show "same_run
        (case if ga_mtag_b g = REORDERED
           then dlp_gemm_get_B_panel_reordered_start_offset_width jc (ga_n g) (bs_NC (cx_blksz lcntx)) packb_min_NR (dlp_min (je - jc) (bs_NC (cx_blksz lcntx)))
           else (jc, 0, dlp_min (je - jc) (bs_NC (cx_blksz lcntx)), 0) of (x, y, nc0, z) \<Rightarrow>
          case c_operand_jc g lcntx is ie jc je s of (s, acts, c_use) \<Rightarrow>
            map_option (\<lambda>((s', _), calls). (s', map Plain acts @ calls))
              (s8_pc_loop packa g lcntx tj ti is ie jc nc0 x y z c_use (if downscaled (ga_c_downscale g) then nc0 else ga_rs_c g) (s, No_sums)))
        (case if ga_mtag_b g = REORDERED
           then dlp_gemm_get_B_panel_reordered_start_offset_width jc (ga_n g) (bs_NC (cx_blksz lcntx)) packb_min_NR (dlp_min (je - jc) (bs_NC (cx_blksz lcntx)))
           else (jc, 0, dlp_min (je - jc) (bs_NC (cx_blksz lcntx)), 0) of (x, y, nc0, z) \<Rightarrow>
          case c_operand_jc g lcntx is ie jc je s of (s, acts, c_use) \<Rightarrow>
            map_option (\<lambda>(s', calls). (s', acts @ calls))
              (pc_loop packa g lcntx tj ti is ie jc nc0 x y z c_use (if downscaled (ga_c_downscale g) then nc0 else ga_rs_c g) s)) (\<lambda>s. s)"
      unfolding p c prod.case drop_snd .
  qed
qed

text \<open>The five loops of the two drivers.\<close>

lemma five_loops_same:
  assumes "ga_mtag_a g \<noteq> REORDERED"
  shows "rel_option (\<lambda>xs ys. filter essential (erased xs) = filter essential ys) (s8_gemm_5loop packa g lcntx thread) (gemm_5loop packa g lcntx thread)"
proof -
  obtain tj ti where t: "dlp_gemm_gen_dlp_task_ids (Some thread) = (tj, ti)" by force
  note same = jc_same [OF assms, of packa lcntx tj ti "driver_tile thread (ga_m g) (ga_n g) lcntx" "\<lparr>have_b = False, have_a = False, have_c = False\<rparr>",
      unfolded same_run_def]
  show ?thesis unfolding s8_gemm_5loop_def gemm_5loop_def t Let_def prod.case
    using same by (cases rule: option.rel_cases) (auto simp: split_beta)
qed

text \<open>The vector branches touch the same elements.\<close>

definition same_steps :: "md_t \<Rightarrow> md_t \<Rightarrow> (drv_buffers \<times> s8_action list) option \<Rightarrow> (drv_buffers \<times> action list) option \<Rightarrow> bool" where
  "same_steps i j x y \<longleftrightarrow> rel_option (\<lambda>(s, xs) (t, ys). s = t \<and> depth_steps i j (erased xs) = depth_steps i j ys) x y"

lemma same_steps_loop:
  assumes "\<And>l s. l < e \<Longrightarrow> same_steps i j (body l s) (body' l s)"
  shows "same_steps i j (for_loop l e nxt body s) (for_loop l e nxt body' s)"
proof -
  have "rel_option (\<lambda>(s', xs) (t', ys). (\<exists>i :: md_t. s' = t') \<and> depth_steps i j (erased xs) = depth_steps i j ys)
      (for_loop l e nxt body s) (for_loop l e nxt body' s)"
    by (rule for_loop_sim) (use assms in \<open>auto simp: same_steps_def\<close>)
  then show ?thesis by (simp add: same_steps_def)
qed

lemma same_steps_wrap:
  assumes "same_steps i j x y" "\<And>s xs ys. depth_steps i j (erased xs) = depth_steps i j ys \<Longrightarrow> depth_steps i j (erased (F (s, xs))) = depth_steps i j (G (s, ys))"
  shows "rel_option (\<lambda>xs ys. depth_steps i j (erased xs) = depth_steps i j ys) (map_option F x) (map_option G y)"
  using assms unfolding same_steps_def by (cases x; cases y) auto

lemma same_steps_map:
  assumes "same_steps i j x y" "\<And>s xs ys. depth_steps i j (erased xs) = depth_steps i j ys \<Longrightarrow> same_steps i j (Some (F (s, xs))) (Some (G (s, ys)))"
  shows "same_steps i j (map_option F x) (map_option G y)"
  using assms unfolding same_steps_def by (cases x; cases y) (auto simp: split_beta)

lemma gemv_n1_same:
  "rel_option (\<lambda>xs ys. depth_steps i j (erased xs) = depth_steps i j ys) (s8_gemv_n1 packa g lcntx thread) (gemv_n1 packa g lcntx thread)"
proof -
  obtain "is" ie where r: "dlp_thread_task_range
      ((snd (dlp_gemm_gen_dlp_task_ids (Some thread)))\<lparr>n_way := (if n_way (snd (dlp_gemm_gen_dlp_task_ids (Some thread))) = 1 then thr_n_threads thread
         else n_way (snd (dlp_gemm_gen_dlp_task_ids (Some thread)))), work_id := thr_tid thread\<rparr>) (ga_m g) 16 False = (is, ie)" by force
  show ?thesis unfolding s8_gemv_n1_def gemv_n1_def Let_def r prod.case
  proof (rule same_steps_wrap, rule same_steps_loop, goal_cases)
    case (1 ic s)
    then show ?case by (cases "ga_mtag_a g = PACK") (auto simp: same_steps_def depth_steps_def touches_def)
  qed (simp add: depth_steps_def)
qed

lemma gemv_m1_same:
  "rel_option (\<lambda>xs ys. depth_steps i j (erased xs) = depth_steps i j ys) (s8_gemv_m1 packa_mfringe g lcntx thread) (gemv_m1 packa_mfringe g lcntx thread)"
proof -
  obtain js je where r: "dlp_thread_task_range
      ((fst (dlp_gemm_gen_dlp_task_ids (Some thread)))\<lparr>n_way := (if n_way (fst (dlp_gemm_gen_dlp_task_ids (Some thread))) = 1 then thr_n_threads thread
         else n_way (fst (dlp_gemm_gen_dlp_task_ids (Some thread)))), work_id := thr_tid thread\<rparr>) (ga_n g) (bs_NR (cx_blksz lcntx)) False = (js, je)" by force
  show ?thesis unfolding s8_gemv_m1_def gemv_m1_def Let_def r prod.case
  proof (rule same_steps_wrap, rule same_steps_loop, goal_cases)
    case (1 jc s)
    obtain x y nc0 z where p: "(if ga_mtag_b g = REORDERED
        then dlp_gemm_get_B_panel_reordered_start_offset_width jc (ga_n g) (bs_NC (cx_blksz lcntx)) packb_min_NR (dlp_min (je - jc) (bs_NC (cx_blksz lcntx)))
        else (jc, 0, dlp_min (je - jc) (bs_NC (cx_blksz lcntx)), if ga_mtag_b g = PACK then dlp_make_multiple_of_n (dlp_min (je - jc) (bs_NC (cx_blksz lcntx))) packb_min_NR else 0))
        = (x, y, nc0, z)" by (metis prod_cases4)
    have packs: "same_steps i j (for_loop 0 (ga_k g) (\<lambda>pc. pc + bs_KC (cx_blksz lcntx))
          (\<lambda>pc s. Some (s, [Pack_s8 (ga_rs_b g * pc + jc * ga_cs_b g) (z * pc) nc0 (dlp_min (ga_k g - pc) (bs_KC (cx_blksz lcntx))) v])) s)
        (for_loop 0 (ga_k g) (\<lambda>pc. pc + bs_KC (cx_blksz lcntx))
          (\<lambda>pc s. Some (s, [Pack_b (ga_rs_b g * pc + jc * ga_cs_b g) (z * pc) nc0 (dlp_min (ga_k g - pc) (bs_KC (cx_blksz lcntx)))])) s)" for v s
      by (rule same_steps_loop) (simp add: same_steps_def depth_steps_def)
    have "same_steps i j (if ga_mtag_b g = PACK then for_loop 0 (ga_k g) (\<lambda>pc. pc + bs_KC (cx_blksz lcntx))
          (\<lambda>pc s. Some (s, [Pack_s8 (ga_rs_b g * pc + jc * ga_cs_b g) (z * pc) nc0 (dlp_min (ga_k g - pc) (bs_KC (cx_blksz lcntx))) v])) s
          else Some (s, []))
        (if ga_mtag_b g = PACK then for_loop 0 (ga_k g) (\<lambda>pc. pc + bs_KC (cx_blksz lcntx))
          (\<lambda>pc s. Some (s, [Pack_b (ga_rs_b g * pc + jc * ga_cs_b g) (z * pc) nc0 (dlp_min (ga_k g - pc) (bs_KC (cx_blksz lcntx)))])) s
          else Some (s, []))" for v s
      using packs by (simp add: same_steps_def)
    then show ?case unfolding p prod.case by (rule same_steps_map) (auto simp: same_steps_def depth_steps_def touches_def)
  qed (simp add: depth_steps_def)
qed

text \<open>Every run of the signed driver ends, and its kernel calls cover each element the way those of the unsigned driver
  do.\<close>

lemma s8_driver_steps:
  assumes "blksz_ok (cx_blksz lcntx)" "0 \<le> ga_n g" "ga_mtag_b g \<in> {PACK, REORDERED}" "ga_mtag_a g \<noteq> REORDERED"
  shows "\<exists>as. dlp_gemm_rowvar_s8s8s32o32 kernels_zen4 packa packa_mfringe g lcntx thread = Some as \<and>
    (\<forall>i j. depth_steps i j (erased as) = (if run_owns kernels_zen4 g lcntx thread i j then run_depth kernels_zen4 g lcntx else []))"
proof -
  let ?s8 = "dlp_gemm_rowvar_s8s8s32o32 kernels_zen4 packa packa_mfringe g lcntx thread"
  obtain bs where b: "dlp_gemm_rowvar_u8s8s32o32 kernels_zen4 packa packa_mfringe g lcntx thread = Some bs"
    "\<And>i j. depth_steps i j bs = (if run_owns kernels_zen4 g lcntx thread i j then run_depth kernels_zen4 g lcntx else [])"
    using driver_steps [OF assms(1-3), of kernels_zen4 packa packa_mfringe thread] by blast
  have five: "rel_option (\<lambda>xs ys. depth_steps i j (erased xs) = depth_steps i j ys) (s8_gemm_5loop packa g lcntx thread) (gemm_5loop packa g lcntx thread)" for i j
    using five_loops_same [OF assms(4)] by (rule option.rel_mono_strong) (rule depth_steps_essential)
  have "rel_option (\<lambda>xs ys. depth_steps i j (erased xs) = depth_steps i j ys) ?s8
      (dlp_gemm_rowvar_u8s8s32o32 kernels_zen4 packa packa_mfringe g lcntx thread)" for i j
    using gemv_n1_same gemv_m1_same five assms(3) by (auto simp: dlp_gemm_rowvar_s8s8s32o32_def dlp_gemm_rowvar_u8s8s32o32_def)
  then have "\<exists>as. ?s8 = Some as \<and> depth_steps i j (erased as) = depth_steps i j bs" for i j
    unfolding b(1) by (auto simp: option_rel_Some2)
  then show ?thesis using b(2) by (metis option.inject)
qed

end
