(* ===== verification/S8_Team.thy ===== *)
theory S8_Team
  imports S8_Driver Driver_Team
begin

text \<open>
  A team of the signed driver on memory, when the threads pack B themselves. Beside the packed block, the buffer of a
  column group holds the column sums of the block's columns over the depth packed so far. The lemmas show that in every
  schedule that respects the barriers a kernel call of the last block of the depth finds there 128 times the
  sums over the whole depth, so that what the kernels add to A cancels and C gets the signed product.
\<close>

section \<open>A run by its blocks\<close>

lemma for_loop_run:
  assumes step: "\<And>i s. i0 \<le> i \<Longrightarrow> i < e \<Longrightarrow> I i s \<Longrightarrow> \<exists>s' xs. body i s = Some (s', xs) \<and> I (nxt i) s' \<and> proj xs = out i"
    and up: "\<And>i. i0 \<le> i \<Longrightarrow> i < e \<Longrightarrow> i < nxt i"
    and proj: "proj [] = []" "\<And>xs ys. proj (xs @ ys) = proj xs @ proj ys"
    and "i0 \<le> i" "I i s"
  shows "\<exists>s' xs. for_loop i e nxt body s = Some (s', xs) \<and> proj xs = concat (map out (loop_points i e nxt))"
  using assms(5,6)
proof (induction "nat (e - i)" arbitrary: i s rule: less_induct)
  case less
  show ?case
  proof (cases "i < e")
    case False
    then show ?thesis using proj(1) by (simp add: for_loop.simps loop_points.simps)
  next
    case True
    obtain s' xs where b: "body i s = Some (s', xs)" "I (nxt i) s'" "proj xs = out i" using step less.prems True by blast
    have up': "i < nxt i" using up less.prems True by blast
    have "nat (e - nxt i) < nat (e - i)" using up' True by simp
    then obtain s'' ys where r: "for_loop (nxt i) e nxt body s' = Some (s'', ys)" "proj ys = concat (map out (loop_points (nxt i) e nxt))"
      using less.hyps [of "nxt i" s'] b(2) up' less.prems by auto
    have "for_loop i e nxt body s = Some (s'', xs @ ys)" using True up' b(1) r(1) by (subst for_loop.simps) simp
    moreover have "loop_points i e nxt = i # loop_points (nxt i) e nxt" using True up' by (subst loop_points.simps) simp
    ultimately show ?thesis using b r proj(2) by simp
  qed
qed

fun s8_essential :: "s8_action \<Rightarrow> bool" where
  "s8_essential (Plain a) \<longleftrightarrow> essential a" | "s8_essential _ \<longleftrightarrow> True"

fun s8_wait :: "s8_action \<Rightarrow> bool" where
  "s8_wait (Plain a) \<longleftrightarrow> is_wait a" | "s8_wait _ \<longleftrightarrow> False"

lemma s8_wait_essential: "s8_wait a \<Longrightarrow> s8_essential a"
  by (cases a) (auto intro: wait_essential)

lemma filter_map_Plain: "filter s8_essential (map Plain as) = map Plain (filter essential as)"
  by (simp add: filter_map o_def)

context packed_run
begin

text \<open>The sums of a chunk of columns lie behind its first block.\<close>

definition sum_table :: "md_t \<Rightarrow> md_t \<Rightarrow> md_t" where
  "sum_table je jc = dlp_make_multiple_of_n (cols je jc) packb_min_NR * dlp_make_multiple_of_n (depth 0) 4"

definition s8_packs :: "dlp_task_id_t \<Rightarrow> md_t \<Rightarrow> md_t \<times> md_t \<Rightarrow> s8_action list" where
  "s8_packs ti je blk = (case blk of (jc, pc) \<Rightarrow>
     let r = task_slice False (cols je jc) NR (n_way ti) (work_id ti)
     in if fst r < snd r
        then (if pc = 0 then [Clear_sums (Sums_buffer (sum_table je jc) 0) (fst r) (snd r)] else [])
          @ [Pack_s8 (ga_rs_b g * pc + ga_cs_b g * jc + ga_cs_b g * fst r) (fst r * dlp_make_multiple_of_n (depth pc) 4) (snd r - fst r) (depth pc)
              (Sums_buffer (sum_table je jc) (fst r))]
        else [])"

definition s8_works :: "md_t \<Rightarrow> md_t \<Rightarrow> md_t \<Rightarrow> md_t \<times> md_t \<Rightarrow> s8_action list" where
  "s8_works is ie je blk = (case blk of (jc, pc) \<Rightarrow>
     concat (map (\<lambda>ic. concat (map (\<lambda>jr. [Kernel_s8 (kernel_at jc (cols je jc) pc (depth pc) ic (dlp_min (ie - ic) MC) jr) (Sums_buffer (sum_table je jc) jr)])
       (loop_points 0 (cols je jc) (\<lambda>jr. jr + NR)))) (loop_points is ie (\<lambda>ic. ic + MC))))"

abbreviation "s8_block ti je W is ie blk \<equiv> [Plain W] @ s8_packs ti je blk @ [Plain W] @ s8_works is ie je blk"

lemma s8_jr_run:
  "\<exists>s' xs. s8_jr_loop g lcntx jc nc0 pc kc0 ic mc0 (In_matrix (ga_rs_a g * ic + ga_cs_a g * pc), ga_rs_a g, 4, ga_rs_a g) (In_buffer 0)
     (Sums_buffer tb 0) (C_matrix (jc + ga_rs_c g * ic)) (ga_rs_c g) (s, 0) = Some (s', xs) \<and>
   xs = concat (map (\<lambda>jr. [Kernel_s8 (kernel_at jc nc0 pc kc0 ic mc0 jr) (Sums_buffer tb jr)]) (loop_points 0 nc0 (\<lambda>jr. jr + NR)))"
  unfolding s8_jr_loop_def Let_def
  by (rule for_loop_run [where I = "\<lambda>jr st. snd st = jr" and ?i0.0 = 0])
    (use sizes in \<open>auto simp: kernel_at_def o_offset_def c_offset_def\<close>)

lemma s8_ic_run:
  "\<exists>s' xs. s8_ic_loop packa g lcntx is ie jc (cols je jc) pc (depth pc) (In_buffer 0) (Sums_buffer (sum_table je jc) 0) (C_matrix jc) (ga_rs_c g) s =
   Some (s', xs) \<and> xs = s8_works is ie je (jc, pc)"
proof -
  let ?out = "\<lambda>ic. concat (map (\<lambda>jr. [Kernel_s8 (kernel_at jc (cols je jc) pc (depth pc) ic (dlp_min (ie - ic) MC) jr) (Sums_buffer (sum_table je jc) jr)])
       (loop_points 0 (cols je jc) (\<lambda>jr. jr + NR)))"
  have "\<exists>s' xs. s8_ic_loop packa g lcntx is ie jc (cols je jc) pc (depth pc) (In_buffer 0) (Sums_buffer (sum_table je jc) 0) (C_matrix jc) (ga_rs_c g) s =
     Some (s', xs) \<and> xs = concat (map ?out (loop_points is ie (\<lambda>ic. ic + MC)))"
    unfolding s8_ic_loop_def Let_def
  proof (rule for_loop_run [where I = "\<lambda>_ _. True" and ?i0.0 = "is"], goal_cases)
    case (1 ic s)
    have a: "s8_a_operand packa g pc (depth pc) ic mc0 s = (s, [], (In_matrix (ga_rs_a g * ic + ga_cs_a g * pc), ga_rs_a g, 4, ga_rs_a g))" for mc0
      by (simp add: s8_a_operand_def plain Let_def)
    have d: "\<not> downscaled (ga_c_downscale g)" by (simp add: downscaled_def plain)
    show ?case using s8_jr_run [of jc "cols je jc" pc "depth pc" ic "dlp_min (ie - ic) MC" "sum_table je jc" s]
      by (auto simp: a d c_offset_def)
  qed (use sizes in simp_all)
  then show ?thesis by (simp add: s8_works_def)
qed

lemma s8_b_run:
  assumes "0 \<le> jc" "jc < je" "pc \<noteq> 0 \<Longrightarrow> v = Sums_buffer (sum_table je jc) 0"
  shows "\<exists>s' acts. s8_b_operand g lcntx tj ti jc (cols je jc) a b c pc (depth pc) (s, v) =
      ((s', Sums_buffer (sum_table je jc) 0), acts, In_buffer 0, Sums_buffer (sum_table je jc) 0) \<and>
    filter s8_essential acts = [Plain (Wait (work_id tj) (ocomm_id ti))] @ s8_packs ti je (jc, pc) @ [Plain (Wait (work_id tj) (ocomm_id ti))]"
proof -
  obtain st en where r: "task_slice False (cols je jc) NR (n_way ti) (work_id ti) = (st, en)" by force
  have "st < jc + cols je jc" if "st < en"
    using slice_in [of "cols je jc" "n_way ti" "work_id ti"] that assms cols_pos [OF assms(2)] by (simp add: r)
  then show ?thesis using assms(3)
    by (auto simp: s8_b_operand_def plain Let_def s8_packs_def task_range_eq_slice r filter_map_Plain sum_table_def)
qed

lemma s8_pc_run:
  assumes "0 \<le> jc" "jc < je"
  shows "\<exists>s' xs. s8_pc_loop packa g lcntx tj ti is ie jc (cols je jc) a b c (C_matrix jc) (ga_rs_c g) (s, No_sums) = Some (s', xs) \<and>
    filter s8_essential xs = concat (map (\<lambda>pc. s8_block ti je (Wait (work_id tj) (ocomm_id ti)) is ie (jc, pc)) (loop_points 0 (ga_k g) (\<lambda>pc. pc + KC)))"
  unfolding s8_pc_loop_def Let_def
proof (rule for_loop_run [where I = "\<lambda>pc st. pc \<noteq> 0 \<longrightarrow> snd st = Sums_buffer (sum_table je jc) 0" and ?i0.0 = 0], goal_cases)
  case (1 pc st)
  obtain s v where st: "st = (s, v)" by force
  have v: "pc \<noteq> 0 \<Longrightarrow> v = Sums_buffer (sum_table je jc) 0" using 1(3) by (simp add: st)
  obtain s1 acts where b: "s8_b_operand g lcntx tj ti jc (cols je jc) a b c pc (depth pc) (s, v) =
      ((s1, Sums_buffer (sum_table je jc) 0), acts, In_buffer 0, Sums_buffer (sum_table je jc) 0)"
    "filter s8_essential acts = [Plain (Wait (work_id tj) (ocomm_id ti))] @ s8_packs ti je (jc, pc) @ [Plain (Wait (work_id tj) (ocomm_id ti))]"
    using s8_b_run [OF assms v] by blast
  obtain s2 where w: "s8_ic_loop packa g lcntx is ie jc (cols je jc) pc (depth pc) (In_buffer 0) (Sums_buffer (sum_table je jc) 0) (C_matrix jc) (ga_rs_c g) s1 =
      Some (s2, s8_works is ie je (jc, pc))" using s8_ic_run by blast
  have "filter s8_essential (s8_works is ie je (jc, pc)) = s8_works is ie je (jc, pc)" by (auto simp: s8_works_def filter_id_conv)
  then show ?case unfolding st depth_def [symmetric] b(1) prod.case w using b(2) by simp
qed (use sizes in simp_all)

lemma s8_jc_run:
  assumes "0 \<le> js"
  shows "\<exists>s' xs. s8_jc_loop packa g lcntx tj ti ((js, je), (is, ie)) s = Some (s', xs) \<and>
    filter s8_essential xs = concat (map (s8_block ti je (Wait (work_id tj) (ocomm_id ti)) is ie) (blocks js je))"
proof -
  let ?blk = "s8_block ti je (Wait (work_id tj) (ocomm_id ti)) is ie"
  have "\<exists>s' xs. s8_jc_loop packa g lcntx tj ti ((js, je), (is, ie)) s = Some (s', xs) \<and>
    filter s8_essential xs = concat (map (\<lambda>jc. concat (map (\<lambda>pc. ?blk (jc, pc)) (loop_points 0 (ga_k g) (\<lambda>pc. pc + KC)))) (loop_points js je (\<lambda>jc. jc + NC)))"
    unfolding s8_jc_loop_def Let_def prod.case jc_next_eq
  proof (rule for_loop_run [where I = "\<lambda>_ _. True" and ?i0.0 = js], goal_cases)
    case (1 jc s)
    have d: "\<not> downscaled DLP_S32" by (simp add: downscaled_def)
    have c: "c_operand_jc g lcntx is ie jc je s = (s, [], C_matrix jc)" by (simp add: c_operand_jc_def plain)
    obtain s' xs where x: "s8_pc_loop packa g lcntx tj ti is ie jc (cols je jc) jc 0 0 (C_matrix jc) (ga_rs_c g) (s, No_sums) = Some (s', xs)"
      "filter s8_essential xs = concat (map (\<lambda>pc. ?blk (jc, pc)) (loop_points 0 (ga_k g) (\<lambda>pc. pc + KC)))"
      using s8_pc_run [of jc je packa tj ti "is" ie jc 0 0 s] 1 assms by auto
    then show ?case by (simp add: plain c d cols_def split_beta)
  qed (use sizes in simp_all)
  moreover have "concat (map (\<lambda>jc. concat (map (\<lambda>pc. ?blk (jc, pc)) ps)) js) = concat (map ?blk (concat (map (\<lambda>jc. map (Pair jc) ps) js)))" for ps js
    by (induction js) (simp_all add: o_def)
  ultimately show ?thesis unfolding blocks_def by (simp only: simp_thms)
qed

lemma s8_run_blocks:
  assumes "dlp_gemm_gen_dlp_task_ids (Some thread) = (tj, ti)" "driver_tile thread (ga_m g) (ga_n g) lcntx = ((js, je), (is, ie))"
  shows "\<exists>as. s8_gemm_5loop packa g lcntx thread = Some as \<and>
    filter s8_essential as = concat (map (s8_block ti je (Wait (work_id tj) (ocomm_id ti)) is ie) (blocks js je)) @ [Plain (Wait (work_id tj) (ocomm_id tj))]"
proof -
  have "js = fst (task_slice False (ga_n g) NR (n_way tj) (work_id tj))" using assms by (simp add: driver_tile_def task_range_eq_slice)
  then have "0 \<le> js" using slice_start_ge_0 [OF dims(2) sizes(1)] by simp
  then obtain s xs where "s8_jc_loop packa g lcntx tj ti ((js, je), (is, ie)) \<lparr>have_b = False, have_a = False, have_c = False\<rparr> = Some (s, xs)"
    "filter s8_essential xs = concat (map (s8_block ti je (Wait (work_id tj) (ocomm_id ti)) is ie) (blocks js je))" using s8_jc_run by blast
  then show ?thesis unfolding s8_gemm_5loop_def assms by (simp add: plain)
qed

text \<open>What a thread has done when it has packed block \<open>q\<close>.\<close>

definition packed_upto :: "dlp_task_id_t \<Rightarrow> md_t \<Rightarrow> action \<Rightarrow> md_t \<Rightarrow> md_t \<Rightarrow> (md_t \<times> md_t) list \<Rightarrow> nat \<Rightarrow> s8_action list" where
  "packed_upto ti je W is ie bl q = concat (map (s8_block ti je W is ie) (take q bl)) @ [Plain W] @ s8_packs ti je (bl ! q)"

lemma packed_upto_Suc:
  "Suc q < length bl \<Longrightarrow> packed_upto ti je W is ie bl (Suc q) = packed_upto ti je W is ie bl q @ [Plain W] @ s8_works is ie je (bl ! q) @ [Plain W] @ s8_packs ti je (bl ! Suc q)"
  by (simp add: packed_upto_def take_Suc_conv_app_nth)

lemma packed_upto_prefix:
  "q < length bl \<Longrightarrow> \<exists>rest. concat (map (s8_block ti je W is ie) bl) = packed_upto ti je W is ie bl q @ Plain W # rest"
  by (subst id_take_nth_drop [of q bl]) (simp_all add: packed_upto_def)

text \<open>The effect of a packing call on the sum of column \<open>x\<close> of the block, for a thread whose columns start at \<open>st\<close>.\<close>

fun cell_add :: "bytes \<Rightarrow> md_t \<Rightarrow> md_t \<Rightarrow> s8_action \<Rightarrow> int32_t \<Rightarrow> int32_t" where
  "cell_add bsrc st x (Pack_s8 src dst width dep _) y =
     y + 128 * (\<Sum>kr \<in> {0..<dep}. scast (bsrc (src + kr * ga_rs_b g + (x - st) * ga_cs_b g)))"
| "cell_add bsrc st x _ y = y"

lemma cell_add_idle: "(\<forall>a \<in> set as. \<forall>src dst w dep p. a \<noteq> Pack_s8 src dst w dep p) \<Longrightarrow> fold (cell_add bsrc st x) as y = y"
proof (induction as arbitrary: y)
  case (Cons a as)
  then show ?case by (cases a) auto
qed simp

lemma works_idle: "fold (cell_add bsrc st x) (s8_works is ie je blk) y = y"
  by (rule cell_add_idle) (auto simp: s8_works_def split: prod.splits)

definition B_at :: "bytes \<Rightarrow> md_t \<Rightarrow> md_t \<Rightarrow> int32_t" where
  "B_at bsrc p j = scast (bsrc (p * ga_rs_b g + j * ga_cs_b g))"

lemma pack_adds:
  assumes r: "r = task_slice False (cols je jc) NR (n_way ti) (work_id ti)" "fst r < snd r" and "pc = 0 \<Longrightarrow> y = 0"
  shows "fold (cell_add bsrc (fst r) x) (s8_packs ti je (jc, pc)) y = y + 128 * (\<Sum>p \<in> {pc..<pc + depth pc}. B_at bsrc p (jc + x))"
proof -
  have "(\<Sum>kr \<in> {0..<depth pc}. scast (bsrc (ga_rs_b g * pc + ga_cs_b g * jc + ga_cs_b g * fst r + kr * ga_rs_b g + (x - fst r) * ga_cs_b g))) =
      (\<Sum>p \<in> {pc..<pc + depth pc}. B_at bsrc p (jc + x))"
    by (rule sum.reindex_bij_witness [where i = "\<lambda>p. p - pc" and j = "\<lambda>kr. pc + kr"]) (auto simp: B_at_def algebra_simps)
  then show ?thesis using r by (auto simp: s8_packs_def Let_def)
qed

lemma depth_full: "pc + KC < ga_k g \<Longrightarrow> depth pc = KC"
  by (simp add: depth_def dlp_min_def)

text \<open>From the moment the sums are cleared.\<close>

lemma packed_upto_from:
  assumes bl: "\<And>c. c \<le> b \<Longrightarrow> q0 + c < length bl \<and> bl ! (q0 + c) = (jc, int c * KC) \<and> int c * KC < ga_k g"
    and r: "r = task_slice False (cols je jc) NR (n_way ti) (work_id ti)" "fst r < snd r"
  shows "\<exists>R. packed_upto ti je W is ie bl (q0 + b) = concat (map (s8_block ti je W is ie) (take q0 bl)) @ [Plain W] @
        Clear_sums (Sums_buffer (sum_table je jc) 0) (fst r) (snd r) # R \<and>
      fold (cell_add bsrc (fst r) x) R 0 = 128 * (\<Sum>p \<in> {0..<int b * KC + depth (int b * KC)}. B_at bsrc p (jc + x)) \<and>
      (\<forall>a \<in> set R. (\<forall>p s e. a \<noteq> Clear_sums p s e) \<and>
        (\<forall>src dst w dep p. a = Pack_s8 src dst w dep p \<longrightarrow> w = snd r - fst r \<and> p = Sums_buffer (sum_table je jc) (fst r)))"
  using bl
proof (induction b)
  case 0
  have b0: "bl ! q0 = (jc, 0)" using 0 [of 0] by simp
  define P where "P = Pack_s8 (ga_cs_b g * jc + ga_cs_b g * fst r) (fst r * dlp_make_multiple_of_n (depth 0) 4) (snd r - fst r) (depth 0)
      (Sums_buffer (sum_table je jc) (fst r))"
  have pk: "s8_packs ti je (jc, 0) = [Clear_sums (Sums_buffer (sum_table je jc) 0) (fst r) (snd r), P]" using r by (simp add: s8_packs_def Let_def P_def)
  have "fold (cell_add bsrc (fst r) x) [P] 0 = 128 * (\<Sum>p \<in> {0..<0 + depth 0}. B_at bsrc p (jc + x))"
    using pack_adds [OF r, of 0 0 bsrc x] by (simp add: pk)
  then show ?case by (intro exI [of _ "[P]"]) (simp add: packed_upto_def b0 pk, simp add: P_def)
next
  case (Suc b)
  have c: "Suc (q0 + b) < length bl" "bl ! Suc (q0 + b) = (jc, int (Suc b) * KC)" "int (Suc b) * KC < ga_k g" using Suc.prems [of "Suc b"] by auto
  obtain R where R: "packed_upto ti je W is ie bl (q0 + b) = concat (map (s8_block ti je W is ie) (take q0 bl)) @ [Plain W] @
        Clear_sums (Sums_buffer (sum_table je jc) 0) (fst r) (snd r) # R"
      "fold (cell_add bsrc (fst r) x) R 0 = 128 * (\<Sum>p \<in> {0..<int b * KC + depth (int b * KC)}. B_at bsrc p (jc + x))"
      "\<forall>a \<in> set R. (\<forall>p s e. a \<noteq> Clear_sums p s e) \<and>
        (\<forall>src dst w dep p. a = Pack_s8 src dst w dep p \<longrightarrow> w = snd r - fst r \<and> p = Sums_buffer (sum_table je jc) (fst r))"
    using Suc.IH [OF Suc.prems [OF le_SucI]] by (elim meta_impE exE conjE) simp_all
  let ?pc = "int (Suc b) * KC"
  have nz: "?pc \<noteq> 0" using sizes(3) by simp
  have d: "int b * KC + depth (int b * KC) = ?pc" using c(3) by (simp add: depth_full distrib_right)
  let ?R = "R @ [Plain W] @ s8_works is ie je (bl ! (q0 + b)) @ [Plain W] @ s8_packs ti je (jc, ?pc)"
  have "fold (cell_add bsrc (fst r) x) ?R 0 = 128 * (\<Sum>p \<in> {0..<?pc}. B_at bsrc p (jc + x)) + 128 * (\<Sum>p \<in> {?pc..<?pc + depth ?pc}. B_at bsrc p (jc + x))"
    using pack_adds [OF r, of ?pc _ bsrc x] nz by (simp add: R(2) works_idle d)
  also have "\<dots> = 128 * (\<Sum>p \<in> {0..<?pc + depth ?pc}. B_at bsrc p (jc + x))"
    using sum_blocks [of 0 ?pc "?pc + depth ?pc" "\<lambda>p. B_at bsrc p (jc + x)"] depth_pos [OF c(3)] sizes(3) by (simp flip: distrib_left)
  moreover have "\<forall>a \<in> set ?R. (\<forall>p s e. a \<noteq> Clear_sums p s e) \<and>
        (\<forall>src dst w dep p. a = Pack_s8 src dst w dep p \<longrightarrow> w = snd r - fst r \<and> p = Sums_buffer (sum_table je jc) (fst r))"
    using R(3) nz r by (auto simp: s8_works_def s8_packs_def Let_def split: prod.splits)
  ultimately show ?case using packed_upto_Suc [OF c(1), of ti je W "is" ie] R(1) c(2) by (intro exI [of _ ?R]) simp
qed

text \<open>The blocks of one chunk of columns are consecutive.\<close>

lemma points_nth: "i < length (loop_points s e (\<lambda>p. p + b)) \<Longrightarrow> loop_points s e (\<lambda>p. p + b) ! i = s + int i * b"
proof (induction s e "\<lambda>p. p + b" arbitrary: i rule: loop_points.induct)
  case (1 s e)
  show ?case
  proof (cases "s < e \<and> s < s + b")
    case True
    then have eq: "loop_points s e (\<lambda>p. p + b) = s # loop_points (s + b) e (\<lambda>p. p + b)" by (subst loop_points.simps) simp
    show ?thesis
    proof (cases i)
      case (Suc i')
      then show ?thesis using 1(1) [OF True, of i'] 1(2) by (simp add: eq algebra_simps)
    qed (simp add: eq)
  qed (use 1(2) in \<open>auto simp: loop_points.simps [of s] split: if_splits\<close>)
qed

lemma rows_length: "length (concat (map (\<lambda>j. map (Pair j) P) J)) = length J * length P"
  by (induction J) simp_all

lemma rows_nth: "a < length J \<Longrightarrow> b < length P \<Longrightarrow> concat (map (\<lambda>j. map (Pair j) P) J) ! (a * length P + b) = (J ! a, P ! b)"
proof (induction J arbitrary: a)
  case (Cons j J)
  then show ?case by (cases a) (simp_all add: nth_append)
qed simp

lemma block_rows:
  assumes "q < length (blocks js je)" "blocks js je ! q = (jc, pc)"
  shows "\<exists>q0 b. q = q0 + b \<and> pc = int b * KC \<and>
    (\<forall>c \<le> b. q0 + c < length (blocks js je) \<and> blocks js je ! (q0 + c) = (jc, int c * KC) \<and> int c * KC < ga_k g)"
proof -
  let ?P = "loop_points 0 (ga_k g) (\<lambda>pc. pc + KC)" and ?J = "loop_points js je (\<lambda>jc. jc + NC)"
  define a b where "a = q div length ?P" and "b = q mod length ?P"
  have len: "length (blocks js je) = length ?J * length ?P" by (simp add: blocks_def rows_length)
  have L: "0 < length ?P" using assms(1) len by (cases "length ?P = 0") auto
  have q: "q = a * length ?P + b" "b < length ?P" "a < length ?J" using assms(1) L unfolding len a_def b_def by (simp_all add: less_mult_imp_div_less)
  have at: "blocks js je ! (a * length ?P + c) = (?J ! a, int c * KC)" if "c < length ?P" for c
    using rows_nth [OF q(3) that] points_nth [OF that] by (simp add: blocks_def)
  have jp: "jc = ?J ! a" "pc = int b * KC" using assms(2) at [OF q(2)] by (simp_all add: q(1))
  have "a * length ?P + c < length (blocks js je) \<and> int c * KC < ga_k g" if "c < length ?P" for c
  proof -
    have "a * length ?P + c < Suc a * length ?P" using that by simp
    also have "\<dots> \<le> length ?J * length ?P" using q(3) by (intro mult_le_mono1) simp
    finally show ?thesis using points_nth [OF that] nth_mem [OF that] loop_points_bounds [of "?P ! c" 0 "ga_k g"] by (simp add: len)
  qed
  then show ?thesis using q jp at by (intro exI [of _ "a * length ?P"] exI [of _ b]) auto
qed

end

section \<open>Threads on shared memory\<close>

text \<open>The sums a pointer leads to, from the table in the matrix or from that in the buffer of the group, by
  column of the call; 32-bit cells at byte addresses.\<close>

fun sum_row :: "(md_t \<Rightarrow> int32_t) \<Rightarrow> (md_t \<Rightarrow> int32_t) \<Rightarrow> sum_ptr \<Rightarrow> md_t \<Rightarrow> int32_t" where
  "sum_row bsums sums No_sums jj = 0"
| "sum_row bsums sums (Sums_matrix t x) jj = bsums (t + 4 * (x + jj))"
| "sum_row bsums sums (Sums_buffer t x) jj = sums (t + 4 * (x + jj))"

text \<open>The effect of an action on the sums in the buffer. \<open>addsums\<close> is what the packing kernel does to them.\<close>

definition sum_effect :: "(md_t \<Rightarrow> md_t \<Rightarrow> md_t \<Rightarrow> md_t \<Rightarrow> (md_t \<Rightarrow> int32_t) \<Rightarrow> md_t \<Rightarrow> int32_t) \<Rightarrow> s8_action \<Rightarrow> (md_t \<Rightarrow> int32_t) \<Rightarrow> md_t \<Rightarrow> int32_t" where
  "sum_effect addsums a sums =
     (case a of
        Clear_sums (Sums_buffer t x) s e \<Rightarrow>
          (\<lambda>c. if (c - t) mod 4 = 0 \<and> x + s \<le> (c - t) div 4 \<and> (c - t) div 4 < x + e then 0 else sums c)
      | Pack_s8 src dst width dep (Sums_buffer t x) \<Rightarrow> addsums src width dep (t + 4 * x) sums
      | _ \<Rightarrow> sums)"

type_synonym s8_mem = "(md_t \<Rightarrow> bytes) \<times> (md_t \<Rightarrow> md_t \<Rightarrow> int32_t) \<times> (md_t \<Rightarrow> int32_t)"

definition s8_step ::
  "(md_t \<Rightarrow> md_t \<Rightarrow> md_t \<Rightarrow> md_t \<Rightarrow> bytes \<Rightarrow> bytes) \<Rightarrow> (md_t \<Rightarrow> md_t \<Rightarrow> md_t \<Rightarrow> md_t \<Rightarrow> (md_t \<Rightarrow> int32_t) \<Rightarrow> md_t \<Rightarrow> int32_t) \<Rightarrow>
   (bytes \<Rightarrow> (md_t \<Rightarrow> int32_t) \<Rightarrow> kernel_call \<Rightarrow> (md_t \<Rightarrow> int32_t) \<Rightarrow> md_t \<Rightarrow> int32_t) \<Rightarrow> (md_t \<Rightarrow> int32_t) \<Rightarrow> (nat \<Rightarrow> md_t) \<Rightarrow>
   nat \<times> s8_action \<Rightarrow> s8_mem \<Rightarrow> s8_mem" where
  "s8_step pack addsums kern bsums grp e mem = (case e of (t, a) \<Rightarrow> case mem of (bufs, sums, cm) \<Rightarrow>
     (fold (\<lambda>act bufs. fst (team_step pack (\<lambda>_ _ cm. cm) grp (t, act) (bufs, cm))) (erase a) bufs,
      sums(grp t := sum_effect addsums a (sums (grp t))),
      (case a of Kernel_s8 c p \<Rightarrow> kern (bufs (grp t)) (sum_row bsums (sums (grp t)) p) c cm | _ \<Rightarrow> cm)))"

lemma s8_step_at:
  "s8_step pack addsums kern bsums grp (t, a) (bufs, sums, cm) =
     (fold (\<lambda>act bufs. fst (team_step pack (\<lambda>_ _ cm. cm) grp (t, act) (bufs, cm))) (erase a) bufs,
      sums(grp t := sum_effect addsums a (sums (grp t))),
      (case a of Kernel_s8 c p \<Rightarrow> kern (bufs (grp t)) (sum_row bsums (sums (grp t)) p) c cm | _ \<Rightarrow> cm))"
  by (simp add: s8_step_def)

text \<open>A packing kernel that keeps sums adds 128 times the sum of the part of each column it packs. It may touch the sums of
  the columns it pads to.\<close>

locale s8_pack_kernel = pack_kernel NR rs cs bsrc pack
  for NR rs cs :: md_t and bsrc :: bytes and pack :: "md_t \<Rightarrow> md_t \<Rightarrow> md_t \<Rightarrow> md_t \<Rightarrow> bytes \<Rightarrow> bytes" +
  fixes addsums :: "md_t \<Rightarrow> md_t \<Rightarrow> md_t \<Rightarrow> md_t \<Rightarrow> (md_t \<Rightarrow> int32_t) \<Rightarrow> md_t \<Rightarrow> int32_t"
  assumes sums_added: "0 \<le> x \<Longrightarrow> x < width \<Longrightarrow>
      addsums src width dep c0 sums (c0 + 4 * x) = sums (c0 + 4 * x) + 128 * (\<Sum>kr \<in> {0..<dep}. scast (bsrc (src + kr * rs + x * cs)))"
    and sums_frame: "(\<And>x. 0 \<le> x \<Longrightarrow> x < dlp_make_multiple_of_n width packb_min_NR \<Longrightarrow> a \<noteq> c0 + 4 * x) \<Longrightarrow> addsums src width dep c0 sums a = sums a"

definition ref_sums :: "md_t \<Rightarrow> md_t \<Rightarrow> bytes \<Rightarrow> md_t \<Rightarrow> md_t \<Rightarrow> md_t \<Rightarrow> md_t \<Rightarrow> (md_t \<Rightarrow> int32_t) \<Rightarrow> md_t \<Rightarrow> int32_t" where
  "ref_sums rs cs bsrc src width dep c0 sums a =
     (let x = (a - c0) div 4
      in if (a - c0) mod 4 = 0 \<and> 0 \<le> x \<and> x < width
         then sums a + 128 * (\<Sum>kr \<in> {0..<dep}. scast (bsrc (src + kr * rs + x * cs))) else sums a)"

interpretation ref_s8_pack: s8_pack_kernel NR rs cs bsrc "ref_pack NR rs cs bsrc" "ref_sums rs cs bsrc"
proof unfold_locales
  fix x width src dep c0 :: md_t and sums :: "md_t \<Rightarrow> int32_t" assume "0 \<le> x" "x < width"
  then show "ref_sums rs cs bsrc src width dep c0 sums (c0 + 4 * x) =
      sums (c0 + 4 * x) + 128 * (\<Sum>kr \<in> {0..<dep}. scast (bsrc (src + kr * rs + x * cs)))" by (simp add: ref_sums_def)
next
  fix width a c0 src dep :: md_t and sums :: "md_t \<Rightarrow> int32_t"
  assume out: "\<And>x. 0 \<le> x \<Longrightarrow> x < dlp_make_multiple_of_n width packb_min_NR \<Longrightarrow> a \<noteq> c0 + 4 * x"
  have "\<not> ((a - c0) mod 4 = 0 \<and> 0 \<le> (a - c0) div 4 \<and> (a - c0) div 4 < width)"
  proof
    assume x: "(a - c0) mod 4 = 0 \<and> 0 \<le> (a - c0) div 4 \<and> (a - c0) div 4 < width"
    then have "a = c0 + 4 * ((a - c0) div 4)" by (metis add.commute diff_add_cancel mult_div_mod_eq add.right_neutral)
    moreover have "width \<le> dlp_make_multiple_of_n width packb_min_NR" using x make_multiple_bounds [of width packb_min_NR] by (simp add: packb_min_NR_def)
    ultimately show False using out x by (metis le_less_trans less_le_trans)
  qed
  then show "ref_sums rs cs bsrc src width dep c0 sums a = sums a" by (auto simp: ref_sums_def)
qed

text \<open>What a signed kernel promises: it adds 128 to the elements of A and in the last block of the depth subtracts the sums it is
  pointed to.\<close>

locale s8_memory_kernel =
  fixes NR :: md_t and alpha :: int32_t and amem bmem :: bytes and sumv :: "md_t \<Rightarrow> int32_t"
    and kern :: "kernel_call \<Rightarrow> (md_t \<Rightarrow> int32_t) \<Rightarrow> md_t \<Rightarrow> int32_t"
  assumes s8_inside: "kc_a c = In_matrix ao \<Longrightarrow> operand_at (kc_b c) = bo \<Longrightarrow> kc_c c = C_matrix co \<Longrightarrow>
      0 \<le> ii \<Longrightarrow> ii < kc_mc0 c \<Longrightarrow> 0 \<le> jj \<Longrightarrow> jj < kc_nr0 c \<Longrightarrow> kc_nr0 c \<le> kc_rs_c c \<Longrightarrow>
      kern c cm (co + ii * kc_rs_c c + jj) = kc_beta0 c * cm (co + ii * kc_rs_c c + jj) +
        alpha * ((\<Sum>q \<in> {0..<kc_kc0 c}. (scast (amem (ao + ii * fst (kc_a_strides c) + q)) + 128) *
          scast (bmem (bo + panel_offset NR packb_min_NR 4 (kc_nr0 c) (dlp_make_multiple_of_n (kc_kc0 c) 4) q jj))) -
          (if is_last_k (kc_attr c) then sumv jj else 0))"
    and s8_outside: "kc_c c = C_matrix co \<Longrightarrow>
      (\<And>ii jj. 0 \<le> ii \<Longrightarrow> ii < kc_mc0 c \<Longrightarrow> 0 \<le> jj \<Longrightarrow> jj < kc_nr0 c \<Longrightarrow> a \<noteq> co + ii * kc_rs_c c + jj) \<Longrightarrow> kern c cm a = cm a"
begin

sublocale block_kernel "\<lambda>c ii jj. alpha * (byte_dot NR (\<lambda>w. scast w + 128) amem bmem c ii jj - (if is_last_k (kc_attr c) then sumv jj else 0))" kern
  by unfold_locales (auto simp: s8_inside s8_outside byte_dot_def)

lemmas s8_at = kern_at and s8_keeps = kern_frame

end

definition s8_mem_update ::
  "md_t \<Rightarrow> int32_t \<Rightarrow> bytes \<Rightarrow> bytes \<Rightarrow> (md_t \<Rightarrow> int32_t) \<Rightarrow> kernel_call \<Rightarrow> (md_t \<Rightarrow> int32_t) \<Rightarrow> md_t \<Rightarrow> int32_t" where
  "s8_mem_update NR alpha amem bmem sumv c cm a =
     (case (kc_a c, kc_c c) of
        (In_matrix ao, C_matrix co) \<Rightarrow>
          let ii = (a - co) div kc_rs_c c;
              jj = (a - co) mod kc_rs_c c
          in if 0 < kc_rs_c c \<and> 0 \<le> ii \<and> ii < kc_mc0 c \<and> jj < kc_nr0 c
             then kc_beta0 c * cm a + alpha * (byte_dot NR (\<lambda>w. scast w + 128) amem bmem c ii jj - (if is_last_k (kc_attr c) then sumv jj else 0))
             else cm a
      | _ \<Rightarrow> cm a)"

interpretation ref_s8_memory: s8_memory_kernel NR alpha amem bmem sumv "s8_mem_update NR alpha amem bmem sumv"
proof
  fix c :: kernel_call and ao bo co ii jj and cm :: "md_t \<Rightarrow> int32_t"
  assume op: "kc_a c = In_matrix ao" "operand_at (kc_b c) = bo" "kc_c c = C_matrix co"
    and s: "0 \<le> ii" "ii < kc_mc0 c" "0 \<le> jj" "jj < kc_nr0 c" "kc_nr0 c \<le> kc_rs_c c"
  have "(ii * kc_rs_c c + jj) div kc_rs_c c = ii" "(ii * kc_rs_c c + jj) mod kc_rs_c c = jj" using s by simp_all
  then show "s8_mem_update NR alpha amem bmem sumv c cm (co + ii * kc_rs_c c + jj) = kc_beta0 c * cm (co + ii * kc_rs_c c + jj) +
        alpha * ((\<Sum>q \<in> {0..<kc_kc0 c}. (scast (amem (ao + ii * fst (kc_a_strides c) + q)) + 128) *
          scast (bmem (bo + panel_offset NR packb_min_NR 4 (kc_nr0 c) (dlp_make_multiple_of_n (kc_kc0 c) 4) q jj))) -
          (if is_last_k (kc_attr c) then sumv jj else 0))"
    using s by (simp add: s8_mem_update_def op Let_def add.assoc byte_dot_def)
next
  fix c :: kernel_call and co a and cm :: "md_t \<Rightarrow> int32_t"
  assume co: "kc_c c = C_matrix co"
    and out: "\<And>ii jj. 0 \<le> ii \<Longrightarrow> ii < kc_mc0 c \<Longrightarrow> 0 \<le> jj \<Longrightarrow> jj < kc_nr0 c \<Longrightarrow> a \<noteq> co + ii * kc_rs_c c + jj"
  have "co + (a - co) div kc_rs_c c * kc_rs_c c + (a - co) mod kc_rs_c c = a"
    using div_mult_mod_eq [of "a - co" "kc_rs_c c"] by linarith
  then show "s8_mem_update NR alpha amem bmem sumv c cm a = cm a"
    using out [of "(a - co) div kc_rs_c c" "(a - co) mod kc_rs_c c"]
    by (auto simp: s8_mem_update_def co Let_def split: operand.splits)
qed

section \<open>Forgetting the sums of a schedule\<close>

definition erase_sched :: "(nat \<times> s8_action) list \<Rightarrow> (nat \<times> action) list" where
  "erase_sched sched = concat (map (\<lambda>e. map (Pair (fst e)) (erase (snd e))) sched)"

lemma erase_sched_simps [simp]:
  "erase_sched [] = []" "erase_sched (e # es) = map (Pair (fst e)) (erase (snd e)) @ erase_sched es" "erase_sched (xs @ ys) = erase_sched xs @ erase_sched ys"
  by (simp_all add: erase_sched_def)

lemma erase_proj: "map snd (filter (\<lambda>e. fst e = t) (erase_sched xs)) = erased (map snd (filter (\<lambda>e. fst e = t) xs))"
proof (induction xs)
  case (Cons e xs)
  then show ?case by (cases "snd e") auto
qed simp

lemma erased_waits: "length (filter is_wait (erased as)) = length (filter s8_wait as)"
proof (induction as)
  case (Cons a as)
  then show ?case by (cases a) auto
qed simp

lemma erase_waits: "waits_of is_wait t (erase_sched xs) = waits_of s8_wait t xs"
  by (simp add: waits_of_def erase_proj erased_waits)

lemma erase_interleaves: "interleaves sched N trace \<Longrightarrow> interleaves (erase_sched sched) N (\<lambda>t. erased (trace t))"
  by (auto simp: interleaves_def erase_proj) (auto simp: erase_sched_def)

lemma respectsI:
  assumes "\<And>xs t a ys u. sched = xs @ (t, a) # ys \<Longrightarrow> u < N \<Longrightarrow> grp u = grp t \<Longrightarrow> waits_of w t xs \<le> waits_of w u xs"
  shows "respects_barriers w grp N sched"
  unfolding respects_barriers_def
proof (intro allI impI)
  fix p u assume p: "p < length sched" "u < N" "grp u = grp (fst (sched ! p))"
  have "sched = take p sched @ (fst (sched ! p), snd (sched ! p)) # drop (Suc p) sched" using id_take_nth_drop [OF p(1)] by simp
  from assms [OF this p(2,3)] show "waits_of w (fst (sched ! p)) (take p sched) \<le> waits_of w u (take p sched)" .
qed

lemma erase_split:
  "erase_sched sched = xs' @ (t, a') # ys' \<Longrightarrow> \<exists>xs a ys. sched = xs @ (t, a) # ys \<and> xs' = erase_sched xs"
proof (induction sched arbitrary: xs')
  case (Cons e sched)
  obtain u b where e: "e = (u, b)" by force
  consider "erase b = []" | c where "erase b = [c]" by (cases b) auto
  then show ?case
  proof cases
    case 1
    then obtain xs a ys where "sched = xs @ (t, a) # ys" "xs' = erase_sched xs" using Cons by (auto simp: e)
    then show ?thesis using 1 by (intro exI [of _ "e # xs"] exI [of _ a] exI [of _ ys]) (simp add: e)
  next
    case 2
    show ?thesis
    proof (cases xs')
      case Nil
      then show ?thesis using Cons.prems 2 by (intro exI [of _ "[]"] exI [of _ b] exI [of _ sched]) (simp add: e)
    next
      case (Cons f fs)
      then obtain xs a ys where "sched = xs @ (t, a) # ys" "fs = erase_sched xs" using Cons.IH [of fs] Cons.prems 2 by (auto simp: e)
      then show ?thesis using 2 Cons Cons.prems by (intro exI [of _ "e # xs"] exI [of _ a] exI [of _ ys]) (simp add: e)
    qed
  qed
qed simp

lemma erase_respects: "respects_barriers s8_wait grp N sched \<Longrightarrow> respects_barriers is_wait grp N (erase_sched sched)"
proof (rule respectsI)
  fix xs' t a' ys' u
  assume r: "respects_barriers s8_wait grp N sched" and e: "erase_sched sched = xs' @ (t, a') # ys'" and u: "u < N" "grp u = grp t"
  obtain xs a ys where "sched = xs @ (t, a) # ys" "xs' = erase_sched xs" using erase_split [OF e] by blast
  then show "waits_of is_wait t xs' \<le> waits_of is_wait u xs'" using respectsD [of s8_wait grp N xs t a ys u] r u by (simp add: erase_waits)
qed

lemma bufs_step: "fst (team_step pack k1 grp e (bufs, c1)) = fst (team_step pack k2 grp e (bufs, c2))"
  by (cases e; cases "snd e") (auto simp: team_step_def)

lemma bufs_of: "fst (fold (s8_step pack addsums kern bsums grp) xs mem) = fst (fold (team_step pack (\<lambda>_ _ cm. cm) grp) (erase_sched xs) (fst mem, cm))"
proof (induction xs rule: rev_induct)
  case (snoc e xs)
  obtain t a where e: "e = (t, a)" by force
  obtain bufs sums c1 where m: "fold (s8_step pack addsums kern bsums grp) xs mem = (bufs, sums, c1)" by (metis surj_pair)
  obtain c2 where m2: "fold (team_step pack (\<lambda>_ _ cm. cm) grp) (erase_sched xs) (fst mem, cm) = (bufs, c2)" using snoc m by (metis fst_conv surj_pair)
  consider "erase a = []" | c where "erase a = [c]" by (cases a) auto
  then show ?case
  proof cases
    case 2
    then show ?thesis using m m2 bufs_step [of pack "\<lambda>_ _ cm. cm" grp "(t, c)" bufs c1 "\<lambda>_ _ cm. cm" c2] by (simp add: e s8_step_at)
  qed (use m m2 in \<open>simp add: e s8_step_at\<close>)
qed simp

section \<open>The sums a kernel call finds\<close>

lemma split_filter: "filter P l = as @ a # bs \<Longrightarrow> \<exists>ys zs. l = ys @ a # zs \<and> filter P ys = as \<and> filter P zs = bs"
proof (induction as arbitrary: l)
  case Nil
  then obtain ys zs where "l = ys @ a # zs" "\<forall>y \<in> set ys. \<not> P y" "bs = filter P zs" by (auto simp: filter_eq_Cons_iff)
  then show ?case by (intro exI [of _ ys] exI [of _ zs]) simp
next
  case (Cons b as)
  then obtain ys zs where s: "l = ys @ b # zs" "\<forall>y \<in> set ys. \<not> P y" "P b" "filter P zs = as @ a # bs" by (auto simp: filter_eq_Cons_iff)
  obtain us vs where "zs = us @ a # vs" "filter P us = as" "filter P vs = bs" using Cons.IH [OF s(4)] by blast
  then show ?case using s by (intro exI [of _ "ys @ b # us"] exI [of _ vs]) simp
qed

lemma split_run_filter:
  assumes "filter P (map snd (filter (\<lambda>e. fst e = u) xs)) = as @ a # bs"
  shows "\<exists>p r. xs = p @ (u, a) # r \<and> filter P (map snd (filter (\<lambda>e. fst e = u) p)) = as \<and> filter P (map snd (filter (\<lambda>e. fst e = u) r)) = bs"
proof -
  obtain ys zs where s: "map snd (filter (\<lambda>e. fst e = u) xs) = ys @ a # zs" "filter P ys = as" "filter P zs = bs"
    using split_filter [OF assms] by blast
  then obtain p r where "xs = p @ (u, a) # r" "map snd (filter (\<lambda>e. fst e = u) p) = ys" using split_run by metis
  then show ?thesis using s by (intro exI [of _ p] exI [of _ r]) simp
qed

lemma past_mark: "xs @ ys = up @ b # rest \<Longrightarrow> length (filter w up) < length (filter w xs) \<Longrightarrow> \<exists>us. xs = up @ b # us"
proof (induction up arbitrary: xs)
  case Nil
  then show ?case by (cases xs) auto
next
  case (Cons c up)
  then show ?case by (cases xs) (auto split: if_splits)
qed

fun changes_sums :: "s8_action \<Rightarrow> bool" where
  "changes_sums (Clear_sums _ _ _) = True" | "changes_sums (Pack_s8 _ _ _ _ _) = True" | "changes_sums _ = False"

lemma sums_unchanged: "\<not> changes_sums a \<Longrightarrow> sum_effect addsums a m = m"
  by (cases a) (simp_all add: sum_effect_def)

lemma sums_kept:
  assumes "\<And>v a m. (v, a) \<in> set es \<Longrightarrow> grp v = G \<Longrightarrow> sum_effect addsums a m c = m c"
  shows "fst (snd (fold (s8_step pack addsums kern bsums grp) es mem)) G c = fst (snd mem) G c"
  using assms
proof (induction es arbitrary: mem)
  case (Cons e es)
  obtain t a bufs sums cm where e: "e = (t, a)" "mem = (bufs, sums, cm)" by (metis surj_pair)
  have "fst (snd (s8_step pack addsums kern bsums grp e mem)) G c = fst (snd mem) G c"
    using Cons.prems [of t a "sums G"] by (auto simp: e s8_step_at)
  moreover have "fst (snd (fold (s8_step pack addsums kern bsums grp) es (s8_step pack addsums kern bsums grp e mem))) G c =
      fst (snd (s8_step pack addsums kern bsums grp e mem)) G c" by (rule Cons.IH) (rule Cons.prems, auto)
  ultimately show ?case by simp
qed simp

text \<open>When one thread of the group alone changes_sums a cell, the cell follows that thread.\<close>

lemma sums_of_one:
  assumes "\<And>v a m. (v, a) \<in> set es \<Longrightarrow> grp v = G \<Longrightarrow> sum_effect addsums a m c = (if v = u then f a (m c) else m c)" "grp u = G"
  shows "fst (snd (fold (s8_step pack addsums kern bsums grp) es mem)) G c = fold f (map snd (filter (\<lambda>e. fst e = u) es)) (fst (snd mem) G c)"
  using assms(1)
proof (induction es arbitrary: mem)
  case (Cons e es)
  obtain t a bufs sums cm where e: "e = (t, a)" "mem = (bufs, sums, cm)" by (metis surj_pair)
  have "fst (snd (s8_step pack addsums kern bsums grp e mem)) G c = (if t = u then f a (fst (snd mem) G c) else fst (snd mem) G c)"
    using Cons.prems [of t a "sums G"] assms(2) by (auto simp: e s8_step_at)
  moreover have "fst (snd (fold (s8_step pack addsums kern bsums grp) es (s8_step pack addsums kern bsums grp e mem))) G c =
      fold f (map snd (filter (\<lambda>e. fst e = u) es)) (fst (snd (s8_step pack addsums kern bsums grp e mem)) G c)"
    by (rule Cons.IH) (rule Cons.prems, auto)
  ultimately show ?case by (simp add: e(1))
qed simp

lemma fold_filter_idle: "(\<And>a y. a \<in> set as \<Longrightarrow> \<not> P a \<Longrightarrow> f a y = y) \<Longrightarrow> fold f (filter P as) y = fold f as y"
  by (induction as arbitrary: y) simp_all

lemma team_ids_inj:
  assumes "is_team threads" "t < length threads" "u < length threads"
    and "dlp_gemm_gen_dlp_task_ids (Some (threads ! t)) = (tj, ti)" "dlp_gemm_gen_dlp_task_ids (Some (threads ! u)) = (uj, ui)"
    and "work_id tj = work_id uj" "work_id ti = work_id ui"
  shows "t = u"
proof -
  obtain nt ic jc mtag distr where tm: "0 < ic" "0 < jc" "ic * jc = nt" "length threads = nat nt"
    "\<And>t. t < nat nt \<Longrightarrow> threads ! t = thread_setup nt ic jc (int t) mtag distr" using assms(1) unfolding is_team_def by blast
  define f where "f t = thr_tid (thread_setup nt ic jc t mtag distr)" for t
  have bij: "bij_betw f {0..<nt} {0..<nt}" unfolding f_def by (rule setup_tid_bij)
  have fr: "0 \<le> f (int t)" if "t < nat nt" for t using that bij_betwE [OF bij] by auto
  have gen: "work_id (fst (dlp_gemm_gen_dlp_task_ids (Some (threads ! t)))) = f (int t) div ic"
    "work_id (snd (dlp_gemm_gen_dlp_task_ids (Some (threads ! t)))) = f (int t) mod ic" if "t < nat nt" for t
    using tm(5) [OF that] fr [OF that] tm(1) by (simp_all add: dlp_gemm_gen_dlp_task_ids_def Let_def thread_setup_def f_def cdiv_simps)
  have "f (int t) div ic = f (int u) div ic" "f (int t) mod ic = f (int u) mod ic" using gen [of t] gen [of u] assms tm(4) by auto
  then have "f (int t) = f (int u)" by (metis div_mult_mod_eq)
  moreover have "int t \<in> {0..<nt}" "int u \<in> {0..<nt}" using assms(2,3) tm(4) by auto
  ultimately have "int t = int u" using bij by (auto simp: bij_betw_def dest: inj_onD)
  then show ?thesis by simp
qed

locale s8_team = packed_run g lcntx + s8_pack_kernel "bs_NR (cx_blksz lcntx)" "ga_rs_b g" "ga_cs_b g" bsrc pack addsums
  for g :: gemm_args and lcntx :: dlp_gemm_cntx_t and bsrc :: bytes and pack :: "md_t \<Rightarrow> md_t \<Rightarrow> md_t \<Rightarrow> md_t \<Rightarrow> bytes \<Rightarrow> bytes"
    and addsums :: "md_t \<Rightarrow> md_t \<Rightarrow> md_t \<Rightarrow> md_t \<Rightarrow> (md_t \<Rightarrow> int32_t) \<Rightarrow> md_t \<Rightarrow> int32_t" +
  fixes threads :: "dlp_gemm_thrinfo_t list" and trace :: "nat \<Rightarrow> s8_action list"
    and packa :: "md_t \<Rightarrow> md_t \<Rightarrow> md_t \<Rightarrow> md_t \<Rightarrow> md_t \<times> md_t"
  assumes s8_is_team: "is_team threads"
    and s8_runs: "t < length threads \<Longrightarrow> s8_gemm_5loop packa g lcntx (threads ! t) = Some (trace t)"
begin

sublocale packed_team g lcntx bsrc pack threads "\<lambda>t. erased (trace t)" packa
proof unfold_locales
  fix t assume "t < length threads"
  then show "\<exists>as. gemm_5loop packa g lcntx (threads ! t) = Some as \<and> filter essential (erased (trace t)) = filter essential as"
    using five_loops_same [of g packa lcntx "threads ! t"] s8_runs [of t] plain(1) by (auto simp: option_rel_Some1)
qed (rule s8_is_team)

abbreviation "bar t \<equiv> Wait (work_id (tj t)) (ocomm_id (ti t))"
abbreviation "je t \<equiv> snd (cslice t)"
abbreviation "block t \<equiv> s8_block (ti t) (je t) (bar t) (fst (rslice t)) (snd (rslice t))"

lemma s8_ess:
  assumes "t < length threads"
  shows "filter s8_essential (trace t) = concat (map (block t) (blks t)) @ [Plain (Wait (work_id (tj t)) (ocomm_id (tj t)))]"
  using s8_run_blocks [OF ids tile, of packa t] s8_runs [OF assms] by auto

lemma s8_phase:
  assumes "t < length threads" "s8_essential a" "\<not> s8_wait a"
  shows "(e, a) \<in> set (label s8_wait 0 (trace t)) \<longleftrightarrow> (\<exists>q < length (blks t).
      e = 2 * q + 1 \<and> a \<in> set (s8_packs (ti t) (je t) (blks t ! q)) \<or>
      e = 2 * q + 2 \<and> a \<in> set (s8_works (fst (rslice t)) (snd (rslice t)) (je t) (blks t ! q)))"
proof -
  have quiet: "(\<forall>a \<in> set (s8_packs (ti t) (je t) blk). \<not> s8_wait a) \<and> (\<forall>a \<in> set (s8_works (fst (rslice t)) (snd (rslice t)) (je t) blk). \<not> s8_wait a)" for blk
    by (auto simp: s8_packs_def s8_works_def Let_def split: prod.splits)
  have "(e, a) \<in> set (label s8_wait 0 (trace t)) \<longleftrightarrow> (e, a) \<in> set (label s8_wait 0 (filter s8_essential (trace t)))"
    using assms(2) by (simp add: label_filter [OF s8_wait_essential])
  also have "\<dots> \<longleftrightarrow> (e, a) \<in> set (label s8_wait 0 (concat (map (block t) (blks t))))"
    using assms(3) by (auto simp: s8_ess [OF assms(1)] label_append)
  finally show ?thesis
    using label_blocks [of "blks t" "s8_packs (ti t) (je t)" s8_wait "s8_works (fst (rslice t)) (snd (rslice t)) (je t)" "Plain (bar t)" a e 0] quiet assms(3)
    by simp
qed

lemma upto_waits:
  assumes "q < length (blks t)"
  shows "length (filter s8_wait (packed_upto (ti t) (je t) (bar t) (fst (rslice t)) (snd (rslice t)) (blks t) q)) = 2 * q + 1"
proof -
  have quiet: "filter s8_wait (s8_packs (ti t) (je t) blk) = []" "filter s8_wait (s8_works (fst (rslice t)) (snd (rslice t)) (je t) blk) = []" for blk
    by (auto simp: s8_packs_def s8_works_def Let_def filter_empty_conv split: prod.splits)
  have "length (filter s8_wait (concat (map (block t) bs))) = 2 * length bs" for bs by (induction bs) (simp_all add: quiet)
  then show ?thesis using assms by (simp add: packed_upto_def quiet)
qed

text \<open>Before a call of block \<open>q\<close> every thread of the group has packed its part and passed the barrier.\<close>

lemma packed_and_passed:
  assumes s: "interleaves (xs @ ys) (length threads) trace" and u: "u < length threads" "q < length (blks u)" "2 * q + 2 \<le> waits_of s8_wait u xs"
  shows "\<exists>p r. xs = p @ (u, Plain (bar u)) # r \<and>
    filter s8_essential (map snd (filter (\<lambda>e. fst e = u) p)) = packed_upto (ti u) (je u) (bar u) (fst (rslice u)) (snd (rslice u)) (blks u) q"
proof -
  let ?up = "packed_upto (ti u) (je u) (bar u) (fst (rslice u)) (snd (rslice u)) (blks u) q"
  let ?E = "\<lambda>s. filter s8_essential (map snd (filter (\<lambda>e. fst e = u) s))"
  obtain rest where rest: "concat (map (block u) (blks u)) = ?up @ Plain (bar u) # rest" using packed_upto_prefix [OF u(2)] by blast
  have "trace u = map snd (filter (\<lambda>e. fst e = u) xs) @ map snd (filter (\<lambda>e. fst e = u) ys)" using s u(1) by (simp add: interleaves_def)
  then have "filter s8_essential (trace u) = ?E xs @ ?E ys" by simp
  then have full: "?E xs @ ?E ys = ?up @ Plain (bar u) # rest @ [Plain (Wait (work_id (tj u)) (ocomm_id (tj u)))]"
    unfolding s8_ess [OF u(1)] rest by simp
  have "filter s8_wait (filter s8_essential as) = filter s8_wait as" for as
    unfolding filter_filter by (rule filter_cong) (auto dest: s8_wait_essential)
  then have w: "length (filter s8_wait (?E xs)) = waits_of s8_wait u xs" by (simp add: waits_of_def)
  have "\<exists>us. ?E xs = ?up @ Plain (bar u) # us" by (rule past_mark [OF full, of s8_wait]) (use w u(3) upto_waits [OF u(2)] in simp)
  then show ?thesis using split_run_filter [of s8_essential u xs ?up] by blast
qed

text \<open>A packing step of a block and the sum of column \<open>x\<close>: only the owner of the column changes it.\<close>

lemma sum_touch:
  assumes a: "a \<in> set (s8_packs tv ej (jc, pc))" and blk: "jc < ej" "pc < ga_k g" and x: "0 \<le> x" "x < cols ej jc"
    and r: "r = task_slice False (cols ej jc) NR (n_way tv) (work_id tv)"
  shows "\<not> (fst r \<le> x \<and> x < snd r) \<Longrightarrow> sum_effect addsums a m (sum_table ej jc + 4 * x) = m (sum_table ej jc + 4 * x)"
    and "fst r \<le> x \<Longrightarrow> x < snd r \<Longrightarrow> \<forall>p s e. a \<noteq> Clear_sums p s e \<Longrightarrow>
      sum_effect addsums a m (sum_table ej jc + 4 * x) = cell_add bsrc (fst r) x a (m (sum_table ej jc + 4 * x))"
proof -
  note sf = reorder_blocks.slice_facts [OF block_layout [OF cols_pos [OF blk(1)] depth_pos [OF blk(2)]], of "n_way tv" "work_id tv", folded r]
  have dv: "packb_min_NR dvd NR" "0 < packb_min_NR" using blocks_legalD [OF legal] by simp_all
  have ne: "fst r < snd r" using a by (auto simp: s8_packs_def Let_def r split: if_splits)
  have up: "dlp_make_multiple_of_n (snd r - fst r) packb_min_NR = snd r - fst r" if "snd r \<noteq> cols ej jc"
    by (rule make_multiple_id) (use ne sf(4,5) that dv in \<open>auto intro: dvd_diff dest: dvd_trans\<close>)
  consider (clear) "a = Clear_sums (Sums_buffer (sum_table ej jc) 0) (fst r) (snd r)"
    | (pack) src dst where "a = Pack_s8 src dst (snd r - fst r) (depth pc) (Sums_buffer (sum_table ej jc) (fst r))"
    using a by (auto simp: s8_packs_def Let_def r split: if_splits)
  note cases = this
  show "sum_effect addsums a m (sum_table ej jc + 4 * x) = m (sum_table ej jc + 4 * x)" if "\<not> (fst r \<le> x \<and> x < snd r)" using cases
  proof cases
    case clear
    then show ?thesis using that by (auto simp: sum_effect_def)
  next
    case (pack src dst)
    have "sum_table ej jc + 4 * x \<noteq> sum_table ej jc + 4 * fst r + 4 * y" if "0 \<le> y" "y < dlp_make_multiple_of_n (snd r - fst r) packb_min_NR" for y
      using that \<open>\<not> (fst r \<le> x \<and> x < snd r)\<close> up x(2) by (cases "snd r = cols ej jc") auto
    then show ?thesis unfolding pack by (simp add: sum_effect_def sums_frame)
  qed
  show "sum_effect addsums a m (sum_table ej jc + 4 * x) = cell_add bsrc (fst r) x a (m (sum_table ej jc + 4 * x))"
    if "fst r \<le> x" "x < snd r" "\<forall>p s e. a \<noteq> Clear_sums p s e" using cases
  proof cases
    case (pack src dst)
    show ?thesis using sums_added [of "x - fst r" "snd r - fst r" src "depth pc" "sum_table ej jc + 4 * fst r" m] that
      unfolding pack by (simp add: sum_effect_def algebra_simps)
  qed (use that in simp)
qed

text \<open>Between a step of phase \<open>2 * q1 + 1\<close> and a call of block \<open>q\<close> the group packs the blocks from \<open>q1\<close> to \<open>q\<close>.\<close>

lemma touch_phase:
  assumes s: "interleaves (p @ (u, b) # r1 @ (v, a) # r2 @ (t, k) # ys) (length threads) trace"
      "respects_barriers s8_wait grp (length threads) (p @ (u, b) # r1 @ (v, a) # r2 @ (t, k) # ys)"
    and gr: "grp v = grp t" "grp u = grp t" and w: "waits_of s8_wait u p = 2 * q1 + 1" "waits_of s8_wait t (p @ (u, b) # r1 @ (v, a) # r2) = 2 * q + 2"
    and a: "changes_sums a"
  shows "\<exists>q'. q1 \<le> q' \<and> q' \<le> q \<and> waits_of s8_wait v (p @ (u, b) # r1) = 2 * q' + 1 \<and> a \<in> set (s8_packs (ti v) (je t) (blks t ! q'))"
proof -
  have b: "t < length threads" "v < length threads" using s(1) by (auto simp: interleaves_def)
  have s': "interleaves ((p @ (u, b) # r1) @ (v, a) # (r2 @ (t, k) # ys)) (length threads) trace" using s(1) by simp
  have ess: "s8_essential a" "\<not> s8_wait a" using a by (cases a; simp)+
  have "a \<notin> set (s8_works i e j blk)" for i e j blk using a by (auto simp: s8_works_def split: prod.splits)
  then obtain q' where q': "waits_of s8_wait v (p @ (u, b) # r1) = 2 * q' + 1" "a \<in> set (s8_packs (ti v) (je v) (blks v ! q'))"
    using phase_label(2) [OF s', of s8_wait] unfolding s8_phase [OF b(2) ess] by auto
  have "2 * q1 + 1 \<le> 2 * q' + 1" using phases_ordered [OF s(2) b(2)] gr w(1) q'(1) by simp
  moreover have "2 * q' + 1 \<le> 2 * q + 2"
    using phases_ordered [of s8_wait grp "length threads" "p @ (u, b) # r1" v a r2 t k ys] s(2) gr w(2) b(1) q'(1) by simp
  ultimately show ?thesis using q' same_columns [OF b(1,2) gr(1)] by (intro exI [of _ q']) auto
qed

lemma owner_alone:
  assumes "u < length threads" "v < length threads" "grp v = grp u" "v \<noteq> u" and "0 \<le> x" "0 \<le> n" "x < n"
    and "fst (task_slice False n NR (n_way (ti u)) (work_id (ti u))) \<le> x" "x < snd (task_slice False n NR (n_way (ti u)) (work_id (ti u)))"
  shows "\<not> (fst (task_slice False n NR (n_way (ti v)) (work_id (ti v))) \<le> x \<and> x < snd (task_slice False n NR (n_way (ti v)) (work_id (ti v))))"
proof
  assume o: "fst (task_slice False n NR (n_way (ti v)) (work_id (ti v))) \<le> x \<and> x < snd (task_slice False n NR (n_way (ti v)) (work_id (ti v)))"
  have nw: "n_way (ti v) = n_way (ti u)" "0 < n_way (ti u)" using team_ways(2,3) [OF team assms(1,2) ids ids] by auto
  have "work_id (ti v) = work_id (ti u)"
    using high_edge.one_owner [OF assms(6) sizes(1) nw(2) assms(5,7)] o assms(8,9) unfolding nw by blast
  moreover have "work_id (tj v) = work_id (tj u)" using assms(3) by (simp add: group_def ids)
  ultimately show False using team_ids_inj [OF team assms(2,1) ids ids] assms(4) by simp
qed

lemma block_waits: "length (filter s8_wait (concat (map (block t) bs))) = 2 * length bs"
proof (induction bs)
  case (Cons b bs)
  have "filter s8_wait (s8_packs (ti t) (je t) b) = []" "filter s8_wait (s8_works (fst (rslice t)) (snd (rslice t)) (je t) b) = []"
    by (auto simp: s8_packs_def s8_works_def Let_def filter_empty_conv split: prod.splits)
  then show ?case using Cons by simp
qed simp

lemma essential_waits: "waits_of s8_wait u xs = length (filter s8_wait (filter s8_essential (map snd (filter (\<lambda>e. fst e = u) xs))))"
  unfolding filter_filter waits_of_def by (rule arg_cong [where f = length], rule filter_cong) (auto dest: s8_wait_essential)

text \<open>The owner of a column of block \<open>q\<close>: when the group has passed the barrier behind the block, it has cleared the sum of the column in
  the first block of the chunk and packed the blocks since.\<close>

lemma owner_run:
  assumes s: "interleaves (xs @ ys) (length threads) trace" and t: "t < length threads"
    and pass: "\<And>u. u < length threads \<Longrightarrow> grp u = grp t \<Longrightarrow> 2 * q + 2 \<le> waits_of s8_wait u xs"
    and q: "q < length (blks t)" "blks t ! q = (jc, pc)" and x: "0 \<le> x" "x < cols (je t) jc"
  obtains u r q0 p0 p1 d where "u < length threads" "grp u = grp t" "r = task_slice False (cols (je t) jc) NR (n_way (ti u)) (work_id (ti u))"
    "fst r \<le> x" "x < snd r" "q0 \<le> q" "\<And>q'. q0 \<le> q' \<Longrightarrow> q' \<le> q \<Longrightarrow> q' < length (blks t) \<and> fst (blks t ! q') = jc"
    "xs = p0 @ (u, Clear_sums (Sums_buffer (sum_table (je t) jc) 0) (fst r) (snd r)) # p1 @ (u, Plain (bar u)) # d"
    "waits_of s8_wait u p0 = 2 * q0 + 1" "\<And>p s e. Clear_sums p s e \<notin> set (map snd (filter (\<lambda>e. fst e = u) p1))"
    "waits_of s8_wait u (p0 @ (u, Clear_sums (Sums_buffer (sum_table (je t) jc) 0) (fst r) (snd r)) # p1) = 2 * q + 1"
    "fold (cell_add bsrc (fst r) x) (map snd (filter (\<lambda>e. fst e = u) p1)) 0 = 128 * (\<Sum>p \<in> {0..<pc + depth pc}. B_at bsrc p (jc + x))"
proof -
  obtain q0 b where rows: "q = q0 + b" "pc = int b * KC" "\<And>c. c \<le> b \<Longrightarrow> q0 + c < length (blks t) \<and> blks t ! (q0 + c) = (jc, int c * KC) \<and> int c * KC < ga_k g"
    using block_rows [OF q] by blast
  have jc: "jc < je t" using block_in [OF q] by auto
  let ?r = "\<lambda>w. task_slice False (cols (je t) jc) NR (n_way (ti t)) w"
  have "\<exists>!w. fst (?r w) \<le> x \<and> x < snd (?r w)"
    by (rule high_edge.one_owner) (use cols_pos [OF jc] sizes(1) team_ways(3) [OF team t t ids ids] x in simp_all)
  then obtain w where w: "fst (?r w) \<le> x" "x < snd (?r w)" by blast
  have wr: "0 \<le> w" "w < n_way (ti t)" using high_edge.owner_in_range [of "cols (je t) jc" NR "n_way (ti t)" w x] w by simp_all
  obtain u where u: "u < length threads" "grp u = grp t" "work_id (ti u) = w"
    using team_grid [OF team t ids wr] by (auto simp: group_def ids)
  have nw: "n_way (ti u) = n_way (ti t)" using team_ways(2) [OF team t u(1) ids ids] .
  have cu: "cslice u = cslice t" using same_columns [OF t u(1,2)] .
  define r where "r = task_slice False (cols (je t) jc) NR (n_way (ti u)) (work_id (ti u))"
  have rx: "fst r \<le> x" "x < snd r" using w by (simp_all add: r_def nw u(3))
  obtain p d where xs: "xs = p @ (u, Plain (bar u)) # d"
    and p: "filter s8_essential (map snd (filter (\<lambda>e. fst e = u) p)) = packed_upto (ti u) (je u) (bar u) (fst (rslice u)) (snd (rslice u)) (blks u) q"
    using packed_and_passed [OF s u(1), of q] pass [OF u(1,2)] q by (auto simp: cu)
  have wp: "waits_of s8_wait u p = 2 * q + 1" using upto_waits [of q u] q by (simp add: essential_waits p cu)
  let ?pre = "concat (map (s8_block (ti u) (je t) (bar u) (fst (rslice u)) (snd (rslice u))) (take q0 (blks t)))"
    and ?cl = "Clear_sums (Sums_buffer (sum_table (je t) jc) 0) (fst r) (snd r)"
  have "fst r < snd r" using rx by simp
  note pf = packed_upto_from [OF rows(3) r_def this, of b "bar u" "fst (rslice u)" "snd (rslice u)" bsrc x, folded rows(1,2)]
  obtain R where R: "packed_upto (ti u) (je t) (bar u) (fst (rslice u)) (snd (rslice u)) (blks t) q = ?pre @ [Plain (bar u)] @ ?cl # R"
    "fold (cell_add bsrc (fst r) x) R 0 = 128 * (\<Sum>p \<in> {0..<pc + depth pc}. B_at bsrc p (jc + x))" "\<forall>a \<in> set R. \<forall>p s e. a \<noteq> Clear_sums p s e"
    using pf by - (drule meta_mp, assumption, elim exE conjE, rule that, assumption+, simp)
  have "filter s8_essential (map snd (filter (\<lambda>e. fst e = u) p)) = (?pre @ [Plain (bar u)]) @ ?cl # R"
    using p R(1) unfolding cu by (simp only: append.assoc)
  from split_run_filter [OF this]
  obtain p0 p1 where ps: "p = p0 @ (u, ?cl) # p1" "filter s8_essential (map snd (filter (\<lambda>e. fst e = u) p0)) = ?pre @ [Plain (bar u)]"
    "filter s8_essential (map snd (filter (\<lambda>e. fst e = u) p1)) = R" by (elim exE conjE)
  have "fold (cell_add bsrc (fst r) x) (map snd (filter (\<lambda>e. fst e = u) p1)) 0 = fold (cell_add bsrc (fst r) x) R 0"
    unfolding ps(3) [symmetric] by (rule fold_filter_idle [symmetric]) (metis cell_add.simps(2) s8_essential.elims(3))
  moreover have "Clear_sums p s e \<notin> set (map snd (filter (\<lambda>e. fst e = u) p1))" for p s e
    using R(3) unfolding ps(3) [symmetric] by auto
  moreover have "waits_of s8_wait u p0 = 2 * q0 + 1"
    using block_waits [of u "take q0 (blks t)"] rows(1) q(1) unfolding cu by (simp add: essential_waits ps(2))
  moreover have "q' < length (blks t) \<and> fst (blks t ! q') = jc" if "q0 \<le> q'" "q' \<le> q" for q' using rows(3) [of "q' - q0"] that rows(1) by auto
  ultimately show ?thesis using that [OF u(1,2) r_def rx, of q0 p0 p1 d] rows(1) wp R(2) unfolding xs ps(1) by simp
qed

text \<open>A call of block \<open>q\<close> finds the sums over the depth up to the end of the block.\<close>

lemma sums_hold:
  assumes s: "interleaves (xs @ (t, k) # ys) (length threads) trace" "respects_barriers s8_wait grp (length threads) (xs @ (t, k) # ys)"
    and q: "waits_of s8_wait t xs = 2 * q + 2" "q < length (blks t)" "blks t ! q = (jc, pc)" and x: "0 \<le> x" "x < cols (je t) jc"
  shows "fst (snd (fold (s8_step pack addsums kern bsums grp) xs mem)) (grp t) (sum_table (je t) jc + 4 * x) =
    128 * (\<Sum>p \<in> {0..<pc + depth pc}. B_at bsrc p (jc + x))" (is "fst (snd (fold ?step xs mem)) _ ?c = ?y")
proof -
  have t: "t < length threads" using s(1) by (simp add: interleaves_def)
  have "2 * q + 2 \<le> waits_of s8_wait u xs" if "u < length threads" "grp u = grp t" for u using respectsD [OF s(2) that] q(1) by simp
  from owner_run [OF s(1) t this q(2,3) x]
  obtain u r q0 p0 p1 d where u: "u < length threads" "grp u = grp t" and r: "r = task_slice False (cols (je t) jc) NR (n_way (ti u)) (work_id (ti u))"
    "fst r \<le> x" "x < snd r" and q0: "q0 \<le> q" "\<And>q'. q0 \<le> q' \<Longrightarrow> q' \<le> q \<Longrightarrow> q' < length (blks t) \<and> fst (blks t ! q') = jc"
    and xs: "xs = p0 @ (u, Clear_sums (Sums_buffer (sum_table (je t) jc) 0) (fst r) (snd r)) # p1 @ (u, Plain (bar u)) # d"
    and w: "waits_of s8_wait u p0 = 2 * q0 + 1" and nc: "\<And>p s e. Clear_sums p s e \<notin> set (map snd (filter (\<lambda>e. fst e = u) p1))"
    and w1: "waits_of s8_wait u (p0 @ (u, Clear_sums (Sums_buffer (sum_table (je t) jc) 0) (fst r) (snd r)) # p1) = 2 * q + 1"
    and y: "fold (cell_add bsrc (fst r) x) (map snd (filter (\<lambda>e. fst e = u) p1)) 0 = ?y" by blast
  let ?cl = "Clear_sums (Sums_buffer (sum_table (je t) jc) 0) (fst r) (snd r)"
  let ?m0 = "?step (u, ?cl) (fold ?step p0 mem)"
  text \<open>A step of the group between the clearing and the call belongs to a block of the chunk.\<close>
  have touch: "\<exists>pc'. pc' < ga_k g \<and> a \<in> set (s8_packs (ti v) (je t) (jc, pc'))"
    if "q0 \<le> q'" "q' \<le> q" "a \<in> set (s8_packs (ti v) (je t) (blks t ! q'))" for q' a v
    using q0(2) [OF that(1,2)] block_in [of q' "fst (cslice t)" "je t"] that(3) by (cases "blks t ! q'") auto
  have jc: "jc < je t" using block_in [OF q(2,3)] by auto
  have other: "sum_effect addsums a m ?c = m ?c" if h: "v \<noteq> u" "v < length threads" "grp v = grp t" "q0 \<le> q'" "q' \<le> q" "a \<in> set (s8_packs (ti v) (je t) (blks t ! q'))" for v q' a m
  proof -
    obtain pc' where pc': "pc' < ga_k g" "a \<in> set (s8_packs (ti v) (je t) (jc, pc'))" using touch [OF h(4-6)] by blast
    show ?thesis by (rule sum_touch(1) [OF pc'(2) jc pc'(1) x refl], rule owner_alone [OF u(1) h(2) _ h(1) x(1) _ x(2)])
      (use h(3) u(2) r cols_pos [OF jc] in simp_all)
  qed
  have "fst (snd ?m0) (grp t) ?c = 0"
  proof -
    obtain bufs sums cm where "fold ?step p0 mem = (bufs, sums, cm)" by (metis surj_pair)
    then show ?thesis using u(2) r(2,3) by (simp add: s8_step_at sum_effect_def)
  qed
  moreover have "fst (snd (fold ?step p1 ?m0)) (grp t) ?c = fold (cell_add bsrc (fst r) x) (map snd (filter (\<lambda>e. fst e = u) p1)) (fst (snd ?m0) (grp t) ?c)"
  proof (rule sums_of_one)
    show "grp u = grp t" by (rule u(2))
  next
    fix v a m assume v: "(v, a) \<in> set p1" "grp v = grp t"
    obtain r1 r2 where p1: "p1 = r1 @ (v, a) # r2" using split_list [OF v(1)] by blast
    show "sum_effect addsums a m ?c = (if v = u then cell_add bsrc (fst r) x a (m ?c) else m ?c)"
    proof (cases "changes_sums a")
      case False
      then show ?thesis by (cases a) (simp_all add: sums_unchanged)
    next
      case True
      obtain q' where q': "q0 \<le> q'" "q' \<le> q" "a \<in> set (s8_packs (ti v) (je t) (blks t ! q'))"
        using touch_phase [of p0 u ?cl r1 v a "r2 @ (u, Plain (bar u)) # d" t k ys q0 q] s q(1) v(2) u(2) w True unfolding xs p1 by auto
      have vl: "v < length threads" using schedule_member [OF s(1), of "(v, a)"] by (simp add: xs p1)
      show ?thesis
      proof (cases "v = u")
        case True
        obtain pc' where pc': "pc' < ga_k g" "a \<in> set (s8_packs (ti u) (je t) (jc, pc'))" using touch [OF q'] True by blast
        have "a \<noteq> Clear_sums p s e" for p s e using nc [of p s e] v(1) True by force
        then show ?thesis using sum_touch(2) [OF pc'(2) jc pc'(1) x r] True by simp
      qed (use other [OF _ vl v(2) q'] in simp)
    qed
  qed
  moreover have "fst (snd (fold ?step ((u, Plain (bar u)) # d) (fold ?step p1 ?m0))) (grp t) ?c = fst (snd (fold ?step p1 ?m0)) (grp t) ?c"
  proof (rule sums_kept)
    fix v a m assume v: "(v, a) \<in> set ((u, Plain (bar u)) # d)" "grp v = grp t"
    show "sum_effect addsums a m ?c = m ?c"
    proof (cases "changes_sums a")
      case True
      then obtain d1 d2 where d: "d = d1 @ (v, a) # d2" using split_list v(1) by fastforce
      obtain q' where q': "q \<le> q'" "q' \<le> q" "waits_of s8_wait v ((p0 @ (u, ?cl) # p1) @ (u, Plain (bar u)) # d1) = 2 * q' + 1"
          "a \<in> set (s8_packs (ti v) (je t) (blks t ! q'))"
        using touch_phase [of "p0 @ (u, ?cl) # p1" u "Plain (bar u)" d1 v a d2 t k ys q q] s q(1) v(2) u(2) w1 True unfolding xs d by auto
      have "v \<noteq> u" using q' w1 unfolding waits_of_append by (auto simp: waits_of_def)
      moreover have vl: "v < length threads" using schedule_member [OF s(1), of "(v, a)"] by (simp add: xs d)
      ultimately show ?thesis using other [OF _ vl v(2) _ q'(2,4)] q0(1) q'(1) by simp
    qed (simp add: sums_unchanged)
  qed
  ultimately show ?thesis using y by (simp add: xs)
qed

section \<open>What the team computes\<close>

lemma s8_call_shape:
  assumes s: "interleaves (xs @ (t, Kernel_s8 c v) # ys) (length threads) trace"
  obtains q jc pc ic jr where "waits_of s8_wait t xs = 2 * q + 2" "q < length (blks t)" "blks t ! q = (jc, pc)" "0 \<le> jr"
    "c = kernel_at jc (cols (je t) jc) pc (depth pc) ic (dlp_min (snd (rslice t) - ic) MC) jr" "v = Sums_buffer (sum_table (je t) jc) jr"
proof -
  have t: "t < length threads" using s by (simp add: interleaves_def)
  have np: "Kernel_s8 c v \<notin> set (s8_packs ti' e blk)" for ti' e blk by (auto simp: s8_packs_def Let_def split: prod.splits)
  obtain q where q: "waits_of s8_wait t xs = 2 * q + 2" "q < length (blks t)"
    "Kernel_s8 c v \<in> set (s8_works (fst (rslice t)) (snd (rslice t)) (je t) (blks t ! q))"
    using phase_label(2) [OF s, of s8_wait] s8_phase [OF t, of "Kernel_s8 c v"] np by auto
  obtain jc pc where b: "blks t ! q = (jc, pc)" by force
  obtain ic jr where "jr \<in> set (loop_points 0 (cols (je t) jc) (\<lambda>jr. jr + NR))"
    "c = kernel_at jc (cols (je t) jc) pc (depth pc) ic (dlp_min (snd (rslice t) - ic) MC) jr" "v = Sums_buffer (sum_table (je t) jc) jr"
    using q(3) by (auto simp: b s8_works_def)
  then show ?thesis using that [OF q(1,2) b] loop_points_bounds [of jr 0 "cols (je t) jc"] by blast
qed

lemma s8_call_reads:
  assumes s: "interleaves (xs @ (t, Kernel_s8 c v) # ys) (length threads) trace" "respects_barriers s8_wait grp (length threads) (xs @ (t, Kernel_s8 c v) # ys)"
  shows "placed g c" "reads_B NR (B_at bsrc) (fst (fold (s8_step pack addsums kern bsums grp) xs mem) (grp t)) c"
proof -
  have e: "erase_sched (xs @ (t, Kernel_s8 c v) # ys) = erase_sched xs @ (t, Kernel c) # erase_sched ys" by simp
  note s' = erase_interleaves [OF s(1), unfolded e] erase_respects [OF s(2), unfolded e]
  show "placed g c" using schedule_member [OF s'(1), of "(t, Kernel c)"] call_placed [of t c] by simp
  show "reads_B NR (B_at bsrc) (fst (fold (s8_step pack addsums kern bsums grp) xs mem) (grp t)) c"
    using call_reads [OF s', of "\<lambda>_ _ cm. cm" "(fst mem, undefined)"] unfolding bufs_of [where cm = undefined] by (simp add: B_at_def [abs_def])
qed

lemma s8_call_sums:
  assumes s: "interleaves (xs @ (t, Kernel_s8 c v) # ys) (length threads) trace" "respects_barriers s8_wait grp (length threads) (xs @ (t, Kernel_s8 c v) # ys)"
    and "touches c i j"
  shows "sum_row bsums (fst (snd (fold (s8_step pack addsums kern bsums grp) xs mem)) (grp t)) v (j - post_op_c_j (kc_attr c)) =
      128 * (\<Sum>p \<in> {0..<kc_pc c + kc_kc0 c}. B_at bsrc p j)"
    and "is_last_k (kc_attr c) \<longleftrightarrow> kc_pc c + kc_kc0 c = ga_k g"
proof -
  obtain q jc pc ic jr where q: "waits_of s8_wait t xs = 2 * q + 2" "q < length (blks t)" "blks t ! q = (jc, pc)" and jr: "0 \<le> jr"
    and c: "c = kernel_at jc (cols (je t) jc) pc (depth pc) ic (dlp_min (snd (rslice t) - ic) MC) jr" and v: "v = Sums_buffer (sum_table (je t) jc) jr"
    by (rule s8_call_shape [OF s(1)])
  have x: "0 \<le> j - jc" "j - jc < cols (je t) jc" using assms(3) jr by (auto simp: c kernel_at_def touches_def dlp_min_def split: if_splits)
  show "sum_row bsums (fst (snd (fold (s8_step pack addsums kern bsums grp) xs mem)) (grp t)) v (j - post_op_c_j (kc_attr c)) =
      128 * (\<Sum>p \<in> {0..<kc_pc c + kc_kc0 c}. B_at bsrc p j)"
    using sums_hold [OF s q x, of kern bsums mem] by (simp add: c v kernel_at_def)
  show "is_last_k (kc_attr c) \<longleftrightarrow> kc_pc c + kc_kc0 c = ga_k g" using sizes(3) by (auto simp: c kernel_at_def depth_def dlp_min_def)
qed

text \<open>The packed block ends where the sums begin: a pack call writes no byte of the table.\<close>

lemma packs_below_sums:
  assumes p: "Pack_s8 s d w dep v \<in> set (s8_packs tv ej (jc, pc))" and blk: "jc < ej" "0 \<le> pc" "pc < ga_k g" and a: "sum_table ej jc \<le> a"
  shows "pack s d w dep m a = m a"
proof (rule pack_frame)
  define r where "r = task_slice False (cols ej jc) NR (n_way tv) (work_id tv)"
  let ?up = "dlp_make_multiple_of_n (depth pc) 4" and ?b = "ga_rs_b g * pc + ga_cs_b g * jc"
  have q: "fst r < snd r" "s = ?b + fst r * ga_cs_b g" "d = fst r * ?up" "w = snd r - fst r" "dep = depth pc"
    using p by (auto simp: s8_packs_def Let_def r_def mult.commute split: if_splits)
  note pos = cols_pos [OF blk(1)] depth_pos [OF blk(3)]
  note rb = block_layout [OF pos]
  note sf = reorder_blocks.slice_facts [OF rb, of "n_way tv" "work_id tv", folded r_def]
  have w: "0 < w" "fst r + w \<le> cols ej jc" "fst r < cols ej jc" using q(1,4) sf(2) by simp_all
  have "NR dvd w \<or> fst r + w = cols ej jc" using sf(4,5) q(1,4) by (auto intro: dvd_diff)
  note bp = block_piece [OF pos(2) sf(1) w(3) sf(4) [OF q(1)] w(1,2) this]
  have dv: "packb_min_NR dvd NR" "0 < packb_min_NR" using blocks_legalD [OF legal] by simp_all
  have u: "0 \<le> ?up" "?up \<le> dlp_make_multiple_of_n (depth 0) 4"
    using make_multiple_bounds [of "depth pc" 4] make_multiple_mono [of "depth pc" "depth 0" 4] pos(2) blk(2) by (auto simp: depth_def dlp_min_def)
  have "fst r + dlp_make_multiple_of_n w packb_min_NR \<le> dlp_make_multiple_of_n (cols ej jc) packb_min_NR"
  proof (cases "NR dvd w")
    case True
    then have "dlp_make_multiple_of_n w packb_min_NR = w" using w(1) dv by (intro make_multiple_id) (auto dest: dvd_trans)
    then show ?thesis using w(2) make_multiple_bounds [of "cols ej jc" packb_min_NR] pos(1) dv(2) by simp
  next
    case False
    have "16 dvd fst r" using sf(4) [OF q(1)] dv(1) by (auto simp: packb_min_NR_def dest: dvd_trans)
    moreover have "a + u \<le> y" if "16 dvd a" "16 dvd u" "u < x + 16" "a + x \<le> y" "16 dvd y" for a u x y :: md_t using that by presburger
    moreover have "fst r + w = cols ej jc" using False \<open>NR dvd w \<or> fst r + w = cols ej jc\<close> by blast
    ultimately show ?thesis using w(1) pos(1) make_multiple_bounds [of w 16] make_multiple_bounds [of "cols ej jc" 16] unfolding packb_min_NR_def by auto
  qed
  then have "(fst r + dlp_make_multiple_of_n w packb_min_NR) * ?up \<le> sum_table ej jc"
    unfolding sum_table_def using u make_multiple_bounds [of "cols ej jc" packb_min_NR] pos(1) dv(2) by (intro mult_mono) auto
  then have "\<not> reorder_blocks.in_piece packb_min_NR (dlp_make_multiple_of_n (cols ej jc) NR) ?up 4 (cols ej jc) (depth pc) (fst r) w 0 a"
    using a unfolding reorder_blocks.in_piece_def [OF rb] bp(2,3) by (simp add: distrib_right)
  moreover have "dlp_min (depth pc) ?up = depth pc" using make_multiple_bounds [of "depth pc" 4] pos(2) by (simp add: dlp_min_def)
  ultimately have "final_op (dlp_reorder_ref_packb d (fst r * ga_cs_b g) 4 w dep NR packb_min_NR (ga_rs_b g) (ga_cs_b g)) a = None"
    using reorder_blocks.piece_final [OF rb bp(1), of 0 "ga_rs_b g" "ga_cs_b g" a] pos(2) by (simp add: bp(2) q(3,5))
  then show "final_op (dlp_reorder_ref_packb d s 4 w dep NR packb_min_NR (ga_rs_b g) (ga_cs_b g)) a = None"
    unfolding q(2) packb_shift final_op_shift by simp
qed

text \<open>Element \<open>(i, j)\<close> of C follows the updates of an unsigned product whose last term takes the sums away.\<close>

definition shifted_term :: "bytes \<Rightarrow> md_t \<Rightarrow> md_t \<Rightarrow> md_t \<Rightarrow> int32_t" where
  "shifted_term amem j i p = (scast (amem (i * ga_rs_a g + p)) + 128) * B_at bsrc p j -
     (if p = ga_k g - 1 then 128 * (\<Sum>q \<in> {0..<ga_k g}. B_at bsrc q j) else 0)"

lemma shifted_block:
  assumes "pc + kc \<le> ga_k g" "0 < kc"
  shows "(\<Sum>p \<in> {pc..<pc + kc}. shifted_term amem j i p) = (\<Sum>p \<in> {pc..<pc + kc}. (scast (amem (i * ga_rs_a g + p)) + 128) * B_at bsrc p j) -
    (if pc + kc = ga_k g then 128 * (\<Sum>q \<in> {0..<ga_k g}. B_at bsrc q j) else 0)"
  using assms by (auto simp: shifted_term_def sum_subtractf)

lemma shifted_all:
  assumes "0 < ga_k g"
  shows "(\<Sum>p \<in> {0..<ga_k g}. shifted_term amem j i p) = (\<Sum>p \<in> {0..<ga_k g}. scast (amem (i * ga_rs_a g + p)) * B_at bsrc p j)"
  using shifted_block [of 0 "ga_k g" amem j i] assms by (simp add: distrib_right sum.distrib sum_distrib_left)

lemma no_plain_kernel: "t < length threads \<Longrightarrow> Plain (Kernel c) \<notin> set (trace t)"
proof
  assume t: "t < length threads" and "Plain (Kernel c) \<in> set (trace t)"
  then have "Plain (Kernel c) \<in> set (filter s8_essential (trace t))" by simp
  then show False unfolding s8_ess [OF t] by (auto simp: s8_packs_def s8_works_def Let_def split: if_splits)
qed

lemma s8_simulates:
  assumes "interleaves (xs @ ys) (length threads) trace" "respects_barriers s8_wait grp (length threads) (xs @ ys)"
    and kern: "\<And>buf sumv. s8_memory_kernel NR alpha amem buf sumv (kern buf sumv)" and ga: "ga_cs_a g = 1" "ga_n g \<le> ga_rs_c g"
    and ij: "0 \<le> i" "i < ga_m g" "0 \<le> j" "j < ga_n g"
  shows "snd (snd (fold (s8_step pack addsums kern bsums grp) xs mem)) (i * ga_rs_c g + j) =
    fold (tile_update alpha (shifted_term amem j) (\<lambda>_ _. 1)) (map snd (calls_of (erase_sched xs))) (\<lambda>i j. snd (snd mem) (i * ga_rs_c g + j)) i j"
  using assms(1,2)
proof (induction xs arbitrary: ys rule: rev_induct)
  case (snoc e xs)
  obtain t a where e: "e = (t, a)" by force
  obtain bufs sums cm where m: "fold (s8_step pack addsums kern bsums grp) xs mem = (bufs, sums, cm)" by (metis surj_pair)
  have pre: "interleaves (xs @ (t, a) # ys) (length threads) trace" "respects_barriers s8_wait grp (length threads) (xs @ (t, a) # ys)"
    using snoc.prems by (simp_all add: e)
  note IH = snoc.IH [OF pre, unfolded m snd_conv]
  show ?case
  proof (cases "\<exists>c v. a = Kernel_s8 c v")
    case False
    moreover have "kernel_calls [b] = []" if "a = Plain b" for b using no_plain_kernel [OF phase_label(1) [OF pre(1)]] schedule_member [OF pre(1), of e] that by (cases b) (auto simp: e)
    ultimately show ?thesis using IH by (cases a) (simp_all add: e m s8_step_at calls_of_append calls_of_def)
  next
    case True
    then obtain c v where a: "a = Kernel_s8 c v" by blast
    note pl = s8_call_reads(1) [OF pre [unfolded a]] s8_call_reads(2) [OF pre [unfolded a], of kern bsums mem, unfolded m fst_conv]
    note su = s8_call_sums(1) [OF pre [unfolded a], of i j bsums kern mem, unfolded m fst_conv snd_conv] s8_call_sums(2) [OF pre [unfolded a], of i j]
    have bd: "kc_pc c + kc_kc0 c \<le> ga_k g" "0 < kc_kc0 c" using pl(1) by (auto simp: placed_def)
    let ?sv = "sum_row bsums (sums (grp t)) v"
    have "kern (bufs (grp t)) ?sv c cm (i * ga_rs_c g + j) =
      (if touches c i j then kc_beta0 c * cm (i * ga_rs_c g + j) + alpha * (\<Sum>p \<in> {kc_pc c..<kc_pc c + kc_kc0 c}. shifted_term amem j i p) else cm (i * ga_rs_c g + j))"
    proof (cases "touches c i j")
      case True
      have "byte_dot NR (\<lambda>w. scast w + 128) amem (bufs (grp t)) c (i - post_op_c_i (kc_attr c)) (j - post_op_c_j (kc_attr c)) =
          (\<Sum>p \<in> {kc_pc c..<kc_pc c + kc_kc0 c}. (scast (amem (i * ga_rs_a g + p)) + 128) * B_at bsrc p j)"
        by (rule byte_dot_reads [OF pl ga(1) True]) simp
      then show ?thesis using s8_memory_kernel.s8_at [OF kern pl(1) ga(2) ij] su [OF True] True shifted_block [OF bd, of amem j i] by simp
    qed (use s8_memory_kernel.s8_at [OF kern pl(1) ga(2) ij] in simp)
    then show ?thesis using IH by (simp add: e a m s8_step_at calls_of_append calls_of_single tile_update_def)
  qed
qed (simp add: calls_of_def)

lemma s8_outside_kept:
  assumes "interleaves (xs @ ys) (length threads) trace" "respects_barriers s8_wait grp (length threads) (xs @ ys)"
    and kern: "\<And>buf sumv. s8_memory_kernel NR alpha amem buf sumv (kern buf sumv)"
    and out: "\<And>i j. 0 \<le> i \<Longrightarrow> i < ga_m g \<Longrightarrow> 0 \<le> j \<Longrightarrow> j < ga_n g \<Longrightarrow> a \<noteq> i * ga_rs_c g + j"
  shows "snd (snd (fold (s8_step pack addsums kern bsums grp) xs mem)) a = snd (snd mem) a"
  using assms(1,2)
proof (induction xs arbitrary: ys rule: rev_induct)
  case (snoc e xs)
  obtain t b where e: "e = (t, b)" by force
  obtain bufs sums cm where m: "fold (s8_step pack addsums kern bsums grp) xs mem = (bufs, sums, cm)" by (metis surj_pair)
  have pre: "interleaves (xs @ (t, b) # ys) (length threads) trace" "respects_barriers s8_wait grp (length threads) (xs @ (t, b) # ys)"
    using snoc.prems by (simp_all add: e)
  note IH = snoc.IH [OF pre, unfolded m snd_conv]
  show ?case
  proof (cases "\<exists>c v. b = Kernel_s8 c v")
    case True
    then obtain c v where b: "b = Kernel_s8 c v" by blast
    show ?thesis using s8_memory_kernel.s8_keeps [OF kern s8_call_reads(1) [OF pre [unfolded b]] out] IH by (simp add: e b m s8_step_at)
  qed (use IH in \<open>cases b; simp add: e m s8_step_at\<close>)
qed simp

lemma s8_can_run: "\<exists>sched. interleaves sched (length threads) trace \<and> respects_barriers s8_wait grp (length threads) sched"
proof -
  let ?E = "Suc (Max ((\<lambda>t. length (filter s8_wait (trace t))) ` {..<length threads}))"
  have "length (filter s8_wait (trace t)) < ?E" if "t < length threads" for t using that by (simp add: less_Suc_eq_le)
  moreover have "length (filter s8_wait (trace u)) = length (filter s8_wait (trace t))"
    if "t < length threads" "u < length threads" "grp u = grp t" for t u
    using same_columns [OF that] wait_count [OF that(1)] wait_count [OF that(2)] by (simp add: erased_waits)
  ultimately show ?thesis
    using phase_by_phase_interleaves [of "length threads" s8_wait trace ?E] phase_by_phase_respects [of "length threads" grp s8_wait trace ?E] by blast
qed

lemma s8_product_on_memory:
  fixes mem :: s8_mem and bsums :: "md_t \<Rightarrow> int32_t"
  assumes s: "interleaves sched (length threads) trace" "respects_barriers s8_wait grp (length threads) sched"
    and kern: "\<And>buf sumv. s8_memory_kernel NR alpha amem buf sumv (kern buf sumv)" and ga: "ga_cs_a g = 1" "ga_n g \<le> ga_rs_c g"
    and pos: "0 < ga_m g" "0 < ga_n g" "0 < ga_k g"
  defines "out \<equiv> snd (snd (fold (s8_step pack addsums kern bsums grp) sched mem))"
  shows "0 \<le> i \<Longrightarrow> i < ga_m g \<Longrightarrow> 0 \<le> j \<Longrightarrow> j < ga_n g \<Longrightarrow> out (i * ga_rs_c g + j) = ga_beta g * snd (snd mem) (i * ga_rs_c g + j) +
      alpha * (\<Sum>p \<in> {0..<ga_k g}. scast (amem (i * ga_rs_a g + p)) * scast (bsrc (p * ga_rs_b g + j * ga_cs_b g)))"
    and "(\<And>i j. 0 \<le> i \<Longrightarrow> i < ga_m g \<Longrightarrow> 0 \<le> j \<Longrightarrow> j < ga_n g \<Longrightarrow> a \<noteq> i * ga_rs_c g + j) \<Longrightarrow> out a = snd (snd mem) a"
proof -
  have steps: "depth_steps i j (erased (trace t)) = (if run_owns False g lcntx (threads ! t) i j then run_depth False g lcntx else [])"
    if "t < length threads" for t i j
    using driver_steps [OF ok dims(2), of False packa undefined "threads ! t"] run_of(1) [OF that] plain(2)
      depth_steps_essential [OF run_of(2) [OF that]] by (auto simp: dlp_gemm_rowvar_u8s8s32o32_def)
  show "out (i * ga_rs_c g + j) = ga_beta g * snd (snd mem) (i * ga_rs_c g + j) +
      alpha * (\<Sum>p \<in> {0..<ga_k g}. scast (amem (i * ga_rs_a g + p)) * scast (bsrc (p * ga_rs_b g + j * ga_cs_b g)))"
    if ij: "0 \<le> i" "i < ga_m g" "0 \<le> j" "j < ga_n g"
  proof -
    note prod = tile_kernel.team_product [OF ref_kernel.tile_kernel_axioms team pos ok steps calls_interleave [OF erase_interleaves [OF s(1)]],
      of alpha "shifted_term amem j" "\<lambda>_ _. 1" "\<lambda>i j. snd (snd mem) (i * ga_rs_c g + j)" i j]
    show ?thesis using s8_simulates [of sched "[]", unfolded append_Nil2, OF s kern ga ij, of bsums mem] prod ij shifted_all [OF pos(3), of amem j i]
      unfolding out_def by (simp add: B_at_def)
  qed
  show "out a = snd (snd mem) a" if "\<And>i j. 0 \<le> i \<Longrightarrow> i < ga_m g \<Longrightarrow> 0 \<le> j \<Longrightarrow> j < ga_n g \<Longrightarrow> a \<noteq> i * ga_rs_c g + j"
    unfolding out_def using s8_outside_kept [of sched "[]", unfolded append_Nil2, OF s kern that] .
qed

end

text \<open>An instance: four threads, two column groups of two.\<close>

interpretation example_s8_team: s8_team "example_args 20 100 9 PACK" "example_cntx 144 1024 2048 6 64" bsrc "ref_pack 64 100 1 bsrc" "ref_sums 100 1 bsrc"
  "map (\<lambda>t. thread_setup 4 2 2 (int t) UNPACKED DEFAULT) [0..<4]"
  "\<lambda>t. the (s8_gemm_5loop packa (example_args 20 100 9 PACK) (example_cntx 144 1024 2048 6 64) (map (\<lambda>t. thread_setup 4 2 2 (int t) UNPACKED DEFAULT) [0..<4] ! t))" packa
proof -
  let ?g = "example_args 20 100 9 PACK" and ?c = "example_cntx 144 1024 2048 6 64" and ?thr = "map (\<lambda>t. thread_setup 4 2 2 (int t) UNPACKED DEFAULT) [0..<4]"
  have "bs_NR (cx_blksz ?c) = 64" "ga_rs_b ?g = 100" "ga_cs_b ?g = 1" by (simp_all add: example_args_def example_cntx_def)
  then have pk: "s8_pack_kernel (bs_NR (cx_blksz ?c)) (ga_rs_b ?g) (ga_cs_b ?g) bsrc (ref_pack 64 100 1 bsrc) (ref_sums 100 1 bsrc)"
    using ref_s8_pack.s8_pack_kernel_axioms by simp
  have team: "is_team ?thr" unfolding is_team_def
    by (intro exI [of _ 4] exI [of _ 2] exI [of _ UNPACKED] exI [of _ DEFAULT]) (simp add: nth_map)
  have plain: "ga_mtag_a ?g = UNPACKED" "ga_mtag_b ?g = PACK" by (rule example_pack.plain)+
  have run: "s8_gemm_5loop packa ?g ?c th = Some (the (s8_gemm_5loop packa ?g ?c th))" for th
    using s8_driver_steps [OF example_pack.ok example_pack.dims(2), of False packa undefined th] plain
    by (auto simp: dlp_gemm_rowvar_s8s8s32o32_def)
  show "s8_team ?g ?c bsrc (ref_pack 64 100 1 bsrc) (ref_sums 100 1 bsrc) ?thr (\<lambda>t. the (s8_gemm_5loop packa ?g ?c (?thr ! t))) packa"
    using example_pack.packed_run_axioms pk team run unfolding s8_team_def s8_team_axioms_def by blast
qed

end
