(* ===== verification/Kernel_Hndl.thy ===== *)
theory Kernel_Hndl
  imports Config
begin

unbundle bit_operations_syntax

text \<open>
  The C boundary of the kernel framework, \<^verbatim>\<open>src/frame/bindings/c_wrappers/capi_kernel_frame_wrappers.cc\<close>:
  what an entry point does to its copy of the context between merging the caller's metadata and
  running.

  The decision engine picks a tile and the registry or the JIT finds a kernel for it. Their answer
  is a parameter, any function of the context as it stands at the call; the theorems hold for every
  such function. \<open>cntx_wf\<close> is the type of a context: positive block sizes, cache blocks that are whole
  numbers of register blocks. The lemmas show how each step of a call keeps or restores it.
\<close>

section \<open>Handles\<close>

datatype kernel_datatype_t =
    DLP_KERNEL_INVALID
  | DLP_KERNEL_U8S8S32OS32 | DLP_KERNEL_U8S8S32OF32 | DLP_KERNEL_U8S8S32OF16
  | DLP_KERNEL_U8S8S32OBF16 | DLP_KERNEL_U8S8S32OU8 | DLP_KERNEL_U8S8S32OS8
  | DLP_KERNEL_S8S8S32OU8 | DLP_KERNEL_S8S8S32OS8 | DLP_KERNEL_S8S8S32OBF16
  | DLP_KERNEL_S8S8S32OF32 | DLP_KERNEL_S8S8S32OF16 | DLP_KERNEL_S8S8S32OS32
  | DLP_KERNEL_BF16BF16F32OBF16 | DLP_KERNEL_BF16BF16F32OF32 | DLP_KERNEL_F32F32F32OF32
  | DLP_KERNEL_F16F16F16OF16 | DLP_KERNEL_F16F16F16OF32 | DLP_KERNEL_F32F16F32OF32
  | DLP_KERNEL_S8S8S32OF32_SYM_QUANT | DLP_KERNEL_S8S8S32OBF16_SYM_QUANT
  | DLP_KERNEL_S8S4S32OF32_SYM_QUANT | DLP_KERNEL_S8S4S32OBF16_SYM_QUANT
  | DLP_KERNEL_DATATYPE_MAX

text \<open>The C value is in the range of the C++ enumeration.\<close>

definition getKernelDatatype_valid :: "kernel_datatype_t \<Rightarrow> bool" where
  "getKernelDatatype_valid k_dtype \<longleftrightarrow> k_dtype \<noteq> DLP_KERNEL_INVALID \<and> k_dtype \<noteq> DLP_KERNEL_DATATYPE_MAX"

text \<open>The answer of the decision engine for a GEMM: its tile and depth block, the thread split it leaves in the
  context, and the kernel found or generated (0 when there is no valid one).\<close>

record kernelInfo =
  ki_mr :: md_t
  ki_nr :: md_t
  ki_kc :: md_t
  ki_thread_info :: dlp_gemm_thread_info_t
  ki_kernel :: ptr

text \<open>The answer for packing B.\<close>

record packKernelInfo =
  pk_panel_dim :: md_t
  pk_k_factor :: md_t
  pk_kernel :: ptr

record dlp_pack_info_hndl_t =
  ph_kernel_base :: ptr
  ph_panel_dim :: md_t
  ph_k_factor :: md_t

type_synonym gemm_engine = "dlp_gemm_cntx_t \<Rightarrow> kernelInfo"
type_synonym packb_engine = "dlp_gemm_cntx_t \<Rightarrow> packKernelInfo"

text \<open>The 8-bit engines, \<open>gemmU8S8DEBackend\<close> and \<open>gemmS8DEBackend\<close>: which tile and thread split the shape model picks, and
  whether a kernel exists for it, is the parameter \<open>shape\<close>; the depth block is that of the context rounded up to
  whole groups of four.\<close>

record tile_choice =
  tc_mr :: md_t
  tc_nr :: md_t
  tc_thread_info :: dlp_gemm_thread_info_t
  tc_kernel :: ptr

definition k_pack_factor :: md_t where "k_pack_factor = 4"

definition int8_kernelInfo :: "(dlp_gemm_cntx_t \<Rightarrow> tile_choice) \<Rightarrow> gemm_engine" where
  "int8_kernelInfo shape c =
     \<lparr>ki_mr = tc_mr (shape c), ki_nr = tc_nr (shape c), ki_kc = ceil_blks (bs_KC (cx_blksz c)) k_pack_factor * k_pack_factor,
      ki_thread_info = tc_thread_info (shape c), ki_kernel = tc_kernel (shape c)\<rparr>"

section \<open>Settling the tile\<close>

definition dlp_init_and_get_kernel_hndl :: "kernel_datatype_t \<Rightarrow> gemm_engine \<Rightarrow> dlp_gemm_cntx_t \<Rightarrow> dlp_gemm_cntx_t" where
  "dlp_init_and_get_kernel_hndl k_dtype engine cntx =
     (if \<not> getKernelDatatype_valid k_dtype
      then cntx\<lparr>cx_dlp_kernel_hndl := (cx_dlp_kernel_hndl cntx)\<lparr>kh_kernel_base := 0\<rparr>\<rparr>
      else
        let fastKI = engine cntx;
            cntx = cntx\<lparr>cx_thread_info := ki_thread_info fastKI\<rparr>
        in if ki_mr fastKI \<le> 0 \<or> ki_nr fastKI \<le> 0
           then cntx\<lparr>cx_dlp_kernel_hndl := (cx_dlp_kernel_hndl cntx)\<lparr>kh_kernel_base := 0\<rparr>\<rparr>
           else cntx
             \<lparr>cx_dlp_kernel_hndl := \<lparr>kh_kernel_base = ki_kernel fastKI, kh_mr = ki_mr fastKI, kh_nr = ki_nr fastKI\<rparr>,
              cx_blksz := \<lparr>bs_MC = ceil_blks (bs_MC (cx_blksz cntx)) (ki_mr fastKI) * ki_mr fastKI,
                           bs_NC = ceil_blks (bs_NC (cx_blksz cntx)) (ki_nr fastKI) * ki_nr fastKI,
                           bs_KC = ki_kc fastKI, bs_NR = ki_nr fastKI, bs_MR = ki_mr fastKI\<rparr>,
              cx_blksz_set_mask := cx_blksz_set_mask cntx OR push_bit DLP_BLKSZ_SET_MR 1 OR push_bit DLP_BLKSZ_SET_NR 1\<rparr>)"

text \<open>The handle is returned beside the context. The callers set \<open>kernel_base\<close> to NULL before the call.\<close>

definition dlp_init_and_get_packb_kernel_hndl ::
  "kernel_datatype_t \<Rightarrow> packb_engine \<Rightarrow> dlp_pack_info_hndl_t \<Rightarrow> dlp_gemm_cntx_t \<Rightarrow> dlp_pack_info_hndl_t \<times> dlp_gemm_cntx_t" where
  "dlp_init_and_get_packb_kernel_hndl k_dtype engine b_hndl cntx =
     (if \<not> getKernelDatatype_valid k_dtype then (b_hndl\<lparr>ph_kernel_base := 0\<rparr>, cntx)
      else
        let packKI = engine cntx
        in if pk_panel_dim packKI \<le> 0 then (b_hndl\<lparr>ph_kernel_base := 0\<rparr>, cntx)
           else (\<lparr>ph_kernel_base = pk_kernel packKI, ph_panel_dim = pk_panel_dim packKI, ph_k_factor = pk_k_factor packKI\<rparr>,
                 cntx\<lparr>cx_blksz := (cx_blksz cntx)
                        \<lparr>bs_NR := pk_panel_dim packKI,
                         bs_NC := ceil_blks (bs_NC (cx_blksz cntx)) (pk_panel_dim packKI) * pk_panel_dim packKI\<rparr>,
                      cx_blksz_set_mask := cx_blksz_set_mask cntx OR push_bit DLP_BLKSZ_SET_NR 1\<rparr>))"

definition cache_line_size :: md_t where "cache_line_size = 64"

text \<open>Elements per step and column stride by data type; \<open>None\<close> is the \<open>default\<close> case.\<close>

fun step_of_dtype :: "kernel_datatype_t \<Rightarrow> (md_t \<times> md_t) option" where
  "step_of_dtype DLP_KERNEL_BF16BF16F32OBF16 = Some (2, cache_line_size sdiv 2)"
| "step_of_dtype DLP_KERNEL_BF16BF16F32OF32 = Some (2, cache_line_size sdiv 2)"
| "step_of_dtype DLP_KERNEL_F32F32F32OF32 = Some (1, 1)"
| "step_of_dtype DLP_KERNEL_F16F16F16OF16 = Some (1, 1)"
| "step_of_dtype DLP_KERNEL_F16F16F16OF32 = Some (1, 1)"
| "step_of_dtype DLP_KERNEL_F32F16F32OF32 = Some (1, 1)"
| "step_of_dtype DLP_KERNEL_U8S8S32OS32 = Some (4, cache_line_size sdiv 1)"
| "step_of_dtype DLP_KERNEL_U8S8S32OF32 = Some (4, cache_line_size sdiv 1)"
| "step_of_dtype DLP_KERNEL_U8S8S32OF16 = Some (4, cache_line_size sdiv 1)"
| "step_of_dtype DLP_KERNEL_U8S8S32OBF16 = Some (4, cache_line_size sdiv 1)"
| "step_of_dtype DLP_KERNEL_U8S8S32OU8 = Some (4, cache_line_size sdiv 1)"
| "step_of_dtype DLP_KERNEL_U8S8S32OS8 = Some (4, cache_line_size sdiv 1)"
| "step_of_dtype DLP_KERNEL_S8S8S32OU8 = Some (4, cache_line_size sdiv 1)"
| "step_of_dtype DLP_KERNEL_S8S8S32OS8 = Some (4, cache_line_size sdiv 1)"
| "step_of_dtype DLP_KERNEL_S8S8S32OBF16 = Some (4, cache_line_size sdiv 1)"
| "step_of_dtype DLP_KERNEL_S8S8S32OF32 = Some (4, cache_line_size sdiv 1)"
| "step_of_dtype DLP_KERNEL_S8S8S32OF16 = Some (4, cache_line_size sdiv 1)"
| "step_of_dtype DLP_KERNEL_S8S8S32OS32 = Some (4, cache_line_size sdiv 1)"
| "step_of_dtype _ = None"

definition dlp_upd_pack_strides :: "kernel_datatype_t \<Rightarrow> dlp_gemm_cntx_t \<Rightarrow> dlp_gemm_cntx_t" where
  "dlp_upd_pack_strides k_dtype cntx =
     (let mr = bs_MR (cx_blksz cntx);
          nr = bs_NR (cx_blksz cntx)
      in (case step_of_dtype k_dtype of
            None \<Rightarrow> cntx
          | Some (elems_per_step, cs) \<Rightarrow>
              cntx\<lparr>cx_pack_s := \<lparr>packa_rs = elems_per_step, packa_cs = elems_per_step * mr,
                                packb_rs = elems_per_step * nr, packb_cs = cs\<rparr>\<rparr>))"

section \<open>The type of a context\<close>

definition cntx_wf :: "dlp_gemm_cntx_t \<Rightarrow> bool" where
  "cntx_wf c \<longleftrightarrow> blksz_ok (cx_blksz c) \<and> bs_MR (cx_blksz c) dvd bs_MC (cx_blksz c) \<and> bs_NR (cx_blksz c) dvd bs_NC (cx_blksz c)"

lemma cntx_wf_ok: "cntx_wf c \<Longrightarrow> blksz_ok (cx_blksz c)" by (simp add: cntx_wf_def)

text \<open>The strides of the packed operands agree with the tile of the context.\<close>

definition strides_agree :: "md_t \<Rightarrow> dlp_gemm_cntx_t \<Rightarrow> bool" where
  "strides_agree step c \<longleftrightarrow> packa_rs (cx_pack_s c) = step \<and> packa_cs (cx_pack_s c) = step * bs_MR (cx_blksz c)
     \<and> packb_rs (cx_pack_s c) = step * bs_NR (cx_blksz c)"

lemma table_wf:
  assumes "op \<in> {U8S8S32OS32, S8S8S32OS32}"
  shows "cntx_wf (dlp_gemm_get_global_cntx_obj (init_table c) (op_type_code op))"
  using assms unfolding cntx_wf_def get_cntx_entry
  by (auto simp: map_of_cpu_def table_map_defs table_index_op blksz_ok_def Let_def)

lemma upd_cntx_success:
  assumes "dlp_gemm_upd_cntx_with_metadata (Some c) md = (DLP_CLSC_SUCCESS, Some c')" "blksz_ok (cx_blksz c)"
  shows "blksz_ok (cx_blksz c')" "cx_pack_s c' = cx_pack_s c" "cx_thread_info c' = cx_thread_info c"
    "md = None \<or> (\<exists>m. md = Some m \<and> md_block_params m = None) \<Longrightarrow> cx_blksz c' = cx_blksz c"
proof -
  have ok: "blksz_ok (round_blksz bp (merge_blksz bp (cx_blksz c)))" for bp
    by (intro round_blksz_ok merge_blksz_ok assms(2))
  show "blksz_ok (cx_blksz c')" "cx_pack_s c' = cx_pack_s c" "cx_thread_info c' = cx_thread_info c"
    "md = None \<or> (\<exists>m. md = Some m \<and> md_block_params m = None) \<Longrightarrow> cx_blksz c' = cx_blksz c"
    using assms ok by (auto simp: dlp_gemm_upd_cntx_with_metadata_def Let_def split: option.splits if_splits)
qed

lemma kernel_hndl_wf:
  assumes "blksz_ok (cx_blksz c)" "0 < ki_kc (engine c)"
    and "kh_kernel_base (cx_dlp_kernel_hndl (dlp_init_and_get_kernel_hndl k_dtype engine c)) \<noteq> 0"
  shows "cntx_wf (dlp_init_and_get_kernel_hndl k_dtype engine c)"
  using assms ceil_mult_pos [of "bs_MC (cx_blksz c)" "ki_mr (engine c)"] ceil_mult_pos [of "bs_NC (cx_blksz c)" "ki_nr (engine c)"]
  by (auto simp: dlp_init_and_get_kernel_hndl_def Let_def cntx_wf_def blksz_ok_def split: if_splits)

lemma int8_kc_pos: "blksz_ok (cx_blksz c) \<Longrightarrow> 0 < ki_kc (int8_kernelInfo shape c)"
  using ceil_mult_pos [of "bs_KC (cx_blksz c)" 4] by (auto simp: int8_kernelInfo_def k_pack_factor_def)

lemma packb_hndl_cases:
  assumes "dlp_init_and_get_packb_kernel_hndl k_dtype engine h c = (h', c')"
  obtains (unset) "c' = c" "ph_kernel_base h' = 0"
  | (set) "0 < pk_panel_dim (engine c)" "bs_NR (cx_blksz c') = pk_panel_dim (engine c)"
      "bs_NC (cx_blksz c') = ceil_blks (bs_NC (cx_blksz c)) (pk_panel_dim (engine c)) * pk_panel_dim (engine c)"
      "bs_MC (cx_blksz c') = bs_MC (cx_blksz c)" "bs_MR (cx_blksz c') = bs_MR (cx_blksz c)" "bs_KC (cx_blksz c') = bs_KC (cx_blksz c)"
      "cx_pack_s c' = cx_pack_s c" "cx_thread_info c' = cx_thread_info c"
  using assms by (auto simp: dlp_init_and_get_packb_kernel_hndl_def Let_def split: if_splits)

lemma packb_hndl_ok:
  assumes "dlp_init_and_get_packb_kernel_hndl k_dtype engine h c = (h', c')" "blksz_ok (cx_blksz c)"
  shows "blksz_ok (cx_blksz c')" "cntx_wf c \<Longrightarrow> cntx_wf c'"
    "cntx_wf c' \<or> cx_blksz c' = cx_blksz c \<or> \<not> bs_MR (cx_blksz c) dvd bs_MC (cx_blksz c)"
    "bs_NR (cx_blksz c') dvd bs_NC (cx_blksz c') \<or> cx_blksz c' = cx_blksz c"
  using assms(1)
  by (cases rule: packb_hndl_cases;
      use assms(2) ceil_mult_pos [of "bs_NC (cx_blksz c)" "pk_panel_dim (engine c)"] in \<open>auto simp: cntx_wf_def blksz_ok_def\<close>)+

lemma upd_strides_keep [simp]:
  "cx_blksz (dlp_upd_pack_strides k_dtype c) = cx_blksz c"
  "cx_thread_info (dlp_upd_pack_strides k_dtype c) = cx_thread_info c"
  "cx_sup_thres (dlp_upd_pack_strides k_dtype c) = cx_sup_thres c"
  by (auto simp: dlp_upd_pack_strides_def Let_def split: option.splits)

lemma upd_strides_wf [simp]: "cntx_wf (dlp_upd_pack_strides k_dtype c) = cntx_wf c"
  by (simp add: cntx_wf_def)

lemma upd_strides_agree: "step_of_dtype k_dtype = Some (step, cs) \<Longrightarrow> strides_agree step (dlp_upd_pack_strides k_dtype c)"
  by (auto simp: dlp_upd_pack_strides_def strides_agree_def Let_def)

text \<open>After the last validator: without stated block sizes nothing was checked, with them the cache blocks fit.\<close>

lemma validated_fits:
  assumes "dlp_gemm_validate_metadata_with_lcntx md (Some c) = DLP_CLSC_SUCCESS" "blksz_ok (cx_blksz c)"
    and "md = Some m" "md_block_params m = Some bp"
  shows "cntx_wf c" "validate_block_params bp (cx_blksz c)"
proof -
  have v: "validate_block_params bp (cx_blksz c)"
    using assms by (auto simp: dlp_gemm_validate_metadata_with_lcntx_def split: if_splits)
  show "validate_block_params bp (cx_blksz c)" by (rule v)
  show "cntx_wf c" using v assms(2) by (auto simp: validate_block_params_def cntx_wf_def smod_0_iff_dvd blksz_ok_def)
qed

end
