(* ===== verification/Arg_Check.thy ===== *)
theory Arg_Check
  imports Gemm_Utils
begin

text \<open>
  The argument checks of the entry points, the macros of
  \<^verbatim>\<open>classic/include/aocl_dlp_gemm_check.h\<close>.

  A check gives the number of the first illegal argument (0 for none) and the error code; printing
  the message is left out. Pointers are numbers with 0 for NULL. The lemmas turn an accepted call
  into what the drivers rely on: dimensions in range, matrices present, and strides under which
  different elements have different addresses that fit a signed 64-bit integer.
\<close>

section \<open>Limits and characters\<close>

definition DLP_MAX_GEMM_DIM :: md_t where "DLP_MAX_GEMM_DIM = 2 ^ 31 - 1"

definition DLP_MAX_GROUP_SIZE :: md_t where "DLP_MAX_GROUP_SIZE = 2 ^ 31 - 1"

definition row_char :: "char \<Rightarrow> bool" where "row_char x \<longleftrightarrow> x = CHR ''r'' \<or> x = CHR ''R''"

definition col_char :: "char \<Rightarrow> bool" where "col_char x \<longleftrightarrow> x = CHR ''c'' \<or> x = CHR ''C''"

definition notrans_char :: "char \<Rightarrow> bool" where "notrans_char x \<longleftrightarrow> x = CHR ''n'' \<or> x = CHR ''N''"

definition trans_char :: "char \<Rightarrow> bool" where "trans_char x \<longleftrightarrow> x = CHR ''t'' \<or> x = CHR ''T''"

definition mat_char :: "char \<Rightarrow> bool" where
  "mat_char x \<longleftrightarrow> x \<in> {CHR ''A'', CHR ''B'', CHR ''W'', CHR ''a'', CHR ''b'', CHR ''w''}"

definition mtag_char :: "char \<Rightarrow> bool" where
  "mtag_char x \<longleftrightarrow> x \<in> {CHR ''n'', CHR ''N'', CHR ''p'', CHR ''P'', CHR ''r'', CHR ''R''}"

lemma char_excl: "row_char x \<Longrightarrow> \<not> col_char x" "notrans_char x \<Longrightarrow> \<not> trans_char x"
  by (auto simp: row_char_def col_char_def notrans_char_def trans_char_def)

section \<open>Reordering\<close>

type_synonym check_result = "md_t \<times> dlp_clsc_err_t"

definition AOCL_DLP_REORDER_BUF_SIZE_CHECK :: "char \<Rightarrow> char \<Rightarrow> char \<Rightarrow> md_t \<Rightarrow> md_t \<Rightarrow> check_result" where
  "AOCL_DLP_REORDER_BUF_SIZE_CHECK order tr mat_type k n =
     (if \<not> row_char order \<and> \<not> col_char order then (1, DLP_CLSC_INVALID_ORDER)
      else if \<not> notrans_char tr \<and> \<not> trans_char tr then (2, DLP_CLSC_INVALID_TRANSPOSE)
      else if \<not> mat_char mat_type then (3, DLP_CLSC_INVALID_MATRIX_TYPE)
      else if k \<le> 0 \<or> k > DLP_MAX_GEMM_DIM then (4, DLP_CLSC_INVALID_MATRIX_DIMENSION)
      else if n \<le> 0 \<or> n > DLP_MAX_GEMM_DIM then (5, DLP_CLSC_INVALID_MATRIX_DIMENSION)
      else (0, DLP_CLSC_SUCCESS))"

definition AOCL_DLP_REORDER_CHECK ::
  "char \<Rightarrow> char \<Rightarrow> char \<Rightarrow> ptr \<Rightarrow> ptr \<Rightarrow> md_t \<Rightarrow> md_t \<Rightarrow> md_t \<Rightarrow> check_result" where
  "AOCL_DLP_REORDER_CHECK order tr mat_type input_buf_addr reorder_buf_addr k n ldb =
     (let col_stored = col_char order; row_stored = row_char order;
          notrans_b = notrans_char tr; trans_b = trans_char tr
      in if \<not> row_char order \<and> \<not> col_char order then (1, DLP_CLSC_INVALID_ORDER)
         else if \<not> notrans_char tr \<and> \<not> trans_char tr then (2, DLP_CLSC_INVALID_TRANSPOSE)
         else if \<not> mat_char mat_type then (3, DLP_CLSC_INVALID_MATRIX_TYPE)
         else if input_buf_addr = 0 then (4, DLP_CLSC_NULL_POINTER)
         else if reorder_buf_addr = 0 then (5, DLP_CLSC_NULL_POINTER)
         else if k \<le> 0 \<or> k > DLP_MAX_GEMM_DIM then (6, DLP_CLSC_INVALID_MATRIX_DIMENSION)
         else if n \<le> 0 \<or> n > DLP_MAX_GEMM_DIM then (7, DLP_CLSC_INVALID_MATRIX_DIMENSION)
         else if row_stored \<and> (notrans_b \<and> ldb < n \<or> trans_b \<and> ldb < k) then (8, DLP_CLSC_INVALID_LEADING_DIMENSION)
         else if col_stored \<and> (notrans_b \<and> ldb < k \<or> trans_b \<and> ldb < n) then (8, DLP_CLSC_INVALID_LEADING_DIMENSION)
         else if ldb > DLP_MAX_GEMM_DIM then (8, DLP_CLSC_INVALID_LEADING_DIMENSION)
         else (0, DLP_CLSC_SUCCESS))"

definition AOCL_DLP_UNREORDER_CHECK ::
  "char \<Rightarrow> char \<Rightarrow> char \<Rightarrow> ptr \<Rightarrow> ptr \<Rightarrow> md_t \<Rightarrow> md_t \<Rightarrow> md_t \<Rightarrow> check_result" where
  "AOCL_DLP_UNREORDER_CHECK order tr mat_type reorder_buf_addr output_buf_addr k n ldb =
     (let col_stored = col_char order; row_stored = row_char order;
          notrans_b = notrans_char tr; trans_b = trans_char tr
      in if \<not> row_char order \<and> \<not> col_char order then (1, DLP_CLSC_INVALID_ORDER)
         else if \<not> notrans_char tr \<and> \<not> trans_char tr then (2, DLP_CLSC_INVALID_TRANSPOSE)
         else if \<not> mat_char mat_type then (3, DLP_CLSC_INVALID_MATRIX_TYPE)
         else if reorder_buf_addr = 0 then (4, DLP_CLSC_NULL_POINTER)
         else if output_buf_addr = 0 then (5, DLP_CLSC_NULL_POINTER)
         else if k \<le> 0 \<or> k > DLP_MAX_GEMM_DIM then (6, DLP_CLSC_INVALID_MATRIX_DIMENSION)
         else if n \<le> 0 \<or> n > DLP_MAX_GEMM_DIM then (7, DLP_CLSC_INVALID_MATRIX_DIMENSION)
         else if row_stored \<and> (notrans_b \<and> ldb < n \<or> trans_b \<and> ldb < k) then (8, DLP_CLSC_INVALID_LEADING_DIMENSION)
         else if col_stored \<and> (notrans_b \<and> ldb < k \<or> trans_b \<and> ldb < n) then (8, DLP_CLSC_INVALID_LEADING_DIMENSION)
         else if ldb > DLP_MAX_GEMM_DIM then (8, DLP_CLSC_INVALID_LEADING_DIMENSION)
         else (0, DLP_CLSC_SUCCESS))"

section \<open>One GEMM\<close>

definition AOCL_DLP_GEMM_CHECK ::
  "char \<Rightarrow> char \<Rightarrow> char \<Rightarrow> md_t \<Rightarrow> md_t \<Rightarrow> md_t \<Rightarrow> ptr \<Rightarrow> md_t \<Rightarrow> char \<Rightarrow> ptr \<Rightarrow> md_t \<Rightarrow> char \<Rightarrow> ptr \<Rightarrow> md_t \<Rightarrow> check_result" where
  "AOCL_DLP_GEMM_CHECK order transa transb m n k a lda mtag_a b ldb mtag_b c ldc =
     (let col_stored = col_char order; row_stored = row_char order;
          nota = notrans_char transa; notb = notrans_char transb; ta = trans_char transa; tb = trans_char transb
      in if \<not> row_char order \<and> \<not> col_char order then (1, DLP_CLSC_INVALID_ORDER)
         else if \<not> notrans_char transa \<and> \<not> trans_char transa then (2, DLP_CLSC_INVALID_TRANSPOSE)
         else if \<not> notrans_char transb \<and> \<not> trans_char transb then (3, DLP_CLSC_INVALID_TRANSPOSE)
         else if m \<le> 0 \<or> m > DLP_MAX_GEMM_DIM then (4, DLP_CLSC_INVALID_MATRIX_DIMENSION)
         else if n \<le> 0 \<or> n > DLP_MAX_GEMM_DIM then (5, DLP_CLSC_INVALID_MATRIX_DIMENSION)
         else if k \<le> 0 \<or> k > DLP_MAX_GEMM_DIM then (6, DLP_CLSC_INVALID_MATRIX_DIMENSION)
         else if a = 0 then (7, DLP_CLSC_NULL_POINTER)
         else if row_stored \<and> (nota \<and> lda < k \<or> ta \<and> lda < m) then (9, DLP_CLSC_INVALID_LEADING_DIMENSION)
         else if col_stored \<and> (nota \<and> lda < m \<or> ta \<and> lda < k) then (9, DLP_CLSC_INVALID_LEADING_DIMENSION)
         else if lda > DLP_MAX_GEMM_DIM then (9, DLP_CLSC_INVALID_LEADING_DIMENSION)
         else if \<not> mtag_char mtag_a then (10, DLP_CLSC_INVALID_MEMORY_TAG)
         else if b = 0 then (11, DLP_CLSC_NULL_POINTER)
         else if row_stored \<and> (notb \<and> ldb < n \<or> tb \<and> ldb < k) then (12, DLP_CLSC_INVALID_LEADING_DIMENSION)
         else if col_stored \<and> (notb \<and> ldb < k \<or> tb \<and> ldb < n) then (12, DLP_CLSC_INVALID_LEADING_DIMENSION)
         else if ldb > DLP_MAX_GEMM_DIM then (12, DLP_CLSC_INVALID_LEADING_DIMENSION)
         else if \<not> mtag_char mtag_b then (13, DLP_CLSC_INVALID_MEMORY_TAG)
         else if c = 0 then (15, DLP_CLSC_NULL_POINTER)
         else if row_stored \<and> ldc < n then (16, DLP_CLSC_INVALID_LEADING_DIMENSION)
         else if col_stored \<and> ldc < m then (16, DLP_CLSC_INVALID_LEADING_DIMENSION)
         else if ldc > DLP_MAX_GEMM_DIM then (16, DLP_CLSC_INVALID_LEADING_DIMENSION)
         else (0, DLP_CLSC_SUCCESS))"

section \<open>A group of GEMMs\<close>

text \<open>The arrays of a batch call. \<open>bad_arg\<close> names the first one that is NULL.\<close>

definition batch_bad_arg ::
  "ptr \<Rightarrow> ptr \<Rightarrow> ptr \<Rightarrow> ptr \<Rightarrow> ptr \<Rightarrow> ptr \<Rightarrow> ptr \<Rightarrow> ptr \<Rightarrow> ptr \<Rightarrow> ptr \<Rightarrow> ptr \<Rightarrow> ptr \<Rightarrow> ptr \<Rightarrow> ptr \<Rightarrow> ptr \<Rightarrow> ptr \<Rightarrow> ptr \<Rightarrow> string option" where
  "batch_bad_arg order transa transb m n k alpha a lda b ldb beta c ldc group_size mem_format_a mem_format_b =
         (if order = 0 then Some ''order''
          else if transa = 0 then Some ''transa''
          else if transb = 0 then Some ''transb''
          else if m = 0 then Some ''m''
          else if n = 0 then Some ''n''
          else if k = 0 then Some ''k''
          else if alpha = 0 then Some ''alpha''
          else if a = 0 then Some ''a''
          else if lda = 0 then Some ''lda''
          else if b = 0 then Some ''b''
          else if ldb = 0 then Some ''ldb''
          else if beta = 0 then Some ''beta''
          else if c = 0 then Some ''c''
          else if ldc = 0 then Some ''ldc''
          else if group_size = 0 then Some ''group_size''
          else if mem_format_a = 0 then Some ''mem_format_a''
          else if mem_format_b = 0 then Some ''mem_format_b''
          else None)"

text \<open>\<open>Inr\<close> goes on; \<open>Inl\<close> returns, with the error code of every group in the metadata array. Without that array
  there is nothing to write.\<close>

definition AOCL_DLP_BATCH_GEMM_NULL_ARGS_CHECK ::
  "string option \<Rightarrow> md_t \<Rightarrow> (md_t \<Rightarrow> dlp_clsc_err_t) option \<Rightarrow> (md_t \<Rightarrow> dlp_clsc_err_t) option + unit" where
  "AOCL_DLP_BATCH_GEMM_NULL_ARGS_CHECK bad_arg group_count metadata =
     (case metadata of
        None \<Rightarrow> Inl None
      | Some errs \<Rightarrow>
          (case bad_arg of
             None \<Rightarrow> Inr ()
           | Some _ \<Rightarrow> Inl (Some (\<lambda>gc_i. if 0 \<le> gc_i \<and> gc_i < group_count then DLP_CLSC_NULL_POINTER else errs gc_i))))"

definition AOCL_DLP_BATCH_GEMM_CHECK ::
  "char \<Rightarrow> char \<Rightarrow> char \<Rightarrow> md_t \<Rightarrow> md_t \<Rightarrow> md_t \<Rightarrow> md_t \<Rightarrow> md_t \<Rightarrow> ptr \<Rightarrow> md_t \<Rightarrow> char \<Rightarrow> ptr \<Rightarrow> md_t \<Rightarrow> char \<Rightarrow> ptr \<Rightarrow> md_t \<Rightarrow> check_result" where
  "AOCL_DLP_BATCH_GEMM_CHECK order transa transb group_count_idx group_size m n k a lda mtag_a b ldb mtag_b c ldc =
     (let col_stored = col_char order; row_stored = row_char order;
          nota = notrans_char transa; notb = notrans_char transb; ta = trans_char transa; tb = trans_char transb
      in if \<not> row_char order \<and> \<not> col_char order then (1, DLP_CLSC_INVALID_ORDER)
         else if \<not> notrans_char transa \<and> \<not> trans_char transa then (2, DLP_CLSC_INVALID_TRANSPOSE)
         else if \<not> notrans_char transb \<and> \<not> trans_char transb then (3, DLP_CLSC_INVALID_TRANSPOSE)
         else if m \<le> 0 \<or> m > DLP_MAX_GEMM_DIM then (4, DLP_CLSC_INVALID_MATRIX_DIMENSION)
         else if n \<le> 0 \<or> n > DLP_MAX_GEMM_DIM then (5, DLP_CLSC_INVALID_MATRIX_DIMENSION)
         else if k \<le> 0 \<or> k > DLP_MAX_GEMM_DIM then (6, DLP_CLSC_INVALID_MATRIX_DIMENSION)
         else if a = 0 then (8, DLP_CLSC_NULL_POINTER)
         else if row_stored \<and> (nota \<and> lda < k \<or> ta \<and> lda < m) then (10, DLP_CLSC_INVALID_LEADING_DIMENSION)
         else if col_stored \<and> (nota \<and> lda < m \<or> ta \<and> lda < k) then (10, DLP_CLSC_INVALID_LEADING_DIMENSION)
         else if lda > DLP_MAX_GEMM_DIM then (10, DLP_CLSC_INVALID_LEADING_DIMENSION)
         else if \<not> mtag_char mtag_a then (11, DLP_CLSC_INVALID_MEMORY_TAG)
         else if b = 0 then (12, DLP_CLSC_NULL_POINTER)
         else if row_stored \<and> (notb \<and> ldb < n \<or> tb \<and> ldb < k) then (13, DLP_CLSC_INVALID_LEADING_DIMENSION)
         else if col_stored \<and> (notb \<and> ldb < k \<or> tb \<and> ldb < n) then (13, DLP_CLSC_INVALID_LEADING_DIMENSION)
         else if ldb > DLP_MAX_GEMM_DIM then (13, DLP_CLSC_INVALID_LEADING_DIMENSION)
         else if \<not> mtag_char mtag_b then (14, DLP_CLSC_INVALID_MEMORY_TAG)
         else if c = 0 then (16, DLP_CLSC_NULL_POINTER)
         else if row_stored \<and> ldc < n then (17, DLP_CLSC_INVALID_LEADING_DIMENSION)
         else if col_stored \<and> ldc < m then (17, DLP_CLSC_INVALID_LEADING_DIMENSION)
         else if ldc > DLP_MAX_GEMM_DIM then (17, DLP_CLSC_INVALID_LEADING_DIMENSION)
         else if group_size \<le> 0 \<or> group_size > DLP_MAX_GROUP_SIZE then (16, DLP_CLSC_INVALID_GROUP_DIMENSION)
         else if group_count_idx < 0 \<or> group_count_idx > DLP_MAX_GROUP_SIZE then (15, DLP_CLSC_INVALID_GROUP_DIMENSION)
         else (0, DLP_CLSC_SUCCESS))"

definition AOCL_DLP_BATCH_GEMM_MATRIX_PTR_CHECK ::
  "(md_t \<Rightarrow> ptr) \<Rightarrow> (md_t \<Rightarrow> ptr) \<Rightarrow> (md_t \<Rightarrow> ptr) \<Rightarrow> md_t \<Rightarrow> md_t \<Rightarrow> dlp_clsc_err_t \<Rightarrow> dlp_clsc_err_t" where
  "AOCL_DLP_BATCH_GEMM_MATRIX_PTR_CHECK a b c mat_idx group_size err_no =
     (if err_no = DLP_CLSC_SUCCESS \<and>
         list_ex (\<lambda>i. a (mat_idx + i) = 0 \<or> b (mat_idx + i) = 0 \<or> c (mat_idx + i) = 0) [0..group_size - 1]
      then DLP_CLSC_NULL_POINTER else err_no)"

section \<open>Element-wise operations\<close>

definition AOCL_DLP_UTIL_ELTWISE_OPS_CHECK ::
  "char \<Rightarrow> char \<Rightarrow> char \<Rightarrow> md_t \<Rightarrow> md_t \<Rightarrow> ptr \<Rightarrow> md_t \<Rightarrow> ptr \<Rightarrow> md_t \<Rightarrow> check_result" where
  "AOCL_DLP_UTIL_ELTWISE_OPS_CHECK order transa transb m n a lda b ldb =
     (let col_stored = col_char order; row_stored = row_char order;
          nota = notrans_char transa; notb = notrans_char transb; ta = trans_char transa; tb = trans_char transb
      in if \<not> row_char order \<and> \<not> col_char order then (1, DLP_CLSC_INVALID_ORDER)
         else if \<not> notrans_char transa \<and> \<not> trans_char transa then (2, DLP_CLSC_INVALID_TRANSPOSE)
         else if \<not> notrans_char transb \<and> \<not> trans_char transb then (3, DLP_CLSC_INVALID_TRANSPOSE)
         else if m \<le> 0 \<or> m > DLP_MAX_GEMM_DIM then (4, DLP_CLSC_INVALID_MATRIX_DIMENSION)
         else if n \<le> 0 \<or> n > DLP_MAX_GEMM_DIM then (5, DLP_CLSC_INVALID_MATRIX_DIMENSION)
         else if a = 0 then (6, DLP_CLSC_NULL_POINTER)
         else if row_stored \<and> (nota \<and> lda < n \<or> ta \<and> lda < m) then (7, DLP_CLSC_INVALID_LEADING_DIMENSION)
         else if col_stored \<and> (nota \<and> lda < m \<or> ta \<and> lda < n) then (7, DLP_CLSC_INVALID_LEADING_DIMENSION)
         else if lda > DLP_MAX_GEMM_DIM then (7, DLP_CLSC_INVALID_LEADING_DIMENSION)
         else if b = 0 then (8, DLP_CLSC_NULL_POINTER)
         else if row_stored \<and> (notb \<and> ldb < n \<or> tb \<and> ldb < m) then (9, DLP_CLSC_INVALID_LEADING_DIMENSION)
         else if col_stored \<and> (notb \<and> ldb < m \<or> tb \<and> ldb < n) then (9, DLP_CLSC_INVALID_LEADING_DIMENSION)
         else if ldb > DLP_MAX_GEMM_DIM then (9, DLP_CLSC_INVALID_LEADING_DIMENSION)
         else (0, DLP_CLSC_SUCCESS))"

section \<open>What an accepted call guarantees\<close>

text \<open>Every element of a matrix has its own address, which fits a signed 64-bit integer.\<close>

definition addressable :: "md_t \<times> md_t \<Rightarrow> md_t \<Rightarrow> md_t \<Rightarrow> bool" where
  "addressable strides rows cols \<longleftrightarrow>
     (\<forall>i j. 0 \<le> i \<and> i < rows \<and> 0 \<le> j \<and> j < cols \<longrightarrow>
        0 \<le> i * fst strides + j * snd strides \<and> i * fst strides + j * snd strides < 2 ^ 62 \<and>
        (\<forall>i' j'. 0 \<le> i' \<and> i' < rows \<and> 0 \<le> j' \<and> j' < cols \<and>
           i' * fst strides + j' * snd strides = i * fst strides + j * snd strides \<longrightarrow> i' = i \<and> j' = j))"

lemma dim_in_range: "\<not> (x \<le> 0 \<or> x > DLP_MAX_GEMM_DIM) \<longleftrightarrow> 0 < x \<and> x < 2 ^ 31"
  by (auto simp: DLP_MAX_GEMM_DIM_def)

lemma row_major_addressable:
  assumes "0 < rows" "rows < 2 ^ 31" "0 < cols" "cols \<le> ld" "ld < 2 ^ 31"
  shows "addressable (ld, 1) rows cols"
  unfolding addressable_def fst_conv snd_conv mult_1_right
proof (intro allI impI conjI)
  fix i j assume e: "0 \<le> i \<and> i < rows \<and> 0 \<le> j \<and> j < cols"
  have "i * ld \<le> (rows - 1) * ld" using e assms by (intro mult_right_mono) simp_all
  also have "\<dots> \<le> (2 ^ 31 - 2) * ld" using assms by (intro mult_right_mono) simp_all
  finally have b: "i * ld \<le> (2 ^ 31 - 2) * ld" .
  have "(2 ^ 31 - 1) * ld = (2 ^ 31 - 2) * ld + ld" by (simp add: algebra_simps)
  then have "i * ld + j < (2 ^ 31 - 1) * ld" using e assms(4) b by linarith
  also have "\<dots> \<le> (2 ^ 31 - 1) * 2 ^ 31" using assms by (intro mult_left_mono) simp_all
  finally show "i * ld + j < 2 ^ 62" by simp
  show "0 \<le> i * ld + j" using e assms by simp
  fix i' j' assume "0 \<le> i' \<and> i' < rows \<and> 0 \<le> j' \<and> j' < cols \<and> i' * ld + j' = i * ld + j"
  then have eq: "0 \<le> j'" "j' < ld" "i' * ld + j' = i * ld + j" using assms(4) by auto
  have "(i' * ld + j') div ld = i'" using eq(1,2) by simp
  moreover have "(i * ld + j) div ld = i" using e assms(4) by simp
  ultimately show "i' = i" using eq(3) by simp
  then show "j' = j" using eq by simp
qed

lemma addressable_swap: "addressable (cs, rs) cols rows \<Longrightarrow> addressable (rs, cs) rows cols"
  unfolding addressable_def fst_conv snd_conv by (metis add.commute)

lemmas col_major_addressable = addressable_swap [OF row_major_addressable]

text \<open>The strides an entry point derives from order, transposition and leading dimension.\<close>

lemma plain_strides_addressable:
  assumes "row_char order \<or> col_char order" "notrans_char tr \<or> trans_char tr"
    and "0 < rows" "rows < 2 ^ 31" "0 < cols" "cols < 2 ^ 31" "ld < 2 ^ 31"
    and "row_char order \<Longrightarrow> (notrans_char tr \<longrightarrow> cols \<le> ld) \<and> (trans_char tr \<longrightarrow> rows \<le> ld)"
    and "col_char order \<Longrightarrow> (notrans_char tr \<longrightarrow> rows \<le> ld) \<and> (trans_char tr \<longrightarrow> cols \<le> ld)"
  shows "addressable (dlp_reorder_plain_strides order (dlp_param_map_netlib_to_dlp_trans tr) ld) rows cols"
proof -
  have nt: "dlp_is_notrans (dlp_param_map_netlib_to_dlp_trans tr) \<longleftrightarrow> notrans_char tr"
    using assms(2) by (auto simp: dlp_param_map_netlib_to_dlp_trans_def dlp_is_notrans_def notrans_char_def trans_char_def)
  consider "row_char order \<and> notrans_char tr \<or> col_char order \<and> trans_char tr \<and> \<not> notrans_char tr"
    | "row_char order \<and> trans_char tr \<and> \<not> notrans_char tr \<or> col_char order \<and> notrans_char tr \<and> \<not> row_char order"
    using assms(1,2) by auto
  then show ?thesis
  proof cases
    case 1
    then have "addressable (ld, 1) rows cols" using assms by (intro row_major_addressable) auto
    moreover have "dlp_reorder_plain_strides order (dlp_param_map_netlib_to_dlp_trans tr) ld = (ld, 1)"
      using 1 by (auto simp: dlp_reorder_plain_strides_def nt row_char_def col_char_def)
    ultimately show ?thesis by simp
  next
    case 2
    then have "addressable (1, ld) rows cols" using assms by (intro col_major_addressable) auto
    moreover have "dlp_reorder_plain_strides order (dlp_param_map_netlib_to_dlp_trans tr) ld = (1, ld)"
      using 2 by (auto simp: dlp_reorder_plain_strides_def nt row_char_def col_char_def)
    ultimately show ?thesis by simp
  qed
qed

definition ld_ok :: "char \<Rightarrow> char \<Rightarrow> md_t \<Rightarrow> md_t \<Rightarrow> md_t \<Rightarrow> bool" where
  "ld_ok order tr rows cols ld \<longleftrightarrow> ld < 2 ^ 31 \<and>
     (if row_char order then (if notrans_char tr then cols \<le> ld else rows \<le> ld)
      else (if notrans_char tr then rows \<le> ld else cols \<le> ld))"

definition dim_ok :: "md_t \<Rightarrow> bool" where "dim_ok x \<longleftrightarrow> 0 < x \<and> x < 2 ^ 31"

lemmas accept_defs = ld_ok_def dim_ok_def DLP_MAX_GEMM_DIM_def

text \<open>A chain of guards succeeds exactly when none of them fires.\<close>

lemma guard_passes:
  "e \<noteq> DLP_CLSC_SUCCESS \<Longrightarrow> (if g then (p, e) else r) = (pos, DLP_CLSC_SUCCESS) \<longleftrightarrow> \<not> g \<and> r = (pos, DLP_CLSC_SUCCESS)"
  by simp

lemmas check_unfold = guard_passes Let_def dlp_clsc_err_t.distinct not_False_eq_True prod.inject

lemma ld_ok_addressable:
  assumes "row_char order \<or> col_char order" "notrans_char tr \<or> trans_char tr" "dim_ok rows" "dim_ok cols" "ld_ok order tr rows cols ld"
  shows "addressable (dlp_reorder_plain_strides order (dlp_param_map_netlib_to_dlp_trans tr) ld) rows cols"
  using assms char_excl [of order] char_excl [of tr] by (intro plain_strides_addressable) (auto simp: dim_ok_def ld_ok_def split: if_splits)

text \<open>From the guards of the code to these conditions.\<close>

lemma acceptI:
  "\<not> (x \<le> 0 \<or> x > DLP_MAX_GEMM_DIM) \<Longrightarrow> dim_ok x"
  "\<not> (\<not> row_char order \<and> \<not> col_char order) \<Longrightarrow> row_char order \<or> col_char order"
  "\<not> (\<not> notrans_char tr \<and> \<not> trans_char tr) \<Longrightarrow> notrans_char tr \<or> trans_char tr"
  by (auto simp: accept_defs)

lemma ld_okI:
  assumes "\<not> (\<not> row_char order \<and> \<not> col_char order)" "\<not> (\<not> notrans_char tr \<and> \<not> trans_char tr)"
    and "\<not> (row_char order \<and> (notrans_char tr \<and> ld < cols \<or> trans_char tr \<and> ld < rows))"
    and "\<not> (col_char order \<and> (notrans_char tr \<and> ld < rows \<or> trans_char tr \<and> ld < cols))" "\<not> ld > DLP_MAX_GEMM_DIM"
  shows "ld_ok order tr rows cols ld"
  using assms by (auto simp: accept_defs)

lemma ldc_okI:
  assumes "\<not> (\<not> row_char order \<and> \<not> col_char order)" "\<not> (row_char order \<and> ld < cols)" "\<not> (col_char order \<and> ld < rows)"
    and "\<not> ld > DLP_MAX_GEMM_DIM"
  shows "ld_ok order (CHR ''n'') rows cols ld"
  using assms by (auto simp: accept_defs notrans_char_def)

lemma size_check_iff:
  "AOCL_DLP_REORDER_BUF_SIZE_CHECK order tr mat_type k n = (pos, DLP_CLSC_SUCCESS) \<longleftrightarrow>
     pos = 0 \<and> (row_char order \<or> col_char order) \<and> (notrans_char tr \<or> trans_char tr) \<and> mat_char mat_type \<and> dim_ok k \<and> dim_ok n"
  unfolding AOCL_DLP_REORDER_BUF_SIZE_CHECK_def by (simp only: check_unfold) (auto simp: accept_defs)

lemma reorder_check_iff:
  "AOCL_DLP_REORDER_CHECK order tr mat_type inp outp k n ldb = (pos, DLP_CLSC_SUCCESS) \<longleftrightarrow>
     pos = 0 \<and> (row_char order \<or> col_char order) \<and> (notrans_char tr \<or> trans_char tr) \<and> mat_char mat_type \<and>
     inp \<noteq> 0 \<and> outp \<noteq> 0 \<and> dim_ok k \<and> dim_ok n \<and> ld_ok order tr k n ldb"
  unfolding AOCL_DLP_REORDER_CHECK_def by (simp only: check_unfold) (auto simp: accept_defs dest: char_excl)

lemma unreorder_check_eq: "AOCL_DLP_UNREORDER_CHECK = AOCL_DLP_REORDER_CHECK"
  by (intro ext) (simp add: AOCL_DLP_UNREORDER_CHECK_def AOCL_DLP_REORDER_CHECK_def)

lemma gemm_check_ok:
  assumes "AOCL_DLP_GEMM_CHECK order transa transb m n k a lda mtag_a b ldb mtag_b c ldc = (pos, DLP_CLSC_SUCCESS)"
  shows "pos = 0" "row_char order \<or> col_char order" "notrans_char transa \<or> trans_char transa" "notrans_char transb \<or> trans_char transb"
    "dim_ok m" "dim_ok n" "dim_ok k" "a \<noteq> 0" "b \<noteq> 0" "c \<noteq> 0" "mtag_char mtag_a" "mtag_char mtag_b"
    "ld_ok order transa m k lda" "ld_ok order transb k n ldb" "ld_ok order (CHR ''n'') m n ldc"
  using assms unfolding AOCL_DLP_GEMM_CHECK_def
  by (simp_all only: check_unfold)
    (elim conjE, assumption | (elim conjE, rule ld_okI; assumption) | (elim conjE, rule ldc_okI; assumption) | (elim conjE, rule acceptI, assumption)
      | (elim conjE, drule sym, assumption) | (elim conjE, rule notnotD, assumption))+

text \<open>C38: The argument check of a GEMM lets a call through only if its three matrices are present and addressable: with
  the strides that order, transposition and leading dimensions mean, every element of A, of B and of C has an offset
  that is not negative, fits a signed 64-bit integer with room to spare, and is shared with no other element of
  that matrix. A rejected call always names an argument, an accepted one never does.\<close>

theorem gemm_check_addressable:
  assumes "AOCL_DLP_GEMM_CHECK order transa transb m n k a lda mtag_a b ldb mtag_b c ldc = (pos, err)"
  shows "(err = DLP_CLSC_SUCCESS \<longleftrightarrow> pos = 0) \<and>
    (err = DLP_CLSC_SUCCESS \<longrightarrow> a \<noteq> 0 \<and> b \<noteq> 0 \<and> c \<noteq> 0 \<and>
       addressable (dlp_reorder_plain_strides order (dlp_param_map_netlib_to_dlp_trans transa) lda) m k \<and>
       addressable (dlp_reorder_plain_strides order (dlp_param_map_netlib_to_dlp_trans transb) ldb) k n \<and>
       addressable (dlp_reorder_plain_strides order DLP_NO_TRANSPOSE ldc) m n)"
proof (intro conjI impI)
  show "err = DLP_CLSC_SUCCESS \<longleftrightarrow> pos = 0"
    using assms by (auto simp: AOCL_DLP_GEMM_CHECK_def Let_def split: if_splits)
  assume "err = DLP_CLSC_SUCCESS"
  then have ok: "AOCL_DLP_GEMM_CHECK order transa transb m n k a lda mtag_a b ldb mtag_b c ldc = (pos, DLP_CLSC_SUCCESS)"
    using assms by simp
  note ok = gemm_check_ok [OF ok]
  have n: "dlp_param_map_netlib_to_dlp_trans (CHR ''n'') = DLP_NO_TRANSPOSE" by (simp add: dlp_param_map_netlib_to_dlp_trans_def)
  show "addressable (dlp_reorder_plain_strides order DLP_NO_TRANSPOSE ldc) m n"
    using ld_ok_addressable [of order "CHR ''n''" m n ldc] ok(2,5,6,15) unfolding n by (simp add: notrans_char_def)
  show "a \<noteq> 0" "b \<noteq> 0" "c \<noteq> 0" using ok by simp_all
  show "addressable (dlp_reorder_plain_strides order (dlp_param_map_netlib_to_dlp_trans transa) lda) m k"
    "addressable (dlp_reorder_plain_strides order (dlp_param_map_netlib_to_dlp_trans transb) ldb) k n"
    using ld_ok_addressable ok(2-7,13,14) by simp_all
qed

theorem gemm_check_addressable_witness:
  "addressable (dlp_reorder_plain_strides (CHR ''r'') (dlp_param_map_netlib_to_dlp_trans (CHR ''t'')) 7) 5 3 \<and>
   AOCL_DLP_GEMM_CHECK (CHR ''r'') (CHR ''t'') (CHR ''n'') 5 9 3 1 7 (CHR ''n'') 2 9 (CHR ''R'') 3 10 = (0, DLP_CLSC_SUCCESS)"
proof -
  have "AOCL_DLP_GEMM_CHECK (CHR ''r'') (CHR ''t'') (CHR ''n'') 5 9 3 1 7 (CHR ''n'') 2 9 (CHR ''R'') 3 10 = (0, DLP_CLSC_SUCCESS)"
    by (simp add: AOCL_DLP_GEMM_CHECK_def DLP_MAX_GEMM_DIM_def row_char_def notrans_char_def trans_char_def mtag_char_def)
  from this gemm_check_addressable [OF this] show ?thesis by simp
qed

end
