(* ===== verification/Runtime.thy ===== *)
theory Runtime
  imports Thread_Ways
begin

unbundle bit_operations_syntax

text \<open>
  The threading configuration, \<^verbatim>\<open>classic/frame/runtime/dlp_runtime.c\<close>: library-wide atomics, one
  thread-local record per calling thread, the one-time initialisation from the environment, the
  setters, and the priority order by which a GEMM call reads them.

  What the code asks of its surroundings is the record \<open>rt_env\<close>: the build switches
  \<open>DLP_ENABLE_OPENMP\<close> and \<open>DLP_ENABLE_ST\<close>, the three environment variables
  (\<open>dlp_env_get_int\<close>), the OpenMP queries and the core count. Each atomic load or store is one
  access to the global part of the state; the operations of one call are not interleaved with
  another thread's here.
\<close>

section \<open>Packing two ways into one word\<close>

definition dlp_pack_ways :: "int32_t \<Rightarrow> int32_t \<Rightarrow> int64_t" where
  "dlp_pack_ways ic jc = (let uic = ucast ic :: 64 word; ujc = ucast jc :: 64 word in push_bit 32 ujc OR uic)"

definition dlp_unpack_ways :: "int64_t \<Rightarrow> int32_t \<times> int32_t" where
  "dlp_unpack_ways packed =
     (ucast (packed AND 0xFFFFFFFF), ucast (drop_bit 32 packed AND 0xFFFFFFFF))"

lemma mask32: "(0xFFFFFFFF :: 64 word) = mask 32"
  by (simp add: mask_eq_exp_minus_1)

lemma bit_above_32: "\<not> bit (w :: 32 word) (32 + n)"
  using bit_imp_le_length [of w "32 + n"] by auto

lemma unpack_pack [simp]: "dlp_unpack_ways (dlp_pack_ways ic jc) = (ic, jc)"
  unfolding dlp_unpack_ways_def dlp_pack_ways_def Let_def mask32
  by (auto intro!: bit_word_eqI simp: bit_simps bit_above_32)

lemma pack_unpack: "dlp_unpack_ways p = (ic, jc) \<Longrightarrow> dlp_pack_ways ic jc = p"
  unfolding dlp_unpack_ways_def dlp_pack_ways_def Let_def mask32
  by (auto intro!: bit_word_eqI simp: bit_simps)

text \<open>Packing the row and column ways into the one 64-bit atomic loses nothing: unpacking what
  was packed gives both 32-bit values back, negative ones included, every stored word is the
  packing of what it unpacks to, and the initial value \<open>-1\<close> reads as both unset.\<close>

lemma pack_ways_roundtrip:
  "dlp_unpack_ways (dlp_pack_ways ic jc) = (ic, jc)
   \<and> dlp_pack_ways (fst (dlp_unpack_ways p)) (snd (dlp_unpack_ways p)) = p
   \<and> dlp_unpack_ways (-1) = (-1, -1)"
proof -
  have "dlp_unpack_ways (-1) = (-1, -1)"
    unfolding dlp_unpack_ways_def mask32 by (auto intro!: bit_word_eqI simp: bit_simps)
  then show ?thesis using pack_unpack [of p] by (simp add: prod_eq_iff)
qed

section \<open>State and surroundings\<close>

record rt_env =
  enable_openmp :: bool
  enable_st :: bool
  env_DLP_IC_NT :: md_t
  env_DLP_JC_NT :: md_t
  env_DLP_NUM_THREADS :: md_t
  omp_max_threads :: md_t
  omp_can_create_parallel_team :: bool
  num_cores :: md_t

record rt_global =
  once_init :: bool
  lib_packed_ways :: int64_t
  lib_num_threads :: int64_t
  lib_ext_mt_ctr_var :: bool

record rt_local =
  dlp_tl_rntm :: dlp_rntm_t
  dlp_init_tl_rntm :: bool

type_synonym rt_state = "rt_global \<times> rt_local"

definition DLP_CLASSIC_RNTM_INITIALIZER :: dlp_rntm_t where
  "DLP_CLASSIC_RNTM_INITIALIZER =
     \<lparr>rn_num_threads = -1, rn_ic_ways = -1, rn_jc_ways = -1, rn_pack_a = False, rn_pack_b = False,
      rn_ext_mt_ctr_var = True\<rparr>"

definition rt_global_init :: rt_global where
  "rt_global_init = \<lparr>once_init = False, lib_packed_ways = -1, lib_num_threads = -1, lib_ext_mt_ctr_var = False\<rparr>"

definition rt_local_init :: rt_local where
  "rt_local_init = \<lparr>dlp_tl_rntm = DLP_CLASSIC_RNTM_INITIALIZER, dlp_init_tl_rntm = True\<rparr>"

section \<open>One-time initialisation\<close>

definition default_threads :: "rt_env \<Rightarrow> md_t" where
  "default_threads e = (if enable_st e then 1 else if num_cores e > 0 then num_cores e else 1)"

definition dlp_init_threading :: "rt_env \<Rightarrow> rt_global \<Rightarrow> rt_global" where
  "dlp_init_threading e g =
     (let ic = env_DLP_IC_NT e;
          jc = env_DLP_JC_NT e;
          nt = env_DLP_NUM_THREADS e;
          (ic, jc, nt, lcl_ext) =
            (if jc > 0 \<or> ic > 0 then (if ic \<le> 0 then 1 else ic, if jc \<le> 0 then 1 else jc, -1, False)
             else if nt > 0 then (-1, -1, nt, False)
             else if enable_openmp e then
               (-1, -1, if omp_can_create_parallel_team e then omp_max_threads e else 1, True)
             else (-1, -1, default_threads e, False))
      in g\<lparr>lib_num_threads := word_of_int nt,
           lib_packed_ways := dlp_pack_ways (word_of_int ic) (word_of_int jc),
           lib_ext_mt_ctr_var := lcl_ext\<rparr>)"

definition dlp_init_threading_once :: "rt_env \<Rightarrow> rt_state \<Rightarrow> rt_state" where
  "dlp_init_threading_once e s =
     (let (g, l) = s;
          g = (if once_init g then g else (dlp_init_threading e g)\<lparr>once_init := True\<rparr>);
          l = (if dlp_init_tl_rntm l
               then l\<lparr>dlp_tl_rntm := (dlp_tl_rntm l)\<lparr>rn_ext_mt_ctr_var := lib_ext_mt_ctr_var g\<rparr>,
                     dlp_init_tl_rntm := False\<rparr>
               else l)
      in (g, l))"

section \<open>The priority order\<close>

text \<open>An active configuration (\<open>nt\<close>, \<open>ic\<close>, \<open>jc\<close>), all \<open>-1\<close> while nothing has been found.\<close>

type_synonym active = "md_t \<times> md_t \<times> md_t"

definition unset :: "active \<Rightarrow> bool" where
  "unset a \<longleftrightarrow> a = (-1, -1, -1)"

text \<open>The rule each source applies to its own values: ways win over a thread count.\<close>

definition pick_active :: "md_t \<Rightarrow> md_t \<Rightarrow> md_t \<Rightarrow> active" where
  "pick_active nt ic jc =
     (if jc > 0 \<or> ic > 0 then (-1, if ic \<le> 0 then 1 else ic, if jc \<le> 0 then 1 else jc)
      else if nt > 0 then (nt, -1, -1)
      else (-1, -1, -1))"

definition local_source :: "rt_local \<Rightarrow> active" where
  "local_source l =
     (let r = dlp_tl_rntm l in
      if rn_ext_mt_ctr_var r = False then pick_active (rn_num_threads r) (rn_ic_ways r) (rn_jc_ways r)
      else (-1, -1, -1))"

definition library_source :: "rt_global \<Rightarrow> active" where
  "library_source g =
     (if lib_ext_mt_ctr_var g = False then
        let (ic, jc) = dlp_unpack_ways (lib_packed_ways g)
        in pick_active (sint (lib_num_threads g)) (sint ic) (sint jc)
      else (-1, -1, -1))"

definition env_source :: "rt_env \<Rightarrow> rt_global \<Rightarrow> active" where
  "env_source e g =
     (if lib_ext_mt_ctr_var g = False
      then pick_active (env_DLP_NUM_THREADS e) (env_DLP_IC_NT e) (env_DLP_JC_NT e)
      else (-1, -1, -1))"

definition configured :: "rt_env \<Rightarrow> rt_state \<Rightarrow> active" where
  "configured e s =
     (let act = local_source (snd s);
          act = (if unset act then library_source (fst s) else act)
      in if unset act then env_source e (fst s) else act)"

definition dlp_update_threading_priority_order ::
  "rt_env \<Rightarrow> rt_state \<Rightarrow> dlp_rntm_t \<Rightarrow> rt_state \<times> dlp_rntm_t" where
  "dlp_update_threading_priority_order e s rntm =
     (let act = configured e s;
          take_omp = (enable_openmp e \<and> unset act \<and> omp_max_threads e > 0);
          act = (if take_omp then (omp_max_threads e, -1, -1) else act);
          l = (if take_omp then (snd s)\<lparr>dlp_tl_rntm := (dlp_tl_rntm (snd s))\<lparr>rn_ext_mt_ctr_var := True\<rparr>\<rparr>
               else snd s);
          g = (if take_omp then (fst s)\<lparr>lib_ext_mt_ctr_var := True\<rparr> else fst s);
          act = (if unset act then (default_threads e, -1, -1) else act);
          act = (if enable_openmp e \<and> (fst act > 0 \<or> fst (snd act) > 0 \<or> snd (snd act) > 0)
                    \<and> \<not> omp_can_create_parallel_team e
                 then (-1, 1, 1) else act)
      in ((g, l), rntm\<lparr>rn_num_threads := fst act, rn_ic_ways := fst (snd act), rn_jc_ways := snd (snd act),
                        rn_ext_mt_ctr_var := take_omp\<rparr>))"

definition dlp_rntm_init_from_global :: "rt_env \<Rightarrow> rt_state \<Rightarrow> dlp_rntm_t \<Rightarrow> rt_state \<times> dlp_rntm_t" where
  "dlp_rntm_init_from_global e s rntm =
     dlp_update_threading_priority_order e (dlp_init_threading_once e s) DLP_CLASSIC_RNTM_INITIALIZER"

section \<open>Setters and getters\<close>

definition norm_ways :: "md_t \<Rightarrow> md_t" where
  "norm_ways x = (if x \<le> 0 then -1 else x)"

definition dlp_thread_set_ways_library :: "rt_env \<Rightarrow> md_t \<Rightarrow> md_t \<Rightarrow> rt_state \<Rightarrow> rt_state" where
  "dlp_thread_set_ways_library e jc ic s =
     (let (g, l) = dlp_init_threading_once e s
      in (g\<lparr>lib_packed_ways := dlp_pack_ways (word_of_int (norm_ways ic)) (word_of_int (norm_ways jc)),
           lib_num_threads := -1, lib_ext_mt_ctr_var := False\<rparr>, l))"

definition dlp_thread_set_ways_local :: "rt_env \<Rightarrow> md_t \<Rightarrow> md_t \<Rightarrow> rt_state \<Rightarrow> rt_state" where
  "dlp_thread_set_ways_local e jc ic s =
     (let (g, l) = dlp_init_threading_once e s
      in (g, l\<lparr>dlp_tl_rntm := (dlp_tl_rntm l)\<lparr>rn_ic_ways := norm_ways ic, rn_jc_ways := norm_ways jc,
                rn_num_threads := -1, rn_ext_mt_ctr_var := False\<rparr>\<rparr>))"

definition dlp_thread_set_ways :: "rt_env \<Rightarrow> md_t \<Rightarrow> md_t \<Rightarrow> rt_state \<Rightarrow> rt_state" where
  "dlp_thread_set_ways e jc ic s = dlp_thread_set_ways_local e jc ic s"

definition dlp_thread_set_num_threads_library :: "rt_env \<Rightarrow> md_t \<Rightarrow> rt_state \<Rightarrow> rt_state" where
  "dlp_thread_set_num_threads_library e n s =
     (let (g, l) = dlp_init_threading_once e s
      in (g\<lparr>lib_num_threads := word_of_int (norm_ways n), lib_ext_mt_ctr_var := False\<rparr>, l))"

definition dlp_thread_set_num_threads_local :: "rt_env \<Rightarrow> md_t \<Rightarrow> rt_state \<Rightarrow> rt_state" where
  "dlp_thread_set_num_threads_local e n s =
     (let (g, l) = dlp_init_threading_once e s
      in (g, l\<lparr>dlp_tl_rntm := (dlp_tl_rntm l)\<lparr>rn_num_threads := norm_ways n, rn_ext_mt_ctr_var := False\<rparr>\<rparr>))"

definition dlp_thread_set_num_threads :: "rt_env \<Rightarrow> md_t \<Rightarrow> rt_state \<Rightarrow> rt_state" where
  "dlp_thread_set_num_threads e n s = dlp_thread_set_num_threads_local e n s"

definition dlp_thread_get_ic_ways_active :: "rt_env \<Rightarrow> rt_state \<Rightarrow> rt_state \<times> md_t" where
  "dlp_thread_get_ic_ways_active e s =
     (let (s', r) = dlp_rntm_init_from_global e s DLP_CLASSIC_RNTM_INITIALIZER in (s', rn_ic_ways r))"

definition dlp_thread_get_jc_ways_active :: "rt_env \<Rightarrow> rt_state \<Rightarrow> rt_state \<times> md_t" where
  "dlp_thread_get_jc_ways_active e s =
     (let (s', r) = dlp_rntm_init_from_global e s DLP_CLASSIC_RNTM_INITIALIZER in (s', rn_jc_ways r))"

definition dlp_thread_get_num_threads_active :: "rt_env \<Rightarrow> rt_state \<Rightarrow> rt_state \<times> md_t" where
  "dlp_thread_get_num_threads_active e s =
     (let (s', r) = dlp_rntm_init_from_global e s DLP_CLASSIC_RNTM_INITIALIZER in (s', rn_num_threads r))"

section \<open>What a call reads\<close>

text \<open>A configuration a call can start threads from: a positive thread count and no ways, or both
  ways positive and no thread count.\<close>

definition active_ok :: "active \<Rightarrow> bool" where
  "active_ok a = (case a of (nt, ic, jc) \<Rightarrow> (0 < nt \<and> ic = -1 \<and> jc = -1) \<or> (nt = -1 \<and> 0 < ic \<and> 0 < jc))"

lemma pick_active_cases: "unset (pick_active nt ic jc) \<or> active_ok (pick_active nt ic jc)"
  by (simp add: pick_active_def unset_def active_ok_def)

lemma sources_cases:
  "unset (local_source l) \<or> active_ok (local_source l)"
  "unset (library_source g) \<or> active_ok (library_source g)"
  "unset (env_source e g) \<or> active_ok (env_source e g)"
  using pick_active_cases
  by (auto simp: local_source_def library_source_def env_source_def unset_def Let_def split: prod.splits)

lemma default_threads_pos: "0 < default_threads e"
  by (simp add: default_threads_def)

text \<open>The configuration before the nested-region rule, and the whole read in terms of it.\<close>

definition resolved :: "rt_env \<Rightarrow> rt_state \<Rightarrow> active" where
  "resolved e s =
     (if \<not> unset (configured e s) then configured e s
      else if enable_openmp e \<and> omp_max_threads e > 0 then (omp_max_threads e, -1, -1)
      else (default_threads e, -1, -1))"

lemma configured_cases: "unset (configured e s) \<or> active_ok (configured e s)"
  using sources_cases(1) [of "snd s"] sources_cases(2) [of "fst s"] sources_cases(3) [of e "fst s"]
  by (auto simp: configured_def Let_def)

lemma resolved_ok: "active_ok (resolved e s)"
  using configured_cases [of e s] default_threads_pos [of e] by (auto simp: resolved_def active_ok_def)

lemma active_ok_not_unset: "active_ok a \<Longrightarrow> \<not> unset a"
  by (auto simp: active_ok_def unset_def)

lemma active_ok_pos: "active_ok a \<Longrightarrow> fst a > 0 \<or> fst (snd a) > 0 \<or> snd (snd a) > 0"
  by (auto simp: active_ok_def)

definition rntm_active :: "dlp_rntm_t \<Rightarrow> active" where
  "rntm_active r = (rn_num_threads r, rn_ic_ways r, rn_jc_ways r)"

lemma resolved_unfold:
  "(let act = configured e s;
        act = (if enable_openmp e \<and> unset act \<and> omp_max_threads e > 0 then (omp_max_threads e, -1, -1) else act)
    in if unset act then (default_threads e, -1, -1) else act) = resolved e s"
  by (simp add: resolved_def Let_def unset_def)

lemma update_resolved:
  "rntm_active (snd (dlp_update_threading_priority_order e s r)) =
     (if enable_openmp e \<and> \<not> omp_can_create_parallel_team e then (-1, 1, 1) else resolved e s)"
proof -
  let ?a = "resolved e s"
  have "rntm_active (snd (dlp_update_threading_priority_order e s r)) =
    (if enable_openmp e \<and> (fst ?a > 0 \<or> fst (snd ?a) > 0 \<or> snd (snd ?a) > 0) \<and> \<not> omp_can_create_parallel_team e
     then (-1, 1, 1) else ?a)"
    unfolding resolved_unfold [of e s, symmetric] dlp_update_threading_priority_order_def rntm_active_def Let_def
    by simp
  then show ?thesis using active_ok_pos [OF resolved_ok [of e s]] by simp
qed

lemma rntm_init_resolved:
  "rntm_active (snd (dlp_rntm_init_from_global e s r)) =
     (if enable_openmp e \<and> \<not> omp_can_create_parallel_team e then (-1, 1, 1)
      else resolved e (dlp_init_threading_once e s))"
  by (simp add: dlp_rntm_init_from_global_def update_resolved)

lemma rntm_init_ok: "active_ok (rntm_active (snd (dlp_rntm_init_from_global e s r)))"
  by (simp add: rntm_init_resolved resolved_ok active_ok_def [of "(-1, 1, 1)"])


text \<open>C20: Whatever was set before, by whom and in which order, the configuration a call reads can
  be run: either a positive thread count with both ways unset, or both ways positive with the
  count unset. In particular the count is never 0, the value the batched division cannot take.\<close>

theorem rntm_from_global_valid:
  "let r = snd (dlp_rntm_init_from_global e s r0) in
   (0 < rn_num_threads r \<and> rn_ic_ways r = -1 \<and> rn_jc_ways r = -1) \<or>
   (rn_num_threads r = -1 \<and> 0 < rn_ic_ways r \<and> 0 < rn_jc_ways r)"
  using rntm_init_ok [of e s r0] by (simp add: active_ok_def rntm_active_def Let_def)

section \<open>Setters are honoured, in the documented order\<close>

lemma init_once_local:
  assumes "dlp_init_threading_once e s = (g, l)"
  shows "rn_num_threads (dlp_tl_rntm l) = rn_num_threads (dlp_tl_rntm (snd s))"
    "rn_ic_ways (dlp_tl_rntm l) = rn_ic_ways (dlp_tl_rntm (snd s))"
    "rn_jc_ways (dlp_tl_rntm l) = rn_jc_ways (dlp_tl_rntm (snd s))"
    "\<not> dlp_init_tl_rntm l" "once_init g"
  using assms by (auto simp: dlp_init_threading_once_def Let_def split: prod.splits if_splits)

lemma init_once_idem [simp]:
  assumes "once_init g" "\<not> dlp_init_tl_rntm l"
  shows "dlp_init_threading_once e (g, l) = (g, l)"
  using assms by (simp add: dlp_init_threading_once_def)

lemma sint_ways: "0 < x \<Longrightarrow> x < 2 ^ 31 \<Longrightarrow> sint (word_of_int x :: 32 word) = x"
  by (simp add: sint_sbintrunc' signed_take_bit_int_eq_self)

lemma pick_active_ways:
  "0 < ic \<or> 0 < jc \<Longrightarrow> pick_active nt (norm_ways ic) (norm_ways jc) = (-1, if ic \<le> 0 then 1 else ic, if jc \<le> 0 then 1 else jc)"
  by (auto simp: pick_active_def norm_ways_def)

lemma resolved_local: "\<not> unset (local_source (snd s)) \<Longrightarrow> resolved e s = local_source (snd s)"
  by (simp add: resolved_def configured_def Let_def)

lemma resolved_library:
  "unset (local_source (snd s)) \<Longrightarrow> \<not> unset (library_source (fst s)) \<Longrightarrow> resolved e s = library_source (fst s)"
  by (simp add: resolved_def configured_def Let_def)

lemma ways_not_unset: "\<not> unset (-1, if ic \<le> 0 then 1 else ic, if jc \<le> 0 then 1 else jc)"
  by (simp add: unset_def)

text \<open>Ways a thread sets for itself are what its next call runs with, a missing one counting as
  1, and setting a thread count afterwards does not displace them. They displace whatever the
  library-wide settings, the environment and OpenMP say; only a nested parallel region, where
  OpenMP cannot start a team, overrides them.\<close>

lemma local_ways_win:
  assumes "0 < ic \<or> 0 < jc" and "\<not> enable_openmp e \<or> omp_can_create_parallel_team e"
  shows "rntm_active (snd (dlp_rntm_init_from_global e
           (dlp_thread_set_num_threads_local e n (dlp_thread_set_ways_local e jc ic s)) r))
         = (-1, if ic \<le> 0 then 1 else ic, if jc \<le> 0 then 1 else jc)"
proof -
  obtain g l where gl: "dlp_init_threading_once e s = (g, l)" by force
  note once = init_once_local [OF gl]
  let ?l = "l\<lparr>dlp_tl_rntm := (dlp_tl_rntm l)\<lparr>rn_ic_ways := norm_ways ic, rn_jc_ways := norm_ways jc,
                rn_num_threads := -1, rn_ext_mt_ctr_var := False\<rparr>\<rparr>"
  let ?l' = "?l\<lparr>dlp_tl_rntm := (dlp_tl_rntm ?l)\<lparr>rn_num_threads := norm_ways n, rn_ext_mt_ctr_var := False\<rparr>\<rparr>"
  have "dlp_thread_set_num_threads_local e n (dlp_thread_set_ways_local e jc ic s) = (g, ?l')"
    using once by (simp add: dlp_thread_set_ways_local_def dlp_thread_set_num_threads_local_def gl)
  moreover have "dlp_init_threading_once e (g, ?l') = (g, ?l')" using once by simp
  moreover have "local_source ?l' = (-1, if ic \<le> 0 then 1 else ic, if jc \<le> 0 then 1 else jc)"
    by (simp only: local_source_def Let_def) (simp add: pick_active_ways [OF assms(1)])
  ultimately show ?thesis
    using assms(2) resolved_local [of "(g, ?l')" e] ways_not_unset [of ic jc]
    by (simp only: rntm_init_resolved snd_conv) auto
qed

definition example_env :: rt_env where
  "example_env = \<lparr>enable_openmp = True, enable_st = False, env_DLP_IC_NT = -1, env_DLP_JC_NT = -1,
     env_DLP_NUM_THREADS = -1, omp_max_threads = 16, omp_can_create_parallel_team = True, num_cores = 8\<rparr>"

lemma local_ways_win_witness:
  "rntm_active (snd (dlp_rntm_init_from_global example_env
     (dlp_thread_set_num_threads_local example_env 5 (dlp_thread_set_ways_local example_env 0 3
       (rt_global_init, rt_local_init))) DLP_CLASSIC_RNTM_INITIALIZER)) = (-1, 3, 1)"
  using local_ways_win [of 3 0 example_env 5 "(rt_global_init, rt_local_init)"]
  by (simp add: example_env_def)

text \<open>Library-wide ways set by one thread are what a call of another thread runs with, if that
  thread has no settings of its own and the ways fit the 32 bits they are packed into.\<close>

lemma library_ways_reach_other_threads:
  assumes "0 < ic \<or> 0 < jc" "ic < 2 ^ 31" "jc < 2 ^ 31"
    and "\<not> enable_openmp e \<or> omp_can_create_parallel_team e"
    and "unset (local_source other)" "\<not> dlp_init_tl_rntm other"
    and "dlp_thread_set_ways_library e jc ic s = (g, setter)"
  shows "rntm_active (snd (dlp_rntm_init_from_global e (g, other) r))
         = (-1, if ic \<le> 0 then 1 else ic, if jc \<le> 0 then 1 else jc)"
proof -
  obtain g0 l0 where gl: "dlp_init_threading_once e s = (g0, l0)" by force
  have g: "lib_ext_mt_ctr_var g = False" "once_init g" "lib_num_threads g = -1"
    "dlp_unpack_ways (lib_packed_ways g) = (word_of_int (norm_ways ic), word_of_int (norm_ways jc))"
    using assms(7) init_once_local(5) [OF gl] by (auto simp: dlp_thread_set_ways_library_def gl)
  have ways: "sint (word_of_int (norm_ways x) :: int32_t) = norm_ways x" if "x < 2 ^ 31" for x
    using sint_ways [of x] that by (simp add: norm_ways_def)
  have "library_source g = (-1, if ic \<le> 0 then 1 else ic, if jc \<le> 0 then 1 else jc)"
    using g ways [OF assms(2)] ways [OF assms(3)] pick_active_ways [OF assms(1)]
    by (simp add: library_source_def)
  then show ?thesis
    using assms(4) resolved_library [of "(g, other)" e] ways_not_unset [of ic jc] g(2) assms(5,6)
    by (simp only: rntm_init_resolved snd_conv fst_conv init_once_idem) auto
qed

lemma library_ways_reach_other_threads_witness:
  "\<exists>other. rntm_active (snd (dlp_rntm_init_from_global example_env
     (fst (dlp_thread_set_ways_library example_env 4 2 (rt_global_init, rt_local_init)), other)
     DLP_CLASSIC_RNTM_INITIALIZER)) = (-1, 2, 4)"
proof -
  let ?o = "rt_local_init\<lparr>dlp_init_tl_rntm := False\<rparr>"
  have "unset (local_source ?o)"
    by (simp add: local_source_def rt_local_init_def DLP_CLASSIC_RNTM_INITIALIZER_def unset_def)
  then show ?thesis
    using library_ways_reach_other_threads [of 2 4 example_env ?o "(rt_global_init, rt_local_init)"]
    by (intro exI [of _ ?o]) (auto simp: example_env_def prod_eq_iff rt_local_init_def)
qed

end
