(* ===== verification/Gemm_Api.thy ===== *)
theory Gemm_Api
  imports Driver_Gemv Kernel_Hndl Arg_Check Runtime
begin

text \<open>
  The GEMM entry points of the two 8-bit families, \<^verbatim>\<open>classic/aocl_gemm_u8s8s32o*.c\<close> and
  \<^verbatim>\<open>classic/aocl_gemm_s8s8s32o*.c\<close>: from the arguments of a call to an error code or to the calls of the
  driver its threads make.

  The six functions of a family differ in the type of C, the kernel they ask for and one CPU test,
  which are the arguments of the common body. A result \<open>Inl e\<close> stores the error \<open>e\<close> in the metadata and runs
  nothing; \<open>Inr\<close> holds what is handed to the threads; \<open>None\<close> is an access outside an array in the translation
  of the post operations or a failed allocation of the communicators. The state of the run time configuration
  is threaded through. Logging is left out.
\<close>

section \<open>Calls and their surroundings\<close>

record call_metadata =
  cm_ops :: dlp_metadata_t
  cm_tuning :: tuning_metadata

record gemm_call =
  gc_order :: char
  gc_transa :: char
  gc_transb :: char
  gc_m :: md_t
  gc_n :: md_t
  gc_k :: md_t
  gc_alpha :: int32_t
  gc_a :: ptr
  gc_lda :: md_t
  gc_mem_format_a :: char
  gc_b :: ptr
  gc_ldb :: md_t
  gc_mem_format_b :: char
  gc_beta :: int32_t
  gc_c :: ptr
  gc_ldc :: md_t
  gc_metadata :: "call_metadata option"

text \<open>The machine, the configuration sources, the decisions of the kernel framework, and what the stack and the
  communicator memory held before the call.\<close>

record api_env =
  ae_cpu :: cpu
  ae_rt :: rt_env
  ae_openmp :: bool
  ae_shape :: "kernel_datatype_t \<Rightarrow> gemm_args \<Rightarrow> dlp_gemm_post_op list \<Rightarrow> dlp_gemm_cntx_t \<Rightarrow> tile_choice"
  ae_packb :: "kernel_datatype_t \<Rightarrow> md_t \<Rightarrow> md_t \<Rightarrow> md_t \<Rightarrow> md_t \<Rightarrow> packb_engine"
  ae_hndl :: dlp_pack_info_hndl_t
  ae_decor :: decor_env
  ae_nodes :: "dlp_gemm_post_op list"
  ae_rntm :: dlp_rntm_t
  ae_comms :: "nat \<Rightarrow> dlp_task_comm_t"

record gemm_launch =
  gl_args :: gemm_args
  gl_a :: ptr
  gl_b :: ptr
  gl_cntx :: dlp_gemm_cntx_t
  gl_rntm :: dlp_rntm_t
  gl_nodes :: "dlp_gemm_post_op list"
  gl_team :: "dlp_task_comm_t list"
  gl_calls :: "rowvar_call list"

type_synonym gemm_result = "(rt_state \<times> (dlp_clsc_err_t + gemm_launch)) option"

section \<open>The context of a call\<close>

definition with_threads :: "dlp_rntm_t \<Rightarrow> dlp_gemm_cntx_t \<Rightarrow> dlp_gemm_cntx_t" where
  "with_threads r c = c\<lparr>cx_thread_info := \<lparr>ti_num_threads = rn_num_threads r, ti_ic_ways = rn_ic_ways r, ti_jc_ways = rn_jc_ways r\<rparr>\<rparr>"

text \<open>From the copy of the global context to the one the threads run with, and the run time record with the ways
  the decision engine settled on.\<close>

definition gemm_context ::
  "AOCL_DLP_OPERATION_TYPE \<Rightarrow> kernel_datatype_t \<Rightarrow> api_env \<Rightarrow> gemm_args \<Rightarrow> dlp_gemm_post_op list \<Rightarrow> tuning_metadata option \<Rightarrow> dlp_rntm_t \<Rightarrow>
   dlp_clsc_err_t + (dlp_gemm_cntx_t \<times> dlp_rntm_t)" where
  "gemm_context op k_dtype env g nodes md rntm_g =
     (let lcntx_l = with_threads rntm_g (dlp_gemm_get_global_cntx_obj (init_table (ae_cpu env)) (op_type_code op))
      in (case dlp_gemm_upd_cntx_with_metadata (Some lcntx_l) md of
            (_, None) \<Rightarrow> Inl DLP_CLSC_NULL_POINTER
          | (err, Some lcntx_l) \<Rightarrow>
              if err \<noteq> DLP_CLSC_SUCCESS then Inl err
              else
                let err = dlp_gemm_validate_hints_with_call (Some lcntx_l) (ga_mtag_b g) (rn_num_threads rntm_g) (rn_ic_ways rntm_g) (rn_jc_ways rntm_g)
                in if err \<noteq> DLP_CLSC_SUCCESS then Inl err
                   else
                     let lcntx_l = lcntx_l\<lparr>cx_dlp_kernel_hndl := (cx_dlp_kernel_hndl lcntx_l)\<lparr>kh_kernel_base := 0\<rparr>\<rparr>;
                         lcntx_l = dlp_init_and_get_kernel_hndl k_dtype (int8_kernelInfo (ae_shape env k_dtype g nodes)) lcntx_l
                     in if kh_kernel_base (cx_dlp_kernel_hndl lcntx_l) = 0 then Inl DLP_CLSC_INVALID_JIT_KERNEL
                        else
                          let rntm_g = rntm_g\<lparr>rn_ic_ways := ti_ic_ways (cx_thread_info lcntx_l), rn_jc_ways := ti_jc_ways (cx_thread_info lcntx_l)\<rparr>;
                              (hndl, lcntx_l) = dlp_init_and_get_packb_kernel_hndl k_dtype
                                (ae_packb env k_dtype (ga_n g) (ga_k g) (ga_rs_b g) (ga_cs_b g)) ((ae_hndl env)\<lparr>ph_kernel_base := 0\<rparr>) lcntx_l
                          in if avx512vnni_supported (ae_cpu env) \<and> bs_NR (cx_blksz lcntx_l) > 1 \<and> ph_kernel_base hndl = 0
                             then Inl DLP_CLSC_INVALID_JIT_KERNEL
                             else
                               let lcntx_l = dlp_upd_pack_strides k_dtype lcntx_l;
                                   err = dlp_gemm_validate_metadata_with_lcntx md (Some lcntx_l)
                               in if err \<noteq> DLP_CLSC_SUCCESS then Inl err else Inr (lcntx_l, rntm_g)))"

text \<open>The rest of a call once its operands are settled: post operations, configuration, context, threads.\<close>

definition gemm_start ::
  "AOCL_DLP_OPERATION_TYPE \<Rightarrow> kernel_datatype_t \<Rightarrow> api_env \<Rightarrow> rt_state \<Rightarrow> gemm_call \<Rightarrow> gemm_args \<Rightarrow> ptr \<Rightarrow> ptr \<Rightarrow> gemm_result" where
  "gemm_start op k_dtype env st call g a b =
     (case dlp_gemm_translate_to_post_ops_list (map_option cm_ops (gc_metadata call)) (Some (ae_nodes env)) (gc_c call) (gc_m call) (gc_n call) of
        None \<Rightarrow> None
      | Some (err, nodes) \<Rightarrow>
          if err \<noteq> DLP_CLSC_SUCCESS then Some (st, Inl err)
          else
            let (st, rntm_g) = dlp_rntm_init_from_global (ae_rt env) st (ae_rntm env)
            in (case gemm_context op k_dtype env g nodes (map_option cm_tuning (gc_metadata call)) rntm_g of
                  Inl err \<Rightarrow> Some (st, Inl err)
                | Inr (lcntx_l, rntm_g) \<Rightarrow>
                    map_option (\<lambda>(comms, calls). (st, Inr \<lparr>gl_args = g, gl_a = a, gl_b = b, gl_cntx = lcntx_l, gl_rntm = rntm_g,
                        gl_nodes = nodes, gl_team = comms, gl_calls = calls\<rparr>))
                      (if ae_openmp env \<and> \<not> dlp_is_single_thread rntm_g
                       then openmp_thread_decorator S32O32 None (ae_decor env) (ae_comms env) (ga_m g) (ga_n g) (ga_k g) (ga_mtag_a g) (ga_mtag_b g)
                              rntm_g lcntx_l (Some nodes)
                       else thread_decorator S32O32 None (ae_decor env) (ae_comms env 0) (ga_m g) (ga_n g) (ga_k g) (ga_mtag_a g) (ga_mtag_b g)
                              rntm_g lcntx_l (Some nodes))))"

text \<open>The error code of \<open>AOCL_DLP_GEMM_CHECK\<close> on the arguments of the call.\<close>

definition check_call :: "gemm_call \<Rightarrow> dlp_clsc_err_t" where
  "check_call call = snd (AOCL_DLP_GEMM_CHECK (gc_order call) (gc_transa call) (gc_transb call) (gc_m call) (gc_n call) (gc_k call)
     (gc_a call) (gc_lda call) (gc_mem_format_a call) (gc_b call) (gc_ldb call) (gc_mem_format_b call) (gc_c call) (gc_ldc call))"

section \<open>Unsigned times signed\<close>

definition aocl_gemm_u8s8s32 :: "kernel_datatype_t \<Rightarrow> DLP_TYPE \<Rightarrow> bool \<Rightarrow> api_env \<Rightarrow> rt_state \<Rightarrow> gemm_call \<Rightarrow> gemm_result" where
  "aocl_gemm_u8s8s32 k_dtype c_downscale isa_ok env st call =
     (if \<not> avx512vnni_supported (ae_cpu env) then Some (st, Inl DLP_CLSC_NOT_SUPPORTED)
      else if \<not> isa_ok then Some (st, Inl DLP_CLSC_NOT_SUPPORTED)
      else
        let err_no = check_call call;
            dlp_transa = dlp_param_map_netlib_to_dlp_trans (gc_transa call);
            dlp_transb = dlp_param_map_netlib_to_dlp_trans (gc_transb call);
            (rs_a, cs_a) = (if dlp_is_trans dlp_transa then (1, gc_lda call) else (gc_lda call, 1));
            (rs_b, cs_b) = (if dlp_is_trans dlp_transb then (1, gc_ldb call) else (gc_ldb call, 1));
            mtag_a = dlp_param_map_char_to_lpmtag (gc_mem_format_a call);
            mtag_b = dlp_param_map_char_to_lpmtag (gc_mem_format_b call)
        in if err_no \<noteq> DLP_CLSC_SUCCESS then Some (st, Inl err_no)
           else if \<not> row_char (gc_order call) then Some (st, Inl DLP_CLSC_NOT_SUPPORTED)
           else if mtag_a = REORDERED then Some (st, Inl DLP_CLSC_NOT_SUPPORTED)
           else
             let mtag_a = (if mtag_a = PACK then UNPACKED else mtag_a);
                 mtag_b = (if mtag_b = UNPACKED then PACK else mtag_b);
                 mtag_a = (if dlp_is_trans dlp_transa then PACK else mtag_a)
             in gemm_start U8S8S32OS32 k_dtype env st call
                  \<lparr>ga_m = gc_m call, ga_n = gc_n call, ga_k = gc_k call, ga_rs_a = rs_a, ga_cs_a = cs_a, ga_mtag_a = mtag_a,
                   ga_rs_b = rs_b, ga_cs_b = cs_b, ga_mtag_b = mtag_b, ga_rs_c = gc_ldc call, ga_beta = gc_beta call,
                   ga_c_downscale = c_downscale\<rparr> (gc_a call) (gc_b call))"

definition aocl_gemm_u8s8s32os32 :: "api_env \<Rightarrow> rt_state \<Rightarrow> gemm_call \<Rightarrow> gemm_result" where
  "aocl_gemm_u8s8s32os32 = aocl_gemm_u8s8s32 DLP_KERNEL_U8S8S32OS32 DLP_S32 True"

definition aocl_gemm_u8s8s32of32 :: "api_env \<Rightarrow> rt_state \<Rightarrow> gemm_call \<Rightarrow> gemm_result" where
  "aocl_gemm_u8s8s32of32 = aocl_gemm_u8s8s32 DLP_KERNEL_U8S8S32OF32 DLP_F32 True"

definition aocl_gemm_u8s8s32of16 :: "api_env \<Rightarrow> rt_state \<Rightarrow> gemm_call \<Rightarrow> gemm_result" where
  "aocl_gemm_u8s8s32of16 = aocl_gemm_u8s8s32 DLP_KERNEL_U8S8S32OF16 DLP_F16 True"

definition aocl_gemm_u8s8s32obf16 :: "api_env \<Rightarrow> rt_state \<Rightarrow> gemm_call \<Rightarrow> gemm_result" where
  "aocl_gemm_u8s8s32obf16 env = aocl_gemm_u8s8s32 DLP_KERNEL_U8S8S32OBF16 DLP_BF16 (avx512bf16_supported (ae_cpu env)) env"

definition aocl_gemm_u8s8s32ou8 :: "api_env \<Rightarrow> rt_state \<Rightarrow> gemm_call \<Rightarrow> gemm_result" where
  "aocl_gemm_u8s8s32ou8 = aocl_gemm_u8s8s32 DLP_KERNEL_U8S8S32OU8 DLP_U8 True"

definition aocl_gemm_u8s8s32os8 :: "api_env \<Rightarrow> rt_state \<Rightarrow> gemm_call \<Rightarrow> gemm_result" where
  "aocl_gemm_u8s8s32os8 = aocl_gemm_u8s8s32 DLP_KERNEL_U8S8S32OS8 DLP_S8 True"

section \<open>Signed times signed\<close>

definition aocl_gemm_s8s8s32 :: "kernel_datatype_t \<Rightarrow> DLP_TYPE \<Rightarrow> api_env \<Rightarrow> rt_state \<Rightarrow> gemm_call \<Rightarrow> gemm_result" where
  "aocl_gemm_s8s8s32 k_dtype c_downscale env st call =
     (if \<not> avx512vnni_supported (ae_cpu env) then Some (st, Inl DLP_CLSC_NOT_SUPPORTED)
      else
        let err_no = check_call call;
            dlp_transa = dlp_param_map_netlib_to_dlp_trans (gc_transa call);
            dlp_transb = dlp_param_map_netlib_to_dlp_trans (gc_transb call);
            is_row_major = row_char (gc_order call);
            is_column_major = col_char (gc_order call);
            (rs_a, cs_a) = (if dlp_is_trans dlp_transa then (1, gc_lda call) else (gc_lda call, 1));
            (rs_b, cs_b) = (if dlp_is_trans dlp_transb then (1, gc_ldb call) else (gc_ldb call, 1));
            mtag_a = dlp_param_map_char_to_lpmtag (gc_mem_format_a call);
            mtag_b = dlp_param_map_char_to_lpmtag (gc_mem_format_b call)
        in if err_no \<noteq> DLP_CLSC_SUCCESS then Some (st, Inl err_no)
           else if is_column_major \<and> (case gc_metadata call of None \<Rightarrow> False | Some md \<Rightarrow> md_seq_length (cm_ops md) > 0)
           then Some (st, Inl DLP_CLSC_NOT_SUPPORTED)
           else if is_row_major \<and> mtag_a = REORDERED then Some (st, Inl DLP_CLSC_NOT_SUPPORTED)
           else if is_column_major \<and> (mtag_b = REORDERED \<or> mtag_a = REORDERED) then Some (st, Inl DLP_CLSC_NOT_SUPPORTED)
           else
             let (mtag_a, mtag_b) = (if is_row_major \<and> mtag_a = PACK then (UNPACKED, mtag_b)
                                     else if is_column_major \<and> mtag_b = PACK then (mtag_a, UNPACKED) else (mtag_a, mtag_b));
                 (mtag_a, mtag_b) = (if is_row_major \<and> mtag_b = UNPACKED then (mtag_a, PACK)
                                     else if is_column_major \<and> mtag_a = UNPACKED then (PACK, mtag_b) else (mtag_a, mtag_b));
                 (mtag_a, mtag_b) = (if is_row_major \<and> dlp_is_trans dlp_transa then (PACK, mtag_b)
                                     else if is_column_major \<and> dlp_is_trans dlp_transb then (mtag_a, PACK) else (mtag_a, mtag_b))
             in if is_column_major
                then gemm_start S8S8S32OS32 k_dtype env st call
                  \<lparr>ga_m = gc_n call, ga_n = gc_m call, ga_k = gc_k call, ga_rs_a = rs_b, ga_cs_a = cs_b, ga_mtag_a = mtag_b,
                   ga_rs_b = rs_a, ga_cs_b = cs_a, ga_mtag_b = mtag_a, ga_rs_c = gc_ldc call, ga_beta = gc_beta call,
                   ga_c_downscale = c_downscale\<rparr> (gc_b call) (gc_a call)
                else gemm_start S8S8S32OS32 k_dtype env st call
                  \<lparr>ga_m = gc_m call, ga_n = gc_n call, ga_k = gc_k call, ga_rs_a = rs_a, ga_cs_a = cs_a, ga_mtag_a = mtag_a,
                   ga_rs_b = rs_b, ga_cs_b = cs_b, ga_mtag_b = mtag_b, ga_rs_c = gc_ldc call, ga_beta = gc_beta call,
                   ga_c_downscale = c_downscale\<rparr> (gc_a call) (gc_b call))"

definition aocl_gemm_s8s8s32os32 :: "api_env \<Rightarrow> rt_state \<Rightarrow> gemm_call \<Rightarrow> gemm_result" where
  "aocl_gemm_s8s8s32os32 = aocl_gemm_s8s8s32 DLP_KERNEL_S8S8S32OS32 DLP_S32"

definition aocl_gemm_s8s8s32of32 :: "api_env \<Rightarrow> rt_state \<Rightarrow> gemm_call \<Rightarrow> gemm_result" where
  "aocl_gemm_s8s8s32of32 = aocl_gemm_s8s8s32 DLP_KERNEL_S8S8S32OF32 DLP_F32"

definition aocl_gemm_s8s8s32of16 :: "api_env \<Rightarrow> rt_state \<Rightarrow> gemm_call \<Rightarrow> gemm_result" where
  "aocl_gemm_s8s8s32of16 = aocl_gemm_s8s8s32 DLP_KERNEL_S8S8S32OF16 DLP_F16"

definition aocl_gemm_s8s8s32obf16 :: "api_env \<Rightarrow> rt_state \<Rightarrow> gemm_call \<Rightarrow> gemm_result" where
  "aocl_gemm_s8s8s32obf16 = aocl_gemm_s8s8s32 DLP_KERNEL_S8S8S32OBF16 DLP_BF16"

definition aocl_gemm_s8s8s32ou8 :: "api_env \<Rightarrow> rt_state \<Rightarrow> gemm_call \<Rightarrow> gemm_result" where
  "aocl_gemm_s8s8s32ou8 = aocl_gemm_s8s8s32 DLP_KERNEL_S8S8S32OU8 DLP_U8"

definition aocl_gemm_s8s8s32os8 :: "api_env \<Rightarrow> rt_state \<Rightarrow> gemm_call \<Rightarrow> gemm_result" where
  "aocl_gemm_s8s8s32os8 = aocl_gemm_s8s8s32 DLP_KERNEL_S8S8S32OS8 DLP_S8"

definition int8_entries :: "(api_env \<Rightarrow> rt_state \<Rightarrow> gemm_call \<Rightarrow> gemm_result) list" where
  "int8_entries = [aocl_gemm_u8s8s32os32, aocl_gemm_u8s8s32of32, aocl_gemm_u8s8s32of16, aocl_gemm_u8s8s32obf16, aocl_gemm_u8s8s32ou8,
     aocl_gemm_u8s8s32os8, aocl_gemm_s8s8s32os32, aocl_gemm_s8s8s32of32, aocl_gemm_s8s8s32of16, aocl_gemm_s8s8s32obf16,
     aocl_gemm_s8s8s32ou8, aocl_gemm_s8s8s32os8]"

lemmas int8_entry_defs = aocl_gemm_u8s8s32os32_def aocl_gemm_u8s8s32of32_def aocl_gemm_u8s8s32of16_def aocl_gemm_u8s8s32obf16_def
  aocl_gemm_u8s8s32ou8_def aocl_gemm_u8s8s32os8_def aocl_gemm_s8s8s32os32_def aocl_gemm_s8s8s32of32_def aocl_gemm_s8s8s32of16_def
  aocl_gemm_s8s8s32obf16_def aocl_gemm_s8s8s32ou8_def aocl_gemm_s8s8s32os8_def

section \<open>The context a call runs with\<close>

definition int8_dtype :: "kernel_datatype_t \<Rightarrow> bool" where
  "int8_dtype k_dtype \<longleftrightarrow> step_of_dtype k_dtype = Some (4, 64)"

text \<open>What the steps of a call promise each other about the context.\<close>

definition context_ok :: "tuning_metadata option \<Rightarrow> dlp_gemm_cntx_t \<Rightarrow> bool" where
  "context_ok md c \<longleftrightarrow> cntx_wf c \<and> strides_agree 4 c \<and> 4 dvd bs_KC (cx_blksz c) \<and>
     (case md of None \<Rightarrow> True | Some m \<Rightarrow> (case md_block_params m of None \<Rightarrow> True | Some bp \<Rightarrow> validate_block_params bp (cx_blksz c)))"

lemma gemm_context_ok:
  assumes "gemm_context op k_dtype env g nodes md r = Inr (c, r')" "op \<in> {U8S8S32OS32, S8S8S32OS32}" "int8_dtype k_dtype"
  shows "context_ok md c"
proof -
  let ?c0 = "with_threads r (dlp_gemm_get_global_cntx_obj (init_table (ae_cpu env)) (op_type_code op))"
  let ?e = "int8_kernelInfo (ae_shape env k_dtype g nodes)"
  let ?p = "ae_packb env k_dtype (ga_n g) (ga_k g) (ga_rs_b g) (ga_cs_b g)"
  have wf0: "blksz_ok (cx_blksz ?c0)" using table_wf [OF assms(2), of "ae_cpu env"] by (simp add: with_threads_def cntx_wf_def)
  obtain c1 where c1: "dlp_gemm_upd_cntx_with_metadata (Some ?c0) md = (DLP_CLSC_SUCCESS, Some c1)"
    and rest: "gemm_context op k_dtype env g nodes md r = Inr (c, r')"
    using assms(1) by (auto simp: gemm_context_def Let_def split: prod.splits option.splits if_splits)
  define c2 where "c2 = dlp_init_and_get_kernel_hndl k_dtype ?e (c1\<lparr>cx_dlp_kernel_hndl := (cx_dlp_kernel_hndl c1)\<lparr>kh_kernel_base := 0\<rparr>\<rparr>)"
  obtain h c3 where c3: "dlp_init_and_get_packb_kernel_hndl k_dtype ?p ((ae_hndl env)\<lparr>ph_kernel_base := 0\<rparr>) c2 = (h, c3)" by force
  have fin: "kh_kernel_base (cx_dlp_kernel_hndl c2) \<noteq> 0" "c = dlp_upd_pack_strides k_dtype c3"
    "dlp_gemm_validate_metadata_with_lcntx md (Some c) = DLP_CLSC_SUCCESS"
    using rest unfolding gemm_context_def Let_def c1 prod.case option.case c2_def [symmetric] c3 by (auto split: if_splits)
  have ok1: "blksz_ok (cx_blksz c1)" by (rule upd_cntx_success(1) [OF c1 wf0])
  then have "cntx_wf c2" using fin(1) int8_kc_pos unfolding c2_def by (intro kernel_hndl_wf) simp_all
  then have wf: "cntx_wf c" using packb_hndl_ok(2) [OF c3] by (simp add: fin(2) cntx_wf_ok)
  have "getKernelDatatype_valid k_dtype" using assms(3) by (cases k_dtype) (simp_all add: int8_dtype_def getKernelDatatype_valid_def)
  then have k2: "4 dvd bs_KC (cx_blksz c2)" using fin(1) unfolding c2_def
    by (auto simp: dlp_init_and_get_kernel_hndl_def int8_kernelInfo_def k_pack_factor_def Let_def split: if_splits)
  have kc: "4 dvd bs_KC (cx_blksz c)" using c3 by (cases rule: packb_hndl_cases) (use k2 in \<open>simp_all add: fin(2)\<close>)
  have st: "strides_agree 4 c" using assms(3) upd_strides_agree by (simp add: fin(2) int8_dtype_def)
  have "validate_block_params bp (cx_blksz c)" if "md = Some m" "md_block_params m = Some bp" for m bp
    by (rule validated_fits(2) [OF fin(3) cntx_wf_ok [OF wf] that])
  then show ?thesis using wf st kc by (auto simp: context_ok_def split: option.splits)
qed

lemma gemm_context_error: "gemm_context op k_dtype env g nodes md r = Inl e \<Longrightarrow> e \<noteq> DLP_CLSC_SUCCESS"
  by (auto simp: gemm_context_def Let_def split: prod.splits option.splits if_splits)

section \<open>What a call hands to its threads\<close>

definition launch_ok :: "gemm_call \<Rightarrow> gemm_launch \<Rightarrow> bool" where
  "launch_ok call l \<longleftrightarrow> context_ok (map_option cm_tuning (gc_metadata call)) (gl_cntx l) \<and> is_team (map rc_thread (gl_calls l))"

lemma gemm_start_result:
  assumes "gemm_start op k_dtype env st call g a b = Some (st', res)" "op \<in> {U8S8S32OS32, S8S8S32OS32}" "int8_dtype k_dtype"
    and "0 < ga_m g" "0 < ga_n g"
  shows "case res of Inl e \<Rightarrow> e \<noteq> DLP_CLSC_SUCCESS | Inr l \<Rightarrow> launch_ok call l \<and> gl_args l = g \<and> gl_a l = a \<and> gl_b l = b"
proof (cases res)
  case (Inl e)
  then show ?thesis using assms(1) gemm_context_error
    by (auto simp: gemm_start_def Let_def split: prod.splits option.splits if_splits sum.splits)
next
  case (Inr l)
  obtain err nodes where tr: "dlp_gemm_translate_to_post_ops_list (map_option cm_ops (gc_metadata call)) (Some (ae_nodes env)) (gc_c call) (gc_m call) (gc_n call)
      = Some (err, nodes)" using assms(1) by (auto simp: gemm_start_def split: option.splits)
  obtain st1 r where r: "dlp_rntm_init_from_global (ae_rt env) st (ae_rntm env) = (st1, r)" by (rule prod.exhaust)
  obtain c r' where c: "gemm_context op k_dtype env g nodes (map_option cm_tuning (gc_metadata call)) r = Inr (c, r')"
    using assms(1) Inr unfolding gemm_start_def Let_def tr r prod.case option.case by (auto split: sum.splits if_splits)
  have ok: "context_ok (map_option cm_tuning (gc_metadata call)) c" by (rule gemm_context_ok [OF c assms(2,3)])
  then have bs: "blksz_ok (cx_blksz c)" by (simp add: context_ok_def cntx_wf_ok)
  obtain comms calls where d: "l = \<lparr>gl_args = g, gl_a = a, gl_b = b, gl_cntx = c, gl_rntm = r', gl_nodes = nodes, gl_team = comms, gl_calls = calls\<rparr>"
    "openmp_thread_decorator S32O32 None (ae_decor env) (ae_comms env) (ga_m g) (ga_n g) (ga_k g) (ga_mtag_a g) (ga_mtag_b g) r' c (Some nodes) = Some (comms, calls) \<or>
     thread_decorator S32O32 None (ae_decor env) (ae_comms env 0) (ga_m g) (ga_n g) (ga_k g) (ga_mtag_a g) (ga_mtag_b g) r' c (Some nodes) = Some (comms, calls)"
    using assms(1) Inr unfolding gemm_start_def Let_def tr r prod.case option.case c sum.case by (auto split: if_splits)
  have "is_team (map rc_thread calls)" using d(2) by (elim disjE) (erule openmp_team [OF _ assms(4,5) bs], erule single_team)
  then show ?thesis using ok Inr d(1) by (simp add: launch_ok_def)
qed

definition operands_ok :: "gemm_args \<Rightarrow> bool" where
  "operands_ok g \<longleftrightarrow> 0 < ga_m g \<and> 0 < ga_n g \<and> 0 < ga_k g \<and> ga_mtag_a g \<in> {UNPACKED, PACK} \<and> ga_mtag_b g \<in> {PACK, REORDERED}"

lemma mtag_cases: "dlp_param_map_char_to_lpmtag x \<in> {UNPACKED, PACK, REORDERED}"
  by (simp add: dlp_param_map_char_to_lpmtag_def)

lemma check_call_ok:
  assumes "check_call call = DLP_CLSC_SUCCESS"
  shows "row_char (gc_order call) \<or> col_char (gc_order call)" "dim_ok (gc_m call)" "dim_ok (gc_n call)" "dim_ok (gc_k call)"
    "ld_ok (gc_order call) (CHR ''n'') (gc_m call) (gc_n call) (gc_ldc call)"
    "notrans_char (gc_transa call) \<or> trans_char (gc_transa call)" "notrans_char (gc_transb call) \<or> trans_char (gc_transb call)"
proof -
  let ?chk = "AOCL_DLP_GEMM_CHECK (gc_order call) (gc_transa call) (gc_transb call) (gc_m call) (gc_n call) (gc_k call)
     (gc_a call) (gc_lda call) (gc_mem_format_a call) (gc_b call) (gc_ldb call) (gc_mem_format_b call) (gc_c call) (gc_ldc call)"
  have "?chk = (fst ?chk, DLP_CLSC_SUCCESS)" using assms by (simp add: check_call_def prod_eq_iff)
  from gemm_check_ok(2,5-7,15,3,4) [OF this]
  show "row_char (gc_order call) \<or> col_char (gc_order call)" "dim_ok (gc_m call)" "dim_ok (gc_n call)" "dim_ok (gc_k call)"
    "ld_ok (gc_order call) (CHR ''n'') (gc_m call) (gc_n call) (gc_ldc call)"
    "notrans_char (gc_transa call) \<or> trans_char (gc_transa call)" "notrans_char (gc_transb call) \<or> trans_char (gc_transb call)" .
qed

text \<open>The operands of an accepted call. In column order the signed entry points compute the transposed product, with the roles of
  A and B exchanged.\<close>

lemma u8s8_result:
  assumes "aocl_gemm_u8s8s32 k_dtype c_downscale isa_ok env st call = Some (st', res)" "int8_dtype k_dtype"
  shows "case res of Inl e \<Rightarrow> e \<noteq> DLP_CLSC_SUCCESS
    | Inr l \<Rightarrow> launch_ok call l \<and> operands_ok (gl_args l) \<and> ga_m (gl_args l) = gc_m call \<and> ga_n (gl_args l) = gc_n call \<and>
        ga_k (gl_args l) = gc_k call \<and> ga_beta (gl_args l) = gc_beta call \<and> ga_c_downscale (gl_args l) = c_downscale \<and>
        gl_a l = gc_a call \<and> gl_b l = gc_b call"
proof (cases res)
  case (Inl e)
  show ?thesis
  proof (cases "check_call call = DLP_CLSC_SUCCESS")
    case True
    then have "dim_ok (gc_m call)" "dim_ok (gc_n call)" by (auto dest: check_call_ok)
    then show ?thesis using assms True Inl gemm_start_result [of U8S8S32OS32 k_dtype env st call _ _ _ st' res]
      by (auto simp: aocl_gemm_u8s8s32_def Let_def dim_ok_def split: if_splits prod.splits)
  qed (use assms Inl in \<open>auto simp: aocl_gemm_u8s8s32_def Let_def split: if_splits prod.splits\<close>)
next
  case (Inr l)
  have ok: "check_call call = DLP_CLSC_SUCCESS"
    using assms(1) Inr by (auto simp: aocl_gemm_u8s8s32_def Let_def split: if_splits prod.splits)
  then have d: "dim_ok (gc_m call)" "dim_ok (gc_n call)" "dim_ok (gc_k call)" by (auto dest: check_call_ok)
  obtain g where g: "gemm_start U8S8S32OS32 k_dtype env st call g (gc_a call) (gc_b call) = Some (st', res)"
    "ga_m g = gc_m call" "ga_n g = gc_n call" "ga_k g = gc_k call" "ga_beta g = gc_beta call" "ga_c_downscale g = c_downscale"
    "ga_mtag_a g \<in> {UNPACKED, PACK}" "ga_mtag_b g \<in> {PACK, REORDERED}"
    using assms(1) Inr ok mtag_cases [of "gc_mem_format_a call"] mtag_cases [of "gc_mem_format_b call"]
    by (auto simp: aocl_gemm_u8s8s32_def Let_def split: if_splits prod.splits)
  show ?thesis using gemm_start_result [OF g(1) _ assms(2)] g(2-) d Inr by (simp add: operands_ok_def dim_ok_def)
qed

lemma s8s8_result:
  assumes "aocl_gemm_s8s8s32 k_dtype c_downscale env st call = Some (st', res)" "int8_dtype k_dtype"
  shows "case res of Inl e \<Rightarrow> e \<noteq> DLP_CLSC_SUCCESS
    | Inr l \<Rightarrow> launch_ok call l \<and> operands_ok (gl_args l) \<and> ga_k (gl_args l) = gc_k call \<and> ga_beta (gl_args l) = gc_beta call \<and>
        ga_c_downscale (gl_args l) = c_downscale \<and>
        (if col_char (gc_order call)
         then ga_m (gl_args l) = gc_n call \<and> ga_n (gl_args l) = gc_m call \<and> gl_a l = gc_b call \<and> gl_b l = gc_a call
         else ga_m (gl_args l) = gc_m call \<and> ga_n (gl_args l) = gc_n call \<and> gl_a l = gc_a call \<and> gl_b l = gc_b call)"
proof (cases res)
  case (Inl e)
  show ?thesis
  proof (cases "check_call call = DLP_CLSC_SUCCESS")
    case True
    then have "dim_ok (gc_m call)" "dim_ok (gc_n call)" by (auto dest: check_call_ok)
    then show ?thesis using assms True Inl gemm_start_result [of S8S8S32OS32 k_dtype env st call _ _ _ st' res]
      by (auto simp: aocl_gemm_s8s8s32_def Let_def dim_ok_def split: if_splits prod.splits)
  qed (use assms Inl in \<open>auto simp: aocl_gemm_s8s8s32_def Let_def split: if_splits prod.splits\<close>)
next
  case (Inr l)
  have ok: "check_call call = DLP_CLSC_SUCCESS"
    using assms(1) Inr by (auto simp: aocl_gemm_s8s8s32_def Let_def split: if_splits prod.splits)
  note d = check_call_ok [OF ok]
  obtain g a b where g: "gemm_start S8S8S32OS32 k_dtype env st call g a b = Some (st', res)"
    "ga_k g = gc_k call" "ga_beta g = gc_beta call" "ga_c_downscale g = c_downscale"
    "ga_mtag_a g \<in> {UNPACKED, PACK}" "ga_mtag_b g \<in> {PACK, REORDERED}"
    "if col_char (gc_order call) then ga_m g = gc_n call \<and> ga_n g = gc_m call \<and> a = gc_b call \<and> b = gc_a call
     else ga_m g = gc_m call \<and> ga_n g = gc_n call \<and> a = gc_a call \<and> b = gc_b call"
  proof (cases "col_char (gc_order call)")
    case True
    then have "\<not> row_char (gc_order call)" using char_excl(1) by blast
    then show thesis using True assms(1) Inr ok mtag_cases [of "gc_mem_format_a call"] mtag_cases [of "gc_mem_format_b call"] that
      by (auto simp: aocl_gemm_s8s8s32_def Let_def split: if_splits prod.splits)
  next
    case False
    then have "row_char (gc_order call)" using d(1) by blast
    then show thesis using False assms(1) Inr ok mtag_cases [of "gc_mem_format_a call"] mtag_cases [of "gc_mem_format_b call"] that
      by (auto simp: aocl_gemm_s8s8s32_def Let_def split: if_splits prod.splits)
  qed
  have pos: "0 < ga_m g" "0 < ga_n g" using g(7) d(2,3) by (auto simp: dim_ok_def split: if_splits)
  show ?thesis using gemm_start_result [OF g(1) _ assms(2) pos] g(2-) d pos Inr by (simp add: operands_ok_def dim_ok_def split: if_splits)
qed

lemma int8_dtypes:
  "int8_dtype DLP_KERNEL_U8S8S32OS32" "int8_dtype DLP_KERNEL_U8S8S32OF32" "int8_dtype DLP_KERNEL_U8S8S32OF16"
  "int8_dtype DLP_KERNEL_U8S8S32OBF16" "int8_dtype DLP_KERNEL_U8S8S32OU8" "int8_dtype DLP_KERNEL_U8S8S32OS8"
  "int8_dtype DLP_KERNEL_S8S8S32OS32" "int8_dtype DLP_KERNEL_S8S8S32OF32" "int8_dtype DLP_KERNEL_S8S8S32OF16"
  "int8_dtype DLP_KERNEL_S8S8S32OBF16" "int8_dtype DLP_KERNEL_S8S8S32OU8" "int8_dtype DLP_KERNEL_S8S8S32OS8"
  by (simp_all add: int8_dtype_def cache_line_size_def cdiv_simps)

lemma int8_entry_body:
  assumes "gemm \<in> set int8_entries"
  shows "(\<exists>k_dtype c isa. int8_dtype k_dtype \<and> gemm env = aocl_gemm_u8s8s32 k_dtype c isa env) \<or>
    (\<exists>k_dtype c. int8_dtype k_dtype \<and> gemm env = aocl_gemm_s8s8s32 k_dtype c env)"
  using assms unfolding int8_entries_def list.set insert_iff empty_iff
  by (elim disjE; (simp only: int8_entry_defs)?; blast intro: int8_dtypes)

text \<open>C39: Every 8-bit GEMM entry point either reports an error or starts a well-typed run. A returned error is never the success
  code. Otherwise the context handed to the threads has positive block sizes, cache blocks that are whole numbers of the
  register tile the decision engine settled on, packing strides that belong to that tile, a depth block of whole groups of four, and every block size the caller
  stated; the dimensions are positive; A is plain or packed and B packed or reordered; and the threads are a
  complete team on a grid of ways. This holds whatever tile, thread split or kernel the decision engine answers with.\<close>

theorem int8_call_well_typed:
  assumes "gemm \<in> set int8_entries" "gemm env st call = Some (st', res)"
  shows "case res of Inl e \<Rightarrow> e \<noteq> DLP_CLSC_SUCCESS
    | Inr l \<Rightarrow> context_ok (map_option cm_tuning (gc_metadata call)) (gl_cntx l) \<and> operands_ok (gl_args l) \<and> is_team (map rc_thread (gl_calls l))"
proof -
  consider k_dtype c isa where "int8_dtype k_dtype" "aocl_gemm_u8s8s32 k_dtype c isa env st call = Some (st', res)"
    | k_dtype c where "int8_dtype k_dtype" "aocl_gemm_s8s8s32 k_dtype c env st call = Some (st', res)"
    using int8_entry_body [OF assms(1), of env] assms(2) by metis
  then show ?thesis
  proof cases
    case 1
    then show ?thesis using u8s8_result [OF 1(2,1)] by (cases res) (simp_all add: launch_ok_def)
  next
    case 2
    then show ?thesis using s8s8_result [OF 2(2,1)] by (cases res) (simp_all add: launch_ok_def)
  qed
qed

definition example_call :: "md_t \<Rightarrow> md_t \<Rightarrow> md_t \<Rightarrow> gemm_call" where
  "example_call m n k =
     \<lparr>gc_order = CHR ''r'', gc_transa = CHR ''n'', gc_transb = CHR ''n'', gc_m = m, gc_n = n, gc_k = k, gc_alpha = 3, gc_a = 1, gc_lda = k,
      gc_mem_format_a = CHR ''n'', gc_b = 2, gc_ldb = n, gc_mem_format_b = CHR ''n'', gc_beta = 1, gc_c = 3, gc_ldc = n,
      gc_metadata = Some \<lparr>cm_ops = example_scale_md\<lparr>md_seq_length := 0\<rparr>,
        cm_tuning = \<lparr>md_block_params = None, md_sup_thresholds = None, md_gemm_hints = Some \<lparr>gh_m_hint = 0, gh_nt_hint = 0\<rparr>\<rparr>\<rparr>\<rparr>"

definition example_api :: api_env where
  "example_api =
     \<lparr>ae_cpu = example_cpu False True False, ae_rt = Runtime.example_env, ae_openmp = True,
      ae_shape = (\<lambda>_ _ _ c. \<lparr>tc_mr = 6, tc_nr = 64, tc_thread_info = cx_thread_info c, tc_kernel = 1\<rparr>),
      ae_packb = (\<lambda>_ _ _ _ _ c. \<lparr>pk_panel_dim = bs_NR (cx_blksz c), pk_k_factor = 4, pk_kernel = 1\<rparr>),
      ae_hndl = \<lparr>ph_kernel_base = 0, ph_panel_dim = 0, ph_k_factor = 0\<rparr>, ae_decor = Thread_Decor.example_env,
      ae_nodes = replicate 8 disabled_node, ae_rntm = DLP_CLASSIC_RNTM_INITIALIZER, ae_comms = (\<lambda>_. zero_comm)\<rparr>"

lemma example_launches:
  assumes "0 < m" "m < 2 ^ 31" "0 < n" "n < 2 ^ 31" "0 < k" "k < 2 ^ 31"
  shows "\<exists>st' l. aocl_gemm_u8s8s32os32 example_api st (example_call m n k) = Some (st', Inr l)"
proof -
  obtain st1 r where r: "dlp_rntm_init_from_global Runtime.example_env st DLP_CLASSIC_RNTM_INITIALIZER = (st1, r)" by (rule prod.exhaust)
  have chk: "check_call (example_call m n k) = DLP_CLSC_SUCCESS"
    using assms by (simp add: check_call_def AOCL_DLP_GEMM_CHECK_def example_call_def DLP_MAX_GEMM_DIM_def row_char_def notrans_char_def
        trans_char_def mtag_char_def col_char_def)
  have tr: "dlp_gemm_translate_to_post_ops_list (Some (example_scale_md\<lparr>md_seq_length := 0\<rparr>)) (Some (replicate 8 disabled_node)) 3 m n
      = Some (DLP_CLSC_SUCCESS, (replicate 8 disabled_node)[0 := disabled_node])"
    by (simp add: dlp_gemm_translate_to_post_ops_list_def Let_def)
  have "\<exists>c r'. gemm_context U8S8S32OS32 DLP_KERNEL_U8S8S32OS32 example_api g nodes
      (Some \<lparr>md_block_params = None, md_sup_thresholds = None, md_gemm_hints = Some \<lparr>gh_m_hint = 0, gh_nt_hint = 0\<rparr>\<rparr>) r = Inr (c, r')"
    if "ga_mtag_b g = PACK" for g nodes
    by (simp add: gemm_context_def Let_def dlp_gemm_upd_cntx_with_metadata_def dlp_gemm_validate_hints_with_call_def dlp_gemm_validate_hints_def
        dlp_init_and_get_kernel_hndl_def dlp_init_and_get_packb_kernel_hndl_def getKernelDatatype_valid_def int8_kernelInfo_def example_api_def
        dlp_gemm_validate_metadata_with_lcntx_def that)
  note ctx = this
  have "\<exists>st' l. gemm_start U8S8S32OS32 DLP_KERNEL_U8S8S32OS32 example_api st (example_call m n k) g a b = Some (st', Inr l)"
    if tag: "ga_mtag_b g = PACK" for g a b
    using ctx [OF tag, of "(replicate 8 disabled_node)[0 := disabled_node]"] tr r
    by (elim exE) (simp add: gemm_start_def Let_def example_call_def example_api_def thread_decorator_def openmp_thread_decorator_def
        init_comms_def reconcile_packab_def Thread_Decor.example_env_def split_beta)
  then show ?thesis using chk
    by (simp add: aocl_gemm_u8s8s32os32_def aocl_gemm_u8s8s32_def Let_def split_beta dlp_param_map_char_to_lpmtag_def row_char_def
        example_api_def [unfolded atomize_eq] example_cpu_def example_call_def)
qed

theorem int8_call_well_typed_witness:
  "\<exists>st' l. aocl_gemm_u8s8s32os32 example_api (rt_global_init, rt_local_init) (example_call 20 100 9) = Some (st', Inr l) \<and>
     operands_ok (gl_args l) \<and> cntx_wf (gl_cntx l)"
proof -
  have "\<exists>st' l. aocl_gemm_u8s8s32os32 example_api (rt_global_init, rt_local_init) (example_call 20 100 9) = Some (st', Inr l)"
    by (rule example_launches) simp_all
  then obtain st' l where l: "aocl_gemm_u8s8s32os32 example_api (rt_global_init, rt_local_init) (example_call 20 100 9) = Some (st', Inr l)"
    by (elim exE)
  have "aocl_gemm_u8s8s32os32 \<in> set int8_entries" by (simp add: int8_entries_def)
  from int8_call_well_typed [OF this l] show ?thesis using l by (auto simp: context_ok_def)
qed

end
