(* ===== verification/S8_Gemm.thy ===== *)
theory S8_Gemm
  imports S8_Team Gemm_Api
begin

text \<open>
  A call of \<^verbatim>\<open>aocl_gemm_s8s8s32os32\<close> on the caller's arrays, in row or in column order. In column order the entry
  point hands the driver the transposed product, with A and B exchanged; \<open>left_of\<close> and \<open>right_of\<close> name the driver's
  operands among the caller's.
\<close>

section \<open>The operands of the driver\<close>

definition left_of :: "gemm_call \<Rightarrow> 'a \<Rightarrow> 'a \<Rightarrow> 'a" where "left_of call a b = (if col_char (gc_order call) then b else a)"
definition right_of :: "gemm_call \<Rightarrow> 'a \<Rightarrow> 'a \<Rightarrow> 'a" where "right_of call a b = (if col_char (gc_order call) then a else b)"

abbreviation "trans_a call \<equiv> dlp_param_map_netlib_to_dlp_trans (gc_transa call)"
abbreviation "trans_b call \<equiv> dlp_param_map_netlib_to_dlp_trans (gc_transb call)"

lemma s8_operands:
  assumes "aocl_gemm_s8s8s32os32 env st call = Some (st', Inr l)"
    and "\<not> dlp_is_trans (left_of call (trans_a call) (trans_b call))" "dlp_param_map_char_to_lpmtag (gc_mem_format_b call) \<noteq> REORDERED"
  shows "gl_args l =
     \<lparr>ga_m = left_of call (gc_m call) (gc_n call), ga_n = right_of call (gc_m call) (gc_n call), ga_k = gc_k call,
      ga_rs_a = left_of call (gc_lda call) (gc_ldb call), ga_cs_a = 1, ga_mtag_a = UNPACKED,
      ga_rs_b = (if dlp_is_trans (right_of call (trans_a call) (trans_b call)) then 1 else right_of call (gc_lda call) (gc_ldb call)),
      ga_cs_b = (if dlp_is_trans (right_of call (trans_a call) (trans_b call)) then right_of call (gc_lda call) (gc_ldb call) else 1),
      ga_mtag_b = PACK, ga_rs_c = gc_ldc call, ga_beta = gc_beta call, ga_c_downscale = DLP_S32\<rparr>" (is "_ = ?g")
    and "right_of call (gc_m call) (gc_n call) \<le> gc_ldc call"
proof -
  have chk: "check_call call = DLP_CLSC_SUCCESS"
    using assms(1) by (auto simp: aocl_gemm_s8s8s32os32_def aocl_gemm_s8s8s32_def Let_def split: if_splits prod.splits)
  have pos: "dim_ok (gc_m call)" "dim_ok (gc_n call)" "row_char (gc_order call) \<longleftrightarrow> \<not> col_char (gc_order call)"
    using check_call_ok [OF chk] char_excl(1) [of "gc_order call"] by auto
  have "gemm_start S8S8S32OS32 DLP_KERNEL_S8S8S32OS32 env st call ?g (left_of call (gc_a call) (gc_b call)) (right_of call (gc_a call) (gc_b call)) = Some (st', Inr l)"
  proof (cases "col_char (gc_order call)")
    case True
    then show ?thesis using assms mtag_cases [of "gc_mem_format_a call"] mtag_cases [of "gc_mem_format_b call"]
      by (auto simp: aocl_gemm_s8s8s32os32_def aocl_gemm_s8s8s32_def Let_def left_of_def right_of_def pos(3) split: if_splits)
  next
    case False
    then show ?thesis using assms mtag_cases [of "gc_mem_format_a call"] mtag_cases [of "gc_mem_format_b call"]
      by (auto simp: aocl_gemm_s8s8s32os32_def aocl_gemm_s8s8s32_def Let_def left_of_def right_of_def pos(3) split: if_splits)
  qed
  from gemm_start_result [OF this _ int8_dtypes(7)] show "gl_args l = ?g" using pos by (simp add: dim_ok_def left_of_def right_of_def)
  from check_call_ok(5) [OF chk] show "right_of call (gc_m call) (gc_n call) \<le> gc_ldc call"
    using pos(3) by (auto simp: ld_ok_def notrans_char_def right_of_def)
qed

text \<open>The strides of the caller's matrices among those of the driver.\<close>

lemma s8_strides:
  assumes "aocl_gemm_s8s8s32os32 env st call = Some (st', Inr l)"
    and "\<not> dlp_is_trans (left_of call (trans_a call) (trans_b call))" "dlp_param_map_char_to_lpmtag (gc_mem_format_b call) \<noteq> REORDERED"
    and "(ra, ca) = dlp_reorder_plain_strides (gc_order call) (trans_a call) (gc_lda call)"
      "(rb, cb) = dlp_reorder_plain_strides (gc_order call) (trans_b call) (gc_ldb call)"
      "(rc, cc) = dlp_reorder_plain_strides (gc_order call) DLP_NO_TRANSPOSE (gc_ldc call)"
  shows "ga_rs_a (gl_args l) = left_of call ra cb" "left_of call ca rb = 1" "ga_rs_b (gl_args l) = right_of call ca rb" "ga_cs_b (gl_args l) = right_of call ra cb"
    and "rc = left_of call (gc_ldc call) 1" "cc = left_of call 1 (gc_ldc call)"
proof -
  have chk: "check_call call = DLP_CLSC_SUCCESS"
    using assms(1) by (auto simp: aocl_gemm_s8s8s32os32_def aocl_gemm_s8s8s32_def Let_def split: if_splits prod.splits)
  have row: "gc_order call = CHR ''r'' \<or> gc_order call = CHR ''R'' \<longleftrightarrow> \<not> col_char (gc_order call)"
    using check_call_ok(1) [OF chk] char_excl(1) [of "gc_order call"] by (auto simp: row_char_def)
  have nt: "dlp_is_notrans (trans_a call) \<longleftrightarrow> \<not> dlp_is_trans (trans_a call)" "dlp_is_notrans (trans_b call) \<longleftrightarrow> \<not> dlp_is_trans (trans_b call)"
    using check_call_ok(6,7) [OF chk]
    by (auto simp: dlp_param_map_netlib_to_dlp_trans_def dlp_is_notrans_def dlp_is_trans_def notrans_char_def trans_char_def)
  have n0: "dlp_is_notrans DLP_NO_TRANSPOSE" by (simp add: dlp_is_notrans_def)
  note g = s8_operands(1) [OF assms(1-3)]
  note st = assms(2,4-6) [unfolded dlp_reorder_plain_strides_def row nt left_of_def]
  show "ga_rs_a (gl_args l) = left_of call ra cb" "left_of call ca rb = 1" "ga_rs_b (gl_args l) = right_of call ca rb" "ga_cs_b (gl_args l) = right_of call ra cb"
    "rc = left_of call (gc_ldc call) 1" "cc = left_of call 1 (gc_ldc call)"
    using st n0 by (cases "col_char (gc_order call)"; auto simp: g left_of_def right_of_def split: if_splits)+
qed

section \<open>From the caller's matrices to the caller's C\<close>


text \<open>An instance: a call in column order.\<close>

definition example_columns :: gemm_call where
  "example_columns = (example_call 20 100 9)\<lparr>gc_order := CHR ''c'', gc_lda := 20, gc_ldb := 9, gc_ldc := 20\<rparr>"

abbreviation "no_tuning \<equiv> \<lparr>md_block_params = None, md_sup_thresholds = None, md_gemm_hints = Some \<lparr>gh_m_hint = 0, gh_nt_hint = 0\<rparr>\<rparr>"

lemmas example_context_defs = gemm_context_def Let_def dlp_gemm_upd_cntx_with_metadata_def dlp_gemm_validate_hints_with_call_def dlp_gemm_validate_hints_def
  dlp_init_and_get_kernel_hndl_def dlp_init_and_get_packb_kernel_hndl_def getKernelDatatype_valid_def int8_kernelInfo_def example_api_def
  dlp_gemm_validate_metadata_with_lcntx_def

lemma example_columns_launches: "\<exists>st' l. aocl_gemm_s8s8s32os32 example_api st example_columns = Some (st', Inr l) \<and> bs_NR (cx_blksz (gl_cntx l)) = 64"
proof -
  obtain st1 r where r: "dlp_rntm_init_from_global Runtime.example_env st DLP_CLASSIC_RNTM_INITIALIZER = (st1, r)" by (rule prod.exhaust)
  have chk: "check_call example_columns = DLP_CLSC_SUCCESS"
    by (simp add: check_call_def AOCL_DLP_GEMM_CHECK_def example_columns_def example_call_def DLP_MAX_GEMM_DIM_def row_char_def notrans_char_def
        trans_char_def mtag_char_def col_char_def)
  have tr: "dlp_gemm_translate_to_post_ops_list (Some (example_scale_md\<lparr>md_seq_length := 0\<rparr>)) (Some (replicate 8 disabled_node)) 3 m n
      = Some (DLP_CLSC_SUCCESS, (replicate 8 disabled_node)[0 := disabled_node])" for m n
    by (simp add: dlp_gemm_translate_to_post_ops_list_def Let_def)
  have ctx: "\<exists>c r'. gemm_context S8S8S32OS32 DLP_KERNEL_S8S8S32OS32 example_api g nodes (Some no_tuning) r = Inr (c, r') \<and> bs_NR (cx_blksz c) = 64"
    if "ga_mtag_b g = PACK" for g nodes
    by (simp add: example_context_defs with_threads_def that)
  have "\<exists>st' l. gemm_start S8S8S32OS32 DLP_KERNEL_S8S8S32OS32 example_api st example_columns g a b = Some (st', Inr l) \<and> bs_NR (cx_blksz (gl_cntx l)) = 64"
    if tag: "ga_mtag_b g = PACK" for g a b
    using ctx [OF tag, of "(replicate 8 disabled_node)[0 := disabled_node]"] tr r
    by (elim exE) (simp add: gemm_start_def Let_def example_columns_def example_call_def example_api_def thread_decorator_def openmp_thread_decorator_def
        init_comms_def reconcile_packab_def Thread_Decor.example_env_def split_beta)
  then show ?thesis using chk
    by (simp add: aocl_gemm_s8s8s32os32_def aocl_gemm_s8s8s32_def Let_def split_beta dlp_param_map_char_to_lpmtag_def row_char_def col_char_def
        example_api_def [unfolded atomize_eq] example_cpu_def example_columns_def example_call_def dlp_is_trans_def dlp_param_map_netlib_to_dlp_trans_def)
qed


end
