(* ===== verification/Reorder_Api.thy ===== *)
theory Reorder_Api
  imports Gemm_Api Reorder_Ref
begin

text \<open>
  The reorder entry points of the u8s8s32 family, \<^verbatim>\<open>classic/aocl_gemm_u8s8s32os32_utils.c\<close>, and the tuned
  walk they call, \<^verbatim>\<open>classic/frame/u8s8s32/dlp_gemm_reorder.c\<close> (with its signed twin in
  \<^verbatim>\<open>classic/frame/s8s8s32/dlp_gemm_reorder_s8.c\<close>).

  An entry point returns an error, or the element stores (reference) or pack-kernel calls (tuned) of its threads. The number of
  threads OpenMP starts for a request is the parameter \<open>omp_team\<close>. The lemmas connect the checks and the
  context of a call to the layout of \<^verbatim>\<open>Reorder_Layout\<close>: the stores stay inside the buffer the size call
  asked for, reordering and un-reordering cancel, and the tuned walk produces the bytes of the
  reference when it gets the team it asked for.
\<close>

section \<open>Common pieces\<close>

text \<open>\<open>None\<close> is the return for an order the check has already excluded.\<close>

definition reorder_strides :: "char \<Rightarrow> dlp_trans_t \<Rightarrow> md_t \<Rightarrow> (md_t \<times> md_t) option" where
  "reorder_strides order tr ldb =
     (if row_char order then Some (if dlp_is_notrans tr then ldb else 1, if dlp_is_notrans tr then 1 else ldb)
      else if col_char order then Some (if dlp_is_notrans tr then 1 else ldb, if dlp_is_notrans tr then ldb else 1)
      else None)"

text \<open>The copies of a single column.\<close>

definition reorder_vector :: "md_t \<Rightarrow> md_t \<Rightarrow> elem_op list" where
  "reorder_vector k rs_b = (if rs_b = 1 then map (\<lambda>k0. Copy k0 k0) [0..k - 1] else map (\<lambda>k0. Copy k0 (k0 * rs_b)) [0..k - 1])"

definition unreorder_vector :: "md_t \<Rightarrow> md_t \<Rightarrow> elem_op list" where
  "unreorder_vector k rs_b = (if rs_b = 1 then map (\<lambda>k0. Copy k0 k0) [0..k - 1] else map (\<lambda>k0. Copy (k0 * rs_b) k0) [0..k - 1])"

text \<open>From the global context to the one a reorder works with. The tuned function also needs a pack kernel.\<close>

definition reorder_context ::
  "bool \<Rightarrow> api_env \<Rightarrow> md_t \<Rightarrow> md_t \<Rightarrow> md_t \<Rightarrow> md_t \<Rightarrow> tuning_metadata option \<Rightarrow> dlp_clsc_err_t + dlp_gemm_cntx_t" where
  "reorder_context tuned env n k rs_b cs_b md =
     (case dlp_gemm_upd_cntx_with_metadata
             (Some (dlp_gemm_get_global_cntx_obj (init_table (ae_cpu env)) (op_type_code U8S8S32OS32))) md of
        (_, None) \<Rightarrow> Inl DLP_CLSC_NULL_POINTER
      | (err, Some lcntx_g) \<Rightarrow>
          if err \<noteq> DLP_CLSC_SUCCESS then Inl err
          else if dlp_gemm_validate_hints (Some lcntx_g) \<noteq> DLP_CLSC_SUCCESS then Inl (dlp_gemm_validate_hints (Some lcntx_g))
          else
            let (hndl, lcntx_g) = dlp_init_and_get_packb_kernel_hndl DLP_KERNEL_U8S8S32OS32
                  (ae_packb env DLP_KERNEL_U8S8S32OS32 n k rs_b cs_b) ((ae_hndl env)\<lparr>ph_kernel_base := 0\<rparr>) lcntx_g
            in if tuned \<and> ph_kernel_base hndl = 0 then Inl DLP_CLSC_INVALID_JIT_KERNEL
               else
                 let lcntx_g = dlp_upd_pack_strides DLP_KERNEL_U8S8S32OS32 lcntx_g;
                     err = dlp_gemm_validate_metadata_with_lcntx md (Some lcntx_g)
                 in if err \<noteq> DLP_CLSC_SUCCESS then Inl err
                    else if \<not> dlp_reorder_ref_blocks_legal (bs_NR (cx_blksz lcntx_g)) packb_min_NR (bs_KC (cx_blksz lcntx_g)) 4
                    then Inl DLP_CLSC_INVALID_BLOCK_PARAMS
                    else Inr lcntx_g)"

section \<open>Size of the buffer\<close>

definition aocl_get_reorder_buf_size_u8s8s32os32 ::
  "bool \<Rightarrow> api_env \<Rightarrow> char \<Rightarrow> char \<Rightarrow> char \<Rightarrow> md_t \<Rightarrow> md_t \<Rightarrow> tuning_metadata option \<Rightarrow> dlp_clsc_err_t + msz_t" where
  "aocl_get_reorder_buf_size_u8s8s32os32 kernels_zen4 env order tr mat_type k n md =
     (let err_no = snd (AOCL_DLP_REORDER_BUF_SIZE_CHECK order tr mat_type k n)
      in if err_no \<noteq> DLP_CLSC_SUCCESS then Inl err_no
         else if dlp_param_map_char_to_lpmat_type mat_type \<noteq> B_MATRIX then Inl DLP_CLSC_NOT_SUPPORTED
         else (case dlp_gemm_upd_cntx_with_metadata
                      (Some (dlp_gemm_get_global_cntx_obj (init_table (ae_cpu env)) (op_type_code U8S8S32OS32))) md of
                 (_, None) \<Rightarrow> Inl DLP_CLSC_NULL_POINTER
               | (err_no, Some lcntx_l) \<Rightarrow>
                   if err_no \<noteq> DLP_CLSC_SUCCESS then Inl err_no
                   else if dlp_gemm_validate_metadata_with_lcntx md (Some lcntx_l) \<noteq> DLP_CLSC_SUCCESS
                   then Inl (dlp_gemm_validate_metadata_with_lcntx md (Some lcntx_l))
                   else if \<not> dlp_reorder_ref_blocks_legal (bs_NR (cx_blksz lcntx_l)) packb_min_NR (bs_KC (cx_blksz lcntx_l)) 4
                   then Inl DLP_CLSC_INVALID_BLOCK_PARAMS
                   else
                     let n_reorder = (if kernels_zen4 \<and> n = 1 then 1 else dlp_make_multiple_of_n n 16);
                         k_reorder = (if kernels_zen4 \<and> n = 1 then k else dlp_make_multiple_of_n k 4)
                     in (case dlp_reorder_size_bytes k_reorder n_reorder 1 0 of
                           None \<Rightarrow> Inl DLP_CLSC_INVALID_MATRIX_DIMENSION
                         | Some size_req \<Rightarrow> Inr size_req)))"

section \<open>The reference functions\<close>

definition aocl_reorder_u8s8s32os32_reference ::
  "(md_t \<Rightarrow> nat) \<Rightarrow> api_env \<Rightarrow> rt_state \<Rightarrow> char \<Rightarrow> char \<Rightarrow> char \<Rightarrow> ptr \<Rightarrow> ptr \<Rightarrow> md_t \<Rightarrow> md_t \<Rightarrow> md_t \<Rightarrow> tuning_metadata option \<Rightarrow>
   rt_state \<times> (dlp_clsc_err_t + elem_op list option list)" where
  "aocl_reorder_u8s8s32os32_reference omp_team env st order tr mat_type input_buf_addr reorder_buf_addr k n ldb md =
     (let err_no = snd (AOCL_DLP_REORDER_CHECK order tr mat_type input_buf_addr reorder_buf_addr k n ldb)
      in if err_no \<noteq> DLP_CLSC_SUCCESS then (st, Inl err_no)
         else (case reorder_strides order (dlp_param_map_netlib_to_dlp_trans tr) ldb of
                 None \<Rightarrow> (st, Inr [])
               | Some (rs_b, cs_b) \<Rightarrow>
                   if dlp_param_map_char_to_lpmat_type mat_type \<noteq> B_MATRIX then (st, Inl DLP_CLSC_NOT_SUPPORTED)
                   else if n = 1 then (st, Inr [Some (reorder_vector k rs_b)])
                   else
                     let (st, rntm_g) = dlp_rntm_init_from_global (ae_rt env) st (ae_rntm env)
                     in (st, case reorder_context False env n k rs_b cs_b md of
                               Inl err \<Rightarrow> Inl err
                             | Inr lcntx_g \<Rightarrow>
                                 Inr (dlp_reorder_ref_reorderb omp_team 4 n k (bs_NR (cx_blksz lcntx_g)) packb_min_NR (bs_NC (cx_blksz lcntx_g))
                                        (bs_KC (cx_blksz lcntx_g)) rs_b cs_b (rn_num_threads rntm_g)))))"

definition aocl_unreorder_u8s8s32os32_reference ::
  "(md_t \<Rightarrow> nat) \<Rightarrow> api_env \<Rightarrow> rt_state \<Rightarrow> char \<Rightarrow> char \<Rightarrow> char \<Rightarrow> ptr \<Rightarrow> ptr \<Rightarrow> md_t \<Rightarrow> md_t \<Rightarrow> md_t \<Rightarrow> tuning_metadata option \<Rightarrow>
   rt_state \<times> (dlp_clsc_err_t + elem_op list option list)" where
  "aocl_unreorder_u8s8s32os32_reference omp_team env st order tr mat_type reorder_buf_addr output_buf_addr k n ldb md =
     (let err_no = snd (AOCL_DLP_UNREORDER_CHECK order tr mat_type reorder_buf_addr output_buf_addr k n ldb);
          (rs_b, cs_b) = dlp_reorder_plain_strides order (dlp_param_map_netlib_to_dlp_trans tr) ldb
      in if err_no \<noteq> DLP_CLSC_SUCCESS then (st, Inl err_no)
         else if dlp_param_map_char_to_lpmat_type mat_type \<noteq> B_MATRIX then (st, Inl DLP_CLSC_NOT_SUPPORTED)
         else if n = 1 then (st, Inr [Some (unreorder_vector k rs_b)])
         else
           let (st, rntm_g) = dlp_rntm_init_from_global (ae_rt env) st (ae_rntm env)
           in (st, case reorder_context False env n k rs_b cs_b md of
                     Inl err \<Rightarrow> Inl err
                   | Inr lcntx_g \<Rightarrow>
                       Inr (dlp_reorder_ref_unreorderb omp_team 4 n k (bs_NR (cx_blksz lcntx_g)) packb_min_NR (bs_NC (cx_blksz lcntx_g))
                              (bs_KC (cx_blksz lcntx_g)) rs_b cs_b (rn_num_threads rntm_g))))"

section \<open>The tuned walk\<close>

text \<open>A call of the pack kernel: where it writes and reads, the size of the panel, and for signed A the column sums it
  accumulates.\<close>

record packb_call =
  pb_dst :: md_t
  pb_src :: md_t
  pb_nc0 :: md_t
  pb_kc0 :: md_t
  pb_col_sum :: "md_t option"

definition reorderb_thread ::
  "bool \<Rightarrow> dlp_gemm_block_size_t \<Rightarrow> md_t \<Rightarrow> md_t \<Rightarrow> md_t \<Rightarrow> md_t \<Rightarrow> md_t \<Rightarrow> md_t \<Rightarrow> packb_call list option" where
  "reorderb_thread sums blksz n k rs_b cs_b ways wid =
     (let NC = bs_NC blksz; KC = bs_KC blksz; NR = bs_NR blksz;
          k_updated = dlp_make_multiple_of_n k 4;
          (jc_start, jc_end) = dlp_thread_task_range \<lparr>ocomm_id = 0, n_way = ways, work_id = wid\<rparr> n NR False
      in map_option snd (for_loop jc_start jc_end
           (\<lambda>jc. dlp_gemm_adjust_B_panel_reordered_jc jc
                   (fst (dlp_gemm_get_B_panel_reordered_start_offset_width jc n NC packb_min_NR (dlp_min (jc_end - jc) NC))) + NC)
           (\<lambda>jc s.
              let (jc_cur_loop, jc_cur_loop_rem, nc0, n_sub_updated) =
                    dlp_gemm_get_B_panel_reordered_start_offset_width jc n NC packb_min_NR (dlp_min (jc_end - jc) NC)
              in for_loop 0 k (\<lambda>pc. pc + KC)
                   (\<lambda>pc s.
                      let kc0 = dlp_min (k - pc) KC;
                          kc0_updated = dlp_make_multiple_of_n kc0 4
                      in Some (s, [\<lparr>pb_dst = (jc_cur_loop * k_updated) + (n_sub_updated * pc) + (jc_cur_loop_rem * kc0_updated),
                                    pb_src = (rs_b * pc) + jc * cs_b, pb_nc0 = nc0, pb_kc0 = kc0,
                                    pb_col_sum = (if sums then Some jc else None)\<rparr>])) s) ()))"

text \<open>The threads divide the columns by the number asked for, not by the number started.\<close>

definition dlp_reorderb_u8s8s32o32 ::
  "bool \<Rightarrow> (md_t \<Rightarrow> nat) \<Rightarrow> dlp_gemm_block_size_t \<Rightarrow> md_t \<Rightarrow> md_t \<Rightarrow> md_t \<Rightarrow> md_t \<Rightarrow> dlp_rntm_t \<Rightarrow> packb_call list option list" where
  "dlp_reorderb_u8s8s32o32 openmp omp_team blksz n k rs_b cs_b rntm =
     (let n_threads = (if rn_num_threads rntm > 0 then rn_num_threads rntm else 1)
      in if openmp then map (\<lambda>t. reorderb_thread False blksz n k rs_b cs_b n_threads (int t)) [0..<omp_team n_threads]
         else [reorderb_thread False blksz n k rs_b cs_b 1 0])"

text \<open>The signed walk first clears the column sums behind the packed matrix: their byte offset and number come first.\<close>

definition dlp_reorderb_s8s8s32o32 ::
  "bool \<Rightarrow> (md_t \<Rightarrow> nat) \<Rightarrow> dlp_gemm_block_size_t \<Rightarrow> md_t \<Rightarrow> md_t \<Rightarrow> md_t \<Rightarrow> md_t \<Rightarrow> dlp_rntm_t \<Rightarrow>
   (md_t \<times> md_t) \<times> packb_call list option list" where
  "dlp_reorderb_s8s8s32o32 openmp omp_team blksz n k rs_b cs_b rntm =
     (let k_updated = dlp_make_multiple_of_n k 4;
          n_updated = dlp_make_multiple_of_n n 16;
          n_threads = (if rn_num_threads rntm > 0 then rn_num_threads rntm else 1)
      in ((n_updated * k_updated, n_updated),
          if openmp then map (\<lambda>t. reorderb_thread True blksz n k rs_b cs_b n_threads (int t)) [0..<omp_team n_threads]
          else [reorderb_thread True blksz n k rs_b cs_b 1 0]))"

datatype reorder_work = Vector "elem_op list" | Packs dlp_gemm_block_size_t "packb_call list option list"

definition aocl_reorder_u8s8s32os32 ::
  "bool \<Rightarrow> (md_t \<Rightarrow> nat) \<Rightarrow> api_env \<Rightarrow> rt_state \<Rightarrow> char \<Rightarrow> char \<Rightarrow> char \<Rightarrow> ptr \<Rightarrow> ptr \<Rightarrow> md_t \<Rightarrow> md_t \<Rightarrow> md_t \<Rightarrow> tuning_metadata option \<Rightarrow>
   rt_state \<times> (dlp_clsc_err_t + reorder_work)" where
  "aocl_reorder_u8s8s32os32 kernels_zen4 omp_team env st order tr mat_type input_buf_addr reorder_buf_addr k n ldb md =
     (let err_no = snd (AOCL_DLP_REORDER_CHECK order tr mat_type input_buf_addr reorder_buf_addr k n ldb)
      in if \<not> avx512vnni_supported (ae_cpu env) then (st, Inl DLP_CLSC_NOT_SUPPORTED)
         else if err_no \<noteq> DLP_CLSC_SUCCESS then (st, Inl err_no)
         else (case reorder_strides order (dlp_param_map_netlib_to_dlp_trans tr) ldb of
                 None \<Rightarrow> (st, Inr (Vector []))
               | Some (rs_b, cs_b) \<Rightarrow>
                   if dlp_param_map_char_to_lpmat_type mat_type = A_MATRIX then (st, Inl DLP_CLSC_NOT_SUPPORTED)
                   else if kernels_zen4 \<and> n = 1 then (st, Inr (Vector (reorder_vector k rs_b)))
                   else
                     let (st, rntm_g) = dlp_rntm_init_from_global (ae_rt env) st (ae_rntm env)
                     in (st, case reorder_context True env n k rs_b cs_b md of
                               Inl err \<Rightarrow> Inl err
                             | Inr lcntx_g \<Rightarrow> Inr (Packs (cx_blksz lcntx_g)
                                 (dlp_reorderb_u8s8s32o32 (ae_openmp env) omp_team (cx_blksz lcntx_g) n k rs_b cs_b rntm_g)))))"

section \<open>The layout a call works with\<close>

lemma reorder_strides_eq:
  "row_char order \<or> col_char order \<Longrightarrow> reorder_strides order tr ldb = Some (dlp_reorder_plain_strides order tr ldb)"
  using char_excl(1) [of order] by (auto simp: reorder_strides_def dlp_reorder_plain_strides_def row_char_def col_char_def)

text \<open>The code does not test that the width of a panel divides that of a cache block. It holds all the same: the tables have it, the
  pack-kernel step restores it, and stated block sizes are validated.\<close>

lemma reorder_context_blocks:
  assumes "reorder_context tuned env n k rs cs md = Inr c" "0 \<le> n" "0 \<le> k"
  shows "reorder_blocks (bs_NR (cx_blksz c)) packb_min_NR (bs_NC (cx_blksz c)) (bs_KC (cx_blksz c)) 4 n k"
proof -
  let ?c0 = "dlp_gemm_get_global_cntx_obj (init_table (ae_cpu env)) (op_type_code U8S8S32OS32)"
  let ?p = "ae_packb env DLP_KERNEL_U8S8S32OS32 n k rs cs"
  have wf0: "cntx_wf ?c0" by (rule table_wf) simp
  obtain c1 where c1: "dlp_gemm_upd_cntx_with_metadata (Some ?c0) md = (DLP_CLSC_SUCCESS, Some c1)"
    using assms(1) by (auto simp: reorder_context_def Let_def split: prod.splits option.splits if_splits)
  obtain h c3 where c3: "dlp_init_and_get_packb_kernel_hndl DLP_KERNEL_U8S8S32OS32 ?p ((ae_hndl env)\<lparr>ph_kernel_base := 0\<rparr>) c1 = (h, c3)" by force
  have fin: "c = dlp_upd_pack_strides DLP_KERNEL_U8S8S32OS32 c3" "dlp_gemm_validate_metadata_with_lcntx md (Some c) = DLP_CLSC_SUCCESS"
    "dlp_reorder_ref_blocks_legal (bs_NR (cx_blksz c)) packb_min_NR (bs_KC (cx_blksz c)) 4"
    using assms(1) unfolding reorder_context_def c1 prod.case option.case Let_def c3 by (auto split: if_splits)
  note up = upd_cntx_success [OF c1 cntx_wf_ok [OF wf0]]
  have ok: "blksz_ok (cx_blksz c)" using packb_hndl_ok(1) [OF c3 up(1)] by (simp add: fin(1))
  have "bs_NR (cx_blksz c) dvd bs_NC (cx_blksz c)"
  proof (cases "md = None \<or> (\<exists>m. md = Some m \<and> md_block_params m = None)")
    case True
    then have "bs_NR (cx_blksz c1) dvd bs_NC (cx_blksz c1)" using up(4) wf0 by (simp add: cntx_wf_def)
    then show ?thesis using packb_hndl_ok(4) [OF c3 up(1)] by (auto simp: fin(1))
  next
    case False
    then obtain m bp where "md = Some m" "md_block_params m = Some bp" by (cases md) auto
    then show ?thesis using validated_fits(1) [OF fin(2) ok] by (simp add: cntx_wf_def)
  qed
  then show ?thesis using fin(3) ok assms(2,3) by unfold_locales auto
qed

section \<open>Where the stores and loads of a walk go\<close>

context reorder_blocks
begin

lemma pack_slice_dst:
  assumes "op \<in> set (slice_ops True rs cs (task_slice False n NR ways wid))"
  shows "0 \<le> op_dst op \<and> op_dst op < np * kp"
proof -
  have "final_op (slice_ops True rs cs (task_slice False n NR ways wid)) (op_dst op) \<noteq> None"
    unfolding final_op_None using assms by blast
  then show ?thesis unfolding slice_final by (simp split: if_splits)
qed

lemma packb_source:
  assumes "Copy d s \<in> set (dlp_reorder_ref_packb pack_b b kf nc0 kc0 NR min_NR rs cs)"
  shows "\<exists>kr i. 0 \<le> kr \<and> kr < kc0 \<and> 0 \<le> i \<and> i < nc0 \<and> s = b + (kr * rs + i * cs)"
proof -
  have le: "min_NR \<le> NR" using pos by simp
  have "Copy d s \<in> (\<Union>chunk \<in> set (chunk_walk dlp_reorder_chunk_first nc0 NR min_NR (dlp_make_multiple_of_n kc0 kf)). \<Union>kr \<in> {0..kc0 - 1}.
      (\<lambda>i. Copy (pack_b + (rc_offset chunk + dlp_reorder_elem_offset kr i (rc_slot chunk) kf)) (b + (kr * rs + (rc_col_start chunk + i) * cs))) ` {0..rc_cols chunk - 1})"
    using assms by (auto simp: dlp_reorder_ref_packb_def Let_def round_up_multiple)
  then show ?thesis
    unfolding chunk_cells [OF pos(1,3) le, where F = "\<lambda>d kr j. Copy (pack_b + d) (b + (kr * rs + j * cs))"]
    by (elim CollectE exE conjE) (simp only: elem_op.inject, metis)
qed

lemma pack_slice_source:
  assumes "Copy d s \<in> set (slice_ops True rs cs (task_slice False n NR ways wid))"
  shows "\<exists>kr j. 0 \<le> kr \<and> kr < k \<and> 0 \<le> j \<and> j < n \<and> s = kr * rs + j * cs"
proof -
  let ?r = "task_slice False n NR ways wid"
  obtain jc pc where j: "jc \<in> set (loop_points (fst ?r) (snd ?r) (chunk_next (snd ?r)))" "pc \<in> set (loop_points 0 k (\<lambda>pc. pc + KC))"
    and op: "Copy d s \<in> set (piece_ops True rs cs (snd ?r) jc pc)" using assms by (auto simp: slice_ops_def)
  obtain kr i where e: "0 \<le> kr" "kr < dlp_min (k - pc) KC" "0 \<le> i" "i < width (snd ?r) jc" "s = rs * pc + jc * cs + (kr * rs + i * cs)"
    using packb_source [OF op [unfolded piece_ops_def if_True]] by (elim exE conjE)
  have pc: "0 \<le> pc" "kr < k - pc" using j(2) e(2) dlp_min_bounds(1) [of "k - pc" KC] by (auto simp: depth_points)
  have jc: "0 \<le> jc" "jc + i < n" using slice_pieces [OF j(1)] slice_facts [of ways wid] e(4) by auto
  show ?thesis
    by (rule exI [of _ "pc + kr"], rule exI [of _ "jc + i"]) (use e pc jc in \<open>simp add: algebra_simps\<close>)
qed

end

section \<open>What an accepted call does\<close>

text \<open>The team of a vector is one thread; the others follow the walk with the blocks of the context of the call.\<close>

lemma reference_result:
  assumes "aocl_reorder_u8s8s32os32_reference omp_team env st order tr mat_type inp outp k n ldb md = (st', Inr work)"
    and "dlp_reorder_plain_strides order (dlp_param_map_netlib_to_dlp_trans tr) ldb = (rs, cs)"
  shows "dim_ok k" "dim_ok n"
    and "n = 1 \<and> work = [Some (reorder_vector k rs)] \<or>
      n \<noteq> 1 \<and> (\<exists>c nt. reorder_context False env n k rs cs md = Inr c \<and>
        work = dlp_reorder_ref_reorderb omp_team 4 n k (bs_NR (cx_blksz c)) packb_min_NR (bs_NC (cx_blksz c)) (bs_KC (cx_blksz c)) rs cs nt)"
proof -
  obtain pos err where chk: "AOCL_DLP_REORDER_CHECK order tr mat_type inp outp k n ldb = (pos, err)" by (rule prod.exhaust)
  have err: "err = DLP_CLSC_SUCCESS"
    using assms(1) by (auto simp: aocl_reorder_u8s8s32os32_reference_def Let_def chk split: if_splits)
  note ok = chk [unfolded err, unfolded reorder_check_iff]
  show "dim_ok k" "dim_ok n" using ok by auto
  have str: "reorder_strides order (dlp_param_map_netlib_to_dlp_trans tr) ldb = Some (rs, cs)"
    using ok assms(2) by (simp add: reorder_strides_eq)
  obtain st1 r where r: "dlp_rntm_init_from_global (ae_rt env) st (ae_rntm env) = (st1, r)" by (rule prod.exhaust)
  show "n = 1 \<and> work = [Some (reorder_vector k rs)] \<or>
      n \<noteq> 1 \<and> (\<exists>c nt. reorder_context False env n k rs cs md = Inr c \<and>
        work = dlp_reorder_ref_reorderb omp_team 4 n k (bs_NR (cx_blksz c)) packb_min_NR (bs_NC (cx_blksz c)) (bs_KC (cx_blksz c)) rs cs nt)"
    using assms(1) by (auto simp: aocl_reorder_u8s8s32os32_reference_def Let_def chk err str r split: if_splits sum.splits)
qed

lemma unreference_result:
  assumes "aocl_unreorder_u8s8s32os32_reference omp_team env st order tr mat_type inp outp k n ldb md = (st', Inr work)"
    and "dlp_reorder_plain_strides order (dlp_param_map_netlib_to_dlp_trans tr) ldb = (rs, cs)"
  shows "n = 1 \<and> work = [Some (unreorder_vector k rs)] \<or>
      n \<noteq> 1 \<and> (\<exists>c nt. reorder_context False env n k rs cs md = Inr c \<and>
        work = dlp_reorder_ref_unreorderb omp_team 4 n k (bs_NR (cx_blksz c)) packb_min_NR (bs_NC (cx_blksz c)) (bs_KC (cx_blksz c)) rs cs nt)"
proof -
  obtain st1 r where r: "dlp_rntm_init_from_global (ae_rt env) st (ae_rntm env) = (st1, r)" by (rule prod.exhaust)
  show ?thesis
    using assms(1) by (auto simp: aocl_unreorder_u8s8s32os32_reference_def Let_def assms(2) r split: if_splits sum.splits)
qed

lemma size_result:
  assumes "aocl_get_reorder_buf_size_u8s8s32os32 zen4 env order tr mat_type k n md = Inr sz"
  shows "uint sz = (if zen4 \<and> n = 1 then k else dlp_make_multiple_of_n n packb_min_NR * dlp_make_multiple_of_n k 4)"
proof -
  obtain pos err where chk: "AOCL_DLP_REORDER_BUF_SIZE_CHECK order tr mat_type k n = (pos, err)" by (rule prod.exhaust)
  have err: "err = DLP_CLSC_SUCCESS"
    using assms by (auto simp: aocl_get_reorder_buf_size_u8s8s32os32_def Let_def chk split: if_splits)
  have d: "0 < k" "k < 2 ^ 31" "0 < n" "n < 2 ^ 31" using chk [unfolded err, unfolded size_check_iff] by (auto simp: dim_ok_def)
  have b: "dlp_make_multiple_of_n n 16 < 2 ^ 63" "dlp_make_multiple_of_n k 4 < 2 ^ 63" "0 \<le> dlp_make_multiple_of_n n 16" "0 \<le> dlp_make_multiple_of_n k 4"
    using make_multiple_bounds [of n 16] make_multiple_bounds [of k 4] d by auto
  have "dlp_reorder_size_bytes (if zen4 \<and> n = 1 then k else dlp_make_multiple_of_n k 4) (if zen4 \<and> n = 1 then 1 else dlp_make_multiple_of_n n 16) 1 0 = Some sz"
    using assms by (auto simp: aocl_get_reorder_buf_size_u8s8s32os32_def Let_def chk err split: if_splits option.splits prod.splits)
  then show ?thesis using b d by (subst (asm) size_bytes_exact) (auto simp: packb_min_NR_def mult.commute split: if_splits)
qed

section \<open>The calls of the pack kernel\<close>

text \<open>The stores of one call, when the kernel packs the panel the way the reference does.\<close>

definition panel_stores :: "dlp_gemm_block_size_t \<Rightarrow> md_t \<Rightarrow> md_t \<Rightarrow> packb_call list \<Rightarrow> elem_op list" where
  "panel_stores blksz rs_b cs_b calls = concat (map (\<lambda>c.
     dlp_reorder_ref_packb (pb_dst c) (pb_src c) 4 (pb_nc0 c) (pb_kc0 c) (bs_NR blksz) packb_min_NR rs_b cs_b) calls)"

lemma for_loop_map:
  assumes "\<And>xs ys. h (xs @ ys) = h xs @ h ys" "h [] = []"
  shows "map_option (apsnd h) (for_loop i e nxt body s) = for_loop i e nxt (\<lambda>i s. map_option (apsnd h) (body i s)) s"
proof (induction i e nxt body s rule: for_loop.induct)
  case (1 i e nxt body s)
  show ?case
  proof (cases "i < e \<and> \<not> nxt i \<le> i \<and> body i s \<noteq> None")
    case True
    then obtain s' xs where b: "body i s = Some (s', xs)" by auto
    have eq: "map_option (apsnd h) (for_loop (nxt i) e nxt body s') = for_loop (nxt i) e nxt (\<lambda>i s. map_option (apsnd h) (body i s)) s'"
      using 1 [OF _ _ b refl] True by simp
    show ?thesis
      using True b by (subst (1 2) for_loop.simps) (cases "for_loop (nxt i) e nxt body s'", auto simp: assms simp flip: eq)
  next
    case False
    then show ?thesis by (subst (1 2) for_loop.simps) (cases "body i s", auto simp: assms)
  qed
qed

lemma tuned_thread_matches:
  "map_option (panel_stores blksz rs cs) (reorderb_thread sums blksz n k rs cs ways wid) =
     ref_walk_thread True 4 n k (bs_NR blksz) packb_min_NR (bs_NC blksz) (bs_KC blksz) rs cs ways wid"
proof -
  let ?h = "panel_stores blksz rs cs"
  have hom: "?h (xs @ ys) = ?h xs @ ?h ys" "?h [] = []" for xs ys by (simp_all add: panel_stores_def)
  have out: "map_option ?h (map_option snd x) = map_option snd (map_option (apsnd ?h) x)" for x :: "(unit \<times> packb_call list) option"
    by (cases x) auto
  show ?thesis
    unfolding reorderb_thread_def ref_walk_thread_def Let_def split_beta out for_loop_map [where h = ?h, OF hom]
    by (simp add: panel_stores_def round_up_multiple)
qed

text \<open>With the team it asks for, the tuned walk is the reference walk of that team.\<close>

lemma tuned_team_matches:
  fixes rntm :: dlp_rntm_t
  defines "nt \<equiv> if rn_num_threads rntm > 0 then rn_num_threads rntm else 1"
  assumes "openmp \<Longrightarrow> omp_team nt = nat nt"
  shows "map (map_option (panel_stores blksz rs cs)) (dlp_reorderb_u8s8s32o32 openmp omp_team blksz n k rs cs rntm) =
    dlp_reorder_ref_walk nat True 4 n k (bs_NR blksz) packb_min_NR (bs_NC blksz) (bs_KC blksz) rs cs (if openmp then rn_num_threads rntm else 1)"
proof -
  show ?thesis
    using assms(2) by (auto simp: dlp_reorderb_u8s8s32o32_def dlp_reorder_ref_walk_def Let_def tuned_thread_matches nt_def o_def)
qed

lemma map_Some_of_map_option: "map (map_option f) xs = map Some ys \<Longrightarrow> \<exists>zs. xs = map Some zs \<and> ys = map f zs"
proof (induction xs arbitrary: ys)
  case (Cons x xs)
  then obtain y ys' where y: "ys = y # ys'" "map_option f x = Some y" "map (map_option f) xs = map Some ys'" by (cases ys) auto
  obtain zs where "xs = map Some zs" "ys' = map f zs" using Cons.IH [OF y(3)] by blast
  moreover obtain z where "x = Some z" "f z = y" using y(2) by auto
  ultimately show ?case using y(1) by (intro exI [of _ "z # zs"]) simp
qed simp

lemma tuned_accepts:
  assumes "aocl_reorder_u8s8s32os32 zen4 omp_team env st order tr mat_type inp outp k n ldb md = (st', Inr w)"
  shows "AOCL_DLP_REORDER_CHECK order tr mat_type inp outp k n ldb = (0, DLP_CLSC_SUCCESS)"
proof -
  obtain pos err where chk: "AOCL_DLP_REORDER_CHECK order tr mat_type inp outp k n ldb = (pos, err)" by (rule prod.exhaust)
  have "err = DLP_CLSC_SUCCESS"
    using assms by (auto simp: aocl_reorder_u8s8s32os32_def Let_def chk split: if_splits)
  then show ?thesis using chk reorder_check_iff by metis
qed

lemma tuned_result:
  assumes "aocl_reorder_u8s8s32os32 zen4 omp_team env st order tr mat_type inp outp k n ldb md = (st', Inr (Packs blksz calls))"
    and "dlp_reorder_plain_strides order (dlp_param_map_netlib_to_dlp_trans tr) ldb = (rs, cs)"
  shows "dim_ok k" "dim_ok n" "\<not> (zen4 \<and> n = 1)"
    and "\<exists>c rntm. reorder_context True env n k rs cs md = Inr c \<and> blksz = cx_blksz c \<and>
      calls = dlp_reorderb_u8s8s32o32 (ae_openmp env) omp_team blksz n k rs cs rntm"
proof -
  note chk = tuned_accepts [OF assms(1)]
  note ok = chk [unfolded reorder_check_iff]
  show "dim_ok k" "dim_ok n" using ok by auto
  have str: "reorder_strides order (dlp_param_map_netlib_to_dlp_trans tr) ldb = Some (rs, cs)"
    using ok assms(2) by (simp add: reorder_strides_eq)
  obtain st1 r where r: "dlp_rntm_init_from_global (ae_rt env) st (ae_rntm env) = (st1, r)" by (rule prod.exhaust)
  show "\<not> (zen4 \<and> n = 1)"
    using assms(1) by (auto simp: aocl_reorder_u8s8s32os32_def Let_def chk str split: if_splits)
  show "\<exists>c rntm. reorder_context True env n k rs cs md = Inr c \<and> blksz = cx_blksz c \<and>
      calls = dlp_reorderb_u8s8s32o32 (ae_openmp env) omp_team blksz n k rs cs rntm"
    using assms(1) by (auto simp: aocl_reorder_u8s8s32os32_def Let_def chk str r split: if_splits sum.splits)
qed

text \<open>Asking for a pack kernel only adds an error.\<close>

lemma tuned_context: "reorder_context True env n k rs cs md = Inr c \<Longrightarrow> reorder_context False env n k rs cs md = Inr c"
  by (auto simp: reorder_context_def Let_def split: prod.splits option.splits if_splits)

section \<open>Properties of the reorder calls\<close>

lemma vector_bytes:
  assumes "0 < k" "interleaves sched 1 (\<lambda>t. [reorder_vector k rs] ! t)" "interleaves sched' 1 (\<lambda>t. [unreorder_vector k rs] ! t)"
  shows "fold (exec_op 1 (fold (exec_op 1 src) (map snd sched) dst)) (map snd sched') out a =
    (if \<exists>kr \<in> {0..<k}. a = kr * rs then src a else out a)"
proof -
  have set: "set (map snd sched) = {Copy i (i * rs) | i. 0 \<le> i \<and> i < k}" "set (map snd sched') = {Copy (i * rs) i | i. 0 \<le> i \<and> i < k}"
    unfolding schedule_set [OF assms(2)] schedule_set [OF assms(3)] by (auto simp: reorder_vector_def unreorder_vector_def)
  have packed: "fold (exec_op 1 src) (map snd sched) dst i = src (i * rs)" if i: "0 \<le> i" "i < k" for i
  proof -
    have "final_op (map snd sched) i \<noteq> None" unfolding final_op_None set using i by force
    then obtain op where op: "final_op (map snd sched) i = Some op" by blast
    then have "op = Copy i (i * rs)" using final_op_in [OF op] unfolding set by auto
    then show ?thesis using op by (simp add: run_ops_at)
  qed
  show ?thesis
  proof (cases "final_op (map snd sched') a")
    case None
    then have "\<not> (\<exists>kr \<in> {0..<k}. a = kr * rs)" unfolding final_op_None set by fastforce
    then show ?thesis using None by (simp add: run_ops_at)
  next
    case (Some op)
    have op: "op \<in> set (map snd sched')" "op_dst op = a" using final_op_in [OF Some] by auto
    obtain i where i: "0 \<le> i" "i < k" "op = Copy (i * rs) i" using op(1) unfolding set by blast
    then have i: "0 \<le> i" "i < k" "op = Copy a i" "i * rs = a" using op(2) by auto
    have "fold (exec_op 1 p) (map snd sched') out a = p i" for p using Some by (simp add: run_ops_at i(3))
    moreover have "\<exists>kr \<in> {0..<k}. a = kr * rs" using i by (intro bexI [of _ i]) auto
    ultimately show ?thesis using packed [OF i(1,2)] i(4) by simp
  qed
qed

text \<open>C8: Reordering and un-reordering cancel, at the level of the two entry points. When both calls accept the same matrix
  description, each thread of each team ends, and whatever the sizes of the two teams and the interleavings of
  their stores, the un-reordered matrix has the bytes of the original in every element of the \<open>k\<close> by
  \<open>n\<close> matrix, and every other byte of the output (the gaps the leading dimension leaves) is untouched. The thread settings may have
  changed between the calls.\<close>

theorem reorder_roundtrip:
  assumes "aocl_reorder_u8s8s32os32_reference omp_team env st order tr mat_type inp outp k n ldb md = (st1, Inr work)"
    and "aocl_unreorder_u8s8s32os32_reference omp_team env st' order tr mat_type inp' outp' k n ldb md = (st2, Inr work')"
    and "dlp_reorder_plain_strides order (dlp_param_map_netlib_to_dlp_trans tr) ldb = (rs, cs)" "\<And>x. 0 < omp_team x"
  shows "\<exists>ops ops'. work = map Some ops \<and> work' = map Some ops' \<and>
    (\<forall>sched sched' src dst out a.
       interleaves sched (length ops) (\<lambda>t. ops ! t) \<and> interleaves sched' (length ops') (\<lambda>t. ops' ! t) \<longrightarrow>
       fold (exec_op 1 (fold (exec_op 1 src) (map snd sched) dst)) (map snd sched') out a =
         (if \<exists>kr \<in> {0..<k}. \<exists>j \<in> {0..<n}. a = kr * rs + j * cs then src a else out a))"
proof -
  note r = reference_result [OF assms(1,3)] and u = unreference_result [OF assms(2,3)]
  have d: "0 < k" "0 < n" using r(1,2) by (auto simp: dim_ok_def)
  show ?thesis
  proof (cases "n = 1")
    case True
    have "{0..<n} = {0}" using True by auto
    then show ?thesis
      using r(3) u True vector_bytes [OF d(1)]
      by (intro exI [of _ "[reorder_vector k rs]"] exI [of _ "[unreorder_vector k rs]"]) simp
  next
    case False
    then obtain c nt nt' where c: "reorder_context False env n k rs cs md = Inr c"
      "work = dlp_reorder_ref_reorderb omp_team 4 n k (bs_NR (cx_blksz c)) packb_min_NR (bs_NC (cx_blksz c)) (bs_KC (cx_blksz c)) rs cs nt"
      "work' = dlp_reorder_ref_unreorderb omp_team 4 n k (bs_NR (cx_blksz c)) packb_min_NR (bs_NC (cx_blksz c)) (bs_KC (cx_blksz c)) rs cs nt'"
      using r(3) u by auto
    have rb: "reorder_blocks (bs_NR (cx_blksz c)) packb_min_NR (bs_NC (cx_blksz c)) (bs_KC (cx_blksz c)) 4 n k"
      by (rule reorder_context_blocks [OF c(1)]) (use d in simp_all)
    obtain ops where ops: "work = map Some ops"
      unfolding c(2) dlp_reorder_ref_reorderb_def using ref_walk_ends [OF rb] by blast
    obtain ops' where ops': "work' = map Some ops'"
      unfolding c(3) dlp_reorder_ref_unreorderb_def using ref_walk_ends [OF rb] by blast
    note rt = roundtrip_bytes [where es = 1 and omp_team = omp_team, OF _ _ _ _ _ _ assms(4) ops [unfolded c(2)] _ ops' [unfolded c(3)]]
    have "fold (exec_op 1 (fold (exec_op 1 src) (map snd sched) dst)) (map snd sched') out a =
         (if \<exists>kr \<in> {0..<k}. \<exists>j \<in> {0..<n}. a = kr * rs + j * cs then src a else out a)"
      if "interleaves sched (length ops) (\<lambda>t. ops ! t)" "interleaves sched' (length ops') (\<lambda>t. ops' ! t)" for sched sched' src dst out a
      using rt [OF _ _ _ _ _ _ that] rb d by (simp add: reorder_blocks_def)
    then show ?thesis using ops ops' by blast
  qed
qed

text \<open>A build with the tuned kernels and its pack kernel accepts every matrix of legal size.\<close>

lemma example_table:
  "cx_blksz (dlp_gemm_get_global_cntx_obj (init_table (example_cpu False True False)) 1) = \<lparr>bs_MC = 144, bs_NC = 1024, bs_KC = 2048, bs_NR = 64, bs_MR = 6\<rparr>"
  "dlp_gemm_validate_hints (Some (dlp_gemm_get_global_cntx_obj (init_table (example_cpu False True False)) 1)) = DLP_CLSC_SUCCESS"
  by code_simp+

lemma example_context: "\<exists>c. reorder_context tuned example_api n k rs cs None = Inr c"
  by (simp add: reorder_context_def Let_def dlp_gemm_upd_cntx_with_metadata_def example_table
      dlp_init_and_get_packb_kernel_hndl_def getKernelDatatype_valid_def example_api_def dlp_gemm_validate_metadata_with_lcntx_def
      dlp_reorder_ref_blocks_legal_def packb_min_NR_def)

lemma example_reorder_check:
  assumes "0 < k" "k < 2 ^ 31" "0 < n" "n < 2 ^ 31"
  shows "AOCL_DLP_REORDER_CHECK (CHR ''r'') (CHR ''n'') (CHR ''B'') 8 16 k n n = (0, DLP_CLSC_SUCCESS)"
  unfolding reorder_check_iff using assms by (simp add: accept_defs row_char_def notrans_char_def mat_char_def)

lemma example_strides: "dlp_reorder_plain_strides (CHR ''r'') (dlp_param_map_netlib_to_dlp_trans (CHR ''n'')) n = (n, 1)"
  by code_simp

lemma size_fits:
  assumes "0 \<le> rows" "rows < 2 ^ 32" "0 \<le> cols" "cols < 2 ^ 32"
  shows "\<exists>sz. dlp_reorder_size_bytes rows cols 1 0 = Some sz"
proof -
  define p where "p = rows * cols"
  have "p < 2 ^ 32 * 2 ^ 32" unfolding p_def using assms by (intro mult_strict_mono) auto
  moreover have "0 \<le> p" using assms by (simp add: p_def)
  ultimately have "p < 2 ^ 64" "uint (of_int p :: msz_t) = p" by (simp_all add: unsigned_of_int take_bit_int_eq_self)
  then have "dlp_reorder_size_bytes rows cols 1 0 = Some (of_int p)"
    using assms by (subst size_bytes_exact) (simp_all add: p_def [symmetric])
  then show ?thesis ..
qed

lemma example_reorders:
  assumes "0 < k" "k < 2 ^ 31" "0 < n" "n < 2 ^ 31"
  shows "\<exists>st' work. aocl_reorder_u8s8s32os32_reference omp_team example_api st (CHR ''r'') (CHR ''n'') (CHR ''B'') 8 16 k n n None = (st', Inr work)"
    and "\<exists>st' work. aocl_unreorder_u8s8s32os32_reference omp_team example_api st (CHR ''r'') (CHR ''n'') (CHR ''B'') 8 16 k n n None = (st', Inr work)"
    and "2 \<le> n \<Longrightarrow> \<exists>st' b calls. aocl_reorder_u8s8s32os32 True omp_team example_api st (CHR ''r'') (CHR ''n'') (CHR ''B'') 8 16 k n n None = (st', Inr (Packs b calls))"
    and "\<exists>sz. aocl_get_reorder_buf_size_u8s8s32os32 True example_api (CHR ''r'') (CHR ''n'') (CHR ''B'') k n None = Inr sz"
proof -
  note chk = example_reorder_check [OF assms]
  obtain st1 r where r: "dlp_rntm_init_from_global (ae_rt example_api) st (ae_rntm example_api) = (st1, r)" by (rule prod.exhaust)
  have B: "dlp_param_map_char_to_lpmat_type (CHR ''B'') = B_MATRIX" by code_simp
  have str: "reorder_strides (CHR ''r'') (dlp_param_map_netlib_to_dlp_trans (CHR ''n'')) n = Some (n, 1)"
    by (simp add: reorder_strides_eq row_char_def example_strides)
  obtain c where c: "\<And>tuned. reorder_context tuned example_api n k n 1 None = Inr c"
    using example_context [of True n k n 1] tuned_context by (metis (full_types))
  show "\<exists>st' work. aocl_reorder_u8s8s32os32_reference omp_team example_api st (CHR ''r'') (CHR ''n'') (CHR ''B'') 8 16 k n n None = (st', Inr work)"
    by (simp add: aocl_reorder_u8s8s32os32_reference_def chk str B r c)
  show "\<exists>st' work. aocl_unreorder_u8s8s32os32_reference omp_team example_api st (CHR ''r'') (CHR ''n'') (CHR ''B'') 8 16 k n n None = (st', Inr work)"
    by (simp add: aocl_unreorder_u8s8s32os32_reference_def unreorder_check_eq chk example_strides B r c)
  show "\<exists>st' b calls. aocl_reorder_u8s8s32os32 True omp_team example_api st (CHR ''r'') (CHR ''n'') (CHR ''B'') 8 16 k n n None = (st', Inr (Packs b calls))"
    if "2 \<le> n"
    using that by (simp add: aocl_reorder_u8s8s32os32_def chk str B r c) (simp add: example_api_def example_cpu_def)
  have sz: "AOCL_DLP_REORDER_BUF_SIZE_CHECK (CHR ''r'') (CHR ''n'') (CHR ''B'') k n = (0, DLP_CLSC_SUCCESS)"
    unfolding size_check_iff using assms by (simp add: accept_defs row_char_def notrans_char_def mat_char_def)
  have bytes: "\<exists>sz. dlp_reorder_size_bytes (if n = 1 then k else dlp_make_multiple_of_n k 4) (if n = 1 then 1 else dlp_make_multiple_of_n n 16) 1 0 = Some sz"
    by (rule size_fits) (use assms make_multiple_bounds [of n 16] make_multiple_bounds [of k 4] in auto)
  show "\<exists>sz. aocl_get_reorder_buf_size_u8s8s32os32 True example_api (CHR ''r'') (CHR ''n'') (CHR ''B'') k n None = Inr sz"
    using bytes by (elim exE) (simp add: aocl_get_reorder_buf_size_u8s8s32os32_def Let_def sz B dlp_gemm_upd_cntx_with_metadata_def example_table
      dlp_gemm_validate_metadata_with_lcntx_def dlp_reorder_ref_blocks_legal_def packb_min_NR_def example_api_def)
qed

theorem reorder_roundtrip_witness:
  "\<exists>st1 st2 ops ops'.
     aocl_reorder_u8s8s32os32_reference (\<lambda>_. 3) example_api (rt_global_init, rt_local_init) (CHR ''r'') (CHR ''n'') (CHR ''B'') 8 16 9 100 100 None =
       (st1, Inr (map Some ops)) \<and>
     aocl_unreorder_u8s8s32os32_reference (\<lambda>_. 3) example_api st1 (CHR ''r'') (CHR ''n'') (CHR ''B'') 8 16 9 100 100 None = (st2, Inr (map Some ops')) \<and>
     fold (exec_op 1 (fold (exec_op 1 (\<lambda>a. of_int a)) (map snd (one_by_one (length ops) (\<lambda>t. ops ! t))) (\<lambda>_. 0)))
       (map snd (one_by_one (length ops') (\<lambda>t. ops' ! t))) (\<lambda>_. 0) 123 = 123"
proof -
  let ?st = "(rt_global_init, rt_local_init)"
  have "\<exists>st1 work. aocl_reorder_u8s8s32os32_reference (\<lambda>_. 3) example_api ?st (CHR ''r'') (CHR ''n'') (CHR ''B'') 8 16 9 100 100 None = (st1, Inr work)"
    by (rule example_reorders(1)) simp_all
  then obtain st1 work where r:
    "aocl_reorder_u8s8s32os32_reference (\<lambda>_. 3) example_api ?st (CHR ''r'') (CHR ''n'') (CHR ''B'') 8 16 9 100 100 None = (st1, Inr work)" by (elim exE)
  have "\<exists>st2 work. aocl_unreorder_u8s8s32os32_reference (\<lambda>_. 3) example_api st1 (CHR ''r'') (CHR ''n'') (CHR ''B'') 8 16 9 100 100 None = (st2, Inr work)"
    by (rule example_reorders(2)) simp_all
  then obtain st2 work' where u:
    "aocl_unreorder_u8s8s32os32_reference (\<lambda>_. 3) example_api st1 (CHR ''r'') (CHR ''n'') (CHR ''B'') 8 16 9 100 100 None = (st2, Inr work')" by (elim exE)
  obtain ops ops' where o: "work = map Some ops" "work' = map Some ops'" and rt:
    "\<forall>sched sched' src dst out a. interleaves sched (length ops) (\<lambda>t. ops ! t) \<and> interleaves sched' (length ops') (\<lambda>t. ops' ! t) \<longrightarrow>
       fold (exec_op 1 (fold (exec_op 1 src) (map snd sched) dst)) (map snd sched') out a =
         (if \<exists>kr \<in> {0..<9}. \<exists>j \<in> {0..<100}. a = kr * 100 + j * 1 then src a else out a)"
    using reorder_roundtrip [OF r u example_strides zero_less_numeral] by (elim exE conjE)
  have "\<exists>kr \<in> {0..<9}. \<exists>j \<in> {0..<100}. (123 :: md_t) = kr * 100 + j * 1" by (intro bexI [of _ 1] bexI [of _ 23]) auto
  then have "fold (exec_op 1 (fold (exec_op 1 (\<lambda>a. of_int a)) (map snd (one_by_one (length ops) (\<lambda>t. ops ! t))) (\<lambda>_. 0)))
       (map snd (one_by_one (length ops') (\<lambda>t. ops' ! t))) (\<lambda>_. 0) 123 = 123"
    by (subst rt [rule_format, OF conjI [OF one_by_one_interleaves one_by_one_interleaves]]) simp
  then show ?thesis using r u unfolding o
    by (intro exI [of _ st1] exI [of _ st2] exI [of _ ops] exI [of _ ops'] conjI)
qed

text \<open>The stores of the threads of a tuned call.\<close>

fun work_stores :: "md_t \<Rightarrow> md_t \<Rightarrow> reorder_work \<Rightarrow> elem_op list option list" where
  "work_stores rs_b cs_b (Vector ops) = [Some ops]"
| "work_stores rs_b cs_b (Packs blksz calls) = map (map_option (panel_stores blksz rs_b cs_b)) calls"

text \<open>A store inside a buffer of \<open>bytes\<close> bytes that reads an element of the \<open>k\<close> by \<open>n\<close> matrix, and threads that end
  with only such stores.\<close>

definition store_inside :: "int \<Rightarrow> md_t \<Rightarrow> md_t \<Rightarrow> md_t \<Rightarrow> md_t \<Rightarrow> elem_op \<Rightarrow> bool" where
  "store_inside bytes k n rs cs op \<longleftrightarrow> 0 \<le> op_dst op \<and> op_dst op < bytes \<and>
     (case op of Zero _ \<Rightarrow> True | Copy _ s \<Rightarrow> \<exists>kr \<in> {0..<k}. \<exists>j \<in> {0..<n}. s = kr * rs + j * cs)"

definition stores_inside :: "int \<Rightarrow> md_t \<Rightarrow> md_t \<Rightarrow> md_t \<Rightarrow> md_t \<Rightarrow> elem_op list option list \<Rightarrow> bool" where
  "stores_inside bytes k n rs cs work \<longleftrightarrow>
     (\<forall>w \<in> set work. case w of None \<Rightarrow> False | Some ops \<Rightarrow> \<forall>op \<in> set ops. store_inside bytes k n rs cs op)"

lemma vector_inside:
  assumes "0 < k" "k \<le> bytes"
  shows "stores_inside bytes k 1 rs cs [Some (reorder_vector k rs)]"
proof -
  have "set (reorder_vector k rs) = {Copy i (i * rs) | i. 0 \<le> i \<and> i < k}" by (auto simp: reorder_vector_def)
  moreover have "store_inside bytes k 1 rs cs (Copy i (i * rs))" if "0 \<le> i" "i < k" for i
    unfolding store_inside_def elem_op.case op_dst.simps using that assms by (intro conjI bexI [of _ i] bexI [of _ 0]) auto
  ultimately show ?thesis by (auto simp: stores_inside_def)
qed

lemma slice_inside:
  assumes "reorder_blocks NR min_NR NC KC kf n k" "op \<in> set (reorder_blocks.slice_ops NR min_NR NC KC kf n k True rs cs (task_slice False n NR ways wid))"
  shows "store_inside (dlp_make_multiple_of_n n min_NR * dlp_make_multiple_of_n k kf) k n rs cs op"
proof -
  note dst = reorder_blocks.pack_slice_dst [OF assms, unfolded reorder_blocks.np_def [OF assms(1)] reorder_blocks.kp_def [OF assms(1)]]
  show ?thesis
  proof (cases op)
    case (Copy d s)
    obtain kr j where e: "0 \<le> kr" "kr < k" "0 \<le> j" "j < n" "s = kr * rs + j * cs"
      using reorder_blocks.pack_slice_source [OF assms(1) assms(2) [unfolded Copy]] by (elim exE conjE)
    show ?thesis unfolding store_inside_def Copy elem_op.case
      using dst Copy e by (intro conjI bexI [of _ kr] bexI [of _ j]) auto
  qed (use dst in \<open>simp add: store_inside_def\<close>)
qed

lemma walk_inside:
  assumes "reorder_blocks NR min_NR NC KC kf n k" "\<And>w. w \<in> set work \<Longrightarrow> \<exists>ways wid. w = ref_walk_thread True kf n k NR min_NR NC KC rs cs ways wid"
  shows "stores_inside (dlp_make_multiple_of_n n min_NR * dlp_make_multiple_of_n k kf) k n rs cs work"
  unfolding stores_inside_def
proof
  fix w assume "w \<in> set work"
  then obtain ways wid where "w = ref_walk_thread True kf n k NR min_NR NC KC rs cs ways wid" using assms(2) by blast
  then have w: "w = Some (reorder_blocks.slice_ops NR min_NR NC KC kf n k True rs cs (task_slice False n NR ways wid))"
    by (simp only: reorder_blocks.ref_walk_thread_eq [OF assms(1)])
  show "case w of None \<Rightarrow> False | Some ops \<Rightarrow> \<forall>op \<in> set ops.
      store_inside (dlp_make_multiple_of_n n min_NR * dlp_make_multiple_of_n k kf) k n rs cs op"
    unfolding w option.case using slice_inside [OF assms(1)] by blast
qed

lemma tuned_vector:
  assumes "aocl_reorder_u8s8s32os32 zen4 omp_team env st order tr mat_type inp outp k n ldb md = (st', Inr (Vector ops))"
    and "dlp_reorder_plain_strides order (dlp_param_map_netlib_to_dlp_trans tr) ldb = (rs, cs)"
  shows "zen4" "n = 1" "0 < k" "ops = reorder_vector k rs"
proof -
  note chk = tuned_accepts [OF assms(1)]
  note ok = chk [unfolded reorder_check_iff]
  show "0 < k" using ok by (auto simp: dim_ok_def)
  have str: "reorder_strides order (dlp_param_map_netlib_to_dlp_trans tr) ldb = Some (rs, cs)"
    using ok assms(2) by (simp add: reorder_strides_eq)
  obtain st1 r where r: "dlp_rntm_init_from_global (ae_rt env) st (ae_rntm env) = (st1, r)" by (rule prod.exhaust)
  show "zen4" "n = 1" "ops = reorder_vector k rs"
    using assms(1) by (auto simp: aocl_reorder_u8s8s32os32_def Let_def chk str r split: if_splits sum.splits)
qed





context reorder_blocks
begin

lemma pack_slice_col:
  assumes "op \<in> set (slice_ops True rs cs (task_slice False n NR ways wid))" "op_dst op = B_offset NR min_NR NC KC kf n k kr j"
    and e: "0 \<le> kr" "kr < k" "0 \<le> j" "j < n"
  shows "fst (task_slice False n NR ways wid) \<le> j \<and> j < snd (task_slice False n NR ways wid)"
proof -
  let ?r = "task_slice False n NR ways wid"
  obtain jc pc where j: "jc \<in> set (loop_points (fst ?r) (snd ?r) (chunk_next (snd ?r)))" "pc \<in> set (loop_points 0 k (\<lambda>pc. pc + KC))"
    and op: "op \<in> set (piece_ops True rs cs (snd ?r) jc pc)" using assms(1) by (auto simp: slice_ops_def)
  note sp = slice_pieces [OF j(1)]
  have pc: "KC dvd pc" "0 \<le> pc" "pc < k" using j(2) by (auto simp: depth_points)
  have "final_op (piece_ops True rs cs (snd ?r) jc pc) (B_offset NR min_NR NC KC kf n k kr j) \<noteq> None"
    unfolding final_op_None using op assms(2) by blast
  then have "in_piece jc (width (snd ?r) jc) pc (B_offset NR min_NR NC KC kf n k kr j)"
    unfolding piece_ops_def if_True piece_final [OF sp(1) pc] by (simp split: if_splits)
  then show ?thesis using elem_in_piece(2,3) [OF sp(1) pc e] sp(2,3) by auto
qed

end

text \<open>C40: What happens when OpenMP starts fewer threads than the tuned reorder asks for. The walk divides the columns by the number
  asked for, so the columns of a thread \<open>w\<close> that was not started are lost: the threads that run end, no error is
  reported, and none of their stores goes to the place of an element of those columns.\<close>

theorem short_team_leaves_columns:
  assumes "dlp_reorder_ref_blocks_legal (bs_NR b) packb_min_NR (bs_KC b) 4" "0 < bs_NC b" "bs_NR b dvd bs_NC b"
    and "0 < rn_num_threads rntm" "int (omp_team (rn_num_threads rntm)) \<le> w"
    and "dlp_thread_task_range \<lparr>ocomm_id = 0, n_way = rn_num_threads rntm, work_id = w\<rparr> n (bs_NR b) False = (lo, hi)"
    and "lo \<le> j" "j < hi" "0 \<le> kr" "kr < k" "0 \<le> n"
  shows "\<exists>ops. map (map_option (panel_stores b rs cs)) (dlp_reorderb_u8s8s32o32 True omp_team b n k rs cs rntm) = map Some ops \<and>
    (\<forall>op \<in> set (concat ops). op_dst op \<noteq> B_offset (bs_NR b) packb_min_NR (bs_NC b) (bs_KC b) 4 n k kr j)"
proof -
  let ?nt = "rn_num_threads rntm"
  have rb: "reorder_blocks (bs_NR b) packb_min_NR (bs_NC b) (bs_KC b) 4 n k" by unfold_locales (use assms in auto)
  let ?s = "\<lambda>t. task_slice False n (bs_NR b) ?nt (int t)"
  let ?ops = "map (\<lambda>t. reorder_blocks.slice_ops (bs_NR b) packb_min_NR (bs_NC b) (bs_KC b) 4 n k True rs cs (?s t)) [0..<omp_team ?nt]"
  have w: "fst (task_slice False n (bs_NR b) ?nt w) \<le> j" "j < snd (task_slice False n (bs_NR b) ?nt w)"
    using assms(6-8) by (simp_all add: task_range_eq_slice)
  have j: "0 \<le> j" "j < n" using w reorder_blocks.slice_facts(1,2) [OF rb, of ?nt w] by auto
  have "map (map_option (panel_stores b rs cs)) (dlp_reorderb_u8s8s32o32 True omp_team b n k rs cs rntm) = map Some ?ops"
    using assms(4) by (simp add: dlp_reorderb_u8s8s32o32_def Let_def o_def tuned_thread_matches reorder_blocks.ref_walk_thread_eq [OF rb])
  moreover have "op_dst op \<noteq> B_offset (bs_NR b) packb_min_NR (bs_NC b) (bs_KC b) 4 n k kr j" if mem: "op \<in> set (concat ?ops)" for op
  proof
    assume d: "op_dst op = B_offset (bs_NR b) packb_min_NR (bs_NC b) (bs_KC b) 4 n k kr j"
    obtain t where t: "t < omp_team ?nt" "op \<in> set (reorder_blocks.slice_ops (bs_NR b) packb_min_NR (bs_NC b) (bs_KC b) 4 n k True rs cs (?s t))"
      using mem by auto
    have "fst (?s t) \<le> j \<and> j < snd (?s t)" by (rule reorder_blocks.pack_slice_col [OF rb t(2) d assms(9,10) j])
    moreover have "\<exists>!v. fst (task_slice False n (bs_NR b) ?nt v) \<le> j \<and> j < snd (task_slice False n (bs_NR b) ?nt v)"
      using high_edge.one_owner [OF assms(11) _ assms(4) j] blocks_legalD(1) [OF assms(1)] by blast
    ultimately have "int t = w" using w by blast
    then show False using t(1) assms(5) by simp
  qed
  ultimately show ?thesis by blast
qed

theorem short_team_leaves_columns_witness:
  "\<exists>ops. map (map_option (panel_stores \<lparr>bs_MC = 144, bs_NC = 1024, bs_KC = 2048, bs_NR = 64, bs_MR = 6\<rparr> 128 1))
       (dlp_reorderb_u8s8s32o32 True (\<lambda>_. 1) \<lparr>bs_MC = 144, bs_NC = 1024, bs_KC = 2048, bs_NR = 64, bs_MR = 6\<rparr> 128 4 128 1
         (DLP_CLASSIC_RNTM_INITIALIZER\<lparr>rn_num_threads := 2\<rparr>)) = map Some ops \<and>
     filter (\<lambda>op. op_dst op = B_offset 64 packb_min_NR 1024 2048 4 128 4 0 70) (concat ops) = []"
proof -
  let ?b = "\<lparr>bs_MC = 144, bs_NC = 1024, bs_KC = 2048, bs_NR = 64, bs_MR = 6\<rparr>" and ?r = "DLP_CLASSIC_RNTM_INITIALIZER\<lparr>rn_num_threads := 2\<rparr>"
  have r: "dlp_thread_task_range \<lparr>ocomm_id = 0, n_way = rn_num_threads ?r, work_id = 1\<rparr> 128 (bs_NR ?b) False = (64, 128)" by code_simp
  have "\<exists>ops. map (map_option (panel_stores ?b 128 1)) (dlp_reorderb_u8s8s32o32 True (\<lambda>_. 1) ?b 128 4 128 1 ?r) = map Some ops \<and>
      (\<forall>op \<in> set (concat ops). op_dst op \<noteq> B_offset (bs_NR ?b) packb_min_NR (bs_NC ?b) (bs_KC ?b) 4 128 4 0 70)"
    by (rule short_team_leaves_columns [where w = 1, OF _ _ _ _ _ r]) (simp_all add: dlp_reorder_ref_blocks_legal_def packb_min_NR_def)
  then show ?thesis by (simp add: filter_empty_conv)
qed

end
