(* ===== verification/Fp_Runs.thy ===== *)
theory Fp_Runs
  imports Driver_Gemv Reorder_Ref
begin

unbundle bit_operations_syntax

text \<open>
  What the drivers of the floating-point GEMMs share: the arguments, the list of what a thread does outside itself, the
  steps of the depth on an element of C, and what a whole team leaves there.

  The numbers in the matrices are not modelled. A kernel call is given by the block it works on, the addresses and
  strides of its operands, and which \<open>beta\<close> it gets, the caller's or one. Addresses are offsets in elements, buffer sizes
  are in bytes. As floating-point addition does not associate, what matters for the result is the sequence of steps each element
  of C sees; the contract \<open>fp_kernel\<close> of the kernels says that an element is a function of this sequence.
\<close>

section \<open>Arguments and actions\<close>

record fp_args =
  fa_m :: md_t
  fa_n :: md_t
  fa_k :: md_t
  fa_rs_a :: md_t
  fa_cs_a :: md_t
  fa_mtag_a :: AOCL_DLP_MEMORY_TAG
  fa_rs_b :: md_t
  fa_cs_b :: md_t
  fa_mtag_b :: AOCL_DLP_MEMORY_TAG
  fa_rs_c :: md_t
  fa_cs_c :: md_t
  fa_c_downscale :: DLP_TYPE

text \<open>Pointers to \<open>float\<close>, \<open>bfloat16\<close> or \<open>float16\<close>: into a matrix of the caller, or into the buffer of the thread
  or its group.\<close>

datatype fp_pointer = Null | Matrix md_t | Buffer md_t

fun fp_plus :: "fp_pointer \<Rightarrow> md_t \<Rightarrow> fp_pointer" where
  "fp_plus Null off = Null"
| "fp_plus (Matrix x) off = Matrix (x + off)"
| "fp_plus (Buffer x) off = Buffer (x + off)"

datatype fp_beta = Beta | One

record fp_call =
  fc_mc0 :: md_t
  fc_nr0 :: md_t
  fc_kc0 :: md_t
  fc_pc :: md_t
  fc_a :: fp_pointer
  fc_a_strides :: "md_t \<times> md_t \<times> md_t"
  fc_b :: fp_pointer
  fc_b_strides :: "md_t \<times> md_t"
  fc_b_panel :: "md_t \<times> md_t"
  fc_c :: fp_pointer
  fc_c_strides :: "md_t \<times> md_t"
  fc_beta0 :: fp_beta
  fc_attr :: post_op_attr

text \<open>\<open>Get\<close> allocates and \<open>Drop\<close> frees, sizes in bytes. \<open>Fill\<close> calls a packing kernel: source offset, place in the
  buffer, rows or columns, depth. \<open>Widen_b\<close> converts a block of B to \<open>float\<close>: source offset, place, depth, columns, row stride
  of the result; \<open>Widen_a\<close>: source offset, rows, depth.\<close>

datatype fp_action =
    Get_b md_t | Share_b md_t | Meet md_t md_t | Fill_b md_t md_t md_t md_t | Widen_b md_t md_t md_t md_t md_t
  | Get_a md_t | Fill_a md_t md_t md_t | Widen_a md_t md_t md_t | Get_c md_t | Compute fp_call | Drop_b | Drop_a | Drop_c

text \<open>Stride pairs the packing kernels set, for source strides, width and depth.\<close>

type_synonym pack_strides = "md_t \<Rightarrow> md_t \<Rightarrow> md_t \<Rightarrow> md_t \<Rightarrow> md_t \<times> md_t"

text \<open>\<open>x += (x & 0x1)\<close>.\<close>

definition even_up :: "md_t \<Rightarrow> md_t" where
  "even_up x = x + (x AND 1)"

text \<open>\<open>c_downscale < DLP_F32\<close>.\<close>

definition below_F32 :: "DLP_TYPE \<Rightarrow> bool" where
  "below_F32 t \<longleftrightarrow> t \<noteq> DLP_F32 \<and> t \<noteq> DLP_MAX"

text \<open>The panel a chunk of columns lies in: \<open>jc_cur_loop\<close>, \<open>jc_cur_loop_rem\<close>, \<open>nc0\<close> and \<open>n_sub_updated\<close>; and where the
  next chunk begins.\<close>

definition fp_panel :: "fp_args \<Rightarrow> md_t \<Rightarrow> md_t \<Rightarrow> md_t \<Rightarrow> md_t \<Rightarrow> md_t \<times> md_t \<times> md_t \<times> md_t" where
  "fp_panel g NC min_NR jc jc_end =
     (let nc0 = dlp_min (jc_end - jc) NC
      in if fa_mtag_b g = REORDERED
         then dlp_gemm_get_B_panel_reordered_start_offset_width jc (fa_n g) NC min_NR nc0
         else (jc, 0, nc0, 0))"

definition fp_next :: "fp_args \<Rightarrow> md_t \<Rightarrow> md_t \<Rightarrow> md_t \<Rightarrow> md_t" where
  "fp_next g NC min_NR jc =
     (let panel_start = fst (dlp_gemm_get_B_panel_reordered_start_offset_width jc (fa_n g) NC min_NR NC)
      in (if fa_mtag_b g = REORDERED then dlp_gemm_adjust_B_panel_reordered_jc jc panel_start else jc) + NC)"

definition no_buffers :: drv_buffers where
  "no_buffers = \<lparr>have_b = False, have_a = False, have_c = False\<rparr>"

section \<open>The steps on an element of C\<close>

type_synonym fp_step = "md_t \<times> md_t \<times> fp_beta \<times> bool \<times> bool"

definition fp_touches :: "fp_call \<Rightarrow> md_t \<Rightarrow> md_t \<Rightarrow> bool" where
  "fp_touches c i j \<longleftrightarrow> post_op_c_i (fc_attr c) \<le> i \<and> i < post_op_c_i (fc_attr c) + fc_mc0 c
     \<and> post_op_c_j (fc_attr c) \<le> j \<and> j < post_op_c_j (fc_attr c) + fc_nr0 c"

fun fp_calls :: "fp_action list \<Rightarrow> fp_call list" where
  "fp_calls [] = []"
| "fp_calls (Compute c # as) = c # fp_calls as"
| "fp_calls (_ # as) = fp_calls as"

definition step_of :: "fp_call \<Rightarrow> fp_step" where
  "step_of c = (fc_pc c, fc_kc0 c, fc_beta0 c, is_first_k (fc_attr c), is_last_k (fc_attr c))"

definition fp_steps :: "md_t \<Rightarrow> md_t \<Rightarrow> fp_action list \<Rightarrow> fp_step list" where
  "fp_steps i j as = map step_of (filter (\<lambda>c. fp_touches c i j) (fp_calls as))"

text \<open>The step of one depth block, and all of them in order.\<close>

definition depth_block_step :: "fp_args \<Rightarrow> md_t \<Rightarrow> md_t \<Rightarrow> fp_step" where
  "depth_block_step g KC pc = (pc, dlp_min (fa_k g - pc) KC, if pc = 0 then Beta else One, pc = 0, pc + KC \<ge> fa_k g)"

definition all_blocks :: "fp_args \<Rightarrow> md_t \<Rightarrow> fp_step list" where
  "all_blocks g KC = map (depth_block_step g KC) (loop_points 0 (fa_k g) (\<lambda>pc. pc + KC))"

definition one_block :: "fp_args \<Rightarrow> fp_step list" where
  "one_block g = [(0, fa_k g, Beta, True, True)]"

lemma fp_calls_append [simp]: "fp_calls (xs @ ys) = fp_calls xs @ fp_calls ys"
  by (induction xs rule: fp_calls.induct) simp_all

lemma fp_steps_append [simp]: "fp_steps i j (xs @ ys) = fp_steps i j xs @ fp_steps i j ys"
  by (simp add: fp_steps_def)

lemma fp_steps_Nil [simp]: "fp_steps i j [] = []"
  by (simp add: fp_steps_def)

lemma fp_steps_Compute:
  "fp_steps i j (Compute c # as) = (if fp_touches c i j then [step_of c] else []) @ fp_steps i j as"
  by (simp add: fp_steps_def)

fun no_compute :: "fp_action \<Rightarrow> bool" where
  "no_compute (Compute c) \<longleftrightarrow> False"
| "no_compute _ \<longleftrightarrow> True"

lemma fp_steps_quiet: "list_all no_compute as \<Longrightarrow> fp_steps i j as = []"
proof (induction as)
  case (Cons a as)
  then show ?case by (cases a) (simp_all add: fp_steps_def)
qed simp

section \<open>What a loop yields\<close>

text \<open>The run ends, all it does satisfies \<open>P\<close>, and its steps on the element are the given ones.\<close>

definition yields :: "(fp_action \<Rightarrow> bool) \<Rightarrow> md_t \<Rightarrow> md_t \<Rightarrow> ('s \<times> fp_action list) option \<Rightarrow> fp_step list \<Rightarrow> bool" where
  "yields P i j r Y \<longleftrightarrow> (\<exists>s xs. r = Some (s, xs) \<and> list_all P xs \<and> fp_steps i j xs = Y)"

lemma yields_Some [simp]: "yields P i j (Some (s, xs)) Y \<longleftrightarrow> list_all P xs \<and> fp_steps i j xs = Y"
  by (simp add: yields_def)

lemma yields_map:
  assumes "yields P i j r Y" "list_all P pre" "list_all no_compute pre"
  shows "yields P i j (map_option (\<lambda>(s, xs). (F s, pre @ xs)) r) Y"
  using assms fp_steps_quiet [of pre i j] by (auto simp: yields_def)

lemma yields_loop:
  assumes "\<And>p s. I p \<Longrightarrow> p < e \<Longrightarrow> yields P i j (body p s) (out p)" "\<And>p. I p \<Longrightarrow> p < e \<Longrightarrow> p < nxt p \<and> I (nxt p)" "I p0"
  shows "yields P i j (for_loop p0 e nxt body s) (concat (map out (loop_points p0 e nxt)))"
  using assms(3)
proof (induction "nat (e - p0)" arbitrary: p0 s rule: less_induct)
  case less
  show ?case
  proof (cases "p0 < e")
    case True
    then obtain s' xs where b: "body p0 s = Some (s', xs)" "list_all P xs" "fp_steps i j xs = out p0"
      using assms(1) [OF less.prems True, of s] by (auto simp: yields_def)
    have up: "p0 < nxt p0" "I (nxt p0)" using assms(2) [OF less.prems True] by auto
    have "yields P i j (for_loop (nxt p0) e nxt body s') (concat (map out (loop_points (nxt p0) e nxt)))"
      by (rule less.hyps) (use up True in auto)
    then show ?thesis using True up b by (subst for_loop.simps, subst loop_points.simps) (auto simp: yields_def)
  next
    case False
    then show ?thesis by (simp add: for_loop.simps loop_points.simps)
  qed
qed

lemma yields_cover:
  assumes "\<And>p s. I p \<Longrightarrow> p < e \<Longrightarrow> yields P i j (body p s) (if p \<le> x \<and> x < hi p then ys else [])"
    and "\<And>p. I p \<Longrightarrow> p < e \<Longrightarrow> p < nxt p \<and> I (nxt p) \<and> hi p = min (nxt p) e" and "I p0"
  shows "yields P i j (for_loop p0 e nxt body s) (if p0 \<le> x \<and> x < e then ys else [])"
proof -
  let ?I = "\<lambda>p. p0 \<le> p \<and> I p"
  have "yields P i j (for_loop p0 e nxt body s) (concat (map (\<lambda>p. if p \<le> x \<and> x < hi p then ys else []) (loop_points p0 e nxt)))"
    by (rule yields_loop [where I = I]) (use assms in auto)
  moreover have "concat (map (\<lambda>p. if p \<le> x \<and> x < hi p then ys else []) (loop_points p e nxt)) = (if p \<le> x \<and> x < e then ys else [])"
    if "I p" for p using that
  proof (induction "nat (e - p)" arbitrary: p rule: less_induct)
    case less
    show ?case
    proof (cases "p < e")
      case True
      note n = assms(2) [OF less.prems True]
      have "nat (e - nxt p) < nat (e - p)" using n True by simp
      then have "concat (map (\<lambda>p. if p \<le> x \<and> x < hi p then ys else []) (loop_points (nxt p) e nxt)) = (if nxt p \<le> x \<and> x < e then ys else [])"
        using less.hyps n by blast
      then show ?thesis using n True by (subst loop_points.simps) auto
    qed (auto simp: loop_points.simps)
  qed
  ultimately show ?thesis using assms(3) by simp
qed

lemma yields_depth:
  assumes "\<And>pc s. KC dvd pc \<Longrightarrow> 0 \<le> pc \<Longrightarrow> pc < fa_k g \<Longrightarrow> yields P i j (body pc s) (if inb then [depth_block_step g KC pc] else [])" "0 < KC"
  shows "yields P i j (for_loop 0 (fa_k g) (\<lambda>pc. pc + KC) body s) (if inb then all_blocks g KC else [])"
proof -
  have "yields P i j (for_loop 0 (fa_k g) (\<lambda>pc. pc + KC) body s)
      (concat (map (\<lambda>pc. if inb then [depth_block_step g KC pc] else []) (loop_points 0 (fa_k g) (\<lambda>pc. pc + KC))))"
    by (rule yields_loop [where I = "\<lambda>pc. KC dvd pc \<and> 0 \<le> pc"]) (use assms in auto)
  moreover have "concat (map (\<lambda>pc. if inb then [depth_block_step g KC pc] else []) xs) = (if inb then map (depth_block_step g KC) xs else [])" for xs
    by (induction xs) auto
  ultimately show ?thesis by (cases inb) (simp_all add: all_blocks_def)
qed

lemma yields_quiet_loop:
  assumes "\<And>p s. I p \<Longrightarrow> p < e \<Longrightarrow> yields P i j (body p s) []" "\<And>p. I p \<Longrightarrow> p < e \<Longrightarrow> p < nxt p \<and> I (nxt p)" "I p0"
  shows "yields P i j (for_loop p0 e nxt body s) []"
  using yields_loop [OF assms] by simp

text \<open>The chunks of columns follow each other.\<close>

lemma fp_chunk:
  assumes "0 < NC" "0 \<le> jc" "jc < jc_end"
  shows "jc < fp_next g NC min_NR jc" "jc + fst (snd (snd (fp_panel g NC min_NR jc jc_end))) = min (fp_next g NC min_NR jc) jc_end"
    "0 < fst (snd (snd (fp_panel g NC min_NR jc jc_end)))"
  using panel_chunk [OF assms, of "fa_mtag_b g = REORDERED" "fa_n g" min_NR]
  by (cases "fa_mtag_b g = REORDERED"; simp add: fp_next_def fp_panel_def Let_def)+

lemma even_up_eq: "even_up x = dlp_make_multiple_of_n x 2" if "0 \<le> x"
  using that by (simp add: even_up_def make_multiple_eq and_one_eq)

lemma multiple_of_one: "0 \<le> x \<Longrightarrow> dlp_make_multiple_of_n x 1 = x"
  by (rule make_multiple_id) simp_all

end
