(* ===== verification/Fp_Nest.thy ===== *)
theory Fp_Nest
  imports Fp_Runs
begin

text \<open>
  The loops of the floating-point drivers. The drivers have the same five loops, over chunks of columns, blocks of the depth,
  blocks of rows and panels of columns, and differ in where they find the operands; the record \<open>fp_nest\<close> holds what a
  driver does for its operands A, B and C. A driver that passes the whole chunk to its kernel has no loop over
  panels. Likewise the two matrix-vector loops, over rows and over columns.

  The locale \<open>nest_operands\<close> is the contract of the operands: providing one computes nothing, and what it does and the
  kernel calls made with it satisfy a property \<open>P\<close>. It gives that a run of the loops ends, takes on every element of
  the tile the steps of the depth in order, and satisfies \<open>P\<close> throughout.
\<close>

section \<open>The five loops\<close>

text \<open>\<open>ne_a\<close> provides A for a block of depth and rows, \<open>ne_b\<close> the operand B of a chunk and a block of depth with the stride from
  panel to panel, \<open>ne_c\<close> the operand C of a chunk with its row stride.\<close>

type_synonym a_provider = "md_t \<Rightarrow> md_t \<Rightarrow> md_t \<Rightarrow> md_t \<Rightarrow> drv_buffers \<Rightarrow> drv_buffers \<times> fp_action list \<times> (fp_pointer \<times> md_t \<times> md_t \<times> md_t)"

type_synonym b_provider = "md_t \<Rightarrow> md_t \<Rightarrow> md_t \<times> md_t \<times> md_t \<times> md_t \<Rightarrow> md_t \<Rightarrow> md_t \<Rightarrow> drv_buffers \<Rightarrow>
    drv_buffers \<times> fp_action list \<times> (fp_pointer \<times> md_t \<times> md_t) \<times> md_t"

type_synonym c_provider = "md_t \<Rightarrow> md_t \<Rightarrow> md_t \<Rightarrow> md_t \<Rightarrow> md_t \<Rightarrow> drv_buffers \<Rightarrow> drv_buffers \<times> fp_action list \<times> fp_pointer \<times> md_t"

record fp_nest =
  ne_panels :: bool
  ne_min_NR :: md_t
  ne_local_rows :: bool
  ne_cs_c :: md_t
  ne_a :: a_provider
  ne_b :: b_provider
  ne_c :: c_provider

definition nest_call ::
  "fp_nest \<Rightarrow> fp_args \<Rightarrow> dlp_gemm_cntx_t \<Rightarrow> md_t \<Rightarrow> md_t \<Rightarrow> md_t \<Rightarrow> md_t \<Rightarrow> md_t \<Rightarrow> md_t \<Rightarrow> fp_pointer \<times> md_t \<times> md_t \<times> md_t \<Rightarrow>
   (fp_pointer \<times> md_t \<times> md_t) \<times> md_t \<Rightarrow> fp_pointer \<times> md_t \<Rightarrow> md_t \<Rightarrow> fp_call" where
  "nest_call nest g lcntx jc nc0 pc kc0 ic mc0 a_use b_use c_use_ic jr =
     (let KC = bs_KC (cx_blksz lcntx)
      in \<lparr>fc_mc0 = mc0, fc_nr0 = (if ne_panels nest then dlp_min (nc0 - jr) (bs_NR (cx_blksz lcntx)) else nc0), fc_kc0 = kc0, fc_pc = pc,
          fc_a = fst a_use, fc_a_strides = snd a_use,
          fc_b = fp_plus (fst (fst b_use)) (jr * snd b_use), fc_b_strides = snd (fst b_use),
          fc_b_panel = (if ne_panels nest then 0 else snd b_use, 0),
          fc_c = fp_plus (fst c_use_ic) jr, fc_c_strides = (snd c_use_ic, ne_cs_c nest),
          fc_beta0 = (if pc = 0 then Beta else One),
          fc_attr = \<lparr>post_op_c_i = ic, post_op_c_j = jc + jr, is_first_k = (pc = 0), is_last_k = (pc + KC \<ge> fa_k g)\<rparr>\<rparr>)"

definition fp_jr_loop ::
  "fp_nest \<Rightarrow> fp_args \<Rightarrow> dlp_gemm_cntx_t \<Rightarrow> md_t \<Rightarrow> md_t \<Rightarrow> md_t \<Rightarrow> md_t \<Rightarrow> md_t \<Rightarrow> md_t \<Rightarrow> fp_pointer \<times> md_t \<times> md_t \<times> md_t \<Rightarrow>
   (fp_pointer \<times> md_t \<times> md_t) \<times> md_t \<Rightarrow> fp_pointer \<times> md_t \<Rightarrow> drv_buffers \<Rightarrow> (drv_buffers \<times> fp_action list) option" where
  "fp_jr_loop nest g lcntx jc nc0 pc kc0 ic mc0 a_use b_use c_use_ic s =
     (if ne_panels nest
      then for_loop 0 nc0 (\<lambda>jr. jr + bs_NR (cx_blksz lcntx))
             (\<lambda>jr s. Some (s, [Compute (nest_call nest g lcntx jc nc0 pc kc0 ic mc0 a_use b_use c_use_ic jr)])) s
      else Some (s, [Compute (nest_call nest g lcntx jc nc0 pc kc0 ic mc0 a_use b_use c_use_ic 0)]))"

definition fp_ic_loop ::
  "fp_nest \<Rightarrow> fp_args \<Rightarrow> dlp_gemm_cntx_t \<Rightarrow> md_t \<Rightarrow> md_t \<Rightarrow> md_t \<Rightarrow> md_t \<Rightarrow> md_t \<Rightarrow> md_t \<Rightarrow>
   (fp_pointer \<times> md_t \<times> md_t) \<times> md_t \<Rightarrow> fp_pointer \<times> md_t \<Rightarrow> drv_buffers \<Rightarrow> (drv_buffers \<times> fp_action list) option" where
  "fp_ic_loop nest g lcntx ic_start ic_end jc nc0 pc kc0 b_use c_use_jc =
     (let MC = bs_MC (cx_blksz lcntx)
      in for_loop ic_start ic_end (\<lambda>ic. ic + MC)
           (\<lambda>ic s.
              let mc0 = dlp_min (ic_end - ic) MC;
                  c_use_ic = (fp_plus (fst c_use_jc) (snd c_use_jc * (if ne_local_rows nest then ic - ic_start else ic)), snd c_use_jc);
                  (s, acts, a_use) = ne_a nest pc kc0 ic mc0 s
              in map_option (\<lambda>(s', calls). (s', acts @ calls))
                   (fp_jr_loop nest g lcntx jc nc0 pc kc0 ic mc0 a_use b_use c_use_ic s)))"

definition fp_pc_loop ::
  "fp_nest \<Rightarrow> fp_args \<Rightarrow> dlp_gemm_cntx_t \<Rightarrow> md_t \<Rightarrow> md_t \<Rightarrow> md_t \<Rightarrow> md_t \<Rightarrow> md_t \<times> md_t \<times> md_t \<times> md_t \<Rightarrow>
   fp_pointer \<times> md_t \<Rightarrow> drv_buffers \<Rightarrow> (drv_buffers \<times> fp_action list) option" where
  "fp_pc_loop nest g lcntx ic_start ic_end jc jc_end panel c_use_jc =
     (let KC = bs_KC (cx_blksz lcntx);
          nc0 = fst (snd (snd panel))
      in for_loop 0 (fa_k g) (\<lambda>pc. pc + KC)
           (\<lambda>pc s.
              let kc0 = dlp_min (fa_k g - pc) KC;
                  (s, acts, b_use) = ne_b nest jc jc_end panel pc kc0 s
              in map_option (\<lambda>(s', calls). (s', acts @ calls))
                   (fp_ic_loop nest g lcntx ic_start ic_end jc nc0 pc kc0 b_use c_use_jc s)))"

definition fp_jc_loop ::
  "fp_nest \<Rightarrow> fp_args \<Rightarrow> dlp_gemm_cntx_t \<Rightarrow> (md_t \<times> md_t) \<times> (md_t \<times> md_t) \<Rightarrow> drv_buffers \<Rightarrow> (drv_buffers \<times> fp_action list) option" where
  "fp_jc_loop nest g lcntx tile =
     (let NC = bs_NC (cx_blksz lcntx);
          ((jc_start, jc_end), (ic_start, ic_end)) = tile
      in for_loop jc_start jc_end (fp_next g NC (ne_min_NR nest))
           (\<lambda>jc s.
              let panel = fp_panel g NC (ne_min_NR nest) jc jc_end;
                  nc0 = fst (snd (snd panel));
                  (s, acts, c_use_jc) = ne_c nest jc jc_end nc0 ic_start ic_end s
              in map_option (\<lambda>(s', calls). (s', acts @ calls))
                   (fp_pc_loop nest g lcntx ic_start ic_end jc jc_end panel c_use_jc s)))"

section \<open>Matrix times vector\<close>

text \<open>The loop over blocks of rows with one column, and the loop over chunks of columns with one row. \<open>b_op\<close> gives the
  operand B with the width and the offset of the panel the kernel is told; \<open>c_step\<close> is the step from column to column of C.\<close>

definition fp_rows_loop ::
  "fp_args \<Rightarrow> md_t \<Rightarrow> (md_t \<Rightarrow> md_t \<Rightarrow> drv_buffers \<Rightarrow> drv_buffers \<times> fp_action list \<times> (fp_pointer \<times> md_t \<times> md_t \<times> md_t)) \<Rightarrow>
   fp_pointer \<times> md_t \<times> md_t \<Rightarrow> md_t \<times> md_t \<Rightarrow> (drv_buffers \<times> fp_action list) option" where
  "fp_rows_loop g MC a_op b_use ext =
     (let (ic_start, ic_end) = ext
      in for_loop ic_start ic_end (\<lambda>ic. ic + MC)
           (\<lambda>ic s.
              let mc0 = dlp_min (ic_end - ic) MC;
                  (s, acts, a_use) = a_op ic mc0 s
              in Some (s, acts @ [Compute \<lparr>fc_mc0 = mc0, fc_nr0 = 1, fc_kc0 = fa_k g, fc_pc = 0, fc_a = fst a_use, fc_a_strides = snd a_use,
                   fc_b = fst b_use, fc_b_strides = snd b_use, fc_b_panel = (0, 0),
                   fc_c = Matrix (ic * fa_rs_c g), fc_c_strides = (fa_rs_c g, fa_cs_c g), fc_beta0 = Beta,
                   fc_attr = \<lparr>post_op_c_i = ic, post_op_c_j = 0, is_first_k = True, is_last_k = True\<rparr>\<rparr>]))
           no_buffers)"

definition fp_cols_loop ::
  "fp_args \<Rightarrow> md_t \<Rightarrow> md_t \<Rightarrow> fp_pointer \<times> md_t \<times> md_t \<times> md_t \<Rightarrow>
   (md_t \<Rightarrow> md_t \<Rightarrow> md_t \<times> md_t \<times> md_t \<times> md_t \<Rightarrow> drv_buffers \<Rightarrow> (drv_buffers \<times> fp_action list \<times> (fp_pointer \<times> md_t \<times> md_t) \<times> (md_t \<times> md_t)) option) \<Rightarrow>
   md_t \<Rightarrow> md_t \<Rightarrow> md_t \<times> md_t \<Rightarrow> (drv_buffers \<times> fp_action list) option" where
  "fp_cols_loop g NC min_NR a_use b_op c_step cs_c ext =
     (let (jc_start, jc_end) = ext
      in for_loop jc_start jc_end (fp_next g NC min_NR)
           (\<lambda>jc s.
              let panel = fp_panel g NC min_NR jc jc_end;
                  nc0 = fst (snd (snd panel))
              in map_option (\<lambda>(s, acts, b_use, b_panel).
                   (s, acts @ [Compute \<lparr>fc_mc0 = 1, fc_nr0 = nc0, fc_kc0 = fa_k g, fc_pc = 0, fc_a = fst a_use, fc_a_strides = snd a_use,
                     fc_b = fst b_use, fc_b_strides = snd b_use, fc_b_panel = b_panel,
                     fc_c = Matrix (jc * c_step), fc_c_strides = (fa_rs_c g, cs_c), fc_beta0 = Beta,
                     fc_attr = \<lparr>post_op_c_i = 0, post_op_c_j = jc, is_first_k = True, is_last_k = True\<rparr>\<rparr>]))
                   (b_op jc jc_end panel s))
           no_buffers)"

text \<open>A matrix-vector run splits its one dimension over all threads.\<close>

definition gemv_rows :: "dlp_gemm_thrinfo_t \<Rightarrow> md_t \<Rightarrow> md_t \<Rightarrow> md_t \<times> md_t" where
  "gemv_rows thread m MR =
     (let thread_ic = snd (dlp_gemm_gen_dlp_task_ids (Some thread))
      in dlp_thread_task_range (thread_ic\<lparr>n_way := (if n_way thread_ic = 1 then thr_n_threads thread else n_way thread_ic),
                                          work_id := thr_tid thread\<rparr>) m MR False)"

definition gemv_cols :: "dlp_gemm_thrinfo_t \<Rightarrow> md_t \<Rightarrow> md_t \<Rightarrow> md_t \<times> md_t" where
  "gemv_cols thread n NR =
     (let thread_jc = fst (dlp_gemm_gen_dlp_task_ids (Some thread))
      in dlp_thread_task_range (thread_jc\<lparr>n_way := (if n_way thread_jc = 1 then thr_n_threads thread else n_way thread_jc),
                                          work_id := thr_tid thread\<rparr>) n NR False)"

text \<open>Packing all blocks of depth of a chunk of B into the buffer, as the one-row runs do, with the strides the last call of
  the packing kernel sets.\<close>

definition fp_fill_loop :: "pack_strides \<Rightarrow> fp_args \<Rightarrow> md_t \<Rightarrow> md_t \<Rightarrow> md_t \<Rightarrow> md_t \<Rightarrow> ((md_t \<times> md_t) \<times> fp_action list) option" where
  "fp_fill_loop packb g KC jc nc0 n_sub_updated =
     for_loop 0 (fa_k g) (\<lambda>pc. pc + KC)
       (\<lambda>pc strides.
          let kc0 = dlp_min (fa_k g - pc) KC
          in Some (packb (fa_rs_b g) (fa_cs_b g) nc0 kc0, [Fill_b (fa_rs_b g * pc + jc * fa_cs_b g) (n_sub_updated * pc) nc0 kc0]))
       (fa_rs_b g, fa_cs_b g)"

section \<open>The contract of the operands\<close>

text \<open>Where a block of a run lies.\<close>

definition depth_ok :: "fp_args \<Rightarrow> md_t \<Rightarrow> md_t \<Rightarrow> md_t \<Rightarrow> bool" where
  "depth_ok g KC pc kc0 \<longleftrightarrow> KC dvd pc \<and> 0 \<le> pc \<and> pc < fa_k g \<and> kc0 = dlp_min (fa_k g - pc) KC"

definition rows_ok :: "md_t \<Rightarrow> md_t \<Rightarrow> md_t \<Rightarrow> md_t \<Rightarrow> md_t \<Rightarrow> bool" where
  "rows_ok MC ic_start ic_end ic mc0 \<longleftrightarrow> ic_start \<le> ic \<and> ic < ic_end \<and> mc0 = dlp_min (ic_end - ic) MC"

definition cols_ok :: "fp_args \<Rightarrow> md_t \<Rightarrow> md_t \<Rightarrow> md_t \<Rightarrow> md_t \<Rightarrow> md_t \<Rightarrow> md_t \<Rightarrow> bool" where
  "cols_ok g bf NC min_NR jc_start jc_end jc \<longleftrightarrow> jc_start \<le> jc \<and> jc < jc_end \<and> (bf dvd NC \<longrightarrow> bf dvd jc)"

locale nest_operands =
  fixes nest :: fp_nest and g :: fp_args and lcntx :: dlp_gemm_cntx_t and bf ic_start ic_end jc_start jc_end :: md_t
    and P :: "fp_action \<Rightarrow> bool"
  assumes blksz: "blksz_ok (cx_blksz lcntx)"
    and c_op: "\<And>jc s s' acts c. cols_ok g bf (bs_NC (cx_blksz lcntx)) (ne_min_NR nest) jc_start jc_end jc \<Longrightarrow>
      ne_c nest jc jc_end (fst (snd (snd (fp_panel g (bs_NC (cx_blksz lcntx)) (ne_min_NR nest) jc jc_end)))) ic_start ic_end s = (s', acts, c) \<Longrightarrow>
      list_all P acts \<and> list_all no_compute acts"
    and b_op: "\<And>jc pc kc0 s s' acts b. cols_ok g bf (bs_NC (cx_blksz lcntx)) (ne_min_NR nest) jc_start jc_end jc \<Longrightarrow> depth_ok g (bs_KC (cx_blksz lcntx)) pc kc0 \<Longrightarrow>
      ne_b nest jc jc_end (fp_panel g (bs_NC (cx_blksz lcntx)) (ne_min_NR nest) jc jc_end) pc kc0 s = (s', acts, b) \<Longrightarrow>
      list_all P acts \<and> list_all no_compute acts"
    and a_op: "\<And>pc kc0 ic mc0 s s' acts a. depth_ok g (bs_KC (cx_blksz lcntx)) pc kc0 \<Longrightarrow> rows_ok (bs_MC (cx_blksz lcntx)) ic_start ic_end ic mc0 \<Longrightarrow>
      ne_a nest pc kc0 ic mc0 s = (s', acts, a) \<Longrightarrow> list_all P acts \<and> list_all no_compute acts"
    and call: "\<And>jc pc kc0 ic mc0 jr nc0 s1 s1' acts1 c rs s2 s2' acts2 b s3 s3' acts3 a.
      cols_ok g bf (bs_NC (cx_blksz lcntx)) (ne_min_NR nest) jc_start jc_end jc \<Longrightarrow> depth_ok g (bs_KC (cx_blksz lcntx)) pc kc0 \<Longrightarrow>
      rows_ok (bs_MC (cx_blksz lcntx)) ic_start ic_end ic mc0 \<Longrightarrow>
      nc0 = fst (snd (snd (fp_panel g (bs_NC (cx_blksz lcntx)) (ne_min_NR nest) jc jc_end))) \<Longrightarrow>
      0 \<le> jr \<Longrightarrow> jr < nc0 \<Longrightarrow> (if ne_panels nest then bs_NR (cx_blksz lcntx) dvd jr else jr = 0) \<Longrightarrow>
      ne_c nest jc jc_end nc0 ic_start ic_end s1 = (s1', acts1, c, rs) \<Longrightarrow>
      ne_b nest jc jc_end (fp_panel g (bs_NC (cx_blksz lcntx)) (ne_min_NR nest) jc jc_end) pc kc0 s2 = (s2', acts2, b) \<Longrightarrow>
      ne_a nest pc kc0 ic mc0 s3 = (s3', acts3, a) \<Longrightarrow>
      P (Compute (nest_call nest g lcntx jc nc0 pc kc0 ic mc0 a b (fp_plus c (rs * (if ne_local_rows nest then ic - ic_start else ic)), rs) jr))"
begin

abbreviation "NR \<equiv> bs_NR (cx_blksz lcntx)"
abbreviation "MC \<equiv> bs_MC (cx_blksz lcntx)"
abbreviation "NC \<equiv> bs_NC (cx_blksz lcntx)"
abbreviation "KC \<equiv> bs_KC (cx_blksz lcntx)"
abbreviation "panel jc \<equiv> fp_panel g NC (ne_min_NR nest) jc jc_end"
abbreviation "cols jc \<equiv> fst (snd (snd (panel jc)))"
abbreviation "begins jc \<equiv> cols_ok g bf NC (ne_min_NR nest) jc_start jc_end jc"

lemma sizes: "0 < NR" "0 < MC" "0 < NC" "0 < KC"
  using blksz by auto

lemma jr_yields:
  assumes "begins jc" "depth_ok g KC pc kc0" "rows_ok MC ic_start ic_end ic mc0" "0 < cols jc"
    and ops: "ne_c nest jc jc_end (cols jc) ic_start ic_end s1 = (s1', acts1, c, rs)" "ne_b nest jc jc_end (panel jc) pc kc0 s2 = (s2', acts2, b)"
      "ne_a nest pc kc0 ic mc0 s3 = (s3', acts3, a)"
  shows "yields P i j (fp_jr_loop nest g lcntx jc (cols jc) pc kc0 ic mc0 a b
      (fp_plus c (rs * (if ne_local_rows nest then ic - ic_start else ic)), rs) s)
    (if 0 \<le> j - jc \<and> j - jc < cols jc then if ic \<le> i \<and> i < ic + mc0 then [depth_block_step g KC pc] else [] else [])"
proof (cases "ne_panels nest")
  case True
  have min: "jr + dlp_min (cols jc - jr) NR = min (jr + NR) (cols jc)" if "jr < cols jc" for jr
    using min_block [OF sizes(1) that] .
  show ?thesis unfolding fp_jr_loop_def if_P [OF True]
  proof (rule yields_cover [where I = "\<lambda>jr. 0 \<le> jr \<and> NR dvd jr" and hi = "\<lambda>jr. min (jr + NR) (cols jc)"], goal_cases)
    case (1 jr s)
    have "P (Compute (nest_call nest g lcntx jc (cols jc) pc kc0 ic mc0 a b (fp_plus c (rs * (if ne_local_rows nest then ic - ic_start else ic)), rs) jr))"
      by (rule call [OF assms(1-3) refl _ _ _ ops]) (use 1 True in auto)
    then show ?case using min [OF 1(2)] assms(2) True
      by (auto simp: fp_steps_Compute fp_touches_def step_of_def nest_call_def Let_def depth_block_step_def depth_ok_def)
  qed (use sizes(1) in auto)
next
  case False
  have "P (Compute (nest_call nest g lcntx jc (cols jc) pc kc0 ic mc0 a b (fp_plus c (rs * (if ne_local_rows nest then ic - ic_start else ic)), rs) 0))"
    by (rule call [OF assms(1-3) refl _ _ _ ops]) (use assms(4) False in auto)
  then show ?thesis unfolding fp_jr_loop_def if_not_P [OF False] using assms(2) False
    by (auto simp: fp_steps_Compute fp_touches_def step_of_def nest_call_def Let_def depth_block_step_def depth_ok_def)
qed

lemma ic_yields:
  assumes "begins jc" "depth_ok g KC pc kc0" "0 < cols jc"
    and ops: "ne_c nest jc jc_end (cols jc) ic_start ic_end s1 = (s1', acts1, c, rs)" "ne_b nest jc jc_end (panel jc) pc kc0 s2 = (s2', acts2, b)"
  shows "yields P i j (fp_ic_loop nest g lcntx ic_start ic_end jc (cols jc) pc kc0 b (c, rs) s)
    (if ic_start \<le> i \<and> i < ic_end then if 0 \<le> j - jc \<and> j - jc < cols jc then [depth_block_step g KC pc] else [] else [])"
  unfolding fp_ic_loop_def Let_def
proof (rule yields_cover [where I = "\<lambda>ic. ic_start \<le> ic" and hi = "\<lambda>ic. min (ic + MC) ic_end"], goal_cases)
  case (1 ic s)
  let ?mc0 = "dlp_min (ic_end - ic) MC"
  obtain s3 acts a where a: "ne_a nest pc kc0 ic ?mc0 s = (s3, acts, a)" by (metis prod_cases3)
  have r: "rows_ok MC ic_start ic_end ic ?mc0" using 1 by (simp add: rows_ok_def)
  note quiet = a_op [OF assms(2) r a]
  have "ic + ?mc0 = min (ic + MC) ic_end" using min_block [OF sizes(2) 1(2)] .
  then show ?case unfolding a prod.case fst_conv snd_conv
    using yields_map [OF jr_yields [OF assms(1,2) r assms(3) ops a, of i j s3], of acts "\<lambda>s. s"] quiet
    by (cases "ic \<le> i \<and> i < ic + ?mc0"; cases "0 \<le> j - jc \<and> j - jc < cols jc") auto
qed (use sizes(2) in auto)

lemma pc_yields:
  assumes "begins jc" "0 < cols jc" "ne_c nest jc jc_end (cols jc) ic_start ic_end s1 = (s1', acts1, c, rs)"
  shows "yields P i j (fp_pc_loop nest g lcntx ic_start ic_end jc jc_end (panel jc) (c, rs) s)
    (if ic_start \<le> i \<and> i < ic_end \<and> 0 \<le> j - jc \<and> j - jc < cols jc then all_blocks g KC else [])"
  unfolding fp_pc_loop_def Let_def
proof (rule yields_depth [OF _ sizes(4)], goal_cases)
  case (1 pc s)
  let ?kc0 = "dlp_min (fa_k g - pc) KC"
  obtain s2 acts b where b: "ne_b nest jc jc_end (panel jc) pc ?kc0 s = (s2, acts, b)" by (metis prod_cases3)
  have d: "depth_ok g KC pc ?kc0" using 1 by (simp add: depth_ok_def)
  show ?case unfolding b prod.case
    using yields_map [OF ic_yields [OF assms(1) d assms(2,3) b, of i j s2], of acts "\<lambda>s. s"] b_op [OF assms(1) d b]
    by (cases "ic_start \<le> i \<and> i < ic_end"; cases "0 \<le> j - jc \<and> j - jc < cols jc") auto
qed

lemma nest_yields:
  assumes "0 \<le> jc_start" "jc_start < jc_end \<Longrightarrow> bf dvd jc_start"
  shows "yields P i j (fp_jc_loop nest g lcntx ((jc_start, jc_end), (ic_start, ic_end)) s)
    (if in_tile ((jc_start, jc_end), (ic_start, ic_end)) i j then all_blocks g KC else [])"
proof -
  let ?I = "\<lambda>jc. jc_start \<le> jc \<and> (jc < jc_end \<longrightarrow> bf dvd NC \<longrightarrow> bf dvd jc)"
  have nx: "?I (fp_next g NC (ne_min_NR nest) jc)" if jc: "?I jc" "jc < jc_end" for jc
  proof -
    have "0 \<le> jc" using jc assms(1) by simp
    then have s: "jc sdiv NC * NC = jc div NC * NC" using sizes(3) by (simp add: cdiv_simps)
    have "fp_next g NC (ne_min_NR nest) jc = (if fa_mtag_b g = REORDERED then jc div NC * NC else jc) + NC"
      by (simp add: fp_next_def Let_def dlp_gemm_adjust_B_panel_reordered_jc_def dlp_gemm_get_B_panel_reordered_start_offset_width_def s)
    then show ?thesis using jc fp_chunk(1) [OF sizes(3) \<open>0 \<le> jc\<close> jc(2), of g "ne_min_NR nest"] by auto
  qed
  have "yields P i j (fp_jc_loop nest g lcntx ((jc_start, jc_end), (ic_start, ic_end)) s)
    (if jc_start \<le> j \<and> j < jc_end then if ic_start \<le> i \<and> i < ic_end then all_blocks g KC else [] else [])"
    unfolding fp_jc_loop_def Let_def prod.case
  proof (rule yields_cover [where I = ?I and hi = "\<lambda>jc. min (fp_next g NC (ne_min_NR nest) jc) jc_end"], goal_cases)
    case (1 jc s)
    then have b: "begins jc" "0 \<le> jc" using assms(1) by (auto simp: cols_ok_def)
    note ch = fp_chunk [OF sizes(3) b(2) 1(2), of g "ne_min_NR nest"]
    obtain s1 acts c rs where c: "ne_c nest jc jc_end (cols jc) ic_start ic_end s = (s1, acts, c, rs)" by (metis prod_cases4)
    have "j - jc < cols jc \<longleftrightarrow> j < min (fp_next g NC (ne_min_NR nest) jc) jc_end" using ch(2) by linarith
    moreover have "yields P i j (map_option (\<lambda>(s', calls). (s', acts @ calls)) (fp_pc_loop nest g lcntx ic_start ic_end jc jc_end (panel jc) (c, rs) s1))
        (if ic_start \<le> i \<and> i < ic_end \<and> 0 \<le> j - jc \<and> j - jc < cols jc then all_blocks g KC else [])"
      using yields_map [OF pc_yields [OF b(1) ch(3) c, of i j s1], of acts "\<lambda>s. s"] c_op [OF b(1) c] by simp
    ultimately show ?case unfolding c prod.case
      by (cases "ic_start \<le> i \<and> i < ic_end"; cases "jc \<le> j \<and> j < min (fp_next g NC (ne_min_NR nest) jc) jc_end") auto
  next
    case (2 jc)
    then show ?case using nx fp_chunk(1) [OF sizes(3), of jc jc_end g "ne_min_NR nest"] assms(1) by auto
  qed (use assms in auto)
  moreover have "(if jc_start \<le> j \<and> j < jc_end then if ic_start \<le> i \<and> i < ic_end then all_blocks g KC else [] else []) =
      (if in_tile ((jc_start, jc_end), (ic_start, ic_end)) i j then all_blocks g KC else [])" by (simp add: in_tile_def)
  ultimately show ?thesis by (simp only:)
qed

end

section \<open>What the vector loops yield\<close>

text \<open>The calls of the two loops, whatever their operands A and B.\<close>

definition row_call :: "fp_args \<Rightarrow> md_t \<Rightarrow> md_t \<Rightarrow> fp_call \<Rightarrow> bool" where
  "row_call g ic mc0 c \<longleftrightarrow> fc_mc0 c = mc0 \<and> fc_nr0 c = 1 \<and> fc_kc0 c = fa_k g \<and> fc_pc c = 0 \<and> fc_c c = Matrix (ic * fa_rs_c g) \<and>
     post_op_c_i (fc_attr c) = ic \<and> post_op_c_j (fc_attr c) = 0"

definition col_call :: "fp_args \<Rightarrow> md_t \<Rightarrow> md_t \<Rightarrow> md_t \<Rightarrow> fp_call \<Rightarrow> bool" where
  "col_call g c_step jc nc0 c \<longleftrightarrow> fc_mc0 c = 1 \<and> fc_nr0 c = nc0 \<and> fc_kc0 c = fa_k g \<and> fc_pc c = 0 \<and> fc_c c = Matrix (jc * c_step) \<and>
     post_op_c_i (fc_attr c) = 0 \<and> post_op_c_j (fc_attr c) = jc"

lemma rows_yields:
  assumes "0 < MC"
    and a_op: "\<And>ic mc0 s s' acts a. rows_ok MC ic_start ic_end ic mc0 \<Longrightarrow> a_op ic mc0 s = (s', acts, a) \<Longrightarrow> list_all P acts \<and> list_all no_compute acts"
    and call: "\<And>ic mc0 c. rows_ok MC ic_start ic_end ic mc0 \<Longrightarrow> row_call g ic mc0 c \<Longrightarrow> P (Compute c)"
  shows "yields P i j (fp_rows_loop g MC a_op b_use (ic_start, ic_end)) (if ic_start \<le> i \<and> i < ic_end \<and> j = 0 then one_block g else [])"
proof -
  have "yields P i j (fp_rows_loop g MC a_op b_use (ic_start, ic_end)) (if ic_start \<le> i \<and> i < ic_end then if j = 0 then one_block g else [] else [])"
    unfolding fp_rows_loop_def Let_def prod.case
  proof (rule yields_cover [where I = "\<lambda>ic. ic_start \<le> ic" and hi = "\<lambda>ic. min (ic + MC) ic_end"], goal_cases)
    case (1 ic s)
    obtain s' acts a where a: "a_op ic (dlp_min (ic_end - ic) MC) s = (s', acts, a)" by (metis prod_cases3)
    have r: "rows_ok MC ic_start ic_end ic (dlp_min (ic_end - ic) MC)" using 1 by (simp add: rows_ok_def)
    note ok = a_op [OF r a] and c = call [OF r]
    have "ic + dlp_min (ic_end - ic) MC = min (ic + MC) ic_end" using min_block [OF assms(1) 1(2)] .
    then show ?case unfolding a prod.case
      using ok c fp_steps_quiet [of acts i j] by (auto simp: fp_steps_Compute fp_touches_def step_of_def one_block_def row_call_def)
  qed (use assms(1) in auto)
  moreover have "(if ic_start \<le> i \<and> i < ic_end then if j = 0 then one_block g else [] else []) =
      (if ic_start \<le> i \<and> i < ic_end \<and> j = 0 then one_block g else [])" by simp
  ultimately show ?thesis by (simp only:)
qed

lemma cols_yields:
  assumes "0 < NC" "0 \<le> jc_start"
    and b_op: "\<And>jc s. jc_start \<le> jc \<Longrightarrow> jc < jc_end \<Longrightarrow>
      \<exists>s' acts b p. b_op jc jc_end (fp_panel g NC min_NR jc jc_end) s = Some (s', acts, b, p) \<and> list_all P acts \<and> list_all no_compute acts"
    and call: "\<And>jc nc0 c. jc_start \<le> jc \<Longrightarrow> 0 < nc0 \<Longrightarrow> jc + nc0 \<le> jc_end \<Longrightarrow> col_call g c_step jc nc0 c \<Longrightarrow> P (Compute c)"
  shows "yields P i j (fp_cols_loop g NC min_NR a_use b_op c_step cs_c (jc_start, jc_end)) (if jc_start \<le> j \<and> j < jc_end \<and> i = 0 then one_block g else [])"
proof -
  let ?nxt = "fp_next g NC min_NR"
  have "yields P i j (fp_cols_loop g NC min_NR a_use b_op c_step cs_c (jc_start, jc_end)) (if jc_start \<le> j \<and> j < jc_end then if i = 0 then one_block g else [] else [])"
    unfolding fp_cols_loop_def Let_def prod.case
  proof (rule yields_cover [where I = "\<lambda>jc. jc_start \<le> jc" and hi = "\<lambda>jc. min (?nxt jc) jc_end"], goal_cases)
    case (1 jc s)
    let ?w = "fst (snd (snd (fp_panel g NC min_NR jc jc_end)))"
    have "0 \<le> jc" using 1 assms(2) by simp
    note ch = fp_chunk [OF assms(1) this 1(2), of g min_NR]
    obtain s' acts b p where b: "b_op jc jc_end (fp_panel g NC min_NR jc jc_end) s = Some (s', acts, b, p)" "list_all P acts" "list_all no_compute acts"
      using b_op [OF 1, of s] by blast
    have c: "col_call g c_step jc ?w c \<Longrightarrow> P (Compute c)" for c by (rule call [OF 1(1) ch(3)]) (use ch(2) in auto)
    have "j < jc + ?w \<longleftrightarrow> j < min (?nxt jc) jc_end" using ch(2) by linarith
    then show ?case unfolding b(1) option.map prod.case
      using b c fp_steps_quiet [of acts i j] by (auto simp: fp_steps_Compute fp_touches_def step_of_def one_block_def col_call_def)
  next
    case (2 jc)
    then show ?case using fp_chunk(1) [OF assms(1), of jc jc_end g min_NR] assms(2) by simp
  qed (use assms in auto)
  moreover have "(if jc_start \<le> j \<and> j < jc_end then if i = 0 then one_block g else [] else []) =
      (if jc_start \<le> j \<and> j < jc_end \<and> i = 0 then one_block g else [])" by simp
  ultimately show ?thesis by (simp only:)
qed

lemma fill_loop_quiet:
  assumes "0 < KC" "\<And>x y z w. P (Fill_b x y z w)"
  shows "\<exists>st acts. fp_fill_loop packb g KC jc nc0 n_sub = Some (st, acts) \<and> list_all P acts \<and> list_all no_compute acts"
proof -
  have "yields (\<lambda>a. P a \<and> no_compute a) 0 0 (fp_fill_loop packb g KC jc nc0 n_sub) []"
    unfolding fp_fill_loop_def Let_def
    by (rule yields_quiet_loop [where I = "\<lambda>_. True"]) (use assms in \<open>simp_all add: fp_steps_def\<close>)
  then show ?thesis by (auto simp: yields_def list_all_iff)
qed

lemma gemv_rows_eq: "gemv_rows thread m MR = gemv_range m MR (thr_ic_ways thread) thread"
  by (simp add: gemv_rows_def task_range_eq_slice gemv_range_def dlp_gemm_gen_dlp_task_ids_def Let_def)

lemma gemv_cols_eq: "gemv_cols thread n NR = gemv_range n NR (thr_jc_ways thread) thread"
  by (simp add: gemv_cols_def task_range_eq_slice gemv_range_def dlp_gemm_gen_dlp_task_ids_def Let_def)

end
