(* ===== verification/Fp_Place.thy ===== *)
theory Fp_Place
  imports Fp_Nest
begin

text \<open>
  Where the operands of the floating-point kernel calls lie. \<open>fp_located\<close> says of a call that its block is inside the
  matrices, that C begins at the address of the block, and that an operand used in place, an unpacked A or B or a
  reordered B, is where the strides or the layout \<open>B_offset\<close> put it. \<open>call_located\<close> reduces it, for the calls of the five
  loops, to what the operand providers return for the first panel of a chunk.
\<close>

section \<open>Located calls\<close>

text \<open>The pointer to a reordered block: its elements are those the layout puts there.\<close>

definition placed_B :: "md_t \<Rightarrow> md_t \<Rightarrow> dlp_gemm_block_size_t \<Rightarrow> fp_args \<Rightarrow> md_t \<Rightarrow> md_t \<Rightarrow> md_t \<Rightarrow> md_t \<Rightarrow> fp_pointer \<Rightarrow> bool" where
  "placed_B kf min_NR b g pc kc0 j nr0 p \<longleftrightarrow> (\<exists>off. p = Matrix off \<and>
     (\<forall>kr i. 0 \<le> kr \<and> kr < kc0 \<and> 0 \<le> i \<and> i < nr0 \<longrightarrow>
        off + panel_offset (bs_NR b) min_NR kf nr0 (dlp_make_multiple_of_n kc0 kf) kr i =
        B_offset (bs_NR b) min_NR (bs_NC b) (bs_KC b) kf (fa_n g) (fa_k g) (pc + kr) (j + i)))"

definition block_inside :: "fp_args \<Rightarrow> fp_call \<Rightarrow> bool" where
  "block_inside g c \<longleftrightarrow>
     0 \<le> post_op_c_i (fc_attr c) \<and> 0 < fc_mc0 c \<and> post_op_c_i (fc_attr c) + fc_mc0 c \<le> fa_m g \<and>
     0 \<le> post_op_c_j (fc_attr c) \<and> 0 < fc_nr0 c \<and> post_op_c_j (fc_attr c) + fc_nr0 c \<le> fa_n g \<and>
     0 \<le> fc_pc c \<and> 0 < fc_kc0 c \<and> fc_pc c + fc_kc0 c \<le> fa_k g"

definition is_vector :: "fp_args \<Rightarrow> bool" where
  "is_vector g \<longleftrightarrow> fa_m g = 1 \<or> fa_n g = 1"

fun fp_located :: "bool \<Rightarrow> bool \<Rightarrow> md_t \<Rightarrow> md_t \<Rightarrow> dlp_gemm_block_size_t \<Rightarrow> fp_args \<Rightarrow> fp_action \<Rightarrow> bool" where
  "fp_located plain_c in_place kf min_NR b g (Compute c) \<longleftrightarrow> block_inside g c \<and>
     (plain_c \<longrightarrow> fc_c c = Matrix (fa_rs_c g * post_op_c_i (fc_attr c) + fa_cs_c g * post_op_c_j (fc_attr c))) \<and>
     (in_place \<longrightarrow>
       (fa_mtag_a g = UNPACKED \<longrightarrow> fc_a c = Matrix (fa_rs_a g * post_op_c_i (fc_attr c) + fa_cs_a g * fc_pc c)) \<and>
       (fa_mtag_b g = UNPACKED \<longrightarrow> fc_b c = Matrix (fa_rs_b g * fc_pc c + fa_cs_b g * post_op_c_j (fc_attr c))) \<and>
       (fa_mtag_b g = REORDERED \<longrightarrow> reorder_blocks (bs_NR b) min_NR (bs_NC b) (bs_KC b) kf (fa_n g) (fa_k g) \<longrightarrow>
          placed_B kf min_NR b g (fc_pc c) (fc_kc0 c) (post_op_c_j (fc_attr c)) (fc_nr0 c) (fc_b c)))"
| "fp_located plain_c in_place kf min_NR b g _ \<longleftrightarrow> True"

section \<open>Chunks of a reordered matrix\<close>

context reorder_blocks
begin

lemma chunk_piece:
  assumes "fa_mtag_b g = REORDERED" "fa_n g = n" "0 \<le> jc" "jc < je" "je \<le> n" "NR dvd jc" "NR dvd je \<or> je = n"
  shows "fp_panel g NC min_NR jc je = (jc div NC * NC, jc - jc div NC * NC, width je jc, W (jc div NC * NC))"
    "is_piece NR NC n jc (width je jc)"
proof -
  show "fp_panel g NC min_NR jc je = (jc div NC * NC, jc - jc div NC * NC, width je jc, W (jc div NC * NC))"
    using geometry [of jc je] assms by (simp add: fp_panel_def Let_def)
  have P: "jc div NC * NC \<le> jc" "jc < jc div NC * NC + NC" using floor_block [OF panel(1)] by auto
  have "NR dvd jc div NC * NC + NC" using panel(2) by simp
  then show "is_piece NR NC n jc (width je jc)" using assms P by (auto simp: is_piece_def width_def dlp_min_def min_def)
qed

lemma piece_placed:
  assumes "is_piece NR NC n j nr0" "KC dvd pc" "0 \<le> pc" "pc < k" "kc0 = dlp_min (k - pc) KC"
    and "fa_n g = n" "fa_k g = k" "bs_NR b = NR" "bs_NC b = NC" "bs_KC b = KC"
  shows "placed_B kf min_NR b g pc kc0 j nr0 (Matrix (piece_off j pc))"
  using piece_elem(1) [OF assms(1-4)] assms(5-10) by (simp add: placed_B_def kc0p_def)

lemma panel_placed:
  assumes "fa_mtag_b g = REORDERED" "fa_n g = n" "fa_k g = k" "bs_NR b = NR" "bs_NC b = NC" "bs_KC b = KC"
    and "0 \<le> jc" "jc < je" "je \<le> n" "NR dvd jc" "NR dvd je \<or> je = n" "fp_panel g NC min_NR jc je = (cur, rm, nc0, nsub)"
    and "KC dvd pc" "0 \<le> pc" "pc < k" "kc0 = dlp_min (k - pc) KC"
    and "0 \<le> jr" "jr < nc0" "if panels then NR dvd jr else jr = 0" "nr0 = (if panels then dlp_min (nc0 - jr) NR else nc0)"
  shows "placed_B kf min_NR b g pc kc0 (jc + jr) nr0
    (Matrix (cur * dlp_make_multiple_of_n k kf + nsub * pc + rm * dlp_make_multiple_of_n kc0 kf + jr * dlp_make_multiple_of_n kc0 kf))"
proof -
  note ch = chunk_piece [OF assms(1,2,7-11)]
  have v: "cur = jc div NC * NC" "rm = jc - jc div NC * NC" "nc0 = width je jc" "nsub = W (jc div NC * NC)" using ch(1) assms(12) by auto
  have kc: "dlp_make_multiple_of_n kc0 kf = kc0p pc" by (simp add: kc0p_def assms(16))
  have ip: "is_piece NR NC n jc nc0" using ch(2) v by simp
  have "is_piece NR NC n (jc + jr) nr0 \<and> piece_off jc pc + jr * kc0p pc = piece_off (jc + jr) pc"
    using sub_piece [OF ip assms(17) _ assms(18)] assms(19,20) ip by (cases panels) simp_all
  moreover have "cur * dlp_make_multiple_of_n k kf + nsub * pc + rm * kc0p pc = piece_off jc pc"
    by (simp add: v piece_off_def kp_def)
  moreover have "placed_B kf min_NR b g pc kc0 (jc + jr) nr0 (Matrix (piece_off (jc + jr) pc))" if "is_piece NR NC n (jc + jr) nr0"
    by (rule piece_placed [OF that assms(13-16,2-6)])
  ultimately show ?thesis unfolding kc by simp
qed

end

section \<open>The calls of the five loops\<close>

lemma thread_slice:
  assumes "r = task_slice False l bf ways w" "0 \<le> l" "0 < bf"
  shows "0 \<le> fst r \<and> snd r \<le> l \<and> (fst r < snd r \<longrightarrow> bf dvd fst r \<and> (bf dvd snd r \<or> snd r = l))"
  using assms high_edge.slice_bounds [OF assms(2,3), of w ways] high_edge.range_ordered [OF assms(2,3), of w ways]
    task_slice_start_aligned [OF assms(2,3), of w ways] task_slice_end_aligned [OF assms(2,3), of w ways]
    high_edge.range_retired [of w ways l bf]
  by (cases "0 \<le> w \<and> w < ways") auto

lemma tile_facts:
  assumes "driver_tile thread m n lcntx = ((js, je), (is, ie))" "0 \<le> m" "0 \<le> n" "blksz_ok (cx_blksz lcntx)"
  shows "0 \<le> js" "je \<le> n" "0 \<le> is" "ie \<le> m" "js < je \<Longrightarrow> bs_NR (cx_blksz lcntx) dvd js" "js < je \<Longrightarrow> bs_NR (cx_blksz lcntx) dvd je \<or> je = n"
proof -
  obtain tj ti where t: "dlp_gemm_gen_dlp_task_ids (Some thread) = (tj, ti)" by force
  have "(js, je) = task_slice False n (bs_NR (cx_blksz lcntx)) (n_way tj) (work_id tj)"
    "(is, ie) = task_slice False m (bs_MR (cx_blksz lcntx)) (n_way ti) (work_id ti)"
    using assms(1) by (simp_all add: driver_tile_def t task_range_eq_slice)
  from thread_slice [OF this(1) assms(3)] thread_slice [OF this(2) assms(2)] assms(4)
  show "0 \<le> js" "je \<le> n" "0 \<le> is" "ie \<le> m" "js < je \<Longrightarrow> bs_NR (cx_blksz lcntx) dvd js" "js < je \<Longrightarrow> bs_NR (cx_blksz lcntx) dvd je \<or> je = n"
    by auto
qed

lemma call_located:
  fixes jc nc0 pc kc0 ic mc0 jr :: md_t and nest :: fp_nest and lcntx :: dlp_gemm_cntx_t
  defines "NC \<equiv> bs_NC (cx_blksz lcntx)" and "NR \<equiv> bs_NR (cx_blksz lcntx)"
  assumes ok: "blksz_ok (cx_blksz lcntx)" and cols: "cols_ok g bf NC (ne_min_NR nest) js je jc" and d: "depth_ok g (bs_KC (cx_blksz lcntx)) pc kc0"
    and rows: "rows_ok (bs_MC (cx_blksz lcntx)) is ie ic mc0" and nc0: "nc0 = fst (snd (snd (fp_panel g NC (ne_min_NR nest) jc je)))"
    and jr: "0 \<le> jr" "jr < nc0" "if ne_panels nest then NR dvd jr else jr = 0"
    and tile: "0 \<le> js" "je \<le> fa_n g" "0 \<le> is" "ie \<le> fa_m g"
    and align: "in_place \<Longrightarrow> bf = NR \<and> (NR dvd je \<or> je = fa_n g)"
    and c: "plain_c \<Longrightarrow> c = Matrix (fa_cs_c g * jc) \<and> rs = fa_rs_c g \<and> \<not> ne_local_rows nest \<and> (ne_panels nest \<longrightarrow> fa_cs_c g = 1)"
    and a: "in_place \<Longrightarrow> fa_mtag_a g = UNPACKED \<Longrightarrow> fst a = Matrix (fa_rs_a g * ic + fa_cs_a g * pc)"
    and b_plain: "in_place \<Longrightarrow> fa_mtag_b g = UNPACKED \<Longrightarrow> fst (fst b) = Matrix (fa_rs_b g * pc + fa_cs_b g * jc) \<and> snd b = fa_cs_b g"
    and b_reord: "in_place \<Longrightarrow> fa_mtag_b g = REORDERED \<Longrightarrow> \<exists>cur rem nsub. fp_panel g NC (ne_min_NR nest) jc je = (cur, rem, nc0, nsub) \<and>
        fst (fst b) = Matrix (cur * dlp_make_multiple_of_n (fa_k g) kf + nsub * pc + rem * dlp_make_multiple_of_n kc0 kf) \<and>
        snd b = dlp_make_multiple_of_n kc0 kf"
  shows "fp_located plain_c in_place kf (ne_min_NR nest) (cx_blksz lcntx) g
    (Compute (nest_call nest g lcntx jc nc0 pc kc0 ic mc0 a b (fp_plus c (rs * (if ne_local_rows nest then ic - is else ic)), rs) jr))"
proof -
  let ?call = "nest_call nest g lcntx jc nc0 pc kc0 ic mc0 a b (fp_plus c (rs * (if ne_local_rows nest then ic - is else ic)), rs) jr"
  have pos: "0 < NC" "0 < NR" "0 < bs_MC (cx_blksz lcntx)" "0 < bs_KC (cx_blksz lcntx)" using ok by (auto simp: NC_def NR_def)
  have jc: "js \<le> jc" "jc < je" "0 \<le> jc" using cols tile(1) by (auto simp: cols_ok_def)
  note ch = fp_chunk [OF pos(1) jc(3,2), of g "ne_min_NR nest", folded nc0]
  have w: "fc_nr0 ?call = (if ne_panels nest then dlp_min (nc0 - jr) NR else nc0)" "fc_nr0 ?call \<le> nc0 - jr" "0 < fc_nr0 ?call"
    using jr pos(2) by (auto simp: nest_call_def Let_def dlp_min_def NR_def)
  have inside: "block_inside g ?call"
    using w ch jr jc tile rows d pos(3,4) by (auto simp: block_inside_def nest_call_def Let_def rows_ok_def depth_ok_def dlp_min_def)
  have C: "fc_c ?call = Matrix (fa_rs_c g * post_op_c_i (fc_attr ?call) + fa_cs_c g * post_op_c_j (fc_attr ?call))" if plain_c
    using c [OF that] jr by (cases "ne_panels nest") (auto simp: nest_call_def Let_def algebra_simps)
  have A: "fc_a ?call = Matrix (fa_rs_a g * post_op_c_i (fc_attr ?call) + fa_cs_a g * fc_pc ?call)" if "in_place" "fa_mtag_a g = UNPACKED"
    using a [OF that] by (simp add: nest_call_def Let_def)
  have B: "fc_b ?call = Matrix (fa_rs_b g * fc_pc ?call + fa_cs_b g * post_op_c_j (fc_attr ?call))" if "in_place" "fa_mtag_b g = UNPACKED"
    using b_plain [OF that] by (simp add: nest_call_def Let_def algebra_simps)
  have R: "placed_B kf (ne_min_NR nest) (cx_blksz lcntx) g (fc_pc ?call) (fc_kc0 ?call) (post_op_c_j (fc_attr ?call)) (fc_nr0 ?call) (fc_b ?call)"
    if ip: "in_place" and re: "fa_mtag_b g = REORDERED" and rb: "reorder_blocks NR (ne_min_NR nest) NC (bs_KC (cx_blksz lcntx)) kf (fa_n g) (fa_k g)"
  proof -
    obtain cur rm nsub where p: "fp_panel g NC (ne_min_NR nest) jc je = (cur, rm, nc0, nsub)"
      "fst (fst b) = Matrix (cur * dlp_make_multiple_of_n (fa_k g) kf + nsub * pc + rm * dlp_make_multiple_of_n kc0 kf)"
      "snd b = dlp_make_multiple_of_n kc0 kf" using b_reord [OF ip re] by auto
    have NRc: "NR dvd jc" using cols align [OF ip] reorder_blocks.panel(2) [OF rb] by (simp add: cols_ok_def)
    show ?thesis
      using reorder_blocks.panel_placed [OF rb re refl refl _ _ _ jc(3,2) tile(2) NRc _ p(1), of "cx_blksz lcntx" pc kc0 jr "ne_panels nest"]
        align [OF ip] d jr p(2,3) w(1) by (simp add: nest_call_def Let_def depth_ok_def NR_def NC_def)
  qed
  show ?thesis using inside C A B R unfolding fp_located.simps NR_def [symmetric] NC_def [symmetric] by blast
qed

end
