(* ===== verification/Fp_Operands.thy ===== *)
theory Fp_Operands
  imports Fp_Place
begin

text \<open>
  What several floating-point drivers do for their operands in the same way: the packing of a chunk of B by the threads of
  a column group, the operand B of the matrix-vector runs, and the release of the buffers. \<open>esize\<close> is the size of an
  element in bytes, \<open>min_NR\<close> the width buffers are rounded to. \<open>nest_located\<close> turns what a driver's providers return into
  the contract \<open>nest_operands\<close> with the property \<open>fp_located\<close>.
\<close>

section \<open>Shared steps of the drivers\<close>

text \<open>A chunk of B packed by a column group: the chief allocates and shares the buffer, and between two barriers each
  thread packs its panels.\<close>

definition group_pack ::
  "md_t \<Rightarrow> md_t \<Rightarrow> pack_strides \<Rightarrow> fp_args \<Rightarrow> dlp_gemm_cntx_t \<Rightarrow> dlp_task_id_t \<Rightarrow> dlp_task_id_t \<Rightarrow> md_t \<Rightarrow> md_t \<Rightarrow> md_t \<Rightarrow> md_t \<Rightarrow> md_t \<Rightarrow>
   drv_buffers \<Rightarrow> drv_buffers \<times> fp_action list \<times> (fp_pointer \<times> md_t \<times> md_t) \<times> md_t" where
  "group_pack esize min_NR packb g lcntx thread_jc thread_ic jc nc0 pc kc0 kc0_updated s =
     (let jc_work_id = work_id thread_jc;
          mem_b_size_req = esize * dlp_make_multiple_of_n nc0 min_NR * kc0_updated;
          chief = (if dlp_thread_am_ochief thread_ic
                   then (if have_b s then [] else [Get_b mem_b_size_req]) @ [Share_b jc_work_id] else []);
          wait = Meet jc_work_id (ocomm_id thread_ic);
          (jc_packb_start, jc_packb_end) = dlp_thread_task_range thread_ic nc0 (bs_NR (cx_blksz lcntx)) False;
          mine = (jc_packb_end > jc_packb_start \<and> jc_packb_start < jc + nc0);
          strides = (if mine then packb (fa_rs_b g) (fa_cs_b g) (jc_packb_end - jc_packb_start) kc0 else dlp_gemm_get_packb_strides lcntx);
          fill = (if mine then [Fill_b (fa_rs_b g * pc + fa_cs_b g * jc + fa_cs_b g * jc_packb_start) (jc_packb_start * kc0_updated)
                                  (jc_packb_end - jc_packb_start) kc0] else [])
      in (s\<lparr>have_b := True\<rparr>, chief @ [wait] @ fill @ [wait], (Buffer 0, strides), kc0_updated))"

text \<open>The end of a run: the group meets, its chief frees the buffer of B, and each thread frees its buffer of A.\<close>

definition group_end :: "fp_args \<Rightarrow> dlp_task_id_t \<Rightarrow> dlp_task_id_t \<Rightarrow> drv_buffers \<Rightarrow> fp_action list" where
  "group_end g thread_jc thread_ic s =
     (if fa_mtag_b g = PACK
      then [Meet (work_id thread_jc) (ocomm_id thread_jc)] @ (if dlp_thread_am_ochief thread_ic \<and> have_b s then [Drop_b] else [])
      else [])"

definition free_a :: "fp_args \<Rightarrow> drv_buffers \<Rightarrow> fp_action list" where
  "free_a g s = (if fa_mtag_a g = PACK \<and> have_a s then [Drop_a] else [])"

text \<open>The vector B of a one-column run: what is done first, the operand, and what is done last.\<close>

definition column_b :: "md_t \<Rightarrow> fp_args \<Rightarrow> fp_action list \<times> (fp_pointer \<times> md_t \<times> md_t) \<times> fp_action list" where
  "column_b esize g =
     (if fa_mtag_b g = REORDERED then ([], (Matrix 0, 1, 1), [])
      else if fa_rs_b g \<noteq> 1 then ([Get_b (esize * fa_k g), Fill_b 0 0 1 (fa_k g)], (Buffer 0, 1, 1), [Drop_b])
      else ([], (Matrix 0, fa_rs_b g, fa_cs_b g), []))"

text \<open>The operand A of the matrix-vector runs: a block of rows, and the single row, copied when A is to be packed.\<close>

definition column_a :: "md_t \<Rightarrow> pack_strides \<Rightarrow> fp_args \<Rightarrow> md_t \<Rightarrow> md_t \<Rightarrow> drv_buffers \<Rightarrow> drv_buffers \<times> fp_action list \<times> (fp_pointer \<times> md_t \<times> md_t \<times> md_t)" where
  "column_a esize packa g ic mc0 s =
     (let k = fa_k g
      in if fa_mtag_a g = PACK
         then (let (rs_a_use, cs_a_use) = packa (fa_rs_a g) (fa_cs_a g) mc0 k
               in (s\<lparr>have_a := True\<rparr>, (if have_a s then [] else [Get_a (esize * mc0 * k)]) @ [Fill_a (fa_rs_a g * ic) mc0 k],
                   (Buffer 0, rs_a_use, cs_a_use, 1)))
         else (s, [], (Matrix (ic * fa_rs_a g), fa_rs_a g, fa_cs_a g, 1)))"

definition row_a :: "md_t \<Rightarrow> md_t \<Rightarrow> pack_strides \<Rightarrow> fp_args \<Rightarrow> fp_action list \<times> (fp_pointer \<times> md_t \<times> md_t \<times> md_t) \<times> fp_action list" where
  "row_a esize cs_a packa g =
     (let k = fa_k g
      in if fa_mtag_a g = PACK
         then (let (rs_a_use, cs_a_use) = packa (fa_rs_a g) (fa_cs_a g) 1 k
               in ([Get_a (esize * k), Fill_a 0 1 k], (Buffer 0, rs_a_use, cs_a_use, 1), [Drop_a]))
         else ([], (Matrix 0, fa_rs_a g, cs_a, 1), []))"

text \<open>The chunk of B of a one-row run, with the width and offset of its panel.\<close>

definition row_b ::
  "md_t \<Rightarrow> md_t \<Rightarrow> md_t \<times> md_t \<Rightarrow> pack_strides \<Rightarrow> fp_args \<Rightarrow> md_t \<Rightarrow> md_t \<Rightarrow> md_t \<Rightarrow> md_t \<times> md_t \<times> md_t \<times> md_t \<Rightarrow> drv_buffers \<Rightarrow>
   (drv_buffers \<times> fp_action list \<times> (fp_pointer \<times> md_t \<times> md_t) \<times> (md_t \<times> md_t)) option" where
  "row_b esize min_NR reordered_strides packb g KC jc jc_end panel s =
     (let (jc_cur_loop, jc_cur_loop_rem, nc0, n_sub_updated) = panel
      in if fa_mtag_b g = REORDERED
         then Some (s, [], (Matrix (jc_cur_loop * fa_k g), reordered_strides), (n_sub_updated, jc_cur_loop_rem))
         else if fa_mtag_b g = PACK then
           let nc0_updated = dlp_make_multiple_of_n nc0 min_NR
           in map_option (\<lambda>(strides, fills).
                (s\<lparr>have_b := True\<rparr>, (if have_b s then [] else [Get_b (esize * nc0_updated * fa_k g)]) @ fills,
                 (Buffer 0, strides), (nc0_updated, jc_cur_loop_rem)))
                (fp_fill_loop packb g KC jc nc0 nc0_updated)
         else Some (s, [], (Matrix (jc * fa_cs_b g), fa_rs_b g, fa_cs_b g), (n_sub_updated, jc_cur_loop_rem)))"

definition free_b :: "fp_args \<Rightarrow> drv_buffers \<Rightarrow> fp_action list" where
  "free_b g s = (if fa_mtag_b g = PACK \<and> have_b s then [Drop_b] else [])"

section \<open>They compute nothing\<close>

lemma located_quiet: "list_all no_compute acts \<Longrightarrow> list_all (fp_located plain_c in_place kf min_NR b g) acts"
proof (induction acts)
  case (Cons a acts)
  then show ?case by (cases a) simp_all
qed simp

lemma group_pack_quiet:
  "group_pack esize min_NR packb g lcntx tj ti jc nc0 pc kc0 kcu s = (s', acts, b) \<Longrightarrow> list_all no_compute acts"
  by (auto simp: group_pack_def Let_def split: prod.splits if_splits)

lemma end_quiet: "list_all no_compute (group_end g tj ti s)" "list_all no_compute (free_a g s)" "list_all no_compute (free_b g s)"
  by (auto simp: group_end_def free_a_def free_b_def)

lemma column_b_quiet: "column_b esize g = (pre, b, post) \<Longrightarrow> list_all no_compute pre \<and> list_all no_compute post"
  by (auto simp: column_b_def split: if_splits)

lemma column_a_quiet: "column_a esize packa g ic mc0 s = (s', acts, a) \<Longrightarrow> list_all no_compute acts"
  by (auto simp: column_a_def Let_def split: if_splits prod.splits)

lemma row_a_quiet: "row_a esize cs packa g = (pre, a, post) \<Longrightarrow> list_all no_compute pre \<and> list_all no_compute post"
  by (auto simp: row_a_def Let_def split: if_splits prod.splits)

lemma row_b_quiet:
  assumes "0 < KC"
  shows "\<exists>s' acts b p. row_b esize min_NR rst packb g KC jc je panel s = Some (s', acts, b, p) \<and> list_all no_compute acts"
proof -
  obtain cur rm nc0 nsub where p: "panel = (cur, rm, nc0, nsub)" by (metis prod_cases4)
  obtain st fills where f: "fp_fill_loop packb g KC jc nc0 (dlp_make_multiple_of_n nc0 min_NR) = Some (st, fills)" "list_all no_compute fills"
    using fill_loop_quiet [OF assms, of "\<lambda>_. True" packb g jc nc0 "dlp_make_multiple_of_n nc0 min_NR"] by auto
  show ?thesis using f by (auto simp: p row_b_def Let_def)
qed

section \<open>From the providers to the contract\<close>

lemma nest_located:
  fixes nest :: fp_nest and lcntx :: dlp_gemm_cntx_t
  defines "NC \<equiv> bs_NC (cx_blksz lcntx)" and "NR \<equiv> bs_NR (cx_blksz lcntx)" and "KC \<equiv> bs_KC (cx_blksz lcntx)"
  assumes ok: "blksz_ok (cx_blksz lcntx)" and tile: "0 \<le> js" "je \<le> fa_n g" "0 \<le> is" "ie \<le> fa_m g"
    and align: "\<And>jc. in_place \<Longrightarrow> js \<le> jc \<Longrightarrow> jc < je \<Longrightarrow> bf = NR \<and> (NR dvd je \<or> je = fa_n g)"
    and c: "\<And>jc nc0 s s' acts c rs. ne_c nest jc je nc0 is ie s = (s', acts, c, rs) \<Longrightarrow> list_all no_compute acts \<and>
      (plain_c \<longrightarrow> c = Matrix (fa_cs_c g * jc) \<and> rs = fa_rs_c g \<and> \<not> ne_local_rows nest \<and> (ne_panels nest \<longrightarrow> fa_cs_c g = 1))"
    and a: "\<And>pc kc0 ic mc0 s s' acts a. ne_a nest pc kc0 ic mc0 s = (s', acts, a) \<Longrightarrow> list_all no_compute acts \<and>
      (in_place \<longrightarrow> fa_mtag_a g = UNPACKED \<longrightarrow> fst a = Matrix (fa_rs_a g * ic + fa_cs_a g * pc))"
    and b: "\<And>jc panel pc kc0 s s' acts b. depth_ok g KC pc kc0 \<Longrightarrow> ne_b nest jc je panel pc kc0 s = (s', acts, b) \<Longrightarrow> list_all no_compute acts \<and>
      (in_place \<longrightarrow> fa_mtag_b g = UNPACKED \<longrightarrow> fst (fst b) = Matrix (fa_rs_b g * pc + fa_cs_b g * jc) \<and> snd b = fa_cs_b g) \<and>
      (in_place \<longrightarrow> fa_mtag_b g = REORDERED \<longrightarrow>
        fst (fst b) = Matrix (fst panel * dlp_make_multiple_of_n (fa_k g) kf + snd (snd (snd panel)) * pc + fst (snd panel) * dlp_make_multiple_of_n kc0 kf) \<and>
        snd b = dlp_make_multiple_of_n kc0 kf)"
  shows "nest_operands nest g lcntx bf is ie js je (fp_located plain_c in_place kf (ne_min_NR nest) (cx_blksz lcntx) g)"
proof
  show "blksz_ok (cx_blksz lcntx)" by (rule ok)
next
  fix jc s s' acts cc
  assume "ne_c nest jc je (fst (snd (snd (fp_panel g (bs_NC (cx_blksz lcntx)) (ne_min_NR nest) jc je)))) is ie s = (s', acts, cc)"
  then show "list_all (fp_located plain_c in_place kf (ne_min_NR nest) (cx_blksz lcntx) g) acts \<and> list_all no_compute acts"
    using c by (cases cc) (auto intro: located_quiet)
next
  fix jc pc kc0 s s' acts bb
  assume "depth_ok g (bs_KC (cx_blksz lcntx)) pc kc0" "ne_b nest jc je (fp_panel g (bs_NC (cx_blksz lcntx)) (ne_min_NR nest) jc je) pc kc0 s = (s', acts, bb)"
  then have "list_all no_compute acts" unfolding KC_def [symmetric] by (rule b [THEN conjunct1])
  then show "list_all (fp_located plain_c in_place kf (ne_min_NR nest) (cx_blksz lcntx) g) acts \<and> list_all no_compute acts"
    by (simp add: located_quiet)
next
  fix pc kc0 ic mc0 s s' acts aa
  assume "ne_a nest pc kc0 ic mc0 s = (s', acts, aa)"
  then show "list_all (fp_located plain_c in_place kf (ne_min_NR nest) (cx_blksz lcntx) g) acts \<and> list_all no_compute acts"
    using a [THEN conjunct1] by (simp add: located_quiet)
next
  fix jc pc kc0 ic mc0 jr nc0 s1 s1' acts1 cc rs s2 s2' acts2 bb s3 s3' acts3 aa
  let ?panel = "fp_panel g (bs_NC (cx_blksz lcntx)) (ne_min_NR nest) jc je"
  assume h: "cols_ok g bf (bs_NC (cx_blksz lcntx)) (ne_min_NR nest) js je jc" "depth_ok g (bs_KC (cx_blksz lcntx)) pc kc0"
    "rows_ok (bs_MC (cx_blksz lcntx)) is ie ic mc0" "nc0 = fst (snd (snd ?panel))" "0 \<le> jr" "jr < nc0"
    "if ne_panels nest then bs_NR (cx_blksz lcntx) dvd jr else jr = 0" "ne_c nest jc je nc0 is ie s1 = (s1', acts1, cc, rs)"
    "ne_b nest jc je ?panel pc kc0 s2 = (s2', acts2, bb)" "ne_a nest pc kc0 ic mc0 s3 = (s3', acts3, aa)"
  obtain cur rm w nsub where p: "?panel = (cur, rm, w, nsub)" by (metis prod_cases4)
  have B: "(in_place \<longrightarrow> fa_mtag_b g = UNPACKED \<longrightarrow> fst (fst bb) = Matrix (fa_rs_b g * pc + fa_cs_b g * jc) \<and> snd bb = fa_cs_b g) \<and>
      (in_place \<longrightarrow> fa_mtag_b g = REORDERED \<longrightarrow>
        fst (fst bb) = Matrix (cur * dlp_make_multiple_of_n (fa_k g) kf + nsub * pc + rm * dlp_make_multiple_of_n kc0 kf) \<and>
        snd bb = dlp_make_multiple_of_n kc0 kf)"
    using b [OF h(2) [folded KC_def] h(9)] unfolding p by simp
  show "fp_located plain_c in_place kf (ne_min_NR nest) (cx_blksz lcntx) g
    (Compute (nest_call nest g lcntx jc nc0 pc kc0 ic mc0 aa bb (fp_plus cc (rs * (if ne_local_rows nest then ic - is else ic)), rs) jr))"
  proof (rule call_located [OF ok h(1-7) tile])
    show "bf = bs_NR (cx_blksz lcntx) \<and> (bs_NR (cx_blksz lcntx) dvd je \<or> je = fa_n g)" if "in_place"
      using align [OF that, of jc] h(1) by (auto simp: cols_ok_def NR_def)
  qed (use B p c [OF h(8)] a [OF h(10)] h(4) in auto)
qed

text \<open>A run with the same steps at every element.\<close>

lemma every_step:
  assumes "\<And>i j. yields P i j r (Y i j)"
  shows "\<exists>s xs. r = Some (s, xs) \<and> list_all P xs \<and> (\<forall>i j. fp_steps i j xs = Y i j)"
  using assms unfolding yields_def by (metis option.inject prod.inject)

text \<open>What a driver's five loops do over its tile.\<close>

lemma nest_run:
  assumes "nest_operands nest g lcntx bf is ie js je P" "0 \<le> js" "js < je \<Longrightarrow> bf dvd js"
  shows "\<exists>s xs. fp_jc_loop nest g lcntx ((js, je), (is, ie)) no_buffers = Some (s, xs) \<and> list_all P xs \<and>
    (\<forall>i j. fp_steps i j xs = (if in_tile ((js, je), (is, ie)) i j then all_blocks g (bs_KC (cx_blksz lcntx)) else []))"
  by (rule every_step [OF nest_operands.nest_yields [OF assms]])

section \<open>Whole runs\<close>

text \<open>A run ends, all it does satisfies \<open>P\<close>, and its steps on each element are \<open>Y\<close>.\<close>

definition runs_as :: "(fp_action \<Rightarrow> bool) \<Rightarrow> (md_t \<Rightarrow> md_t \<Rightarrow> fp_step list) \<Rightarrow> fp_action list option \<Rightarrow> bool" where
  "runs_as P Y r \<longleftrightarrow> (\<exists>acts. r = Some acts \<and> list_all P acts \<and> (\<forall>i j. fp_steps i j acts = Y i j))"

lemma runs_asI:
  assumes "\<exists>s xs. r = Some (s, xs) \<and> list_all (fp_located pc ip kf mn bl g) xs \<and> (\<forall>i j. fp_steps i j xs = Y i j)"
    and "list_all no_compute pre" "\<And>s. list_all no_compute (post s)"
  shows "runs_as (fp_located pc ip kf mn bl g) Y (map_option (\<lambda>(s, acts). pre @ acts @ post s) r)"
  using assms located_quiet [OF assms(2)] located_quiet [OF assms(3)] fp_steps_quiet [OF assms(2)] fp_steps_quiet [OF assms(3)]
  by (auto simp: runs_as_def)

text \<open>The steps of a driver's run: one block of depth in a matrix-vector run, all blocks otherwise, on the elements of
  the thread's share.\<close>

definition share_steps :: "bool \<Rightarrow> md_t \<Rightarrow> dlp_gemm_cntx_t \<Rightarrow> md_t \<Rightarrow> fp_args \<Rightarrow> dlp_gemm_thrinfo_t \<Rightarrow> md_t \<Rightarrow> md_t \<Rightarrow> fp_step list" where
  "share_steps gemv bf cx KC g thread i j =
     (if share gemv bf cx (fa_m g) (fa_n g) thread i j then (if gemv then one_block g else all_blocks g KC) else [])"

lemma gemv_range_inside:
  assumes "0 \<le> len" "0 < bf"
  shows "0 \<le> fst (gemv_range len bf ways thread)" "snd (gemv_range len bf ways thread) \<le> len"
  using thread_slice [OF refl assms] by (simp_all add: gemv_range_def)

lemma rows_run:
  assumes "fa_n g = 1" "0 \<le> fa_m g" "0 < fa_k g" "0 < bf" "0 < MC"
    and quiet: "\<And>ic mc0 s s' acts a. a_op ic mc0 s = (s', acts, a) \<Longrightarrow> list_all no_compute acts"
  shows "\<exists>s xs. fp_rows_loop g (MC) a_op b_use (gemv_rows thread (fa_m g) bf) = Some (s, xs) \<and>
    list_all (fp_located True False kf mn bl g) xs \<and> (\<forall>i j. fp_steps i j xs = share_steps True bf cx KC g thread i j)"
proof -
  let ?r = "gemv_range (fa_m g) bf (thr_ic_ways thread) thread"
  note r = gemv_range_inside [OF assms(2,4), of "thr_ic_ways thread" thread]
  have "yields (fp_located True False kf mn bl g) i j (fp_rows_loop g (MC) a_op b_use (fst ?r, snd ?r))
      (if fst ?r \<le> i \<and> i < snd ?r \<and> j = 0 then one_block g else [])" for i j
  proof (rule rows_yields [OF assms(5)], goal_cases)
    case (1 ic mc0 s s' acts a)
    then show ?case using quiet by (blast intro: located_quiet)
  next
    case (2 ic mc0 c)
    then show ?case using r assms(1,3,5) by (auto simp: row_call_def rows_ok_def block_inside_def dlp_min_def)
  qed
  from every_step [OF this] show ?thesis using assms(1) by (simp add: gemv_rows_eq share_steps_def share_def Let_def)
qed

lemma cols_run:
  assumes "fa_m g = 1" "fa_n g \<noteq> 1" "0 \<le> fa_n g" "0 < fa_k g" "0 < bs_NR (cx_blksz cx)" "0 < NC"
    and quiet: "\<And>jc panel s. \<exists>s' acts b p. b_op jc (snd (gemv_cols thread (fa_n g) (bs_NR (cx_blksz cx)))) panel s = Some (s', acts, b, p) \<and> list_all no_compute acts"
    and c_step: "plain_c \<Longrightarrow> c_step = fa_cs_c g"
  shows "\<exists>s xs. fp_cols_loop g NC min_NR a_use b_op c_step cs_c (gemv_cols thread (fa_n g) (bs_NR (cx_blksz cx))) = Some (s, xs) \<and>
    list_all (fp_located plain_c False kf mn bl g) xs \<and> (\<forall>i j. fp_steps i j xs = share_steps True bf cx KC g thread i j)"
proof -
  let ?r = "gemv_range (fa_n g) (bs_NR (cx_blksz cx)) (thr_jc_ways thread) thread"
  note r = gemv_range_inside [OF assms(3) assms(5), of "thr_jc_ways thread" thread]
  have "yields (fp_located plain_c False kf mn bl g) i j (fp_cols_loop g NC min_NR a_use b_op c_step cs_c (fst ?r, snd ?r))
      (if fst ?r \<le> j \<and> j < snd ?r \<and> i = 0 then one_block g else [])" for i j
  proof (rule cols_yields [OF assms(6) r(1)], goal_cases)
    case (1 jc s)
    show ?case using quiet [of jc _ s] unfolding gemv_cols_eq by (blast intro: located_quiet)
  next
    case (2 jc nc0 c)
    then show ?case using r assms(1,4) c_step by (auto simp: col_call_def block_inside_def algebra_simps)
  qed
  from every_step [OF this] show ?thesis using assms(1,2) by (simp add: gemv_cols_eq share_steps_def share_def Let_def)
qed

lemma tile_run:
  assumes "nest_operands nest g lcntx bf is ie js je P" "0 \<le> js" "js < je \<Longrightarrow> bf dvd js"
    and "driver_tile thread (fa_m g) (fa_n g) cx = ((js, je), (is, ie))"
  shows "\<exists>s xs. fp_jc_loop nest g lcntx (driver_tile thread (fa_m g) (fa_n g) cx) no_buffers = Some (s, xs) \<and> list_all P xs \<and>
    (\<forall>i j. fp_steps i j xs = share_steps False rows cx (bs_KC (cx_blksz lcntx)) g thread i j)"
  using nest_run [OF assms(1-3)] by (simp add: assms(4) share_steps_def share_def)

end
