(* ===== verification/F32_Driver.thy ===== *)
theory F32_Driver
  imports Fp_Operands
begin

text \<open>
  The driver of the \<open>float\<close> GEMM: its operands in the five loops, the two matrix-vector branches, and the whole run of a
  thread. The packing kernels, the features of the CPU and the kernel handle are parameters, collected in \<open>f32_env\<close>.
\<close>

section \<open>The driver\<close>

record f32_env =
  f32_kernels_zen4 :: bool
  avx512 :: bool
  avx2fma3 :: bool
  arch_zen3 :: bool
  kernel_base :: bool
  kernel_rd :: bool
  packa_mr8 :: pack_strides
  packa_mr16 :: pack_strides
  packa_fun :: pack_strides
  packb_fun :: pack_strides

definition f32_packa :: "f32_env \<Rightarrow> pack_strides" where
  "f32_packa e = (if f32_kernels_zen4 e \<and> avx512 e then (if arch_zen3 e then packa_mr8 e else packa_mr16 e) else packa_mr8 e)"

definition f32_n1 :: "f32_env \<Rightarrow> fp_args \<Rightarrow> dlp_gemm_cntx_t \<Rightarrow> dlp_gemm_thrinfo_t \<Rightarrow> fp_action list option" where
  "f32_n1 e g lcntx thread =
     (let k = fa_k g;
          (pre, b_use, post) = column_b 4 g;
          a_op = (\<lambda>ic mc0 s.
            if fa_cs_a g \<noteq> 1
            then (let (rs_a_use, cs_a_use) = f32_packa e (fa_rs_a g) (fa_cs_a g) mc0 k
                  in (s\<lparr>have_a := True\<rparr>, (if have_a s then [] else [Get_a (4 * mc0 * k)]) @ [Fill_a (ic * fa_rs_a g) mc0 k],
                      (Buffer 0, rs_a_use, cs_a_use, 1)))
            else (s, [], (Matrix (ic * fa_rs_a g), fa_rs_a g, fa_cs_a g, 1)))
      in map_option (\<lambda>(s, acts). pre @ acts @ (if have_a s then [Drop_a] else []) @ post)
           (fp_rows_loop g (bs_MC (cx_blksz lcntx)) a_op b_use (gemv_rows thread (fa_m g) (bs_MR (cx_blksz lcntx)))))"

text \<open>The row A of a one-row run: what is done first, the operand, and what is done last.\<close>

definition f32_row_a :: "f32_env \<Rightarrow> fp_args \<Rightarrow> fp_action list \<times> (fp_pointer \<times> md_t \<times> md_t \<times> md_t) \<times> fp_action list" where
  "f32_row_a e g =
     (let k = fa_k g
      in if fa_cs_a g \<noteq> 1
         then (let (rs_a_use, cs_a_use) = f32_packa e (fa_rs_a g) (fa_cs_a g) 1 k
               in ([Get_a (4 * k), Fill_a 0 1 k], (Buffer 0, rs_a_use, cs_a_use, 1), [Drop_a]))
         else ([], (Matrix 0, fa_rs_a g, fa_cs_a g, 1), []))"

definition f32_m1 :: "f32_env \<Rightarrow> fp_args \<Rightarrow> dlp_gemm_cntx_t \<Rightarrow> dlp_gemm_thrinfo_t \<Rightarrow> fp_action list option" where
  "f32_m1 e g lcntx thread =
     (let NR = bs_NR (cx_blksz lcntx);
          NC = bs_NC (cx_blksz lcntx);
          (pre, a_use, post) = f32_row_a e g
      in map_option (\<lambda>(s, acts). pre @ acts @ post @ free_b g s)
           (fp_cols_loop g NC NR a_use (row_b 4 NR (NR, 1) (packb_fun e) g (bs_KC (cx_blksz lcntx))) (fa_cs_c g) (fa_cs_c g)
              (gemv_cols thread (fa_n g) NR)))"

definition f32_a_operand :: "f32_env \<Rightarrow> fp_args \<Rightarrow> dlp_gemm_cntx_t \<Rightarrow> a_provider" where
  "f32_a_operand e g lcntx pc kc0 ic mc0 s =
     (let MR = bs_MR (cx_blksz lcntx)
      in if fa_mtag_a g = REORDERED then
           let m_updated = (fa_m g + MR - 1) sdiv MR * MR
           in (s, [], (Matrix (pc * m_updated + kc0 * ic), 1, MR, MR * kc0))
         else if fa_mtag_a g = PACK then
           let mc0_updated = (mc0 + MR - 1) sdiv MR * MR;
               mem_a_size_req = 4 * mc0_updated * kc0;
               (rs_a_use, cs_a_use) = packa_fun e (fa_rs_a g) (fa_cs_a g) mc0 kc0
           in (s\<lparr>have_a := True\<rparr>, (if have_a s then [] else [Get_a mem_a_size_req]) @ [Fill_a (fa_rs_a g * ic + pc * fa_cs_a g) mc0 kc0],
               (Buffer 0, rs_a_use, cs_a_use, MR * kc0))
         else (s, [], (Matrix (fa_rs_a g * ic + pc * fa_cs_a g), fa_rs_a g, fa_cs_a g, MR * fa_rs_a g)))"

definition f32_b_operand :: "f32_env \<Rightarrow> fp_args \<Rightarrow> dlp_gemm_cntx_t \<Rightarrow> dlp_task_id_t \<Rightarrow> dlp_task_id_t \<Rightarrow> b_provider" where
  "f32_b_operand e g lcntx thread_jc thread_ic jc jc_end panel pc kc0 s =
     (let (jc_cur_loop, jc_cur_loop_rem, nc0, n_sub_updated) = panel;
          NR = bs_NR (cx_blksz lcntx)
      in if fa_mtag_b g = REORDERED
         then (s, [], (Matrix (jc_cur_loop * fa_k g + n_sub_updated * pc + jc_cur_loop_rem * kc0), NR, 1), kc0)
         else if fa_mtag_b g = PACK
         then group_pack 4 NR (packb_fun e) g lcntx thread_jc thread_ic jc nc0 pc kc0 kc0 s
         else (s, [], (Matrix (pc * fa_rs_b g + jc * fa_cs_b g), fa_rs_b g, fa_cs_b g), fa_cs_b g))"

definition f32_c_operand :: "fp_args \<Rightarrow> c_provider" where
  "f32_c_operand g jc jc_end nc0 ic_start ic_end s = (s, [], Matrix (jc * fa_cs_c g), fa_rs_c g)"

definition f32_nest :: "f32_env \<Rightarrow> fp_args \<Rightarrow> dlp_gemm_cntx_t \<Rightarrow> dlp_task_id_t \<Rightarrow> dlp_task_id_t \<Rightarrow> fp_nest" where
  "f32_nest e g lcntx thread_jc thread_ic =
     \<lparr>ne_panels = False, ne_min_NR = bs_NR (cx_blksz lcntx), ne_local_rows = False, ne_cs_c = fa_cs_c g,
      ne_a = f32_a_operand e g lcntx, ne_b = f32_b_operand e g lcntx thread_jc thread_ic, ne_c = f32_c_operand g\<rparr>"

text \<open>RD kernels read both matrices in place.\<close>

definition f32_tags :: "f32_env \<Rightarrow> fp_args \<Rightarrow> fp_args" where
  "f32_tags e g =
     (let invokeRD = (if kernel_base e then kernel_rd e else False)
      in if invokeRD then g\<lparr>fa_mtag_b := UNPACKED, fa_mtag_a := UNPACKED\<rparr> else g)"

definition f32_5loop :: "f32_env \<Rightarrow> fp_args \<Rightarrow> dlp_gemm_cntx_t \<Rightarrow> dlp_gemm_thrinfo_t \<Rightarrow> fp_action list option" where
  "f32_5loop e g lcntx thread =
     (let (thread_jc, thread_ic) = dlp_gemm_gen_dlp_task_ids (Some thread);
          tile = driver_tile thread (fa_m g) (fa_n g) lcntx;
          g = f32_tags e g
      in map_option (\<lambda>(s, acts). acts @ group_end g thread_jc thread_ic s @ free_a g s)
           (fp_jc_loop (f32_nest e g lcntx thread_jc thread_ic) g lcntx tile no_buffers))"

definition f32_gemv :: "f32_env \<Rightarrow> fp_args \<Rightarrow> bool" where
  "f32_gemv e g \<longleftrightarrow> (fa_m g = 1 \<or> fa_n g = 1) \<and> (avx512 e \<or> avx2fma3 e)"

definition dlp_gemm_rowvar_f32f32f32of32 ::
  "f32_env \<Rightarrow> fp_args \<Rightarrow> dlp_gemm_cntx_t \<Rightarrow> dlp_gemm_thrinfo_t \<Rightarrow> fp_action list option" where
  "dlp_gemm_rowvar_f32f32f32of32 e g lcntx thread =
     (if f32_gemv e g then (if fa_n g = 1 then f32_n1 e g lcntx thread else f32_m1 e g lcntx thread)
      else f32_5loop e g lcntx thread)"

section \<open>The operands keep their contract\<close>

lemma f32_tags_fields [simp]:
  "fa_m (f32_tags e g) = fa_m g" "fa_n (f32_tags e g) = fa_n g" "fa_k (f32_tags e g) = fa_k g"
  "share_steps gemv rows lcntx KC (f32_tags e g) thread = share_steps gemv rows lcntx KC g thread"
proof -
  have "depth_block_step (f32_tags e g) KC = depth_block_step g KC" for KC
    by (rule ext) (simp add: f32_tags_def Let_def depth_block_step_def)
  then show "share_steps gemv rows lcntx KC (f32_tags e g) thread = share_steps gemv rows lcntx KC g thread"
    by (intro ext) (simp add: f32_tags_def Let_def all_blocks_def one_block_def share_steps_def)
qed (simp_all add: f32_tags_def Let_def)

lemma f32_operands:
  assumes "blksz_ok (cx_blksz lcntx)" "0 \<le> fa_m g" "0 \<le> fa_n g" "0 \<le> fa_k g"
    and "driver_tile thread (fa_m g) (fa_n g) lcntx = ((js, je), (is, ie))"
  shows "nest_operands (f32_nest e g lcntx tj ti) g lcntx (bs_NR (cx_blksz lcntx)) is ie js je
    (fp_located True True 1 (bs_NR (cx_blksz lcntx)) (cx_blksz lcntx) g)"
proof -
  note t = tile_facts [OF assms(5,2,3,1)]
  have "nest_operands (f32_nest e g lcntx tj ti) g lcntx (bs_NR (cx_blksz lcntx)) is ie js je
    (fp_located True True 1 (ne_min_NR (f32_nest e g lcntx tj ti)) (cx_blksz lcntx) g)"
  proof (rule nest_located [OF assms(1) t(1-4)], goal_cases)
    case (1 jc)
    then show ?case using t(6) by simp
  next
    case (2 jc nc0 s s' acts c rs)
    then show ?case by (auto simp: f32_nest_def f32_c_operand_def)
  next
    case (3 pc kc0 ic mc0 s s' acts a)
    then show ?case by (auto simp: f32_nest_def f32_a_operand_def Let_def split: if_splits prod.splits)
  next
    case (4 jc panel pc kc0 s s' acts b)
    then have kc: "0 \<le> kc0" using assms(1) by (auto simp: depth_ok_def dlp_min_def)
    show ?case using 4 group_pack_quiet kc assms(4)
      by (auto simp: f32_nest_def f32_b_operand_def Let_def multiple_of_one split: if_splits prod.splits)
  qed
  then show ?thesis by (simp add: f32_nest_def)
qed

section \<open>The run of a thread\<close>

text \<open>The operands of the five loops lie where the effective tags say.\<close>

lemma f32_run:
  fixes g :: fp_args and lcntx :: dlp_gemm_cntx_t
  defines "NR \<equiv> bs_NR (cx_blksz lcntx)"
  assumes ok: "blksz_ok (cx_blksz lcntx)" and dims: "0 \<le> fa_m g" "0 \<le> fa_n g" "0 < fa_k g"
  shows "runs_as (fp_located True (\<not> f32_gemv e g) 1 NR (cx_blksz lcntx) (f32_tags e g)) (share_steps (f32_gemv e g) (bs_MR (cx_blksz lcntx)) lcntx (bs_KC (cx_blksz lcntx)) g thread)
    (dlp_gemm_rowvar_f32f32f32of32 e g lcntx thread)"
proof -
  let ?g = "f32_tags e g"
  obtain tj ti where ids: "dlp_gemm_gen_dlp_task_ids (Some thread) = (tj, ti)" by force
  obtain js je is' ie where tile: "driver_tile thread (fa_m g) (fa_n g) lcntx = ((js, je), (is', ie))" by (metis prod.exhaust)
  note t = tile_facts [OF tile dims(1,2) ok]
  have pos: "0 < bs_MR (cx_blksz lcntx)" "0 < bs_MC (cx_blksz lcntx)" "0 < bs_KC (cx_blksz lcntx)"
    "0 < bs_NR (cx_blksz lcntx)" "0 < bs_NC (cx_blksz lcntx)" using ok by auto
  have "runs_as (fp_located True True 1 NR (cx_blksz lcntx) ?g) (share_steps False (bs_MR (cx_blksz lcntx)) lcntx (bs_KC (cx_blksz lcntx)) g thread) (f32_5loop e g lcntx thread)"
  proof -
    have "nest_operands (f32_nest e ?g lcntx tj ti) ?g lcntx NR is' ie js je (fp_located True True 1 NR (cx_blksz lcntx) ?g)"
      unfolding NR_def by (rule f32_operands [OF ok]) (use dims tile in auto)
    from tile_run [OF this t(1), where thread = thread and cx = lcntx and rows = "bs_MR (cx_blksz lcntx)"] t(5) tile
    have "\<exists>s xs. fp_jc_loop (f32_nest e ?g lcntx tj ti) ?g lcntx (driver_tile thread (fa_m g) (fa_n g) lcntx) no_buffers = Some (s, xs) \<and>
        list_all (fp_located True True 1 NR (cx_blksz lcntx) ?g) xs \<and> (\<forall>i j. fp_steps i j xs = share_steps False (bs_MR (cx_blksz lcntx)) lcntx (bs_KC (cx_blksz lcntx)) g thread i j)"
      by (simp add: NR_def)
    from runs_asI [OF this, of "[]" "\<lambda>s. group_end ?g tj ti s @ free_a ?g s"] show ?thesis
      by (simp add: f32_5loop_def ids Let_def end_quiet)
  qed
  moreover have "runs_as (fp_located True False 1 NR (cx_blksz lcntx) g) (share_steps True (bs_MR (cx_blksz lcntx)) lcntx (bs_KC (cx_blksz lcntx)) g thread) (f32_n1 e g lcntx thread)"
    if "fa_n g = 1"
  proof -
    obtain pre b post where cb: "column_b 4 g = (pre, b, post)" by (metis prod_cases3)
    note q = column_b_quiet [OF cb]
    show ?thesis unfolding f32_n1_def Let_def cb prod.case
      by (rule runs_asI, rule rows_run [OF that dims(1,3) pos(1,2)]) (use q in \<open>auto split: if_splits prod.splits\<close>)
  qed
  moreover have "runs_as (fp_located True False 1 NR (cx_blksz lcntx) g) (share_steps True (bs_MR (cx_blksz lcntx)) lcntx (bs_KC (cx_blksz lcntx)) g thread) (f32_m1 e g lcntx thread)"
    if "fa_m g = 1" "fa_n g \<noteq> 1"
  proof -
    have quiet: "\<exists>s' acts b p. row_b 4 NR (NR, 1) (packb_fun e) g (bs_KC (cx_blksz lcntx)) jc je panel s = Some (s', acts, b, p) \<and> list_all no_compute acts"
      for jc je panel s by (rule row_b_quiet [OF pos(3)])
    have run: "\<exists>s xs. fp_cols_loop g (bs_NC (cx_blksz lcntx)) NR a_use (row_b 4 NR (NR, 1) (packb_fun e) g (bs_KC (cx_blksz lcntx))) (fa_cs_c g) (fa_cs_c g)
        (gemv_cols thread (fa_n g) NR) = Some (s, xs) \<and> list_all (fp_located True False 1 NR (cx_blksz lcntx) g) xs \<and>
        (\<forall>i j. fp_steps i j xs = share_steps True (bs_MR (cx_blksz lcntx)) lcntx (bs_KC (cx_blksz lcntx)) g thread i j)" for a_use
      unfolding NR_def by (rule cols_run [OF that dims(2,3) pos(4,5)]) (use quiet in \<open>auto simp: NR_def\<close>)
    obtain pre a_use post where op: "f32_row_a e g = (pre, a_use, post)" by (metis prod_cases3)
    then have "list_all no_compute pre" "list_all no_compute post" by (auto simp: f32_row_a_def Let_def split: if_splits prod.splits)
    then show ?thesis unfolding f32_m1_def Let_def NR_def [symmetric] op prod.case
      by (intro runs_asI [OF run]) (simp_all add: end_quiet)
  qed
  moreover have "fp_located True False 1 NR (cx_blksz lcntx) ?g = fp_located True False 1 NR (cx_blksz lcntx) g"
  proof
    show "fp_located True False 1 NR (cx_blksz lcntx) ?g a = fp_located True False 1 NR (cx_blksz lcntx) g a" for a
      by (cases a) (simp_all add: block_inside_def f32_tags_def Let_def)
  qed
  ultimately show ?thesis
    by (auto simp: dlp_gemm_rowvar_f32f32f32of32_def f32_gemv_def)
qed

end
