(* ===== verification/Fp_Half.thy ===== *)
theory Fp_Half
  imports Fp_Operands
begin

text \<open>
  The drivers with a B of \<open>float16\<close>: the product of two \<open>float16\<close> matrices, and that of a \<open>float\<close> A with a \<open>float16\<close> B. They
  share the operand B and the treatment of vectors; the second never packs A.
\<close>

section \<open>The shared operands\<close>

definition half_b_operand :: "md_t \<Rightarrow> pack_strides \<Rightarrow> fp_args \<Rightarrow> dlp_gemm_cntx_t \<Rightarrow> dlp_task_id_t \<Rightarrow> dlp_task_id_t \<Rightarrow> b_provider" where
  "half_b_operand min_NR packb g lcntx thread_jc thread_ic jc jc_end panel pc kc0 s =
     (let (jc_cur_loop, jc_cur_loop_rem, nc0, n_sub_updated) = panel;
          k_updated = fa_k g;
          kc0_updated = kc0
      in if fa_mtag_b g = REORDERED
         then (s, [], (Matrix (jc_cur_loop * k_updated + n_sub_updated * pc + jc_cur_loop_rem * kc0_updated), dlp_gemm_get_packb_strides lcntx), kc0_updated)
         else if fa_mtag_b g = PACK
         then group_pack 2 min_NR packb g lcntx thread_jc thread_ic jc nc0 pc kc0 kc0_updated s
         else (s, [], (Matrix (fa_rs_b g * pc + fa_cs_b g * jc), fa_rs_b g, fa_cs_b g), fa_cs_b g))"

definition half_c_operand :: "fp_args \<Rightarrow> c_provider" where
  "half_c_operand g jc jc_end nc0 ic_start ic_end s = (s, [], Matrix jc, fa_rs_c g)"

section \<open>Two matrices of float16\<close>

definition fp16_min_NR :: md_t where "fp16_min_NR = 32"

definition fp16_n1 :: "pack_strides \<Rightarrow> fp_args \<Rightarrow> dlp_gemm_cntx_t \<Rightarrow> dlp_gemm_thrinfo_t \<Rightarrow> fp_action list option" where
  "fp16_n1 packa g lcntx thread =
     (let MR = 16;
          (pre, b_use, post) = column_b 2 g
      in map_option (\<lambda>(s, acts). pre @ acts @ free_a g s @ post)
           (fp_rows_loop g (bs_MC (cx_blksz lcntx)) (column_a 2 packa g) b_use (gemv_rows thread (fa_m g) MR)))"

definition fp16_m1 :: "pack_strides \<Rightarrow> pack_strides \<Rightarrow> fp_args \<Rightarrow> dlp_gemm_cntx_t \<Rightarrow> dlp_gemm_thrinfo_t \<Rightarrow> fp_action list option" where
  "fp16_m1 packa packb g lcntx thread =
     (let NR = bs_NR (cx_blksz lcntx);
          NC = bs_NC (cx_blksz lcntx);
          (pre, a_use, post) = row_a 2 (fa_cs_a g) packa g
      in map_option (\<lambda>(s, acts). pre @ acts @ free_b g s @ post)
           (fp_cols_loop g NC fp16_min_NR a_use
              (row_b 2 fp16_min_NR (dlp_gemm_get_packb_strides lcntx) packb g (bs_KC (cx_blksz lcntx))) (fa_cs_c g) (fa_cs_c g)
              (gemv_cols thread (fa_n g) NR)))"

text \<open>An A with the tag \<open>REORDERED\<close> is not provided at all.\<close>

definition fp16_a_operand :: "pack_strides \<Rightarrow> fp_args \<Rightarrow> dlp_gemm_cntx_t \<Rightarrow> a_provider" where
  "fp16_a_operand packa g lcntx pc kc0 ic mc0 s =
     (let MR = bs_MR (cx_blksz lcntx)
      in if fa_mtag_a g = UNPACKED
         then (s, [], (Matrix (fa_rs_a g * ic + fa_cs_a g * pc), fa_rs_a g, fa_cs_a g, MR * fa_rs_a g))
         else if fa_mtag_a g = PACK then
           let mc0_padded = (mc0 + MR - 1) sdiv MR * MR;
               mem_a_size_req = 2 * mc0_padded * kc0;
               (rs_a_use, cs_a_use) = packa (fa_rs_a g) (fa_cs_a g) mc0 kc0
           in (s\<lparr>have_a := True\<rparr>, (if have_a s then [] else [Get_a mem_a_size_req]) @ [Fill_a (fa_rs_a g * ic + fa_cs_a g * pc) mc0 kc0],
               (Buffer 0, rs_a_use, cs_a_use, MR * rs_a_use))
         else (s, [], (Null, fa_rs_a g, fa_cs_a g, 0)))"

definition fp16_nest :: "pack_strides \<Rightarrow> pack_strides \<Rightarrow> fp_args \<Rightarrow> dlp_gemm_cntx_t \<Rightarrow> dlp_task_id_t \<Rightarrow> dlp_task_id_t \<Rightarrow> fp_nest" where
  "fp16_nest packa packb g lcntx thread_jc thread_ic =
     \<lparr>ne_panels = True, ne_min_NR = fp16_min_NR, ne_local_rows = False, ne_cs_c = 1,
      ne_a = fp16_a_operand packa g lcntx, ne_b = half_b_operand fp16_min_NR packb g lcntx thread_jc thread_ic, ne_c = half_c_operand g\<rparr>"

definition dlp_gemm_rowvar_f16f16f16of16 ::
  "pack_strides \<Rightarrow> pack_strides \<Rightarrow> fp_args \<Rightarrow> dlp_gemm_cntx_t \<Rightarrow> dlp_gemm_thrinfo_t \<Rightarrow> fp_action list option" where
  "dlp_gemm_rowvar_f16f16f16of16 packa packb g lcntx thread =
     (if fa_n g = 1 \<or> fa_m g = 1
      then (if fa_n g = 1 then fp16_n1 packa g lcntx thread else fp16_m1 packa packb g lcntx thread)
      else (let (thread_jc, thread_ic) = dlp_gemm_gen_dlp_task_ids (Some thread);
                tile = driver_tile thread (fa_m g) (fa_n g) lcntx
            in map_option (\<lambda>(s, acts). acts @ group_end g thread_jc thread_ic s @ free_a g s)
                 (fp_jc_loop (fp16_nest packa packb g lcntx thread_jc thread_ic) g lcntx tile no_buffers)))"

section \<open>A matrix of float and one of float16\<close>

definition f32f16_min_NR :: md_t where "f32f16_min_NR = 64"

definition f32f16_n1 :: "fp_args \<Rightarrow> dlp_gemm_cntx_t \<Rightarrow> dlp_gemm_thrinfo_t \<Rightarrow> fp_action list option" where
  "f32f16_n1 g lcntx thread =
     (let MR = 16;
          (pre, b_use, post) = column_b 2 g;
          a_op = (\<lambda>ic mc0 s. (s, [], (Matrix (ic * fa_rs_a g), fa_rs_a g, fa_cs_a g, 1)))
      in map_option (\<lambda>(s, acts). pre @ acts @ post)
           (fp_rows_loop g (bs_MC (cx_blksz lcntx)) a_op b_use (gemv_rows thread (fa_m g) MR)))"

definition f32f16_m1 :: "pack_strides \<Rightarrow> fp_args \<Rightarrow> dlp_gemm_cntx_t \<Rightarrow> dlp_gemm_thrinfo_t \<Rightarrow> fp_action list option" where
  "f32f16_m1 packb g lcntx thread =
     (let NR = bs_NR (cx_blksz lcntx);
          NC = bs_NC (cx_blksz lcntx)
      in map_option (\<lambda>(s, acts). acts @ free_b g s)
           (fp_cols_loop g NC f32f16_min_NR (Matrix 0, fa_rs_a g, fa_cs_a g, 1)
              (row_b 2 f32f16_min_NR (dlp_gemm_get_packb_strides lcntx) packb g (bs_KC (cx_blksz lcntx))) 1 1
              (gemv_cols thread (fa_n g) NR)))"

definition f32f16_a_operand :: "fp_args \<Rightarrow> dlp_gemm_cntx_t \<Rightarrow> a_provider" where
  "f32f16_a_operand g lcntx pc kc0 ic mc0 s =
     (s, [], (Matrix (fa_rs_a g * ic + fa_cs_a g * pc), fa_rs_a g, fa_cs_a g, bs_MR (cx_blksz lcntx) * fa_rs_a g))"

definition f32f16_nest :: "pack_strides \<Rightarrow> fp_args \<Rightarrow> dlp_gemm_cntx_t \<Rightarrow> dlp_task_id_t \<Rightarrow> dlp_task_id_t \<Rightarrow> fp_nest" where
  "f32f16_nest packb g lcntx thread_jc thread_ic =
     \<lparr>ne_panels = True, ne_min_NR = f32f16_min_NR, ne_local_rows = False, ne_cs_c = 1,
      ne_a = f32f16_a_operand g lcntx, ne_b = half_b_operand f32f16_min_NR packb g lcntx thread_jc thread_ic, ne_c = half_c_operand g\<rparr>"

definition dlp_gemm_rowvar_f32f16f32of32 ::
  "pack_strides \<Rightarrow> fp_args \<Rightarrow> dlp_gemm_cntx_t \<Rightarrow> dlp_gemm_thrinfo_t \<Rightarrow> fp_action list option" where
  "dlp_gemm_rowvar_f32f16f32of32 packb g lcntx thread =
     (if fa_n g = 1 \<or> fa_m g = 1
      then (if fa_n g = 1 then f32f16_n1 g lcntx thread else f32f16_m1 packb g lcntx thread)
      else (let (thread_jc, thread_ic) = dlp_gemm_gen_dlp_task_ids (Some thread);
                tile = driver_tile thread (fa_m g) (fa_n g) lcntx
            in map_option (\<lambda>(s, acts). acts @ group_end g thread_jc thread_ic s)
                 (fp_jc_loop (f32f16_nest packb g lcntx thread_jc thread_ic) g lcntx tile no_buffers)))"

section \<open>The operands keep their contract\<close>

lemma half_b_places:
  assumes "half_b_operand mn packb g lcntx tj ti jc je panel pc kc0 s = (s', acts, b)" "0 \<le> fa_k g" "0 \<le> kc0"
  shows "list_all no_compute acts \<and>
    (in_place \<longrightarrow> fa_mtag_b g = UNPACKED \<longrightarrow> fst (fst b) = Matrix (fa_rs_b g * pc + fa_cs_b g * jc) \<and> snd b = fa_cs_b g) \<and>
    (in_place \<longrightarrow> fa_mtag_b g = REORDERED \<longrightarrow>
      fst (fst b) = Matrix (fst panel * dlp_make_multiple_of_n (fa_k g) 1 + snd (snd (snd panel)) * pc + fst (snd panel) * dlp_make_multiple_of_n kc0 1) \<and>
      snd b = dlp_make_multiple_of_n kc0 1)"
  using assms group_pack_quiet by (auto simp: half_b_operand_def Let_def multiple_of_one split: if_splits prod.splits)

lemma half_operands:
  assumes ok: "blksz_ok (cx_blksz lcntx)" and dims: "0 \<le> fa_m g" "0 \<le> fa_n g" "0 \<le> fa_k g"
    and tile: "driver_tile thread (fa_m g) (fa_n g) lcntx = ((js, je), (is, ie))"
    and nest: "ne_b nest = half_b_operand (ne_min_NR nest) packb g lcntx tj ti" "ne_c nest = half_c_operand g" "\<not> ne_local_rows nest" "ne_panels nest"
    and a: "\<And>pc kc0 ic mc0 s s' acts a. ne_a nest pc kc0 ic mc0 s = (s', acts, a) \<Longrightarrow> list_all no_compute acts \<and>
      (fa_mtag_a g = UNPACKED \<longrightarrow> fst a = Matrix (fa_rs_a g * ic + fa_cs_a g * pc))"
  shows "nest_operands nest g lcntx (bs_NR (cx_blksz lcntx)) is ie js je (fp_located (fa_cs_c g = 1) True 1 (ne_min_NR nest) (cx_blksz lcntx) g)"
proof -
  note t = tile_facts [OF tile dims(1,2) ok]
  show ?thesis
  proof (rule nest_located [OF ok t(1-4)], goal_cases)
    case (1 jc)
    then show ?case using t(6) by simp
  next
    case (2 jc nc0 s s' acts c rs)
    then show ?case by (auto simp: nest half_c_operand_def)
  next
    case (3 pc kc0 ic mc0 s s' acts a)
    then show ?case using a by blast
  next
    case (4 jc panel pc kc0 s s' acts b)
    then have kc: "0 \<le> kc0" using ok by (auto simp: depth_ok_def dlp_min_def)
    show ?case by (rule half_b_places [OF 4(2) [unfolded nest] dims(3) kc])
  qed
qed

section \<open>The run of a thread\<close>

lemma fp16_run:
  assumes ok: "blksz_ok (cx_blksz lcntx)" and dims: "0 \<le> fa_m g" "0 \<le> fa_n g" "0 < fa_k g"
  shows "runs_as (fp_located (is_vector g \<or> fa_cs_c g = 1) (\<not> is_vector g) 1 fp16_min_NR (cx_blksz lcntx) g)
    (share_steps (is_vector g) 16 lcntx (bs_KC (cx_blksz lcntx)) g thread) (dlp_gemm_rowvar_f16f16f16of16 packa packb g lcntx thread)"
proof -
  obtain tj ti where ids: "dlp_gemm_gen_dlp_task_ids (Some thread) = (tj, ti)" by force
  obtain js je is' ie where tile: "driver_tile thread (fa_m g) (fa_n g) lcntx = ((js, je), (is', ie))" by (metis prod.exhaust)
  note t = tile_facts [OF tile dims(1,2) ok]
  have pos: "0 < bs_MC (cx_blksz lcntx)" "0 < bs_KC (cx_blksz lcntx)" "0 < bs_NR (cx_blksz lcntx)" "0 < bs_NC (cx_blksz lcntx)" using ok by auto
  let ?nest = "fp16_nest packa packb g lcntx tj ti"
  have "nest_operands ?nest g lcntx (bs_NR (cx_blksz lcntx)) is' ie js je (fp_located (fa_cs_c g = 1) True 1 (ne_min_NR ?nest) (cx_blksz lcntx) g)"
  proof (rule half_operands [OF ok dims(1,2) _ tile, where packb = packb and tj = tj and ti = ti], goal_cases)
    case (6 pc kc0 ic mc0 s s' acts a)
    then show ?case by (auto simp: fp16_nest_def fp16_a_operand_def Let_def split: if_splits prod.splits)
  qed (use dims(3) in \<open>simp_all add: fp16_nest_def\<close>)
  note five = runs_asI [OF tile_run [OF this t(1,5) tile], of "[]" "\<lambda>s. group_end g tj ti s @ free_a g s" 16, simplified]
  have n1: "runs_as (fp_located True False 1 fp16_min_NR (cx_blksz lcntx) g) (share_steps True 16 lcntx (bs_KC (cx_blksz lcntx)) g thread) (fp16_n1 packa g lcntx thread)"
    if "fa_n g = 1"
  proof -
    obtain pre b post where cb: "column_b 2 g = (pre, b, post)" by (metis prod_cases3)
    note q = column_b_quiet [OF cb]
    show ?thesis unfolding fp16_n1_def Let_def cb prod.case
      by (rule runs_asI, rule rows_run [OF that dims(1,3) _ pos(1) column_a_quiet]) (use q in \<open>auto simp: end_quiet\<close>)
  qed
  have m1: "runs_as (fp_located True False 1 fp16_min_NR (cx_blksz lcntx) g) (share_steps True 16 lcntx (bs_KC (cx_blksz lcntx)) g thread) (fp16_m1 packa packb g lcntx thread)"
    if "fa_m g = 1" "fa_n g \<noteq> 1"
  proof -
    obtain pre a_use post where op: "row_a 2 (fa_cs_a g) packa g = (pre, a_use, post)" by (metis prod_cases3)
    note q = row_a_quiet [OF op]
    show ?thesis unfolding fp16_m1_def Let_def op prod.case
      by (rule runs_asI, rule cols_run [OF that dims(2,3) pos(3,4) row_b_quiet [OF pos(2)]]) (simp_all add: q end_quiet)
  qed
  show ?thesis
    using five n1 m1 by (auto simp: dlp_gemm_rowvar_f16f16f16of16_def is_vector_def ids tile end_quiet fp16_nest_def)
qed

lemma f32f16_run:
  assumes ok: "blksz_ok (cx_blksz lcntx)" and dims: "0 \<le> fa_m g" "0 \<le> fa_n g" "0 < fa_k g"
  shows "runs_as (fp_located (fa_n g = 1 \<or> fa_cs_c g = 1) (\<not> is_vector g) 1 f32f16_min_NR (cx_blksz lcntx) g)
    (share_steps (is_vector g) 16 lcntx (bs_KC (cx_blksz lcntx)) g thread) (dlp_gemm_rowvar_f32f16f32of32 packb g lcntx thread)"
proof -
  obtain tj ti where ids: "dlp_gemm_gen_dlp_task_ids (Some thread) = (tj, ti)" by force
  obtain js je is' ie where tile: "driver_tile thread (fa_m g) (fa_n g) lcntx = ((js, je), (is', ie))" by (metis prod.exhaust)
  note t = tile_facts [OF tile dims(1,2) ok]
  have pos: "0 < bs_MC (cx_blksz lcntx)" "0 < bs_KC (cx_blksz lcntx)" "0 < bs_NR (cx_blksz lcntx)" "0 < bs_NC (cx_blksz lcntx)" using ok by auto
  let ?nest = "f32f16_nest packb g lcntx tj ti"
  have "nest_operands ?nest g lcntx (bs_NR (cx_blksz lcntx)) is' ie js je (fp_located (fa_cs_c g = 1) True 1 (ne_min_NR ?nest) (cx_blksz lcntx) g)"
  proof (rule half_operands [OF ok dims(1,2) _ tile, where packb = packb and tj = tj and ti = ti], goal_cases)
    case (6 pc kc0 ic mc0 s s' acts a)
    then show ?case by (auto simp: f32f16_nest_def f32f16_a_operand_def)
  qed (use dims(3) in \<open>simp_all add: f32f16_nest_def\<close>)
  note five = runs_asI [OF tile_run [OF this t(1,5) tile], of "[]" "\<lambda>s. group_end g tj ti s" 16, simplified]
  have n1: "runs_as (fp_located True False 1 f32f16_min_NR (cx_blksz lcntx) g) (share_steps True 16 lcntx (bs_KC (cx_blksz lcntx)) g thread) (f32f16_n1 g lcntx thread)"
    if "fa_n g = 1"
  proof -
    obtain pre b post where cb: "column_b 2 g = (pre, b, post)" by (metis prod_cases3)
    note q = column_b_quiet [OF cb]
    show ?thesis unfolding f32f16_n1_def Let_def cb prod.case
      by (rule runs_asI, rule rows_run [OF that dims(1,3) _ pos(1)]) (use q in auto)
  qed
  have m1: "runs_as (fp_located (fa_cs_c g = 1) False 1 f32f16_min_NR (cx_blksz lcntx) g) (share_steps True 16 lcntx (bs_KC (cx_blksz lcntx)) g thread) (f32f16_m1 packb g lcntx thread)"
    if "fa_m g = 1" "fa_n g \<noteq> 1"
    unfolding f32f16_m1_def Let_def
    by (rule runs_asI [where pre = "[]", simplified], rule cols_run [OF that dims(2,3) pos(3,4) row_b_quiet [OF pos(2)]]) (simp_all add: end_quiet)
  show ?thesis
    using five n1 m1 by (auto simp: dlp_gemm_rowvar_f32f16f32of32_def is_vector_def ids tile end_quiet f32f16_nest_def)
qed

end
