(* ===== verification/Bf16_Driver.thy ===== *)
theory Bf16_Driver
  imports Fp_Operands
begin

text \<open>
  The drivers of the \<open>bfloat16\<close> GEMM: the native one, which needs the AVX512-BF16 kernels, and the one that converts both
  operands to \<open>float\<close> and uses the \<open>float\<close> kernels. The second divides the work by the tile of the BF16 context, the parameter
  \<open>og\<close>, and loops with the block sizes of the context it is called with.
\<close>

section \<open>The native driver\<close>

record bf16_env =
  bf16_zen4 :: bool
  bf16_packb_handle :: bool
  bf16_packa_fun :: pack_strides
  bf16_packb_jit :: pack_strides
  bf16_packb_fun :: pack_strides

definition bf16_packb :: "bf16_env \<Rightarrow> pack_strides" where
  "bf16_packb e = (if bf16_packb_handle e then bf16_packb_jit e else bf16_packb_fun e)"

definition bf16_min_NR :: md_t where "bf16_min_NR = 16"

definition bf16_column_b :: "fp_args \<Rightarrow> fp_action list \<times> (fp_pointer \<times> md_t \<times> md_t) \<times> fp_action list" where
  "bf16_column_b g =
     (if fa_mtag_b g = PACK \<and> fa_rs_b g \<noteq> 1
      then ([Get_b (2 * fa_k g), Fill_b 0 0 1 (fa_k g)], (Buffer 0, 1, 1), [Drop_b])
      else ([], (Matrix 0, fa_rs_b g, fa_cs_b g), []))"

definition bf16_n1 :: "bf16_env \<Rightarrow> fp_args \<Rightarrow> dlp_gemm_cntx_t \<Rightarrow> dlp_gemm_thrinfo_t \<Rightarrow> fp_action list option" where
  "bf16_n1 e g lcntx thread =
     (let MR = 16;
          (pre, b_use, post) = bf16_column_b g
      in map_option (\<lambda>(s, acts). pre @ acts @ free_a g s @ post)
           (fp_rows_loop g (bs_MC (cx_blksz lcntx)) (column_a 2 (bf16_packa_fun e) g) b_use (gemv_rows thread (fa_m g) MR)))"

text \<open>A B with the tag \<open>UNPACKED\<close> is passed from its first column whatever the chunk.\<close>

definition bf16_row_b ::
  "bf16_env \<Rightarrow> fp_args \<Rightarrow> dlp_gemm_cntx_t \<Rightarrow> md_t \<Rightarrow> md_t \<Rightarrow> md_t \<times> md_t \<times> md_t \<times> md_t \<Rightarrow> drv_buffers \<Rightarrow>
   (drv_buffers \<times> fp_action list \<times> (fp_pointer \<times> md_t \<times> md_t) \<times> (md_t \<times> md_t)) option" where
  "bf16_row_b e g lcntx jc jc_end panel s =
     (let (jc_cur_loop, jc_cur_loop_rem, nc0, n_sub_updated) = panel;
          k_updated = even_up (fa_k g)
      in if fa_mtag_b g = REORDERED
         then Some (s, [], (Matrix (jc_cur_loop * k_updated), dlp_gemm_get_packb_strides lcntx), (n_sub_updated, jc_cur_loop_rem))
         else if fa_mtag_b g = PACK then
           let nc0_updated = dlp_make_multiple_of_n nc0 bf16_min_NR
           in map_option (\<lambda>(strides, fills).
                (s\<lparr>have_b := True\<rparr>, (if have_b s then [] else [Get_b (2 * nc0_updated * k_updated)]) @ fills,
                 (Buffer 0, strides), (nc0_updated, jc_cur_loop_rem)))
                (fp_fill_loop (bf16_packb e) g (bs_KC (cx_blksz lcntx)) jc nc0 nc0_updated)
         else Some (s, [], (Matrix 0, fa_rs_b g, fa_cs_b g), (n_sub_updated, jc_cur_loop_rem)))"

definition bf16_m1 :: "bf16_env \<Rightarrow> fp_args \<Rightarrow> dlp_gemm_cntx_t \<Rightarrow> dlp_gemm_thrinfo_t \<Rightarrow> fp_action list option" where
  "bf16_m1 e g lcntx thread =
     (let NR = bs_NR (cx_blksz lcntx);
          NC = bs_NC (cx_blksz lcntx);
          (pre, a_use, post) = row_a 2 2 (bf16_packa_fun e) g
      in map_option (\<lambda>(s, acts). pre @ acts @ free_b g s @ post)
           (fp_cols_loop g NC bf16_min_NR a_use (bf16_row_b e g lcntx) (fa_cs_c g) (fa_cs_c g) (gemv_cols thread (fa_n g) NR)))"

text \<open>An A with the tag \<open>REORDERED\<close>, or a B with the tag \<open>UNPACKED\<close>, is not provided.\<close>

definition bf16_a_operand :: "bf16_env \<Rightarrow> fp_args \<Rightarrow> a_provider" where
  "bf16_a_operand e g pc kc0 ic mc0 s =
     (if fa_mtag_a g = UNPACKED then (s, [], (Matrix (fa_rs_a g * ic + fa_cs_a g * pc), fa_rs_a g, 2, fa_rs_a g))
      else if fa_mtag_a g = PACK then
        let mem_a_size_req = 2 * mc0 * kc0;
            (rs_a_use, cs_a_use) = bf16_packa_fun e (fa_rs_a g) (fa_cs_a g) mc0 kc0
        in (s\<lparr>have_a := True\<rparr>, (if have_a s then [] else [Get_a mem_a_size_req]) @ [Fill_a (fa_rs_a g * ic + fa_cs_a g * pc) mc0 kc0],
            (Buffer 0, rs_a_use, cs_a_use, rs_a_use))
      else (s, [], (Null, fa_rs_a g, fa_cs_a g, 0)))"

definition bf16_b_operand :: "bf16_env \<Rightarrow> fp_args \<Rightarrow> dlp_gemm_cntx_t \<Rightarrow> dlp_task_id_t \<Rightarrow> dlp_task_id_t \<Rightarrow> b_provider" where
  "bf16_b_operand e g lcntx thread_jc thread_ic jc jc_end panel pc kc0 s =
     (let (jc_cur_loop, jc_cur_loop_rem, nc0, n_sub_updated) = panel;
          k_updated = even_up (fa_k g);
          kc0_updated = even_up kc0
      in if fa_mtag_b g = PACK
         then group_pack 2 bf16_min_NR (bf16_packb e) g lcntx thread_jc thread_ic jc nc0 pc kc0 kc0_updated s
         else if fa_mtag_b g = REORDERED
         then (s, [], (Matrix (jc_cur_loop * k_updated + n_sub_updated * pc + jc_cur_loop_rem * kc0_updated), dlp_gemm_get_packb_strides lcntx), kc0_updated)
         else (s, [], (Null, fa_rs_b g, fa_cs_b g), kc0_updated))"

text \<open>C, or a buffer for a result that is stored in a smaller type when the depth needs several blocks.\<close>

definition bf16_c_operand :: "fp_args \<Rightarrow> dlp_gemm_cntx_t \<Rightarrow> c_provider" where
  "bf16_c_operand g lcntx jc jc_end nc0 ic_start ic_end s =
     (if below_F32 (fa_c_downscale g) then
        (if fa_k g > bs_KC (cx_blksz lcntx)
         then let nc0_buf = dlp_min (jc_end - jc) (bs_NC (cx_blksz lcntx))
              in (s\<lparr>have_c := True\<rparr>, if have_c s then [] else [Get_c (4 * nc0_buf * (ic_end - ic_start))], Buffer 0, nc0)
         else (s, [], Matrix jc, nc0))
      else (s, [], Matrix jc, fa_rs_c g))"

definition free_c :: "fp_args \<Rightarrow> drv_buffers \<Rightarrow> fp_action list" where
  "free_c g s = (if below_F32 (fa_c_downscale g) \<and> have_c s then [Drop_c] else [])"

definition bf16_nest :: "bf16_env \<Rightarrow> fp_args \<Rightarrow> dlp_gemm_cntx_t \<Rightarrow> dlp_task_id_t \<Rightarrow> dlp_task_id_t \<Rightarrow> fp_nest" where
  "bf16_nest e g lcntx thread_jc thread_ic =
     \<lparr>ne_panels = True, ne_min_NR = bf16_min_NR, ne_local_rows = below_F32 (fa_c_downscale g), ne_cs_c = 1,
      ne_a = bf16_a_operand e g, ne_b = bf16_b_operand e g lcntx thread_jc thread_ic, ne_c = bf16_c_operand g lcntx\<rparr>"

definition bf16_gemv :: "bf16_env \<Rightarrow> fp_args \<Rightarrow> bool" where
  "bf16_gemv e g \<longleftrightarrow> bf16_zen4 e \<and> (fa_n g = 1 \<or> fa_m g = 1)"

definition dlp_gemm_rowvar_avx512bf16_bf16bf16f32of32 ::
  "bf16_env \<Rightarrow> fp_args \<Rightarrow> dlp_gemm_cntx_t \<Rightarrow> dlp_gemm_thrinfo_t \<Rightarrow> fp_action list option" where
  "dlp_gemm_rowvar_avx512bf16_bf16bf16f32of32 e g lcntx thread =
     (if bf16_gemv e g then (if fa_n g = 1 then bf16_n1 e g lcntx thread else bf16_m1 e g lcntx thread)
      else (let (thread_jc, thread_ic) = dlp_gemm_gen_dlp_task_ids (Some thread);
                tile = driver_tile thread (fa_m g) (fa_n g) lcntx
            in map_option (\<lambda>(s, acts). acts @ group_end g thread_jc thread_ic s @ free_a g s @ free_c g s)
                 (fp_jc_loop (bf16_nest e g lcntx thread_jc thread_ic) g lcntx tile no_buffers)))"

section \<open>The driver that converts\<close>

definition fallback_n1 :: "fp_args \<Rightarrow> dlp_gemm_cntx_t \<Rightarrow> dlp_gemm_cntx_t \<Rightarrow> dlp_gemm_thrinfo_t \<Rightarrow> fp_action list option" where
  "fallback_n1 g lcntx og thread =
     (let k = fa_k g;
          a_op = (\<lambda>ic mc0 s. (s\<lparr>have_a := True\<rparr>, (if have_a s then [] else [Get_a (4 * mc0 * k)]) @ [Widen_a (fa_rs_a g * ic) mc0 k],
                              (Buffer 0, k, 1, 1)))
      in map_option (\<lambda>(s, acts). [Get_b (4 * k), Widen_b 0 0 k 1 1] @ acts @ (if have_a s then [Drop_a] else []) @ [Drop_b])
           (fp_rows_loop g (bs_MC (cx_blksz lcntx)) a_op (Buffer 0, 1, 1) (gemv_rows thread (fa_m g) (bs_MR (cx_blksz og)))))"

text \<open>A chunk of B converted block of depth by block of depth; the buffer is allocated in the first block.\<close>

definition fallback_row_b ::
  "fp_args \<Rightarrow> dlp_gemm_cntx_t \<Rightarrow> md_t \<Rightarrow> md_t \<Rightarrow> md_t \<times> md_t \<times> md_t \<times> md_t \<Rightarrow> drv_buffers \<Rightarrow>
   (drv_buffers \<times> fp_action list \<times> (fp_pointer \<times> md_t \<times> md_t) \<times> (md_t \<times> md_t)) option" where
  "fallback_row_b g lcntx jc jc_end panel s =
     (let (jc_cur_loop, jc_cur_loop_rem, nc0, n_sub_updated) = panel;
          k = fa_k g;
          KC = bs_KC (cx_blksz lcntx);
          k_updated = even_up k;
          nc0_updated = dlp_make_multiple_of_n (dlp_min (jc_end - jc) (bs_NC (cx_blksz lcntx))) bf16_min_NR;
          mem_b_size_req = 4 * nc0_updated * k_updated
      in map_option (\<lambda>(s, acts). (s, acts, (if k > 0 then (Buffer 0, nc0, 1) else (Null, fa_rs_b g, fa_cs_b g)), (n_sub_updated, jc_cur_loop_rem)))
           (for_loop 0 k (\<lambda>pc. pc + KC)
             (\<lambda>pc s.
                let kc0 = dlp_min (k - pc) KC;
                    kc0_updated = even_up kc0;
                    source = (if fa_mtag_b g = REORDERED
                              then jc_cur_loop * k_updated + jc_cur_loop_rem * kc0_updated + n_sub_updated * pc
                              else fa_rs_b g * pc + fa_cs_b g * jc)
                in Some (s\<lparr>have_b := True\<rparr>, (if have_b s then [] else [Get_b mem_b_size_req]) @ [Widen_b source (nc0 * pc) kc0 nc0 nc0])) s))"

definition fallback_m1 :: "fp_args \<Rightarrow> dlp_gemm_cntx_t \<Rightarrow> dlp_gemm_cntx_t \<Rightarrow> dlp_gemm_thrinfo_t \<Rightarrow> fp_action list option" where
  "fallback_m1 g lcntx og thread =
     (let k = fa_k g
      in map_option (\<lambda>(s, acts). [Get_a (4 * k), Widen_a 0 1 k] @ acts @ (if have_b s then [Drop_b] else []) @ [Drop_a])
           (fp_cols_loop g (bs_NC (cx_blksz lcntx)) bf16_min_NR (Buffer 0, k, 1, 1) (fallback_row_b g lcntx) 1 (fa_cs_c g)
              (gemv_cols thread (fa_n g) (bs_NR (cx_blksz og)))))"

definition fallback_a_operand :: "fp_args \<Rightarrow> dlp_gemm_cntx_t \<Rightarrow> a_provider" where
  "fallback_a_operand g lcntx pc kc0 ic mc0 s =
     (s\<lparr>have_a := True\<rparr>, (if have_a s then [] else [Get_a (4 * mc0 * kc0)]) @ [Widen_a (fa_rs_a g * ic + fa_cs_a g * pc) mc0 kc0],
      (Buffer 0, kc0, 1, bs_MR (cx_blksz lcntx) * kc0))"

text \<open>The chief allocates the buffer once, for the wider of the chunk at hand and what is left after it.\<close>

definition fallback_b_operand :: "fp_args \<Rightarrow> dlp_gemm_cntx_t \<Rightarrow> dlp_gemm_cntx_t \<Rightarrow> dlp_task_id_t \<Rightarrow> dlp_task_id_t \<Rightarrow> b_provider" where
  "fallback_b_operand g lcntx og thread_jc thread_ic jc jc_end panel pc kc0 s =
     (let (jc_cur_loop, jc_cur_loop_rem, nc0, n_sub_updated) = panel;
          k_updated = even_up (fa_k g);
          kc0_updated = even_up kc0;
          jc_work_id = work_id thread_jc;
          chief = dlp_thread_am_ochief thread_ic;
          remaining_nc_after_current = dlp_min (jc_end - jc) (bs_NC (cx_blksz lcntx)) - nc0;
          nc0_buf = dlp_max remaining_nc_after_current nc0;
          mem_b_size_req = 4 * dlp_make_multiple_of_n nc0_buf bf16_min_NR * kc0_updated;
          get = (if chief then (if have_b s then [] else [Get_b mem_b_size_req]) @ [Share_b jc_work_id] else []);
          wait = Meet jc_work_id (ocomm_id thread_ic);
          (jc_packb_start, jc_packb_end) = dlp_thread_task_range thread_ic nc0 (bs_NR (cx_blksz og)) False;
          mine = (jc_packb_end > jc_packb_start \<and> jc_packb_start < jc + nc0);
          widen = (\<lambda>source. if mine then [Widen_b source jc_packb_start kc0 (jc_packb_end - jc_packb_start) nc0] else [])
      in if fa_mtag_b g = PACK
         then (s\<lparr>have_b := True\<rparr>,
               get @ [wait] @ widen (fa_rs_b g * pc + fa_cs_b g * jc + fa_cs_b g * jc_packb_start) @ [wait], (Buffer 0, nc0, 1), 1)
         else if fa_mtag_b g = REORDERED
         then (s\<lparr>have_b := have_b s \<or> chief\<rparr>,
               get @ [wait] @ widen (jc_cur_loop * k_updated + n_sub_updated * pc + (jc_cur_loop_rem + jc_packb_start) * kc0_updated) @ [wait],
               (Buffer 0, nc0, 1), 1)
         else (s\<lparr>have_b := have_b s \<or> chief\<rparr>, get @ [wait], (Null, fa_rs_b g, fa_cs_b g), 1))"

definition fallback_nest :: "fp_args \<Rightarrow> dlp_gemm_cntx_t \<Rightarrow> dlp_gemm_cntx_t \<Rightarrow> dlp_task_id_t \<Rightarrow> dlp_task_id_t \<Rightarrow> fp_nest" where
  "fallback_nest g lcntx og thread_jc thread_ic =
     \<lparr>ne_panels = True, ne_min_NR = bf16_min_NR, ne_local_rows = below_F32 (fa_c_downscale g), ne_cs_c = 1,
      ne_a = fallback_a_operand g lcntx, ne_b = fallback_b_operand g lcntx og thread_jc thread_ic, ne_c = bf16_c_operand g lcntx\<rparr>"

definition fallback_end :: "fp_args \<Rightarrow> dlp_task_id_t \<Rightarrow> dlp_task_id_t \<Rightarrow> drv_buffers \<Rightarrow> fp_action list" where
  "fallback_end g thread_jc thread_ic s =
     (if fa_mtag_b g = PACK \<or> fa_mtag_b g = REORDERED
      then [Meet (work_id thread_jc) (ocomm_id thread_jc)] @ (if dlp_thread_am_ochief thread_ic \<and> have_b s then [Drop_b] else [])
      else [])
     @ (if have_a s then [Drop_a] else []) @ free_c g s"

definition dlp_gemm_rowvar_f32_fallback_bf16bf16f32of32 ::
  "fp_args \<Rightarrow> dlp_gemm_cntx_t \<Rightarrow> dlp_gemm_cntx_t \<Rightarrow> dlp_gemm_thrinfo_t \<Rightarrow> fp_action list option" where
  "dlp_gemm_rowvar_f32_fallback_bf16bf16f32of32 g lcntx og thread =
     (if fa_n g = 1 \<or> fa_m g = 1
      then (if fa_n g = 1 then fallback_n1 g lcntx og thread else fallback_m1 g lcntx og thread)
      else (let (thread_jc, thread_ic) = dlp_gemm_gen_dlp_task_ids (Some thread);
                tile = driver_tile thread (fa_m g) (fa_n g) og
            in map_option (\<lambda>(s, acts). acts @ fallback_end g thread_jc thread_ic s)
                 (fp_jc_loop (fallback_nest g lcntx og thread_jc thread_ic) g lcntx tile no_buffers)))"

text \<open>The context tells by its kernel pointer which of the two runs.\<close>

definition dlp_gemm_rowvar_bf16bf16f32of32 ::
  "bf16_env \<Rightarrow> dlp_gemm_cntx_t \<Rightarrow> fp_args \<Rightarrow> dlp_gemm_cntx_t \<Rightarrow> dlp_gemm_thrinfo_t \<Rightarrow> fp_action list option" where
  "dlp_gemm_rowvar_bf16bf16f32of32 e og g lcntx thread =
     (if cx_kern_fun_ptr lcntx = 0 then dlp_gemm_rowvar_f32_fallback_bf16bf16f32of32 g lcntx og thread
      else dlp_gemm_rowvar_avx512bf16_bf16bf16f32of32 e g lcntx thread)"

section \<open>The operands keep their contract\<close>

definition bf16_plain_c :: "fp_args \<Rightarrow> bool" where
  "bf16_plain_c g \<longleftrightarrow> \<not> below_F32 (fa_c_downscale g) \<and> fa_cs_c g = 1"

lemma bf16_c_places:
  "bf16_c_operand g lcntx jc je nc0 is ie s = (s', acts, c, rs) \<Longrightarrow> list_all no_compute acts \<and>
    (bf16_plain_c g \<longrightarrow> c = Matrix (fa_cs_c g * jc) \<and> rs = fa_rs_c g \<and> \<not> below_F32 (fa_c_downscale g) \<and> fa_cs_c g = 1)"
  by (auto simp: bf16_c_operand_def bf16_plain_c_def Let_def split: if_splits)

lemma bf16_operands:
  assumes ok: "blksz_ok (cx_blksz lcntx)" and dims: "0 \<le> fa_m g" "0 \<le> fa_n g" "0 \<le> fa_k g"
    and tile: "driver_tile thread (fa_m g) (fa_n g) lcntx = ((js, je), (is, ie))"
  shows "nest_operands (bf16_nest e g lcntx tj ti) g lcntx (bs_NR (cx_blksz lcntx)) is ie js je
    (fp_located (bf16_plain_c g) (fa_mtag_b g \<noteq> UNPACKED) 2 (ne_min_NR (bf16_nest e g lcntx tj ti)) (cx_blksz lcntx) g)"
proof -
  note t = tile_facts [OF tile dims(1,2) ok]
  show ?thesis
  proof (rule nest_located [OF ok t(1-4)], goal_cases)
    case (1 jc)
    then show ?case using t(6) by simp
  next
    case (2 jc nc0 s s' acts c rs)
    then show ?case using bf16_c_places [of g lcntx jc je nc0 "is" ie s s' acts c rs] by (simp add: bf16_nest_def)
  next
    case (3 pc kc0 ic mc0 s s' acts a)
    then show ?case by (auto simp: bf16_nest_def bf16_a_operand_def Let_def split: if_splits prod.splits)
  next
    case (4 jc panel pc kc0 s s' acts b)
    then have kc: "0 \<le> kc0" using ok by (auto simp: depth_ok_def dlp_min_def)
    show ?case using 4(2) group_pack_quiet even_up_eq [OF kc] even_up_eq [OF dims(3)]
      by (auto simp: bf16_nest_def bf16_b_operand_def Let_def split: if_splits prod.splits)
  qed
qed

lemma fallback_operands:
  assumes ok: "blksz_ok (cx_blksz lcntx)" "blksz_ok (cx_blksz og)" and dims: "0 \<le> fa_m g" "0 \<le> fa_n g"
    and tile: "driver_tile thread (fa_m g) (fa_n g) og = ((js, je), (is, ie))"
  shows "nest_operands (fallback_nest g lcntx og tj ti) g lcntx (bs_NR (cx_blksz og)) is ie js je
    (fp_located (bf16_plain_c g) False 2 (ne_min_NR (fallback_nest g lcntx og tj ti)) (cx_blksz lcntx) g)"
proof -
  note t = tile_facts [OF tile dims(1,2) ok(2)]
  show ?thesis
  proof (rule nest_located [OF ok(1) t(1-4)], goal_cases)
    case (2 jc nc0 s s' acts c rs)
    then show ?case using bf16_c_places [of g lcntx jc je nc0 "is" ie s s' acts c rs] by (simp add: fallback_nest_def)
  next
    case (3 pc kc0 ic mc0 s s' acts a)
    then show ?case by (auto simp: fallback_nest_def fallback_a_operand_def)
  next
    case (4 jc panel pc kc0 s s' acts b)
    then show ?case by (auto simp: fallback_nest_def fallback_b_operand_def Let_def split: if_splits prod.splits)
  qed simp
qed

lemma bf16_row_b_quiet:
  assumes "0 < bs_KC (cx_blksz lcntx)"
  shows "\<exists>s' acts b p. bf16_row_b e g lcntx jc je panel s = Some (s', acts, b, p) \<and> list_all no_compute acts"
proof -
  obtain cur rm nc0 nsub where p: "panel = (cur, rm, nc0, nsub)" by (metis prod_cases4)
  obtain st fills where f: "fp_fill_loop (bf16_packb e) g (bs_KC (cx_blksz lcntx)) jc nc0 (dlp_make_multiple_of_n nc0 bf16_min_NR) = Some (st, fills)"
    "list_all no_compute fills"
    using fill_loop_quiet [OF assms, of "\<lambda>_. True" "bf16_packb e" g jc nc0 "dlp_make_multiple_of_n nc0 bf16_min_NR"] by auto
  show ?thesis using f by (auto simp: p bf16_row_b_def Let_def)
qed

lemma fallback_row_b_quiet:
  assumes "0 < bs_KC (cx_blksz lcntx)"
  shows "\<exists>s' acts b p. fallback_row_b g lcntx jc je panel s = Some (s', acts, b, p) \<and> list_all no_compute acts"
proof -
  obtain cur rm nc0 nsub where p: "panel = (cur, rm, nc0, nsub)" by (metis prod_cases4)
  have loop: "yields no_compute 0 0 (for_loop 0 (fa_k g) (\<lambda>pc. pc + bs_KC (cx_blksz lcntx))
      (\<lambda>pc s. Some (F pc s, (if G pc s then [] else [Get_b sz]) @ [Widen_b (src pc) (dst pc) (dep pc) nc0 nc0])) s) []" for F G src dst dep sz
    by (rule yields_quiet_loop [where I = "\<lambda>_. True"]) (use assms in \<open>auto simp: fp_steps_def\<close>)
  show ?thesis unfolding p fallback_row_b_def Let_def prod.case
    using loop by (fastforce simp: yields_def)
qed

section \<open>The run of a thread\<close>

lemma bf16_column_b_quiet: "bf16_column_b g = (pre, b, post) \<Longrightarrow> list_all no_compute pre \<and> list_all no_compute post"
  by (auto simp: bf16_column_b_def split: if_splits)

lemma free_c_quiet: "list_all no_compute (free_c g s)" "list_all no_compute (fallback_end g tj ti s)"
  by (auto simp: free_c_def fallback_end_def)

lemma bf16_run:
  assumes ok: "blksz_ok (cx_blksz lcntx)" and dims: "0 \<le> fa_m g" "0 \<le> fa_n g" "0 < fa_k g"
  shows "runs_as (fp_located (bf16_gemv e g \<or> bf16_plain_c g) (\<not> bf16_gemv e g \<and> fa_mtag_b g \<noteq> UNPACKED) 2 bf16_min_NR (cx_blksz lcntx) g)
    (share_steps (bf16_gemv e g) 16 lcntx (bs_KC (cx_blksz lcntx)) g thread) (dlp_gemm_rowvar_avx512bf16_bf16bf16f32of32 e g lcntx thread)"
proof -
  obtain tj ti where ids: "dlp_gemm_gen_dlp_task_ids (Some thread) = (tj, ti)" by force
  obtain js je is' ie where tile: "driver_tile thread (fa_m g) (fa_n g) lcntx = ((js, je), (is', ie))" by (metis prod.exhaust)
  note t = tile_facts [OF tile dims(1,2) ok]
  have pos: "0 < bs_MC (cx_blksz lcntx)" "0 < bs_KC (cx_blksz lcntx)" "0 < bs_NR (cx_blksz lcntx)" "0 < bs_NC (cx_blksz lcntx)" using ok by auto
  note five = runs_asI [OF tile_run [where rows = 16, OF bf16_operands [where e = e and tj = tj and ti = ti, OF ok dims(1,2) less_imp_le [OF dims(3)] tile] t(1,5) tile],
      of "[]" "\<lambda>s. group_end g tj ti s @ free_a g s @ free_c g s", simplified]
  have n1: "runs_as (fp_located True False 2 bf16_min_NR (cx_blksz lcntx) g) (share_steps True 16 lcntx (bs_KC (cx_blksz lcntx)) g thread) (bf16_n1 e g lcntx thread)"
    if "fa_n g = 1"
  proof -
    obtain pre b post where cb: "bf16_column_b g = (pre, b, post)" by (metis prod_cases3)
    note q = bf16_column_b_quiet [OF cb]
    show ?thesis unfolding bf16_n1_def Let_def cb prod.case
      by (rule runs_asI, rule rows_run [OF that dims(1,3) _ pos(1) column_a_quiet]) (use q in \<open>auto simp: end_quiet\<close>)
  qed
  have m1: "runs_as (fp_located True False 2 bf16_min_NR (cx_blksz lcntx) g) (share_steps True 16 lcntx (bs_KC (cx_blksz lcntx)) g thread) (bf16_m1 e g lcntx thread)"
    if "fa_m g = 1" "fa_n g \<noteq> 1"
  proof -
    obtain pre a_use post where op: "row_a 2 2 (bf16_packa_fun e) g = (pre, a_use, post)" by (metis prod_cases3)
    note q = row_a_quiet [OF op]
    show ?thesis unfolding bf16_m1_def Let_def op prod.case
      by (rule runs_asI, rule cols_run [OF that dims(2,3) pos(3,4) bf16_row_b_quiet [OF pos(2)]]) (simp_all add: q end_quiet)
  qed
  show ?thesis
    using five n1 m1 by (auto simp: dlp_gemm_rowvar_avx512bf16_bf16bf16f32of32_def bf16_gemv_def ids tile end_quiet free_c_quiet bf16_nest_def)
qed

lemma fallback_run:
  assumes ok: "blksz_ok (cx_blksz lcntx)" "blksz_ok (cx_blksz og)" and dims: "0 \<le> fa_m g" "0 \<le> fa_n g" "0 < fa_k g"
  shows "runs_as (fp_located (fa_n g = 1 \<or> bf16_plain_c g \<or> is_vector g \<and> fa_cs_c g = 1) False 2 bf16_min_NR (cx_blksz lcntx) g)
    (share_steps (is_vector g) (bs_MR (cx_blksz og)) og (bs_KC (cx_blksz lcntx)) g thread) (dlp_gemm_rowvar_f32_fallback_bf16bf16f32of32 g lcntx og thread)"
proof -
  obtain tj ti where ids: "dlp_gemm_gen_dlp_task_ids (Some thread) = (tj, ti)" by force
  obtain js je is' ie where tile: "driver_tile thread (fa_m g) (fa_n g) og = ((js, je), (is', ie))" by (metis prod.exhaust)
  note t = tile_facts [OF tile dims(1,2) ok(2)]
  have pos: "0 < bs_MC (cx_blksz lcntx)" "0 < bs_KC (cx_blksz lcntx)" "0 < bs_NC (cx_blksz lcntx)" "0 < bs_NR (cx_blksz og)" "0 < bs_MR (cx_blksz og)"
    using ok by auto
  note five = runs_asI [OF tile_run [where rows = "bs_MR (cx_blksz og)", OF fallback_operands [where tj = tj and ti = ti, OF ok dims(1,2) tile] t(1,5) tile],
      of "[]" "\<lambda>s. fallback_end g tj ti s", simplified]
  have n1: "runs_as (fp_located True False 2 bf16_min_NR (cx_blksz lcntx) g)
      (share_steps True (bs_MR (cx_blksz og)) og (bs_KC (cx_blksz lcntx)) g thread) (fallback_n1 g lcntx og thread)" if "fa_n g = 1"
    unfolding fallback_n1_def Let_def
    by (rule runs_asI, rule rows_run [OF that dims(1,3) pos(5,1)]) auto
  have m1: "runs_as (fp_located (fa_cs_c g = 1) False 2 bf16_min_NR (cx_blksz lcntx) g)
      (share_steps True (bs_MR (cx_blksz og)) og (bs_KC (cx_blksz lcntx)) g thread) (fallback_m1 g lcntx og thread)" if "fa_m g = 1" "fa_n g \<noteq> 1"
    unfolding fallback_m1_def Let_def
    by (rule runs_asI, rule cols_run [OF that dims(2,3) pos(4,3) fallback_row_b_quiet [OF pos(2)]]) simp_all
  show ?thesis
    using five n1 m1
    by (cases "fa_cs_c g = 1") (auto simp: dlp_gemm_rowvar_f32_fallback_bf16bf16f32of32_def is_vector_def ids tile free_c_quiet fallback_nest_def bf16_plain_c_def)
qed

end
