(* ===== verification/Bf16_Fallback.thy ===== *)
theory Bf16_Fallback
  imports Bf16_Driver Kernel_Hndl
begin

text \<open>
  Two questions about the converting driver of \<open>Bf16_Driver\<close> when B is reordered. Is the buffer the chief allocates once
  large enough for every chunk, and does the driver read the blocks where the reorder put them? The answers are that the
  buffer is large enough when the columns of the group are at most one cache block or begin at one, and not in general, and that on a
  CPU without AVX512-BF16 the depth block of a call is not the one of the reorder.
\<close>

section \<open>What a loop passes through\<close>

lemma for_loop_first:
  assumes "for_loop p e nxt body s = Some (s', xs)" "p < e"
  shows "\<exists>s1 ys zs. body p s = Some (s1, ys) \<and> xs = ys @ zs"
  using assms by (subst (asm) for_loop.simps) (auto split: if_splits option.splits)

lemma for_loop_member:
  assumes "for_loop p e nxt body s = Some (s', xs)" "q \<in> set (loop_points p e nxt)"
  shows "\<exists>sq sq' ys. body q sq = Some (sq', ys) \<and> set ys \<subseteq> set xs"
  using assms
proof (induction "nat (e - p)" arbitrary: p s xs rule: less_induct)
  case less
  have "q \<in> set (if p < e \<and> p < nxt p then p # loop_points (nxt p) e nxt else [])"
    using less.prems(2) loop_points.simps [of p e nxt] by argo
  then have p: "p < e" "p < nxt p" "q = p \<or> q \<in> set (loop_points (nxt p) e nxt)" by (auto split: if_splits)
  with less.prems(1) obtain s1 ys zs where b: "body p s = Some (s1, ys)" "xs = ys @ zs" "for_loop (nxt p) e nxt body s1 = Some (s', zs)"
    by (subst (asm) for_loop.simps) (auto split: if_splits option.splits)
  show ?case
  proof (cases "q = p")
    case True
    then show ?thesis using b by (intro exI [of _ s] exI [of _ s1] exI [of _ ys]) simp
  next
    case False
    then have "\<exists>sq sq' ys. body q sq = Some (sq', ys) \<and> set ys \<subseteq> set zs"
      using less.hyps [OF _ b(3)] p by simp
    then show ?thesis using b(2) by fastforce
  qed
qed

text \<open>The actions of the operand B at a chunk, in the first block of the depth, are part of the run; those of the first chunk come
  first, after those of C.\<close>

lemma nest_b_member:
  assumes "fp_jc_loop nest g lcntx ((js, je), (is, ie)) s = Some (s', xs)" "0 < fa_k g" "0 < bs_KC (cx_blksz lcntx)"
    and "jc \<in> set (loop_points js je (fp_next g (bs_NC (cx_blksz lcntx)) (ne_min_NR nest)))"
  shows "\<exists>sb. set (fst (snd (ne_b nest jc je (fp_panel g (bs_NC (cx_blksz lcntx)) (ne_min_NR nest) jc je) 0
      (dlp_min (fa_k g) (bs_KC (cx_blksz lcntx))) sb))) \<subseteq> set xs"
proof -
  let ?KC = "bs_KC (cx_blksz lcntx)" and ?panel = "fp_panel g (bs_NC (cx_blksz lcntx)) (ne_min_NR nest) jc je"
  obtain sq sq' ys where y: "(case ne_c nest jc je (fst (snd (snd ?panel))) is ie sq of (s, acts, c_use_jc) \<Rightarrow>
      map_option (\<lambda>(s', calls). (s', acts @ calls)) (fp_pc_loop nest g lcntx is ie jc je ?panel c_use_jc s)) = Some (sq', ys)" "set ys \<subseteq> set xs"
    using for_loop_member [OF assms(1) [unfolded fp_jc_loop_def Let_def prod.case] assms(4)] by blast
  obtain s1 a1 c where c: "ne_c nest jc je (fst (snd (snd ?panel))) is ie sq = (s1, a1, c)" by (metis prod_cases3)
  obtain s2 zs where z: "fp_pc_loop nest g lcntx is ie jc je ?panel c s1 = Some (s2, zs)" "set zs \<subseteq> set xs"
    using y by (auto simp: c split: option.splits)
  obtain s3 ys3 zs3 where f: "(case ne_b nest jc je ?panel 0 (dlp_min (fa_k g - 0) ?KC) s1 of (s, acts, b_use) \<Rightarrow>
      map_option (\<lambda>(s', calls). (s', acts @ calls))
        (fp_ic_loop nest g lcntx is ie jc (fst (snd (snd ?panel))) 0 (dlp_min (fa_k g - 0) ?KC) b_use c s)) = Some (s3, ys3)" "zs = ys3 @ zs3"
    using for_loop_first [OF z(1) [unfolded fp_pc_loop_def Let_def] assms(2)] by blast
  then show ?thesis using z(2) by (intro exI [of _ s1]) (auto split: prod.splits option.splits)
qed

lemma nest_b_first:
  assumes "fp_jc_loop nest g lcntx ((js, je), (is, ie)) s = Some (s', xs)" "0 < fa_k g" "js < je"
    and "ne_c nest js je (fst (snd (snd (fp_panel g (bs_NC (cx_blksz lcntx)) (ne_min_NR nest) js je)))) is ie s = (s1, a1, c)"
    and "ne_b nest js je (fp_panel g (bs_NC (cx_blksz lcntx)) (ne_min_NR nest) js je) 0 (dlp_min (fa_k g) (bs_KC (cx_blksz lcntx))) s1 = (s2, a2, b)"
  shows "\<exists>zs. xs = a1 @ a2 @ zs"
proof -
  let ?panel = "fp_panel g (bs_NC (cx_blksz lcntx)) (ne_min_NR nest) js je"
  obtain s3 ys zs where "(case ne_c nest js je (fst (snd (snd ?panel))) is ie s of (s, acts, c_use_jc) \<Rightarrow>
      map_option (\<lambda>(s', calls). (s', acts @ calls)) (fp_pc_loop nest g lcntx is ie js je ?panel c_use_jc s)) = Some (s3, ys)" "xs = ys @ zs"
    using for_loop_first [OF assms(1) [unfolded fp_jc_loop_def Let_def prod.case] assms(3)] by blast
  then obtain s4 us where u: "fp_pc_loop nest g lcntx is ie js je ?panel c s1 = Some (s4, us)" "xs = a1 @ us @ zs"
    by (auto simp: assms(4) split: option.splits)
  from for_loop_first [OF u(1) [unfolded fp_pc_loop_def Let_def] assms(2)] assms(5)
  obtain vs ws where "us = (a2 @ vs) @ ws" by (auto split: option.splits)
  then show ?thesis using u(2) by simp
qed

section \<open>The conversion buffer\<close>

text \<open>The size the chief asks for in its first chunk.\<close>

definition fallback_buffer :: "fp_args \<Rightarrow> dlp_gemm_cntx_t \<Rightarrow> md_t \<Rightarrow> md_t \<Rightarrow> md_t" where
  "fallback_buffer g lcntx js je =
     (let NC = bs_NC (cx_blksz lcntx);
          nc0 = fst (snd (snd (fp_panel g NC bf16_min_NR js je)))
      in 4 * dlp_make_multiple_of_n (dlp_max (dlp_min (je - js) NC - nc0) nc0) bf16_min_NR * even_up (dlp_min (fa_k g) (bs_KC (cx_blksz lcntx))))"

fun widen_inside :: "md_t \<Rightarrow> fp_action \<Rightarrow> bool" where
  "widen_inside sz (Widen_b source place dep cols stride) \<longleftrightarrow> 0 \<le> place \<and> 4 * (place + (dep - 1) * stride + cols) \<le> sz"
| "widen_inside sz _ \<longleftrightarrow> True"

lemma chunk_widths:
  fixes mn :: md_t
  assumes "0 < NC" "0 \<le> js" "js \<le> jc" "jc < je"
    and "fa_mtag_b g = REORDERED \<Longrightarrow> je - js \<le> NC \<or> NC dvd js"
  defines "w \<equiv> \<lambda>jc. fst (snd (snd (fp_panel g NC mn jc je)))"
  shows "w jc \<le> dlp_max (dlp_min (je - js) NC - w js) (w js)"
proof -
  have c: "w x = min (if fa_mtag_b g = REORDERED then x div NC * NC + NC else x + NC) je - x" if "0 \<le> x" "x < je" for x
  proof -
    have "x sdiv NC * NC = x div NC * NC" using that assms(1) by (simp add: cdiv_simps)
    then have "fp_next g NC mn x = (if fa_mtag_b g = REORDERED then x div NC * NC + NC else x + NC)"
      by (simp add: fp_next_def Let_def dlp_gemm_adjust_B_panel_reordered_jc_def dlp_gemm_get_B_panel_reordered_start_offset_width_def)
    then show ?thesis using fp_chunk(2) [OF assms(1) that, of g mn] by (simp add: w_def)
  qed
  show ?thesis
  proof (cases "fa_mtag_b g = REORDERED")
    case False
    then show ?thesis using c [of jc] c [of js] assms(1-4) by (simp add: dlp_max_def dlp_min_def) linarith
  next
    case True
    define qs where "qs = js div NC * NC"
    define q where "q = jc div NC * NC"
    have s: "qs \<le> js" "js < qs + NC" "q \<le> jc" "jc < q + NC"
      using floor_block [OF assms(1), of js] floor_block [OF assms(1), of jc] by (simp_all add: qs_def q_def)
    have "js div NC \<le> jc div NC" using assms(1,3) by (simp add: zdiv_mono1)
    then have "q = qs \<or> qs + NC \<le> q"
      using mult_right_mono [of "js div NC + 1" "jc div NC" NC] assms(1) by (cases "js div NC = jc div NC") (auto simp: q_def qs_def algebra_simps)
    moreover have "qs = js" if "NC dvd js" using that by (simp add: qs_def)
    moreover have wj: "w jc = min (q + NC) je - jc" "w js = min (qs + NC) je - js"
      using c [of jc] c [of js] assms(1-4) True by (simp_all add: q_def qs_def)
    ultimately consider "w jc \<le> w js" | "je - js \<le> NC" "qs + NC \<le> q" using assms(3) assms(5) [OF True] s by (cases "q = qs") auto
    then show ?thesis
    proof cases
      case 1
      then show ?thesis by (simp add: dlp_max_def)
    next
      case 2
      then have "w jc \<le> je - js - w js" "dlp_min (je - js) NC = je - js" using wj s assms(4) by (auto simp: dlp_min_def)
      then show ?thesis by (simp add: dlp_max_def)
    qed
  qed
qed

lemma widen_bound:
  fixes s e nc0 kc0 W K :: md_t
  assumes "e \<le> nc0" "0 \<le> nc0" "0 < kc0" "kc0 \<le> K" "nc0 \<le> W"
  shows "4 * (s + (kc0 - 1) * nc0 + (e - s)) \<le> 4 * W * K"
proof -
  have "(kc0 - 1) * nc0 + nc0 = nc0 * kc0" by (simp add: algebra_simps)
  also have "\<dots> \<le> W * K" using assms by (intro mult_mono) auto
  finally show ?thesis using assms(1) by (simp add: mult.assoc)
qed

lemma fallback_widen:
  assumes ok: "blksz_ok (cx_blksz lcntx)" "blksz_ok (cx_blksz og)" and js: "0 \<le> js" and k: "0 < fa_k g"
    and fits: "fa_mtag_b g = REORDERED \<Longrightarrow> je - js \<le> bs_NC (cx_blksz lcntx) \<or> bs_NC (cx_blksz lcntx) dvd js"
    and jc: "js \<le> jc" "jc < je" and d: "depth_ok g (bs_KC (cx_blksz lcntx)) pc kc0"
    and b: "fallback_b_operand g lcntx og tj ti jc je (fp_panel g (bs_NC (cx_blksz lcntx)) bf16_min_NR jc je) pc kc0 s = (s', acts, b)"
  shows "list_all (widen_inside (fallback_buffer g lcntx js je)) acts \<and> list_all no_compute acts"
proof -
  let ?NC = "bs_NC (cx_blksz lcntx)" and ?KC = "bs_KC (cx_blksz lcntx)"
  let ?w = "\<lambda>jc. fst (snd (snd (fp_panel g ?NC bf16_min_NR jc je)))"
  have pos: "0 < ?NC" "0 < ?KC" "0 < bs_NR (cx_blksz og)" using ok by auto
  obtain cur rm nc0 nsub where p: "fp_panel g ?NC bf16_min_NR jc je = (cur, rm, nc0, nsub)" by (metis prod_cases4)
  obtain ps pe where r: "dlp_thread_task_range ti nc0 (bs_NR (cx_blksz og)) False = (ps, pe)" by force
  have nc0: "0 < nc0" using fp_chunk(3) [OF pos(1) _ jc(2), of g bf16_min_NR] js jc(1) by (simp add: p)
  have slice: "0 \<le> ps" "pe \<le> nc0"
    using thread_slice [OF refl less_imp_le [OF nc0] pos(3), of "n_way ti" "work_id ti"] r by (simp_all add: task_range_eq_slice)
  define W where "W = dlp_max (dlp_min (je - js) ?NC - ?w js) (?w js)"
  have "nc0 \<le> W" using chunk_widths [OF pos(1) js jc fits, of g bf16_min_NR] by (simp add: W_def p)
  then have W: "nc0 \<le> dlp_make_multiple_of_n W bf16_min_NR"
    using make_multiple_bounds [of W bf16_min_NR] nc0 by (simp add: bf16_min_NR_def)
  have kc: "0 < kc0" "kc0 \<le> dlp_min (fa_k g) ?KC" using d pos(2) by (auto simp: depth_ok_def dlp_min_def)
  then have K: "kc0 \<le> even_up (dlp_min (fa_k g) ?KC)"
    using make_multiple_bounds [of "dlp_min (fa_k g) ?KC" 2] even_up_eq [of "dlp_min (fa_k g) ?KC"] by simp
  have "4 * (ps + (kc0 - 1) * nc0 + (pe - ps)) \<le> fallback_buffer g lcntx js je"
    using widen_bound [OF slice(2) less_imp_le [OF nc0] kc(1) K W, of ps] by (simp add: fallback_buffer_def Let_def W_def)
  then show ?thesis using b slice(1)
    by (auto simp: fallback_b_operand_def p r Let_def split: if_splits)
qed

lemma fallback_buffer_operands:
  assumes ok: "blksz_ok (cx_blksz lcntx)" "blksz_ok (cx_blksz og)" and js: "0 \<le> js" and k: "0 < fa_k g"
    and fits: "fa_mtag_b g = REORDERED \<Longrightarrow> je - js \<le> bs_NC (cx_blksz lcntx) \<or> bs_NC (cx_blksz lcntx) dvd js"
  shows "nest_operands (fallback_nest g lcntx og tj ti) g lcntx bf lo hi js je (widen_inside (fallback_buffer g lcntx js je))"
proof
  show "blksz_ok (cx_blksz lcntx)" by (rule ok)
next
  fix jc s s' acts c
  assume "ne_c (fallback_nest g lcntx og tj ti) jc je (fst (snd (snd (fp_panel g (bs_NC (cx_blksz lcntx)) (ne_min_NR (fallback_nest g lcntx og tj ti)) jc je)))) lo hi s = (s', acts, c)"
  then show "list_all (widen_inside (fallback_buffer g lcntx js je)) acts \<and> list_all no_compute acts"
    by (auto simp: fallback_nest_def bf16_c_operand_def Let_def split: if_splits)
next
  fix jc pc kc0 s s' acts b
  assume "cols_ok g bf (bs_NC (cx_blksz lcntx)) (ne_min_NR (fallback_nest g lcntx og tj ti)) js je jc" "depth_ok g (bs_KC (cx_blksz lcntx)) pc kc0"
    "ne_b (fallback_nest g lcntx og tj ti) jc je (fp_panel g (bs_NC (cx_blksz lcntx)) (ne_min_NR (fallback_nest g lcntx og tj ti)) jc je) pc kc0 s = (s', acts, b)"
  then show "list_all (widen_inside (fallback_buffer g lcntx js je)) acts \<and> list_all no_compute acts"
    using fallback_widen [OF ok js k fits, of jc pc kc0 tj ti s s' acts b] by (simp add: fallback_nest_def cols_ok_def)
next
  fix pc kc0 ic mc0 s s' acts a
  assume "ne_a (fallback_nest g lcntx og tj ti) pc kc0 ic mc0 s = (s', acts, a)"
  then show "list_all (widen_inside (fallback_buffer g lcntx js je)) acts \<and> list_all no_compute acts"
    by (auto simp: fallback_nest_def fallback_a_operand_def)
qed simp

lemma fallback_first_get:
  assumes ok: "blksz_ok (cx_blksz lcntx)" and k: "0 < fa_k g" and "js < je" and chief: "dlp_thread_am_ochief ti"
    and run: "fp_jc_loop (fallback_nest g lcntx og tj ti) g lcntx ((js, je), (is, ie)) no_buffers = Some (s', xs)"
  shows "\<exists>pre post. xs = pre @ Get_b (fallback_buffer g lcntx js je) # post \<and> (\<forall>x. Get_b x \<notin> set pre)"
proof -
  let ?nest = "fallback_nest g lcntx og tj ti" and ?NC = "bs_NC (cx_blksz lcntx)"
  obtain cur rm nc0 nsub where p: "fp_panel g ?NC bf16_min_NR js je = (cur, rm, nc0, nsub)" by (metis prod_cases4)
  have mn: "ne_min_NR ?nest = bf16_min_NR" by (simp add: fallback_nest_def)
  obtain s1 a1 c where c: "ne_c ?nest js je (fst (snd (snd (fp_panel g ?NC (ne_min_NR ?nest) js je)))) is ie no_buffers = (s1, a1, c)" by (metis prod_cases3)
  obtain s2 a2 b where b: "ne_b ?nest js je (fp_panel g ?NC (ne_min_NR ?nest) js je) 0 (dlp_min (fa_k g) (bs_KC (cx_blksz lcntx))) s1 = (s2, a2, b)" by (metis prod_cases3)
  have a1: "\<forall>x. Get_b x \<notin> set a1" "\<not> have_b s1"
    using c by (auto simp: fallback_nest_def bf16_c_operand_def no_buffers_def Let_def split: if_splits)
  have "\<exists>rest. a2 = Get_b (fallback_buffer g lcntx js je) # rest"
    using b chief a1(2) by (auto simp: fallback_nest_def mn p fallback_b_operand_def fallback_buffer_def Let_def split: prod.splits if_splits)
  then obtain rest zs where "xs = a1 @ Get_b (fallback_buffer g lcntx js je) # rest @ zs" using nest_b_first [OF run k assms(3) c b] by auto
  then show ?thesis using a1(1) by blast
qed

text \<open>C12: while the columns of a group are at most one cache block, or begin at one, or B is packed rather than reordered, no
  conversion of the five loops leaves the buffer whose size the chief of the group computed in its first chunk.\<close>

theorem fallback_buffer_suffices:
  assumes "blksz_ok (cx_blksz lcntx)" "blksz_ok (cx_blksz og)" "0 \<le> fa_m g" "0 \<le> fa_n g" "0 < fa_k g" "fa_m g \<noteq> 1" "fa_n g \<noteq> 1"
    and "driver_tile thread (fa_m g) (fa_n g) og = ((js, je), (is, ie))" "js < je"
    and "fa_mtag_b g = REORDERED \<Longrightarrow> je - js \<le> bs_NC (cx_blksz lcntx) \<or> bs_NC (cx_blksz lcntx) dvd js"
    and "dlp_gemm_rowvar_f32_fallback_bf16bf16f32of32 g lcntx og thread = Some acts"
  shows "(dlp_thread_am_ochief (snd (dlp_gemm_gen_dlp_task_ids (Some thread))) \<longrightarrow>
      (\<exists>pre post. acts = pre @ Get_b (fallback_buffer g lcntx js je) # post \<and> (\<forall>x. Get_b x \<notin> set pre))) \<and>
    (\<forall>source place dep cols stride. Widen_b source place dep cols stride \<in> set acts \<longrightarrow>
      0 \<le> place \<and> 4 * (place + (dep - 1) * stride + cols) \<le> fallback_buffer g lcntx js je)"
proof -
  obtain tj ti where ids: "dlp_gemm_gen_dlp_task_ids (Some thread) = (tj, ti)" by force
  note t = tile_facts [OF assms(8,3,4,2)]
  from nest_run [OF fallback_buffer_operands [where bf = "bs_NR (cx_blksz og)" and tj = tj and ti = ti and lo = "is" and hi = ie, OF assms(1,2) t(1) assms(5,10)] t(1)] t(5)
  obtain s xs where xs: "fp_jc_loop (fallback_nest g lcntx og tj ti) g lcntx ((js, je), (is, ie)) no_buffers = Some (s, xs)"
    "list_all (widen_inside (fallback_buffer g lcntx js je)) xs" by blast
  have acts: "acts = xs @ fallback_end g tj ti s"
    using assms(11,6,7,8) by (simp add: dlp_gemm_rowvar_f32_fallback_bf16bf16f32of32_def ids xs(1))
  have "Widen_b source place dep cols stride \<notin> set (fallback_end g tj ti s)" for source place dep cols stride
    by (auto simp: fallback_end_def free_c_def)
  moreover have "\<exists>pre post. acts = pre @ Get_b (fallback_buffer g lcntx js je) # post \<and> (\<forall>x. Get_b x \<notin> set pre)" if ch: "dlp_thread_am_ochief ti"
  proof -
    obtain pre post where "xs = pre @ Get_b (fallback_buffer g lcntx js je) # post" "\<forall>x. Get_b x \<notin> set pre"
      using fallback_first_get [OF assms(1,5,9) ch xs(1)] by blast
    then have "acts = pre @ Get_b (fallback_buffer g lcntx js je) # (post @ fallback_end g tj ti s)" by (simp add: acts)
    then show ?thesis using \<open>\<forall>x. Get_b x \<notin> set pre\<close> by blast
  qed
  ultimately show ?thesis using xs(2) by (auto simp: ids acts list_all_iff)
qed

text \<open>C13: in general it does leave it. With a cache block of 1024 columns and a reordered B of 3072 columns, two groups of threads
  begin at columns 0 and 1536. The chief of the second group allocates for 512 columns, what its first chunk and the rest of
  the cache block need, and in its second chunk converts 1024 columns into that buffer.\<close>

theorem fallback_buffer_overrun:
  fixes lcntx og :: dlp_gemm_cntx_t and g :: fp_args
  defines "thread \<equiv> \<lparr>thr_n_threads = 2, thr_tid = 1, thr_ic_ways = 1, thr_jc_ways = 2\<rparr>"
    and "allocated \<equiv> 4 * 512 * even_up (dlp_min (fa_k g) (bs_KC (cx_blksz lcntx)))"
  assumes "blksz_ok (cx_blksz lcntx)" "2 \<le> bs_KC (cx_blksz lcntx)" "bs_NC (cx_blksz lcntx) = 1024" "bs_NR (cx_blksz og) = 64"
    and "1 < fa_m g" "fa_n g = 3072" "2 \<le> fa_k g" "fa_mtag_b g = REORDERED"
    and "dlp_gemm_rowvar_f32_fallback_bf16bf16f32of32 g lcntx og thread = Some acts"
  shows "(\<exists>pre post. acts = pre @ Get_b allocated # post \<and> (\<forall>x. Get_b x \<notin> set pre)) \<and>
    (\<exists>source dep. Widen_b source 0 dep 1024 1024 \<in> set acts \<and> allocated < 4 * (0 + (dep - 1) * 1024 + 1024))"
proof -
  let ?KC = "bs_KC (cx_blksz lcntx)"
  let ?tj = "\<lparr>ocomm_id = 1, n_way = 2, work_id = 1\<rparr> :: dlp_task_id_t" and ?ti = "\<lparr>ocomm_id = 0, n_way = 1, work_id = 0\<rparr> :: dlp_task_id_t"
  have ids: "dlp_gemm_gen_dlp_task_ids (Some thread) = (?tj, ?ti)" unfolding thread_def by code_simp
  have cols: "dlp_thread_task_range ?tj 3072 64 False = (1536, 3072)" "dlp_thread_task_range ?ti 1024 64 False = (0, 1024)" by code_simp+
  obtain "is" ie where tile: "driver_tile thread (fa_m g) (fa_n g) og = ((1536, 3072), (is, ie))"
    using cols(1) assms(6,8) by (simp add: driver_tile_def ids prod_eq_iff)
  obtain s xs where xs: "fp_jc_loop (fallback_nest g lcntx og ?tj ?ti) g lcntx ((1536, 3072), (is, ie)) no_buffers = Some (s, xs)"
    "acts = xs @ fallback_end g ?tj ?ti s"
    using assms(7,8,11) tile by (auto simp: dlp_gemm_rowvar_f32_fallback_bf16bf16f32of32_def ids)
  have mn: "ne_min_NR (fallback_nest g lcntx og ?tj ?ti) = 16" by (simp add: fallback_nest_def bf16_min_NR_def)
  have nx: "fp_next g 1024 16 x = x div 1024 * 1024 + 1024" if "0 \<le> x" for x
    using that assms(10) by (simp add: fp_next_def Let_def dlp_gemm_adjust_B_panel_reordered_jc_def dlp_gemm_get_B_panel_reordered_start_offset_width_def cdiv_simps)
  have pts: "2048 \<in> set (loop_points 1536 3072 (fp_next g 1024 16))"
    by (subst loop_points.simps, subst loop_points.simps) (simp add: nx)
  have panels: "fst (snd (snd (fp_panel g 1024 16 1536 3072))) = 512" "\<exists>cur rm nsub. fp_panel g 1024 16 2048 3072 = (cur, rm, 1024, nsub)"
    using assms(10) by (simp_all add: fp_panel_def Let_def dlp_gemm_get_B_panel_reordered_start_offset_width_def dlp_min_def cdiv_simps)
  have r: "dlp_make_multiple_of_n 512 16 = 512" by code_simp
  have first: "fallback_buffer g lcntx 1536 3072 = allocated"
    using panels(1) assms(5) by (simp add: fallback_buffer_def Let_def allocated_def bf16_min_NR_def dlp_max_def dlp_min_def r)
  have kc: "2 \<le> dlp_min (fa_k g) ?KC" using assms(4,9) by (simp add: dlp_min_def)
  have chief: "dlp_thread_am_ochief ?ti" by code_simp
  have KC: "0 < ?KC" "0 < fa_k g" using assms(4,9) by simp_all
  have "\<exists>pre post. acts = pre @ Get_b allocated # post \<and> (\<forall>x. Get_b x \<notin> set pre)"
  proof -
    obtain pre post where "xs = pre @ Get_b allocated # post" "\<forall>x. Get_b x \<notin> set pre"
      using fallback_first_get [OF assms(3) KC(2) _ chief xs(1)] first by auto
    then have "acts = pre @ Get_b allocated # (post @ fallback_end g ?tj ?ti s)" by (simp add: xs(2))
    then show ?thesis using \<open>\<forall>x. Get_b x \<notin> set pre\<close> by blast
  qed
  moreover have "\<exists>source. Widen_b source 0 (dlp_min (fa_k g) ?KC) 1024 1024 \<in> set xs"
  proof -
    obtain cur rm nsub where p: "fp_panel g 1024 16 2048 3072 = (cur, rm, 1024, nsub)" using panels(2) by blast
    obtain sb where "set (fst (snd (fallback_b_operand g lcntx og ?tj ?ti 2048 3072 (cur, rm, 1024, nsub) 0 (dlp_min (fa_k g) ?KC) sb))) \<subseteq> set xs"
      using nest_b_member [OF xs(1) KC(2,1), of 2048] pts p by (auto simp: mn assms(5)) (simp add: fallback_nest_def)
    then show ?thesis using assms(6,10) by (auto simp: fallback_b_operand_def Let_def cols(2))
  qed
  moreover have "allocated < 4 * (0 + (dlp_min (fa_k g) ?KC - 1) * 1024 + 1024)"
    using kc even_up_eq [of "dlp_min (fa_k g) ?KC"] make_multiple_bounds [of "dlp_min (fa_k g) ?KC" 2] by (simp add: allocated_def)
  ultimately show ?thesis using xs(2) by auto
qed

section \<open>The depth block of a rerouted call\<close>

text \<open>The \<open>float\<close> engine, to which that of \<open>bfloat16\<close> hands a call on a CPU without its kernels: tile and kernel are the
  parameter \<open>shape\<close>, the depth block is that of the context.\<close>

definition rerouted_kernelInfo :: "(dlp_gemm_cntx_t \<Rightarrow> tile_choice) \<Rightarrow> gemm_engine" where
  "rerouted_kernelInfo shape c =
     \<lparr>ki_mr = tc_mr (shape c), ki_nr = tc_nr (shape c), ki_kc = bs_KC (cx_blksz c),
      ki_thread_info = tc_thread_info (shape c), ki_kernel = tc_kernel (shape c)\<rparr>"

text \<open>The context of a GEMM call: on a CPU without AVX512-BF16 tile and depth block are taken from the context of the \<open>float\<close>
  GEMM before the kernel is looked up. Metadata is not merged there.\<close>

definition bf16_gemm_context :: "cpu \<Rightarrow> bool \<Rightarrow> (dlp_gemm_cntx_t \<Rightarrow> tile_choice) \<Rightarrow> dlp_gemm_cntx_t" where
  "bf16_gemm_context c zen_arch shape =
     (let lcntx_l = dlp_gemm_get_global_cntx_obj (init_table c) (op_type_code BF16BF16F32OF32);
          lcntx_f32 = dlp_gemm_get_global_cntx_obj (init_table c) (op_type_code F32F32F32OF32);
          lcntx_l = (if \<not> avx512bf16_supported c \<or> zen_arch
                     then lcntx_l\<lparr>cx_blksz := (cx_blksz lcntx_l)
                            \<lparr>bs_MR := bs_MR (cx_blksz lcntx_f32), bs_NR := bs_NR (cx_blksz lcntx_f32), bs_KC := bs_KC (cx_blksz lcntx_f32)\<rparr>\<rparr>
                     else lcntx_l);
          lcntx_l = lcntx_l\<lparr>cx_dlp_kernel_hndl := (cx_dlp_kernel_hndl lcntx_l)\<lparr>kh_kernel_base := 0\<rparr>\<rparr>
      in dlp_init_and_get_kernel_hndl DLP_KERNEL_BF16BF16F32OF32 (rerouted_kernelInfo shape) lcntx_l)"

text \<open>The context the reorder calls start from, without metadata; the decision engine may change its \<open>NR\<close>, not its depth block.\<close>

definition bf16_reorder_context :: "cpu \<Rightarrow> dlp_gemm_cntx_t" where
  "bf16_reorder_context c = dlp_gemm_get_global_cntx_obj (init_table c) (op_type_code BF16BF16F32OF32)"

lemma bf16_tables:
  "cx_blksz (bf16_reorder_context c) = \<lparr>bs_MC = 144, bs_NC = 1024, bs_KC = 4096, bs_NR = 64, bs_MR = 6\<rparr>"
  "bs_KC (cx_blksz (dlp_gemm_get_global_cntx_obj (init_table c) (op_type_code F32F32F32OF32))) \<in> {512, 1024}"
proof -
  have i: "table_index (op_type_code BF16BF16F32OF32) = 3" "table_index (op_type_code F32F32F32OF32) = 2"
    by (simp_all only: table_index_op) simp_all
  show "cx_blksz (bf16_reorder_context c) = \<lparr>bs_MC = 144, bs_NC = 1024, bs_KC = 4096, bs_NR = 64, bs_MR = 6\<rparr>"
    "bs_KC (cx_blksz (dlp_gemm_get_global_cntx_obj (init_table c) (op_type_code F32F32F32OF32))) \<in> {512, 1024}"
    unfolding bf16_reorder_context_def get_cntx_entry i by (simp_all add: map_of_cpu_def table_map_defs Let_def)
qed

lemma kernel_hndl_blksz:
  assumes "getKernelDatatype_valid dt" "0 < ki_mr (engine cx)" "0 < ki_nr (engine cx)"
  shows "cx_blksz (dlp_init_and_get_kernel_hndl dt engine cx) =
    \<lparr>bs_MC = ceil_blks (bs_MC (cx_blksz cx)) (ki_mr (engine cx)) * ki_mr (engine cx),
     bs_NC = ceil_blks (bs_NC (cx_blksz cx)) (ki_nr (engine cx)) * ki_nr (engine cx),
     bs_KC = ki_kc (engine cx), bs_NR = ki_nr (engine cx), bs_MR = ki_mr (engine cx)\<rparr>"
  using assms by (simp add: dlp_init_and_get_kernel_hndl_def Let_def)

lemma rerouted_blksz:
  assumes "\<not> avx512bf16_supported c" "\<And>x. 0 < tc_mr (shape x)" "\<And>x. 0 < tc_nr (shape x)"
  shows "blksz_ok (cx_blksz (bf16_gemm_context c zen_arch shape))" "bs_KC (cx_blksz (bf16_gemm_context c zen_arch shape)) \<in> {512, 1024}"
    "1024 \<le> bs_NC (cx_blksz (bf16_gemm_context c zen_arch shape))"
proof -
  let ?s = "dlp_gemm_get_global_cntx_obj (init_table c) (op_type_code BF16BF16F32OF32)"
    and ?f = "dlp_gemm_get_global_cntx_obj (init_table c) (op_type_code F32F32F32OF32)"
  define cx where "cx = ?s\<lparr>cx_blksz := (cx_blksz ?s)\<lparr>bs_MR := bs_MR (cx_blksz ?f), bs_NR := bs_NR (cx_blksz ?f), bs_KC := bs_KC (cx_blksz ?f)\<rparr>,
    cx_dlp_kernel_hndl := (cx_dlp_kernel_hndl ?s)\<lparr>kh_kernel_base := 0\<rparr>\<rparr>"
  have b: "bs_MC (cx_blksz cx) = 144" "bs_NC (cx_blksz cx) = 1024" "bs_KC (cx_blksz cx) \<in> {512, 1024}"
    using bf16_tables(1) [of c, unfolded bf16_reorder_context_def] bf16_tables(2) [of c] unfolding cx_def by (simp_all del: op_type_code.simps)
  have eq: "bf16_gemm_context c zen_arch shape = dlp_init_and_get_kernel_hndl DLP_KERNEL_BF16BF16F32OF32 (rerouted_kernelInfo shape) cx"
    using assms(1) unfolding bf16_gemm_context_def Let_def cx_def by (simp del: op_type_code.simps)
  have up: "x \<le> ceil_blks x n * n" if "0 \<le> x" "0 < n" for x n :: md_t
    using ceil_blks_covers [OF that] .
  have k: "cx_blksz (bf16_gemm_context c zen_arch shape) =
    \<lparr>bs_MC = ceil_blks 144 (tc_mr (shape cx)) * tc_mr (shape cx), bs_NC = ceil_blks 1024 (tc_nr (shape cx)) * tc_nr (shape cx),
     bs_KC = bs_KC (cx_blksz cx), bs_NR = tc_nr (shape cx), bs_MR = tc_mr (shape cx)\<rparr>"
    unfolding eq by (subst kernel_hndl_blksz) (simp_all add: getKernelDatatype_valid_def rerouted_kernelInfo_def assms b)
  have "144 \<le> ceil_blks 144 (tc_mr (shape cx)) * tc_mr (shape cx)" "1024 \<le> ceil_blks 1024 (tc_nr (shape cx)) * tc_nr (shape cx)"
    using up [of 144] up [of 1024] assms by simp_all
  then show "blksz_ok (cx_blksz (bf16_gemm_context c zen_arch shape))" "bs_KC (cx_blksz (bf16_gemm_context c zen_arch shape)) \<in> {512, 1024}"
    "1024 \<le> bs_NC (cx_blksz (bf16_gemm_context c zen_arch shape))"
    using b(3) assms unfolding k blksz_ok_def by auto
qed


section \<open>Witnesses\<close>

definition fallback_args :: "md_t \<Rightarrow> md_t \<Rightarrow> md_t \<Rightarrow> fp_args" where
  "fallback_args m n k = \<lparr>fa_m = m, fa_n = n, fa_k = k, fa_rs_a = k, fa_cs_a = 1, fa_mtag_a = UNPACKED, fa_rs_b = n, fa_cs_b = 1,
     fa_mtag_b = REORDERED, fa_rs_c = n, fa_cs_c = 1, fa_c_downscale = DLP_F32\<rparr>"

lemma fallback_runs:
  assumes "blksz_ok (cx_blksz lcntx)" "blksz_ok (cx_blksz og)" "0 \<le> fa_m g" "0 \<le> fa_n g" "0 < fa_k g"
  shows "\<exists>acts. dlp_gemm_rowvar_f32_fallback_bf16bf16f32of32 g lcntx og thread = Some acts"
  using fallback_run [OF assms, of thread] by (auto simp: runs_as_def)

lemma fallback_buffer_suffices_witness:
  "\<exists>acts. dlp_gemm_rowvar_f32_fallback_bf16bf16f32of32 (fallback_args 20 1536 9) (example_cntx 144 1024 512 6 16) (example_cntx 144 1024 4096 6 64)
      \<lparr>thr_n_threads = 2, thr_tid = 1, thr_ic_ways = 1, thr_jc_ways = 2\<rparr> = Some acts \<and>
    (\<exists>pre post. acts = pre @ Get_b (4 * 512 * 10) # post)"
proof -
  let ?g = "fallback_args 20 1536 9" and ?l = "example_cntx 144 1024 512 6 16" and ?og = "example_cntx 144 1024 4096 6 64"
  let ?t = "\<lparr>thr_n_threads = 2, thr_tid = 1, thr_ic_ways = 1, thr_jc_ways = 2\<rparr>"
  have ok: "blksz_ok (cx_blksz ?l)" "blksz_ok (cx_blksz ?og)" "0 \<le> fa_m ?g" "0 \<le> fa_n ?g" "0 < fa_k ?g" "fa_m ?g \<noteq> 1" "fa_n ?g \<noteq> 1"
    by (simp_all add: blksz_ok_def example_cntx_def fallback_args_def)
  obtain acts where acts: "dlp_gemm_rowvar_f32_fallback_bf16bf16f32of32 ?g ?l ?og ?t = Some acts" using fallback_runs [OF ok(1-5)] by blast
  have tile: "driver_tile ?t (fa_m ?g) (fa_n ?g) ?og = ((768, 1536), (0, 20))" by code_simp
  have e: "fallback_buffer ?g ?l 768 1536 = 4 * 512 * 10" "dlp_thread_am_ochief (snd (dlp_gemm_gen_dlp_task_ids (Some ?t)))" by code_simp+
  show ?thesis
    using fallback_buffer_suffices [OF ok tile _ _ acts] e acts by (auto simp: example_cntx_def fallback_args_def)
qed

lemma fallback_buffer_overrun_witness:
  "\<exists>acts. dlp_gemm_rowvar_f32_fallback_bf16bf16f32of32 (fallback_args 20 3072 9) (example_cntx 144 1024 512 6 16) (example_cntx 144 1024 4096 6 64)
      \<lparr>thr_n_threads = 2, thr_tid = 1, thr_ic_ways = 1, thr_jc_ways = 2\<rparr> = Some acts \<and>
    (\<exists>pre post. acts = pre @ Get_b (4 * 512 * 10) # post) \<and>
    (\<exists>source dep. Widen_b source 0 dep 1024 1024 \<in> set acts \<and> 4 * 512 * 10 < 4 * (0 + (dep - 1) * 1024 + 1024))"
proof -
  let ?g = "fallback_args 20 3072 9" and ?l = "example_cntx 144 1024 512 6 16" and ?og = "example_cntx 144 1024 4096 6 64"
  let ?t = "\<lparr>thr_n_threads = 2, thr_tid = 1, thr_ic_ways = 1, thr_jc_ways = 2\<rparr>"
  have ok: "blksz_ok (cx_blksz ?l)" "blksz_ok (cx_blksz ?og)" "0 \<le> fa_m ?g" "0 \<le> fa_n ?g" "0 < fa_k ?g"
    by (simp_all add: blksz_ok_def example_cntx_def fallback_args_def)
  obtain acts where acts: "dlp_gemm_rowvar_f32_fallback_bf16bf16f32of32 ?g ?l ?og ?t = Some acts" using fallback_runs [OF ok] by blast
  have e: "even_up (dlp_min (fa_k ?g) (bs_KC (cx_blksz ?l))) = 10" by code_simp
  have h: "2 \<le> bs_KC (cx_blksz ?l)" "bs_NC (cx_blksz ?l) = 1024" "bs_NR (cx_blksz ?og) = 64" "1 < fa_m ?g" "fa_n ?g = 3072" "2 \<le> fa_k ?g" "fa_mtag_b ?g = REORDERED"
    by (simp_all add: example_cntx_def fallback_args_def)
  show ?thesis using fallback_buffer_overrun [OF ok(1) h acts] acts unfolding e by blast
qed


end
