(* ===== verification/Fp_Drivers.thy ===== *)
theory Fp_Drivers
  imports F32_Driver Fp_Half Bf16_Fallback
begin

text \<open>
  The four floating-point drivers together: what a run of any of them does on an element of C, where its operands lie, and
  what a team of threads leaves. As the addition of floats does not associate, the result is stated as a fold of the
  kernel's steps over the blocks of the depth in their order: whatever the number of threads, their grid and the order in
  which their kernel calls are executed, each element sees the same steps in the same order.
\<close>

section \<open>One view of the drivers\<close>

text \<open>The driver with its parameters; that of \<open>bfloat16\<close> also has the global context it divides the work with when it converts.\<close>

datatype fp_driver =
    F32_Gemm f32_env
  | F16_Gemm pack_strides pack_strides
  | F32F16_Gemm pack_strides
  | BF16_Gemm bf16_env dlp_gemm_cntx_t

fun fp_run :: "fp_driver \<Rightarrow> fp_args \<Rightarrow> dlp_gemm_cntx_t \<Rightarrow> dlp_gemm_thrinfo_t \<Rightarrow> fp_action list option" where
  "fp_run (F32_Gemm e) = dlp_gemm_rowvar_f32f32f32of32 e"
| "fp_run (F16_Gemm packa packb) = dlp_gemm_rowvar_f16f16f16of16 packa packb"
| "fp_run (F32F16_Gemm packb) = dlp_gemm_rowvar_f32f16f32of32 packb"
| "fp_run (BF16_Gemm e og) = dlp_gemm_rowvar_bf16bf16f32of32 e og"

text \<open>Whether a matrix-vector branch is taken, the context whose tile divides the work, the block of rows of a one-column
  run, and the effective tags.\<close>

fun fp_gemv :: "fp_driver \<Rightarrow> fp_args \<Rightarrow> dlp_gemm_cntx_t \<Rightarrow> bool" where
  "fp_gemv (F32_Gemm e) g lcntx \<longleftrightarrow> f32_gemv e g"
| "fp_gemv (BF16_Gemm e og) g lcntx \<longleftrightarrow> (if cx_kern_fun_ptr lcntx = 0 then is_vector g else bf16_gemv e g)"
| "fp_gemv _ g lcntx \<longleftrightarrow> is_vector g"

fun fp_divider :: "fp_driver \<Rightarrow> dlp_gemm_cntx_t \<Rightarrow> dlp_gemm_cntx_t" where
  "fp_divider (BF16_Gemm e og) lcntx = (if cx_kern_fun_ptr lcntx = 0 then og else lcntx)"
| "fp_divider _ lcntx = lcntx"

fun fp_row_block :: "fp_driver \<Rightarrow> dlp_gemm_cntx_t \<Rightarrow> md_t" where
  "fp_row_block (F32_Gemm e) lcntx = bs_MR (cx_blksz lcntx)"
| "fp_row_block (BF16_Gemm e og) lcntx = (if cx_kern_fun_ptr lcntx = 0 then bs_MR (cx_blksz og) else 16)"
| "fp_row_block _ lcntx = 16"

fun fp_tags :: "fp_driver \<Rightarrow> fp_args \<Rightarrow> fp_args" where
  "fp_tags (F32_Gemm e) g = f32_tags e g"
| "fp_tags _ g = g"

definition fp_depth :: "fp_driver \<Rightarrow> fp_args \<Rightarrow> dlp_gemm_cntx_t \<Rightarrow> fp_step list" where
  "fp_depth d g lcntx = (if fp_gemv d g lcntx then one_block g else all_blocks g (bs_KC (cx_blksz lcntx)))"

text \<open>When C is written at its place, when A and B can be used in place, and how the driver reads a reordered B.\<close>

fun fp_plain_c :: "fp_driver \<Rightarrow> fp_args \<Rightarrow> dlp_gemm_cntx_t \<Rightarrow> bool" where
  "fp_plain_c (F32_Gemm e) g lcntx \<longleftrightarrow> True"
| "fp_plain_c (BF16_Gemm e og) g lcntx \<longleftrightarrow> bf16_plain_c g"
| "fp_plain_c _ g lcntx \<longleftrightarrow> fa_cs_c g = 1"

fun fp_in_place :: "fp_driver \<Rightarrow> fp_args \<Rightarrow> dlp_gemm_cntx_t \<Rightarrow> bool" where
  "fp_in_place (BF16_Gemm e og) g lcntx \<longleftrightarrow> cx_kern_fun_ptr lcntx \<noteq> 0 \<and> \<not> bf16_gemv e g \<and> fa_mtag_b g \<noteq> UNPACKED"
| "fp_in_place d g lcntx \<longleftrightarrow> \<not> fp_gemv d g lcntx"

fun fp_factor :: "fp_driver \<Rightarrow> md_t" where
  "fp_factor (BF16_Gemm e og) = 2"
| "fp_factor _ = 1"

fun fp_min_NR :: "fp_driver \<Rightarrow> dlp_gemm_cntx_t \<Rightarrow> md_t" where
  "fp_min_NR (F32_Gemm e) lcntx = bs_NR (cx_blksz lcntx)"
| "fp_min_NR (F16_Gemm packa packb) lcntx = fp16_min_NR"
| "fp_min_NR (F32F16_Gemm packb) lcntx = f32f16_min_NR"
| "fp_min_NR (BF16_Gemm e og) lcntx = bf16_min_NR"

fun fp_ready :: "fp_driver \<Rightarrow> dlp_gemm_cntx_t \<Rightarrow> bool" where
  "fp_ready (BF16_Gemm e og) lcntx \<longleftrightarrow> blksz_ok (cx_blksz lcntx) \<and> blksz_ok (cx_blksz og)"
| "fp_ready _ lcntx \<longleftrightarrow> blksz_ok (cx_blksz lcntx)"

section \<open>A run of any driver\<close>

lemma located_weaken:
  assumes "fp_located pc ip kf mn b g a" "pc' \<longrightarrow> pc" "ip' \<longrightarrow> ip"
  shows "fp_located pc' ip' kf mn b g a"
  using assms by (cases a) auto

lemma runs_as_weaken:
  assumes "runs_as P Y r" "\<And>a. P a \<Longrightarrow> P' a"
  shows "runs_as P' Y r"
  using assms unfolding runs_as_def by (metis (no_types, lifting) list.pred_mono_strong)

lemma fp_run_ok:
  assumes "fp_ready d lcntx" "0 \<le> fa_m g" "0 \<le> fa_n g" "0 < fa_k g"
  shows "runs_as (fp_located (fp_plain_c d g lcntx) (fp_in_place d g lcntx) (fp_factor d) (fp_min_NR d lcntx) (cx_blksz lcntx) (fp_tags d g))
    (share_steps (fp_gemv d g lcntx) (fp_row_block d lcntx) (fp_divider d lcntx) (bs_KC (cx_blksz lcntx)) g thread) (fp_run d g lcntx thread)"
proof (cases d)
  case (F32_Gemm e)
  then show ?thesis using f32_run [of lcntx g e thread] assms by simp
next
  case (F16_Gemm packa packb)
  have "runs_as (fp_located (is_vector g \<or> fa_cs_c g = 1) (\<not> is_vector g) 1 fp16_min_NR (cx_blksz lcntx) g)
    (share_steps (is_vector g) 16 lcntx (bs_KC (cx_blksz lcntx)) g thread) (dlp_gemm_rowvar_f16f16f16of16 packa packb g lcntx thread)"
    by (rule fp16_run) (use assms F16_Gemm in auto)
  then show ?thesis unfolding F16_Gemm by (simp, rule runs_as_weaken) (auto elim: located_weaken)
next
  case (F32F16_Gemm packb)
  have "runs_as (fp_located (fa_n g = 1 \<or> fa_cs_c g = 1) (\<not> is_vector g) 1 f32f16_min_NR (cx_blksz lcntx) g)
    (share_steps (is_vector g) 16 lcntx (bs_KC (cx_blksz lcntx)) g thread) (dlp_gemm_rowvar_f32f16f32of32 packb g lcntx thread)"
    by (rule f32f16_run) (use assms F32F16_Gemm in auto)
  then show ?thesis unfolding F32F16_Gemm by (simp, rule runs_as_weaken) (auto elim: located_weaken)
next
  case (BF16_Gemm e og)
  show ?thesis
  proof (cases "cx_kern_fun_ptr lcntx = 0")
    case True
    have "runs_as (fp_located (fa_n g = 1 \<or> bf16_plain_c g \<or> is_vector g \<and> fa_cs_c g = 1) False 2 bf16_min_NR (cx_blksz lcntx) g)
      (share_steps (is_vector g) (bs_MR (cx_blksz og)) og (bs_KC (cx_blksz lcntx)) g thread) (dlp_gemm_rowvar_f32_fallback_bf16bf16f32of32 g lcntx og thread)"
      by (rule fallback_run) (use assms BF16_Gemm in auto)
    then show ?thesis unfolding BF16_Gemm
      by (simp add: True dlp_gemm_rowvar_bf16bf16f32of32_def, rule runs_as_weaken) (auto elim: located_weaken)
  next
    case False
    have "runs_as (fp_located (bf16_gemv e g \<or> bf16_plain_c g) (\<not> bf16_gemv e g \<and> fa_mtag_b g \<noteq> UNPACKED) 2 bf16_min_NR (cx_blksz lcntx) g)
      (share_steps (bf16_gemv e g) 16 lcntx (bs_KC (cx_blksz lcntx)) g thread) (dlp_gemm_rowvar_avx512bf16_bf16bf16f32of32 e g lcntx thread)"
      by (rule bf16_run) (use assms BF16_Gemm in auto)
    then show ?thesis unfolding BF16_Gemm
      by (simp add: False dlp_gemm_rowvar_bf16bf16f32of32_def, rule runs_as_weaken) (auto elim: located_weaken)
  qed
qed

section \<open>What a team leaves\<close>

text \<open>The contract of the kernels: a call updates the elements of its block, each from its own old value by the step of the
  call, and no other.\<close>

locale fp_kernel =
  fixes upd :: "fp_step \<Rightarrow> md_t \<Rightarrow> md_t \<Rightarrow> 'v \<Rightarrow> 'v" and kern :: "fp_call \<Rightarrow> (md_t \<Rightarrow> md_t \<Rightarrow> 'v) \<Rightarrow> md_t \<Rightarrow> md_t \<Rightarrow> 'v"
  assumes fp_inside: "fp_touches c i j \<Longrightarrow> kern c C i j = upd (step_of c) i j (C i j)"
    and fp_outside: "\<not> fp_touches c i j \<Longrightarrow> kern c C i j = C i j"
begin

lemma fp_run_at: "fold kern cs C i j = fold (\<lambda>st. upd st i j) (map step_of (filter (\<lambda>c. fp_touches c i j) cs)) (C i j)"
  by (induction cs arbitrary: C) (simp_all add: fp_inside fp_outside)

lemma team_fold:
  assumes team: "is_team threads" and pos: "0 < m" "0 < n" "blksz_ok (cx_blksz cx)" "0 < bf" "gemv \<Longrightarrow> m = 1 \<or> n = 1"
    and steps: "\<And>t i j. t < length threads \<Longrightarrow> fp_steps i j (trace t) = (if share gemv bf cx m n (threads ! t) i j then ys else [])"
    and sched: "interleaves sched (length threads) (fp_calls \<circ> trace)"
  shows "fold kern (map snd sched) C i j =
    (if 0 \<le> i \<and> i < m \<and> 0 \<le> j \<and> j < n then fold (\<lambda>st. upd st i j) ys (C i j) else C i j)"
proof (cases "0 \<le> i \<and> i < m \<and> 0 \<le> j \<and> j < n")
  case True
  let ?own = "\<lambda>t. share gemv bf cx m n (threads ! t) i j"
  have "\<exists>!t. t < length threads \<and> ?own t" using team_one_share [OF team pos] True by simp
  then obtain t0 where t0: "t0 < length threads" "?own t0" and uniq: "\<And>t. t < length threads \<Longrightarrow> ?own t \<Longrightarrow> t = t0"
    by (elim ex1E) blast
  have other: "filter (\<lambda>c. fp_touches c i j) ((fp_calls \<circ> trace) t) = []" if "t < length threads" "t \<noteq> t0" for t
    using steps [OF that(1), of i j] uniq [OF that(1)] that(2) by (auto simp: fp_steps_def split: if_splits)
  have "map step_of (filter (\<lambda>c. fp_touches c i j) (map snd sched)) = ys"
    using schedule_at [OF sched t0(1) other] steps [OF t0(1), of i j] t0(2) by (simp add: fp_steps_def)
  then show ?thesis using True fp_run_at [of "map snd sched" C i j] by simp
next
  case False
  have "0 \<le> i \<and> i < m \<and> 0 \<le> j \<and> j < n" if "share gemv bf cx m n (threads ! t) i j" for t
    by (rule share_inside [OF that]) (use pos in auto)
  then have "fp_steps i j (trace t) = []" if "t < length threads" for t
    using False steps [OF that, of i j] by auto
  then have "filter (\<lambda>c. fp_touches c i j) (map snd sched) = []"
    by (intro schedule_none [OF sched]) (simp add: fp_steps_def)
  then have "fold kern (map snd sched) C i j = C i j" using fp_run_at [of "map snd sched" C i j] by simp
  then show ?thesis using False by (simp only: if_False)
qed

end

definition fp_update :: "(fp_step \<Rightarrow> md_t \<Rightarrow> md_t \<Rightarrow> 'v \<Rightarrow> 'v) \<Rightarrow> fp_call \<Rightarrow> (md_t \<Rightarrow> md_t \<Rightarrow> 'v) \<Rightarrow> md_t \<Rightarrow> md_t \<Rightarrow> 'v" where
  "fp_update upd c C i j = (if fp_touches c i j then upd (step_of c) i j (C i j) else C i j)"

interpretation ref_fp: fp_kernel upd "fp_update upd"
  by unfold_locales (simp_all add: fp_update_def)

text \<open>The division never depends on the operands, so the share of a thread does not either.\<close>

lemma fp_division:
  assumes "fp_ready d lcntx" "0 < fa_m g" "0 < fa_n g"
  shows "blksz_ok (cx_blksz (fp_divider d lcntx))" "0 < fp_row_block d lcntx" "fp_gemv d g lcntx \<Longrightarrow> fa_m g = 1 \<or> fa_n g = 1"
proof -
  show "blksz_ok (cx_blksz (fp_divider d lcntx))" using assms(1) by (cases d) auto
  show "0 < fp_row_block d lcntx" using assms(1) by (cases d) auto
  show "fp_gemv d g lcntx \<Longrightarrow> fa_m g = 1 \<or> fa_n g = 1"
    by (cases d) (auto simp: f32_gemv_def bf16_gemv_def is_vector_def split: if_splits)
qed

section \<open>The properties\<close>



section \<open>Witnesses\<close>

definition example_fp_args :: "md_t \<Rightarrow> md_t \<Rightarrow> md_t \<Rightarrow> AOCL_DLP_MEMORY_TAG \<Rightarrow> fp_args" where
  "example_fp_args m n k mtag_b = \<lparr>fa_m = m, fa_n = n, fa_k = k, fa_rs_a = k, fa_cs_a = 1, fa_mtag_a = UNPACKED, fa_rs_b = n, fa_cs_b = 1,
     fa_mtag_b = mtag_b, fa_rs_c = n, fa_cs_c = 1, fa_c_downscale = DLP_F32\<rparr>"

definition plain_strides :: pack_strides where "plain_strides rs cs width dep = (rs, cs)"

definition example_threads :: "dlp_gemm_thrinfo_t list" where
  "example_threads = map (\<lambda>t. thread_setup 4 2 2 (int t) UNPACKED DEFAULT) [0..<4]"

lemma example_threads_team: "is_team example_threads" "length example_threads = 4"
  unfolding is_team_def example_threads_def
  by (intro exI [of _ 4] exI [of _ 2] exI [of _ UNPACKED] exI [of _ DEFAULT]) simp_all

text \<open>The contract of the loops on the nests of the drivers, with the block sizes of the tables: rows 0 to 11 and columns 64 to 99
  of a product, the tile of the third of four threads.\<close>

lemma example_tile:
  "driver_tile (example_threads ! 2) (fa_m (example_fp_args 20 100 9 mtag_b)) (fa_n (example_fp_args 20 100 9 mtag_b)) (example_cntx MC NC KC 6 64) = ((64, 100), (0, 12))"
proof -
  have "dlp_gemm_gen_dlp_task_ids (Some (example_threads ! 2)) = (\<lparr>ocomm_id = 2, n_way = 2, work_id = 1\<rparr>, \<lparr>ocomm_id = 0, n_way = 2, work_id = 0\<rparr>)"
    "dlp_thread_task_range \<lparr>ocomm_id = 2, n_way = 2, work_id = 1\<rparr> 100 64 False = (64, 100)"
    "dlp_thread_task_range \<lparr>ocomm_id = 0, n_way = 2, work_id = 0\<rparr> 20 6 False = (0, 12)" by code_simp+
  then show ?thesis by (simp add: driver_tile_def example_fp_args_def example_cntx_def)
qed

interpretation f32_zen4: nest_operands "f32_nest e (example_fp_args 20 100 9 mtag_b) (example_cntx 192 8064 1024 6 64) tj ti" "example_fp_args 20 100 9 mtag_b"
  "example_cntx 192 8064 1024 6 64" "bs_NR (cx_blksz (example_cntx 192 8064 1024 6 64))" 0 12 64 100
  "fp_located True True 1 (bs_NR (cx_blksz (example_cntx 192 8064 1024 6 64))) (cx_blksz (example_cntx 192 8064 1024 6 64)) (example_fp_args 20 100 9 mtag_b)"
  by (rule f32_operands [OF _ _ _ _ example_tile]) (simp_all add: example_fp_args_def example_cntx_def blksz_ok_def)

interpretation bf16_zen4: nest_operands "bf16_nest e (example_fp_args 20 100 9 mtag_b) (example_cntx 144 1024 4096 6 64) tj ti" "example_fp_args 20 100 9 mtag_b"
  "example_cntx 144 1024 4096 6 64" "bs_NR (cx_blksz (example_cntx 144 1024 4096 6 64))" 0 12 64 100
  "fp_located (bf16_plain_c (example_fp_args 20 100 9 mtag_b)) (fa_mtag_b (example_fp_args 20 100 9 mtag_b) \<noteq> UNPACKED) 2
     (ne_min_NR (bf16_nest e (example_fp_args 20 100 9 mtag_b) (example_cntx 144 1024 4096 6 64) tj ti)) (cx_blksz (example_cntx 144 1024 4096 6 64)) (example_fp_args 20 100 9 mtag_b)"
  by (rule bf16_operands [OF _ _ _ _ example_tile]) (simp_all add: example_fp_args_def example_cntx_def blksz_ok_def)

interpretation bf16_zen: nest_operands "fallback_nest (example_fp_args 20 100 9 mtag_b) (example_cntx 144 1024 512 6 16) (example_cntx 144 1024 4096 6 64) tj ti"
  "example_fp_args 20 100 9 mtag_b" "example_cntx 144 1024 512 6 16" bf 0 12 64 100 "widen_inside (fallback_buffer (example_fp_args 20 100 9 mtag_b) (example_cntx 144 1024 512 6 16) 64 100)"
  by (rule fallback_buffer_operands) (simp_all add: example_fp_args_def example_cntx_def blksz_ok_def)

lemma steps_call:
  assumes "st \<in> set (fp_steps i j acts)"
  shows "\<exists>c. Compute c \<in> set acts \<and> fp_touches c i j \<and> step_of c = st"
proof -
  have "set (fp_calls acts) = {c. Compute c \<in> set acts}"
  proof (induction acts)
    case (Cons a acts)
    then show ?case by (cases a) auto
  qed simp
  moreover obtain c where "c \<in> set (fp_calls acts)" "fp_touches c i j" "step_of c = st"
    using assms by (auto simp: fp_steps_def)
  ultimately show ?thesis by blast
qed



end
