(* ===== verification/F32_Tiny.thy ===== *)
theory F32_Tiny
  imports F32_Driver
begin

text \<open>
  The driver of small \<open>float\<close> GEMMs, \<^verbatim>\<open>frame/f32f32f32/dlp_gemm_f32f32f32_tiny.c\<close>: one thread, one kernel call on the whole
  product. \<open>tiny_run\<close> says that the call takes every element of C through the single step of the depth, on operands that lie
  where the strides and the layout put them.
\<close>

section \<open>The driver\<close>

text \<open>The one kernel call; \<open>panel\<close> is the width and the offset of the panel of B the kernel is told.\<close>

definition tiny_call :: "fp_args \<Rightarrow> fp_pointer \<times> md_t \<times> md_t \<times> md_t \<Rightarrow> fp_pointer \<times> md_t \<times> md_t \<Rightarrow> md_t \<times> md_t \<Rightarrow> fp_call" where
  "tiny_call g a_use b_use panel =
     \<lparr>fc_mc0 = fa_m g, fc_nr0 = fa_n g, fc_kc0 = fa_k g, fc_pc = 0, fc_a = fst a_use, fc_a_strides = snd a_use,
      fc_b = fst b_use, fc_b_strides = snd b_use, fc_b_panel = panel, fc_c = Matrix 0, fc_c_strides = (fa_rs_c g, fa_cs_c g),
      fc_beta0 = Beta, fc_attr = \<lparr>post_op_c_i = 0, post_op_c_j = 0, is_first_k = True, is_last_k = True\<rparr>\<rparr>"

text \<open>The operands of the matrix-vector runs: what is done first, the operand, and what is done last. The row A is copied by a
  loop, the rows of the column product by the packing kernel.\<close>

definition tiny_column_a :: "f32_env \<Rightarrow> fp_args \<Rightarrow> fp_action list \<times> (fp_pointer \<times> md_t \<times> md_t \<times> md_t) \<times> fp_action list" where
  "tiny_column_a e g =
     (let m = fa_m g; k = fa_k g
      in if fa_cs_a g \<noteq> 1
         then (let (rs_a_use, cs_a_use) = f32_packa e (fa_rs_a g) (fa_cs_a g) m k
               in ([Get_a (4 * m * k), Fill_a 0 m k], (Buffer 0, rs_a_use, cs_a_use, 1), [Drop_a]))
         else ([], (Matrix 0, fa_rs_a g, fa_cs_a g, 1), []))"

definition tiny_n1 :: "f32_env \<Rightarrow> fp_args \<Rightarrow> fp_action list" where
  "tiny_n1 e g =
     (let (pre_b, b_use, post_b) = column_b 4 g;
          (pre_a, a_use, post_a) = tiny_column_a e g
      in (pre_b @ pre_a) @ [Compute (tiny_call g a_use b_use (0, 0))] @ (post_a @ post_b))"

definition tiny_row_a :: "fp_args \<Rightarrow> fp_action list \<times> (fp_pointer \<times> md_t \<times> md_t \<times> md_t) \<times> fp_action list" where
  "tiny_row_a g =
     (let k = fa_k g
      in if fa_cs_a g \<noteq> 1 then ([Get_a (4 * k), Fill_a 0 1 k], (Buffer 0, 1, 1, 1), [Drop_a])
         else ([], (Matrix 0, fa_rs_a g, fa_cs_a g, 1), []))"

definition tiny_row_b :: "fp_args \<Rightarrow> dlp_gemm_cntx_t \<Rightarrow> fp_action list \<times> (fp_pointer \<times> md_t \<times> md_t) \<times> md_t \<times> fp_action list" where
  "tiny_row_b g lcntx =
     (let n = fa_n g; k = fa_k g;
          NR = bs_NR (cx_blksz lcntx)
      in if fa_mtag_b g = REORDERED then ([], (Matrix 0, NR, 1), 0, [])
         else if fa_mtag_b g = PACK then
           let nc0_updated = dlp_make_multiple_of_n n NR
           in ([Get_b (4 * nc0_updated * k), Fill_b 0 0 n k], (Buffer 0, NR, 1), nc0_updated, [Drop_b])
         else ([], (Matrix 0, fa_rs_b g, fa_cs_b g), 0, []))"

definition tiny_m1 :: "fp_args \<Rightarrow> dlp_gemm_cntx_t \<Rightarrow> fp_action list" where
  "tiny_m1 g lcntx =
     (let (pre_a, a_use, post_a) = tiny_row_a g;
          (pre_b, b_use, n_sub_updated, post_b) = tiny_row_b g lcntx
      in (pre_a @ pre_b) @ [Compute (tiny_call g a_use b_use (n_sub_updated, 0))] @ (post_b @ post_a))"

text \<open>RD kernels read B in place. A plain B is packed only when it is stored by columns.\<close>

definition tiny_tags :: "f32_env \<Rightarrow> fp_args \<Rightarrow> fp_args" where
  "tiny_tags e g =
     (let invokeRD = (if kernel_base e then kernel_rd e else False)
      in if invokeRD then g\<lparr>fa_mtag_b := UNPACKED\<rparr> else g)"

definition tiny_matrix_b :: "fp_args \<Rightarrow> dlp_gemm_cntx_t \<Rightarrow> fp_action list \<times> (fp_pointer \<times> md_t \<times> md_t) \<times> md_t \<times> fp_action list" where
  "tiny_matrix_b g lcntx =
     (let n = fa_n g; k = fa_k g;
          NR = bs_NR (cx_blksz lcntx)
      in if fa_mtag_b g = REORDERED then ([], (Matrix 0, NR, 1), k, [])
         else if fa_mtag_b g = PACK \<and> fa_rs_b g = 1 then
           let nc0_updated = dlp_make_multiple_of_n n NR
           in ([Get_b (4 * nc0_updated * k), Fill_b 0 0 n k], (Buffer 0, NR, 1), k, [Drop_b])
         else ([], (Matrix 0, fa_rs_b g, fa_cs_b g), fa_cs_b g, []))"

definition tiny_matrix :: "f32_env \<Rightarrow> fp_args \<Rightarrow> dlp_gemm_cntx_t \<Rightarrow> fp_action list" where
  "tiny_matrix e g lcntx =
     (let k = fa_k g;
          MR = bs_MR (cx_blksz lcntx);
          g = tiny_tags e g
      in if k = 1 \<and> fa_cs_b g = 1 \<and> kernel_base e
         then [Compute (tiny_call g (Matrix 0, fa_rs_a g, fa_cs_a g, MR * fa_rs_a g) (Matrix 0, fa_rs_b g, fa_cs_b g) (0, 0))]
         else
           let (pre_b, b_use, ps_b_use, post_b) = tiny_matrix_b g lcntx;
               a_use = (if fa_mtag_a g = REORDERED then (Matrix 0, 1, MR, MR * k)
                        else (Matrix 0, fa_rs_a g, fa_cs_a g, MR * fa_rs_a g))
           in pre_b @ [Compute (tiny_call g a_use b_use (ps_b_use, 0))] @ post_b)"

definition dlp_gemm_rowvar_tiny_f32f32f32of32 :: "f32_env \<Rightarrow> fp_args \<Rightarrow> dlp_gemm_cntx_t \<Rightarrow> fp_action list" where
  "dlp_gemm_rowvar_tiny_f32f32f32of32 e g lcntx =
     (if f32_gemv e g then (if fa_n g = 1 then tiny_n1 e g else tiny_m1 g lcntx) else tiny_matrix e g lcntx)"

lemma tiny_operands_quiet:
  "tiny_column_a e g = (pre, a, post) \<Longrightarrow> list_all no_compute pre \<and> list_all no_compute post"
  "tiny_row_a g = (pre, a, post) \<Longrightarrow> list_all no_compute pre \<and> list_all no_compute post"
  "tiny_row_b g lcntx = (pre, b, p, post) \<Longrightarrow> list_all no_compute pre \<and> list_all no_compute post"
  "tiny_matrix_b g lcntx = (pre, b, p, post) \<Longrightarrow>
     list_all no_compute pre \<and> list_all no_compute post \<and> (fa_mtag_b g \<noteq> PACK \<longrightarrow> fst b = Matrix 0)"
  by (auto simp: tiny_column_a_def tiny_row_a_def tiny_row_b_def tiny_matrix_b_def Let_def split: if_splits prod.splits)

section \<open>The run\<close>

text \<open>A run that makes one call.\<close>

lemma one_call_run:
  assumes "list_all no_compute pre" "list_all no_compute post" "P (Compute c)" "\<And>a. no_compute a \<Longrightarrow> P a"
    and "\<And>i j. (if fp_touches c i j then [step_of c] else []) = Y i j"
  shows "runs_as P Y (Some (pre @ [Compute c] @ post))"
proof -
  have "list_all P pre" "list_all P post" using assms(1,2,4) by (auto simp: list_all_iff)
  then show ?thesis using assms(3,5) fp_steps_quiet [OF assms(1)] fp_steps_quiet [OF assms(2)]
    by (simp add: runs_as_def fp_steps_Compute)
qed

definition whole_steps :: "fp_args \<Rightarrow> md_t \<Rightarrow> md_t \<Rightarrow> fp_step list" where
  "whole_steps g i j = (if 0 \<le> i \<and> i < fa_m g \<and> 0 \<le> j \<and> j < fa_n g then one_block g else [])"

lemma tiny_call_steps: "(if fp_touches (tiny_call g a b p) i j then [step_of (tiny_call g a b p)] else []) = whole_steps g i j"
  by (simp add: tiny_call_def fp_touches_def step_of_def whole_steps_def one_block_def)

lemma located_no_compute: "no_compute a \<Longrightarrow> fp_located pc ip kf mn b g a"
  by (cases a) simp_all

text \<open>The reordered B of a product that fits one cache block begins with its first panel.\<close>

context reorder_blocks
begin

lemma first_placed:
  assumes "bs_NR b = NR" "bs_NC b = NC" "bs_KC b = KC" "fa_n g = n" "fa_k g = k" "0 < n" "n \<le> NC" "0 < k" "k \<le> KC"
  shows "placed_B kf min_NR b g 0 k 0 n (Matrix 0)"
proof -
  have "is_piece NR NC n 0 n" using assms(6,7) by (auto simp: is_piece_def dlp_min_def)
  moreover have "k = dlp_min (k - 0) KC" using assms(9) by (simp add: dlp_min_def)
  ultimately show ?thesis using piece_placed [of 0 n 0 k g b] assms by (simp add: piece_off_def)
qed

end

lemma tiny_located:
  assumes "0 < fa_m g" "0 < fa_n g" "0 < fa_k g"
    and "in_place \<Longrightarrow> fa_n g \<le> bs_NC b \<and> fa_k g \<le> bs_KC b \<and> fst a_use = Matrix 0 \<and> (fa_mtag_b g \<noteq> PACK \<longrightarrow> fst b_use = Matrix 0)"
  shows "fp_located True in_place 1 mn b g (Compute (tiny_call g a_use b_use panel))"
  using assms reorder_blocks.first_placed [of "bs_NR b" mn "bs_NC b" "bs_KC b" 1 "fa_n g" "fa_k g" b g] by (auto simp: block_inside_def tiny_call_def)

lemma tiny_run:
  assumes "0 < fa_m g" "0 < fa_n g" "0 < fa_k g"
  shows "runs_as (fp_located True (\<not> f32_gemv e g \<and> fa_n g \<le> bs_NC b \<and> fa_k g \<le> bs_KC b) 1 mn b (tiny_tags e g))
    (whole_steps g) (Some (dlp_gemm_rowvar_tiny_f32f32f32of32 e g lcntx))"
proof -
  let ?P = "fp_located True (\<not> f32_gemv e g \<and> fa_n g \<le> bs_NC b \<and> fa_k g \<le> bs_KC b) 1 mn b (tiny_tags e g)"
  have f: "fa_m (tiny_tags e g) = fa_m g" "fa_n (tiny_tags e g) = fa_n g" "fa_k (tiny_tags e g) = fa_k g"
    by (simp_all add: tiny_tags_def Let_def)
  have same: "tiny_call (tiny_tags e g) a_use b_use panel = tiny_call g a_use b_use panel" for a_use b_use panel
    by (simp add: tiny_tags_def tiny_call_def Let_def)
  have call: "runs_as ?P (whole_steps g) (Some (pre @ [Compute (tiny_call g a_use b_use panel)] @ post))"
    if "list_all no_compute pre" "list_all no_compute post"
      "\<not> f32_gemv e g \<Longrightarrow> fst a_use = Matrix 0 \<and> (fa_mtag_b (tiny_tags e g) \<noteq> PACK \<longrightarrow> fst b_use = Matrix 0)"
    for pre post a_use b_use panel
  proof (rule one_call_run [OF that(1,2) _ located_no_compute tiny_call_steps])
    show "?P (Compute (tiny_call g a_use b_use panel))"
      by (subst same [symmetric], rule tiny_located) (use assms f that(3) in auto)
  qed
  consider (column) "f32_gemv e g" "fa_n g = 1" | (row) "f32_gemv e g" "fa_n g \<noteq> 1" | (matrix) "\<not> f32_gemv e g" by blast
  then show ?thesis
  proof cases
    case column
    obtain pre b_use post where cb: "column_b 4 g = (pre, b_use, post)" by (metis prod_cases3)
    obtain pre_a a_use post_a where ca: "tiny_column_a e g = (pre_a, a_use, post_a)" by (metis prod_cases3)
    show ?thesis using call [of "pre @ pre_a" "post_a @ post" a_use b_use "(0, 0)"] column_b_quiet [OF cb] tiny_operands_quiet(1) [OF ca] column
      by (simp add: dlp_gemm_rowvar_tiny_f32f32f32of32_def tiny_n1_def cb ca)
  next
    case row
    obtain pre_a a_use post_a where ca: "tiny_row_a g = (pre_a, a_use, post_a)" by (metis prod_cases3)
    obtain pre b_use p post where cb: "tiny_row_b g lcntx = (pre, b_use, p, post)" by (metis prod_cases4)
    show ?thesis using call [of "pre_a @ pre" "post @ post_a" a_use b_use "(p, 0)"] tiny_operands_quiet(2) [OF ca] tiny_operands_quiet(3) [OF cb] row
      by (simp add: dlp_gemm_rowvar_tiny_f32f32f32of32_def tiny_m1_def cb ca)
  next
    case matrix
    let ?g = "tiny_tags e g"
    obtain pre b_use p post where cb: "tiny_matrix_b ?g lcntx = (pre, b_use, p, post)" by (metis prod_cases4)
    note q = tiny_operands_quiet(4) [OF cb]
    define a where "a = (if fa_mtag_a ?g = REORDERED then (Matrix 0, 1, bs_MR (cx_blksz lcntx), bs_MR (cx_blksz lcntx) * fa_k g)
      else (Matrix 0, fa_rs_a ?g, fa_cs_a ?g, bs_MR (cx_blksz lcntx) * fa_rs_a ?g))"
    have "fst a = Matrix 0" by (simp add: a_def)
    then show ?thesis using call [of pre post a b_use "(p, 0)"] q matrix
        call [of "[]" "[]" "(Matrix 0, fa_rs_a ?g, fa_cs_a ?g, bs_MR (cx_blksz lcntx) * fa_rs_a ?g)" "(Matrix 0, fa_rs_b ?g, fa_cs_b ?g)" "(0, 0)"]
      by (auto simp: dlp_gemm_rowvar_tiny_f32f32f32of32_def tiny_matrix_def Let_def same cb a_def [symmetric])
  qed
qed

end
