(* ===== verification/F32_Api.thy ===== *)
theory F32_Api
  imports Fp_Drivers F32_Tiny Gemm_Api
begin

text \<open>
  The entry point of the \<open>float\<close> GEMM, \<^verbatim>\<open>classic/aocl_gemm_f32f32f32of32.c\<close>: from the arguments of a call to an error code or to
  what each of its threads does.

  Before anything runs the entry point decides which product to compute: the caller's or the transposed one, with the
  strides exchanged accordingly, so that fewer matrices have to be packed. \<open>f32_denotes\<close> says that the operands it settles
  on denote the caller's product. A product of one row or one column, a small one on a single thread and any other go to
  different drivers.

  As for the 8-bit entry points a result \<open>Inl e\<close> stores the error \<open>e\<close>, \<open>None\<close> is an access outside an array or a
  failed allocation of the communicators, and logging is left out. \<open>gc_alpha\<close> and \<open>gc_beta\<close> hold the bits of the two floats.
\<close>

section \<open>The call and its surroundings\<close>

text \<open>In addition to \<open>api_env\<close>: which tile the \<open>float\<close> engine picks for the operands and whether it asks for an RD kernel, whether
  it works for AVX2, and the packing kernels.\<close>

record f32_api_env = api_env +
  af_shape :: "gemm_call \<Rightarrow> char \<Rightarrow> fp_args \<Rightarrow> dlp_gemm_post_op list \<Rightarrow> dlp_gemm_cntx_t \<Rightarrow> tile_choice \<times> bool"
  af_engine_avx2 :: bool
  af_kernels_zen4 :: bool
  af_packa_mr8 :: pack_strides
  af_packa_mr16 :: pack_strides
  af_packa :: pack_strides
  af_packb :: pack_strides

text \<open>The operands as handed on, \<open>a_use\<close>, \<open>b_use\<close> with sizes, strides and tags, and the storage order told to the engine.\<close>

record f32_operands =
  fo_args :: fp_args
  fo_a :: ptr
  fo_b :: ptr
  fo_order :: char

record f32_launch =
  fl_operands :: f32_operands
  fl_cntx :: dlp_gemm_cntx_t
  fl_env :: f32_env
  fl_tiny :: bool
  fl_calls :: "rowvar_call list"
  fl_runs :: "fp_action list option list"

type_synonym f32_result = "(rt_state \<times> (dlp_clsc_err_t + f32_launch)) option"

section \<open>Choosing the product\<close>

text \<open>The transposed product: A and B exchanged with their tags, and every matrix transposed. In column order the matrices as the
  entry point reads them are transposed already, so exchanging them is enough.\<close>

definition transpose_product :: "f32_operands \<Rightarrow> f32_operands" where
  "transpose_product x =
     (let g = fo_args x
      in x\<lparr>fo_args := g\<lparr>fa_m := fa_n g, fa_n := fa_m g, fa_rs_a := fa_cs_b g, fa_cs_a := fa_rs_b g, fa_mtag_a := fa_mtag_b g,
             fa_rs_b := fa_cs_a g, fa_cs_b := fa_rs_a g, fa_mtag_b := fa_mtag_a g, fa_rs_c := fa_cs_c g, fa_cs_c := fa_rs_c g\<rparr>,
           fo_a := fo_b x, fo_b := fo_a x\<rparr>)"

definition exchange_operands :: "f32_operands \<Rightarrow> f32_operands" where
  "exchange_operands x =
     (let g = fo_args x
      in x\<lparr>fo_args := g\<lparr>fa_m := fa_n g, fa_n := fa_m g, fa_rs_a := fa_rs_b g, fa_cs_a := fa_cs_b g, fa_mtag_a := fa_mtag_b g,
             fa_rs_b := fa_rs_a g, fa_cs_b := fa_cs_a g, fa_mtag_b := fa_mtag_a g\<rparr>,
           fo_a := fo_b x, fo_b := fo_a x\<rparr>)"

definition transpose_strides :: "f32_operands \<Rightarrow> f32_operands" where
  "transpose_strides x =
     (let g = fo_args x
      in x\<lparr>fo_args := g\<lparr>fa_rs_a := fa_cs_a g, fa_cs_a := fa_rs_a g, fa_rs_b := fa_cs_b g, fa_cs_b := fa_rs_b g,
             fa_rs_c := fa_cs_c g, fa_cs_c := fa_rs_c g\<rparr>\<rparr>)"

text \<open>\<open>mtag_a = PACK\<close> and \<open>mtag_b = PACK\<close> under a condition.\<close>

definition pack_tags :: "bool \<Rightarrow> bool \<Rightarrow> f32_operands \<Rightarrow> f32_operands" where
  "pack_tags pa pb x =
     (let g = fo_args x
      in x\<lparr>fo_args := g\<lparr>fa_mtag_a := (if pa then PACK else fa_mtag_a g), fa_mtag_b := (if pb then PACK else fa_mtag_b g)\<rparr>\<rparr>)"

definition f32_matrix_operands :: "bool \<Rightarrow> bool \<Rightarrow> bool \<Rightarrow> bool \<Rightarrow> f32_operands \<Rightarrow> f32_operands" where
  "f32_matrix_operands is_row_major can_store_transposed ta tb x =
     (let mtag_a = fa_mtag_a (fo_args x); mtag_b = fa_mtag_b (fo_args x)
      in if is_row_major then
           if mtag_b \<noteq> REORDERED then
             if can_store_transposed \<and> tb \<and> ta then (transpose_product x)\<lparr>fo_order := CHR ''c''\<rparr>
             else pack_tags ta tb x
           else if ta then pack_tags True False x else x
         else
           if can_store_transposed \<and> ta \<and> tb then (transpose_strides x)\<lparr>fo_order := CHR ''r''\<rparr>
           else exchange_operands (pack_tags (ta \<and> mtag_a = UNPACKED) tb x))"

text \<open>Without post operations a product of one row or column is transposed when that saves packing the matrix.\<close>

definition f32_vector_operands :: "bool \<Rightarrow> bool \<Rightarrow> bool \<Rightarrow> bool \<Rightarrow> f32_operands \<Rightarrow> f32_operands" where
  "f32_vector_operands is_row_major no_post_ops ta tb x =
     (let mtag_a = fa_mtag_a (fo_args x); mtag_b = fa_mtag_b (fo_args x);
          (x, ta_tmp, tb_tmp) =
            (if is_row_major then (pack_tags ta (mtag_b \<noteq> REORDERED \<and> tb) x, ta, tb)
             else (exchange_operands (pack_tags (ta \<and> mtag_a = UNPACKED) tb x), tb, ta));
          g = fo_args x
      in if no_post_ops then
           if fa_m g = 1 \<and> tb_tmp \<and> fa_mtag_b g \<noteq> REORDERED then
             (transpose_product x)\<lparr>fo_args := (fo_args (transpose_product x))\<lparr>fa_mtag_a := UNPACKED, fa_mtag_b := fa_mtag_a g\<rparr>\<rparr>
           else if fa_n g = 1 \<and> ta_tmp \<and> fa_rs_c g = 1 then
             (transpose_product x)\<lparr>fo_args := (fo_args (transpose_product x))\<lparr>fa_mtag_a := fa_mtag_b g, fa_mtag_b := UNPACKED\<rparr>\<rparr>
           else x
         else x)"

section \<open>The engine and the context\<close>

text \<open>The depth block the engine answers with: for one row on AVX2 a constant, for a product of depth one that depth, else that
  of the context.\<close>

definition f32_engine :: "bool \<Rightarrow> fp_args \<Rightarrow> (dlp_gemm_cntx_t \<Rightarrow> tile_choice) \<Rightarrow> gemm_engine" where
  "f32_engine avx2 g shape c =
     \<lparr>ki_mr = tc_mr (shape c), ki_nr = tc_nr (shape c),
      ki_kc = (if fa_n g = 1 then bs_KC (cx_blksz c)
               else if fa_m g = 1 then (if avx2 then 512 else bs_KC (cx_blksz c))
               else if fa_k g = 1 then 1 else bs_KC (cx_blksz c)),
      ki_thread_info = tc_thread_info (shape c), ki_kernel = tc_kernel (shape c)\<rparr>"

definition f32_context ::
  "f32_api_env \<Rightarrow> gemm_call \<Rightarrow> f32_operands \<Rightarrow> dlp_gemm_post_op list \<Rightarrow> dlp_gemm_cntx_t \<Rightarrow> dlp_clsc_err_t + (dlp_gemm_cntx_t \<times> bool)" where
  "f32_context env call x nodes lcntx_l =
     (let g = fo_args x;
          lcntx_l = lcntx_l\<lparr>cx_dlp_kernel_hndl := (cx_dlp_kernel_hndl lcntx_l)\<lparr>kh_kernel_base := 0\<rparr>\<rparr>;
          answer = af_shape env call (fo_order x) g nodes;
          invokeRD = snd (answer lcntx_l);
          lcntx_l = dlp_init_and_get_kernel_hndl DLP_KERNEL_F32F32F32OF32 (f32_engine (af_engine_avx2 env) g (\<lambda>c. fst (answer c))) lcntx_l
      in if kh_kernel_base (cx_dlp_kernel_hndl lcntx_l) = 0 then Inl DLP_CLSC_INVALID_JIT_KERNEL
         else
           let (hndl, lcntx_l) = dlp_init_and_get_packb_kernel_hndl DLP_KERNEL_F32F32F32OF32
                 (ae_packb env DLP_KERNEL_F32F32F32OF32 (fa_n g) (fa_k g) (fa_rs_b g) (fa_cs_b g)) ((ae_hndl env)\<lparr>ph_kernel_base := 0\<rparr>) lcntx_l
           in if bs_NR (cx_blksz lcntx_l) > 1 \<and> ph_kernel_base hndl = 0 then Inl DLP_CLSC_INVALID_JIT_KERNEL
              else
                let lcntx_l = dlp_upd_pack_strides DLP_KERNEL_F32F32F32OF32 lcntx_l;
                    err = dlp_gemm_validate_metadata_with_lcntx (map_option cm_tuning (gc_metadata call)) (Some lcntx_l)
                in if err \<noteq> DLP_CLSC_SUCCESS then Inl err else Inr (lcntx_l, invokeRD))"

section \<open>The entry point\<close>

definition is_tiny_input_f32 :: "md_t \<Rightarrow> md_t \<Rightarrow> md_t \<Rightarrow> dlp_gemm_cntx_t \<Rightarrow> bool" where
  "is_tiny_input_f32 m n k lcntx =
     (if k = 1 then True
      else
        let NC = bs_NC (cx_blksz lcntx); MC = bs_MC (cx_blksz lcntx); KC = bs_KC (cx_blksz lcntx);
            MR = bs_MR (cx_blksz lcntx); NR = bs_NR (cx_blksz lcntx);
            mnk = m * n * k; mk = m * k;
            mnk_magic_num = 12 * 64 * 496; mk_thresh = 12000; m_thresh = 5 * MR; n_thresh = 2 * NR; k_thresh = 480
        in k < KC \<and> m \<le> MC \<and> n < NC \<and>
           (m \<le> m_thresh \<and> n \<le> n_thresh \<and> k \<le> k_thresh \<or> mnk < mnk_magic_num \<and> m \<noteq> 1 \<and> mk < mk_thresh))"

definition with_tags :: "fp_args \<Rightarrow> rowvar_call \<Rightarrow> fp_args" where
  "with_tags g call = g\<lparr>fa_mtag_a := rc_mtag_a call, fa_mtag_b := rc_mtag_b call\<rparr>"

definition driver_env :: "f32_api_env \<Rightarrow> bool \<Rightarrow> dlp_gemm_cntx_t \<Rightarrow> f32_env" where
  "driver_env env invokeRD lcntx =
     \<lparr>f32_kernels_zen4 = af_kernels_zen4 env, avx512 = avx512_supported (ae_cpu env), avx2fma3 = avx2fma3_supported (ae_cpu env),
      arch_zen3 = arch_is_zen3 (ae_cpu env), kernel_base = (kh_kernel_base (cx_dlp_kernel_hndl lcntx) \<noteq> 0), kernel_rd = invokeRD,
      packa_mr8 = af_packa_mr8 env, packa_mr16 = af_packa_mr16 env, packa_fun = af_packa env, packb_fun = af_packb env\<rparr>"

definition f32_launch_of :: "f32_api_env \<Rightarrow> f32_operands \<Rightarrow> dlp_gemm_cntx_t \<Rightarrow> bool \<Rightarrow> dlp_rntm_t \<Rightarrow> dlp_gemm_post_op list \<Rightarrow> f32_launch option" where
  "f32_launch_of env x lcntx_l invokeRD rntm_g nodes =
     (let g = fo_args x;
          e = driver_env env invokeRD lcntx_l
      in if dlp_is_single_thread rntm_g \<and> is_tiny_input_f32 (fa_m g) (fa_n g) (fa_k g) lcntx_l
         then Some \<lparr>fl_operands = x, fl_cntx = lcntx_l, fl_env = e, fl_tiny = True, fl_calls = [],
                    fl_runs = [Some (dlp_gemm_rowvar_tiny_f32f32f32of32 e g lcntx_l)]\<rparr>
         else map_option (\<lambda>(comms, calls).
                \<lparr>fl_operands = x, fl_cntx = lcntx_l, fl_env = e, fl_tiny = False, fl_calls = calls,
                 fl_runs = map (\<lambda>call. dlp_gemm_rowvar_f32f32f32of32 e (with_tags g call) lcntx_l (rc_thread call)) calls\<rparr>)
              (if ae_openmp env \<and> \<not> dlp_is_single_thread rntm_g
               then openmp_thread_decorator F32 None (ae_decor env) (ae_comms env) (fa_m g) (fa_n g) (fa_k g) (fa_mtag_a g) (fa_mtag_b g)
                      rntm_g lcntx_l (Some nodes)
               else thread_decorator F32 None (ae_decor env) (ae_comms env 0) (fa_m g) (fa_n g) (fa_k g) (fa_mtag_a g) (fa_mtag_b g)
                      rntm_g lcntx_l (Some nodes)))"

text \<open>The operands as the entry point reads them: by rows, with the strides of a column order transposed.\<close>

definition read_operands :: "gemm_call \<Rightarrow> f32_operands" where
  "read_operands call =
     (let dlp_transa = dlp_param_map_netlib_to_dlp_trans (gc_transa call);
          dlp_transb = dlp_param_map_netlib_to_dlp_trans (gc_transb call);
          (rs_a, cs_a) = (if dlp_is_trans dlp_transa then (1, gc_lda call) else (gc_lda call, 1));
          (rs_b, cs_b) = (if dlp_is_trans dlp_transb then (1, gc_ldb call) else (gc_ldb call, 1))
      in \<lparr>fo_args = \<lparr>fa_m = gc_m call, fa_n = gc_n call, fa_k = gc_k call, fa_rs_a = rs_a, fa_cs_a = cs_a,
              fa_mtag_a = dlp_param_map_char_to_lpmtag (gc_mem_format_a call), fa_rs_b = rs_b, fa_cs_b = cs_b,
              fa_mtag_b = dlp_param_map_char_to_lpmtag (gc_mem_format_b call), fa_rs_c = gc_ldc call, fa_cs_c = 1, fa_c_downscale = DLP_F32\<rparr>,
          fo_a = gc_a call, fo_b = gc_b call, fo_order = gc_order call\<rparr>)"

definition f32_operands_of :: "f32_api_env \<Rightarrow> gemm_call \<Rightarrow> dlp_gemm_post_op \<Rightarrow> f32_operands" where
  "f32_operands_of env call first_node =
     (let x = read_operands call;
          ta = dlp_is_trans (dlp_param_map_netlib_to_dlp_trans (gc_transa call));
          tb = dlp_is_trans (dlp_param_map_netlib_to_dlp_trans (gc_transb call));
          is_row_major = row_char (gc_order call);
          avx512_on_non_zen3 = (avx512_supported (ae_cpu env) \<and> \<not> arch_is_zen3 (ae_cpu env));
          has_valid_metadata = (case gc_metadata call of None \<Rightarrow> False | Some md \<Rightarrow> md_seq_length (cm_ops md) \<noteq> 0)
      in if \<not> (gc_m call = 1 \<or> gc_n call = 1)
         then f32_matrix_operands is_row_major (avx512_on_non_zen3 \<or> \<not> has_valid_metadata) ta tb x
         else f32_vector_operands is_row_major (op_code first_node = POST_OPS_DISABLE) ta tb x)"

definition aocl_gemm_f32f32f32of32 :: "f32_api_env \<Rightarrow> rt_state \<Rightarrow> gemm_call \<Rightarrow> f32_result" where
  "aocl_gemm_f32f32f32of32 env st call =
     (if \<not> avx2fma3_supported (ae_cpu env) then Some (st, Inl DLP_CLSC_NOT_SUPPORTED)
      else
        let err_no = check_call call;
            is_row_major = row_char (gc_order call);
            is_column_major = col_char (gc_order call);
            mtag_a = dlp_param_map_char_to_lpmtag (gc_mem_format_a call);
            mtag_b = dlp_param_map_char_to_lpmtag (gc_mem_format_b call)
        in if err_no \<noteq> DLP_CLSC_SUCCESS then Some (st, Inl err_no)
           else if is_row_major \<and> mtag_a = REORDERED then Some (st, Inl DLP_CLSC_NOT_SUPPORTED)
           else if is_column_major \<and> (mtag_b = REORDERED \<or> mtag_a = REORDERED) then Some (st, Inl DLP_CLSC_NOT_SUPPORTED)
           else
             let (st, rntm_g) = dlp_rntm_init_from_global (ae_rt env) st (ae_rntm env);
                 lcntx_l = dlp_gemm_get_global_cntx_obj (init_table (ae_cpu env)) (op_type_code F32F32F32OF32)
             in (case dlp_gemm_upd_cntx_with_metadata (Some lcntx_l) (map_option cm_tuning (gc_metadata call)) of
                   (_, None) \<Rightarrow> Some (st, Inl DLP_CLSC_NULL_POINTER)
                 | (err, Some lcntx_l) \<Rightarrow>
                     if err \<noteq> DLP_CLSC_SUCCESS then Some (st, Inl err)
                     else (case dlp_gemm_translate_to_post_ops_list (map_option cm_ops (gc_metadata call)) (Some (ae_nodes env)) (gc_c call)
                                  (gc_m call) (gc_n call) of
                             None \<Rightarrow> None
                           | Some (err, []) \<Rightarrow> if err \<noteq> DLP_CLSC_SUCCESS then Some (st, Inl err) else None
                           | Some (err, node # nodes) \<Rightarrow>
                               if err \<noteq> DLP_CLSC_SUCCESS then Some (st, Inl err)
                               else
                                 let x = f32_operands_of env call node
                                 in (case f32_context env call x (node # nodes) lcntx_l of
                                       Inl err \<Rightarrow> Some (st, Inl err)
                                     | Inr (lcntx_l, invokeRD) \<Rightarrow>
                                         map_option (\<lambda>l. (st, Inr l)) (f32_launch_of env x lcntx_l invokeRD rntm_g (node # nodes))))))"

section \<open>The operands denote the caller's product\<close>

text \<open>The product handed on is the caller's, or the transposed one with the operands exchanged; the strides are those that order,
  transposition and leading dimensions mean.\<close>

definition f32_denotes :: "gemm_call \<Rightarrow> f32_operands \<Rightarrow> bool" where
  "f32_denotes call x \<longleftrightarrow>
     (let g = fo_args x;
          (rs_a, cs_a) = dlp_reorder_plain_strides (gc_order call) (dlp_param_map_netlib_to_dlp_trans (gc_transa call)) (gc_lda call);
          (rs_b, cs_b) = dlp_reorder_plain_strides (gc_order call) (dlp_param_map_netlib_to_dlp_trans (gc_transb call)) (gc_ldb call);
          (rs_c, cs_c) = dlp_reorder_plain_strides (gc_order call) DLP_NO_TRANSPOSE (gc_ldc call)
      in fa_k g = gc_k call \<and>
         (fa_m g = gc_m call \<and> fa_n g = gc_n call \<and> fo_a x = gc_a call \<and> fo_b x = gc_b call \<and>
          (fa_rs_a g, fa_cs_a g) = (rs_a, cs_a) \<and> (fa_rs_b g, fa_cs_b g) = (rs_b, cs_b) \<and> (fa_rs_c g, fa_cs_c g) = (rs_c, cs_c) \<or>
          fa_m g = gc_n call \<and> fa_n g = gc_m call \<and> fo_a x = gc_b call \<and> fo_b x = gc_a call \<and>
          (fa_rs_a g, fa_cs_a g) = (cs_b, rs_b) \<and> (fa_rs_b g, fa_cs_b g) = (cs_a, rs_a) \<and> (fa_rs_c g, fa_cs_c g) = (cs_c, rs_c)))"

lemma trans_of_char:
  "notrans_char x \<Longrightarrow> dlp_param_map_netlib_to_dlp_trans x = DLP_NO_TRANSPOSE"
  "trans_char x \<Longrightarrow> dlp_param_map_netlib_to_dlp_trans x = DLP_TRANSPOSE"
  by (auto simp: notrans_char_def trans_char_def dlp_param_map_netlib_to_dlp_trans_def)

lemmas operand_steps = transpose_product_def exchange_operands_def transpose_strides_def pack_tags_def

lemma operands_denote:
  assumes "check_call call = DLP_CLSC_SUCCESS"
  shows "f32_denotes call (f32_operands_of env call node)"
proof -
  note c = check_call_ok [OF assms]
  consider (row) "row_char (gc_order call)" "gc_order call = CHR ''r'' \<or> gc_order call = CHR ''R''"
    | (col) "\<not> row_char (gc_order call)" "\<not> (gc_order call = CHR ''r'' \<or> gc_order call = CHR ''R'')" by (auto simp: row_char_def)
  note order = this
  obtain ta where ta: "dlp_param_map_netlib_to_dlp_trans (gc_transa call) = (if ta then DLP_TRANSPOSE else DLP_NO_TRANSPOSE)"
    using c(6) trans_of_char [of "gc_transa call"] by (metis (full_types))
  obtain tb where tb: "dlp_param_map_netlib_to_dlp_trans (gc_transb call) = (if tb then DLP_TRANSPOSE else DLP_NO_TRANSPOSE)"
    using c(7) trans_of_char [of "gc_transb call"] by (metis (full_types))
  show ?thesis
    using order
  proof cases
    case row
    then show ?thesis
      by (cases ta; cases tb; simp add: f32_denotes_def f32_operands_of_def f32_matrix_operands_def f32_vector_operands_def operand_steps
          read_operands_def Let_def ta tb dlp_is_trans_def dlp_is_notrans_def dlp_reorder_plain_strides_def)
  next
    case col
    then show ?thesis
      by (cases ta; cases tb; simp add: f32_denotes_def f32_operands_of_def f32_matrix_operands_def f32_vector_operands_def operand_steps
          read_operands_def Let_def ta tb dlp_is_trans_def dlp_is_notrans_def dlp_reorder_plain_strides_def)
  qed
qed

section \<open>A launched call\<close>

lemma f32_table: "blksz_ok (cx_blksz (dlp_gemm_get_global_cntx_obj (init_table c) (op_type_code F32F32F32OF32)))"
proof -
  have i: "table_index (op_type_code F32F32F32OF32) = 2" by (simp only: table_index_op) simp
  show ?thesis unfolding get_cntx_entry i by (simp add: map_of_cpu_def table_map_defs Let_def blksz_ok_def)
qed

lemma f32_context_ok:
  assumes "f32_context env call x nodes c0 = Inr (c, rd)" "blksz_ok (cx_blksz c0)"
  shows "cntx_wf c"
proof -
  let ?c0 = "c0\<lparr>cx_dlp_kernel_hndl := (cx_dlp_kernel_hndl c0)\<lparr>kh_kernel_base := 0\<rparr>\<rparr>"
  let ?e = "f32_engine (af_engine_avx2 env) (fo_args x) (\<lambda>c. fst (af_shape env call (fo_order x) (fo_args x) nodes c))"
  define c2 where "c2 = dlp_init_and_get_kernel_hndl DLP_KERNEL_F32F32F32OF32 ?e ?c0"
  obtain h c3 where c3: "dlp_init_and_get_packb_kernel_hndl DLP_KERNEL_F32F32F32OF32
      (ae_packb env DLP_KERNEL_F32F32F32OF32 (fa_n (fo_args x)) (fa_k (fo_args x)) (fa_rs_b (fo_args x)) (fa_cs_b (fo_args x)))
      ((ae_hndl env)\<lparr>ph_kernel_base := 0\<rparr>) c2 = (h, c3)" by force
  have fin: "kh_kernel_base (cx_dlp_kernel_hndl c2) \<noteq> 0" "c = dlp_upd_pack_strides DLP_KERNEL_F32F32F32OF32 c3"
    using assms(1) unfolding f32_context_def Let_def c2_def [symmetric] c3 prod.case by (auto split: if_splits)
  have "0 < ki_kc (?e ?c0)" using assms(2) by (simp add: f32_engine_def blksz_ok_def)
  then have "cntx_wf c2" using fin(1) assms(2) unfolding c2_def by (intro kernel_hndl_wf) simp_all
  then show ?thesis using packb_hndl_ok(2) [OF c3] by (simp add: fin(2) cntx_wf_ok)
qed

text \<open>What an accepted call was launched with.\<close>

lemma launch_of_cases:
  assumes "f32_launch_of env x c rd r nodes = Some l"
  obtains (tiny) "fl_operands l = x" "fl_cntx l = c" "fl_tiny l" "fl_runs l = [Some (dlp_gemm_rowvar_tiny_f32f32f32of32 (driver_env env rd c) (fo_args x) c)]"
  | (team) comms calls where "fl_operands l = x" "fl_cntx l = c" "\<not> fl_tiny l"
      "openmp_thread_decorator F32 None (ae_decor env) (ae_comms env) (fa_m (fo_args x)) (fa_n (fo_args x)) (fa_k (fo_args x))
         (fa_mtag_a (fo_args x)) (fa_mtag_b (fo_args x)) r c (Some nodes) = Some (comms, calls) \<or>
       thread_decorator F32 None (ae_decor env) (ae_comms env 0) (fa_m (fo_args x)) (fa_n (fo_args x)) (fa_k (fo_args x))
         (fa_mtag_a (fo_args x)) (fa_mtag_b (fo_args x)) r c (Some nodes) = Some (comms, calls)"
      "fl_runs l = map (\<lambda>call. dlp_gemm_rowvar_f32f32f32of32 (driver_env env rd c) (with_tags (fo_args x) call) c (rc_thread call)) calls"
proof (cases "dlp_is_single_thread r \<and> is_tiny_input_f32 (fa_m (fo_args x)) (fa_n (fo_args x)) (fa_k (fo_args x)) c")
  case True
  then show thesis using assms tiny by (auto simp: f32_launch_of_def Let_def)
next
  case False
  let ?d = "if ae_openmp env \<and> \<not> dlp_is_single_thread r
    then openmp_thread_decorator F32 None (ae_decor env) (ae_comms env) (fa_m (fo_args x)) (fa_n (fo_args x)) (fa_k (fo_args x))
           (fa_mtag_a (fo_args x)) (fa_mtag_b (fo_args x)) r c (Some nodes)
    else thread_decorator F32 None (ae_decor env) (ae_comms env 0) (fa_m (fo_args x)) (fa_n (fo_args x)) (fa_k (fo_args x))
           (fa_mtag_a (fo_args x)) (fa_mtag_b (fo_args x)) r c (Some nodes)"
  obtain comms calls where d: "?d = Some (comms, calls)" and l: "l = \<lparr>fl_operands = x, fl_cntx = c, fl_env = driver_env env rd c, fl_tiny = False,
      fl_calls = calls, fl_runs = map (\<lambda>call. dlp_gemm_rowvar_f32f32f32of32 (driver_env env rd c) (with_tags (fo_args x) call) c (rc_thread call)) calls\<rparr>"
    using assms False unfolding f32_launch_of_def Let_def if_not_P [OF False] by auto
  show thesis by (rule team [of comms calls]) (use d l in \<open>simp_all split: if_splits\<close>)
qed

lemma f32_call_cases:
  assumes "aocl_gemm_f32f32f32of32 env st call = Some (st', Inr l)"
  obtains node nodes rd r where "check_call call = DLP_CLSC_SUCCESS" "avx2fma3_supported (ae_cpu env)"
    "dlp_gemm_translate_to_post_ops_list (map_option cm_ops (gc_metadata call)) (Some (ae_nodes env)) (gc_c call) (gc_m call) (gc_n call)
       = Some (DLP_CLSC_SUCCESS, node # nodes)"
    "f32_launch_of env (f32_operands_of env call node) (fl_cntx l) rd r (node # nodes) = Some l" "cntx_wf (fl_cntx l)"
proof -
  let ?md = "map_option cm_tuning (gc_metadata call)"
  obtain st1 r where r: "dlp_rntm_init_from_global (ae_rt env) st (ae_rntm env) = (st1, r)" by (rule prod.exhaust)
  have chk: "check_call call = DLP_CLSC_SUCCESS" "avx2fma3_supported (ae_cpu env)"
    using assms by (auto simp: aocl_gemm_f32f32f32of32_def Let_def split: if_splits prod.splits)
  obtain c1 where c1: "dlp_gemm_upd_cntx_with_metadata (Some (dlp_gemm_get_global_cntx_obj (init_table (ae_cpu env)) (op_type_code F32F32F32OF32))) ?md
      = (DLP_CLSC_SUCCESS, Some c1)"
    using assms by (auto simp: aocl_gemm_f32f32f32of32_def Let_def r simp del: op_type_code.simps split: if_splits prod.splits option.splits)
  obtain node nodes where tr: "dlp_gemm_translate_to_post_ops_list (map_option cm_ops (gc_metadata call)) (Some (ae_nodes env)) (gc_c call) (gc_m call) (gc_n call)
       = Some (DLP_CLSC_SUCCESS, node # nodes)"
    using assms by (auto simp: aocl_gemm_f32f32f32of32_def Let_def r c1 simp del: op_type_code.simps split: if_splits prod.splits option.splits list.splits)
  let ?x = "f32_operands_of env call node"
  obtain c rd where c: "f32_context env call ?x (node # nodes) c1 = Inr (c, rd)" "f32_launch_of env ?x c rd r (node # nodes) = Some l"
    using assms by (auto simp: aocl_gemm_f32f32f32of32_def Let_def r c1 tr simp del: op_type_code.simps split: if_splits prod.splits sum.splits)
  have "fl_cntx l = c" using c(2) by (cases rule: launch_of_cases)
  then show thesis using that [OF chk tr] c f32_context_ok [OF c(1) upd_cntx_success(1) [OF c1 f32_table]] by blast
qed

definition fl_args :: "f32_launch \<Rightarrow> fp_args" where "fl_args l = fo_args (fl_operands l)"

definition fl_depth :: "f32_launch \<Rightarrow> fp_step list" where
  "fl_depth l = (if fl_tiny l \<or> is_vector (fl_args l) then one_block (fl_args l) else all_blocks (fl_args l) (bs_KC (cx_blksz (fl_cntx l))))"

text \<open>An action that writes, if it is a kernel call, a block inside C at its place.\<close>

definition writes_c :: "fp_args \<Rightarrow> fp_action \<Rightarrow> bool" where
  "writes_c g = fp_located True False 1 0 \<lparr>bs_MC = 0, bs_NC = 0, bs_KC = 0, bs_NR = 0, bs_MR = 0\<rparr> g"

lemma writes_c:
  assumes "fp_located True ip kf mn b g' a" "fa_m g' = fa_m g" "fa_n g' = fa_n g" "fa_k g' = fa_k g" "fa_rs_c g' = fa_rs_c g" "fa_cs_c g' = fa_cs_c g"
  shows "writes_c g a"
  using assms by (cases a) (simp_all add: writes_c_def block_inside_def)

lemma one_thread_team: "is_team [\<lparr>thr_n_threads = 1, thr_tid = 0, thr_ic_ways = 1, thr_jc_ways = 1\<rparr>]"
  unfolding is_team_def
  by (intro exI [of _ 1] exI [of _ UNPACKED] exI [of _ DEFAULT]) (simp add: thread_setup_def)

lemma one_thread_share:
  assumes "0 < m" "0 < n" "blksz_ok (cx_blksz cx)"
  shows "share False 1 cx m n \<lparr>thr_n_threads = 1, thr_tid = 0, thr_ic_ways = 1, thr_jc_ways = 1\<rparr> i j \<longleftrightarrow> 0 \<le> i \<and> i < m \<and> 0 \<le> j \<and> j < n"
    (is "?s \<longleftrightarrow> ?in")
proof
  assume ?in
  then show ?s using team_one_share [OF one_thread_team assms(1,2,3), of 1 False i j] by auto
next
  assume ?s
  then show ?in using share_inside [of False 1 cx m n] assms by (metis less_imp_le zero_less_one)
qed

text \<open>The runs of a launch are those of a team: the division, and what each thread does on an element.\<close>

lemma launch_team:
  assumes "aocl_gemm_f32f32f32of32 env st call = Some (st', Inr l)"
  obtains threads gemv bf where "is_team threads" "length threads = length (fl_runs l)" "0 < bf" "gemv \<Longrightarrow> fa_m (fl_args l) = 1 \<or> fa_n (fl_args l) = 1"
    "\<And>t. t < length threads \<Longrightarrow> runs_as (writes_c (fl_args l))
       (\<lambda>i j. if share gemv bf (fl_cntx l) (fa_m (fl_args l)) (fa_n (fl_args l)) (threads ! t) i j then fl_depth l else []) (fl_runs l ! t)"
    "0 < fa_m (fl_args l)" "0 < fa_n (fl_args l)" "0 < fa_k (fl_args l)" "blksz_ok (cx_blksz (fl_cntx l))" "f32_denotes call (fl_operands l)"
proof -
  obtain node nodes rd r where c: "check_call call = DLP_CLSC_SUCCESS" "avx2fma3_supported (ae_cpu env)"
    "f32_launch_of env (f32_operands_of env call node) (fl_cntx l) rd r (node # nodes) = Some l" "cntx_wf (fl_cntx l)"
    using f32_call_cases [OF assms] by metis
  let ?x = "f32_operands_of env call node" let ?g = "fo_args ?x" and ?cx = "fl_cntx l" and ?e = "driver_env env rd (fl_cntx l)"
  have x: "fl_operands l = ?x" using c(3) by (cases rule: launch_of_cases)
  have den: "f32_denotes call (fl_operands l)" using operands_denote [OF c(1)] x by simp
  have pos: "0 < fa_m ?g" "0 < fa_n ?g" "0 < fa_k ?g"
    using den check_call_ok(2-4) [OF c(1)] unfolding x by (auto simp: f32_denotes_def Let_def dim_ok_def split: prod.splits)
  have ok: "blksz_ok (cx_blksz ?cx)" by (rule cntx_wf_ok [OF c(4)])
  have gv: "f32_gemv ?e ?g = is_vector ?g" using c(2) by (simp add: f32_gemv_def is_vector_def driver_env_def)
  note fin = that [OF _ _ _ _ _ pos [folded x, folded fl_args_def] ok den]
  from c(3) show thesis
  proof (cases rule: launch_of_cases)
    case tiny
    let ?th = "\<lparr>thr_n_threads = 1, thr_tid = 0, thr_ic_ways = 1, thr_jc_ways = 1\<rparr>"
    note runs = tiny(4)
    have "runs_as (writes_c ?g) (\<lambda>i j. if share False 1 ?cx (fa_m ?g) (fa_n ?g) ?th i j then fl_depth l else []) (fl_runs l ! 0)"
    proof -
      have "runs_as (writes_c ?g) (whole_steps ?g) (fl_runs l ! 0)"
        unfolding runs nth_Cons_0 by (rule runs_as_weaken [OF tiny_run [OF pos]], erule writes_c) (simp_all add: tiny_tags_def Let_def)
      moreover have "whole_steps ?g = (\<lambda>i j. if share False 1 ?cx (fa_m ?g) (fa_n ?g) ?th i j then fl_depth l else [])"
        using tiny(3) by (intro ext) (simp add: whole_steps_def one_thread_share [OF pos(1,2) ok] fl_depth_def fl_args_def x)
      ultimately show ?thesis by simp
    qed
    then show thesis by (intro fin [OF one_thread_team, of 1 False]) (simp_all add: runs fl_args_def x)
  next
    case (team comms calls)
    note runs = team(5)
    have all: "is_team (map rc_thread calls)" using team(4) by (elim disjE) (erule openmp_team [OF _ pos(1,2) ok], erule single_team)
    have run: "runs_as (writes_c ?g) (\<lambda>i j. if share (is_vector ?g) (bs_MR (cx_blksz ?cx)) ?cx (fa_m ?g) (fa_n ?g) (rc_thread call) i j then fl_depth l else [])
        (dlp_gemm_rowvar_f32f32f32of32 ?e (with_tags ?g call) ?cx (rc_thread call))" for call
    proof -
      have f: "f32_gemv ?e (with_tags ?g call) = is_vector ?g" using gv by (simp add: f32_gemv_def with_tags_def)
      have s: "share_steps gemv bf ?cx KC (with_tags ?g call) th = share_steps gemv bf ?cx KC ?g th" for gemv bf KC th
        by (intro ext) (simp add: share_steps_def with_tags_def one_block_def all_blocks_def depth_block_step_def [abs_def])
      have "share_steps (is_vector ?g) (bs_MR (cx_blksz ?cx)) ?cx (bs_KC (cx_blksz ?cx)) ?g (rc_thread call) =
          (\<lambda>i j. if share (is_vector ?g) (bs_MR (cx_blksz ?cx)) ?cx (fa_m ?g) (fa_n ?g) (rc_thread call) i j then fl_depth l else [])"
        using team(3) by (intro ext) (simp add: share_steps_def fl_depth_def fl_args_def x)
      moreover have "runs_as (writes_c ?g) (share_steps (is_vector ?g) (bs_MR (cx_blksz ?cx)) ?cx (bs_KC (cx_blksz ?cx)) ?g (rc_thread call))
          (dlp_gemm_rowvar_f32f32f32of32 ?e (with_tags ?g call) ?cx (rc_thread call))"
        by (rule runs_as_weaken [OF f32_run [of ?cx "with_tags ?g call" ?e "rc_thread call", unfolded f s]], (use pos ok in \<open>simp_all add: with_tags_def\<close>)[4],
            erule writes_c) (simp_all add: with_tags_def f32_tags_def Let_def)
      ultimately show ?thesis by simp
    qed
    show thesis by (rule fin [OF all, of "bs_MR (cx_blksz ?cx)" "is_vector ?g"])
        (use run ok in \<open>auto simp: runs fl_args_def x is_vector_def blksz_ok_def\<close>)
  qed
qed


section \<open>Witnesses\<close>

definition example_f32_api :: f32_api_env where
  "example_f32_api = api_env.extend example_api
     \<lparr>af_shape = (\<lambda>_ _ _ _ c. (\<lparr>tc_mr = 6, tc_nr = 64, tc_thread_info = cx_thread_info c, tc_kernel = 1\<rparr>, False)), af_engine_avx2 = False,
      af_kernels_zen4 = True, af_packa_mr8 = plain_strides, af_packa_mr16 = plain_strides, af_packa = plain_strides, af_packb = plain_strides\<rparr>"

lemma example_f32_context:
  "\<exists>c. f32_context example_f32_api call x nodes c0 = Inr (c, False)" if "gc_metadata call = None"
  using that by (simp add: f32_context_def Let_def f32_engine_def dlp_init_and_get_kernel_hndl_def dlp_init_and_get_packb_kernel_hndl_def
      getKernelDatatype_valid_def dlp_gemm_validate_metadata_with_lcntx_def example_f32_api_def example_api_def api_env.defs)

lemma example_f32_launches:
  assumes "check_call call = DLP_CLSC_SUCCESS" "gc_metadata call = None" "row_char (gc_order call)" "dlp_param_map_char_to_lpmtag (gc_mem_format_a call) \<noteq> REORDERED"
  shows "\<exists>st' l. aocl_gemm_f32f32f32of32 example_f32_api st call = Some (st', Inr l)"
proof -
  obtain st1 r where r: "dlp_rntm_init_from_global (ae_rt example_f32_api) st (ae_rntm example_f32_api) = (st1, r)" by (rule prod.exhaust)
  have nodes: "ae_nodes example_f32_api = replicate 8 disabled_node" "ae_cpu example_f32_api = example_cpu False True False"
    "ae_decor example_f32_api = Thread_Decor.example_env" by (simp_all add: example_f32_api_def example_api_def api_env.defs)
  have launch: "\<exists>l. f32_launch_of example_f32_api x c rd r nd = Some l" for x c rd nd
    by (simp add: f32_launch_of_def Let_def thread_decorator_def openmp_thread_decorator_def init_comms_def nodes Thread_Decor.example_env_def split_beta)
  let ?nodes = "(replicate 8 disabled_node)[0 := disabled_node]"
  have tr: "dlp_gemm_translate_to_post_ops_list None (Some (replicate 8 disabled_node)) (gc_c call) (gc_m call) (gc_n call) = Some (DLP_CLSC_SUCCESS, disabled_node # replicate 7 disabled_node)"
    by (simp add: dlp_gemm_translate_to_post_ops_list_def Let_def numeral_eq_Suc)
  obtain c where c: "f32_context example_f32_api call (f32_operands_of example_f32_api call disabled_node) (disabled_node # replicate 7 disabled_node)
      (dlp_gemm_get_global_cntx_obj (init_table (ae_cpu example_f32_api)) (op_type_code F32F32F32OF32)) = Inr (c, False)"
    using example_f32_context [OF assms(2)] by blast
  obtain l where l: "f32_launch_of example_f32_api (f32_operands_of example_f32_api call disabled_node) c False r (disabled_node # replicate 7 disabled_node) = Some l"
    using launch by blast
  have "avx2fma3_supported (ae_cpu example_f32_api)" "\<not> col_char (gc_order call)" using assms(3) char_excl(1) by (auto simp: nodes example_cpu_def)
  then show ?thesis using assms tr c l
    by (simp add: aocl_gemm_f32f32f32of32_def Let_def r dlp_gemm_upd_cntx_with_metadata_def nodes(1) del: op_type_code.simps)
qed

definition f32_example_call :: "md_t \<Rightarrow> md_t \<Rightarrow> md_t \<Rightarrow> gemm_call" where
  "f32_example_call m n k = (example_call m n k)\<lparr>gc_metadata := None\<rparr>"


end
