(* ===== verification/F32_Vector.thy ===== *)
theory F32_Vector
  imports F32_Api Reorder_Api
begin

text \<open>
  A one-column B prepared with the reorder functions of \<^verbatim>\<open>classic/aocl_gemm_f32f32f32of32_utils.c\<close> and multiplied by the entry point of
  \<open>F32_Api\<close>: the size of its buffer, and the calls that read past it.
\<close>

section \<open>The size of the buffer\<close>

definition aocl_get_reorder_buf_size_f32f32f32of32 ::
  "cpu \<Rightarrow> char \<Rightarrow> char \<Rightarrow> char \<Rightarrow> md_t \<Rightarrow> md_t \<Rightarrow> tuning_metadata option \<Rightarrow> dlp_clsc_err_t + msz_t" where
  "aocl_get_reorder_buf_size_f32f32f32of32 c order tr mat_type k n md =
     (let err_no = snd (AOCL_DLP_REORDER_BUF_SIZE_CHECK order tr mat_type k n)
      in if err_no \<noteq> DLP_CLSC_SUCCESS then Inl err_no
         else if dlp_param_map_char_to_lpmat_type mat_type \<noteq> B_MATRIX then Inl DLP_CLSC_NOT_SUPPORTED
         else (case dlp_gemm_upd_cntx_with_metadata
                      (Some (dlp_gemm_get_global_cntx_obj (init_table c) (op_type_code F32F32F32OF32))) md of
                 (_, None) \<Rightarrow> Inl DLP_CLSC_NULL_POINTER
               | (err_no, Some lcntx_l) \<Rightarrow>
                   if err_no \<noteq> DLP_CLSC_SUCCESS then Inl err_no
                   else if dlp_gemm_validate_metadata_with_lcntx md (Some lcntx_l) \<noteq> DLP_CLSC_SUCCESS
                   then Inl (dlp_gemm_validate_metadata_with_lcntx md (Some lcntx_l))
                   else
                     let NR = bs_NR (cx_blksz lcntx_l)
                     in if \<not> dlp_reorder_ref_blocks_legal NR NR (bs_KC (cx_blksz lcntx_l)) 1 then Inl DLP_CLSC_INVALID_BLOCK_PARAMS
                        else
                          let n_reorder = (if n = 1 then 1 else (n + NR - 1) sdiv NR * NR)
                          in (case dlp_reorder_size_bytes k n_reorder 4 0 of
                                None \<Rightarrow> Inl DLP_CLSC_INVALID_MATRIX_DIMENSION
                              | Some size_req \<Rightarrow> Inr size_req)))"

lemma vector_size:
  assumes "aocl_get_reorder_buf_size_f32f32f32of32 c order tr mat_type k 1 md = Inr sz" "k < 2 ^ 31"
  shows "uint sz = 4 * k"
proof -
  have "dlp_reorder_size_bytes k 1 4 0 = Some sz"
    using assms(1) by (auto simp: aocl_get_reorder_buf_size_f32f32f32of32_def Let_def simp del: op_type_code.simps split: if_splits option.splits prod.splits)
  then show ?thesis using assms(2) by (subst (asm) size_bytes_exact) simp_all
qed

section \<open>Reading past it\<close>

text \<open>C15: A reordered B of one column can be read past its end. The call exchanges the operands when A is transposed, C has leading
  dimension one and there are no post operations, so that the reordered column becomes the row A of a one-row product; the column
  is contiguous, but the row keeps the leading dimension of the original column as its stride and loses its tag. Every
  thread then copies the row with that stride, and with a leading dimension above one the last element copied lies beyond the buffer
  of the size the library asks for.\<close>

theorem reordered_vector_overread:
  assumes "aocl_gemm_f32f32f32of32 env st call = Some (st', Inr l)"
    and "row_char (gc_order call)" "gc_n call = 1" "1 < gc_m call" "1 < gc_k call" "trans_char (gc_transa call)" "notrans_char (gc_transb call)"
    and "dlp_param_map_char_to_lpmtag (gc_mem_format_b call) = REORDERED" "1 < gc_ldb call" "gc_ldc call = 1"
    and "case gc_metadata call of None \<Rightarrow> True | Some md \<Rightarrow> md_seq_length (cm_ops md) \<le> 0"
    and "aocl_get_reorder_buf_size_f32f32f32of32 c (gc_order call) (gc_transb call) mat_type (gc_k call) 1 md = Inr sz"
  shows "fo_a (fl_operands l) = gc_b call \<and> fa_cs_a (fl_args l) = gc_ldb call \<and> fl_runs l \<noteq> [] \<and>
    (\<forall>run \<in> set (fl_runs l). \<exists>acts. run = Some acts \<and> Fill_a 0 1 (gc_k call) \<in> set acts) \<and>
    uint sz < 4 * ((gc_k call - 1) * fa_cs_a (fl_args l) + 1)"
proof -
  obtain node nodes rd r where c: "check_call call = DLP_CLSC_SUCCESS" "avx2fma3_supported (ae_cpu env)"
    "dlp_gemm_translate_to_post_ops_list (map_option cm_ops (gc_metadata call)) (Some (ae_nodes env)) (gc_c call) (gc_m call) (gc_n call)
       = Some (DLP_CLSC_SUCCESS, node # nodes)"
    "f32_launch_of env (f32_operands_of env call node) (fl_cntx l) rd r (node # nodes) = Some l"
    using f32_call_cases [OF assms(1)] by metis
  let ?x = "f32_operands_of env call node" and ?e = "driver_env env rd (fl_cntx l)"
  have "node # nodes = (ae_nodes env)[0 := disabled_node]"
    using c(3) assms(11) by (auto simp: dlp_gemm_translate_to_post_ops_list_def Let_def split: option.splits if_splits)
  then have "op_code node = POST_OPS_DISABLE" by (cases "ae_nodes env") (auto simp: disabled_node_def dlp_gemm_set_node_params_def)
  then have x: "fo_a ?x = gc_b call" "fa_m (fo_args ?x) = 1" "fa_n (fo_args ?x) = gc_m call" "fa_k (fo_args ?x) = gc_k call" "fa_cs_a (fo_args ?x) = gc_ldb call"
    using assms(2-10) trans_of_char by (simp_all add: f32_operands_of_def f32_vector_operands_def operand_steps read_operands_def Let_def dlp_is_trans_def)
  have gv: "f32_gemv ?e (with_tags (fo_args ?x) rc)" "f32_gemv ?e (fo_args ?x)" for rc
    using c(2) x(2) by (simp_all add: f32_gemv_def driver_env_def with_tags_def)
  have row: "Fill_a 0 1 (gc_k call) \<in> set acts"
    if "dlp_gemm_rowvar_f32f32f32of32 ?e (with_tags (fo_args ?x) rc) (fl_cntx l) th = Some acts" for rc th acts
    using that gv(1) [of rc] x assms(4,9)
    by (auto simp: dlp_gemm_rowvar_f32f32f32of32_def f32_m1_def f32_row_a_def with_tags_def Let_def split: prod.splits)
  have tiny: "Fill_a 0 1 (gc_k call) \<in> set (dlp_gemm_rowvar_tiny_f32f32f32of32 ?e (fo_args ?x) (fl_cntx l))"
    using gv(2) x assms(4,9) by (auto simp: dlp_gemm_rowvar_tiny_f32f32f32of32_def tiny_m1_def tiny_row_a_def Let_def split_beta)
  obtain threads where t: "is_team threads" "length threads = length (fl_runs l)"
    and run: "\<And>t. t < length threads \<Longrightarrow> \<exists>acts. fl_runs l ! t = Some acts"
    using launch_team [OF assms(1)] unfolding runs_as_def by metis
  obtain ic jc :: md_t where w: "0 < ic" "0 < jc" "length threads = nat (ic * jc)" using t(1) unfolding is_team_def by auto
  have "fl_runs l \<noteq> []" using t(2) w(3) mult_pos_pos [OF w(1,2)] by auto
  moreover have "\<exists>acts. rn = Some acts \<and> Fill_a 0 1 (gc_k call) \<in> set acts" if rn: "rn \<in> set (fl_runs l)" for rn
  proof -
    obtain acts where a: "rn = Some acts" using run rn t(2) unfolding in_set_conv_nth by metis
    from c(4) show ?thesis by (cases rule: launch_of_cases) (use a rn row tiny in auto)
  qed
  moreover have "fl_operands l = ?x" using c(4) by (cases rule: launch_of_cases)
  moreover have "uint sz < 4 * ((gc_k call - 1) * gc_ldb call + 1)"
  proof -
    have "(gc_k call - 1) * 2 \<le> (gc_k call - 1) * gc_ldb call" using assms(5,9) by (intro mult_left_mono) simp_all
    then show ?thesis using vector_size [OF assms(12)] check_call_ok(4) [OF c(1)] assms(5) by (simp add: dim_ok_def)
  qed
  ultimately show ?thesis using x by (simp add: fl_args_def)
qed

theorem reordered_vector_overread_witness:
  "\<exists>st' l sz. aocl_gemm_f32f32f32of32 example_f32_api (rt_global_init, rt_local_init)
       ((f32_example_call 20 1 9)\<lparr>gc_transa := CHR ''t'', gc_lda := 20, gc_ldb := 3, gc_mem_format_b := CHR ''r''\<rparr>) = Some (st', Inr l) \<and>
     aocl_get_reorder_buf_size_f32f32f32of32 (example_cpu False True False) (CHR ''r'') (CHR ''n'') (CHR ''B'') 9 1 None = Inr sz \<and>
     (\<forall>run \<in> set (fl_runs l). \<exists>acts. run = Some acts \<and> Fill_a 0 1 9 \<in> set acts) \<and> uint sz < 4 * (8 * 3 + 1)"
proof -
  let ?call = "(f32_example_call 20 1 9)\<lparr>gc_transa := CHR ''t'', gc_lda := 20, gc_ldb := 3, gc_mem_format_b := CHR ''r''\<rparr>"
  have call: "check_call ?call = DLP_CLSC_SUCCESS" "gc_metadata ?call = None" "row_char (gc_order ?call)" "gc_n ?call = 1" "1 < gc_m ?call" "1 < gc_k ?call"
    "trans_char (gc_transa ?call)" "notrans_char (gc_transb ?call)" "dlp_param_map_char_to_lpmtag (gc_mem_format_b ?call) = REORDERED" "1 < gc_ldb ?call"
    "gc_ldc ?call = 1" "dlp_param_map_char_to_lpmtag (gc_mem_format_a ?call) \<noteq> REORDERED"
    by (simp_all add: check_call_def AOCL_DLP_GEMM_CHECK_def f32_example_call_def example_call_def DLP_MAX_GEMM_DIM_def row_char_def notrans_char_def
        trans_char_def mtag_char_def col_char_def dlp_param_map_char_to_lpmtag_def)
  obtain st' l where l: "aocl_gemm_f32f32f32of32 example_f32_api (rt_global_init, rt_local_init) ?call = Some (st', Inr l)"
    using example_f32_launches [OF call(1-3,12)] by blast
  have "\<exists>sz. aocl_get_reorder_buf_size_f32f32f32of32 (example_cpu False True False) (CHR ''r'') (CHR ''n'') (CHR ''B'') 9 1 None = Inr sz"
  proof -
    have "bs_NR (cx_blksz (dlp_gemm_get_global_cntx_obj (init_table (example_cpu False True False)) (op_type_code F32F32F32OF32))) = 64"
      "bs_KC (cx_blksz (dlp_gemm_get_global_cntx_obj (init_table (example_cpu False True False)) (op_type_code F32F32F32OF32))) \<in> {512, 1024}" by code_simp+
    moreover have "dlp_reorder_size_bytes 9 1 4 0 = Some 36" by code_simp
    moreover have "snd (AOCL_DLP_REORDER_BUF_SIZE_CHECK (CHR ''r'') (CHR ''n'') (CHR ''B'') 9 1) = DLP_CLSC_SUCCESS"
      "dlp_param_map_char_to_lpmat_type (CHR ''B'') = B_MATRIX" by code_simp+
    ultimately show ?thesis
      by (auto simp: aocl_get_reorder_buf_size_f32f32f32of32_def Let_def dlp_gemm_upd_cntx_with_metadata_def dlp_gemm_validate_metadata_with_lcntx_def
          dlp_reorder_ref_blocks_legal_def smod_0_iff_dvd simp del: op_type_code.simps)
  qed
  then obtain sz where sz: "aocl_get_reorder_buf_size_f32f32f32of32 (example_cpu False True False) (CHR ''r'') (CHR ''n'') (CHR ''B'') 9 1 None = Inr sz" by blast
  have o: "gc_order ?call = CHR ''r''" "gc_transb ?call = CHR ''n''" "gc_k ?call = 9" "gc_ldb ?call = 3" by (simp_all add: f32_example_call_def example_call_def)
  note main = reordered_vector_overread [OF l call(3-11) _, unfolded o, OF _ sz]
  show ?thesis using main l sz call(2) by (intro exI [of _ st'] exI [of _ l] exI [of _ sz]) auto
qed

end
